(* ===== verification/Prelude.thy ===== *)
theory Prelude
  imports Complex_Main "HOL-Library.AList" "HOL-Library.Sublist" "HOL-Library.Multiset"
begin

text \<open>
  What every component of the model shares: the errors of the service and the result type
  that carries them, JavaScript values and objects, strings and the string operations of
  the JavaScript library that the source calls, stable sorting (\<open>Array.prototype.sort\<close>), and
  the interface of a keyed store with its laws.
\<close>

named_theorems outcome_simps \<open>case analysis of results, one equation per constructor\<close>
named_theorems str_simps \<open>splitting, joining and printing of strings\<close>

section \<open>Errors and results\<close>

text \<open>
  The exceptions the source throws and catches. The HTTP exceptions of NestJS carry a \<open>status\<close>;
  a plain \<open>Error\<close> and the run-time \<open>TypeError\<close> of a property access on \<open>undefined\<close> carry none.
  \<open>HttpError\<close> is any other thrown value, such as the failed requests of axios: its \<open>status\<close>, its
  \<open>message\<close> and the message in the data of its response, if it has one.
\<close>

datatype js_error =
    BadRequest string
  | Unauthorized string
  | PaymentRequired string
  | Forbidden string
  | NotFound string
  | Unprocessable string
  | NotImplemented string
  | PlainError string
  | TypeError string
  | HttpError "int option" string "string option"

type_synonym 'a result = "js_error + 'a"

fun error_status :: "js_error \<Rightarrow> int option" where
  "error_status (BadRequest _) = Some 400"
| "error_status (Unauthorized _) = Some 401"
| "error_status (PaymentRequired _) = Some 402"
| "error_status (Forbidden _) = Some 403"
| "error_status (NotFound _) = Some 404"
| "error_status (Unprocessable _) = Some 422"
| "error_status (NotImplemented _) = Some 501"
| "error_status (PlainError _) = None"
| "error_status (TypeError _) = None"
| "error_status (HttpError n _ _) = n"

fun error_message :: "js_error \<Rightarrow> string" where
  "error_message (BadRequest m) = m"
| "error_message (Unauthorized m) = m"
| "error_message (PaymentRequired m) = m"
| "error_message (Forbidden m) = m"
| "error_message (NotFound m) = m"
| "error_message (Unprocessable m) = m"
| "error_message (NotImplemented m) = m"
| "error_message (PlainError m) = m"
| "error_message (TypeError m) = m"
| "error_message (HttpError _ m _) = m"

text \<open>\<open>e.response?.data?.message\<close>: the \<open>response\<close> of a NestJS exception has no \<open>data\<close>.\<close>

fun response_message :: "js_error \<Rightarrow> string option" where
  "response_message (HttpError _ _ m) = m"
| "response_message _ = None"

text \<open>Sequencing: the first error ends the computation, as a thrown exception does.\<close>

definition and_then :: "'a result \<Rightarrow> ('a \<Rightarrow> 'b result) \<Rightarrow> 'b result" where
  "and_then r f = (case r of Inl e \<Rightarrow> Inl e | Inr a \<Rightarrow> f a)"

lemma and_then_Inl [simp, outcome_simps]: "and_then (Inl e) f = Inl e"
  and and_then_Inr [simp, outcome_simps]: "and_then (Inr a) f = f a"
  by (simp_all add: and_then_def)

lemma and_then_eq_Inr [outcome_simps]:
  "and_then r f = Inr b \<longleftrightarrow> (\<exists>a. r = Inr a \<and> f a = Inr b)"
  by (cases r) auto

lemma and_then_eq_Inl [outcome_simps]:
  "and_then r f = Inl e \<longleftrightarrow> r = Inl e \<or> (\<exists>a. r = Inr a \<and> f a = Inl e)"
  by (cases r) auto

text \<open>A loop body that may throw, over a list: the results in order, or the first error.\<close>

fun map_result :: "('a \<Rightarrow> 'b result) \<Rightarrow> 'a list \<Rightarrow> 'b list result" where
  "map_result f [] = Inr []"
| "map_result f (x # xs) =
     and_then (f x) (\<lambda>y. and_then (map_result f xs) (\<lambda>ys. Inr (y # ys)))"

lemma map_result_Inr:
  "map_result f xs = Inr ys \<longleftrightarrow> list_all2 (\<lambda>x y. f x = Inr y) xs ys"
  by (induction xs arbitrary: ys) (auto simp: outcome_simps list_all2_Cons1)

lemma map_result_total: "(\<And>x. x \<in> set xs \<Longrightarrow> f x = Inr (g x)) \<Longrightarrow> map_result f xs = Inr (map g xs)"
  by (induction xs) auto

lemma find_app: "find P (xs @ ys) = (case find P xs of None \<Rightarrow> find P ys | Some x \<Rightarrow> Some x)"
  by (induction xs) auto

section \<open>JavaScript values\<close>

text \<open>
  JSON values. A JSON number is a finite decimal, so it is a rational; objects keep the
  order in which their keys were first written. \<open>undefined\<close> is the \<open>None\<close> of an option
  where it can occur.
\<close>

datatype json =
    JNull
  | JBool bool
  | JNum rat
  | JStr string
  | JArr "json list"
  | JObj "(string \<times> json) list"

fun truthy :: "json \<Rightarrow> bool" where
  "truthy JNull = False"
| "truthy (JBool b) = b"
| "truthy (JNum n) = (n \<noteq> 0)"
| "truthy (JStr s) = (s \<noteq> [])"
| "truthy (JArr _) = True"
| "truthy (JObj _) = True"

definition truthy_opt :: "json option \<Rightarrow> bool" where
  "truthy_opt v = (case v of None \<Rightarrow> False | Some j \<Rightarrow> truthy j)"

lemma truthy_opt_simps [simp]: "truthy_opt None = False" "truthy_opt (Some j) = truthy j"
  by (simp_all add: truthy_opt_def)

text \<open>Falsy strings: \<open>undefined\<close>, \<open>null\<close> and the empty string.\<close>

definition str_or :: "string option \<Rightarrow> string \<Rightarrow> string" where
  "str_or s d = (case s of None \<Rightarrow> d | Some t \<Rightarrow> if t = [] then d else t)"

definition nonempty_str :: "string option \<Rightarrow> bool" where
  "nonempty_str s = (case s of None \<Rightarrow> False | Some t \<Rightarrow> t \<noteq> [])"

lemma str_or_simps [simp]:
  "str_or None d = d" "str_or (Some []) d = d" "t \<noteq> [] \<Longrightarrow> str_or (Some t) d = t"
  by (simp_all add: str_or_def)

lemma nonempty_str_simps [simp]:
  "\<not> nonempty_str None" "nonempty_str (Some t) \<longleftrightarrow> t \<noteq> []"
  by (simp_all add: nonempty_str_def)

section \<open>Keyed stores\<close>

text \<open>
  The interface of everything the program uses as a dictionary: JavaScript objects used as
  maps, the \<open>Map\<close> of the pipe client, the invocation table of an event.
\<close>

locale keyed_store =
  fixes lookup :: "'s \<Rightarrow> 'k \<Rightarrow> 'v option"
    and put :: "'k \<Rightarrow> 'v \<Rightarrow> 's \<Rightarrow> 's"
    and del :: "'k \<Rightarrow> 's \<Rightarrow> 's"
    and nothing :: 's
  assumes lookup_nothing: "lookup nothing k = None"
    and lookup_put: "lookup (put k v s) k' = (if k' = k then Some v else lookup s k')"
    and lookup_del: "lookup (del k s) k' = (if k' = k then None else lookup s k')"
begin

lemma put_then_del: "lookup (del k (put k v s)) = lookup (del k s)"
  by (rule ext) (simp add: lookup_put lookup_del)

lemma del_absent: "lookup s k = None \<Longrightarrow> lookup (del k s) = lookup s"
  by (rule ext) (simp add: lookup_del)

lemma put_twice: "lookup (put k v (put k w s)) = lookup (put k v s)"
  by (rule ext) (simp add: lookup_put)

lemma lookup_fold_put:
  "lookup (fold (\<lambda>(k, v). put k v) kvs s) k =
     (case map_of (rev kvs) k of None \<Rightarrow> lookup s k | Some v \<Rightarrow> Some v)"
  by (induction kvs arbitrary: s)
    (auto simp: lookup_put map_add_def split: option.splits)

lemma lookup_fold_put_distinct:
  assumes "distinct (map fst kvs)" and "(k, v) \<in> set kvs"
  shows "lookup (fold (\<lambda>(k, v). put k v) kvs s) k = Some v"
proof -
  from assms(1) have "distinct (map fst (rev kvs))" by (simp add: rev_map [symmetric])
  then have "map_of (rev kvs) k = Some v" using assms(2) by simp
  then show ?thesis by (simp add: lookup_fold_put)
qed

end

text \<open>A JavaScript object: keys in insertion order, an assignment to a present key in place.\<close>

type_synonym 'v obj = "(string \<times> 'v) list"

definition obj_get :: "'v obj \<Rightarrow> string \<Rightarrow> 'v option" where
  "obj_get m k = map_of m k"

definition obj_set :: "string \<Rightarrow> 'v \<Rightarrow> 'v obj \<Rightarrow> 'v obj" where
  "obj_set k v m = AList.update k v m"

definition obj_del :: "string \<Rightarrow> 'v obj \<Rightarrow> 'v obj" where
  "obj_del k m = AList.delete k m"

definition obj_keys :: "'v obj \<Rightarrow> string list" where
  "obj_keys m = map fst m"

interpretation jsobj: keyed_store obj_get obj_set obj_del "[]"
  by unfold_locales
    (auto simp: obj_get_def obj_set_def obj_del_def update_conv' AList.delete_conv')

lemma obj_get_Nil [simp]: "obj_get [] k = None"
  by (rule jsobj.lookup_nothing)

lemma obj_get_set [simp]: "obj_get (obj_set k v m) k' = (if k' = k then Some v else obj_get m k')"
  by (rule jsobj.lookup_put)

lemma obj_get_del [simp]: "obj_get (obj_del k m) k' = (if k' = k then None else obj_get m k')"
  by (rule jsobj.lookup_del)

lemma obj_get_Cons [simp]:
  "obj_get ((k, v) # m) k' = (if k' = k then Some v else obj_get m k')"
  by (simp add: obj_get_def)

lemma set_obj_keys: "set (obj_keys m) = {k. obj_get m k \<noteq> None}"
  by (induction m) (auto simp: obj_keys_def obj_get_def)

lemma obj_set_keys: "obj_keys (obj_set k v m) = (if k \<in> set (obj_keys m) then obj_keys m else obj_keys m @ [k])"
  by (simp add: obj_set_def obj_keys_def update_keys)

lemma distinct_obj_set: "distinct (obj_keys m) \<Longrightarrow> distinct (obj_keys (obj_set k v m))"
  by (simp add: obj_set_keys)

section \<open>Strings\<close>

fun split_char :: "char \<Rightarrow> string \<Rightarrow> string list" where
  "split_char c [] = [[]]"
| "split_char c (x # xs) =
     (if x = c then [] # split_char c xs
      else (case split_char c xs of [] \<Rightarrow> [[x]] | p # ps \<Rightarrow> (x # p) # ps))"

fun join_char :: "char \<Rightarrow> string list \<Rightarrow> string" where
  "join_char c [] = []"
| "join_char c [p] = p"
| "join_char c (p # q # ps) = p @ c # join_char c (q # ps)"

lemma split_char_nonempty [simp]: "split_char c s \<noteq> []"
  by (induction s) (auto split: list.splits)

lemma join_split [str_simps]: "join_char c (split_char c s) = s"
proof (induction s)
  case Nil
  then show ?case by simp
next
  case (Cons x xs)
  obtain p ps where "split_char c xs = p # ps"
    by (cases "split_char c xs") auto
  with Cons show ?case by (cases ps) auto
qed

lemma split_nosep [str_simps]: "c \<notin> set p \<Longrightarrow> split_char c p = [p]"
  by (induction p) auto

lemma split_at_sep [str_simps]: "c \<notin> set p \<Longrightarrow> split_char c (p @ c # rest) = p # split_char c rest"
  by (induction p) auto

lemma split_pieces: "p \<in> set (split_char c s) \<Longrightarrow> c \<notin> set p"
proof (induction s arbitrary: p)
  case Nil
  then show ?case by simp
next
  case (Cons x xs)
  obtain q qs where "split_char c xs = q # qs"
    by (cases "split_char c xs") auto
  with Cons show ?case by (auto split: if_splits)
qed

text \<open>\<open>indexOf\<close> of one character, as the strings before and after its first occurrence.\<close>

fun cut_at :: "char \<Rightarrow> string \<Rightarrow> (string \<times> string) option" where
  "cut_at c [] = None"
| "cut_at c (x # xs) =
     (if x = c then Some ([], xs)
      else (case cut_at c xs of None \<Rightarrow> None | Some (p, r) \<Rightarrow> Some (x # p, r)))"

lemma cut_at_Some: "cut_at c s = Some (p, r) \<Longrightarrow> s = p @ c # r \<and> c \<notin> set p"
  by (induction s arbitrary: p r) (auto split: if_splits option.splits)

lemma cut_at_None: "cut_at c s = None \<longleftrightarrow> c \<notin> set s"
  by (induction s) (auto split: option.splits)

lemma cut_at_app [str_simps]: "c \<notin> set p \<Longrightarrow> cut_at c (p @ c # r) = Some (p, r)"
  by (induction p) auto

text \<open>\<open>indexOf\<close> of a substring: its first position.\<close>

fun find_sub :: "string \<Rightarrow> string \<Rightarrow> nat option" where
  "find_sub pat [] = (if pat = [] then Some 0 else None)"
| "find_sub pat (x # xs) =
     (if prefix pat (x # xs) then Some 0 else map_option Suc (find_sub pat xs))"

lemma find_sub_Some: "find_sub pat s = Some i \<Longrightarrow> prefix pat (drop i s)"
proof (induction s arbitrary: i)
  case Nil
  then show ?case by (auto split: if_splits)
next
  case (Cons x xs)
  then show ?case by (auto split: if_splits)
qed

text \<open>Decimal printing and \<open>parseInt\<close>.\<close>

definition digit_char :: "nat \<Rightarrow> char" where
  "digit_char d = char_of (48 + d)"

definition is_digit :: "char \<Rightarrow> bool" where
  "is_digit c \<longleftrightarrow> 48 \<le> (of_char c :: nat) \<and> (of_char c :: nat) \<le> 57"

definition digit_val :: "char \<Rightarrow> nat" where
  "digit_val c = of_char c - 48"

function show_nat :: "nat \<Rightarrow> string" where
  "show_nat n = (if n < 10 then [digit_char n] else show_nat (n div 10) @ [digit_char (n mod 10)])"
  by pat_completeness auto
termination
  by (relation "measure id") auto

declare show_nat.simps [simp del]

definition show_int :: "int \<Rightarrow> string" where
  "show_int i = (if i < 0 then CHR ''-'' # show_nat (nat (- i)) else show_nat (nat i))"

definition is_space :: "char \<Rightarrow> bool" where
  "is_space c \<longleftrightarrow> c \<in> {CHR '' '', CHR 0x09, CHR 0x0A, CHR 0x0B, CHR 0x0C, CHR 0x0D, CHR 0xA0}"

definition digits_val :: "string \<Rightarrow> nat" where
  "digits_val s = foldl (\<lambda>a c. 10 * a + digit_val c) 0 s"

text \<open>\<open>parseInt(s, 10)\<close>: \<open>None\<close> is \<open>NaN\<close>.\<close>

definition parse_int :: "string \<Rightarrow> int option" where
  "parse_int s0 =
     (let s = dropWhile is_space s0;
          (neg, t) = (case s of [] \<Rightarrow> (False, [])
             | c # r \<Rightarrow> if c = CHR ''-'' then (True, r) else if c = CHR ''+'' then (False, r) else (False, s));
          ds = takeWhile is_digit t
      in if ds = [] then None else Some ((if neg then - 1 else 1) * int (digits_val ds)))"

lemma of_digit_char: "d < 10 \<Longrightarrow> (of_char (digit_char d) :: nat) = 48 + d"
  by (simp add: digit_char_def)

lemma digit_char_digit [simp]: "d < 10 \<Longrightarrow> is_digit (digit_char d)"
  and digit_char_val [simp]: "d < 10 \<Longrightarrow> digit_val (digit_char d) = d"
  by (simp_all add: is_digit_def digit_val_def of_digit_char)

lemma show_nat_digits: "c \<in> set (show_nat n) \<Longrightarrow> is_digit c"
proof (induction n rule: show_nat.induct)
  case (1 n)
  then show ?case by (cases "n < 10") (auto simp: show_nat.simps [of n])
qed

lemma show_nat_nonempty [simp]: "show_nat n \<noteq> []"
  by (simp add: show_nat.simps [of n])

lemma digits_val_snoc: "digits_val (s @ [c]) = 10 * digits_val s + digit_val c"
  by (simp add: digits_val_def)

lemma digits_val_show_nat [str_simps]: "digits_val (show_nat n) = n"
proof (induction n rule: show_nat.induct)
  case (1 n)
  show ?case
  proof (cases "n < 10")
    case True
    then show ?thesis by (simp add: show_nat.simps [of n] digits_val_def)
  next
    case False
    with 1 show ?thesis by (simp add: show_nat.simps [of n] digits_val_snoc)
  qed
qed

lemma digit_not_sign: "is_digit c \<Longrightarrow> c \<noteq> CHR ''-'' \<and> c \<noteq> CHR ''+'' \<and> \<not> is_space c"
  by (auto simp: is_digit_def is_space_def)

lemma not_digit_consts [simp]:
  "\<not> is_digit (CHR ''-'')" "\<not> is_digit (CHR ''.'')" "\<not> is_digit (CHR ''/'')"
  by (simp_all add: is_digit_def)

lemma show_nat_hd: "show_nat n = c # r \<Longrightarrow> is_digit c"
  by (metis list.set_intros(1) show_nat_digits)

lemma takeWhile_show_nat: "takeWhile is_digit (show_nat n) = show_nat n"
  by (simp add: takeWhile_eq_all_conv show_nat_digits)

lemma parse_show_nat [str_simps]: "parse_int (show_nat n) = Some (int n)"
proof -
  obtain c r where cr: "show_nat n = c # r" by (cases "show_nat n") auto
  then have d: "is_digit c" by (rule show_nat_hd)
  have s: "dropWhile is_space (show_nat n) = show_nat n"
    using d cr by (simp add: digit_not_sign)
  have t: "takeWhile is_digit (c # r) = c # r" and v: "digits_val (c # r) = n"
    using takeWhile_show_nat [of n] digits_val_show_nat [of n] cr by simp_all
  show ?thesis
    unfolding parse_int_def s unfolding cr using digit_not_sign [OF d]
    by (simp add: Let_def t v del: takeWhile.simps)
qed

lemma parse_show_neg [str_simps]: "parse_int (CHR ''-'' # show_nat n) = Some (- int n)"
  by (simp add: parse_int_def Let_def is_space_def takeWhile_show_nat digits_val_show_nat)

lemma parse_show_int [str_simps]: "parse_int (show_int i) = Some i"
  by (simp add: show_int_def str_simps)

text \<open>\<open>trim\<close> and the ASCII part of \<open>toLowerCase\<close> and \<open>toUpperCase\<close>.\<close>

definition js_trim :: "string \<Rightarrow> string" where
  "js_trim s = rev (dropWhile is_space (rev (dropWhile is_space s)))"

definition lower_char :: "char \<Rightarrow> char" where
  "lower_char c = (let n = (of_char c :: nat) in if 65 \<le> n \<and> n \<le> 90 then char_of (n + 32) else c)"

definition upper_char :: "char \<Rightarrow> char" where
  "upper_char c = (let n = (of_char c :: nat) in if 97 \<le> n \<and> n \<le> 122 then char_of (n - 32) else c)"

definition to_lower :: "string \<Rightarrow> string" where
  "to_lower s = map lower_char s"

definition to_upper :: "string \<Rightarrow> string" where
  "to_upper s = map upper_char s"

section \<open>Stable sorting by a comparator\<close>

text \<open>\<open>Array.prototype.sort\<close> is stable: elements that compare equal keep their order.\<close>

fun insort_cmp :: "('a \<Rightarrow> 'a \<Rightarrow> int) \<Rightarrow> 'a \<Rightarrow> 'a list \<Rightarrow> 'a list" where
  "insort_cmp cmp x [] = [x]"
| "insort_cmp cmp x (y # ys) = (if cmp x y \<le> 0 then x # y # ys else y # insort_cmp cmp x ys)"

definition js_sort :: "('a \<Rightarrow> 'a \<Rightarrow> int) \<Rightarrow> 'a list \<Rightarrow> 'a list" where
  "js_sort cmp xs = foldr (insort_cmp cmp) xs []"

locale comparator =
  fixes cmp :: "'a \<Rightarrow> 'a \<Rightarrow> int"
  assumes cmp_total: "cmp x y \<le> 0 \<or> cmp y x \<le> 0"
    and cmp_trans: "cmp x y \<le> 0 \<Longrightarrow> cmp y z \<le> 0 \<Longrightarrow> cmp x z \<le> 0"
begin

lemma mset_insort: "mset (insort_cmp cmp x ys) = add_mset x (mset ys)"
  by (induction ys) auto

lemma mset_js_sort: "mset (js_sort cmp xs) = mset xs"
  by (induction xs) (auto simp: js_sort_def mset_insort)

lemma sorted_insort:
  "sorted_wrt (\<lambda>a b. cmp a b \<le> 0) ys \<Longrightarrow> sorted_wrt (\<lambda>a b. cmp a b \<le> 0) (insort_cmp cmp x ys)"
proof (induction ys)
  case Nil
  then show ?case by simp
next
  case (Cons y ys)
  have "set (insort_cmp cmp x ys) = insert x (set ys)"
    by (metis mset_insort set_mset_add_mset_insert set_mset_mset)
  with Cons cmp_total [of x y] show ?case by (auto intro: cmp_trans)
qed

lemma sorted_js_sort: "sorted_wrt (\<lambda>a b. cmp a b \<le> 0) (js_sort cmp xs)"
  by (induction xs) (auto simp: js_sort_def sorted_insort)

lemma insort_stable:
  assumes "\<And>a b. P a \<Longrightarrow> P b \<Longrightarrow> cmp a b \<le> 0"
  shows "filter P (insort_cmp cmp x ys) = (if P x then x # filter P ys else filter P ys)"
  using assms by (induction ys) auto

text \<open>Stability: the elements of one class of equals keep their order.\<close>

lemma js_sort_stable:
  assumes "\<And>a b. P a \<Longrightarrow> P b \<Longrightarrow> cmp a b \<le> 0"
  shows "filter P (js_sort cmp xs) = filter P xs"
  using assms by (induction xs) (auto simp: js_sort_def insort_stable)

end

section \<open>Runs\<close>

text \<open>The contract of a component whose operations keep an invariant of its state: then every sequence of
  operations keeps it, at every moment; and from a start that has it, every state that is reached has it.\<close>

locale invariant_run =
  fixes step :: "'op \<Rightarrow> 's \<Rightarrow> 's" and inv :: "'s \<Rightarrow> bool"
  assumes step_keeps: "inv s \<Longrightarrow> inv (step x s)"
begin

lemma run_keeps: "inv s \<Longrightarrow> inv (fold step xs s)"
  by (induction xs arbitrary: s) (auto intro: step_keeps)

lemma every_moment: "inv s \<Longrightarrow> inv (fold step (take n xs) s)"
  by (rule run_keeps)

end

locale started_run = invariant_run +
  fixes start :: 's
  assumes start_ok: "inv start"
begin

lemma reached: "inv (fold step xs start)"
  using start_ok by (rule run_keeps)

end

end
