(* ===== verification/Utils.thy ===== *)
theory Utils
  imports Prelude
begin

text \<open>
  \<open>src/infras/libs/utils.ts\<close>, \<open>src/infras/repo/select.helper.ts\<close> and the copy of the base-64
  encoder in \<open>templates/task-runner/index.ts\<close>: identifiers, extraction of JSON from generated
  text, de-duplication, order-by parsing, truncation by bytes and the field selection of
  every query.
\<close>

section \<open>Base-64 numbers and identifiers\<close>

text \<open>
  \<open>num & 63\<close> and \<open>num >>>= 6\<close> convert their operand to 32 bits first, so a step keeps only the
  low 32 bits of \<open>num\<close>. The alphabet is nanoid's \<open>urlAlphabet\<close> in \<open>Utils\<close> (a parameter) and a
  constant of its own in the task runner.
\<close>

lemma b64_step_less:
  assumes "0 < (num::int)"
  shows "(num mod 2 ^ 32) div 64 < num"
proof -
  have "(num mod 2 ^ 32) div 64 \<le> num div 64"
    using assms by (intro zdiv_mono1 zmod_le_nonneg_dividend) simp_all
  also have "\<dots> < num" using assms by (intro int_div_less_self) simp_all
  finally show ?thesis .
qed

function b64_loop :: "string \<Rightarrow> int \<Rightarrow> string \<Rightarrow> string" where
  "b64_loop alph num acc =
     (if 0 < num then b64_loop alph ((num mod 2 ^ 32) div 64) (alph ! nat (num mod 64) # acc)
      else acc)"
  by pat_completeness auto
termination
  by (relation "measure (\<lambda>(alph, num, acc). nat num)") (use b64_step_less in auto)

declare b64_loop.simps [simp del]

definition intToBase64 :: "string \<Rightarrow> int \<Rightarrow> string" where
  "intToBase64 alph num = (if num = 0 then ''0'' else b64_loop alph num [])"

definition runner_alphabet :: string where
  "runner_alphabet = ''RoLI6m-2WvwVuHdNT1XZblqUDBtseKQAfgan83Myzric7EhjC5pxJSF_G9YO40Pk''"

definition runner_intToBase64 :: "int \<Rightarrow> string" where
  "runner_intToBase64 num = (if num = 0 then ''0'' else b64_loop runner_alphabet num [])"

text \<open>The reading of a base-64 numeral: the specification the encoder is checked against.\<close>

fun pos_of :: "'a \<Rightarrow> 'a list \<Rightarrow> nat" where
  "pos_of x [] = 0"
| "pos_of x (y # ys) = (if x = y then 0 else Suc (pos_of x ys))"

definition b64_value :: "string \<Rightarrow> string \<Rightarrow> int" where
  "b64_value alph s = foldl (\<lambda>a c. 64 * a + int (pos_of c alph)) 0 s"

lemma pos_of_nth: "distinct xs \<Longrightarrow> i < length xs \<Longrightarrow> pos_of (xs ! i) xs = i"
proof (induction xs arbitrary: i)
  case Nil
  then show ?case by simp
next
  case (Cons y ys)
  then show ?case by (cases i) auto
qed

lemma b64_loop_acc: "b64_loop alph num acc = b64_loop alph num [] @ acc"
proof (induction "nat num" arbitrary: num acc rule: less_induct)
  case less
  show ?case
  proof (cases "0 < num")
    case True
    then have "nat ((num mod 2 ^ 32) div 64) < nat num" using b64_step_less [OF True] by simp
    note IH = less [OF this]
    show ?thesis
      using IH [of "alph ! nat (num mod 64) # acc"] IH [of "[alph ! nat (num mod 64)]"] True
      by (simp add: b64_loop.simps [of alph num])
  next
    case False
    then show ?thesis by (simp add: b64_loop.simps)
  qed
qed

lemma b64_loop_step:
  "0 < num \<Longrightarrow> b64_loop alph num [] = b64_loop alph ((num mod 2 ^ 32) div 64) [] @ [alph ! nat (num mod 64)]"
  by (subst b64_loop.simps) (simp add: b64_loop_acc [of _ _ "[_]"])

lemma b64_value_snoc: "b64_value alph (s @ [c]) = 64 * b64_value alph s + int (pos_of c alph)"
  by (simp add: b64_value_def)

lemma low_digits: "64 * ((n mod 2 ^ 32) div 64) + n mod 64 = (n mod 2 ^ 32 :: int)"
proof -
  have "n mod 64 = (n mod 2 ^ 32) mod 64" by (simp add: mod_mod_cancel)
  then show ?thesis by simp
qed

lemma b64_loop_value:
  assumes "length alph = 64" and "distinct alph" and "0 \<le> num"
  shows "b64_value alph (b64_loop alph num []) = num mod 2 ^ 32"
  using assms(3)
proof (induction "nat num" arbitrary: num rule: less_induct)
  case less
  show ?case
  proof (cases "0 < num")
    case True
    let ?m = "(num mod 2 ^ 32) div 64"
    have m: "0 \<le> ?m" "?m < 2 ^ 32" by auto
    have "nat ?m < nat num" using b64_step_less [OF True] True by simp
    then have IH: "b64_value alph (b64_loop alph ?m []) = ?m" using less m by simp
    have "int (pos_of (alph ! nat (num mod 64)) alph) = num mod 64"
      using assms(1,2) by (subst pos_of_nth) (auto simp: nat_less_iff)
    then show ?thesis
      using IH low_digits [of num] by (simp add: b64_loop_step [OF True] b64_value_snoc)
  next
    case False
    with less show ?thesis by (simp add: b64_loop.simps b64_value_def)
  qed
qed

lemma runner_alphabet_ok [simp]: "length runner_alphabet = 64" "distinct runner_alphabet"
  by (simp_all add: runner_alphabet_def)

text \<open>\<open>uuid\<close>: minutes since an epoch in base 64, then \<open>nanoid\<close>; in raw mode \<open>nanoid\<close> is drawn
  again until the first character is not \<open>-\<close>. The drawn strings are a list, so that running
  out of draws (the source loops on) is \<open>None\<close>.\<close>

definition to_int32 :: "int \<Rightarrow> int" where
  "to_int32 x = (x + 2 ^ 31) mod 2 ^ 32 - 2 ^ 31"

fun uuid_raw :: "string list \<Rightarrow> string option" where
  "uuid_raw [] = None"
| "uuid_raw (d # ds) = (if take 1 d \<noteq> ''-'' then Some d else uuid_raw ds)"

definition uuid_prefix :: "int \<Rightarrow> int" where
  "uuid_prefix now_ms = to_int32 (now_ms div 60000) - 28656451"

definition uuid :: "string \<Rightarrow> int \<Rightarrow> string \<Rightarrow> string" where
  "uuid alph now_ms draw = intToBase64 alph (uuid_prefix now_ms) @ draw"

lemma uuid_raw_not_dash: "uuid_raw ds = Some d \<Longrightarrow> take 1 d \<noteq> ''-'' \<and> d \<in> set ds"
  by (induction ds) (auto split: if_splits)

lemma uuid_raw_total: "\<exists>d\<in>set ds. take 1 d \<noteq> ''-'' \<Longrightarrow> \<exists>d. uuid_raw ds = Some d"
  by (induction ds) auto

text \<open>The first four digits up to the year 2056: numbers from \<open>64 ^ 3\<close> below \<open>64 ^ 4\<close>.\<close>

lemma b64_four_digits:
  assumes "64 ^ 3 \<le> num" and "num < 64 ^ 4"
  shows "b64_loop alph num [] =
    [alph ! nat (num div 64 ^ 3), alph ! nat (num div 64 ^ 2 mod 64),
     alph ! nat (num div 64 mod 64), alph ! nat (num mod 64)]"
proof -
  have step: "b64_loop alph n [] = b64_loop alph (n div 64) [] @ [alph ! nat (n mod 64)]"
    if "0 < n" "n < 2 ^ 32" for n
    using that by (simp add: b64_loop_step)
  have z: "b64_loop alph 0 [] = []" by (simp add: b64_loop.simps)
  have "num div 64 div 64 div 64 div 64 = 0" "num div 64 div 64 div 64 mod 64 = num div 64 div 64 div 64"
    using assms by (simp_all add: zdiv_zmult2_eq [symmetric])
  moreover have "0 < num div 64 div 64 div 64" "0 < num div 64 div 64" "0 < num div 64" "0 < num"
    using assms by (auto simp: zdiv_zmult2_eq [symmetric])
  moreover have "num div 64 div 64 div 64 < 2 ^ 32" "num div 64 div 64 < 2 ^ 32" "num div 64 < 2 ^ 32" "num < 2 ^ 32"
    using assms by auto
  ultimately show ?thesis
    by (simp add: step z zdiv_zmult2_eq [symmetric])
qed

section \<open>JSON in generated text\<close>

text \<open>
  A code fence: the regular expressions \<open>/^```[\\w\\s]*$/m\<close> (\<open>toJSON\<close>) and \<open>/^\\s*```[\\w\\s]*$/m\<close>
  (the code blocks of \<open>LLMService\<close>). The class \<open>[\\w\\s]\<close> holds the line ends too, so a match
  takes the longest run of the class that stops before a line end or at the end of input.
\<close>

definition is_line_end :: "char \<Rightarrow> bool" where
  "is_line_end c \<longleftrightarrow> c \<in> {CHR 0x0A, CHR 0x0D}"

definition is_word :: "char \<Rightarrow> bool" where
  "is_word c \<longleftrightarrow> (let n = (of_char c :: nat) in
     (48 \<le> n \<and> n \<le> 57) \<or> (65 \<le> n \<and> n \<le> 90) \<or> (97 \<le> n \<and> n \<le> 122) \<or> n = 95)"

definition fence_tail :: "string \<Rightarrow> nat option" where
  "fence_tail r =
     (let w = takeWhile (\<lambda>c. is_word c \<or> is_space c) r
      in if w = r then Some (length r)
         else (let after = dropWhile (\<lambda>c. \<not> is_line_end c) (rev w)
               in if after = [] then None else Some (length after - 1)))"

definition fence_match :: "bool \<Rightarrow> char option \<Rightarrow> string \<Rightarrow> nat option" where
  "fence_match lead prev s =
     (if prev = None \<or> is_line_end (the prev) then
        (let sp = (if lead then takeWhile is_space s else []); t = drop (length sp) s
         in if prefix ''```'' t
            then map_option (\<lambda>n. length sp + 3 + n) (fence_tail (drop 3 t)) else None)
      else None)"

lemma fence_match_pos: "fence_match lead prev s = Some n \<Longrightarrow> 0 < n \<and> s \<noteq> []"
  by (auto simp: fence_match_def Let_def split: if_splits)

function fence_split :: "bool \<Rightarrow> char option \<Rightarrow> string \<Rightarrow> string \<Rightarrow> string list" where
  "fence_split lead prev acc s =
     (case s of [] \<Rightarrow> [rev acc]
      | c # cs \<Rightarrow> (case fence_match lead prev s of
           Some n \<Rightarrow> rev acc # fence_split lead (Some (last (take n s))) [] (drop n s)
         | None \<Rightarrow> fence_split lead (Some c) (c # acc) cs))"
  by pat_completeness auto
termination
  by (relation "measure (\<lambda>(lead, prev, acc, s). length s)") (auto dest: fence_match_pos)

declare fence_split.simps [simp del]

text \<open>The bracket scan: the text up to the bracket that closes the first one.\<close>

fun take_balanced :: "char \<Rightarrow> char \<Rightarrow> nat \<Rightarrow> string \<Rightarrow> string option" where
  "take_balanced ob cb n [] = None"
| "take_balanced ob cb n (x # xs) =
     (if x = ob then map_option (Cons x) (take_balanced ob cb (Suc n) xs)
      else if x = cb then
        (if n \<le> 1 then Some [x] else map_option (Cons x) (take_balanced ob cb (n - 1) xs))
      else map_option (Cons x) (take_balanced ob cb n xs))"

text \<open>
  \<open>toJSON\<close>: the parser (\<open>jsonrepair\<close>, then \<open>JSON.parse\<close>) is a parameter that returns a value or
  the message it throws. The result \<open>None\<close> is \<open>undefined\<close>.
\<close>

type_synonym json_parser = "string \<Rightarrow> string + json"

definition toJSON_call :: "string \<Rightarrow> bool \<Rightarrow> string" where
  "toJSON_call txt isArray = ''toJSON('' @ txt @ '', '' @ (if isArray then ''true'' else ''false'') @ '')''"

definition toJSON_parse :: "json_parser \<Rightarrow> string \<Rightarrow> bool \<Rightarrow> string \<Rightarrow> json option result" where
  "toJSON_parse parser txt isArray str =
     (case parser str of
        Inl m \<Rightarrow> Inl (PlainError (''('' @ m @ ''): '' @ toJSON_call txt isArray))
      | Inr j \<Rightarrow> Inr (Some j))"

definition toJSON :: "json_parser \<Rightarrow> string \<Rightarrow> bool \<Rightarrow> json option result" where
  "toJSON parser txt isArray =
     (if txt = [] then Inr None
      else if to_lower (js_trim txt) = ''null'' then Inr (Some JNull)
      else
        (let pcs = fence_split False None [] txt
         in if 2 < length pcs then toJSON_parse parser txt isArray (pcs ! (length pcs - 2))
            else
              (let ob = (if isArray then CHR ''['' else CHR ''{'');
                   cb = (if isArray then CHR '']'' else CHR ''}'')
               in case dropWhile (\<lambda>c. c \<noteq> ob) txt of
                    [] \<Rightarrow> Inr None
                  | b # rest \<Rightarrow>
                      (case take_balanced ob cb 1 rest of
                         None \<Rightarrow> Inl (PlainError (''Cannot parse to JSON, brackets'' @ [ob, cb] @ '' not enclosed: '' @ toJSON_call txt isArray))
                       | Some t \<Rightarrow> toJSON_parse parser txt isArray (b # t)))))"

text \<open>Nesting depth after a text, and the specification of the scan.\<close>

definition depth_change :: "char \<Rightarrow> char \<Rightarrow> string \<Rightarrow> int" where
  "depth_change ob cb s = int (count_list s ob) - int (count_list s cb)"

lemma depth_change_simps [simp]:
  "depth_change ob cb [] = 0"
  "depth_change ob cb (x # xs) =
     (if x = ob then 1 else 0) - (if x = cb then 1 else 0) + depth_change ob cb xs"
  by (simp_all add: depth_change_def)

lemma take_balanced_prefix: "take_balanced ob cb n s = Some t \<Longrightarrow> prefix t s"
  by (induction ob cb n s arbitrary: t rule: take_balanced.induct) (auto split: if_splits)

lemma take_balanced_depth:
  "ob \<noteq> cb \<Longrightarrow> 0 < n \<Longrightarrow> take_balanced ob cb n s = Some t \<Longrightarrow> int n + depth_change ob cb t = 0"
proof (induction ob cb n s arbitrary: t rule: take_balanced.induct)
  case (1 ob cb n)
  then show ?case by simp
next
  case (2 ob cb n x xs)
  then show ?case by (auto split: if_splits)
qed

lemma take_balanced_inside:
  "ob \<noteq> cb \<Longrightarrow> 0 < n \<Longrightarrow> take_balanced ob cb n s = Some t \<Longrightarrow> strict_prefix u t \<Longrightarrow> 0 < int n + depth_change ob cb u"
proof (induction ob cb n s arbitrary: t u rule: take_balanced.induct)
  case (1 ob cb n)
  then show ?case by simp
next
  case (2 ob cb n x xs)
  show ?case
  proof (cases u)
    case Nil
    with 2 show ?thesis by simp
  next
    case (Cons y us)
    with 2 show ?thesis by (auto split: if_splits) force+
  qed
qed

lemma take_balanced_None:
  "ob \<noteq> cb \<Longrightarrow> 0 < n \<Longrightarrow> take_balanced ob cb n s = None \<Longrightarrow> prefix u s \<Longrightarrow> 0 < int n + depth_change ob cb u"
proof (induction ob cb n s arbitrary: u rule: take_balanced.induct)
  case (1 ob cb n)
  then show ?case by simp
next
  case (2 ob cb n x xs)
  show ?case
  proof (cases u)
    case Nil
    with 2 show ?thesis by simp
  next
    case (Cons y us)
    with 2 show ?thesis by (auto split: if_splits) force+
  qed
qed

section \<open>Functions from text, order-by clauses, truncation\<close>

text \<open>\<open>new Function('return ' + code)()\<close> is the JavaScript evaluator: a parameter that throws,
  or returns a value that is a function or something else of a given \<open>typeof\<close>.\<close>

datatype 'f evaluated = IsFunction 'f | IsOther string

definition toFunction :: "(string \<Rightarrow> string + 'f evaluated) \<Rightarrow> string \<Rightarrow> 'f result" where
  "toFunction evaluate funCode =
     (case evaluate (''return '' @ funCode) of
        Inl m \<Rightarrow> Inl (PlainError (''Invalid function code, msg: '' @ m))
      | Inr (IsOther t) \<Rightarrow>
          Inl (PlainError (''Invalid function code, msg: '' @ ''code is not a function, but a '' @ t))
      | Inr (IsFunction f) \<Rightarrow> Inr f)"

definition formalApiName :: "string \<Rightarrow> string \<Rightarrow> string" where
  "formalApiName http_method path = to_upper http_method @ '' '' @ path"

text \<open>\<open>uniqueBy\<close>: the filter with the set \<open>exists\<close> of the keys seen so far.\<close>

fun uniqueBy_from :: "('a \<Rightarrow> 'k) \<Rightarrow> 'k list \<Rightarrow> 'a list \<Rightarrow> 'a list" where
  "uniqueBy_from key seen [] = []"
| "uniqueBy_from key seen (x # xs) =
     (if key x \<in> set seen then uniqueBy_from key seen xs
      else x # uniqueBy_from key (key x # seen) xs)"

definition uniqueBy :: "('a \<Rightarrow> 'k) \<Rightarrow> 'a list \<Rightarrow> 'a list" where
  "uniqueBy key arr = uniqueBy_from key [] arr"

lemma uniqueBy_from_keys: "key ` set (uniqueBy_from key seen xs) = key ` set xs - set seen"
  by (induction key seen xs rule: uniqueBy_from.induct) auto

lemma uniqueBy_from_distinct: "distinct (map key (uniqueBy_from key seen xs))"
proof (induction key seen xs rule: uniqueBy_from.induct)
  case (1 key seen)
  then show ?case by simp
next
  case (2 key seen x xs)
  then show ?case using uniqueBy_from_keys [of key "key x # seen" xs] by auto
qed

lemma uniqueBy_from_find:
  "k \<notin> set seen \<Longrightarrow> find (\<lambda>x. key x = k) (uniqueBy_from key seen xs) = find (\<lambda>x. key x = k) xs"
  by (induction key seen xs rule: uniqueBy_from.induct) auto

lemma uniqueBy_from_subseq: "subseq (uniqueBy_from key seen xs) xs"
  by (induction key seen xs rule: uniqueBy_from.induct) auto

text \<open>\<open>parseOrderBy\<close>: \<open>name:asc,age:desc\<close> into a list of one-field objects, or \<open>undefined\<close>.\<close>

datatype direction = Asc | Desc

definition parse_order_field :: "string list option \<Rightarrow> string \<Rightarrow> (string \<times> direction) list" where
  "parse_order_field allowed field =
     (let parts = split_char (CHR '':'') field;
          key = hd parts;
          ord = (if length parts < 2 then None else Some (parts ! 1))
      in if key = [] \<or> \<not> nonempty_str ord \<or> (\<exists>al. allowed = Some al \<and> key \<notin> set al) then []
         else [(key, if ord = Some ''asc'' then Asc else Desc)])"

definition parseOrderBy :: "string list option \<Rightarrow> string option \<Rightarrow> (string \<times> direction) list option" where
  "parseOrderBy allowed orders =
     (case orders of None \<Rightarrow> None
      | Some o1 \<Rightarrow>
          (let orderBy = concat (map (parse_order_field allowed) (split_char (CHR '','') o1))
           in if orderBy = [] then None else Some orderBy))"

text \<open>\<open>truncate\<close>: the loop over code points, with \<open>Buffer.byteLength(char, 'utf8')\<close>.\<close>

definition utf8_len :: "nat \<Rightarrow> nat" where
  "utf8_len cp = (if cp < 128 then 1 else if cp < 2048 then 2 else if cp < 65536 then 3 else 4)"

fun truncate_from :: "nat \<Rightarrow> nat \<Rightarrow> nat list \<Rightarrow> nat list" where
  "truncate_from maxBytes byteLength [] = []"
| "truncate_from maxBytes byteLength (ch # str) =
     (if maxBytes < byteLength + utf8_len ch then []
      else ch # truncate_from maxBytes (byteLength + utf8_len ch) str)"

definition truncate :: "nat list \<Rightarrow> nat \<Rightarrow> nat list" where
  "truncate str maxBytes = truncate_from maxBytes 0 str"

definition byte_length :: "nat list \<Rightarrow> nat" where
  "byte_length s = sum_list (map utf8_len s)"

lemma truncate_from_prefix: "prefix (truncate_from m b s) s"
  by (induction m b s rule: truncate_from.induct) auto

lemma truncate_from_bound: "b \<le> m \<Longrightarrow> b + byte_length (truncate_from m b s) \<le> m"
  by (induction m b s rule: truncate_from.induct) (auto simp: byte_length_def)

lemma truncate_from_longest:
  "prefix t s \<Longrightarrow> b + byte_length t \<le> m \<Longrightarrow> prefix t (truncate_from m b s)"
proof (induction m b s arbitrary: t rule: truncate_from.induct)
  case (1 m b)
  then show ?case by simp
next
  case (2 m b ch str)
  show ?case
  proof (cases t)
    case Nil
    then show ?thesis by simp
  next
    case (Cons x xs)
    with 2 show ?thesis by (auto simp: byte_length_def)
  qed
qed

section \<open>Field selection\<close>

text \<open>
  \<open>selectHelper\<close>: a selection maps field names to \<open>true\<close>, \<open>false\<close>, \<open>null\<close> or \<open>undefined\<close>. When
  every value is false the query runs unrestricted and the listed fields are deleted from
  its rows.
\<close>

datatype sel = STrue | SFalse | SNull | SUndef

type_synonym selection = "sel obj"

datatype rows = NoRow | OneRow "json obj" | ManyRows "json obj list"

definition merge_entry :: "selection \<Rightarrow> string \<times> sel \<Rightarrow> selection" where
  "merge_entry select kv =
     (case kv of (key, v) \<Rightarrow>
        (case obj_get select key of
           None \<Rightarrow> obj_set key v select
         | Some w \<Rightarrow> if w = SNull \<or> w = SUndef then obj_del key select else select))"

definition mergeSelects :: "selection \<Rightarrow> selection option \<Rightarrow> selection" where
  "mergeSelects defaultSelect select =
     (case select of None \<Rightarrow> defaultSelect | Some s \<Rightarrow> foldl merge_entry s defaultSelect)"

definition delete_fields :: "string list \<Rightarrow> json obj \<Rightarrow> json obj" where
  "delete_fields keys item = foldl (\<lambda>it key. obj_del key it) item keys"

fun doExclusionSelect :: "string list \<Rightarrow> rows \<Rightarrow> rows" where
  "doExclusionSelect keys NoRow = NoRow"
| "doExclusionSelect keys (OneRow item) = OneRow (delete_fields keys item)"
| "doExclusionSelect keys (ManyRows items) = ManyRows (map (delete_fields keys) items)"

definition selectHelper :: "selection option \<Rightarrow> (selection option \<Rightarrow> rows result) \<Rightarrow> selection option \<Rightarrow> rows result" where
  "selectHelper select0 query defaultSelect =
     (let select = (case defaultSelect of None \<Rightarrow> select0 | Some d \<Rightarrow> Some (mergeSelects d select0));
          selectKeys = (case select of None \<Rightarrow> [] | Some s \<Rightarrow> obj_keys s)
      in if selectKeys = [] then query None
         else
           (let allFalse = list_all (\<lambda>kv. snd kv \<noteq> STrue) (the select);
                actualSelect = (if allFalse then None else select)
            in and_then (query actualSelect) (\<lambda>res.
                 if \<not> allFalse \<or> res = NoRow then Inr res
                 else Inr (doExclusionSelect selectKeys res))))"

fun rows_list :: "rows \<Rightarrow> json obj list" where
  "rows_list NoRow = []"
| "rows_list (OneRow item) = [item]"
| "rows_list (ManyRows items) = items"

lemma rows_list_exclusion: "rows_list (doExclusionSelect keys r) = map (delete_fields keys) (rows_list r)"
  by (cases r) auto

lemma delete_fields_get: "obj_get (delete_fields keys item) k = (if k \<in> set keys then None else obj_get item k)"
  by (induction keys arbitrary: item) (auto simp: delete_fields_def)

lemma merge_entry_other: "k \<noteq> k' \<Longrightarrow> obj_get (merge_entry s (k', v)) k = obj_get s k"
  by (auto simp: merge_entry_def split: option.splits)

lemma merge_fold_other:
  "k \<notin> fst ` set d \<Longrightarrow> obj_get (foldl merge_entry s d) k = obj_get s k"
proof (induction d arbitrary: s)
  case Nil
  then show ?case by simp
next
  case (Cons p d)
  then show ?case by (cases p) (simp add: merge_entry_other)
qed

lemma merge_fold_default:
  "distinct (map fst d) \<Longrightarrow> obj_get s k = None \<Longrightarrow> (k, v) \<in> set d \<Longrightarrow>
   obj_get (foldl merge_entry s d) k = Some v"
proof (induction d arbitrary: s)
  case Nil
  then show ?case by simp
next
  case (Cons p d)
  obtain k' v' where p: "p = (k', v')" by (cases p)
  show ?case
  proof (cases "k' = k")
    case True
    with Cons.prems p have "v' = v" "k \<notin> fst ` set d" by force+
    moreover have "merge_entry s (k, v) = obj_set k v s"
      using Cons.prems by (simp add: merge_entry_def)
    ultimately show ?thesis using p True by (simp add: merge_fold_other)
  next
    case False
    with Cons p show ?thesis by (simp add: merge_entry_other)
  qed
qed

lemma merged_hidden:
  assumes "distinct (obj_keys d)" and "(k, v) \<in> set d"
    and "\<And>s. select0 = Some s \<Longrightarrow> obj_get s k = None"
  shows "obj_get (mergeSelects d select0) k = Some v"
proof (cases select0)
  case None
  with assms(1,2) show ?thesis by (simp add: mergeSelects_def obj_get_def obj_keys_def)
next
  case (Some s)
  with assms show ?thesis by (simp add: mergeSelects_def obj_keys_def merge_fold_default)
qed

section \<open>Properties\<close>

text \<open>The base-64 encoder of the task runner and of \<open>Utils\<close> (over any alphabet of 64
  distinct characters): reading the digits back gives the number modulo \<open>2 ^ 32\<close>. So numbers
  below \<open>2 ^ 32\<close> round-trip, and the high bits of a millisecond timestamp, which
  \<open>JwtAuthService.sign\<close> encodes, are lost.\<close>

theorem intToBase64_value:
  assumes "length alph = 64" and "distinct alph" and "0 < num"
  shows "b64_value alph (intToBase64 alph num) = num mod 2 ^ 32"
  using assms by (simp add: intToBase64_def b64_loop_value)

theorem intToBase64_value_witness:
  "b64_value runner_alphabet (intToBase64 runner_alphabet 1735115700000) = 1735115700000 mod 2 ^ 32"
  by (rule intToBase64_value) simp_all

text \<open>\<open>toJSON\<close> on text without code fences hands its parser the shortest balanced block: the
  block starts at the first opening bracket, is a prefix of the text from there, closes as
  many brackets as it opens, and no shorter nonempty prefix does.\<close>

theorem toJSON_balanced_block:
  assumes "txt \<noteq> []" and "to_lower (js_trim txt) \<noteq> ''null''"
    and "length (fence_split False None [] txt) \<le> 2"
    and "ob = (if isArray then CHR ''['' else CHR ''{'')" and "cb = (if isArray then CHR '']'' else CHR ''}'')"
    and "dropWhile (\<lambda>c. c \<noteq> ob) txt = str" and "str \<noteq> []"
    and "toJSON parser txt isArray = Inr r"
  shows "\<exists>blk. prefix blk str \<and> depth_change ob cb blk = 0 \<and>
    (\<forall>u. strict_prefix u blk \<and> u \<noteq> [] \<longrightarrow> 0 < depth_change ob cb u) \<and>
    toJSON_parse parser txt isArray blk = Inr r"
proof -
  obtain rest where str: "str = ob # rest"
    using assms(6,7) by (metis (mono_tags, lifting) dropWhile_eq_Cons_conv list.exhaust)
  have ne: "ob \<noteq> cb" using assms(4,5) by simp
  from assms str obtain t where t: "take_balanced ob cb 1 rest = Some t"
    and r: "toJSON_parse parser txt isArray (ob # t) = Inr r"
    by (auto simp: toJSON_def Let_def split: option.splits)
  have "prefix (ob # t) str" using take_balanced_prefix [OF t] str by simp
  moreover have "depth_change ob cb (ob # t) = 0"
    using take_balanced_depth [OF ne _ t] ne by simp
  moreover have "0 < depth_change ob cb u" if u: "strict_prefix u (ob # t)" "u \<noteq> []" for u
  proof -
    obtain v where "u = ob # v" "strict_prefix v t"
      using u by (cases u) (auto simp: strict_prefix_simps)
    then show ?thesis using take_balanced_inside [OF ne _ t] ne by simp
  qed
  ultimately show ?thesis using r by blast
qed

theorem toJSON_balanced_block_witness:
  "\<exists>blk. prefix blk ''{{}} tail'' \<and> depth_change (CHR ''{'') (CHR ''}'') blk = 0 \<and>
    (\<forall>u. strict_prefix u blk \<and> u \<noteq> [] \<longrightarrow> 0 < depth_change (CHR ''{'') (CHR ''}'') u) \<and>
    toJSON_parse (\<lambda>s. Inr (JStr s)) ''is {{}} tail'' False blk = Inr (Some (JStr ''{{}}''))"
proof -
  let ?txt = "''is {{}} tail''"
  have "fence_split False None [] ?txt = [?txt]"
    by (simp add: fence_split.simps fence_match_def is_line_end_def)
  then have split: "length (fence_split False None [] ?txt) \<le> 2" by simp
  have low: "to_lower (js_trim ?txt) \<noteq> ''null''"
    by (simp add: to_lower_def js_trim_def is_space_def)
  have "toJSON (\<lambda>s. Inr (JStr s)) ?txt False = Inr (Some (JStr ''{{}}''))"
    using low \<open>fence_split False None [] ?txt = [?txt]\<close> by (simp add: toJSON_def toJSON_parse_def Let_def)
  then show ?thesis
    by (rule toJSON_balanced_block [where isArray = False, OF _ low split, rotated -1]) simp_all
qed

text \<open>\<open>uniqueBy\<close> keeps, in order, exactly the first element of every key.\<close>

theorem uniqueBy_first_per_key:
  "subseq (uniqueBy key arr) arr \<and> distinct (map key (uniqueBy key arr)) \<and>
   key ` set (uniqueBy key arr) = key ` set arr \<and>
   find (\<lambda>x. key x = k) (uniqueBy key arr) = find (\<lambda>x. key x = k) arr"
  by (simp add: uniqueBy_def uniqueBy_from_subseq uniqueBy_from_distinct uniqueBy_from_keys uniqueBy_from_find)

text \<open>\<open>truncate\<close> returns the longest prefix of whole code points that fits the byte limit.\<close>

theorem truncate_longest_fit:
  "prefix (truncate str maxBytes) str \<and> byte_length (truncate str maxBytes) \<le> maxBytes \<and>
   (\<forall>t. prefix t str \<and> byte_length t \<le> maxBytes \<longrightarrow> prefix t (truncate str maxBytes))"
  using truncate_from_bound [of 0 maxBytes str] truncate_from_longest [of _ str 0 maxBytes]
  by (auto simp: truncate_def truncate_from_prefix)

theorem truncate_longest_fit_witness:
  "truncate [84, 8364, 128512] 5 = [84, 8364] \<and> prefix [84 :: nat] (truncate [84, 8364, 128512] 5)"
  using truncate_longest_fit [of "[84, 8364, 128512]" 5] by (auto simp: truncate_def utf8_len_def byte_length_def)

text \<open>A field that a service's default selection hides never reaches the caller unless the
  caller's selection names it, whether the helper selects in the query or deletes afterwards.
  The hypothesis is Prisma's contract: a query with a selection returns only the fields it
  selects with \<open>true\<close>.\<close>

theorem selectHelper_hides:
  assumes contract: "\<And>s rs row j. query (Some s) = Inr rs \<Longrightarrow> row \<in> set (rows_list rs) \<Longrightarrow>
      obj_get row j \<noteq> None \<Longrightarrow> obj_get s j = Some STrue"
    and "distinct (obj_keys d)" and "(k, SFalse) \<in> set d"
    and "\<And>s. caller = Some s \<Longrightarrow> obj_get s k = None"
    and res: "selectHelper caller query (Some d) = Inr rs" and row: "row \<in> set (rows_list rs)"
  shows "obj_get row k = None"
proof -
  let ?m = "mergeSelects d caller"
  have hid: "obj_get ?m k = Some SFalse" by (rule merged_hidden) (use assms in auto)
  then have key: "k \<in> set (obj_keys ?m)" by (simp add: set_obj_keys)
  then have ne: "obj_keys ?m \<noteq> []" by auto
  show ?thesis
  proof (cases "list_all (\<lambda>kv. snd kv \<noteq> STrue) ?m")
    case True
    with res ne obtain r0 where "rs = NoRow \<or> rs = doExclusionSelect (obj_keys ?m) r0"
      by (auto simp: selectHelper_def Let_def outcome_simps split: if_splits)
    with row key show ?thesis by (auto simp: rows_list_exclusion delete_fields_get)
  next
    case False
    with res ne have "query (Some ?m) = Inr rs"
      by (auto simp: selectHelper_def Let_def outcome_simps split: if_splits)
    with contract [OF _ row, of ?m k] hid show ?thesis by force
  qed
qed

theorem selectHelper_hides_witness:
  "obj_get [(''name'', JStr ''n'')] ''pk'' = None"
proof -
  let ?q = "\<lambda>s :: selection option. case s of None \<Rightarrow> Inr (OneRow [(''pk'', JNum 1), (''name'', JStr ''n'')])
    | Some t \<Rightarrow> Inr NoRow"
  show ?thesis
    by (rule selectHelper_hides [where query = ?q and d = "[(''pk'', SFalse)]" and k = "''pk''" and
          caller = None and rs = "OneRow [(''name'', JStr ''n'')]"])
      (auto simp: selectHelper_def mergeSelects_def obj_keys_def Let_def delete_fields_def obj_del_def)
qed

end
