(* ===== verification/EventModel.thy ===== *)
theory EventModel
  imports Utils
begin

text \<open>
  \<open>src/event-listeners/event-object.ts\<close>, \<open>src/entries/events/client-request.event.ts\<close> and
  \<open>src/event-stores\<close>: the event that travels through the listeners, its task id and working
  directory, the table that persists it, and the task list of a user.
\<close>

section \<open>Events\<close>

datatype callback_type = CB_EVENT | CB_URL

text \<open>
  \<open>context\<close> (here \<open>ev_ctx\<close>) and \<open>stopPropagation\<close> are not enumerable: a spread copy of an event has no context
  (\<open>None\<close>). \<open>ev_methods\<close>: the object is an instance of the class, so that it has \<open>getTaskCwd\<close>; a
  spread copy and a row of the database are not. A status is absent before the listeners run; otherwise negative: error, 0: done,
  1: processing, 2: pending, others: HTTP status.
\<close>

record 'c event =
  ev_id :: string
  srcId :: string
  eventType :: string
  dataType :: string
  taskId :: string
  title :: string
  paidBy :: "string option"
  calledBy :: "string option"
  callback :: "string option"
  callbackType :: callback_type
  ev_ctx :: "'c option"
  stopPropagation :: bool
  statusCode :: "int option"
  message :: "string option"
  ev_methods :: bool

definition pad2 :: "nat \<Rightarrow> string" where
  "pad2 n = (if length (show_nat n) < 2 then replicate (2 - length (show_nat n)) (CHR ''0'') @ show_nat n else show_nat n)"

text \<open>\<open>_getUTCDateString\<close>: the month counts from 0, as \<open>getUTCMonth\<close> does.\<close>

definition utcDateString :: "nat \<Rightarrow> nat \<Rightarrow> nat \<Rightarrow> string" where
  "utcDateString fullYear utcMonth utcDate =
     pad2 (fullYear mod 100) @ pad2 (utcMonth + 1) @ pad2 utcDate"

definition js_num_string :: "int option \<Rightarrow> string" where
  "js_num_string n = (case n of None \<Rightarrow> ''NaN'' | Some i \<Rightarrow> show_int i)"

definition getTaskId :: "string \<Rightarrow> string \<Rightarrow> string option \<Rightarrow> string" where
  "getTaskId today eid taskId0 =
     (let fresh = join_char (CHR ''-'') [today, eid]
      in case taskId0 of
           None \<Rightarrow> fresh
         | Some t \<Rightarrow>
             (let sp0 = hd (split_char (CHR ''-'') t)
              in if length t \<noteq> length eid + 7 \<or> length sp0 \<noteq> 6 \<or> js_num_string (parse_int sp0) \<noteq> sp0
                 then fresh else t))"

text \<open>
  \<open>path.join\<close>: the nonempty arguments joined by slashes and normalised; \<open>.\<close> and empty segments
  vanish, \<open>..\<close> removes the segment before it. A path is its absoluteness and its segments.
\<close>

fun normalise_segments :: "bool \<Rightarrow> string list \<Rightarrow> string list \<Rightarrow> string list" where
  "normalise_segments absolute acc [] = rev acc"
| "normalise_segments absolute acc (p # ps) =
     (if p = [] \<or> p = ''.'' then normalise_segments absolute acc ps
      else if p = ''..'' then
        (case acc of
           [] \<Rightarrow> normalise_segments absolute (if absolute then [] else [p]) ps
         | a # as \<Rightarrow> if a = ''..'' then normalise_segments absolute (p # acc) ps
                     else normalise_segments absolute as ps)
      else normalise_segments absolute (p # acc) ps)"

type_synonym path = "bool \<times> string list"

definition path_join :: "string list \<Rightarrow> path" where
  "path_join args =
     (let joined = join_char (CHR ''/'') (filter (\<lambda>a. a \<noteq> []) args);
          absolute = (take 1 joined = ''/'')
      in (absolute, normalise_segments absolute [] (split_char (CHR ''/'') joined)))"

definition getTaskCwd :: "string \<Rightarrow> string \<Rightarrow> path result" where
  "getTaskCwd base taskId0 =
     (let parts = split_char (CHR ''-'') taskId0; ts = hd parts; i = join_char (CHR ''-'') (tl parts)
      in if i = [] then Inl (TypeError ''The path argument must be of type string. Received undefined'')
         else Inr (path_join [base, take 4 ts, drop 4 ts, [last i], i]))"

text \<open>The constructors of the base class and of \<open>ClientRequestEvent\<close>.\<close>

definition newEvent :: "string \<Rightarrow> string \<Rightarrow> string \<Rightarrow> string \<Rightarrow> string \<Rightarrow> string option \<Rightarrow> string \<Rightarrow>
    string option \<Rightarrow> string option \<Rightarrow> string option \<Rightarrow> callback_type \<Rightarrow> 'c \<Rightarrow> 'c event" where
  "newEvent today eid src etype dtype task0 ttl paid called cb cbType ctx =
     \<lparr>ev_id = eid, srcId = src, eventType = etype, dataType = dtype,
      taskId = getTaskId today eid task0, title = ttl, paidBy = paid, calledBy = called,
      callback = cb, callbackType = cbType, ev_ctx = Some ctx, stopPropagation = False,
      statusCode = None, message = None, ev_methods = True\<rparr>"

definition clientRequestEvent :: "string \<Rightarrow> string \<Rightarrow> string \<Rightarrow> string \<Rightarrow> string option \<Rightarrow> string \<Rightarrow>
    string option \<Rightarrow> string option \<Rightarrow> 'c \<Rightarrow> string option \<Rightarrow> 'c event" where
  "clientRequestEvent today eid entryId dtype task0 ttl paid called ctx cb =
     newEvent today eid entryId ''CLIENT_REQUEST'' dtype task0 ttl paid called cb CB_URL ctx"

text \<open>\<open>{...event}\<close>: the enumerable properties only.\<close>

definition spread_event :: "'c event \<Rightarrow> 'c event" where
  "spread_event e = e\<lparr>ev_ctx := None, stopPropagation := False, ev_methods := False\<rparr>"

lemma show_nat_two: "10 \<le> n \<Longrightarrow> n < 100 \<Longrightarrow> show_nat n = [digit_char (n div 10), digit_char (n mod 10)]"
  by (simp add: show_nat.simps [of n] show_nat.simps [of "n div 10"])

lemma digit_char_0: "digit_char 0 = CHR ''0''"
  by (simp add: digit_char_def char_of_def bit_Suc_0_iff)

lemma pad2_eq:
  assumes "n < 100"
  shows "pad2 n = [digit_char (n div 10), digit_char (n mod 10)]"
proof (cases "n < 10")
  case True
  then show ?thesis by (simp add: pad2_def show_nat.simps [of n] digit_char_0)
next
  case False
  with assms show ?thesis by (simp add: pad2_def show_nat_two)
qed

lemma utcDate_shape:
  assumes "m < 12" and "d < 100"
  shows "length (utcDateString y m d) = 6" and "c \<in> set (utcDateString y m d) \<Longrightarrow> is_digit c"
  using assms by (auto simp: utcDateString_def pad2_eq)

lemma digits_canonical:
  assumes "\<And>c. c \<in> set s \<Longrightarrow> is_digit c" and "s \<noteq> []" and "hd s \<noteq> CHR ''0''"
  shows "show_nat (digits_val s) = s"
  using assms
proof (induction s rule: rev_induct)
  case Nil
  then show ?case by simp
next
  case (snoc c s)
  have c: "is_digit c" using snoc.prems(1) by simp
  then have cv: "digit_val c < 10" "digit_char (digit_val c) = c"
    by (auto simp: is_digit_def digit_val_def digit_char_def)
  show ?case
  proof (cases s)
    case Nil
    with cv show ?thesis by (simp add: digits_val_def show_nat.simps)
  next
    case (Cons a r)
    have IH: "show_nat (digits_val s) = s"
      by (rule snoc.IH) (use snoc.prems Cons in auto)
    have "digits_val s \<noteq> 0"
    proof
      assume "digits_val s = 0"
      with IH have "s = ''0''" by (simp add: show_nat.simps digit_char_0)
      with snoc.prems(3) Cons show False by simp
    qed
    then have "\<not> 10 * digits_val s + digit_val c < 10" by arith
    then show ?thesis using IH cv
      by (simp add: digits_val_snoc show_nat.simps [of "10 * digits_val s + digit_val c"])
  qed
qed

lemma parse_int_digits:
  assumes "\<And>c. c \<in> set s \<Longrightarrow> is_digit c" and "s \<noteq> []"
  shows "parse_int s = Some (int (digits_val s))"
proof -
  obtain c r where s: "s = c # r" using assms(2) by (cases s) auto
  then have d: "is_digit c" using assms(1) by simp
  have t: "takeWhile is_digit (c # r) = c # r"
    using assms(1) s by (auto simp: takeWhile_eq_all_conv)
  show ?thesis
    unfolding parse_int_def s using digit_not_sign [OF d] by (simp add: Let_def t del: takeWhile.simps)
qed

lemma canonical_date:
  assumes "m < 12" and "d < 100" and "10 \<le> y mod 100"
  shows "js_num_string (parse_int (utcDateString y m d)) = utcDateString y m d"
proof -
  have ds: "\<And>c. c \<in> set (utcDateString y m d) \<Longrightarrow> is_digit c"
    using utcDate_shape [OF assms(1,2)] by blast
  have ne: "utcDateString y m d \<noteq> []"
    using utcDate_shape(1) [OF assms(1,2), of y] by auto
  have "hd (utcDateString y m d) = digit_char (y mod 100 div 10)"
    using assms by (simp add: utcDateString_def pad2_eq)
  moreover have "digit_char (y mod 100 div 10) \<noteq> CHR ''0''"
  proof
    assume "digit_char (y mod 100 div 10) = CHR ''0''"
    then have "digit_val (digit_char (y mod 100 div 10)) = 0" by (simp add: digit_val_def)
    moreover have "0 < y mod 100 div 10" "y mod 100 div 10 < 10" using assms(3) by auto
    ultimately show False by simp
  qed
  ultimately show ?thesis
    using digits_canonical [OF ds ne] parse_int_digits [OF ds ne]
    by (simp add: js_num_string_def show_int_def)
qed

section \<open>The event store\<close>

text \<open>
  A row of the table \<open>EventStore\<close>; the table keeps its rows in the order of their primary key.
  An \<open>undefined\<close> property of the data leaves its column alone on update, and takes the column's
  default on insert (status 1).
\<close>

record 'c event_row =
  row_event :: "'c event"
  row_status :: int
  row_funName :: "string option"
  row_listenerId :: "string option"

type_synonym 'c event_store = "(string \<times> 'c event_row) list"

definition keep_old :: "'a option \<Rightarrow> 'a option \<Rightarrow> 'a option" where
  "keep_old new old = (case new of None \<Rightarrow> old | Some v \<Rightarrow> Some v)"

text \<open>An argument of \<open>upsertEvent\<close> that is written as null is \<open>Some None\<close>, one that becomes
  \<open>undefined\<close> is \<open>None\<close>.\<close>

definition upsert_field :: "int option \<Rightarrow> string option \<Rightarrow> string option option" where
  "upsert_field status v = (if status = Some 0 \<and> \<not> nonempty_str v then None else Some v)"

text \<open>The row written: \<open>data\<close> spreads the event and adds the context and the stop flag.\<close>

definition upsert_row :: "'c event \<Rightarrow> string option \<Rightarrow> string option \<Rightarrow> 'c event_row option \<Rightarrow> 'c event_row" where
  "upsert_row e funName listenerId old =
     (let f = upsert_field (statusCode e) funName; l = upsert_field (statusCode e) listenerId
      in case old of
           None \<Rightarrow>
             \<lparr>row_event = e, row_status = (case statusCode e of None \<Rightarrow> 1 | Some n \<Rightarrow> n),
              row_funName = (case f of None \<Rightarrow> None | Some v \<Rightarrow> v),
              row_listenerId = (case l of None \<Rightarrow> None | Some v \<Rightarrow> v)\<rparr>
         | Some r \<Rightarrow>
             \<lparr>row_event = e\<lparr>calledBy := keep_old (calledBy e) (calledBy (row_event r)),
                            callback := keep_old (callback e) (callback (row_event r)),
                            message := keep_old (message e) (message (row_event r))\<rparr>,
              row_status = (case statusCode e of None \<Rightarrow> row_status r | Some n \<Rightarrow> n),
              row_funName = (case f of None \<Rightarrow> row_funName r | Some v \<Rightarrow> v),
              row_listenerId = (case l of None \<Rightarrow> row_listenerId r | Some v \<Rightarrow> v)\<rparr>)"

text \<open>The column \<open>paidBy\<close> is required: the client library refuses an \<open>undefined\<close> one.\<close>

definition upsertEvent :: "'c event \<Rightarrow> string option \<Rightarrow> string option \<Rightarrow> 'c event_store \<Rightarrow> 'c event_store result" where
  "upsertEvent e funName listenerId st =
     (if paidBy e = None then Inl (PlainError ''Argument `paidBy` is missing.'')
      else Inr (AList.update (ev_id e) (upsert_row e funName listenerId (map_of st (ev_id e))) st))"

definition findEvent :: "'c event_store \<Rightarrow> string \<Rightarrow> 'c event_row option" where
  "findEvent st eid = map_of st eid"

text \<open>\<open>loadClientEventHistories\<close>: \<open>None\<close> leaves \<open>histories\<close> as it was.\<close>

definition loadClientEventHistories :: "'c event_store \<Rightarrow> 'c event \<Rightarrow> 'c event_row list option" where
  "loadClientEventHistories st e =
     (if taskId e = [] then None
      else (let es = filter (\<lambda>r. ev_id (row_event r) \<noteq> ev_id e \<and> taskId (row_event r) = taskId e \<and>
                                 eventType (row_event r) = ''CLIENT_REQUEST'') (map snd st)
            in if es = [] then None else Some es))"

text \<open>An event as it is loaded from its row: a plain object with the columns as properties.\<close>

definition load_event :: "'c event_row \<Rightarrow> 'c event" where
  "load_event r = (row_event r)\<lparr>statusCode := Some (row_status r), ev_methods := False\<rparr>"

lemma upsertEvent_Inr:
  "upsertEvent e f l st = Inr st' \<longleftrightarrow>
     paidBy e \<noteq> None \<and> st' = AList.update (ev_id e) (upsert_row e f l (map_of st (ev_id e))) st"
  by (auto simp: upsertEvent_def)

lemma findEvent_upsert:
  "upsertEvent e f l st = Inr st' \<Longrightarrow>
   findEvent st' k = (if k = ev_id e then Some (upsert_row e f l (findEvent st k)) else findEvent st k)"
  by (auto simp: upsertEvent_Inr findEvent_def update_conv')

lemma upsert_row_status [simp]: "statusCode e = Some n \<Longrightarrow> row_status (upsert_row e f l old) = n"
  by (auto simp: upsert_row_def Let_def split: option.splits)

lemma upsert_row_checkpoint:
  "statusCode e = Some n \<Longrightarrow> n \<noteq> 0 \<Longrightarrow>
   row_funName (upsert_row e f l old) = f \<and> row_listenerId (upsert_row e f l old) = l"
  by (auto simp: upsert_row_def upsert_field_def Let_def split: option.splits)

lemma upsert_row_event [simp]:
  "ev_ctx (row_event (upsert_row e f l old)) = ev_ctx e"
  "stopPropagation (row_event (upsert_row e f l old)) = stopPropagation e"
  "ev_id (row_event (upsert_row e f l old)) = ev_id e"
  "srcId (row_event (upsert_row e f l old)) = srcId e"
  "eventType (row_event (upsert_row e f l old)) = eventType e"
  "dataType (row_event (upsert_row e f l old)) = dataType e"
  by (auto simp: upsert_row_def Let_def split: option.splits)

lemma upsert_keys: "upsertEvent e f l st = Inr st' \<Longrightarrow> map fst st' =
    (if ev_id e \<in> set (map fst st) then map fst st else map fst st @ [ev_id e])"
  by (auto simp: upsertEvent_Inr update_keys)

section \<open>The task list\<close>

text \<open>
  \<open>findManyTasks\<close>: the tasks are the groups of rows with one \<open>taskId\<close>, each represented by its
  smallest primary key; the default order lists the keys descending and a page is a window of
  them. The rows of the window are then read by a query without an order: they come as the
  table has them. A row is a primary key and a task id; \<open>rws\<close> are the rows the filter admits.
\<close>

record page_meta =
  total :: nat
  lastPage :: "nat option"
  currentPage :: nat
  perPage :: nat
  prevPage :: "nat option"
  nextPage :: "nat option"

definition task_keys :: "(nat \<times> string) list \<Rightarrow> nat list" where
  "task_keys rws = rev (sort (map (\<lambda>t. Min (set (map fst (filter (\<lambda>r. snd r = t) rws)))) (remdups (map snd rws))))"

definition ceil_div :: "nat \<Rightarrow> nat \<Rightarrow> nat" where
  "ceil_div a b = (a + b - 1) div b"

definition findManyTasks :: "(nat \<times> string) list \<Rightarrow> nat \<Rightarrow> nat \<Rightarrow> (nat \<times> string) list \<times> page_meta" where
  "findManyTasks rws pageNo psize =
     (let c = length (remdups (map snd rws))
      in if c = 0 then ([], \<lparr>total = 0, lastPage = None, currentPage = pageNo, perPage = psize, prevPage = None, nextPage = None\<rparr>)
         else
           (let pks = take psize (drop (psize * (pageNo - 1)) (task_keys rws))
            in (filter (\<lambda>r. fst r \<in> set pks) rws,
               \<lparr>total = c, lastPage = Some (ceil_div c psize), currentPage = pageNo, perPage = psize,
                prevPage = (if 1 < pageNo then Some (pageNo - 1) else None),
                nextPage = (if pageNo < ceil_div c psize then Some (pageNo + 1) else None)\<rparr>)))"

text \<open>\<open>_whereToSql\<close>: the conditions of the SQL text, or the error for an operator it does not know.\<close>

datatype where_val = WUndef | WContains string | WStarts string | WEnds string | WOther | WPrim json

datatype sql_cond = ILike string bool string bool | SqlEq string json

fun where_cond :: "string \<times> where_val \<Rightarrow> sql_cond list result" where
  "where_cond (k, WUndef) = Inr []"
| "where_cond (k, WContains s) = Inr [ILike k True s True]"
| "where_cond (k, WStarts s) = Inr [ILike k False s True]"
| "where_cond (k, WEnds s) = Inr [ILike k True s False]"
| "where_cond (k, WOther) = Inl (PlainError ''Unsupported operator'')"
| "where_cond (k, WPrim j) = Inr [SqlEq k j]"

definition whereToSql :: "where_val obj \<Rightarrow> sql_cond list result" where
  "whereToSql w = and_then (map_result where_cond w) (\<lambda>cs. Inr (concat cs))"

text \<open>\<open>EventStoresController.listMyTasks\<close>: the filter and the order of the query it makes.\<close>

definition falsy_undef :: "string option \<Rightarrow> where_val" where
  "falsy_undef s = (if nonempty_str s then WPrim (JStr (the s)) else WUndef)"

definition listMyTasks_where :: "string \<Rightarrow> string option \<Rightarrow> string option \<Rightarrow> string option \<Rightarrow> string option \<Rightarrow> where_val obj" where
  "listMyTasks_where sub ttl etype dtype task =
     (let base = [(''calledBy'', WPrim (JStr sub)), (''eventType'', falsy_undef etype),
                  (''dataType'', falsy_undef dtype), (''taskId'', falsy_undef task)];
          t = map_option js_trim ttl
      in if nonempty_str t then obj_set ''title'' (WContains (the t)) base else base)"

definition listMyTasks_order :: "string option \<Rightarrow> (string \<times> direction) list option" where
  "listMyTasks_order orders =
     parseOrderBy (Some [''title'', ''dataType'', ''eventType'', ''statusCode'', ''pk'', ''updatedAt'']) orders"

lemma task_keys_length: "length (task_keys rws) = length (remdups (map snd rws))"
  by (simp add: task_keys_def)

text \<open>Every task key is the first row of its task; distinct keys of the rows give distinct ones.\<close>

lemma task_key_row:
  assumes "t \<in> set (map snd rws)"
  shows "(Min (set (map fst (filter (\<lambda>r. snd r = t) rws))), t) \<in> set rws"
proof -
  let ?ks = "set (map fst (filter (\<lambda>r. snd r = t) rws))"
  have "Min ?ks \<in> ?ks" using assms by (intro Min_in) (auto simp: filter_empty_conv)
  then show ?thesis by force
qed

lemma task_keys_subset: "set (task_keys rws) \<subseteq> set (map fst rws)"
  using task_key_row by (force simp: task_keys_def)

lemma task_keys_distinct:
  assumes "distinct (map fst rws)"
  shows "distinct (task_keys rws)"
proof -
  have "inj_on (\<lambda>t. Min (set (map fst (filter (\<lambda>r. snd r = t) rws)))) (set (map snd rws))"
  proof (rule inj_onI)
    fix t u assume t: "t \<in> set (map snd rws)" and u: "u \<in> set (map snd rws)"
      and eq: "Min (set (map fst (filter (\<lambda>r. snd r = t) rws))) = Min (set (map fst (filter (\<lambda>r. snd r = u) rws)))"
    show "t = u"
      using task_key_row [OF t] task_key_row [OF u] eq assms by (metis eq_key_imp_eq_value)
  qed
  then show ?thesis by (simp add: task_keys_def distinct_map)
qed

lemma rows_of_keys:
  assumes "distinct (map fst rws)" and "distinct ks" and "set ks \<subseteq> set (map fst rws)"
  shows "mset (map fst (filter (\<lambda>r. fst r \<in> set ks) rws)) = mset ks"
proof -
  have "set (map fst (filter (\<lambda>r. fst r \<in> set ks) rws)) = set ks" using assms(3) by auto
  moreover have "distinct (map fst (filter (\<lambda>r. fst r \<in> set ks) rws))"
    using assms(1) by (simp add: distinct_map_filter)
  ultimately show ?thesis using assms(2) set_eq_iff_mset_eq_distinct by blast
qed

lemma findManyTasks_page:
  "rws \<noteq> [] \<Longrightarrow> fst (findManyTasks rws (Suc p) psize) =
     filter (\<lambda>r. fst r \<in> set (take psize (drop (psize * p) (task_keys rws)))) rws"
  by (simp add: findManyTasks_def Let_def)

lemma findManyTasks_meta:
  "rws \<noteq> [] \<Longrightarrow> lastPage (snd (findManyTasks rws p psize)) = Some (ceil_div (length (remdups (map snd rws))) psize)"
  "rws \<noteq> [] \<Longrightarrow> nextPage (snd (findManyTasks rws p psize)) =
     (if p < ceil_div (length (remdups (map snd rws))) psize then Some (p + 1) else None)"
  by (simp_all add: findManyTasks_def Let_def)

lemma windows_cover:
  "0 < psize \<Longrightarrow> length xs \<le> psize * n \<Longrightarrow> concat (map (\<lambda>p. take psize (drop (psize * p) xs)) [0..<n]) = xs"
proof (induction n arbitrary: xs)
  case 0
  then show ?case by simp
next
  case (Suc n)
  have "concat (map (\<lambda>p. take psize (drop (psize * p) xs)) [0..<Suc n]) =
      take psize xs @ concat (map (\<lambda>p. take psize (drop (psize * p) (drop psize xs))) [0..<n])"
    by (simp add: upt_conv_Cons map_Suc_upt [symmetric] comp_def add.commute del: upt_Suc)
  also have "\<dots> = take psize xs @ drop psize xs"
    using Suc.IH [of "drop psize xs"] Suc.prems by simp
  finally show ?case by simp
qed

section \<open>Properties\<close>

text \<open>Conversations survive a round trip: the task id that a request without one gets back is
  accepted as it is by the next request, whatever that request's own id and date, as long as
  the two-digit year does not begin with 0 and the generated ids have one length.\<close>

theorem getTaskId_roundtrip:
  assumes "m < 12" and "d < 100" and "10 \<le> y mod 100" and "length eid' = length eid"
  shows "getTaskId today' eid' (Some (getTaskId (utcDateString y m d) eid None)) =
         getTaskId (utcDateString y m d) eid None"
proof -
  let ?t = "utcDateString y m d"
  have "CHR ''-'' \<notin> set ?t"
    using utcDate_shape(2) [OF assms(1,2), of _ y] by force
  then have "hd (split_char (CHR ''-'') (?t @ CHR ''-'' # eid)) = ?t"
    by (simp add: split_at_sep)
  then show ?thesis
    using utcDate_shape(1) [OF assms(1,2), of y] canonical_date [OF assms(1-3)] assms(4)
    by (simp add: getTaskId_def)
qed

theorem getTaskId_roundtrip_witness:
  "getTaskId ''250310'' ''wxyz'' (Some (getTaskId (utcDateString 2025 2 9) ''abcd'' None)) =
   getTaskId (utcDateString 2025 2 9) ''abcd'' None"
  by (rule getTaskId_roundtrip) simp_all

text \<open>The working directory of a task lies below the upload directory, in the folders year-month,
  day, last character and id, when the id part of the task id has no dot and no slash. The
  hypothesis is about the id: \<open>_getTaskId\<close> does not check it.\<close>

theorem getTaskCwd_below_base:
  assumes "length ts = 6" and "\<And>c. c \<in> set ts \<Longrightarrow> is_digit c"
    and "i \<noteq> []" and "\<And>c. c \<in> set i \<Longrightarrow> c \<noteq> CHR ''.'' \<and> c \<noteq> CHR ''/''"
    and "base \<noteq> []" and "CHR ''/'' \<notin> set base" and "base \<noteq> ''.''" and "base \<noteq> ''..''"
  shows "getTaskCwd base (ts @ CHR ''-'' # i) = Inr (False, [base, take 4 ts, drop 4 ts, [last i], i])"
proof -
  have nd: "CHR ''-'' \<notin> set ts" using assms(2) [of "CHR ''-''"] by auto
  have ns: "CHR ''/'' \<notin> set ts" "CHR ''.'' \<notin> set ts"
    using assms(2) [of "CHR ''/''"] assms(2) [of "CHR ''.''"] by auto
  then have pieces: "CHR ''/'' \<notin> set (take 4 ts)" "CHR ''/'' \<notin> set (drop 4 ts)" "CHR ''/'' \<notin> set i"
      "CHR ''.'' \<notin> set (take 4 ts)" "CHR ''.'' \<notin> set (drop 4 ts)" "CHR ''.'' \<notin> set i" "CHR ''/'' \<noteq> last i"
      "CHR ''.'' \<noteq> last i"
    using assms(4) [OF last_in_set [OF assms(3)]] assms(4) by (auto dest: in_set_takeD in_set_dropD)
  then have nodots: "take 4 ts \<noteq> ''.''" "take 4 ts \<noteq> ''..''" "drop 4 ts \<noteq> ''.''" "drop 4 ts \<noteq> ''..''"
      "i \<noteq> ''.''" "i \<noteq> ''..''" by (metis list.set_intros(1))+
  have "join_char (CHR ''-'') (tl (split_char (CHR ''-'') (ts @ CHR ''-'' # i))) = i"
    by (simp add: split_at_sep [OF nd] join_split)
  moreover have "take (Suc 0) (base @ r) \<noteq> ''/''" for r
    using assms(5,6) by (cases base) auto
  moreover have "take 4 ts \<noteq> []" "drop 4 ts \<noteq> []" using assms(1) by auto
  ultimately show ?thesis
    using assms pieces nodots
    by (simp add: getTaskCwd_def path_join_def split_at_sep [OF nd] split_at_sep split_nosep Let_def)
qed

theorem getTaskCwd_below_base_witness:
  "getTaskCwd ''upload'' ''250109-suuuAB'' = Inr (False, [''upload'', ''2501'', ''09'', ''B'', ''suuuAB''])"
proof -
  have "getTaskCwd ''upload'' (''250109'' @ CHR ''-'' # ''suuuAB'') =
      Inr (False, [''upload'', take 4 ''250109'', drop 4 ''250109'', [last ''suuuAB''], ''suuuAB''])"
    by (rule getTaskCwd_below_base) (auto simp: is_digit_def)
  then show ?thesis by simp
qed

text \<open>A task id is not confined to such ids: one of the right length and date is accepted with
  any characters after the date, and \<open>path.join\<close> then leaves the upload directory.\<close>

theorem taskId_escapes_upload_dir:
  "\<exists>t. getTaskId ''250109'' ''suuuABCDEFGHIJKLMNOPQRSTU'' (Some t) = t \<and>
       getTaskCwd ''./upload'' t = Inr (False, [''..'', ''..'', ''tmp'', ''aaa''])"
  by (rule exI [where x = "''240101-../../../../../../tmp/aaa''"])
    (simp add: getTaskId_def getTaskCwd_def path_join_def Let_def parse_int_def js_num_string_def
      show_int_def is_space_def is_digit_def digits_val_def digit_val_def show_nat.simps digit_char_def char_of_def bit_Suc_0_iff)

text \<open>Paging the task list: the pages 1 to \<open>lastPage\<close> together hold the first row of every task,
  each exactly once, and \<open>nextPage\<close> leads from every page but the last to the next.\<close>

theorem findManyTasks_pages:
  assumes "0 < psize" and "rws \<noteq> []" and "distinct (map fst rws)"
    and "lastPage (snd (findManyTasks rws 1 psize)) = Some n"
  shows "mset (map fst (concat (map (\<lambda>p. fst (findManyTasks rws p psize)) [1..<Suc n]))) = mset (task_keys rws)
    \<and> (\<forall>p. nextPage (snd (findManyTasks rws p psize)) = (if p < n then Some (p + 1) else None))"
proof -
  let ?c = "length (remdups (map snd rws))"
  let ?w = "\<lambda>p. take psize (drop (psize * p) (task_keys rws))"
  have n: "n = ceil_div ?c psize" using assms(4) by (simp add: findManyTasks_meta [OF assms(2)])
  have "?c \<le> psize * n"
    using assms(1) dividend_less_times_div [of psize "?c + psize - 1"] by (simp add: ceil_div_def n)
  then have cover: "concat (map ?w [0..<n]) = task_keys rws"
    using assms(1) by (intro windows_cover) (simp_all add: task_keys_length)
  have page: "mset (map fst (fst (findManyTasks rws (Suc p) psize))) = mset (?w p)" for p
  proof -
    have "set (?w p) \<subseteq> set (map fst rws)"
      using task_keys_subset [of rws] by (auto dest!: in_set_takeD in_set_dropD)
    moreover have "distinct (?w p)" using task_keys_distinct [OF assms(3)] by simp
    ultimately show ?thesis
      unfolding findManyTasks_page [OF assms(2)] by (intro rows_of_keys [OF assms(3)])
  qed
  have "mset (map fst (concat (map (\<lambda>p. fst (findManyTasks rws p psize)) [1..<Suc n]))) =
      sum_list (map (\<lambda>p. mset (map fst (fst (findManyTasks rws (Suc p) psize)))) [0..<n])"
    unfolding One_nat_def map_Suc_upt [symmetric] by (simp add: map_concat mset_concat comp_def del: upt_Suc)
  also have "\<dots> = mset (concat (map ?w [0..<n]))" unfolding page by (simp add: mset_concat comp_def)
  finally have "mset (map fst (concat (map (\<lambda>p. fst (findManyTasks rws p psize)) [1..<Suc n]))) = mset (task_keys rws)"
    by (simp only: cover)
  moreover have "nextPage (snd (findManyTasks rws p psize)) = (if p < n then Some (p + 1) else None)" for p
    by (simp only: findManyTasks_meta(2) [OF assms(2)] n)
  ultimately show ?thesis by blast
qed

theorem findManyTasks_pages_witness:
  "mset (map fst (concat (map (\<lambda>p. fst (findManyTasks [(1, ''a''), (2, ''b''), (3, ''a''), (4, ''c'')] p 2)) [1..<Suc 2]))) =
   mset (task_keys [(1, ''a''), (2, ''b''), (3, ''a''), (4, ''c'')])"
  by (rule findManyTasks_pages [THEN conjunct1]) (simp_all add: findManyTasks_meta ceil_div_def)

end
