(* ===== verification/Invocations.thy ===== *)
theory Invocations
  imports EventModel
begin

text \<open>
  The data an invocation of a service endpoint (SEP) works on: \<open>PendingOrResponse\<close>
  (\<open>src/entries/adaptors/entry-adaptor.base.ts\<close>), \<open>InvokeStatus\<close> and the request context
  (\<open>src/entries/events/client-request.event.ts\<close>), the endpoint (\<open>Endpoint\<close> of the Prisma schema),
  and the invocation keys of \<open>src/invoke/invoke.service.ts\<close>.
\<close>

section \<open>Data\<close>

text \<open>
  A pending or final response. \<open>p_data\<close> is \<open>None\<close> when the object has no key \<open>data\<close>, and
  \<open>Some None\<close> when the key is there with the value \<open>undefined\<close>. A script error has the same shape
  with status 1.
\<close>

record por =
  p_status :: "int option"
  p_data :: "json option option"
  p_message :: "string option"

definition data_response :: "json option \<Rightarrow> por" where
  "data_response d = \<lparr>p_status = None, p_data = Some d, p_message = None\<rparr>"

definition pending_response :: "string option \<Rightarrow> por" where
  "pending_response m = \<lparr>p_status = Some 2, p_data = None, p_message = m\<rparr>"

definition error_response :: "string option \<Rightarrow> por" where
  "error_response m = \<lparr>p_status = Some 1, p_data = None, p_message = m\<rparr>"

definition por_data :: "por \<Rightarrow> json option" where
  "por_data r = (case p_data r of None \<Rightarrow> None | Some d \<Rightarrow> d)"

definition is_pending :: "por option \<Rightarrow> bool" where
  "is_pending r = (case r of None \<Rightarrow> False | Some p \<Rightarrow> p_status p = Some 2)"

lemma por_simps [simp]:
  "p_status (data_response d) = None" "p_data (data_response d) = Some d" "p_message (data_response d) = None"
  "p_status (pending_response m) = Some 2" "p_data (pending_response m) = None" "p_message (pending_response m) = m"
  "p_status (error_response m) = Some 1" "p_data (error_response m) = None" "p_message (error_response m) = m"
  "por_data (data_response d) = d" "por_data (pending_response m) = None"
  "\<not> is_pending None" "is_pending (Some p) \<longleftrightarrow> p_status p = Some 2"
  by (simp_all add: data_response_def pending_response_def error_response_def por_data_def is_pending_def)

text \<open>The processor an invocation is at: no name means that no processor is left to run.
  \<open>p_break\<close> is the transient \<open>breakCurrent\<close>.\<close>

record processor_state =
  p_name :: "string option"
  p_ctx :: "string option"
  p_break :: "bool option"

record invoke_status =
  is_invokeId :: string
  is_epName :: "string option"
  is_args :: "json option"
  is_response :: "json option"
  is_processor :: "processor_state option"
  is_cacheKey :: "string option"
  is_cacheTtl :: "int option"

text \<open>The fields of an endpoint that the invocation reads. A security of the endpoint maps realm
  keys to scopes.\<close>

record security_item =
  si_realmPk :: int
  si_attach :: "bool option"
  si_scopes :: "string list"

record endpoint =
  en_id :: string
  en_name :: string
  en_path :: string
  en_method :: string
  en_callgentId :: string
  en_entryId :: string
  en_adaptorKey :: string
  en_isAsync :: bool
  en_cacheKey :: "string option"
  en_cacheTtl :: "int option"
  en_securities :: "security_item obj list"

text \<open>
  The context of a client request. \<open>retries\<close> is the counter that the script runner keeps under the
  key \<open>retry\<close> of \<open>invocations\<close>; invocation ids are empty or a number, so it is kept apart here.
  \<open>security\<close> and \<open>securityItem\<close> are what the realm service is checking. \<open>cx_map2\<close> is \<open>map2Endpoints\<close>, of which only \<open>requestArgs\<close> is read.
\<close>

record req_ctx =
  cx_callgentId :: string
  cx_callgentName :: string
  cx_callerId :: "string option"
  cx_epName :: "string option"
  cx_req :: json
  cx_resp :: "json option"
  cx_map2 :: "json option option"
  cx_endpoints :: "endpoint list"
  cx_invocations :: "invoke_status obj"
  cx_retries :: nat
  cx_security :: "security_item obj option"
  cx_securityItem :: "security_item option"

type_synonym req_event = "req_ctx event"

text \<open>\<open>reqEvent.context\<close> read by code that needs it: a spread copy of an event has none, and reading
  a property of \<open>undefined\<close> throws.\<close>

definition ctx_of :: "req_event \<Rightarrow> req_ctx result" where
  "ctx_of e = (case ev_ctx e of None \<Rightarrow> Inl (TypeError ''Cannot read properties of undefined'') | Some c \<Rightarrow> Inr c)"

definition upd_ctx :: "(req_ctx \<Rightarrow> req_ctx) \<Rightarrow> req_event \<Rightarrow> req_event" where
  "upd_ctx f e = e\<lparr>ev_ctx := map_option f (ev_ctx e)\<rparr>"

definition set_invocation :: "string \<Rightarrow> invoke_status \<Rightarrow> req_event \<Rightarrow> req_event" where
  "set_invocation i s = upd_ctx (\<lambda>c. c\<lparr>cx_invocations := obj_set i s (cx_invocations c)\<rparr>)"

definition del_invocation :: "string \<Rightarrow> req_event \<Rightarrow> req_event" where
  "del_invocation i = upd_ctx (\<lambda>c. c\<lparr>cx_invocations := obj_del i (cx_invocations c)\<rparr>)"

definition invocation_of :: "req_event \<Rightarrow> string \<Rightarrow> invoke_status option" where
  "invocation_of e i = (case ev_ctx e of None \<Rightarrow> None | Some c \<Rightarrow> obj_get (cx_invocations c) i)"

lemma ctx_of_simps [simp, outcome_simps]:
  "ev_ctx e = Some c \<Longrightarrow> ctx_of e = Inr c"
  "ev_ctx e = None \<Longrightarrow> ctx_of e = Inl (TypeError ''Cannot read properties of undefined'')"
  by (simp_all add: ctx_of_def)

lemma ev_ctx_upd [simp]: "ev_ctx (upd_ctx f e) = map_option f (ev_ctx e)"
  "ev_ctx (set_invocation i s e) = map_option (\<lambda>c. c\<lparr>cx_invocations := obj_set i s (cx_invocations c)\<rparr>) (ev_ctx e)"
  "ev_ctx (del_invocation i e) = map_option (\<lambda>c. c\<lparr>cx_invocations := obj_del i (cx_invocations c)\<rparr>) (ev_ctx e)"
  by (simp_all add: upd_ctx_def set_invocation_def del_invocation_def)

lemma invocation_of_set:
  "ev_ctx e \<noteq> None \<Longrightarrow> invocation_of (set_invocation i s e) j = (if j = i then Some s else invocation_of e j)"
  by (auto simp: invocation_of_def)

lemma invocation_of_del: "invocation_of (del_invocation i e) j = (if j = i then None else invocation_of e j)"
  by (auto simp: invocation_of_def split: option.splits)

section \<open>Invocation keys\<close>

definition composeInvokeKey :: "string \<Rightarrow> string \<Rightarrow> string" where
  "composeInvokeKey invokeId eventId = invokeId @ CHR ''-'' # eventId"

text \<open>\<open>substring(0, -1)\<close> is empty and \<open>substring(0)\<close> the whole string, where there is no dash.\<close>

definition parseInvokeKey :: "string \<Rightarrow> string \<times> string" where
  "parseInvokeKey invokeKey =
     (case cut_at (CHR ''-'') invokeKey of None \<Rightarrow> ([], invokeKey) | Some (p, r) \<Rightarrow> (p, r))"

text \<open>\<open>setCallbackResponse\<close>: the event with the response stored, and the invoke id for the CLS
  context (the asynchronous-local store of the request).\<close>

definition setCallbackResponse :: "string \<Rightarrow> json option \<Rightarrow> req_event \<Rightarrow> (req_event \<times> string) result" where
  "setCallbackResponse invokeId callbackResponse e =
     and_then (ctx_of e) (\<lambda>c.
       case obj_get (cx_invocations c) invokeId of
         None \<Rightarrow> Inl (PlainError (''invocation not found for invokeId '' @ invokeId))
       | Some s \<Rightarrow> Inr (set_invocation invokeId (s\<lparr>is_response := callbackResponse\<rparr>) e, invokeId))"

section \<open>Properties\<close>

text \<open>C14. An invocation key is parsed back into the ids it was composed from exactly when the
  invocation id has no dash. The ids that a task script sends are negative numbers, whose key
  is read as the empty id of a direct call.\<close>

theorem parse_compose_invokeKey:
  "(parseInvokeKey (composeInvokeKey i e) = (i, e) \<longleftrightarrow> CHR ''-'' \<notin> set i) \<and>
   parseInvokeKey (composeInvokeKey (CHR ''-'' # ds) e) = ([], ds @ CHR ''-'' # e)"
proof -
  have "parseInvokeKey (composeInvokeKey i e) = (i, e) \<longleftrightarrow> CHR ''-'' \<notin> set i"
  proof
    assume "parseInvokeKey (composeInvokeKey i e) = (i, e)"
    then have "cut_at (CHR ''-'') (i @ CHR ''-'' # e) = Some (i, e)"
      by (auto simp: parseInvokeKey_def composeInvokeKey_def cut_at_None split: option.splits)
    then show "CHR ''-'' \<notin> set i" by (rule cut_at_Some [THEN conjunct2])
  qed (simp add: parseInvokeKey_def composeInvokeKey_def cut_at_app)
  then show ?thesis by (simp add: parseInvokeKey_def composeInvokeKey_def)
qed

end
