(* ===== verification/EventListeners.thy ===== *)
theory EventListeners
  imports Invocations
begin

text \<open>
  \<open>src/event-listeners/event-listeners.service.ts\<close>: listeners are rows of a table; emitting an
  event loads the matching ones in order, invokes them one after the other on the event, and
  stores the event with a checkpoint. A listener may suspend the event (status 2) with the name
  of the function to call on resume; an external callback resumes it from the checkpoint.
\<close>

section \<open>Listeners\<close>

datatype service_type = ST_CALLGENT | ST_SERVICE

record listener =
  l_id :: string
  l_srcId :: string
  l_eventType :: string
  l_dataType :: string
  l_priority :: int
  l_serviceType :: service_type
  l_serviceName :: string
  l_funName :: string
  l_deletedAt :: int

text \<open>The comparator of the sort: priority, then listeners of any source before the others.\<close>

definition listener_cmp :: "listener \<Rightarrow> listener \<Rightarrow> int" where
  "listener_cmp a b =
     (let d = l_priority a - l_priority b
      in if d \<noteq> 0 then d
         else (if l_srcId a = ''*'' then - 1 else 1) - (if l_srcId b = ''*'' then - 1 else 1))"

definition listener_matches :: "string \<Rightarrow> string \<Rightarrow> string \<Rightarrow> listener \<Rightarrow> bool" where
  "listener_matches src etype dtype l \<longleftrightarrow>
     (l_srcId l = src \<or> l_srcId l = ''*'') \<and> (l_eventType l = etype \<or> l_eventType l = ''*'') \<and>
     (l_dataType l = dtype \<or> l_dataType l = ''*'')"

text \<open>The soft-delete middleware restricts a query to \<open>deletedAt = 0\<close> unless it names the column.\<close>

definition loadListeners :: "listener list \<Rightarrow> string \<Rightarrow> string \<Rightarrow> string \<Rightarrow> bool \<Rightarrow> listener list result" where
  "loadListeners tbl src etype dtype deleted =
     (let found = filter (\<lambda>l. listener_matches src etype dtype l \<and>
                              (if deleted then 0 \<le> l_deletedAt l else l_deletedAt l = 0)) tbl;
          ls = js_sort listener_cmp
                 (filter (\<lambda>l. (l_eventType l = etype \<or> l_eventType l = ''*'') \<and>
                              (l_dataType l = dtype \<or> l_dataType l = ''*'')) found)
      in if ls = [] then Inl (BadRequest (''No listeners found for event: '' @ etype @ '':'' @ dtype))
         else Inr ls)"

definition resumeListeners :: "listener list \<Rightarrow> 'c event_row \<Rightarrow> listener list result" where
  "resumeListeners tbl row =
     (let e = row_event row
      in and_then (loadListeners tbl (srcId e) (eventType e) (dataType e) True) (\<lambda>ls.
           and_then
             (if nonempty_str (row_listenerId row) then
                (let lid = the (row_listenerId row); r = dropWhile (\<lambda>l. l_id l \<noteq> lid) ls
                 in if r = [] then Inl (NotFound (''Invalid listener id '' @ lid @ '' for event '' @ ev_id e))
                    else Inr r)
              else Inr ls)
             (\<lambda>ls'. Inr (filter (\<lambda>l. l_deletedAt l = 0) ls'))))"

text \<open>A row of the listener table as \<open>addListener\<close> creates it, and the filter of \<open>removeListener\<close>.\<close>

definition addListener :: "listener \<Rightarrow> string \<Rightarrow> listener list \<Rightarrow> listener list" where
  "addListener dto newId tbl =
     tbl @ [dto\<lparr>l_id := newId, l_deletedAt := 0,
               l_eventType := str_or (Some (l_eventType dto)) ''*'',
               l_dataType := str_or (Some (l_dataType dto)) ''*''\<rparr>]"

record listener_filter =
  lf_id :: "string option"
  lf_srcId :: "string option"
  lf_eventType :: "string option"
  lf_dataType :: "string option"

definition field_ok :: "string option \<Rightarrow> string \<Rightarrow> bool" where
  "field_ok w v = (case w of None \<Rightarrow> True | Some x \<Rightarrow> v = x)"

definition star_if_empty :: "string option \<Rightarrow> string option" where
  "star_if_empty w = (if w = Some [] then Some ''*'' else w)"

definition removeListener :: "listener_filter \<Rightarrow> int \<Rightarrow> listener list \<Rightarrow> listener list" where
  "removeListener w now tbl =
     map (\<lambda>l. if field_ok (lf_id w) (l_id l) \<and> field_ok (lf_srcId w) (l_srcId l) \<and>
                 field_ok (star_if_empty (lf_eventType w)) (l_eventType l) \<and>
                 field_ok (star_if_empty (lf_dataType w)) (l_dataType l) \<and> l_deletedAt l = 0
              then l\<lparr>l_deletedAt := now\<rparr> else l) tbl"

interpretation listener_order: comparator listener_cmp
  by unfold_locales (auto simp: listener_cmp_def Let_def split: if_splits)

section \<open>Services\<close>

text \<open>
  What the listeners run on: the event store, the invoke id in the CLS store, and the rest of the
  world. A service function returns the world, the event as it has mutated it, and what it
  throws or returns. The registry is the dependency-injection container: it yields a service by
  name (or throws), a service its functions by name.
\<close>

record ('c, 'w) app =
  app_store :: "'c event_store"
  app_cls :: "string option"
  app_world :: 'w

record 'c svc_result =
  sr_data :: "'c event option"
  sr_resume :: "string option"

type_synonym ('c, 'w) service_fun =
  "('c, 'w) app \<Rightarrow> 'c event \<Rightarrow> ('c, 'w) app \<times> 'c event \<times> 'c svc_result option result"

type_synonym ('c, 'w) registry = "string \<Rightarrow> ((string \<Rightarrow> ('c, 'w) service_fun option) option) result"

definition invokeService :: "('c, 'w) registry \<Rightarrow> listener \<Rightarrow> string option \<Rightarrow> ('c, 'w) service_fun" where
  "invokeService reg target funName w e =
     (case reg (l_serviceName target) of
        Inl err \<Rightarrow> (w, e, Inl err)
      | Inr None \<Rightarrow> (w, e, Inl (PlainError (''Service '' @ l_serviceName target @
            '' not found for event listener#'' @ l_id target)))
      | Inr (Some service) \<Rightarrow>
          (case service (str_or funName (l_funName target)) of
             None \<Rightarrow> (w, e, Inl (PlainError (''Service '' @ l_serviceName target @ ''.'' @ l_funName target @
                 '' not found for event listener#'' @ l_id target)))
           | Some f \<Rightarrow> f w e))"

definition invokeCallgent :: "listener \<Rightarrow> string option \<Rightarrow> ('c, 'w) service_fun" where
  "invokeCallgent target funName w e = (w, e, Inr (Some \<lparr>sr_data = Some e, sr_resume = None\<rparr>))"

definition invokeListener :: "('c, 'w) registry \<Rightarrow> listener \<Rightarrow> string option \<Rightarrow> ('c, 'w) service_fun" where
  "invokeListener reg l funName =
     (if l_serviceType l = ST_CALLGENT then invokeCallgent l funName else invokeService reg l funName)"

section \<open>Invoking the listeners\<close>

definition svc_event :: "'c svc_result option \<Rightarrow> 'c event \<Rightarrow> 'c event" where
  "svc_event r e = (case r of None \<Rightarrow> e | Some x \<Rightarrow> (case sr_data x of None \<Rightarrow> e | Some d \<Rightarrow> d))"

definition svc_resume :: "'c svc_result option \<Rightarrow> string option" where
  "svc_resume r = (case r of None \<Rightarrow> None | Some x \<Rightarrow> sr_resume x)"

text \<open>The \<open>catch\<close> block: \<open>e.status || -1\<close> and \<open>e.response?.data?.message || e.message\<close>.\<close>

definition error_code :: "js_error \<Rightarrow> int" where
  "error_code err = (case error_status err of None \<Rightarrow> - 1 | Some n \<Rightarrow> if n = 0 then - 1 else n)"

definition fail_event :: "js_error \<Rightarrow> 'c event \<Rightarrow> 'c event" where
  "fail_event err e =
     e\<lparr>statusCode := Some (error_code err), message := Some (str_or (response_message err) (error_message err))\<rparr>"

text \<open>
  The loop. The state of a run is the world, the event, \<open>funName\<close>, the listener that ran last
  (\<open>listeners[idx - 1]\<close>) and the listeners still to run (\<open>listeners[idx]\<close> and on).
\<close>

fun run_listeners :: "('c, 'w) registry \<Rightarrow> listener option \<Rightarrow> listener list \<Rightarrow> 'c event \<Rightarrow> string option \<Rightarrow> ('c, 'w) app \<Rightarrow>
    ('c, 'w) app \<times> 'c event \<times> string option \<times> listener option \<times> listener list" where
  "run_listeners reg cur [] e funName w = (w, e, funName, cur, [])"
| "run_listeners reg cur (l # rest) e funName w =
     (if stopPropagation e then (w, e, funName, cur, l # rest)
      else
        (case invokeListener reg l funName w e of
           (w1, e1, Inl err) \<Rightarrow> (w1, fail_event err e1, funName, Some l, rest)
         | (w1, e1, Inr r) \<Rightarrow>
             (let e2 = svc_event r e1; f = svc_resume r;
                  e3 = e2\<lparr>statusCode := Some (if nonempty_str f then 2
                                            else if stopPropagation e2 \<or> rest = [] then 0 else 1)\<rparr>
              in if nonempty_str f \<or> stopPropagation e2 then (w1, e3, f, Some l, rest)
                 else run_listeners reg (Some l) rest e3 f w1)))"

definition next_listener :: "'c event \<Rightarrow> listener option \<Rightarrow> listener list \<Rightarrow> listener option" where
  "next_listener e cur rest =
     (let s = (case statusCode e of None \<Rightarrow> 0 | Some n \<Rightarrow> n)
      in if s = 1 then (case rest of [] \<Rightarrow> None | l # _ \<Rightarrow> Some l)
         else if s = 0 \<or> (2 < s \<and> s < 399) then None else cur)"

definition or_null :: "string option \<Rightarrow> string option" where
  "or_null s = (if nonempty_str s then s else None)"

text \<open>\<open>_invokeListeners\<close>: the \<open>finally\<close> block stores the checkpoint; a refusal of the store replaces
  the result.\<close>

definition invokeListeners :: "('c, 'w) registry \<Rightarrow> listener list \<Rightarrow> 'c event \<Rightarrow> string option \<Rightarrow> ('c, 'w) app \<Rightarrow>
    ('c, 'w) app \<times> 'c event result" where
  "invokeListeners reg ls e funName w =
     (case run_listeners reg None ls (e\<lparr>statusCode := Some 1\<rparr>) funName w of
        (w1, e1, f, cur, rest) \<Rightarrow>
          (case upsertEvent e1 (or_null f) (or_null (map_option l_id (next_listener e1 cur rest))) (app_store w1) of
             Inl err \<Rightarrow> (w1, Inl err)
           | Inr st \<Rightarrow> (w1\<lparr>app_store := st\<rparr>, Inr e1)))"

section \<open>Emit and resume\<close>

text \<open>
  \<open>_invokeCallback\<close> returns the event, or \<open>undefined\<close> (\<open>None\<close>) on the branch for URL callbacks, which
  has no code. \<open>again\<close> is \<open>resume\<close>.
\<close>

definition invokeCallback :: "(string \<Rightarrow> json option \<Rightarrow> ('c, 'w) app \<Rightarrow> ('c, 'w) app \<times> 'c event option result) \<Rightarrow>
    'c event \<Rightarrow> bool \<Rightarrow> ('c, 'w) app \<Rightarrow> ('c, 'w) app \<times> 'c event option result" where
  "invokeCallback again e urlOnly w =
     (if statusCode e \<noteq> None \<and> statusCode e \<noteq> Some 0 then (w, Inr (Some e))
      else if \<not> nonempty_str (callback e) then (w, Inr (Some e))
      else if callbackType e = CB_EVENT then
        (if urlOnly then (w, Inr (Some e)) else again [] (Some (JStr (the (callback e)))) w)
      else (w, Inr None))"

text \<open>
  \<open>resume\<close>. Its only recursion is the call with the empty key above; the fuel bounds it, and runs
  out in an event whose own id is empty.
\<close>

fun resume :: "nat \<Rightarrow> (req_ctx, 'w) registry \<Rightarrow> listener list \<Rightarrow> string \<Rightarrow> json option \<Rightarrow> (req_ctx, 'w) app \<Rightarrow>
    (req_ctx, 'w) app \<times> req_event option result" where
  "resume 0 reg tbl invokeKey resp w = (w, Inl (PlainError ''too much recursion''))"
| "resume (Suc n) reg tbl invokeKey resp w =
     (case parseInvokeKey invokeKey of (invokeId, eventId) \<Rightarrow>
        (case findEvent (app_store w) eventId of
           None \<Rightarrow> (w, Inl (NotFound (''Event not found, id='' @ invokeId)))
         | Some row \<Rightarrow>
             if row_status row \<noteq> 2
             then (w, Inl (BadRequest (''Cannot resume event with status '' @ show_int (row_status row) @ '', id='' @ invokeId)))
             else
               (case setCallbackResponse invokeId resp (load_event row) of
                  Inl err \<Rightarrow> (w, Inl err)
                | Inr (e, cls) \<Rightarrow>
                    (case resumeListeners tbl row of
                       Inl err \<Rightarrow> (w\<lparr>app_cls := Some cls\<rparr>, Inl err)
                     | Inr [] \<Rightarrow> (w\<lparr>app_cls := Some cls\<rparr>,
                         Inl (Unprocessable (''Failed to resume: no listeners found for event, id='' @ invokeId)))
                     | Inr (l # ls) \<Rightarrow>
                         (case invokeListeners reg (l # ls) e (row_funName row) (w\<lparr>app_cls := Some cls\<rparr>) of
                            (w1, Inl err) \<Rightarrow> (w1, Inl err)
                          | (w1, Inr e1) \<Rightarrow> invokeCallback (resume n reg tbl) e1 False w1)))))"

text \<open>
  \<open>emit\<close>: with a positive timeout the result is raced against a timer (\<open>late\<close>: the timer wins).
  The run goes on in the background, so the final state is the same.
\<close>

definition timeout_event :: "nat \<Rightarrow> 'c event \<Rightarrow> 'c event" where
  "timeout_event timeout e =
     (spread_event e)\<lparr>statusCode := Some 1,
        message := Some (''Sync invocation timeout('' @ show_nat timeout @ ''ms), will respond via callback'')\<rparr>"

definition emit :: "('c, 'w) registry \<Rightarrow> listener list \<Rightarrow> 'c event \<Rightarrow> nat \<Rightarrow> bool \<Rightarrow> ('c, 'w) app \<Rightarrow>
    ('c, 'w) app \<times> 'c event option result" where
  "emit reg tbl e timeout late w =
     (case loadListeners tbl (srcId e) (eventType e) (dataType e) False of
        Inl err \<Rightarrow> (w, Inl err)
      | Inr ls \<Rightarrow>
          (case invokeListeners reg ls e None w of
             (w1, r) \<Rightarrow>
               if 0 < timeout \<and> late then (w1, Inr (Some (timeout_event timeout e)))
               else
                 (case r of
                    Inl err \<Rightarrow> (w1, Inl err)
                  | Inr e1 \<Rightarrow> invokeCallback (\<lambda>k resp w. (w, Inr None)) e1 True w1)))"

section \<open>Facts about a run\<close>

text \<open>What a listener without a resume function, data of its own or a stop does to a run.\<close>

definition plain_result :: "'c svc_result option \<Rightarrow> bool" where
  "plain_result r \<longleftrightarrow> \<not> nonempty_str (svc_resume r) \<and> (case r of None \<Rightarrow> True | Some x \<Rightarrow> sr_data x = None)"

text \<open>A service function that succeeds: its effect on the world and on the event.\<close>

definition acts_as :: "('c, 'w) service_fun \<Rightarrow> (('c, 'w) app \<times> 'c event \<Rightarrow> ('c, 'w) app \<times> 'c event) \<Rightarrow> bool" where
  "acts_as f g \<longleftrightarrow> (\<forall>w e. \<not> stopPropagation e \<longrightarrow>
     (\<exists>r. f w e = (fst (g (w, e)), snd (g (w, e)), Inr r) \<and> plain_result r \<and>
          \<not> stopPropagation (snd (g (w, e)))))"

definition with_status :: "int \<Rightarrow> ('c, 'w) app \<times> 'c event \<Rightarrow> ('c, 'w) app \<times> 'c event" where
  "with_status n = (\<lambda>(w, e). (w, e\<lparr>statusCode := Some n\<rparr>))"

lemma plain_svc_event: "plain_result r \<Longrightarrow> svc_event r e = e"
  by (auto simp: plain_result_def svc_event_def split: option.splits)

text \<open>The four ways in which one turn of the loop goes on.\<close>

lemma run_Cons_cases:
  assumes "run_listeners reg cur (l # ls) e f w = (w1, e1, f1, cur1, rest)"
  obtains (stopped) "stopPropagation e" "w1 = w" "e1 = e" "f1 = f" "cur1 = cur" "rest = l # ls"
  | (failed) e' err where "\<not> stopPropagation e" "invokeListener reg l f w e = (w1, e', Inl err)"
      "e1 = fail_event err e'" "f1 = f" "cur1 = Some l" "rest = ls"
  | (ended) e' r n where "\<not> stopPropagation e" "invokeListener reg l f w e = (w1, e', Inr r)"
      "e1 = (svc_event r e')\<lparr>statusCode := Some n\<rparr>" "n = (if nonempty_str (svc_resume r) then 2 else 0)"
      "nonempty_str (svc_resume r) \<or> stopPropagation (svc_event r e')"
      "f1 = svc_resume r" "cur1 = Some l" "rest = ls"
  | (goes_on) w' e' r where "\<not> stopPropagation e" "invokeListener reg l f w e = (w', e', Inr r)"
      "\<not> nonempty_str (svc_resume r)" "\<not> stopPropagation (svc_event r e')"
      "run_listeners reg (Some l) ls ((svc_event r e')\<lparr>statusCode := Some (if ls = [] then 0 else 1)\<rparr>) (svc_resume r) w' =
         (w1, e1, f1, cur1, rest)"
proof (cases "stopPropagation e")
  case True
  with assms show ?thesis by (intro stopped) auto
next
  case ns: False
  obtain w' e' o' where inv: "invokeListener reg l f w e = (w', e', o')" by (metis prod_cases3)
  show ?thesis
  proof (cases o')
    case (Inl err)
    with assms ns inv show ?thesis by (intro failed [of e' err]) auto
  next
    case (Inr r)
    show ?thesis
    proof (cases "nonempty_str (svc_resume r) \<or> stopPropagation (svc_event r e')")
      case True
      with assms ns inv Inr show ?thesis by (intro ended [of e' r]) (auto simp: Let_def)
    next
      case False
      with assms ns inv Inr show ?thesis by (intro goes_on [of w' e' r]) (auto simp: Let_def)
    qed
  qed
qed

lemma run_split:
  assumes "run_listeners reg cur ls e f w = (w1, e1, f1, cur1, rest)"
  shows "\<exists>ran. ls = ran @ rest \<and> cur1 = (if ran = [] then cur else Some (last ran))"
  using assms
proof (induction ls arbitrary: cur e f w)
  case Nil
  then show ?case by simp
next
  case (Cons l ls)
  from Cons.prems show ?case
  proof (cases rule: run_Cons_cases)
    case (goes_on w' e' r)
    from Cons.IH [OF this(5)] obtain ran where "ls = ran @ rest" "cur1 = (if ran = [] then Some l else Some (last ran))" by blast
    then show ?thesis by (intro exI [of _ "l # ran"]) auto
  qed (auto intro: exI [of _ "[l]"])
qed

lemma fail_event_fields [simp]: "statusCode (fail_event err e) = Some (error_code err)"
    "paidBy (fail_event err e) = paidBy e" "ev_id (fail_event err e) = ev_id e"
  by (simp_all add: fail_event_def)

lemma error_code_nonzero [simp]: "error_code err \<noteq> 0"
  by (auto simp: error_code_def split: option.splits)

text \<open>Successful listeners, one after the other.\<close>

lemma invokeListener_falsy:
  assumes "\<not> nonempty_str f"
  shows "invokeListener reg l f = invokeListener reg l None"
proof -
  have h: "str_or f d = str_or None d" for d using assms by (cases f) auto
  show ?thesis
  proof (cases "l_serviceType l = ST_CALLGENT")
    case True
    then show ?thesis by (intro ext) (simp add: invokeListener_def invokeCallgent_def)
  next
    case False
    then show ?thesis by (intro ext) (simp only: invokeListener_def invokeService_def h if_False)
  qed
qed

lemma acts_asE:
  assumes "acts_as f g" and "\<not> stopPropagation e"
  obtains w' e' r where "g (w, e) = (w', e')" "f w e = (w', e', Inr r)" "plain_result r" "\<not> stopPropagation e'"
  using assms unfolding acts_as_def by (metis prod.collapse)

lemma run_all:
  assumes "\<And>l. l \<in> set ls \<Longrightarrow> acts_as (invokeListener reg l None) (g l)"
    and "\<not> nonempty_str f" and "\<not> stopPropagation e" and "ls \<noteq> []"
  shows "\<exists>f1. \<not> nonempty_str f1 \<and> run_listeners reg cur ls e f w =
    (case with_status 0 (fold (\<lambda>l s. with_status 1 (g l s)) ls (w, e)) of (w1, e1) \<Rightarrow> (w1, e1, f1, Some (last ls), []))"
  using assms
proof (induction ls arbitrary: cur e f w)
  case Nil
  then show ?case by simp
next
  case (Cons l ls)
  have "acts_as (invokeListener reg l None) (g l)" using Cons.prems(1) by simp
  then obtain w' e' r where g: "g l (w, e) = (w', e')" and inv: "invokeListener reg l None w e = (w', e', Inr r)"
      and r: "plain_result r" "\<not> stopPropagation e'"
    using Cons.prems(3) by (rule acts_asE)
  have f: "\<not> nonempty_str (svc_resume r)" and d: "svc_event r e' = e'"
    using r(1) plain_svc_event by (auto simp: plain_result_def)
  have inv': "invokeListener reg l f w e = (w', e', Inr r)"
    using inv by (simp only: invokeListener_falsy [OF Cons.prems(2)])
  show ?case
  proof (cases "ls = []")
    case True
    then show ?thesis using Cons.prems(3) inv' f d r(2) g by (auto simp: with_status_def Let_def)
  next
    case False
    have "\<exists>f1. \<not> nonempty_str f1 \<and> run_listeners reg (Some l) ls (e'\<lparr>statusCode := Some 1\<rparr>) (svc_resume r) w' =
      (case with_status 0 (fold (\<lambda>l s. with_status 1 (g l s)) ls (w', e'\<lparr>statusCode := Some 1\<rparr>)) of
         (w1, e1) \<Rightarrow> (w1, e1, f1, Some (last ls), []))"
      using Cons.prems(1) f r(2) False by (intro Cons.IH) auto
    then show ?thesis using Cons.prems(3) inv' f d r(2) g False by (simp add: with_status_def Let_def)
  qed
qed

lemma run_append:
  assumes "\<And>l. l \<in> set xs \<Longrightarrow> acts_as (invokeListener reg l None) (g l)"
    and "\<not> nonempty_str f" and "\<not> stopPropagation e" and "ys \<noteq> []" and "statusCode e = Some 1"
  shows "\<exists>f1 cur1. \<not> nonempty_str f1 \<and> run_listeners reg cur (xs @ ys) e f w =
    (case fold (\<lambda>l s. with_status 1 (g l s)) xs (w, e) of (w1, e1) \<Rightarrow> run_listeners reg cur1 ys e1 f1 w1) \<and>
    (case fold (\<lambda>l s. with_status 1 (g l s)) xs (w, e) of (w1, e1) \<Rightarrow> \<not> stopPropagation e1)"
  using assms
proof (induction xs arbitrary: cur e f w)
  case Nil
  then show ?case by auto
next
  case (Cons l xs)
  have "acts_as (invokeListener reg l None) (g l)" using Cons.prems(1) by simp
  then obtain w' e' r where g: "g l (w, e) = (w', e')" and inv: "invokeListener reg l None w e = (w', e', Inr r)"
      and r: "plain_result r" "\<not> stopPropagation e'"
    using Cons.prems(3) by (rule acts_asE)
  have f: "\<not> nonempty_str (svc_resume r)" and d: "svc_event r e' = e'"
    using r(1) plain_svc_event by (auto simp: plain_result_def)
  have inv': "invokeListener reg l f w e = (w', e', Inr r)"
    using inv by (simp only: invokeListener_falsy [OF Cons.prems(2)])
  have "\<exists>f1 cur1. \<not> nonempty_str f1 \<and> run_listeners reg (Some l) (xs @ ys) (e'\<lparr>statusCode := Some 1\<rparr>) (svc_resume r) w' =
    (case fold (\<lambda>l s. with_status 1 (g l s)) xs (w', e'\<lparr>statusCode := Some 1\<rparr>) of (w1, e1) \<Rightarrow> run_listeners reg cur1 ys e1 f1 w1) \<and>
    (case fold (\<lambda>l s. with_status 1 (g l s)) xs (w', e'\<lparr>statusCode := Some 1\<rparr>) of (w1, e1) \<Rightarrow> \<not> stopPropagation e1)"
    using Cons.prems f r(2) by (intro Cons.IH) auto
  then show ?case using Cons.prems(3,4) inv' f d r(2) g by (simp add: with_status_def Let_def)
qed

text \<open>A run up to the listener it stops at: all before have run, and then this one is invoked.\<close>

lemma run_reaches:
  assumes "\<And>x. x \<in> set xs \<Longrightarrow> acts_as (invokeListener reg x None) (g x)"
    and "\<not> stopPropagation e" and "statusCode e = Some 1"
    and "fold (\<lambda>x s. with_status 1 (g x s)) xs (w, e) = (w1, e1)"
    and "invokeListener reg l None w1 e1 = (w2, e2, o2)"
  shows "\<exists>f1. \<not> nonempty_str f1 \<and>
    (\<forall>err. o2 = Inl err \<longrightarrow> run_listeners reg None (xs @ l # ys) e None w = (w2, fail_event err e2, f1, Some l, ys)) \<and>
    (\<forall>r f. o2 = Inr r \<longrightarrow> svc_resume r = Some f \<longrightarrow> f \<noteq> [] \<longrightarrow>
      run_listeners reg None (xs @ l # ys) e None w = (w2, (svc_event r e2)\<lparr>statusCode := Some 2\<rparr>, Some f, Some l, ys))"
proof -
  obtain f1 cur1 where f1: "\<not> nonempty_str f1" and ns: "\<not> stopPropagation e1"
    and run: "run_listeners reg None (xs @ l # ys) e None w = run_listeners reg cur1 (l # ys) e1 f1 w1"
    using run_append [OF assms(1), of xs None e "l # ys" None w] assms(2-4) by auto
  have "invokeListener reg l f1 w1 e1 = (w2, e2, o2)"
    using assms(5) by (simp only: invokeListener_falsy [OF f1])
  then show ?thesis using f1 run ns by (intro exI [of _ f1]) (simp add: Let_def)
qed

section \<open>Facts about loading\<close>

lemma loadListeners_Inr:
  "loadListeners tbl src etype dtype deleted = Inr ls \<longleftrightarrow> ls \<noteq> [] \<and>
     ls = js_sort listener_cmp (filter (\<lambda>l. listener_matches src etype dtype l \<and>
            (if deleted then 0 \<le> l_deletedAt l else l_deletedAt l = 0)) tbl)"
proof -
  have "filter (\<lambda>l. (l_eventType l = etype \<or> l_eventType l = ''*'') \<and> (l_dataType l = dtype \<or> l_dataType l = ''*''))
      (filter (\<lambda>l. listener_matches src etype dtype l \<and> P l) tbl) =
    filter (\<lambda>l. listener_matches src etype dtype l \<and> P l) tbl" for P
    by (induction tbl) (auto simp: listener_matches_def)
  then show ?thesis by (auto simp: loadListeners_def Let_def)
qed

lemma loadListeners_set:
  "loadListeners tbl src etype dtype deleted = Inr ls \<Longrightarrow> set ls \<subseteq> set tbl"
  using listener_order.mset_js_sort by (metis (no_types, lifting) filter_is_subset loadListeners_Inr set_mset_mset)

lemma loadListeners_distinct:
  assumes "loadListeners tbl src etype dtype deleted = Inr ls" and "distinct (map l_id tbl)"
  shows "distinct (map l_id ls)"
proof -
  let ?fl = "filter (\<lambda>l. listener_matches src etype dtype l \<and> (if deleted then 0 \<le> l_deletedAt l else l_deletedAt l = 0)) tbl"
  have "mset (map l_id ls) = mset (map l_id ?fl)"
    using assms(1) by (simp add: loadListeners_Inr listener_order.mset_js_sort)
  moreover have "distinct (map l_id ?fl)" using assms(2) by (rule distinct_map_filter)
  ultimately show ?thesis by (metis mset_eq_imp_distinct_iff)
qed

lemma loadListeners_no_deleted:
  "\<forall>l\<in>set tbl. l_deletedAt l = 0 \<Longrightarrow> loadListeners tbl src etype dtype True = loadListeners tbl src etype dtype False"
  by (simp add: loadListeners_def Let_def cong: filter_cong)

lemma dropWhile_id:
  "distinct (map l_id (xs @ l # ys)) \<Longrightarrow> dropWhile (\<lambda>x. l_id x \<noteq> l_id l) (xs @ l # ys) = l # ys"
  by (induction xs) auto

section \<open>The pipeline of the seed\<close>

text \<open>\<open>initEventListeners\<close> of \<open>prisma/seed.ts\<close>: the listeners of a client request.\<close>

definition seed_listener :: "string \<Rightarrow> string \<Rightarrow> string \<Rightarrow> string \<Rightarrow> int \<Rightarrow> listener" where
  "seed_listener i dtype service fn prio =
     \<lparr>l_id = i, l_srcId = ''*'', l_eventType = ''CLIENT_REQUEST'', l_dataType = dtype, l_priority = prio,
      l_serviceType = ST_SERVICE, l_serviceName = service, l_funName = fn, l_deletedAt = 0\<rparr>"

definition seed_listeners :: "listener list" where
  "seed_listeners =
     [seed_listener ''CR-ADAPTOR-PREPROCESS'' ''*'' ''EntriesService'' ''preprocessClientRequest'' 0,
      seed_listener ''CR-CEN-AUTH'' ''*'' ''CallgentRealmsService'' ''checkCenAuth'' 100,
      seed_listener ''CR-LOAD-TARGET'' ''*'' ''EventStoresService'' ''loadClientEventHistories'' 200,
      seed_listener ''CR-LOAD-ENDPOINTS'' ''*'' ''EndpointsService'' ''loadEndpoints'' 300,
      seed_listener ''CR-GENERATE-WEBPAGE'' ''Webpage'' ''WebpageService'' ''genWebpages'' 400,
      seed_listener ''CR-MAP-2-ENDPOINTS'' ''*'' ''ScriptAgentService'' ''map2Endpoints'' 500,
      seed_listener ''CR-SCRIPT-RUNNER'' ''*'' ''ScriptRunnerAgent'' ''runAndFix'' 600]"

text \<open>A listener suspends the run: the listeners before it succeed and it returns a resume function.\<close>

definition ex_event :: "string option \<Rightarrow> 'c \<Rightarrow> 'c event" where
  "ex_event cb c = clientRequestEvent ''250109'' ''e1'' ''entry'' ''API'' None ''t'' (Some ''u'') (Some ''u'') c cb"

definition log_registry :: "('c, string list) registry" where
  "log_registry s = Inr (Some (\<lambda>f. Some (\<lambda>w e. (w\<lparr>app_world := app_world w @ [s @ ''.'' @ f]\<rparr>, e, Inr None))))"

definition empty_app :: "'w \<Rightarrow> ('c, 'w) app" where
  "empty_app w = \<lparr>app_store = [], app_cls = None, app_world = w\<rparr>"

lemma seed_api_listeners:
  "loadListeners seed_listeners src ''CLIENT_REQUEST'' ''API'' False =
     Inr (filter (\<lambda>l. l_dataType l = ''*'') seed_listeners)"
  by (simp add: loadListeners_def seed_listeners_def seed_listener_def listener_matches_def js_sort_def
      listener_cmp_def Let_def)

lemma log_acts_as:
  "l_serviceType l = ST_SERVICE \<Longrightarrow> acts_as (invokeListener log_registry l None)
     (\<lambda>(w, e). (w\<lparr>app_world := app_world w @ [l_serviceName l @ ''.'' @ l_funName l]\<rparr>, e))"
  by (auto simp: acts_as_def invokeListener_def invokeService_def log_registry_def plain_result_def svc_resume_def)

section \<open>Properties\<close>

text \<open>The listeners of an event are the rows that match its source, type and data type and are
  not deleted, each once, ordered by priority and, within a priority, those of any source first;
  listeners that tie keep the order of the table.\<close>

theorem loadListeners_ordered:
  assumes "loadListeners tbl src etype dtype False = Inr ls"
  shows "mset ls = mset (filter (\<lambda>l. listener_matches src etype dtype l \<and> l_deletedAt l = 0) tbl) \<and>
    sorted_wrt (\<lambda>a b. l_priority a < l_priority b \<or>
       l_priority a = l_priority b \<and> (l_srcId a = ''*'' \<or> l_srcId b \<noteq> ''*'')) ls \<and>
    (\<forall>p star. filter (\<lambda>l. l_priority l = p \<and> (l_srcId l = ''*'') = star) ls =
       filter (\<lambda>l. l_priority l = p \<and> (l_srcId l = ''*'') = star)
         (filter (\<lambda>l. listener_matches src etype dtype l \<and> l_deletedAt l = 0) tbl))"
proof -
  let ?found = "filter (\<lambda>l. listener_matches src etype dtype l \<and> l_deletedAt l = 0) tbl"
  have ls: "ls = js_sort listener_cmp ?found" using assms by (simp add: loadListeners_Inr)
  have "sorted_wrt (\<lambda>a b. listener_cmp a b \<le> 0) ls" unfolding ls by (rule listener_order.sorted_js_sort)
  then have "sorted_wrt (\<lambda>a b. l_priority a < l_priority b \<or>
       l_priority a = l_priority b \<and> (l_srcId a = ''*'' \<or> l_srcId b \<noteq> ''*'')) ls"
    by (rule sorted_wrt_mono_rel [rotated]) (auto simp: listener_cmp_def Let_def split: if_splits)
  moreover have "filter (\<lambda>l. l_priority l = p \<and> (l_srcId l = ''*'') = star) ls =
       filter (\<lambda>l. l_priority l = p \<and> (l_srcId l = ''*'') = star) ?found" for p star
    unfolding ls by (rule listener_order.js_sort_stable) (auto simp: listener_cmp_def)
  ultimately show ?thesis by (simp add: ls listener_order.mset_js_sort)
qed

theorem loadListeners_ordered_witness:
  "mset (filter (\<lambda>l. l_dataType l = ''*'') seed_listeners) =
     mset (filter (\<lambda>l. listener_matches ''entry'' ''CLIENT_REQUEST'' ''API'' l \<and> l_deletedAt l = 0) seed_listeners)"
  using loadListeners_ordered [OF seed_api_listeners [of "''entry''"]] by blast

text \<open>When every listener succeeds without suspending or stopping the event, each runs exactly
  once, in order, on what the one before left, and the event ends done (status 0), in the
  result and in the store.\<close>

theorem invokeListeners_all:
  assumes "ls \<noteq> []" and "\<And>l. l \<in> set ls \<Longrightarrow> acts_as (invokeListener reg l None) (g l)"
    and "\<not> stopPropagation e"
    and "fold (\<lambda>l s. with_status 1 (g l s)) ls (w, e\<lparr>statusCode := Some 1\<rparr>) = (w1, e1)" and "paidBy e1 \<noteq> None"
  shows "\<exists>st row. invokeListeners reg ls e None w = (w1\<lparr>app_store := st\<rparr>, Inr (e1\<lparr>statusCode := Some 0\<rparr>)) \<and>
    findEvent st (ev_id e1) = Some row \<and> row_status row = 0"
proof -
  let ?e = "e1\<lparr>statusCode := Some 0\<rparr>"
  have "\<exists>f1. run_listeners reg None ls (e\<lparr>statusCode := Some 1\<rparr>) None w = (w1, ?e, f1, Some (last ls), [])"
    using run_all [OF assms(2), of ls None "e\<lparr>statusCode := Some 1\<rparr>" None w] assms(1,3,4)
    by (auto simp: with_status_def)
  then obtain f1 where run: "run_listeners reg None ls (e\<lparr>statusCode := Some 1\<rparr>) None w = (w1, ?e, f1, Some (last ls), [])" ..
  obtain st where st: "upsertEvent ?e (or_null f1) (or_null None) (app_store w1) = Inr st"
    using assms(5) by (simp add: upsertEvent_def)
  have "findEvent st (ev_id e1) = Some (upsert_row ?e (or_null f1) (or_null None) (findEvent (app_store w1) (ev_id e1)))"
    using findEvent_upsert [OF st, of "ev_id e1"] by simp
  moreover have "invokeListeners reg ls e None w = (w1\<lparr>app_store := st\<rparr>, Inr ?e)"
    using run st by (simp add: invokeListeners_def next_listener_def)
  ultimately show ?thesis by (intro exI conjI) (assumption | simp)+
qed

theorem invokeListeners_all_witness:
  "\<exists>st. fst (invokeListeners log_registry (filter (\<lambda>l. l_dataType l = ''*'') seed_listeners) (ex_event None ()) None (empty_app [])) =
     \<lparr>app_store = st, app_cls = None, app_world =
        [''EntriesService.preprocessClientRequest'', ''CallgentRealmsService.checkCenAuth'',
         ''EventStoresService.loadClientEventHistories'', ''EndpointsService.loadEndpoints'',
         ''ScriptAgentService.map2Endpoints'', ''ScriptRunnerAgent.runAndFix'']\<rparr>"
proof -
  let ?ls = "filter (\<lambda>l. l_dataType l = ''*'') seed_listeners"
  let ?g = "\<lambda>l (w, e). (w\<lparr>app_world := app_world w @ [l_serviceName l @ ''.'' @ l_funName l]\<rparr>, e)"
  let ?w1 = "\<lparr>app_store = [], app_cls = None, app_world =
        [''EntriesService.preprocessClientRequest'', ''CallgentRealmsService.checkCenAuth'',
         ''EventStoresService.loadClientEventHistories'', ''EndpointsService.loadEndpoints'',
         ''ScriptAgentService.map2Endpoints'', ''ScriptRunnerAgent.runAndFix'']\<rparr>"
  have "\<exists>st row. invokeListeners log_registry ?ls (ex_event None ()) None (empty_app []) =
      (?w1\<lparr>app_store := st\<rparr>, Inr ((ex_event None ())\<lparr>statusCode := Some 1, statusCode := Some 0\<rparr>)) \<and>
      findEvent st (ev_id ((ex_event None ())\<lparr>statusCode := Some 1\<rparr>)) = Some row \<and> row_status row = 0"
  proof (rule invokeListeners_all [where g = ?g])
    show "acts_as (invokeListener log_registry l None) (?g l)" if "l \<in> set ?ls" for l
      using that by (intro log_acts_as) (auto simp: seed_listeners_def seed_listener_def)
  qed (simp_all add: seed_listeners_def seed_listener_def ex_event_def clientRequestEvent_def newEvent_def
        empty_app_def with_status_def)
  then show ?thesis by fastforce
qed

text \<open>C3. Suspension and resumption meet: when a listener asks to be resumed by a function, after
  listeners that have all run, the run stops there with the event pending and the listeners after
  it not run; the store holds the name of that function and the listener that asked for it, and
  a resume re-enters exactly at this listener, with those after it still to come.\<close>

theorem suspended_run_resumes_in_place:
  assumes "loadListeners tbl (srcId e) (eventType e) (dataType e) False = Inr (xs @ l # ys)"
    and "distinct (map l_id tbl)" and "\<forall>l\<in>set tbl. l_deletedAt l = 0 \<and> l_id l \<noteq> []"
    and "\<And>x. x \<in> set xs \<Longrightarrow> acts_as (invokeListener reg x None) (g x)" and "\<not> stopPropagation e"
    and "fold (\<lambda>x s. with_status 1 (g x s)) xs (w, e\<lparr>statusCode := Some 1\<rparr>) = (w1, e1)"
    and "invokeListener reg l None w1 e1 = (w2, e2, Inr r)" and "svc_resume r = Some f" "f \<noteq> []"
    and "e3 = (svc_event r e2)\<lparr>statusCode := Some 2\<rparr>" and "paidBy e3 \<noteq> None"
    and same: "srcId e3 = srcId e" "eventType e3 = eventType e" "dataType e3 = dataType e"
  shows "\<exists>st row. invokeListeners reg (xs @ l # ys) e None w = (w2\<lparr>app_store := st\<rparr>, Inr e3) \<and>
    findEvent st (ev_id e3) = Some row \<and> row_status row = 2 \<and> row_funName row = Some f \<and>
    row_listenerId row = Some (l_id l) \<and> resumeListeners tbl row = Inr (l # ys)"
proof -
  have lt: "set (xs @ l # ys) \<subseteq> set tbl" by (rule loadListeners_set [OF assms(1)])
  then have lid: "l_id l \<noteq> []" using assms(3) by auto
  have run: "run_listeners reg None (xs @ l # ys) (e\<lparr>statusCode := Some 1\<rparr>) None w = (w2, e3, Some f, Some l, ys)"
    using run_reaches [OF assms(4) _ _ assms(6,7), of ys] assms(5,8-10) by auto
  obtain st where st: "upsertEvent e3 (Some f) (Some (l_id l)) (app_store w2) = Inr st"
    using assms(11) by (simp add: upsertEvent_def)
  let ?row = "upsert_row e3 (Some f) (Some (l_id l)) (findEvent (app_store w2) (ev_id e3))"
  have row: "findEvent st (ev_id e3) = Some ?row" using findEvent_upsert [OF st, of "ev_id e3"] by simp
  have s3: "statusCode e3 = Some 2" using assms(10) by simp
  have cp: "row_funName ?row = Some f" "row_listenerId ?row = Some (l_id l)"
    using upsert_row_checkpoint [OF s3] by auto
  have inv: "invokeListeners reg (xs @ l # ys) e None w = (w2\<lparr>app_store := st\<rparr>, Inr e3)"
    using run st lid assms(9) s3 by (simp add: invokeListeners_def or_null_def next_listener_def)
  have "dropWhile (\<lambda>x. l_id x \<noteq> l_id l) (xs @ l # ys) = l # ys"
    using loadListeners_distinct [OF assms(1,2)] by (intro dropWhile_id)
  moreover have "filter (\<lambda>x. l_deletedAt x = 0) (l # ys) = l # ys"
    using lt assms(3) by (intro filter_True) auto
  ultimately have "resumeListeners tbl ?row = Inr (l # ys)"
    using assms(1,3) lid same cp by (auto simp: resumeListeners_def loadListeners_no_deleted Let_def del: filter.simps)
  moreover have "row_status ?row = 2" using s3 by simp
  ultimately show ?thesis using inv row cp by blast
qed

text \<open>A listener that suspends (\<open>ask\<close>, to be resumed by \<open>answer\<close>) before one that logs.\<close>

definition ask_registry :: "('c, string list) registry" where
  "ask_registry s = Inr (Some (\<lambda>f. Some (\<lambda>w e. (w\<lparr>app_world := app_world w @ [s @ ''.'' @ f]\<rparr>, e,
     Inr (if f = ''ask'' then Some \<lparr>sr_data = None, sr_resume = Some ''answer''\<rparr> else None)))))"

definition ask_listeners :: "listener list" where
  "ask_listeners = [seed_listener ''L1'' ''*'' ''A'' ''ask'' 0, seed_listener ''L2'' ''*'' ''B'' ''work'' 1]"

lemma ask_run:
  "loadListeners ask_listeners ''entry'' ''CLIENT_REQUEST'' ''API'' False = Inr ask_listeners"
  "invokeListeners ask_registry ask_listeners (ex_event cb c) None (empty_app []) =
     (\<lparr>app_store = [(''e1'', \<lparr>row_event = (ex_event cb c)\<lparr>statusCode := Some 2\<rparr>, row_status = 2,
           row_funName = Some ''answer'', row_listenerId = Some ''L1''\<rparr>)],
       app_cls = None, app_world = [''A.ask'']\<rparr>, Inr ((ex_event cb c)\<lparr>statusCode := Some 2\<rparr>))"
  by (simp_all add: loadListeners_def ask_listeners_def seed_listener_def listener_matches_def js_sort_def
      listener_cmp_def invokeListeners_def invokeListener_def invokeService_def ask_registry_def
      svc_event_def svc_resume_def next_listener_def upsertEvent_def upsert_row_def upsert_field_def
      or_null_def ex_event_def clientRequestEvent_def newEvent_def empty_app_def Let_def)

theorem suspended_run_resumes_in_place_witness:
  "\<exists>st row. invokeListeners ask_registry ([seed_listener ''L0'' ''*'' ''A'' ''work'' 0] @ seed_listener ''L1'' ''*'' ''A'' ''ask'' 1 #
        [seed_listener ''L2'' ''*'' ''B'' ''work'' 2]) (ex_event None ()) None (empty_app []) =
      (\<lparr>app_store = [], app_cls = None, app_world = [''A.work'', ''A.ask'']\<rparr>\<lparr>app_store := st\<rparr>,
       Inr ((ex_event None ())\<lparr>statusCode := Some 2\<rparr>)) \<and>
    findEvent st (ev_id ((ex_event None ())\<lparr>statusCode := Some 2\<rparr>)) = Some row \<and> row_status row = 2 \<and>
    row_funName row = Some ''answer'' \<and> row_listenerId row = Some (l_id (seed_listener ''L1'' ''*'' ''A'' ''ask'' 1)) \<and>
    resumeListeners [seed_listener ''L2'' ''*'' ''B'' ''work'' 2, seed_listener ''L1'' ''*'' ''A'' ''ask'' 1, seed_listener ''L0'' ''*'' ''A'' ''work'' 0] row =
      Inr (seed_listener ''L1'' ''*'' ''A'' ''ask'' 1 # [seed_listener ''L2'' ''*'' ''B'' ''work'' 2])"
  by (rule suspended_run_resumes_in_place [where r = "Some \<lparr>sr_data = None, sr_resume = Some ''answer''\<rparr>" and
        g = "\<lambda>l (w, e). (w\<lparr>app_world := app_world w @ [l_serviceName l @ ''.'' @ l_funName l]\<rparr>, e)"])
    (auto simp: acts_as_def invokeListener_def invokeService_def ask_registry_def plain_result_def svc_resume_def svc_event_def
      loadListeners_def listener_matches_def js_sort_def listener_cmp_def Let_def
      seed_listener_def ex_event_def clientRequestEvent_def newEvent_def empty_app_def with_status_def)

text \<open>If the suspended listener is deleted before the callback arrives, the resume hands its
  resume function to the next listener: the service of the second listener is called with the
  function name of the first, and its own function is never called.\<close>

theorem resume_after_delete_misroutes:
  "\<exists>row. findEvent (app_store (fst (invokeListeners ask_registry ask_listeners (ex_event None c) None (empty_app [])))) ''e1'' = Some row \<and>
     (\<exists>l2. resumeListeners (removeListener \<lparr>lf_id = Some ''L1'', lf_srcId = None, lf_eventType = None, lf_dataType = None\<rparr> 9 ask_listeners) row
        = Inr [l2] \<and> l_funName l2 = ''work'' \<and>
        app_world (fst (invokeListeners ask_registry [l2] (load_event row) (row_funName row) (empty_app []))) = [''B.answer''])"
proof -
  let ?row = "\<lparr>row_event = (ex_event None c)\<lparr>statusCode := Some 2\<rparr>, row_status = 2,
      row_funName = Some ''answer'', row_listenerId = Some ''L1''\<rparr>"
  have res: "resumeListeners (removeListener \<lparr>lf_id = Some ''L1'', lf_srcId = None, lf_eventType = None, lf_dataType = None\<rparr> 9 ask_listeners) ?row
      = Inr [seed_listener ''L2'' ''*'' ''B'' ''work'' 1]"
    by (simp add: resumeListeners_def loadListeners_def removeListener_def ask_listeners_def seed_listener_def
        listener_matches_def js_sort_def listener_cmp_def field_ok_def star_if_empty_def ex_event_def
        clientRequestEvent_def newEvent_def Let_def)
  have run: "app_world (fst (invokeListeners ask_registry [seed_listener ''L2'' ''*'' ''B'' ''work'' 1] (load_event ?row)
      (row_funName ?row) (empty_app []))) = [''B.answer'']"
    by (simp add: invokeListeners_def invokeListener_def invokeService_def ask_registry_def seed_listener_def
      svc_event_def svc_resume_def next_listener_def upsertEvent_def load_event_def
      or_null_def ex_event_def clientRequestEvent_def newEvent_def empty_app_def Let_def)
  show ?thesis
    unfolding ask_run(2)
    by (intro exI [of _ ?row] exI [of _ "seed_listener ''L2'' ''*'' ''B'' ''work'' 1"] conjI)
      (simp add: findEvent_def, rule res, simp add: seed_listener_def, rule run)
qed

text \<open>C4. A listener that throws ends the run: the listeners before it have run, those after it have
  not, and the event carries the status of the error (-1 if it has none) and the message of the
  response of the error or its own. The stored checkpoint is the listener that failed, unless the
  thrown status reads as a success (above 2 and below 399: none) or as an event being processed
  (1: the next listener).\<close>

theorem failing_listener_ends_run:
  assumes "\<And>x. x \<in> set xs \<Longrightarrow> acts_as (invokeListener reg x None) (g x)"
    and "\<not> stopPropagation e" and "\<forall>x\<in>set (l # ys). l_id x \<noteq> []"
    and "fold (\<lambda>x s. with_status 1 (g x s)) xs (w, e\<lparr>statusCode := Some 1\<rparr>) = (w1, e1)"
    and "invokeListener reg l None w1 e1 = (w2, e2, Inl err)" and "paidBy e2 \<noteq> None"
  shows "\<exists>st row n. invokeListeners reg (xs @ l # ys) e None w =
      (w2\<lparr>app_store := st\<rparr>, Inr (e2\<lparr>statusCode := Some n, message := Some (str_or (response_message err) (error_message err))\<rparr>)) \<and>
    n = (case error_status err of None \<Rightarrow> - 1 | Some s \<Rightarrow> if s = 0 then - 1 else s) \<and>
    findEvent st (ev_id e2) = Some row \<and> row_status row = n \<and>
    row_listenerId row = (if n = 1 then (case ys of [] \<Rightarrow> None | y # _ \<Rightarrow> Some (l_id y))
                          else if 2 < n \<and> n < 399 then None else Some (l_id l))"
proof -
  let ?e = "fail_event err e2" and ?n = "error_code err"
  let ?k = "if ?n = 1 then (case ys of [] \<Rightarrow> None | y # _ \<Rightarrow> Some (l_id y)) else if 2 < ?n \<and> ?n < 399 then None else Some (l_id l)"
  obtain f1 where f1: "\<not> nonempty_str f1"
    and run: "run_listeners reg None (xs @ l # ys) (e\<lparr>statusCode := Some 1\<rparr>) None w = (w2, ?e, f1, Some l, ys)"
    using run_reaches [OF assms(1) _ _ assms(4,5), of ys] assms(2) by auto
  have nx: "or_null (map_option l_id (next_listener ?e (Some l) ys)) = ?k"
    using assms(3) by (auto simp: next_listener_def or_null_def split: list.splits)
  obtain st where st: "upsertEvent ?e (or_null f1) ?k (app_store w2) = Inr st"
    using assms(6) by (simp add: upsertEvent_def)
  have row: "findEvent st (ev_id e2) = Some (upsert_row ?e (or_null f1) ?k (findEvent (app_store w2) (ev_id e2)))"
    using findEvent_upsert [OF st, of "ev_id e2"] by simp
  have inv: "invokeListeners reg (xs @ l # ys) e None w = (w2\<lparr>app_store := st\<rparr>, Inr ?e)"
    using run st nx by (simp only: invokeListeners_def prod.case sum.case)
  have cp: "row_status (upsert_row ?e f k old) = ?n" "row_listenerId (upsert_row ?e f k old) = k" for f k old
    using upsert_row_checkpoint [of ?e ?n] by auto
  show ?thesis
    by (rule exI [of _ st], rule exI [of _ "upsert_row ?e (or_null f1) ?k (findEvent (app_store w2) (ev_id e2))"], rule exI [of _ ?n])
      (use inv row cp in \<open>simp add: fail_event_def; simp add: error_code_def\<close>)
qed

theorem failing_listener_ends_run_witness:
  "\<exists>st row n. invokeListeners (\<lambda>s. if s = ''B'' then Inl (HttpError (Some 304) ''Request failed'' (Some ''Not Modified'')) else log_registry s)
      ([seed_listener ''L0'' ''*'' ''A'' ''a'' 0] @ seed_listener ''L1'' ''*'' ''B'' ''b'' 1 # [seed_listener ''L2'' ''*'' ''C'' ''c'' 2])
      (ex_event None ()) None (empty_app []) =
     ((\<lparr>app_store = [], app_cls = None, app_world = [''A.a'']\<rparr>)\<lparr>app_store := st\<rparr>,
      Inr ((ex_event None ())\<lparr>statusCode := Some 1, statusCode := Some n,
        message := Some (str_or (response_message (HttpError (Some 304) ''Request failed'' (Some ''Not Modified'')))
          (error_message (HttpError (Some 304) ''Request failed'' (Some ''Not Modified''))))\<rparr>)) \<and>
    n = (case error_status (HttpError (Some 304) ''Request failed'' (Some ''Not Modified'')) of None \<Rightarrow> - 1 | Some s \<Rightarrow> if s = 0 then - 1 else s) \<and>
    findEvent st (ev_id ((ex_event None ())\<lparr>statusCode := Some 1\<rparr>)) = Some row \<and> row_status row = n \<and>
    row_listenerId row = (if n = 1 then (case [seed_listener ''L2'' ''*'' ''C'' ''c'' 2] of [] \<Rightarrow> None | y # _ \<Rightarrow> Some (l_id y))
      else if 2 < n \<and> n < 399 then None else Some (l_id (seed_listener ''L1'' ''*'' ''B'' ''b'' 1)))"
  by (rule failing_listener_ends_run [where
        g = "\<lambda>l (w, e). (w\<lparr>app_world := app_world w @ [l_serviceName l @ ''.'' @ l_funName l]\<rparr>, e)"])
    (auto simp: acts_as_def invokeListener_def invokeService_def log_registry_def plain_result_def svc_resume_def
      seed_listener_def ex_event_def clientRequestEvent_def newEvent_def empty_app_def with_status_def)

text \<open>A synchronous call that times out is answered with a copy of the event without its
  context, status 1; what the listeners do to the store and the world is not affected.\<close>

theorem emit_timeout:
  "fst (emit reg tbl e (Suc t) True w) = fst (emit reg tbl e 0 False w) \<and>
   (\<forall>r. snd (emit reg tbl e (Suc t) True w) = Inr r \<longrightarrow>
      (\<exists>e'. r = Some e' \<and> ev_ctx e' = None \<and> statusCode e' = Some 1 \<and> ev_id e' = ev_id e))"
  by (auto simp: emit_def invokeCallback_def timeout_event_def spread_event_def split: sum.splits prod.splits)

theorem emit_timeout_witness:
  "\<exists>e'. snd (emit ask_registry ask_listeners (ex_event None ()) (Suc 4999) True (empty_app [])) = Inr (Some e') \<and> ev_ctx e' = None"
proof -
  have "srcId (ex_event None ()) = ''entry''" "eventType (ex_event None ()) = ''CLIENT_REQUEST''" "dataType (ex_event None ()) = ''API''"
    by (simp_all add: ex_event_def clientRequestEvent_def newEvent_def)
  then have "\<exists>r. snd (emit ask_registry ask_listeners (ex_event None ()) (Suc 4999) True (empty_app [])) = Inr r"
    by (simp add: emit_def ask_run)
  then show ?thesis using emit_timeout [of ask_registry ask_listeners "ex_event None ()" 4999 "empty_app []"] by blast
qed

text \<open>A done event with a URL callback comes back as \<open>undefined\<close>: the branch for URL callbacks has
  no code, so the caller that reads a property of the result throws.\<close>

theorem emit_url_callback_undefined:
  assumes "loadListeners tbl (srcId e) (eventType e) (dataType e) False = Inr ls"
    and "invokeListeners reg ls e None w = (w1, Inr e1)" and "statusCode e1 = Some 0"
    and "callback e1 = Some (c # cs)" and "callbackType e1 = CB_URL"
  shows "emit reg tbl e t False w = (w1, Inr None)"
  using assms by (simp add: emit_def invokeCallback_def)

theorem emit_url_callback_undefined_witness:
  "\<exists>w1. emit log_registry ask_listeners (ex_event (Some ''http://cb'') ()) 0 False (empty_app []) = (w1, Inr None)"
proof -
  let ?e = "ex_event (Some ''http://cb'') ()"
  have ids: "srcId ?e = ''entry''" "eventType ?e = ''CLIENT_REQUEST''" "dataType ?e = ''API''"
    by (simp_all add: ex_event_def clientRequestEvent_def newEvent_def)
  have "\<exists>w1. invokeListeners log_registry ask_listeners ?e None (empty_app []) = (w1, Inr (?e\<lparr>statusCode := Some 0\<rparr>))"
    by (simp add: invokeListeners_def ask_listeners_def invokeListener_def invokeService_def log_registry_def seed_listener_def
      svc_event_def svc_resume_def next_listener_def upsertEvent_def
      or_null_def ex_event_def clientRequestEvent_def newEvent_def empty_app_def Let_def)
  then obtain w1 where "invokeListeners log_registry ask_listeners ?e None (empty_app []) = (w1, Inr (?e\<lparr>statusCode := Some 0\<rparr>))" ..
  then have "emit log_registry ask_listeners ?e 0 False (empty_app []) = (w1, Inr None)"
    by (rule emit_url_callback_undefined [rotated])
      (simp_all add: ids ask_run(1) ex_event_def clientRequestEvent_def newEvent_def)
  then show ?thesis ..
qed

end
