(* ===== verification/CachedStore.thy ===== *)
theory CachedStore
  imports Invocations
begin

text \<open>
  \<open>src/cached/cached.service.ts\<close>: the cache of endpoint responses, with the observers that wait for
  the response of an asynchronous endpoint. The table has a unique index on endpoint and key.
\<close>

section \<open>The table\<close>

record cached_row =
  c_pk :: nat
  c_sepId :: string
  c_cacheKey :: string
  c_response :: por
  c_sourceId :: string
  c_invokeKeys :: "string list"
  c_createdAt :: int

record cached_db =
  cd_rows :: "cached_row list"
  cd_nextPk :: nat

text \<open>A response is stored as JSON, which has no \<open>undefined\<close>.\<close>

definition as_json :: "por \<Rightarrow> por" where
  "as_json r = r\<lparr>p_data := (if p_data r = Some None then None else p_data r)\<rparr>"

definition findCached :: "cached_db \<Rightarrow> string \<Rightarrow> string \<Rightarrow> cached_row option" where
  "findCached db cacheKey sepId = find (\<lambda>c. c_sepId c = sepId \<and> c_cacheKey c = cacheKey) (cd_rows db)"

definition deleteCached :: "nat \<Rightarrow> cached_db \<Rightarrow> cached_db" where
  "deleteCached pk db = db\<lparr>cd_rows := filter (\<lambda>c. c_pk c \<noteq> pk) (cd_rows db)\<rparr>"

definition on_row :: "nat \<Rightarrow> (cached_row \<Rightarrow> cached_row) \<Rightarrow> cached_db \<Rightarrow> cached_db" where
  "on_row pk f db = db\<lparr>cd_rows := map (\<lambda>c. if c_pk c = pk then f c else c) (cd_rows db)\<rparr>"

definition addObserver :: "nat \<Rightarrow> string \<Rightarrow> cached_db \<Rightarrow> cached_db" where
  "addObserver pk invokeKey = on_row pk (\<lambda>c. c\<lparr>c_invokeKeys := c_invokeKeys c @ [invokeKey]\<rparr>)"

definition updateResponse :: "nat \<Rightarrow> por \<Rightarrow> cached_db \<Rightarrow> cached_db" where
  "updateResponse pk response = on_row pk (\<lambda>c. c\<lparr>c_response := as_json response\<rparr>)"

definition createCached :: "string \<Rightarrow> string \<Rightarrow> por \<Rightarrow> string \<Rightarrow> int \<Rightarrow> cached_db \<Rightarrow> cached_db result" where
  "createCached sepId cacheKey response sourceId now db =
     (if findCached db cacheKey sepId \<noteq> None
      then Inl (PlainError ''Unique constraint failed on the fields: (`sepId`,`cacheKey`)'')
      else Inr (db\<lparr>cd_rows := cd_rows db @
                  [\<lparr>c_pk = cd_nextPk db, c_sepId = sepId, c_cacheKey = cacheKey, c_response = as_json response,
                    c_sourceId = sourceId, c_invokeKeys = [], c_createdAt = now\<rparr>],
                cd_nextPk := Suc (cd_nextPk db)\<rparr>))"

section \<open>The cache key\<close>

text \<open>
  \<open>/^(function\\s*\\(|\\([^\\)]*\\)\\s*=>).+/i\<close>: the text of a function. \<open>Utils.toFunction\<close> and the
  function it yields are JavaScript evaluated at run time: a parameter that throws a message or
  returns the key.
\<close>

definition rest_of_line :: "string \<Rightarrow> bool" where
  "rest_of_line s = (case s of [] \<Rightarrow> False | c # _ \<Rightarrow> \<not> is_line_end c)"

definition is_function_text :: "string \<Rightarrow> bool" where
  "is_function_text s =
     ((prefix ''function'' (to_lower s) \<and>
        (case dropWhile is_space (drop 8 s) of [] \<Rightarrow> False | c # r \<Rightarrow> c = CHR ''('' \<and> rest_of_line r)) \<or>
      (case s of [] \<Rightarrow> False | c # r \<Rightarrow> c = CHR ''('' \<and>
        (case cut_at (CHR '')'') r of None \<Rightarrow> False
         | Some (_, r2) \<Rightarrow> (let r3 = dropWhile is_space r2 in prefix ''=>'' r3 \<and> rest_of_line (drop 2 r3)))))"

type_synonym key_evaluator = "string \<Rightarrow> endpoint \<Rightarrow> req_event \<Rightarrow> string + string option"

definition getCacheKey :: "key_evaluator \<Rightarrow> endpoint \<Rightarrow> req_event \<Rightarrow> string option result" where
  "getCacheKey evalKey en e =
     (let k = map_option js_trim (en_cacheKey en)
      in if \<not> nonempty_str k then Inr (if en_method en = ''GET'' then Some (en_name en) else None)
         else if is_function_text (the k) then
           (case evalKey (the k) en e of
              Inl _ \<Rightarrow> Inl (BadRequest (''Invalid cacheKey for callgent#'' @ en_callgentId en @
                              '', endpoint#'' @ en_id en @ '': '' @ the k))
            | Inr r \<Rightarrow> Inr r)
         else Inr k)"

definition loadCacheConfig :: "key_evaluator \<Rightarrow> endpoint \<Rightarrow> req_event \<Rightarrow> (string \<times> int option) option result" where
  "loadCacheConfig evalKey en e =
     (if (case en_cacheTtl en of None \<Rightarrow> False | Some n \<Rightarrow> n < 0) then Inr None
      else and_then (getCacheKey evalKey en e) (\<lambda>k.
             Inr (if nonempty_str k then Some (the k, en_cacheTtl en) else None)))"

definition reallyCache :: "string option \<Rightarrow> int option \<Rightarrow> endpoint \<Rightarrow> bool" where
  "reallyCache cacheKey cacheTtl en \<longleftrightarrow>
     nonempty_str cacheKey \<and> (en_isAsync en \<or> (case cacheTtl of None \<Rightarrow> False | Some n \<Rightarrow> 0 < n))"

section \<open>Reading, writing and notifying\<close>

text \<open>\<open>{cacheKey, cacheTtl, response}\<close>.\<close>

record cached_hit =
  h_cacheKey :: "string option"
  h_cacheTtl :: "int option"
  h_response :: "por option"

definition is_expired :: "int option \<Rightarrow> endpoint \<Rightarrow> int \<Rightarrow> cached_row \<Rightarrow> bool" where
  "is_expired cacheTtl en now c =
     (case cacheTtl of
        Some n \<Rightarrow> if n \<noteq> 0 then c_createdAt c + n * 1000 < now
                   else if en_isAsync en then p_status (c_response c) \<noteq> Some 2 else True
      | None \<Rightarrow> if en_isAsync en then p_status (c_response c) \<noteq> Some 2 else True)"

definition fromCached :: "key_evaluator \<Rightarrow> string \<Rightarrow> endpoint \<Rightarrow> req_event \<Rightarrow> int \<Rightarrow> cached_db \<Rightarrow> cached_db \<times> cached_hit result" where
  "fromCached evalKey invokeId en e now db =
     (case loadCacheConfig evalKey en e of
        Inl err \<Rightarrow> (db, Inl err)
      | Inr cfg \<Rightarrow>
          (let k = map_option fst cfg; ttl = (case cfg of None \<Rightarrow> None | Some (_, t) \<Rightarrow> t);
               r = \<lparr>h_cacheKey = k, h_cacheTtl = ttl, h_response = None\<rparr>
           in if \<not> reallyCache k ttl en then (db, Inr r)
              else
                (case findCached db (the k) (en_id en) of
                   None \<Rightarrow> (db, Inr r)
                 | Some c \<Rightarrow>
                     if is_expired ttl en now c then (deleteCached (c_pk c) db, Inr r)
                     else
                       (if en_isAsync en \<and> p_status (c_response c) = Some 2
                        then addObserver (c_pk c) (composeInvokeKey invokeId (ev_id e)) db else db,
                        Inr (r\<lparr>h_response := Some (c_response c)\<rparr>)))))"

text \<open>\<open>response\<close> is a required column: an \<open>undefined\<close> response (\<open>None\<close>) is refused.\<close>

definition toCache :: "string option \<Rightarrow> int option \<Rightarrow> por option \<Rightarrow> endpoint \<Rightarrow> string \<Rightarrow> int \<Rightarrow> cached_db \<Rightarrow> cached_db \<times> bool result" where
  "toCache cacheKey cacheTtl response en eventId now db =
     (if \<not> reallyCache cacheKey cacheTtl en then (db, Inr False)
      else
        (case response of
           None \<Rightarrow> (db, Inl (PlainError ''Argument `response` is missing.''))
         | Some r \<Rightarrow>
             (case createCached (en_id en) (the cacheKey) r eventId now db of
                Inl err \<Rightarrow> (db, Inl err)
              | Inr db' \<Rightarrow> (db', Inr True))))"

text \<open>
  \<open>_group\<close>: the number of groups counts distinct ids, the groups are slices of the list as it is.
  \<open>notifyObservers\<close>: the calls \<open>resume(invKey, response.data)\<close>, group by group; an error of one is
  caught. \<open>updateCache\<close> returns the calls it starts without waiting for them.
\<close>

definition group_keys :: "string list \<Rightarrow> nat \<Rightarrow> string list list" where
  "group_keys eventIds chunkSize =
     (let ids = remdups eventIds
      in map (\<lambda>i. take chunkSize (drop (i * chunkSize) eventIds)) [0..<ceil_div (length ids) chunkSize])"

definition notifyObservers :: "string list \<Rightarrow> por \<Rightarrow> (string \<times> json option) list" where
  "notifyObservers invokeKeys response =
     map (\<lambda>k. (k, por_data response)) (concat (group_keys invokeKeys 3))"

definition updateCache :: "por \<Rightarrow> string option \<Rightarrow> int option \<Rightarrow> endpoint \<Rightarrow> cached_db \<Rightarrow>
    cached_db \<times> bool \<times> (string \<times> json option) list" where
  "updateCache response cacheKey cacheTtl en db =
     (if \<not> reallyCache cacheKey cacheTtl en then (db, False, [])
      else
        (case findCached db (the cacheKey) (en_id en) of
           None \<Rightarrow> (db, False, [])
         | Some c \<Rightarrow> (updateResponse (c_pk c) response db, True, notifyObservers (c_invokeKeys c) response)))"

section \<open>The invariant of the table\<close>

definition row_key :: "cached_row \<Rightarrow> string \<times> string" where
  "row_key c = (c_sepId c, c_cacheKey c)"

definition cached_ok :: "cached_db \<Rightarrow> bool" where
  "cached_ok db \<longleftrightarrow> distinct (map row_key (cd_rows db)) \<and> distinct (map c_pk (cd_rows db)) \<and>
     list_all (\<lambda>c. c_pk c < cd_nextPk db) (cd_rows db)"

lemma findCached_Some:
  "findCached db k s = Some c \<Longrightarrow> c \<in> set (cd_rows db) \<and> c_sepId c = s \<and> c_cacheKey c = k"
  by (auto simp: findCached_def find_Some_iff)

lemma findCached_None: "findCached db k s = None \<longleftrightarrow> (s, k) \<notin> row_key ` set (cd_rows db)"
  by (auto simp: findCached_def find_None_iff row_key_def)

lemma findCached_unique:
  assumes "cached_ok db" and "c \<in> set (cd_rows db)"
  shows "findCached db (c_cacheKey c) (c_sepId c) = Some c"
proof -
  obtain d where d: "findCached db (c_cacheKey c) (c_sepId c) = Some d"
    using assms(2) findCached_None [of db "c_cacheKey c" "c_sepId c"] by (force simp: row_key_def)
  then have "row_key d = row_key c" "d \<in> set (cd_rows db)" by (auto dest: findCached_Some simp: row_key_def)
  then have "d = c" using assms by (auto simp: cached_ok_def distinct_map inj_on_def)
  with d show ?thesis by simp
qed

lemma cached_ok_delete: "cached_ok db \<Longrightarrow> cached_ok (deleteCached pk db)"
  by (auto simp: cached_ok_def deleteCached_def distinct_map_filter list_all_iff)

lemma cached_ok_on_row:
  assumes "cached_ok db" and "\<And>c. row_key (f c) = row_key c \<and> c_pk (f c) = c_pk c"
  shows "cached_ok (on_row pk f db)"
proof -
  let ?g = "\<lambda>c. if c_pk c = pk then f c else c"
  have "map row_key (map ?g (cd_rows db)) = map row_key (cd_rows db)"
      "map c_pk (map ?g (cd_rows db)) = map c_pk (cd_rows db)"
    using assms(2) by auto
  moreover have "list_all (\<lambda>c. c_pk c < cd_nextPk db) (map ?g (cd_rows db))"
    using assms by (auto simp: cached_ok_def list_all_iff)
  ultimately show ?thesis using assms(1) by (simp add: cached_ok_def on_row_def del: map_map)
qed

lemma cached_ok_create: "cached_ok db \<Longrightarrow> createCached s k r src now db = Inr db' \<Longrightarrow> cached_ok db'"
  by (auto simp: cached_ok_def createCached_def findCached_None row_key_def list_all_iff less_Suc_eq
      split: if_splits) (metis less_irrefl)

lemma cached_ok_fromCached: "cached_ok db \<Longrightarrow> cached_ok (fst (fromCached ev i en e now db))"
  by (auto simp: fromCached_def Let_def addObserver_def row_key_def
      intro!: cached_ok_delete cached_ok_on_row split: sum.splits option.splits)

lemma cached_ok_toCache: "cached_ok db \<Longrightarrow> cached_ok (fst (toCache k t r en ei now db))"
  by (auto simp: toCache_def intro: cached_ok_create split: sum.splits option.splits)

lemma cached_ok_updateCache: "cached_ok db \<Longrightarrow> cached_ok (fst (updateCache r k t en db))"
  by (auto simp: updateCache_def updateResponse_def row_key_def intro!: cached_ok_on_row split: option.splits)

section \<open>Facts about hits and groups\<close>

lemma findCached_create:
  assumes "createCached s k r src now db = Inr db'"
  shows "findCached db' k s = Some \<lparr>c_pk = cd_nextPk db, c_sepId = s, c_cacheKey = k, c_response = as_json r,
    c_sourceId = src, c_invokeKeys = [], c_createdAt = now\<rparr>"
  using assms by (auto simp: createCached_def findCached_def find_Some_iff nth_append find_None_iff split: if_splits
    intro!: exI [of _ "length (cd_rows db)"] dest: nth_mem)

lemma findCached_on_row:
  assumes "findCached db k s = Some c" and "\<And>d. row_key (f d) = row_key d"
  shows "findCached (on_row (c_pk c) f db) k s = Some (f c)"
proof -
  have key: "c_sepId (f d) = c_sepId d" "c_cacheKey (f d) = c_cacheKey d" for d
    using assms(2) [of d] by (simp_all add: row_key_def)
  have "find (\<lambda>c. c_sepId c = s \<and> c_cacheKey c = k) cs = Some c \<Longrightarrow>
      find (\<lambda>c. c_sepId c = s \<and> c_cacheKey c = k) (map (\<lambda>d. if c_pk d = c_pk c then f d else d) cs) = Some (f c)" for cs
    by (induction cs) (auto simp: key split: if_splits)
  then show ?thesis using assms(1) by (simp add: findCached_def on_row_def)
qed

lemma slices_concat:
  "0 < n \<Longrightarrow> concat (map (\<lambda>i. take n (drop (i * n) xs)) [0..<m]) = take (n * m) xs"
proof (induction m)
  case 0
  then show ?case by simp
next
  case (Suc m)
  have "n * Suc m = m * n + n" by simp
  then have "take (n * Suc m) xs = take (m * n) xs @ take n (drop (m * n) xs)" by (simp only: take_add)
  then show ?case using Suc by (simp add: mult.commute)
qed

text \<open>The requests of a cache, for runs of any length.\<close>

datatype cache_op =
    FromCached string endpoint req_event int
  | ToCache "string option" "int option" "por option" endpoint string int
  | UpdateCache por "string option" "int option" endpoint

fun cache_step :: "key_evaluator \<Rightarrow> cache_op \<Rightarrow> cached_db \<Rightarrow> cached_db" where
  "cache_step ev (FromCached i en e now) db = fst (fromCached ev i en e now db)"
| "cache_step ev (ToCache k t r en ei now) db = fst (toCache k t r en ei now db)"
| "cache_step ev (UpdateCache r k t en) db = fst (updateCache r k t en db)"

definition ex_endpoint :: "bool \<Rightarrow> int option \<Rightarrow> endpoint" where
  "ex_endpoint async ttl =
     \<lparr>en_id = ''ep1'', en_name = ''GET /pets'', en_path = ''/pets'', en_method = ''GET'', en_callgentId = ''cg'',
      en_entryId = ''entry'', en_adaptorKey = ''restAPI'', en_isAsync = async, en_cacheKey = None, en_cacheTtl = ttl,
      en_securities = []\<rparr>"

definition ex_ctx :: req_ctx where
  "ex_ctx = \<lparr>cx_callgentId = ''cg'', cx_callgentName = ''c'', cx_callerId = None, cx_epName = None, cx_req = JNull,
     cx_resp = None, cx_map2 = None, cx_endpoints = [ex_endpoint True None], cx_invocations = [], cx_retries = 0,
     cx_security = None, cx_securityItem = None\<rparr>"

definition ex_request :: "string \<Rightarrow> req_event" where
  "ex_request eid = clientRequestEvent ''250109'' eid ''entry'' ''API'' None ''t'' (Some ''u'') (Some ''u'') ex_ctx None"

definition no_eval :: key_evaluator where
  "no_eval code en e = Inl ''no evaluator''"

definition empty_cache :: cached_db where
  "empty_cache = \<lparr>cd_rows = [], cd_nextPk = 1\<rparr>"

lemma cache_step_ok: "cached_ok db \<Longrightarrow> cached_ok (cache_step ev op db)"
  by (cases op) (auto intro: cached_ok_fromCached cached_ok_toCache cached_ok_updateCache)

interpretation cache_runs: started_run "cache_step ev" cached_ok "\<lparr>cd_rows = [], cd_nextPk = n\<rparr>" for ev n
  by unfold_locales (erule cache_step_ok, simp add: cached_ok_def)

lemma cache_runs_keep_unique: "cached_ok (fold (cache_step ev) ops \<lparr>cd_rows = [], cd_nextPk = n\<rparr>)"
  by (rule cache_runs.reached)

section \<open>The cache as a map\<close>

text \<open>
  What the cache promises, without rows and primary keys: a map from endpoint and key to a slot
  with the response, its time and its observers. An operation answers as \<open>fromCached\<close>, \<open>toCache\<close>
  or \<open>updateCache\<close> does.
\<close>

record slot =
  sl_response :: por
  sl_createdAt :: int
  sl_observers :: "string list"

type_synonym slot_map = "string \<times> string \<Rightarrow> slot option"

datatype cache_answer =
    Read "cached_hit result"
  | Stored "bool result"
  | Updated bool "(string \<times> json option) list"

definition slot_of :: "cached_row \<Rightarrow> slot" where
  "slot_of c = \<lparr>sl_response = c_response c, sl_createdAt = c_createdAt c, sl_observers = c_invokeKeys c\<rparr>"

definition slots :: "cached_db \<Rightarrow> slot_map" where
  "slots db = (\<lambda>(s, k). map_option slot_of (findCached db k s))"

fun cache_exec :: "key_evaluator \<Rightarrow> cache_op \<Rightarrow> cached_db \<Rightarrow> cached_db \<times> cache_answer" where
  "cache_exec ev (FromCached i en e now) db = map_prod (\<lambda>d. d) Read (fromCached ev i en e now db)"
| "cache_exec ev (ToCache k t r en ei now) db = map_prod (\<lambda>d. d) Stored (toCache k t r en ei now db)"
| "cache_exec ev (UpdateCache r k t en) db = (case updateCache r k t en db of (d, b, calls) \<Rightarrow> (d, Updated b calls))"

definition slot_pending :: "slot \<Rightarrow> bool" where
  "slot_pending sl \<longleftrightarrow> p_status (sl_response sl) = Some 2"

definition slot_expired :: "int option \<Rightarrow> endpoint \<Rightarrow> int \<Rightarrow> slot \<Rightarrow> bool" where
  "slot_expired ttl en now sl =
     (if ttl = None \<or> ttl = Some 0 then \<not> (en_isAsync en \<and> slot_pending sl) else sl_createdAt sl + the ttl * 1000 < now)"

fun slot_exec :: "key_evaluator \<Rightarrow> cache_op \<Rightarrow> slot_map \<Rightarrow> slot_map \<times> cache_answer" where
  "slot_exec ev (FromCached i en e now) m =
     (case loadCacheConfig ev en e of
        Inl err \<Rightarrow> (m, Read (Inl err))
      | Inr None \<Rightarrow> (m, Read (Inr \<lparr>h_cacheKey = None, h_cacheTtl = None, h_response = None\<rparr>))
      | Inr (Some (k, ttl)) \<Rightarrow>
          (let miss = \<lparr>h_cacheKey = Some k, h_cacheTtl = ttl, h_response = None\<rparr>
           in case m (en_id en, k) of
                None \<Rightarrow> (m, Read (Inr miss))
              | Some sl \<Rightarrow>
                  if \<not> reallyCache (Some k) ttl en then (m, Read (Inr miss))
                  else if slot_expired ttl en now sl then (m((en_id en, k) := None), Read (Inr miss))
                  else (if en_isAsync en \<and> slot_pending sl
                        then m((en_id en, k) \<mapsto> sl\<lparr>sl_observers := sl_observers sl @ [composeInvokeKey i (ev_id e)]\<rparr>) else m,
                        Read (Inr (miss\<lparr>h_response := Some (sl_response sl)\<rparr>)))))"
| "slot_exec ev (ToCache k t r en ei now) m =
     (if \<not> reallyCache k t en then (m, Stored (Inr False))
      else case r of
          None \<Rightarrow> (m, Stored (Inl (PlainError ''Argument `response` is missing.'')))
        | Some r \<Rightarrow>
            if m (en_id en, the k) = None
            then (m((en_id en, the k) \<mapsto> \<lparr>sl_response = as_json r, sl_createdAt = now, sl_observers = []\<rparr>), Stored (Inr True))
            else (m, Stored (Inl (PlainError ''Unique constraint failed on the fields: (`sepId`,`cacheKey`)''))))"
| "slot_exec ev (UpdateCache r k t en) m =
     (if \<not> reallyCache k t en then (m, Updated False [])
      else case m (en_id en, the k) of
          None \<Rightarrow> (m, Updated False [])
        | Some sl \<Rightarrow> (m((en_id en, the k) \<mapsto> sl\<lparr>sl_response := as_json r\<rparr>), Updated True (notifyObservers (sl_observers sl) r)))"

text \<open>A sequence of operations with their answers.\<close>

fun run_ops :: "('o \<Rightarrow> 's \<Rightarrow> 's \<times> 'a) \<Rightarrow> 'o list \<Rightarrow> 's \<Rightarrow> 's \<times> 'a list" where
  "run_ops f [] s = (s, [])"
| "run_ops f (x # xs) s = (case f x s of (s1, a) \<Rightarrow> (case run_ops f xs s1 of (s2, as) \<Rightarrow> (s2, a # as)))"

lemma find_on_row:
  assumes "distinct (map row_key cs)" and "distinct (map c_pk cs)" and "c \<in> set cs" and "\<And>d. row_key (f d) = row_key d"
  shows "find (\<lambda>c. row_key c = y) (map (\<lambda>d. if c_pk d = c_pk c then f d else d) cs) =
    (if y = row_key c then Some (f c) else find (\<lambda>c. row_key c = y) cs)"
  using assms(1-3)
proof (induction cs)
  case Nil
  then show ?case by simp
next
  case (Cons a cs)
  show ?case
  proof (cases "c = a")
    case True
    have other: "\<forall>d\<in>set cs. c_pk d \<noteq> c_pk c" using True Cons.prems(2) by (metis distinct.simps(2) image_eqI list.simps(9) set_map)
    then have "map (\<lambda>d. if c_pk d = c_pk c then f d else d) cs = cs" by (intro map_idI) auto
    then show ?thesis using True assms(4) by auto
  next
    case False
    then have "c \<in> set cs" "c_pk a \<noteq> c_pk c" "row_key a \<noteq> row_key c" using Cons.prems by force+
    then show ?thesis using Cons by auto
  qed
qed

lemma findCached_key: "findCached db k s = find (\<lambda>c. row_key c = (s, k)) (cd_rows db)"
  by (simp add: findCached_def row_key_def)

lemma slots_on_row:
  assumes "cached_ok db" and "findCached db k s = Some c" and "\<And>d. row_key (f d) = row_key d"
  shows "slots (on_row (c_pk c) f db) = (slots db)((s, k) \<mapsto> slot_of (f c))"
proof -
  have c: "c \<in> set (cd_rows db)" "row_key c = (s, k)" using findCached_Some [OF assms(2)] by (auto simp: row_key_def)
  show ?thesis
    using assms(1) c find_on_row [of "cd_rows db" c f, OF _ _ c(1) assms(3)]
    by (auto simp: fun_eq_iff slots_def findCached_key on_row_def cached_ok_def)
qed

lemma slots_delete:
  assumes "cached_ok db" and "findCached db k s = Some c"
  shows "slots (deleteCached (c_pk c) db) = (slots db)((s, k) := None)"
proof -
  have c: "c \<in> set (cd_rows db)" "row_key c = (s, k)" using findCached_Some [OF assms(2)] by (auto simp: row_key_def)
  have same: "d = c" if "d \<in> set (cd_rows db)" "c_pk d = c_pk c \<or> row_key d = row_key c" for d
    using that c(1) assms(1) by (auto simp: cached_ok_def distinct_map inj_on_def)
  have gone: "find (\<lambda>d. row_key d = y) (filter (\<lambda>d. c_pk d \<noteq> c_pk c) cs) =
      (if y = row_key c then None else find (\<lambda>d. row_key d = y) cs)" if "set cs \<subseteq> set (cd_rows db)" for y cs
    using that by (induction cs) (auto dest: same)
  show ?thesis using gone [OF subset_refl] c(2) by (auto simp: fun_eq_iff slots_def findCached_key deleteCached_def)
qed

lemma slots_create:
  assumes "createCached s k r src now db = Inr db'"
  shows "slots db' = (slots db)((s, k) \<mapsto> \<lparr>sl_response = as_json r, sl_createdAt = now, sl_observers = []\<rparr>)"
proof -
  have "findCached db k s = None" using assms by (simp add: createCached_def split: if_splits)
  then show ?thesis
    using assms by (auto simp: fun_eq_iff slots_def findCached_key createCached_def find_app slot_of_def row_key_def
        split: option.splits)
qed

lemma slot_expired_of: "slot_expired ttl en now (slot_of c) = is_expired ttl en now c"
  by (auto simp: slot_expired_def is_expired_def slot_of_def slot_pending_def split: option.splits)

lemma slots_lookup: "slots db (s, k) = map_option slot_of (findCached db k s)"
  by (simp add: slots_def)

lemma cache_exec_refines:
  assumes "cached_ok db"
  shows "slot_exec ev op (slots db) = map_prod slots (\<lambda>a. a) (cache_exec ev op db)"
proof (cases op)
  case (FromCached i en e now)
  have obs: "slots (addObserver (c_pk c) key db) = (slots db)((en_id en, k) \<mapsto> (slot_of c)\<lparr>sl_observers := c_invokeKeys c @ [key]\<rparr>)"
    if "findCached db k (en_id en) = Some c" for k c key
    using slots_on_row [OF assms that, of "\<lambda>c. c\<lparr>c_invokeKeys := c_invokeKeys c @ [key]\<rparr>"]
    by (simp add: addObserver_def row_key_def slot_of_def)
  show ?thesis
  proof (cases "loadCacheConfig ev en e")
    case (Inl err)
    then show ?thesis using FromCached by (simp add: fromCached_def)
  next
    case cfg: (Inr c)
    show ?thesis
    proof (cases c)
      case None
      then show ?thesis using FromCached cfg by (simp add: fromCached_def reallyCache_def Let_def)
    next
      case (Some kt)
      obtain k ttl where kt: "kt = (k, ttl)" by (cases kt)
      show ?thesis
      proof (cases "findCached db k (en_id en)")
        case None
        then show ?thesis using FromCached cfg Some kt by (simp add: fromCached_def slots_lookup Let_def)
      next
        case found: (Some row)
        have "slot_pending (slot_of row) \<longleftrightarrow> p_status (c_response row) = Some 2"
            "sl_response (slot_of row) = c_response row" "sl_observers (slot_of row) = c_invokeKeys row"
          by (simp_all add: slot_pending_def slot_of_def)
        then show ?thesis
          using FromCached cfg Some kt found
          by (simp add: fromCached_def slots_lookup Let_def slot_expired_of obs [OF found] slots_delete [OF assms found])
      qed
    qed
  qed
next
  case (ToCache k t r en ei now)
  show ?thesis
  proof (cases "reallyCache k t en \<and> r \<noteq> None")
    case False
    then show ?thesis using ToCache by (auto simp: toCache_def)
  next
    case True
    then obtain r' where r: "r = Some r'" by auto
    show ?thesis
    proof (cases "findCached db (the k) (en_id en)")
      case None
      then obtain db' where cr: "createCached (en_id en) (the k) r' ei now db = Inr db'" by (simp add: createCached_def)
      show ?thesis using True r ToCache None cr slots_create [OF cr] by (simp add: toCache_def slots_lookup)
    next
      case (Some row)
      then show ?thesis using True r ToCache by (simp add: toCache_def slots_lookup createCached_def)
    qed
  qed
next
  case (UpdateCache r k t en)
  have "slots (updateResponse (c_pk c) r db) = (slots db)((en_id en, the k) \<mapsto> (slot_of c)\<lparr>sl_response := as_json r\<rparr>)"
    if "findCached db (the k) (en_id en) = Some c" for c
    using slots_on_row [OF assms that, of "\<lambda>c. c\<lparr>c_response := as_json r\<rparr>"]
    by (simp add: updateResponse_def row_key_def slot_of_def)
  moreover have "sl_observers (slot_of c) = c_invokeKeys c" for c by (simp add: slot_of_def)
  ultimately show ?thesis
    using UpdateCache by (auto simp: updateCache_def slots_lookup split: option.splits)
qed

lemma cache_exec_step: "fst (cache_exec ev op db) = cache_step ev op db"
  by (cases op) (simp_all split: prod.splits)

lemma run_ops_refine:
  "cached_ok db \<Longrightarrow> map_prod slots (\<lambda>a. a) (run_ops (cache_exec ev) ops db) = run_ops (slot_exec ev) ops (slots db)"
proof (induction ops arbitrary: db)
  case Nil
  then show ?case by simp
next
  case (Cons op ops)
  obtain d a where x: "cache_exec ev op db = (d, a)" by fastforce
  have "cached_ok d" using cache_step_ok [OF Cons.prems, of ev op] by (simp add: cache_exec_step [symmetric] x)
  from Cons.IH [OF this, symmetric] show ?case
    by (cases "run_ops (cache_exec ev) ops d") (simp add: cache_exec_refines [OF Cons.prems] x split: prod.splits)
qed

section \<open>Properties\<close>

text \<open>C10. The cache is a map from endpoint and key to what was stored there. Whatever sequence of
  reads, writes and updates it goes through, the table with its primary keys and row updates
  answers as the map does, and holds what the map holds: a read sees and drops, and an update
  replaces, the response of its own endpoint and key and no other, and a write fills a free one.\<close>

theorem cache_refines_map:
  "map_prod slots (\<lambda>answers. answers) (run_ops (cache_exec ev) ops \<lparr>cd_rows = [], cd_nextPk = n\<rparr>) =
   run_ops (slot_exec ev) ops Map.empty"
proof -
  have "slots \<lparr>cd_rows = [], cd_nextPk = n\<rparr> = Map.empty" by (auto simp: fun_eq_iff slots_def findCached_def)
  then show ?thesis using run_ops_refine [of "\<lparr>cd_rows = [], cd_nextPk = n\<rparr>"] by (simp add: cached_ok_def)
qed

text \<open>C11. A response that was stored is served to every later request of the same endpoint and key
  until its time to live is over, by any event; the first request after that misses and removes it.\<close>

theorem cache_hit_until_expiry:
  assumes "loadCacheConfig ev en e = Inr (Some (k, Some ttl))" and "0 < ttl" and "k \<noteq> []"
    and "toCache (Some k) (Some ttl) (Some r) en src t0 db = (db', Inr True)" and "p_status r \<noteq> Some 2"
  shows "(t \<le> t0 + ttl * 1000 \<longrightarrow>
       fromCached ev i en e t db' = (db', Inr \<lparr>h_cacheKey = Some k, h_cacheTtl = Some ttl, h_response = Some (as_json r)\<rparr>)) \<and>
    (t0 + ttl * 1000 < t \<longrightarrow>
       (\<exists>db''. fromCached ev i en e t db' = (db'', Inr \<lparr>h_cacheKey = Some k, h_cacheTtl = Some ttl, h_response = None\<rparr>) \<and>
          c_pk ` set (cd_rows db'') = c_pk ` set (cd_rows db') - {cd_nextPk db}))"
proof -
  have rc: "reallyCache (Some k) (Some ttl) en" using assms(2,3) by (simp add: reallyCache_def)
  then have "createCached (en_id en) k r src t0 db = Inr db'"
    using assms(4) by (auto simp: toCache_def split: sum.splits)
  from findCached_create [OF this] have f: "findCached db' k (en_id en) = Some \<lparr>c_pk = cd_nextPk db,
    c_sepId = en_id en, c_cacheKey = k, c_response = as_json r, c_sourceId = src, c_invokeKeys = [], c_createdAt = t0\<rparr>" .
  have np: "p_status (as_json r) \<noteq> Some 2" using assms(5) by (simp add: as_json_def)
  show ?thesis
    using assms(1,2) rc f np by (auto simp: fromCached_def is_expired_def Let_def deleteCached_def)
qed

theorem cache_hit_until_expiry_witness:
  "fromCached no_eval [] (ex_endpoint False (Some 60)) (ex_request ''e2'') 50000
     (fst (toCache (Some ''GET /pets'') (Some 60) (Some (data_response (Some (JNum 1)))) (ex_endpoint False (Some 60)) ''e1'' 1000 empty_cache)) =
   (fst (toCache (Some ''GET /pets'') (Some 60) (Some (data_response (Some (JNum 1)))) (ex_endpoint False (Some 60)) ''e1'' 1000 empty_cache),
    Inr \<lparr>h_cacheKey = Some ''GET /pets'', h_cacheTtl = Some 60, h_response = Some (as_json (data_response (Some (JNum 1))))\<rparr>)"
proof -
  let ?en = "ex_endpoint False (Some 60)" and ?r = "data_response (Some (JNum 1))"
  have cfg: "loadCacheConfig no_eval ?en (ex_request ''e2'') = Inr (Some (''GET /pets'', Some 60))"
    by (simp add: loadCacheConfig_def getCacheKey_def ex_endpoint_def Let_def)
  have st: "toCache (Some ''GET /pets'') (Some 60) (Some ?r) ?en ''e1'' 1000 empty_cache =
      (fst (toCache (Some ''GET /pets'') (Some 60) (Some ?r) ?en ''e1'' 1000 empty_cache), Inr True)"
    by (simp add: toCache_def reallyCache_def createCached_def findCached_def empty_cache_def)
  show ?thesis
    using cache_hit_until_expiry [OF cfg _ _ st, THEN conjunct1, of 50000 "[]"] by simp
qed

text \<open>Two requests for the same uncached key that overlap both miss and both invoke the endpoint;
  the store of the second is then refused by the unique index, so its invocation fails although
  the endpoint answered.\<close>

theorem overlapping_misses_fail:
  assumes "reallyCache k ttl en" and "toCache k ttl (Some r1) en e1 t1 db = (db1, Inr True)"
  shows "toCache k ttl (Some r2) en e2 t2 db1 = (db1, Inl (PlainError ''Unique constraint failed on the fields: (`sepId`,`cacheKey`)''))"
proof -
  have "createCached (en_id en) (the k) r1 e1 t1 db = Inr db1"
    using assms by (auto simp: toCache_def split: sum.splits)
  from findCached_create [OF this] show ?thesis using assms(1) by (simp add: toCache_def createCached_def)
qed

theorem overlapping_misses_fail_witness:
  "snd (toCache (Some ''k'') (Some 60) (Some (data_response None)) (ex_endpoint False (Some 60)) ''e2'' 2
     (fst (toCache (Some ''k'') (Some 60) (Some (data_response None)) (ex_endpoint False (Some 60)) ''e1'' 1 empty_cache))) =
   Inl (PlainError ''Unique constraint failed on the fields: (`sepId`,`cacheKey`)'')"
proof -
  let ?en = "ex_endpoint False (Some 60)" and ?r = "data_response None"
  have rc: "reallyCache (Some ''k'') (Some 60) ?en" by (simp add: reallyCache_def)
  have st: "toCache (Some ''k'') (Some 60) (Some ?r) ?en ''e1'' 1 empty_cache =
      (fst (toCache (Some ''k'') (Some 60) (Some ?r) ?en ''e1'' 1 empty_cache), Inr True)"
    using rc by (simp add: toCache_def createCached_def findCached_def empty_cache_def)
  show ?thesis by (simp add: overlapping_misses_fail [OF rc st])
qed

text \<open>The observers of a pending response: an event that reads the pending response of an
  asynchronous endpoint is registered, and the update that brings the response starts a resume
  for it with the response's data, provided that the invocation keys are distinct.\<close>

theorem observer_is_notified:
  assumes "loadCacheConfig ev en e = Inr (Some (k, ttl))" and "k \<noteq> []" and "en_isAsync en"
    and "findCached db k (en_id en) = Some c" and "p_status (c_response c) = Some 2"
    and "fromCached ev i en e now db = (db', Inr h)" and "h_response h \<noteq> None"
    and "distinct (c_invokeKeys c @ [composeInvokeKey i (ev_id e)])"
  shows "snd (snd (updateCache r (Some k) ttl en db')) =
    map (\<lambda>key. (key, por_data r)) (c_invokeKeys c @ [composeInvokeKey i (ev_id e)])"
proof -
  let ?f = "\<lambda>c. c\<lparr>c_invokeKeys := c_invokeKeys c @ [composeInvokeKey i (ev_id e)]\<rparr>"
  let ?keys = "c_invokeKeys c @ [composeInvokeKey i (ev_id e)]"
  have rc: "reallyCache (Some k) ttl en" using assms(2,3) by (simp add: reallyCache_def)
  have "db' = on_row (c_pk c) ?f db"
    using assms rc by (auto simp: fromCached_def addObserver_def Let_def split: if_splits)
  then have "findCached db' k (en_id en) = Some (?f c)"
    using findCached_on_row [OF assms(4), of ?f] by (simp add: row_key_def)
  moreover have "concat (group_keys ?keys 3) = ?keys"
  proof -
    have "length ?keys \<le> 3 * ceil_div (length ?keys) 3" by (simp add: ceil_div_def)
    moreover have "remdups ?keys = ?keys" by (rule distinct_remdups_id [OF assms(8)])
    ultimately show ?thesis
      using slices_concat [of 3 ?keys "ceil_div (length ?keys) 3"] by (simp only: group_keys_def Let_def take_all)
  qed
  ultimately show ?thesis using rc by (simp add: updateCache_def notifyObservers_def)
qed

theorem observer_is_notified_witness:
  "snd (snd (updateCache (data_response (Some (JStr ''ok''))) (Some ''GET /pets'') None (ex_endpoint True None)
     (fst (fromCached no_eval ''7'' (ex_endpoint True None) (ex_request ''e2'') 5
        (fst (toCache (Some ''GET /pets'') None (Some (pending_response None)) (ex_endpoint True None) ''e1'' 1 empty_cache)))))) =
   [(''7-e2'', Some (JStr ''ok''))]"
proof -
  let ?en = "ex_endpoint True None"
  let ?db = "fst (toCache (Some ''GET /pets'') None (Some (pending_response None)) ?en ''e1'' 1 empty_cache)"
  let ?c = "\<lparr>c_pk = 1, c_sepId = ''ep1'', c_cacheKey = ''GET /pets'', c_response = as_json (pending_response None),
      c_sourceId = ''e1'', c_invokeKeys = [], c_createdAt = 1\<rparr>"
  have cfg: "loadCacheConfig no_eval ?en (ex_request ''e2'') = Inr (Some (''GET /pets'', None))"
    by (simp add: loadCacheConfig_def getCacheKey_def ex_endpoint_def Let_def)
  have f: "findCached ?db ''GET /pets'' (en_id ?en) = Some ?c"
    by (simp add: toCache_def reallyCache_def createCached_def findCached_def empty_cache_def ex_endpoint_def)
  have pend: "p_status (c_response ?c) = Some 2" by (simp add: as_json_def)
  have async: "en_isAsync ?en" by (simp add: ex_endpoint_def)
  obtain db' h where r: "fromCached no_eval ''7'' ?en (ex_request ''e2'') 5 ?db = (db', Inr h)" and h: "h_response h \<noteq> None"
    using cfg f pend async by (auto simp: fromCached_def reallyCache_def is_expired_def Let_def simp del: toCache_def)
  have "snd (snd (updateCache (data_response (Some (JStr ''ok''))) (Some ''GET /pets'') None ?en db')) =
    map (\<lambda>key. (key, por_data (data_response (Some (JStr ''ok''))))) (c_invokeKeys ?c @ [composeInvokeKey ''7'' (ev_id (ex_request ''e2''))])"
    by (rule observer_is_notified [OF cfg _ async f pend r h]) simp_all
  moreover have "ev_id (ex_request ''e2'') = ''e2''" by (simp add: ex_request_def clientRequestEvent_def newEvent_def)
  ultimately show ?thesis by (simp add: r composeInvokeKey_def)
qed

text \<open>The groups of observers are as many as the distinct keys need, but are cut from the list
  with its duplicates: exactly the first \<open>3 * \<lceil>distinct / 3\<rceil>\<close> entries are notified, so a
  repeated key can push later observers off the end.\<close>

theorem notified_observers_exact:
  "notifyObservers keys r = map (\<lambda>k. (k, por_data r)) (take (3 * ceil_div (length (remdups keys)) 3) keys) \<and>
   notifyObservers [''-e1'', ''-e1'', ''-e1'', ''-e2''] r = replicate 3 (''-e1'', por_data r)"
proof -
  have gen: "notifyObservers keys r = map (\<lambda>k. (k, por_data r)) (take (3 * ceil_div (length (remdups keys)) 3) keys)" for keys
    by (simp add: notifyObservers_def group_keys_def Let_def slices_concat)
  have "length (remdups [''-e1'', ''-e1'', ''-e1'', ''-e2'']) = 2" by simp
  moreover have "ceil_div 2 3 = 1" by (simp add: ceil_div_def)
  ultimately have "notifyObservers [''-e1'', ''-e1'', ''-e1'', ''-e2''] r = replicate 3 (''-e1'', por_data r)"
    unfolding gen by (simp add: eval_nat_numeral)
  with gen show ?thesis by blast
qed

end
