(* ===== verification/SepChain.thy ===== *)
theory SepChain
  imports CachedStore
begin

text \<open>
  \<open>src/invoke/invoke-sep.service.ts\<close> and \<open>src/invoke/chain\<close>: the chain of processors that an
  invocation of a service endpoint passes, in the order of \<open>src/invoke/invoke.module.ts\<close>. The
  invocation stores the processor it is at, so that a later call goes on from there.
\<close>

section \<open>What the processors use\<close>

record 'w sep_world =
  sw_cache :: cached_db
  sw_now :: int
  sw_out :: 'w

text \<open>The adaptor of a server entry: third-party systems behind it. \<open>invoke\<close> may change the world,
  the event and the invocation.\<close>

record 'w sep_adaptor =
  ad_invoke :: "endpoint \<Rightarrow> json option \<Rightarrow> json option \<Rightarrow> 'w sep_world \<Rightarrow> req_event \<Rightarrow> invoke_status \<Rightarrow>
    'w sep_world \<times> req_event \<times> invoke_status \<times> por option result"
  ad_postprocess :: "json option \<Rightarrow> endpoint \<Rightarrow> 'w sep_world \<Rightarrow> req_event \<Rightarrow> invoke_status \<Rightarrow>
    'w sep_world \<times> req_event \<times> json option result"

text \<open>
  The injected services: the methods of the realm service by name (the result is
  \<open>resumeFunName\<close>), the adaptor registry of the entries service and its \<open>findOne\<close>, and the
  evaluator of cache-key functions.
\<close>

record 'w sep_env =
  realm_fun :: "string \<Rightarrow> (endpoint \<Rightarrow> 'w sep_world \<Rightarrow> req_event \<Rightarrow> 'w sep_world \<times> req_event \<times> string option result) option"
  get_adaptor :: "string \<Rightarrow> 'w sep_adaptor option"
  find_entry :: "string \<Rightarrow> json option"
  eval_key :: key_evaluator

type_synonym 'w sep_step = "'w sep_world \<times> req_event \<times> invoke_status \<times> por option result"

section \<open>The processors\<close>

datatype sep_processor =
  SepAuth | SepCached | SepInvoke | SepPostprocess | SepCache | SepCallbackPostprocess | SepCallback

fun getName :: "sep_processor \<Rightarrow> string" where
  "getName SepAuth = ''InvokeAuth''"
| "getName SepCached = ''InvokeCached''"
| "getName SepInvoke = ''InvokeSep''"
| "getName SepPostprocess = ''InvokePostprocess''"
| "getName SepCache = ''InvokeCache''"
| "getName SepCallbackPostprocess = ''CallbackPostprocess''"
| "getName SepCallback = ''InvokeCallback''"

text \<open>The list \<open>INVOKE_CHAIN_LIST\<close>.\<close>

definition invoke_chain :: "sep_processor list" where
  "invoke_chain = [SepAuth, SepCached, SepInvoke, SepPostprocess, SepCache, SepCallbackPostprocess, SepCallback]"

definition upd_proc :: "(processor_state \<Rightarrow> processor_state) \<Rightarrow> invoke_status \<Rightarrow> invoke_status" where
  "upd_proc f s = s\<lparr>is_processor := map_option f (is_processor s)\<rparr>"

text \<open>\<open>break\<close> and \<open>end\<close> of the base class.\<close>

definition sep_break :: "bool \<Rightarrow> invoke_status \<Rightarrow> invoke_status" where
  "sep_break current = upd_proc (\<lambda>p. p\<lparr>p_break := Some current\<rparr>)"

definition sep_end :: "invoke_status \<Rightarrow> invoke_status" where
  "sep_end = upd_proc (\<lambda>p. p\<lparr>p_name := None\<rparr>)"

definition proc_ctx :: "invoke_status \<Rightarrow> string option" where
  "proc_ctx s = (case is_processor s of None \<Rightarrow> None | Some p \<Rightarrow> p_ctx p)"

definition undefined_property :: js_error where
  "undefined_property = TypeError ''Cannot read properties of undefined''"

definition process_auth :: "'w sep_env \<Rightarrow> endpoint \<Rightarrow> 'w sep_world \<Rightarrow> req_event \<Rightarrow> invoke_status \<Rightarrow> 'w sep_step" where
  "process_auth env en w e st =
     (case realm_fun env (str_or (proc_ctx st) ''checkSepAuth'') of
        None \<Rightarrow> (w, e, st, Inl undefined_property)
      | Some fn \<Rightarrow>
          (case fn en w e of
             (w1, e1, Inl err) \<Rightarrow> (w1, e1, st, Inl err)
           | (w1, e1, Inr resumeFun) \<Rightarrow>
               if nonempty_str resumeFun
               then (w1, e1, sep_break True (upd_proc (\<lambda>p. p\<lparr>p_ctx := resumeFun\<rparr>) st), Inr (Some (pending_response None)))
               else (w1, e1, st, Inr None)))"

definition process_cached :: "'w sep_env \<Rightarrow> endpoint \<Rightarrow> 'w sep_world \<Rightarrow> req_event \<Rightarrow> invoke_status \<Rightarrow> 'w sep_step" where
  "process_cached env en w e st =
     (case fromCached (eval_key env) (is_invokeId st) en e (sw_now w) (sw_cache w) of
        (db, Inl err) \<Rightarrow> (w\<lparr>sw_cache := db\<rparr>, e, st, Inl err)
      | (db, Inr h) \<Rightarrow>
          (let st1 = (if nonempty_str (h_cacheKey h)
                      then st\<lparr>is_cacheKey := h_cacheKey h, is_cacheTtl := h_cacheTtl h\<rparr> else st);
               st2 = (if h_response h \<noteq> None then sep_end st1 else st1)
           in (w\<lparr>sw_cache := db\<rparr>, e, st2, Inr (h_response h))))"

definition process_invoke :: "'w sep_env \<Rightarrow> endpoint \<Rightarrow> 'w sep_world \<Rightarrow> req_event \<Rightarrow> invoke_status \<Rightarrow> 'w sep_step" where
  "process_invoke env en w e st =
     (case get_adaptor env (en_adaptorKey en) of
        None \<Rightarrow> (w, e, st, Inl undefined_property)
      | Some ad \<Rightarrow> ad_invoke ad en (is_args st) (find_entry env (en_entryId en)) w e st)"

definition process_postprocess :: "'w sep_env \<Rightarrow> endpoint \<Rightarrow> por option \<Rightarrow> 'w sep_world \<Rightarrow> req_event \<Rightarrow> invoke_status \<Rightarrow> 'w sep_step" where
  "process_postprocess env en preData w e st =
     (case preData of
        None \<Rightarrow> (w, e, st, Inl undefined_property)
      | Some pre \<Rightarrow>
          if p_status pre = Some 2 then (w, e, st, Inr preData)
          else
            (case get_adaptor env (en_adaptorKey en) of
               None \<Rightarrow> (w, e, st, Inl undefined_property)
             | Some ad \<Rightarrow>
                 (case ad_postprocess ad (por_data pre) en w e st of
                    (w1, e1, Inl err) \<Rightarrow> (w1, e1, st, Inl err)
                  | (w1, e1, Inr d) \<Rightarrow> (w1, e1, st, Inr (Some (data_response d))))))"

definition process_cache :: "endpoint \<Rightarrow> por option \<Rightarrow> 'w sep_world \<Rightarrow> req_event \<Rightarrow> invoke_status \<Rightarrow> 'w sep_step" where
  "process_cache en preData w e st =
     (let st1 = (if is_pending preData then sep_break False st else sep_end st)
      in case toCache (is_cacheKey st1) (is_cacheTtl st1) preData en (ev_id e) (sw_now w) (sw_cache w) of
           (db, Inl err) \<Rightarrow> (w\<lparr>sw_cache := db\<rparr>, e, st1, Inl err)
         | (db, Inr _) \<Rightarrow> (w\<lparr>sw_cache := db\<rparr>, e, st1, Inr preData))"

text \<open>The resumes that \<open>updateCache\<close> starts run in the background: they are queued in the world.\<close>

definition process_callback :: "((string \<times> json option) list \<Rightarrow> 'w \<Rightarrow> 'w) \<Rightarrow> endpoint \<Rightarrow> por option \<Rightarrow> 'w sep_world \<Rightarrow> req_event \<Rightarrow> invoke_status \<Rightarrow> 'w sep_step" where
  "process_callback queue en preData w e st =
     (case preData of
        None \<Rightarrow> (w, e, st, Inr None)
      | Some pre \<Rightarrow>
          (case updateCache pre (is_cacheKey st) (is_cacheTtl st) en (sw_cache w) of
             (db, _, calls) \<Rightarrow> (w\<lparr>sw_cache := db, sw_out := queue calls (sw_out w)\<rparr>, e, st, Inr preData)))"

fun process_of :: "'w sep_env \<Rightarrow> ((string \<times> json option) list \<Rightarrow> 'w \<Rightarrow> 'w) \<Rightarrow> sep_processor \<Rightarrow> endpoint \<Rightarrow>
    por option \<Rightarrow> 'w sep_world \<Rightarrow> req_event \<Rightarrow> invoke_status \<Rightarrow> 'w sep_step" where
  "process_of env q SepAuth en pre = process_auth env en"
| "process_of env q SepCached en pre = process_cached env en"
| "process_of env q SepInvoke en pre = process_invoke env en"
| "process_of env q SepPostprocess en pre = process_postprocess env en pre"
| "process_of env q SepCache en pre = process_cache en pre"
| "process_of env q SepCallbackPostprocess en pre = process_postprocess env en pre"
| "process_of env q SepCallback en pre = process_callback q en pre"

text \<open>
  \<open>SepProcessor.process\<close>: after the processor, the name moves on to the next one unless it was to
  break at the current one or the chain was ended; the flag says whether the chain stops.
\<close>

definition advance :: "string option \<Rightarrow> invoke_status \<Rightarrow> invoke_status \<times> bool" where
  "advance nextName st =
     (case is_processor st of
        None \<Rightarrow> (st, True)
      | Some p \<Rightarrow>
          (let name = (if p_break p \<noteq> Some True \<and> nonempty_str (p_name p) then nextName else p_name p)
           in (st\<lparr>is_processor := Some (p\<lparr>p_name := name, p_break := None\<rparr>)\<rparr>,
               \<not> nonempty_str name \<or> p_break p \<noteq> None)))"

definition enter_proc :: "sep_processor \<Rightarrow> invoke_status \<Rightarrow> invoke_status" where
  "enter_proc p st =
     (if is_processor st = None
      then st\<lparr>is_processor := Some \<lparr>p_name = Some (getName p), p_ctx = None, p_break = None\<rparr>\<rparr> else st)"

definition is_at :: "sep_processor \<Rightarrow> invoke_status \<Rightarrow> bool" where
  "is_at p st \<longleftrightarrow> map_option p_name (is_processor st) = Some (Some (getName p))"

fun run_chain :: "'w sep_env \<Rightarrow> ((string \<times> json option) list \<Rightarrow> 'w \<Rightarrow> 'w) \<Rightarrow> endpoint \<Rightarrow> sep_processor list \<Rightarrow>
    por option \<Rightarrow> 'w sep_world \<Rightarrow> req_event \<Rightarrow> invoke_status \<Rightarrow> 'w sep_step" where
  "run_chain env q en [] pre w e st = (w, e, st, Inr None)"
| "run_chain env q en (p # ps) pre w e st =
     (let st0 = enter_proc p st
      in if \<not> is_at p st0 then run_chain env q en ps pre w e st0
         else
           (case process_of env q p en pre w e st0 of
              (w1, e1, st1, Inl err) \<Rightarrow> (w1, e1, st1, Inl err)
            | (w1, e1, st1, Inr data) \<Rightarrow>
                (case advance (case ps of [] \<Rightarrow> None | p' # _ \<Rightarrow> Some (getName p')) st1 of
                   (st2, stop) \<Rightarrow>
                     if stop then (w1, e1, st2, Inr data) else run_chain env q en ps data w1 e1 st2)))"

text \<open>\<open>InvokeSepService.chain\<close>.\<close>

definition chain :: "'w sep_env \<Rightarrow> ((string \<times> json option) list \<Rightarrow> 'w \<Rightarrow> 'w) \<Rightarrow> 'w sep_world \<Rightarrow> req_event \<Rightarrow> invoke_status \<Rightarrow> 'w sep_step" where
  "chain env q w e st =
     (case ctx_of e of
        Inl err \<Rightarrow> (w, e, st, Inl err)
      | Inr c \<Rightarrow>
          (case find (\<lambda>en. Some (en_name en) = is_epName st) (cx_endpoints c) of
             None \<Rightarrow> (w, e, st, Inl (PlainError (''Endpoint not Found: '' @ str_or (is_epName st) ''undefined'' @
                 '', event.id='' @ ev_id e)))
           | Some en \<Rightarrow>
               if (case is_processor st of None \<Rightarrow> True | Some p \<Rightarrow> nonempty_str (p_name p))
               then run_chain env q en invoke_chain (Some (data_response (is_response st))) w e st
               else (w, e, st, Inr (Some (data_response (is_response st))))))"

section \<open>Facts\<close>

definition at_processor :: "string option \<Rightarrow> string option \<Rightarrow> invoke_status \<Rightarrow> bool" where
  "at_processor n c st \<longleftrightarrow> is_processor st = Some \<lparr>p_name = n, p_ctx = c, p_break = None\<rparr>"

lemma status_updates [simp]:
  "is_processor (upd_proc f st) = map_option f (is_processor st)"
  "is_invokeId (upd_proc f st) = is_invokeId st" "is_epName (upd_proc f st) = is_epName st"
  "is_response (upd_proc f st) = is_response st" "is_args (upd_proc f st) = is_args st"
  "is_cacheKey (upd_proc f st) = is_cacheKey st" "is_cacheTtl (upd_proc f st) = is_cacheTtl st"
  by (simp_all add: upd_proc_def)

lemma find_by_name:
  "find P xs = Some x \<Longrightarrow> P x \<and> x \<in> set xs"
  by (auto simp: find_Some_iff)

text \<open>A chain entered at a processor skips those before it.\<close>

lemma run_chain_skip:
  assumes "is_processor st = Some p" and "p_name p \<noteq> Some (getName x)"
  shows "run_chain env q en (x # xs) pre w e st = run_chain env q en xs pre w e st"
  using assms by (simp add: enter_proc_def is_at_def)

lemma names_distinct: "getName p = getName p' \<longleftrightarrow> p = p'"
  by (cases p; cases p') simp_all

lemma run_chain_at:
  assumes "is_processor st = Some \<lparr>p_name = Some (getName p), p_ctx = c, p_break = None\<rparr>"
    and "p \<notin> set xs"
  shows "run_chain env q en (xs @ p # ps) pre w e st = run_chain env q en (p # ps) pre w e st"
  using assms(2)
proof (induction xs)
  case Nil
  then show ?case by simp
next
  case (Cons x xs)
  then have "p_name \<lparr>p_name = Some (getName p), p_ctx = c, p_break = None\<rparr> \<noteq> Some (getName x)"
    by (auto simp: names_distinct)
  then show ?case using Cons by (simp add: run_chain_skip [OF assms(1)] del: run_chain.simps)
qed

text \<open>What the services leave alone: an observation of the event that no service changes is not changed
  by the chain.\<close>

definition env_keeps :: "(req_event \<Rightarrow> 'x) \<Rightarrow> 'w sep_env \<Rightarrow> bool" where
  "env_keeps obs env \<longleftrightarrow>
     (\<forall>n fn en w e. realm_fun env n = Some fn \<longrightarrow> obs (fst (snd (fn en w e))) = obs e) \<and>
     (\<forall>k ad en a s w e st. get_adaptor env k = Some ad \<longrightarrow> obs (fst (snd (ad_invoke ad en a s w e st))) = obs e) \<and>
     (\<forall>k ad j en w e st. get_adaptor env k = Some ad \<longrightarrow> obs (fst (snd (ad_postprocess ad j en w e st))) = obs e)"

lemma process_keeps:
  assumes "env_keeps obs env" and "process_of env q p en pre w e st = (w1, e1, st1, r)"
  shows "obs e1 = obs e"
proof -
  have au: "realm_fun env n = Some fn \<Longrightarrow> fn en w e = (w1, e1, r) \<Longrightarrow> obs e1 = obs e" for n fn r w e w1 e1
    using assms(1) unfolding env_keeps_def by (metis fst_conv snd_conv)
  have ai: "get_adaptor env k = Some ad \<Longrightarrow> ad_invoke ad en a s w e st = (w1, e1, st1, r) \<Longrightarrow> obs e1 = obs e"
    for k ad a s st st1 r w e w1 e1
    using assms(1) unfolding env_keeps_def by (metis fst_conv snd_conv)
  have ap: "get_adaptor env k = Some ad \<Longrightarrow> ad_postprocess ad j en w e st = (w1, e1, r) \<Longrightarrow> obs e1 = obs e"
    for k ad j st r w e w1 e1
    using assms(1) unfolding env_keeps_def by (metis fst_conv snd_conv)
  show ?thesis
    using assms(2)
    by (cases p)
      (auto simp: process_auth_def process_cached_def process_invoke_def process_postprocess_def process_cache_def
        process_callback_def Let_def dest: au ai ap split: option.splits sum.splits prod.splits if_splits)
qed

lemma run_chain_keeps:
  assumes "env_keeps obs env"
  shows "run_chain env q en ps pre w e st = (w1, e1, st1, r) \<Longrightarrow> obs e1 = obs e"
proof (induction ps arbitrary: pre w e st)
  case Nil
  then show ?case by simp
next
  case (Cons p ps)
  let ?st0 = "enter_proc p st"
  show ?case
  proof (cases "\<not> is_at p ?st0")
    case True
    with Cons show ?thesis by (simp add: Let_def)
  next
    case False
    obtain w2 e2 st2 r2 where pr: "process_of env q p en pre w e ?st0 = (w2, e2, st2, r2)" by (metis prod_cases4)
    have e2: "obs e2 = obs e" by (rule process_keeps [OF assms pr])
    show ?thesis
    proof (cases r2)
      case (Inl err)
      with Cons.prems False pr e2 show ?thesis by (simp add: Let_def)
    next
      case (Inr d)
      obtain st3 stop where "advance (case ps of [] \<Rightarrow> None | p' # _ \<Rightarrow> Some (getName p')) st2 = (st3, stop)" by (metis prod.exhaust)
      with Cons False pr e2 Inr show ?thesis
        by (cases stop) (simp_all add: Let_def)
    qed
  qed
qed

lemma chain_keeps: "env_keeps obs env \<Longrightarrow> chain env q w e st = (w1, e1, st1, r) \<Longrightarrow> obs e1 = obs e"
  by (auto simp: chain_def dest: run_chain_keeps split: sum.splits option.splits if_splits)

definition fresh_status :: "string \<Rightarrow> string option \<Rightarrow> json option \<Rightarrow> invoke_status" where
  "fresh_status i ep a = \<lparr>is_invokeId = i, is_epName = ep, is_args = a, is_response = None, is_processor = None,
     is_cacheKey = None, is_cacheTtl = None\<rparr>"

text \<open>
  A service endpoint without surprises: authorised at once, not cached, and an adaptor that
  answers the invocation with \<open>r\<close> and the postprocessing with \<open>d\<close>.
\<close>

definition plain_env :: "por option \<Rightarrow> json option \<Rightarrow> 'w sep_env" where
  "plain_env r d =
     \<lparr>realm_fun = (\<lambda>n. if n = ''checkSepAuth'' then Some (\<lambda>en w e. (w, e, Inr None)) else None),
      get_adaptor = (\<lambda>k. Some \<lparr>ad_invoke = (\<lambda>en a s w e st. (w, e, st, Inr r)), ad_postprocess = (\<lambda>j en w e st. (w, e, Inr d))\<rparr>),
      find_entry = (\<lambda>i. None), eval_key = no_eval\<rparr>"

definition ex_event_for :: "endpoint \<Rightarrow> req_event" where
  "ex_event_for en = (ex_request ''e1'')\<lparr>ev_ctx := Some (ex_ctx\<lparr>cx_endpoints := [en]\<rparr>)\<rparr>"

definition ex_world :: "'w \<Rightarrow> 'w sep_world" where
  "ex_world w = \<lparr>sw_cache = empty_cache, sw_now = 1000, sw_out = w\<rparr>"

definition ex_queue :: "(string \<times> json option) list \<Rightarrow> (string \<times> json option) list \<Rightarrow> (string \<times> json option) list" where
  "ex_queue calls w = w @ calls"

definition lookup_ok :: "req_event \<Rightarrow> invoke_status \<Rightarrow> endpoint \<Rightarrow> bool" where
  "lookup_ok e st en \<longleftrightarrow> (\<exists>c. ev_ctx e = Some c \<and> find (\<lambda>x. Some (en_name x) = is_epName st) (cx_endpoints c) = Some en)"

lemma chain_lookup:
  assumes "lookup_ok e st en"
  shows "chain env q w e st =
    (if (case is_processor st of None \<Rightarrow> True | Some p \<Rightarrow> nonempty_str (p_name p))
     then run_chain env q en invoke_chain (Some (data_response (is_response st))) w e st
     else (w, e, st, Inr (Some (data_response (is_response st)))))"
  using assms by (auto simp: chain_def lookup_ok_def)

lemma ex_lookup: "is_epName st = Some (en_name en) \<Longrightarrow> lookup_ok (ex_event_for en) st en"
  by (simp add: lookup_ok_def ex_event_for_def)

lemma ex_miss:
  "fromCached no_eval i (ex_endpoint async (Some 60)) e t empty_cache =
     (empty_cache, Inr \<lparr>h_cacheKey = Some ''GET /pets'', h_cacheTtl = Some 60, h_response = None\<rparr>)"
  by (simp add: fromCached_def loadCacheConfig_def getCacheKey_def ex_endpoint_def reallyCache_def findCached_def
      empty_cache_def Let_def)

section \<open>Adaptors\<close>

text \<open>A processor that answers without a break hands on to the next one.\<close>

definition moved_to :: "sep_processor \<Rightarrow> string option \<Rightarrow> invoke_status \<Rightarrow> invoke_status" where
  "moved_to p c st = st\<lparr>is_processor := Some \<lparr>p_name = Some (getName p), p_ctx = c, p_break = None\<rparr>\<rparr>"

lemma getName_nonempty [simp]: "getName p \<noteq> []"
  by (cases p) simp_all

lemma run_chain_pass:
  assumes "at_processor (Some (getName p)) c st" and "process_of env q p en pre w e st = (w1, e1, st1, Inr d)"
    and "at_processor (Some (getName p)) c' st1"
  shows "run_chain env q en (p # p' # ps) pre w e st = run_chain env q en (p' # ps) d w1 e1 (moved_to p' c' st1)"
  using assms by (subst run_chain.simps) (simp add: at_processor_def enter_proc_def is_at_def advance_def moved_to_def del: process_of.simps run_chain.simps)

lemma moved_to_at [simp]: "at_processor (Some (getName p)) c (moved_to p c st)"
  by (simp add: at_processor_def moved_to_def)

lemma run_chain_err:
  assumes "at_processor (Some (getName p)) c st" and "process_of env q p en pre w e st = (w1, e1, st1, Inl err)"
  shows "run_chain env q en (p # ps) pre w e st = (w1, e1, st1, Inl err)"
  using assms by (simp add: at_processor_def enter_proc_def is_at_def del: process_of.simps)

lemma run_chain_enter:
  "is_processor st = None \<Longrightarrow> run_chain env q en (p # ps) pre w e st = run_chain env q en (p # ps) pre w e (moved_to p None st)"
  by (simp add: enter_proc_def is_at_def moved_to_def)

text \<open>A first call that is authorised and not cached reaches the adaptor.\<close>

lemma chain_reaches_adaptor:
  assumes look: "lookup_ok e st en" and new: "is_processor st = None"
    and auth: "realm_fun env ''checkSepAuth'' = Some fn" "fn en w e = (w1, e1, Inr None)"
    and miss: "fromCached (eval_key env) (is_invokeId st) en e1 (sw_now w1) (sw_cache w1) = (db, Inr h)" "h_response h = None"
  shows "\<exists>st1. at_processor (Some (getName SepInvoke)) None st1 \<and>
    chain env q w e st = run_chain env q en (SepInvoke # SepPostprocess # [SepCache, SepCallbackPostprocess, SepCallback]) None (w1\<lparr>sw_cache := db\<rparr>) e1 st1"
proof -
  let ?st = "moved_to SepAuth None st"
  have i: "is_invokeId ?st = is_invokeId st" "proc_ctx ?st = None" by (simp_all add: moved_to_def proc_ctx_def)
  have a: "process_of env q SepAuth en pre w e ?st = (w1, e1, ?st, Inr None)" for pre
    using auth i by (simp add: process_auth_def)
  let ?st2 = "moved_to SepCached None ?st"
  obtain st3 where c: "process_of env q SepCached en None w1 e1 ?st2 = (w1\<lparr>sw_cache := db\<rparr>, e1, st3, Inr None)"
    and at3: "is_processor st3 = is_processor ?st2"
    using miss by (simp add: process_cached_def Let_def moved_to_def)
  have "chain env q w e st = run_chain env q en invoke_chain (Some (data_response (is_response st))) w e st"
    unfolding chain_lookup [OF look] using new by simp
  also have "\<dots> = run_chain env q en (SepCached # [SepInvoke, SepPostprocess, SepCache, SepCallbackPostprocess, SepCallback]) None w1 e1 ?st2"
    unfolding invoke_chain_def run_chain_enter [OF new] by (rule run_chain_pass [OF moved_to_at a moved_to_at])
  also have "\<dots> = run_chain env q en (SepInvoke # [SepPostprocess, SepCache, SepCallbackPostprocess, SepCallback]) None (w1\<lparr>sw_cache := db\<rparr>) e1 (moved_to SepInvoke None st3)"
    by (rule run_chain_pass [OF moved_to_at c]) (use at3 in \<open>simp add: at_processor_def moved_to_def\<close>)
  finally show ?thesis using moved_to_at by blast
qed

text \<open>The end of a first call: the response is offered to the cache, and the invocation waits for its callback
  exactly when the response is pending.\<close>

lemma run_chain_cached:
  assumes "run_chain env q en (SepCache # SepCallbackPostprocess # ps) (Some d) w e (moved_to SepCache None st) = (w', e', st', Inr r)"
  shows "r = Some d \<and> at_processor (if p_status d = Some 2 then Some ''CallbackPostprocess'' else None) None st'"
  using assms
  by (auto simp: process_cache_def at_processor_def moved_to_def enter_proc_def is_at_def advance_def sep_end_def sep_break_def upd_proc_def Let_def
      nonempty_str_def split: sum.splits prod.splits if_splits)

text \<open>What the chain relies on in the adaptor of a server entry: the invocation stays at its processor, and a call
  that does not fail has an answer. A synchronous adaptor answers with data; of an asynchronous one the
  answer comes later, and anything else that it answers at once is refused by its own postprocessing.\<close>

locale server_adaptor =
  fixes ad :: "'w sep_adaptor"
  assumes keeps_processor: "ad_invoke ad en a s w e st = (w1, e1, st1, res) \<Longrightarrow> is_processor st1 = is_processor st"
    and has_answer: "ad_invoke ad en a s w e st = (w1, e1, st1, Inr r) \<Longrightarrow> r \<noteq> None"
begin

lemma first_call:
  assumes reach: "lookup_ok e st en" "is_processor st = None"
    "realm_fun env ''checkSepAuth'' = Some fn" "fn en w e = (w1, e1, Inr None)"
    "fromCached (eval_key env) (is_invokeId st) en e1 (sw_now w1) (sw_cache w1) = (db, Inr h)" "h_response h = None"
    and ad: "get_adaptor env (en_adaptorKey en) = Some ad"
    and res: "chain env q w e st = (w', e', st', Inr r)"
  shows "\<exists>a s v st1 w2 e2 st2 raw. ad_invoke ad en a s v e1 st1 = (w2, e2, st2, Inr (Some raw)) \<and>
     (if p_status raw = Some 2 then r = Some raw \<and> at_processor (Some ''CallbackPostprocess'') None st'
      else \<exists>st3 w3 e3 y. ad_postprocess ad (por_data raw) en w2 e2 st3 = (w3, e3, Inr y) \<and> r = Some (data_response y) \<and> at_processor None None st')"
proof -
  obtain st1 where st1: "at_processor (Some (getName SepInvoke)) None st1"
    and go: "chain env q w e st = run_chain env q en (SepInvoke # SepPostprocess # [SepCache, SepCallbackPostprocess, SepCallback]) None (w1\<lparr>sw_cache := db\<rparr>) e1 st1"
    using chain_reaches_adaptor [OF reach] by blast
  obtain w2 e2 st2 r2 where inv: "process_of env q SepInvoke en None (w1\<lparr>sw_cache := db\<rparr>) e1 st1 = (w2, e2, st2, r2)" by (metis prod_cases4)
  then have inv': "ad_invoke ad en (is_args st1) (find_entry env (en_entryId en)) (w1\<lparr>sw_cache := db\<rparr>) e1 st1 = (w2, e2, st2, r2)"
    using ad by (simp add: process_invoke_def)
  obtain raw where raw: "r2 = Inr (Some raw)"
  proof (cases r2)
    case (Inl err)
    with run_chain_err [OF st1 inv [unfolded Inl]] res go show thesis by simp
  next
    case (Inr x)
    with inv' has_answer that show thesis by blast
  qed
  have st2: "at_processor (Some (getName SepInvoke)) None st2" using keeps_processor [OF inv'] st1 by (simp add: at_processor_def)
  note go = go [unfolded run_chain_pass [OF st1 inv [unfolded raw] st2]]
  let ?st3 = "moved_to SepPostprocess None st2"
  obtain w3 e3 r3 where post: "ad_postprocess ad (por_data raw) en w2 e2 ?st3 = (w3, e3, r3)" by (metis prod_cases3)
  show ?thesis
  proof (cases "p_status raw = Some 2")
    case True
    then have "process_of env q SepPostprocess en (Some raw) w2 e2 ?st3 = (w2, e2, ?st3, Inr (Some raw))" by (simp add: process_postprocess_def)
    note go = go [unfolded run_chain_pass [OF moved_to_at this moved_to_at]]
    from run_chain_cached [OF res [unfolded go]] True show ?thesis
      by - (intro exI conjI, rule inv' [unfolded raw], simp)
  next
    case False
    show ?thesis
    proof (cases r3)
      case (Inl err)
      then have "process_of env q SepPostprocess en (Some raw) w2 e2 ?st3 = (w3, e3, ?st3, Inl err)"
        using post False ad by (simp add: process_postprocess_def)
      from run_chain_err [OF moved_to_at this] res go show ?thesis by simp
    next
      case (Inr y)
      then have "process_of env q SepPostprocess en (Some raw) w2 e2 ?st3 = (w3, e3, ?st3, Inr (Some (data_response y)))"
        using post False ad by (simp add: process_postprocess_def)
      note go = go [unfolded run_chain_pass [OF moved_to_at this moved_to_at]]
      from run_chain_cached [OF res [unfolded go]] have "r = Some (data_response y) \<and> at_processor None None st'" by simp
      with False post [unfolded Inr] show ?thesis
        by - (intro exI conjI, rule inv' [unfolded raw], auto)
    qed
  qed
qed

end

locale sync_adaptor = server_adaptor +
  assumes answers: "ad_invoke ad en a s w e st = (w1, e1, st1, Inr (Some x)) \<Longrightarrow> p_status x \<noteq> Some 2"
begin

lemma never_waits:
  assumes "lookup_ok e st en" "is_processor st = None"
    "realm_fun env ''checkSepAuth'' = Some fn" "fn en w e = (w1, e1, Inr None)"
    "fromCached (eval_key env) (is_invokeId st) en e1 (sw_now w1) (sw_cache w1) = (db, Inr h)" "h_response h = None"
    "get_adaptor env (en_adaptorKey en) = Some ad" "chain env q w e st = (w', e', st', Inr r)"
  shows "\<exists>d. r = Some (data_response d) \<and> at_processor None None st'"
  using first_call [OF assms] answers by (auto split: if_splits)

end

locale async_adaptor = server_adaptor +
  assumes defers: "ad_invoke ad en a s w e st = (w1, e1, st1, Inr (Some x)) \<Longrightarrow>
      p_status x = Some 2 \<or> (\<exists>err. snd (snd (ad_postprocess ad (por_data x) en w2 e2 st2)) = Inl err)"
begin

lemma always_waits:
  assumes "lookup_ok e st en" "is_processor st = None"
    "realm_fun env ''checkSepAuth'' = Some fn" "fn en w e = (w1, e1, Inr None)"
    "fromCached (eval_key env) (is_invokeId st) en e1 (sw_now w1) (sw_cache w1) = (db, Inr h)" "h_response h = None"
    "get_adaptor env (en_adaptorKey en) = Some ad" "chain env q w e st = (w', e', st', Inr r)"
  shows "is_pending r \<and> at_processor (Some ''CallbackPostprocess'') None st'"
proof -
  from first_call [OF assms] obtain a s v st1 w2 e2 st2 raw where inv: "ad_invoke ad en a s v e1 st1 = (w2, e2, st2, Inr (Some raw))"
    and out: "if p_status raw = Some 2 then r = Some raw \<and> at_processor (Some ''CallbackPostprocess'') None st'
      else \<exists>st3 w3 e3 y. ad_postprocess ad (por_data raw) en w2 e2 st3 = (w3, e3, Inr y) \<and> r = Some (data_response y) \<and> at_processor None None st'"
    by blast
  have "p_status raw = Some 2"
  proof (rule ccontr)
    assume "p_status raw \<noteq> Some 2"
    moreover from this out obtain st3 w3 e3 y where "ad_postprocess ad (por_data raw) en w2 e2 st3 = (w3, e3, Inr y)" by auto
    ultimately show False using defers [OF inv, of w2 e2 st3] by simp
  qed
  with out show ?thesis by simp
qed

end

section \<open>Properties\<close>

text \<open>What no service of the chain touches, the chain does not touch: an observation of the event
  (its retry counter, its methods) that the realm methods and the adaptors keep is the same
  after any invocation, new, resumed or failed.\<close>

theorem chain_keeps_observation:
  assumes "env_keeps obs env"
  shows "obs (fst (snd (chain env q w e st))) = obs e"
  using chain_keeps [OF assms, of q w e st] by (metis prod.collapse)

theorem chain_keeps_observation_witness:
  "taskId (fst (snd (chain (plain_env None None) ex_queue (ex_world []) (ex_request ''e1'') (fresh_status [] None None)))) =
   taskId (ex_request ''e1'')"
  by (rule chain_keeps_observation) (simp add: env_keeps_def plain_env_def)

text \<open>C8. A first, synchronous invocation: authorised, missed in the cache and answered by the
  adaptor, it returns the postprocessed data, leaves no processor to run, and the response is
  offered to the cache.\<close>

theorem chain_sync:
  assumes look: "lookup_ok e st en" and new: "is_processor st = None"
    and auth: "realm_fun env ''checkSepAuth'' = Some fn" "fn en w e = (w1, e1, Inr None)"
    and miss: "fromCached (eval_key env) (is_invokeId st) en e1 (sw_now w1) (sw_cache w1) =
                 (db, Inr \<lparr>h_cacheKey = Some (k # ks), h_cacheTtl = ttl, h_response = None\<rparr>)"
    and ad: "get_adaptor env (en_adaptorKey en) = Some ad"
    and inv: "\<And>st'. ad_invoke ad en (is_args st) (find_entry env (en_entryId en)) (w1\<lparr>sw_cache := db\<rparr>) e1 st' = (w2, e2, st', Inr (Some raw))"
    and sync: "p_status raw \<noteq> Some 2"
    and post: "\<And>st'. ad_postprocess ad (por_data raw) en w2 e2 st' = (w3, e3, Inr d)"
    and store: "toCache (Some (k # ks)) ttl (Some (data_response d)) en (ev_id e3) (sw_now w3) (sw_cache w3) = (db', Inr b)"
  shows "\<exists>st'. chain env q w e st = (w3\<lparr>sw_cache := db'\<rparr>, e3, st', Inr (Some (data_response d))) \<and>
    at_processor None None st'"
proof -
  show ?thesis
    unfolding chain_lookup [OF look] invoke_chain_def at_processor_def using new auth miss ad inv sync post store
    by (simp add: process_auth_def process_cached_def process_invoke_def process_postprocess_def process_cache_def
        proc_ctx_def enter_proc_def is_at_def advance_def sep_end_def upd_proc_def Let_def)
qed

theorem chain_sync_witness:
  "\<exists>w' e' st'. chain (plain_env (Some (data_response (Some (JNum 1)))) (Some (JNum 2))) ex_queue (ex_world [])
      (ex_event_for (ex_endpoint False (Some 60))) (fresh_status [] (Some ''GET /pets'') None) =
    (w', e', st', Inr (Some (data_response (Some (JNum 2))))) \<and> at_processor None None st'"
proof -
  let ?en = "ex_endpoint False (Some 60)"
  let ?db = "fst (toCache (Some ''GET /pets'') (Some 60) (Some (data_response (Some (JNum 2)))) ?en (ev_id (ex_event_for ?en)) 1000 empty_cache)"
  have "\<exists>st'. chain (plain_env (Some (data_response (Some (JNum 1)))) (Some (JNum 2))) ex_queue (ex_world [])
      (ex_event_for ?en) (fresh_status [] (Some ''GET /pets'') None) =
    ((ex_world [])\<lparr>sw_cache := ?db\<rparr>, ex_event_for ?en, st', Inr (Some (data_response (Some (JNum 2))))) \<and> at_processor None None st'"
    by (rule chain_sync [where en = ?en and k = "CHR ''G''" and ks = "''ET /pets''" and ttl = "Some 60"
          and db = empty_cache and ?w1.0 = "ex_world []" and ?w2.0 = "ex_world []" and ?w3.0 = "ex_world []"
          and ?e1.0 = "ex_event_for ?en" and ?e2.0 = "ex_event_for ?en" and ?e3.0 = "ex_event_for ?en"
          and raw = "data_response (Some (JNum 1))" and b = True])
      (simp_all add: plain_env_def ex_miss ex_world_def fresh_status_def ex_lookup, simp_all add: ex_endpoint_def ex_lookup
        toCache_def reallyCache_def createCached_def findCached_def empty_cache_def)
  then show ?thesis by blast
qed

text \<open>An asynchronous invocation: when the adaptor answers that the response is pending, the chain
  stops with the pending response, which is offered to the cache, and the invocation waits at
  the callback postprocessor.\<close>

theorem chain_async:
  assumes look: "lookup_ok e st en" and new: "is_processor st = None"
    and auth: "realm_fun env ''checkSepAuth'' = Some fn" "fn en w e = (w1, e1, Inr None)"
    and miss: "fromCached (eval_key env) (is_invokeId st) en e1 (sw_now w1) (sw_cache w1) =
                 (db, Inr \<lparr>h_cacheKey = Some (k # ks), h_cacheTtl = ttl, h_response = None\<rparr>)"
    and ad: "get_adaptor env (en_adaptorKey en) = Some ad"
    and inv: "\<And>st'. ad_invoke ad en (is_args st) (find_entry env (en_entryId en)) (w1\<lparr>sw_cache := db\<rparr>) e1 st' = (w2, e2, st', Inr (Some pend))"
    and pend: "p_status pend = Some 2"
    and store: "toCache (Some (k # ks)) ttl (Some pend) en (ev_id e2) (sw_now w2) (sw_cache w2) = (db', Inr b)"
  shows "\<exists>st'. chain env q w e st = (w2\<lparr>sw_cache := db'\<rparr>, e2, st', Inr (Some pend)) \<and>
    at_processor (Some ''CallbackPostprocess'') None st' \<and> is_cacheKey st' = Some (k # ks) \<and>
    is_epName st' = is_epName st \<and> is_response st' = is_response st"
  unfolding chain_lookup [OF look] invoke_chain_def at_processor_def using new auth miss ad inv pend store
  by (simp add: process_auth_def process_cached_def process_invoke_def process_postprocess_def process_cache_def
      proc_ctx_def enter_proc_def is_at_def advance_def sep_break_def upd_proc_def Let_def)

theorem chain_async_witness:
  "\<exists>w' e' st'. chain (plain_env (Some (pending_response None)) None) ex_queue (ex_world [])
      (ex_event_for (ex_endpoint True (Some 60))) (fresh_status [] (Some ''GET /pets'') None) =
    (w', e', st', Inr (Some (pending_response None))) \<and> at_processor (Some ''CallbackPostprocess'') None st'"
proof -
  let ?en = "ex_endpoint True (Some 60)"
  let ?db = "fst (toCache (Some ''GET /pets'') (Some 60) (Some (pending_response None)) ?en (ev_id (ex_event_for ?en)) 1000 empty_cache)"
  have "\<exists>st'. chain (plain_env (Some (pending_response None)) None) ex_queue (ex_world [])
      (ex_event_for ?en) (fresh_status [] (Some ''GET /pets'') None) =
    ((ex_world [])\<lparr>sw_cache := ?db\<rparr>, ex_event_for ?en, st', Inr (Some (pending_response None))) \<and>
    at_processor (Some ''CallbackPostprocess'') None st' \<and> is_cacheKey st' = Some (CHR ''G'' # ''ET /pets'') \<and>
    is_epName st' = is_epName (fresh_status [] (Some ''GET /pets'') None) \<and>
    is_response st' = is_response (fresh_status [] (Some ''GET /pets'') None)"
    by (rule chain_async [where en = ?en and k = "CHR ''G''" and ks = "''ET /pets''" and ttl = "Some 60"
          and db = empty_cache and ?w1.0 = "ex_world []" and ?w2.0 = "ex_world []"
          and ?e1.0 = "ex_event_for ?en" and ?e2.0 = "ex_event_for ?en" and b = True])
      (simp_all add: plain_env_def ex_miss ex_world_def fresh_status_def ex_lookup, simp_all add: ex_endpoint_def ex_lookup
        toCache_def reallyCache_def createCached_def findCached_def empty_cache_def)
  then show ?thesis by blast
qed

text \<open>A chain whose invocation waits for its callback goes on at the callback postprocessor.\<close>

lemma chain_at_callback:
  assumes look: "lookup_ok e st en" and at_cb: "at_processor (Some ''CallbackPostprocess'') c st"
  shows "chain env q w e st = run_chain env q en [SepCallbackPostprocess, SepCallback] (Some (data_response (is_response st))) w e st"
proof -
  let ?s = "SepCallbackPostprocess"
  have at_s: "is_processor st = Some \<lparr>p_name = Some (getName ?s), p_ctx = c, p_break = None\<rparr>"
    using at_cb by (simp add: at_processor_def)
  have ic: "invoke_chain = [SepAuth, SepCached, SepInvoke, SepPostprocess, SepCache] @ ?s # [SepCallback]"
    by (simp add: invoke_chain_def)
  have go: "run_chain env q en invoke_chain pre w e st = run_chain env q en [?s, SepCallback] pre w e st" for pre
    unfolding ic by (rule run_chain_at [OF at_s]) simp
  have nm: "(case is_processor st of None \<Rightarrow> True | Some p \<Rightarrow> nonempty_str (p_name p))" using at_s by simp
  show ?thesis unfolding chain_lookup [OF look] if_P [OF nm] go ..
qed

text \<open>C9. The callback of an asynchronous invocation: with the response set, the chain goes on at the
  callback postprocessor, runs nothing before it, returns the postprocessed response, updates the
  cache and queues the resumes of the observers; no processor is left to run.\<close>

theorem chain_callback:
  assumes look: "lookup_ok e st en" and at_cb: "at_processor (Some ''CallbackPostprocess'') c st"
    and ad: "get_adaptor env (en_adaptorKey en) = Some ad"
    and post: "ad_postprocess ad (is_response st) en w e st = (w1, e1, Inr d)"
    and upd: "updateCache (data_response d) (is_cacheKey st) (is_cacheTtl st) en (sw_cache w1) = (db, b, calls)"
  shows "\<exists>st'. chain env q w e st = (w1\<lparr>sw_cache := db, sw_out := q calls (sw_out w1)\<rparr>, e1, st', Inr (Some (data_response d))) \<and>
    at_processor None c st'"
  using at_cb post upd ad
  by (simp add: chain_at_callback [OF look at_cb] at_processor_def process_postprocess_def process_callback_def enter_proc_def is_at_def advance_def Let_def)

theorem chain_callback_witness:
  "\<exists>w' e' st'. chain (plain_env None (Some (JNum 2))) ex_queue (ex_world [])
      (ex_event_for (ex_endpoint True None))
      ((fresh_status ''7'' (Some ''GET /pets'') None)\<lparr>is_processor := Some \<lparr>p_name = Some ''CallbackPostprocess'', p_ctx = None, p_break = None\<rparr>\<rparr>) =
    (w', e', st', Inr (Some (data_response (Some (JNum 2))))) \<and> at_processor None None st'"
proof -
  let ?en = "ex_endpoint True None"
  let ?st = "(fresh_status ''7'' (Some ''GET /pets'') None)\<lparr>is_processor := Some \<lparr>p_name = Some ''CallbackPostprocess'', p_ctx = None, p_break = None\<rparr>\<rparr>"
  have "\<exists>st'. chain (plain_env None (Some (JNum 2))) ex_queue (ex_world []) (ex_event_for ?en) ?st =
    ((ex_world [])\<lparr>sw_cache := empty_cache, sw_out := ex_queue [] (sw_out (ex_world []))\<rparr>, ex_event_for ?en, st', Inr (Some (data_response (Some (JNum 2))))) \<and>
    at_processor None None st'"
    by (rule chain_callback [where en = ?en and b = False])
      (simp_all add: plain_env_def at_processor_def fresh_status_def updateCache_def reallyCache_def ex_world_def ex_lookup,
        simp_all add: ex_endpoint_def ex_lookup)
  then show ?thesis by blast
qed

text \<open>A chain that was ended runs nothing: the call answers with the stored response and changes
  nothing.\<close>

theorem chain_ended:
  assumes "lookup_ok e st en" and "at_processor None c st"
  shows "chain env q w e st = (w, e, st, Inr (Some (data_response (is_response st))))"
  using assms(2) by (simp add: chain_lookup [OF assms(1)] at_processor_def)

theorem chain_ended_witness:
  "snd (snd (snd (chain (plain_env None None) ex_queue (ex_world []) (ex_event_for (ex_endpoint True None))
      ((fresh_status ''7'' (Some ''GET /pets'') None)\<lparr>is_response := Some (JNum 3),
         is_processor := Some \<lparr>p_name = None, p_ctx = None, p_break = None\<rparr>\<rparr>)))) =
    Inr (Some (data_response (Some (JNum 3))))"
proof -
  let ?st = "(fresh_status ''7'' (Some ''GET /pets'') None)\<lparr>is_response := Some (JNum 3),
         is_processor := Some \<lparr>p_name = None, p_ctx = None, p_break = None\<rparr>\<rparr>"
  have "lookup_ok (ex_event_for (ex_endpoint True None)) ?st (ex_endpoint True None)"
    by (rule ex_lookup) (simp add: fresh_status_def ex_endpoint_def)
  moreover have "at_processor None None ?st" by (simp add: at_processor_def)
  ultimately have "chain (plain_env None None) ex_queue (ex_world []) (ex_event_for (ex_endpoint True None)) ?st =
      (ex_world [], ex_event_for (ex_endpoint True None), ?st, Inr (Some (data_response (is_response ?st))))"
    by (rule chain_ended)
  then show ?thesis by simp
qed

text \<open>Authorisation that waits for an answer: the chain stops before the endpoint is touched, at the
  auth processor with the resume function, and the next call enters the realm service there.\<close>

theorem chain_auth_pending:
  assumes look: "lookup_ok e st en" and new: "is_processor st = None"
    and auth: "realm_fun env ''checkSepAuth'' = Some fn" "fn en w e = (w1, e1, Inr (Some (f # fs)))"
  shows "\<exists>st'. chain env q w e st = (w1, e1, st', Inr (Some (pending_response None))) \<and>
    at_processor (Some ''InvokeAuth'') (Some (f # fs)) st' \<and>
    (\<forall>w2 e2 err w3 e3 fn2. lookup_ok e2 st' en \<longrightarrow> realm_fun env (f # fs) = Some fn2 \<longrightarrow> fn2 en w2 e2 = (w3, e3, Inl err) \<longrightarrow>
       chain env q w2 e2 st' = (w3, e3, st', Inl err))"
proof -
  let ?st' = "st\<lparr>is_processor := Some \<lparr>p_name = Some ''InvokeAuth'', p_ctx = Some (f # fs), p_break = None\<rparr>\<rparr>"
  have "chain env q w e st = (w1, e1, ?st', Inr (Some (pending_response None)))"
    unfolding chain_lookup [OF look] invoke_chain_def using new auth
    by (simp add: process_auth_def proc_ctx_def enter_proc_def is_at_def advance_def sep_break_def upd_proc_def Let_def)
  moreover have "chain env q w2 e2 ?st' = (w3, e3, ?st', Inl err)"
    if "lookup_ok e2 ?st' en" "realm_fun env (f # fs) = Some fn2" "fn2 en w2 e2 = (w3, e3, Inl err)" for w2 e2 err w3 e3 fn2
    unfolding chain_lookup [OF that(1)] invoke_chain_def using that(2,3)
    by (simp add: process_auth_def enter_proc_def is_at_def proc_ctx_def Let_def)
  ultimately show ?thesis by (intro exI [of _ ?st']) (simp add: at_processor_def)
qed

theorem chain_auth_pending_witness:
  "\<exists>w' e' st'. chain ((plain_env None None)\<lparr>realm_fun := (\<lambda>n. Some (\<lambda>en w e. (w, e, Inr (Some ''authCallback''))))\<rparr>) ex_queue
      (ex_world []) (ex_event_for (ex_endpoint True None)) (fresh_status [] (Some ''GET /pets'') None) =
    (w', e', st', Inr (Some (pending_response None))) \<and> at_processor (Some ''InvokeAuth'') (Some ''authCallback'') st'"
proof -
  let ?env = "(plain_env None None)\<lparr>realm_fun := (\<lambda>n. Some (\<lambda>en w e. (w, e, Inr (Some ''authCallback''))))\<rparr>"
  let ?e = "ex_event_for (ex_endpoint True None)"
  have "lookup_ok ?e (fresh_status [] (Some ''GET /pets'') None) (ex_endpoint True None)"
    by (rule ex_lookup) (simp add: fresh_status_def ex_endpoint_def)
  from chain_auth_pending [OF this, of ?env "\<lambda>en w e. (w, e, Inr (Some ''authCallback''))" "ex_world []" "ex_world []" ?e
      "CHR ''a''" "''uthCallback''" ex_queue]
  show ?thesis by (fastforce simp: fresh_status_def)
qed

end
