(* ===== verification/PipeClient.thy ===== *)
theory PipeClient
  imports EventModel
begin

text \<open>
  \<open>templates/task-runner/pipe-client.ts\<close>, the client side of the pipe between a task script and the
  server, the line protocol of the server side (\<open>onLine\<close> in \<open>src/invoke/invoke.service.ts\<close>), and
  the two of them together as a step relation.
\<close>

section \<open>The client\<close>

text \<open>
  What waits for the connection: a command under its request id, or a result. A resolved promise
  is logged with its request id and the text it was resolved with.
\<close>

datatype waiting = WaitCommand string string | WaitResult string string

record pipe_client =
  pc_cmdPrefix :: string
  pc_requestPrefix :: string
  pc_isConnected :: bool
  pc_shutdown :: bool
  pc_pending :: "string obj"
  pc_nextRequestId :: int
  pc_waiters :: "waiting list"
  pc_out :: "string list"
  pc_resolved :: "(string \<times> string) list"
  pc_rejected :: "string list"

definition newPipeClient :: "string \<Rightarrow> string \<Rightarrow> pipe_client" where
  "newPipeClient cmdPrefix requestPrefix =
     \<lparr>pc_cmdPrefix = cmdPrefix, pc_requestPrefix = requestPrefix, pc_isConnected = False, pc_shutdown = False,
      pc_pending = [], pc_nextRequestId = 0, pc_waiters = [], pc_out = [], pc_resolved = [], pc_rejected = []\<rparr>"

definition frame :: "string \<Rightarrow> string \<Rightarrow> string \<Rightarrow> string" where
  "frame cmdPrefix key body = cmdPrefix @ CHR ''|'' # key @ CHR ''|'' # body"

fun issue :: "waiting \<Rightarrow> pipe_client \<Rightarrow> pipe_client" where
  "issue (WaitCommand requestId cmd) c =
     c\<lparr>pc_pending := obj_set requestId cmd (pc_pending c),
       pc_out := pc_out c @ [frame (pc_cmdPrefix c) requestId cmd]\<rparr>"
| "issue (WaitResult resultKey result) c =
     c\<lparr>pc_out := pc_out c @ [frame (pc_cmdPrefix c) resultKey result]\<rparr>"

definition when_connected :: "waiting \<Rightarrow> pipe_client \<Rightarrow> pipe_client" where
  "when_connected x c = (if pc_isConnected c then issue x c else c\<lparr>pc_waiters := pc_waiters c @ [x]\<rparr>)"

definition sendCommand :: "string \<Rightarrow> pipe_client \<Rightarrow> pipe_client" where
  "sendCommand cmd c =
     (let n = pc_nextRequestId c - 1
      in when_connected (WaitCommand (pc_requestPrefix c @ CHR '':'' # show_int n) cmd) (c\<lparr>pc_nextRequestId := n\<rparr>))"

definition sendResult :: "nat \<Rightarrow> string \<Rightarrow> pipe_client \<Rightarrow> pipe_client" where
  "sendResult code result c = when_connected (WaitResult (pc_requestPrefix c @ CHR '':'' # show_nat code) result) c"

text \<open>The connection callback: the waiters are resumed in order.\<close>

definition onConnect :: "pipe_client \<Rightarrow> pipe_client" where
  "onConnect c = (if pc_shutdown c then c
     else fold issue (pc_waiters c) (c\<lparr>pc_isConnected := True, pc_waiters := []\<rparr>))"

definition onClose :: "pipe_client \<Rightarrow> pipe_client" where
  "onClose c = c\<lparr>pc_isConnected := False\<rparr>"

definition heartbeat :: "pipe_client \<Rightarrow> pipe_client" where
  "heartbeat c = (if pc_isConnected c then c\<lparr>pc_out := pc_out c @ [''ping'']\<rparr> else c)"

definition client_close :: "pipe_client \<Rightarrow> pipe_client" where
  "client_close c = c\<lparr>pc_shutdown := True\<rparr>"

definition writeError :: "string \<Rightarrow> pipe_client \<Rightarrow> pipe_client" where
  "writeError requestId c =
     c\<lparr>pc_pending := obj_del requestId (pc_pending c), pc_rejected := pc_rejected c @ [requestId]\<rparr>"

definition onData :: "string \<Rightarrow> pipe_client \<Rightarrow> pipe_client" where
  "onData response c =
     (let pieces = split_char (CHR ''|'') response
      in if hd pieces \<noteq> pc_cmdPrefix c then c
         else if length pieces < 2 then c
         else
           (let requestId = pieces ! 1
            in case obj_get (pc_pending c) requestId of
                 None \<Rightarrow> c
               | Some _ \<Rightarrow> c\<lparr>pc_pending := obj_del requestId (pc_pending c),
                             pc_resolved := pc_resolved c @ [(requestId, join_char (CHR ''|'') (drop 2 pieces))]\<rparr>))"

section \<open>The lines as the server reads them\<close>

text \<open>
  \<open>onLine\<close>: a line with the prefix of the task is a request key and a command text; the code is
  what follows the first colon of the key. \<open>Command\<close> carries the code as text, or \<open>None\<close> where
  the key has no colon.
\<close>

datatype script_line = NotOurs | FinalResponse string | FinalError string | Command "string option" string

definition parse_line :: "string \<Rightarrow> string \<Rightarrow> script_line" where
  "parse_line cmdPrefix msg =
     (if \<not> prefix (cmdPrefix @ ''|'') msg then NotOurs
      else
        (let parts = split_char (CHR ''|'') msg;
             cmdString = join_char (CHR ''|'') (drop 2 parts);
             keys = split_char (CHR '':'') (parts ! 1);
             cmdCode = (if length keys < 2 then None else Some (keys ! 1));
             code = (case cmdCode of None \<Rightarrow> None | Some s \<Rightarrow> parse_int s)
         in case code of
              None \<Rightarrow> Command cmdCode cmdString
            | Some n \<Rightarrow> if n = 0 then FinalResponse cmdString
                        else if 0 < n then FinalError cmdString
                        else Command cmdCode cmdString))"

text \<open>The reply to a command, and the callback response written on connection.\<close>

definition reply_line :: "string \<Rightarrow> string option \<Rightarrow> string \<Rightarrow> string" where
  "reply_line cmdPrefix cmdCode body = frame cmdPrefix (case cmdCode of None \<Rightarrow> ''undefined'' | Some s \<Rightarrow> s) body"

lemma split_frame:
  assumes "CHR ''|'' \<notin> set p" and "CHR ''|'' \<notin> set k"
  shows "split_char (CHR ''|'') (frame p k b) = p # k # split_char (CHR ''|'') b"
  using assms by (simp add: frame_def split_at_sep)

lemma split_subset: "p \<in> set (split_char c s) \<Longrightarrow> set p \<subseteq> set s"
proof (induction s arbitrary: p)
  case Nil
  then show ?case by simp
next
  case (Cons x xs)
  obtain q qs where "split_char c xs = q # qs"
    by (cases "split_char c xs") auto
  with Cons show ?case by (force split: if_splits)
qed

lemma split_length: "c \<in> set s \<Longrightarrow> 2 \<le> length (split_char c s)"
proof (induction s)
  case Nil
  then show ?case by simp
next
  case (Cons x xs)
  obtain q qs where "split_char c xs = q # qs"
    by (cases "split_char c xs") auto
  with Cons show ?case by (cases qs) auto
qed

lemma parse_line_code:
  assumes "parse_line cmdPrefix msg = Command (Some s) b"
  shows "CHR '':'' \<notin> set s \<and> CHR ''|'' \<notin> set s"
proof -
  let ?parts = "split_char (CHR ''|'') msg"
  let ?keys = "split_char (CHR '':'') (?parts ! 1)"
  from assms have pre: "prefix (cmdPrefix @ ''|'') msg" and "2 \<le> length ?keys" and s: "s = ?keys ! 1"
    by (auto simp: parse_line_def Let_def split: if_splits option.splits)
  then have sk: "s \<in> set ?keys" by simp
  from pre have "CHR ''|'' \<in> set msg" by (auto simp: prefix_def)
  then have "?parts ! 1 \<in> set ?parts" using split_length by (metis Suc_1 less_eq_Suc_le nth_mem)
  then have "CHR ''|'' \<notin> set (?parts ! 1)" by (rule split_pieces)
  then show ?thesis using split_pieces [OF sk] split_subset [OF sk] by auto
qed

section \<open>Client and server together\<close>

record pipe_system =
  sys_client :: pipe_client
  sys_s2c :: "string list"

text \<open>
  The steps: the script sends commands and results, the pipe connects and closes, the client's
  lines are read in order, each command line may be answered with any body, a restored server
  writes a callback response under an invocation id (which is a command code, or empty), and
  the answers arrive in order.
\<close>

inductive pipe_step :: "pipe_system \<Rightarrow> pipe_system \<Rightarrow> bool" where
  step_command: "pipe_step s (s\<lparr>sys_client := sendCommand cmd (sys_client s)\<rparr>)"
| step_result: "pipe_step s (s\<lparr>sys_client := sendResult code r (sys_client s)\<rparr>)"
| step_connect: "pipe_step s (s\<lparr>sys_client := onConnect (sys_client s)\<rparr>)"
| step_close: "pipe_step s (s\<lparr>sys_client := onClose (sys_client s)\<rparr>)"
| step_shutdown: "pipe_step s (s\<lparr>sys_client := client_close (sys_client s)\<rparr>)"
| step_heartbeat: "pipe_step s (s\<lparr>sys_client := heartbeat (sys_client s)\<rparr>)"
| step_write_error: "pipe_step s (s\<lparr>sys_client := writeError i (sys_client s)\<rparr>)"
| step_serve: "pc_out (sys_client s) = line # rest \<Longrightarrow>
    parse_line (pc_cmdPrefix (sys_client s)) line = Command code cmd \<Longrightarrow>
    pipe_step s (s\<lparr>sys_client := (sys_client s)\<lparr>pc_out := rest\<rparr>,
                  sys_s2c := sys_s2c s @ [reply_line (pc_cmdPrefix (sys_client s)) code body]\<rparr>)"
| step_read: "pc_out (sys_client s) = line # rest \<Longrightarrow>
    pipe_step s (s\<lparr>sys_client := (sys_client s)\<lparr>pc_out := rest\<rparr>\<rparr>)"
| step_callback: "CHR '':'' \<notin> set invokeId \<Longrightarrow> CHR ''|'' \<notin> set invokeId \<Longrightarrow>
    pipe_step s (s\<lparr>sys_s2c := sys_s2c s @ [reply_line (pc_cmdPrefix (sys_client s)) (Some invokeId) body]\<rparr>)"
| step_receive: "sys_s2c s = d # rest \<Longrightarrow>
    pipe_step s (s\<lparr>sys_client := onData d (sys_client s), sys_s2c := rest\<rparr>)"

inductive pipe_reach :: "string \<Rightarrow> string \<Rightarrow> pipe_system \<Rightarrow> bool" for p r where
  reach_init: "pipe_reach p r \<lparr>sys_client = newPipeClient p r, sys_s2c = []\<rparr>"
| reach_step: "pipe_reach p r s \<Longrightarrow> pipe_step s s' \<Longrightarrow> pipe_reach p r s'"

inductive_cases pipe_stepE: "pipe_step s s'"

text \<open>Request ids hold a colon, the keys of the answers do not.\<close>

definition answer_key_ok :: "string \<Rightarrow> string \<Rightarrow> bool" where
  "answer_key_ok p d \<longleftrightarrow> (\<exists>k b. d = frame p k b \<and> CHR '':'' \<notin> set k \<and> CHR ''|'' \<notin> set k)"

definition pipe_inv :: "string \<Rightarrow> pipe_system \<Rightarrow> bool" where
  "pipe_inv p s \<longleftrightarrow>
     pc_cmdPrefix (sys_client s) = p \<and>
     (\<forall>k\<in>set (obj_keys (pc_pending (sys_client s))). CHR '':'' \<in> set k) \<and>
     (\<forall>x\<in>set (pc_waiters (sys_client s)). case x of WaitCommand i c \<Rightarrow> CHR '':'' \<in> set i | WaitResult k r \<Rightarrow> True) \<and>
     (\<forall>d\<in>set (sys_s2c s). answer_key_ok p d) \<and> pc_resolved (sys_client s) = []"

lemma issue_keeps [simp]:
  "pc_cmdPrefix (issue x c) = pc_cmdPrefix c" "pc_requestPrefix (issue x c) = pc_requestPrefix c"
  "pc_waiters (issue x c) = pc_waiters c" "pc_resolved (issue x c) = pc_resolved c"
  by (cases x; simp)+

lemma issue_pending:
  "(case x of WaitCommand i cmd \<Rightarrow> CHR '':'' \<in> set i | WaitResult k r \<Rightarrow> True) \<Longrightarrow>
   \<forall>k\<in>set (obj_keys (pc_pending c)). CHR '':'' \<in> set k \<Longrightarrow>
   \<forall>k\<in>set (obj_keys (pc_pending (issue x c))). CHR '':'' \<in> set k"
  by (cases x) (auto simp: obj_set_keys)

lemma fold_issue:
  "\<forall>x\<in>set xs. case x of WaitCommand i cmd \<Rightarrow> CHR '':'' \<in> set i | WaitResult k r \<Rightarrow> True \<Longrightarrow>
   \<forall>k\<in>set (obj_keys (pc_pending c)). CHR '':'' \<in> set k \<Longrightarrow>
   pc_cmdPrefix (fold issue xs c) = pc_cmdPrefix c \<and> pc_waiters (fold issue xs c) = pc_waiters c \<and>
   pc_resolved (fold issue xs c) = pc_resolved c \<and>
   (\<forall>k\<in>set (obj_keys (pc_pending (fold issue xs c))). CHR '':'' \<in> set k)"
proof (induction xs arbitrary: c)
  case Nil
  then show ?case by simp
next
  case (Cons x xs)
  have "\<forall>k\<in>set (obj_keys (pc_pending (issue x c))). CHR '':'' \<in> set k"
    using Cons.prems by (intro issue_pending) simp_all
  with Cons show ?case by simp
qed

lemma inv_when_connected:
  assumes "pipe_inv p (s\<lparr>sys_client := c\<rparr>)"
    and "case x of WaitCommand i cmd \<Rightarrow> CHR '':'' \<in> set i | WaitResult k r \<Rightarrow> True"
  shows "pipe_inv p (s\<lparr>sys_client := when_connected x c\<rparr>)"
  using assms issue_pending [OF assms(2), of c] by (auto simp: pipe_inv_def when_connected_def)

lemma onData_other_key:
  assumes "answer_key_ok (pc_cmdPrefix c) d" and "\<forall>k\<in>set (obj_keys (pc_pending c)). CHR '':'' \<in> set k"
  shows "onData d c = c"
proof (cases "CHR ''|'' \<in> set (pc_cmdPrefix c)")
  case True
  have "hd (split_char (CHR ''|'') d) \<in> set (split_char (CHR ''|'') d)" by simp
  from split_pieces [OF this] True have "hd (split_char (CHR ''|'') d) \<noteq> pc_cmdPrefix c" by auto
  then show ?thesis by (simp add: onData_def Let_def)
next
  case False
  from assms(1) obtain k b where d: "d = frame (pc_cmdPrefix c) k b" and k: "CHR '':'' \<notin> set k" "CHR ''|'' \<notin> set k"
    by (auto simp: answer_key_ok_def)
  then have "split_char (CHR ''|'') d = pc_cmdPrefix c # k # split_char (CHR ''|'') b"
    using False by (simp add: split_frame)
  moreover have "obj_get (pc_pending c) k = None" using assms(2) k(1) by (auto simp: set_obj_keys)
  ultimately show ?thesis by (simp add: onData_def Let_def)
qed

lemma reply_key_ok:
  "parse_line p line = Command code cmd \<Longrightarrow> answer_key_ok p (reply_line p code body)"
  by (cases code) (auto simp: answer_key_ok_def reply_line_def dest: parse_line_code)

lemma pipe_inv_step: "pipe_step s s' \<Longrightarrow> pipe_inv p s \<Longrightarrow> pipe_inv p s'"
proof (erule pipe_stepE)
  fix cmd assume "pipe_inv p s" and "s' = s\<lparr>sys_client := sendCommand cmd (sys_client s)\<rparr>"
  then show ?thesis
    by (auto simp: sendCommand_def Let_def intro!: inv_when_connected) (auto simp: pipe_inv_def)
next
  fix code r assume "pipe_inv p s" and "s' = s\<lparr>sys_client := sendResult code r (sys_client s)\<rparr>"
  then show ?thesis by (auto simp: sendResult_def intro!: inv_when_connected)
next
  assume "pipe_inv p s" and "s' = s\<lparr>sys_client := onConnect (sys_client s)\<rparr>"
  then show ?thesis
    using fold_issue [of "pc_waiters (sys_client s)" "(sys_client s)\<lparr>pc_isConnected := True, pc_waiters := []\<rparr>"]
    by (auto simp: onConnect_def pipe_inv_def)
next
  fix i assume "pipe_inv p s" and "s' = s\<lparr>sys_client := writeError i (sys_client s)\<rparr>"
  then show ?thesis by (auto simp: writeError_def pipe_inv_def set_obj_keys)
next
  fix line rest code cmd body
  assume "pipe_inv p s" and "parse_line (pc_cmdPrefix (sys_client s)) line = Command code cmd"
    and "s' = s\<lparr>sys_client := (sys_client s)\<lparr>pc_out := rest\<rparr>,
                  sys_s2c := sys_s2c s @ [reply_line (pc_cmdPrefix (sys_client s)) code body]\<rparr>"
  then show ?thesis using reply_key_ok by (auto simp: pipe_inv_def)
next
  fix invokeId body
  assume "pipe_inv p s" and "CHR '':'' \<notin> set invokeId" "CHR ''|'' \<notin> set invokeId"
    and "s' = s\<lparr>sys_s2c := sys_s2c s @ [reply_line (pc_cmdPrefix (sys_client s)) (Some invokeId) body]\<rparr>"
  then show ?thesis by (auto simp: pipe_inv_def answer_key_ok_def reply_line_def)
next
  fix d rest
  assume inv: "pipe_inv p s" and "sys_s2c s = d # rest"
    and s': "s' = s\<lparr>sys_client := onData d (sys_client s), sys_s2c := rest\<rparr>"
  then have "onData d (sys_client s) = sys_client s" by (intro onData_other_key) (auto simp: pipe_inv_def)
  with inv s' \<open>sys_s2c s = d # rest\<close> show ?thesis by (auto simp: pipe_inv_def)
qed (auto simp: pipe_inv_def onClose_def client_close_def heartbeat_def)

lemma pipe_inv_reach: "pipe_reach p r s \<Longrightarrow> pipe_inv p s"
proof (induction rule: pipe_reach.induct)
  case reach_init
  then show ?case by (simp add: pipe_inv_def newPipeClient_def obj_keys_def)
next
  case (reach_step s s')
  then show ?case by (blast intro: pipe_inv_step)
qed

section \<open>Properties\<close>

text \<open>The client resolves a request exactly by a frame with its prefix and its request id, with the
  whole body (separators included), and forgets it; other requests stay pending.\<close>

theorem onData_resolves:
  assumes "CHR ''|'' \<notin> set (pc_cmdPrefix c)" and "CHR ''|'' \<notin> set k" and "obj_get (pc_pending c) k = Some cmd"
  shows "pc_resolved (onData (frame (pc_cmdPrefix c) k body) c) = pc_resolved c @ [(k, body)] \<and>
    (\<forall>k'. obj_get (pc_pending (onData (frame (pc_cmdPrefix c) k body) c)) k' =
       (if k' = k then None else obj_get (pc_pending c) k'))"
  using assms by (simp add: onData_def split_frame join_split Let_def)

theorem onData_resolves_witness:
  "pc_resolved (onData ''abc|x:-1|{a|b}'' (sendCommand ''{}'' (onConnect (newPipeClient ''abc'' ''x'')))) = [(''x:-1'', ''{a|b}'')]"
proof -
  let ?c = "sendCommand ''{}'' (onConnect (newPipeClient ''abc'' ''x''))"
  have one: "show_nat (Suc 0) = ''1''" by (simp add: show_nat.simps digit_char_def char_of_def bit_Suc_0_iff)
  have "pc_cmdPrefix ?c = ''abc''" "obj_get (pc_pending ?c) ''x:-1'' = Some ''{}''" "pc_resolved ?c = []"
    by (simp_all add: sendCommand_def onConnect_def newPipeClient_def when_connected_def show_int_def one Let_def)
  with onData_resolves [of ?c "''x:-1''" "''{}''" "''{a|b}''"] show ?thesis by (simp add: frame_def)
qed

text \<open>C5. No request of a script is ever answered: in no reachable state of client and server has a
  promise of \<open>sendCommand\<close> been resolved. The server replies under the code alone, the client
  waits under \<open>executionId:code\<close>.\<close>

theorem no_command_is_answered:
  assumes "pipe_reach p r s"
  shows "pc_resolved (sys_client s) = []"
  using pipe_inv_reach [OF assms] by (simp add: pipe_inv_def)

theorem no_command_is_answered_witness:
  "\<exists>s. pipe_reach ''abc'' ''x'' s \<and> sys_s2c s \<noteq> [] \<and> pc_resolved (sys_client s) = []"
proof -
  let ?c = "sendCommand ''{}'' (onConnect (newPipeClient ''abc'' ''x''))"
  let ?s = "\<lparr>sys_client = ?c\<lparr>pc_out := []\<rparr>, sys_s2c = [reply_line ''abc'' (Some ''-1'') ''ok'']\<rparr>"
  have one: "show_nat (Suc 0) = ''1''" by (simp add: show_nat.simps digit_char_def char_of_def bit_Suc_0_iff)
  have c: "pc_cmdPrefix ?c = ''abc''" "pc_out ?c = [frame ''abc'' ''x:-1'' ''{}'']"
    by (simp_all add: sendCommand_def onConnect_def newPipeClient_def when_connected_def show_int_def one Let_def)
  have "parse_line ''abc'' (frame ''abc'' ''x:-1'' ''{}'') = Command (Some ''-1'') ''{}''"
    by (simp add: parse_line_def frame_def parse_int_def is_space_def is_digit_def digits_val_def digit_val_def)
  then have "pipe_step \<lparr>sys_client = ?c, sys_s2c = []\<rparr> ?s"
    using step_serve [of "\<lparr>sys_client = ?c, sys_s2c = []\<rparr>" "frame ''abc'' ''x:-1'' ''{}''" "[]" "Some ''-1''" "''{}''" "''ok''"]
    by (simp add: c)
  moreover have "pipe_reach ''abc'' ''x'' \<lparr>sys_client = ?c, sys_s2c = []\<rparr>"
    using reach_step [OF reach_step [OF reach_init [of "''abc''" "''x''"] step_connect] step_command [of _ "''{}''"]] by simp
  ultimately have "pipe_reach ''abc'' ''x'' ?s" by (rule reach_step [rotated])
  from no_command_is_answered [OF this] this show ?thesis by (intro exI [of _ ?s]) simp
qed

end
