(* ===== verification/Invoke.thy ===== *)
theory Invoke
  imports SepChain PipeClient
begin

text \<open>
  \<open>src/invoke/invoke.service.ts\<close>, \<open>src/invoke/script-runner.service.ts\<close> and the checkpoint logic of
  \<open>src/invoke/invoke.subprocess.ts\<close>: invoking one endpoint or a task script that invokes several,
  the callbacks of pending endpoints, freezing and restoring the script's process, and the retry
  loop around it.
\<close>

section \<open>One endpoint\<close>

text \<open>What the invocation of endpoints runs with: the services of the chain and the queue of resumes.\<close>

record 'w invoke_env =
  ie_sep :: "'w sep_env"
  ie_queue :: "(string \<times> json option) list \<Rightarrow> 'w \<Rightarrow> 'w"

type_synonym 'w invoke_out = "'w sep_world \<times> req_event \<times> por option result"

text \<open>
  \<open>_invokeSEP\<close>. The invocation object is shared with the table of the event's context, so the
  state it ends in is stored back; unless the response is pending it is then deleted.
\<close>

definition begin_invocation :: "string option \<Rightarrow> json option \<Rightarrow> string \<Rightarrow> req_ctx \<Rightarrow> invoke_status" where
  "begin_invocation epName args invokeId c =
     (case obj_get (cx_invocations c) invokeId of
        Some st \<Rightarrow> st
      | None \<Rightarrow> \<lparr>is_invokeId = invokeId, is_epName = epName, is_args = args, is_response = None,
                 is_processor = None, is_cacheKey = None, is_cacheTtl = None\<rparr>)"

definition invokeSEP :: "'w invoke_env \<Rightarrow> string option \<Rightarrow> json option \<Rightarrow> string \<Rightarrow> 'w sep_world \<Rightarrow> req_event \<Rightarrow> 'w invoke_out" where
  "invokeSEP env epName args invokeId w e =
     (case ctx_of e of
        Inl err \<Rightarrow> (w, e, Inl err)
      | Inr c \<Rightarrow>
          (let st = begin_invocation epName args invokeId c
           in case chain (ie_sep env) (ie_queue env) w (set_invocation invokeId st e) st of
                (w1, e1, st1, r) \<Rightarrow>
                  (let resp = (case r of Inl _ \<Rightarrow> None | Inr p \<Rightarrow> p);
                       e2 = (if is_pending resp then set_invocation invokeId st1 e1 else del_invocation invokeId e1)
                   in (w1, e2\<lparr>message := (case resp of None \<Rightarrow> None | Some p \<Rightarrow> p_message p)\<rparr>, r))))"

section \<open>A task script in a subprocess\<close>

text \<open>
  The state of a run: the world and the event, the final response or error that the script has
  sent, whether it was frozen, the lines written to it, and the rejections of the asynchronous line
  handler, which nobody catches. \<open>JSON.parse\<close>, \<open>JSON.stringify\<close> and the \<open>criu\<close> and \<open>kill\<close>
  commands are parameters.
\<close>

record 'w script_run =
  sr_world :: "'w sep_world"
  sr_event :: req_event
  sr_final :: "string option"
  sr_error :: "string option"
  sr_frozen :: bool
  sr_writes :: "string list"
  sr_unhandled :: "js_error list"

record 'w proc_env =
  pe_invoke :: "'w invoke_env"
  pe_parse :: "string \<Rightarrow> string + json"
  pe_stringify :: "por option \<Rightarrow> string"
  pe_stringify_json :: "json \<Rightarrow> string"
  pe_freeze :: "path \<Rightarrow> 'w \<Rightarrow> 'w \<times> unit result"

definition json_field :: "string \<Rightarrow> json \<Rightarrow> json option result" where
  "json_field k j = (case j of JNull \<Rightarrow> Inl undefined_property | JObj kvs \<Rightarrow> Inr (obj_get kvs k) | _ \<Rightarrow> Inr None)"

definition json_str :: "json option \<Rightarrow> string option" where
  "json_str j = (case j of Some (JStr s) \<Rightarrow> Some s | _ \<Rightarrow> None)"

definition on_command :: "'w proc_env \<Rightarrow> path \<Rightarrow> string \<Rightarrow> string option \<Rightarrow> string \<Rightarrow> 'w script_run \<Rightarrow> 'w script_run" where
  "on_command env cwd cmdPrefix cmdCode cmdString s =
     (case pe_parse env cmdString of
        Inl m \<Rightarrow> s\<lparr>sr_unhandled := sr_unhandled s @ [PlainError m]\<rparr>
      | Inr j \<Rightarrow>
          (case and_then (json_field ''epName'' j) (\<lambda>ep. and_then (json_field ''args'' j) (\<lambda>a. Inr (ep, a))) of
             Inl err \<Rightarrow> s\<lparr>sr_unhandled := sr_unhandled s @ [err]\<rparr>
           | Inr (ep, a) \<Rightarrow>
               (case invokeSEP (pe_invoke env) (json_str ep) a (case cmdCode of None \<Rightarrow> [] | Some c \<Rightarrow> c) (sr_world s) (sr_event s) of
                  (w, e, Inl err) \<Rightarrow> s\<lparr>sr_world := w, sr_event := e, sr_unhandled := sr_unhandled s @ [err]\<rparr>
                | (w, e, Inr r) \<Rightarrow>
                    if is_pending r then
                      (case pe_freeze env cwd (sw_out w) of
                         (o', Inl err) \<Rightarrow> s\<lparr>sr_world := w\<lparr>sw_out := o'\<rparr>, sr_event := e, sr_unhandled := sr_unhandled s @ [err]\<rparr>
                       | (o', Inr _) \<Rightarrow> s\<lparr>sr_world := w\<lparr>sw_out := o'\<rparr>, sr_event := e, sr_frozen := True\<rparr>)
                    else s\<lparr>sr_world := w, sr_event := e,
                           sr_writes := sr_writes s @ [reply_line cmdPrefix cmdCode (pe_stringify env r)]\<rparr>)))"

definition on_line :: "'w proc_env \<Rightarrow> path \<Rightarrow> string \<Rightarrow> string \<Rightarrow> 'w script_run \<Rightarrow> 'w script_run" where
  "on_line env cwd cmdPrefix line s =
     (case parse_line cmdPrefix line of
        NotOurs \<Rightarrow> s
      | FinalResponse t \<Rightarrow> s\<lparr>sr_final := Some t\<rparr>
      | FinalError t \<Rightarrow> s\<lparr>sr_error := Some t\<rparr>
      | Command code t \<Rightarrow> on_command env cwd cmdPrefix code t s)"

text \<open>The result of a run, from the exit code (\<open>None\<close>: killed by a signal, or unknown) and what was sent.\<close>

definition script_result :: "'w proc_env \<Rightarrow> int option \<Rightarrow> 'w script_run \<Rightarrow> por" where
  "script_result env exitCode s =
     (if exitCode \<noteq> None \<and> exitCode \<noteq> Some 0 \<and> (\<not> sr_frozen s \<or> exitCode \<noteq> Some 137)
      then error_response (Some (''Task Subprocess exited with code '' @ show_int (the exitCode)))
      else if sr_frozen s then pending_response (Some ''Subprocess frozen, waiting for callback'')
      else
        (case sr_final s of
           None \<Rightarrow> error_response (sr_error s)
         | Some t \<Rightarrow>
             if t = [] then data_response (Some (JStr []))
             else (case pe_parse env t of
                     Inr j \<Rightarrow> data_response (Some j)
                   | Inl m \<Rightarrow> error_response (Some (pe_stringify_json env (JArr [JStr t, JStr m]))))))"

text \<open>
  \<open>_spawnOrRestoreSubprocess\<close>. What a script does is any list of lines and an exit code, chosen by
  \<open>script\<close>, which sees how the process was started; \<open>start\<close> is \<open>spawnOrRestore\<close>.
\<close>

datatype started = Spawned | Restored int

type_synonym script = "started \<Rightarrow> string list \<times> int option"

definition spawnOrRestoreSubprocess :: "'w proc_env \<Rightarrow> string \<Rightarrow> (path \<Rightarrow> 'w \<Rightarrow> started result) \<Rightarrow> script \<Rightarrow>
    json option \<Rightarrow> string \<Rightarrow> 'w sep_world \<Rightarrow> req_event \<Rightarrow> 'w invoke_out" where
  "spawnOrRestoreSubprocess env base start script response invokeId w e =
     (if \<not> ev_methods e then (w, e, Inl (TypeError ''reqEvent.getTaskCwd is not a function''))
      else
        (case getTaskCwd base (taskId e) of
           Inl err \<Rightarrow> (w, e, Inl err)
         | Inr cwd \<Rightarrow>
             (let cmdPrefix = drop (length (taskId e) - 3) (taskId e);
                  first = (case response of None \<Rightarrow> []
                           | Some j \<Rightarrow> if truthy j then [reply_line cmdPrefix (Some invokeId) (pe_stringify_json env j)] else [])
              in case start cwd (sw_out w) of
                   Inl err \<Rightarrow> (w, e, Inl err)
                 | Inr how \<Rightarrow>
                     (case script how of (lines, exitCode) \<Rightarrow>
                        (let s = fold (on_line env cwd cmdPrefix) lines
                               \<lparr>sr_world = w, sr_event = e, sr_final = None, sr_error = None, sr_frozen = False,
                                sr_writes = first, sr_unhandled = []\<rparr>
                         in (sr_world s, sr_event s, Inr (Some (script_result env exitCode s))))))))"

section \<open>Freezing and restoring the process\<close>

text \<open>
  The file system as far as it is asked: which paths exist. \<open>criu restore\<close> is a parameter that
  fails with a message or yields the pid.
\<close>

definition checkpointPath :: "string list \<Rightarrow> string list" where
  "checkpointPath cwd = cwd @ [''checkpoint'']"

definition restoreProcess :: "(string list \<Rightarrow> bool) \<Rightarrow> (string list \<Rightarrow> string + int) \<Rightarrow> string list \<Rightarrow> int option result" where
  "restoreProcess exists criu cwd =
     (if \<not> exists (checkpointPath cwd) then Inr None
      else (case criu (checkpointPath cwd) of
              Inl m \<Rightarrow> Inl (PlainError (''restore subprocess failed with code'' @ m))
            | Inr pid \<Rightarrow> if 0 < pid then Inr (Some pid) else Inl (PlainError (''restore pid failed,'' @ show_int pid))))"

definition spawnOrRestore :: "(string list \<Rightarrow> bool) \<Rightarrow> (string list \<Rightarrow> string + int) \<Rightarrow> string list \<Rightarrow> started result" where
  "spawnOrRestore exists criu cwd =
     and_then (restoreProcess exists criu (checkpointPath cwd))
       (\<lambda>p. Inr (case p of None \<Rightarrow> Spawned | Some pid \<Rightarrow> Restored pid))"

text \<open>\<open>freezeProcess\<close>: the dump goes to the checkpoint path; both exit codes are checked afterwards.\<close>

definition freezeProcess :: "(string list \<Rightarrow> int) \<Rightarrow> int \<Rightarrow> string list \<Rightarrow> (string list \<Rightarrow> bool) \<Rightarrow> (string list \<Rightarrow> bool) \<times> unit result" where
  "freezeProcess criu_dump kill_status cwd exists =
     (let pc = criu_dump (checkpointPath cwd);
          exists' = (if pc = 0 then exists(checkpointPath cwd := True) else exists)
      in if pc \<noteq> 0 then (exists', Inl (PlainError ''criu dump failed with code''))
         else if kill_status \<noteq> 0 then (exists', Inl (PlainError ''Kill frozen subprocess failed with code''))
         else (exists', Inr ()))"

section \<open>Invoking and calling back\<close>

type_synonym 'w spawner = "json option \<Rightarrow> string \<Rightarrow> 'w sep_world \<Rightarrow> req_event \<Rightarrow> 'w invoke_out"

definition invokeSEPs :: "'w invoke_env \<Rightarrow> 'w spawner \<Rightarrow> 'w sep_world \<Rightarrow> req_event \<Rightarrow> 'w invoke_out" where
  "invokeSEPs env spawn w e =
     (case ctx_of e of
        Inl err \<Rightarrow> (w, e, Inl err)
      | Inr c \<Rightarrow>
          (case cx_map2 c of
             None \<Rightarrow> (w, e, Inl undefined_property)
           | Some requestArgs \<Rightarrow>
               if nonempty_str (cx_epName c) then invokeSEP env (cx_epName c) requestArgs [] w e
               else spawn None [] w e))"

text \<open>\<open>cls\<close> is the invoke id in the CLS store. The result \<open>Inr None\<close> is \<open>undefined\<close>.\<close>

definition invokeSEPsCallback :: "'w invoke_env \<Rightarrow> 'w spawner \<Rightarrow> string option \<Rightarrow> 'w sep_world \<Rightarrow> req_event \<Rightarrow> 'w invoke_out" where
  "invokeSEPsCallback env spawn cls w e =
     (case cls of
        None \<Rightarrow> (w, e, Inl (PlainError ''invokeId is required for invocation callback''))
      | Some invokeId \<Rightarrow>
          (case ctx_of e of
             Inl err \<Rightarrow> (w, e, Inl err)
           | Inr c \<Rightarrow>
               if obj_get (cx_invocations c) invokeId = None
               then (w, e, Inl (PlainError (''invocation not found for invokeId '' @ invokeId)))
               else
                 (case invokeSEP env None None invokeId w e of
                    (w1, e1, Inl err) \<Rightarrow> (w1, e1, Inl err)
                  | (w1, e1, Inr response) \<Rightarrow>
                      if is_pending response
                      then (w1, e1, Inl (PlainError (''Callback response should not be pending, invokeId='' @ invokeId)))
                      else
                        (case response of
                           None \<Rightarrow> (w1, e1, Inl undefined_property)
                         | Some r \<Rightarrow>
                             if nonempty_str (cx_epName c)
                             then (w1, upd_ctx (\<lambda>c. c\<lparr>cx_resp := por_data r\<rparr>) e1, Inr None)
                             else spawn (por_data r) invokeId w1 e1))))"

section \<open>The script runner\<close>

text \<open>
  \<open>ScriptRunnerService\<close>: the outcome is \<open>undefined\<close> (\<open>None\<close>), or the name to resume with. \<open>fixer\<close> is
  \<open>ScriptAgentService.fixScriptError\<close>. The recursion is bounded by the counter in the context;
  the fuel covers the recursion in the model, and five are enough.
\<close>

type_synonym 'w runner_out = "'w sep_world \<times> req_event \<times> string option result"

type_synonym 'w fixer = "string option \<Rightarrow> 'w sep_world \<Rightarrow> req_event \<Rightarrow> 'w sep_world \<times> req_event \<times> bool result"

fun handleResult :: "nat \<Rightarrow> 'w invoke_env \<Rightarrow> 'w spawner \<Rightarrow> 'w fixer \<Rightarrow> 'w sep_world \<Rightarrow> req_event \<Rightarrow> por option \<Rightarrow> 'w runner_out" where
  "handleResult fuel env spawn fixer w e result =
     (case ctx_of e of
        Inl err \<Rightarrow> (w, e, Inl err)
      | Inr c \<Rightarrow>
          (case result of
             None \<Rightarrow> (w, e, Inl undefined_property)
           | Some r \<Rightarrow>
               if p_status r = Some 2 then (w, e, Inr (Some ''runAndFixCallback''))
               else if p_data r \<noteq> None then (w, upd_ctx (\<lambda>c. c\<lparr>cx_resp := por_data r\<rparr>) e, Inr None)
               else if 3 < cx_retries c
               then (w, e, Inl (PlainError (''Task script failed(3x), error: '' @ str_or (p_message r) ''undefined'')))
               else
                 (case fixer (p_message r) w e of
                    (w1, e1, Inl err) \<Rightarrow> (w1, e1, Inl err)
                  | (w1, e1, Inr False) \<Rightarrow>
                      (w1, e1, Inl (PlainError (''Failed to fix task script, error: '' @ str_or (p_message r) ''undefined'')))
                  | (w1, e1, Inr True) \<Rightarrow>
                      (case fuel of
                         0 \<Rightarrow> (w1, e1, Inl (PlainError ''out of fuel''))
                       | Suc n \<Rightarrow>
                           (case invokeSEPs env spawn w1
                                   (upd_ctx (\<lambda>c'. c'\<lparr>cx_invocations := [], cx_retries := Suc (cx_retries c)\<rparr>) e1) of
                              (w2, e2, Inl err) \<Rightarrow> (w2, e2, Inl err)
                            | (w2, e2, Inr r2) \<Rightarrow> handleResult n env spawn fixer w2 e2 r2)))))"

definition runAndFix :: "nat \<Rightarrow> 'w invoke_env \<Rightarrow> 'w spawner \<Rightarrow> 'w fixer \<Rightarrow> 'w sep_world \<Rightarrow> req_event \<Rightarrow> 'w runner_out" where
  "runAndFix fuel env spawn fixer w e =
     (case invokeSEPs env spawn w e of
        (w1, e1, Inl err) \<Rightarrow> (w1, e1, Inl err)
      | (w1, e1, Inr r) \<Rightarrow> handleResult fuel env spawn fixer w1 e1 r)"

definition runAndFixCallback :: "nat \<Rightarrow> 'w invoke_env \<Rightarrow> 'w spawner \<Rightarrow> 'w fixer \<Rightarrow> string option \<Rightarrow> 'w sep_world \<Rightarrow> req_event \<Rightarrow> 'w runner_out" where
  "runAndFixCallback fuel env spawn fixer cls w e =
     (case invokeSEPsCallback env spawn cls w e of
        (w1, e1, Inl err) \<Rightarrow> (w1, e1, Inl err)
      | (w1, e1, Inr r) \<Rightarrow> handleResult fuel env spawn fixer w1 e1 r)"

declare handleResult.simps [simp del]

text \<open>\<open>ScriptAgentService.fixScriptError\<close> as it is.\<close>

definition fixScriptError :: "'w fixer" where
  "fixScriptError m w e = (w, e, Inr False)"

section \<open>Facts\<close>

text \<open>The core of an event: whether it has its methods, and its retry counter. Steps that keep it.\<close>

definition core :: "req_event \<Rightarrow> bool \<times> nat option" where
  "core e = (ev_methods e, map_option cx_retries (ev_ctx e))"

definition keeps_core :: "('w sep_world \<Rightarrow> req_event \<Rightarrow> 'w sep_world \<times> req_event \<times> 'r) \<Rightarrow> bool" where
  "keeps_core f \<longleftrightarrow> (\<forall>w e. core (fst (snd (f w e))) = core e)"

lemma core_updates [simp]:
  "core (set_invocation i st e) = core e" "core (del_invocation i e) = core e" "core (e\<lparr>message := m\<rparr>) = core e"
  by (auto simp: core_def set_invocation_def del_invocation_def upd_ctx_def option.map_comp comp_def)

lemma invokeSEP_core:
  assumes "env_keeps core (ie_sep env)" and "invokeSEP env ep a i w e = (w1, e1, r)"
  shows "core e1 = core e"
proof (cases "ev_ctx e")
  case None
  with assms(2) show ?thesis by (simp add: invokeSEP_def)
next
  case (Some c)
  obtain w2 e2 st2 r2 where ch: "chain (ie_sep env) (ie_queue env) w
      (set_invocation i (begin_invocation ep a i c) e) (begin_invocation ep a i c) = (w2, e2, st2, r2)"
    by (metis prod_cases4)
  from chain_keeps [OF assms(1) ch] have "core e2 = core e" by simp
  with assms(2) Some ch show ?thesis by (auto simp: invokeSEP_def Let_def split: if_splits)
qed

lemma invokeSEPs_core:
  assumes "env_keeps core (ie_sep env)" and "keeps_core (spawn None [])"
  shows "keeps_core (invokeSEPs env spawn)"
  unfolding keeps_core_def
proof (intro allI)
  fix w e
  obtain w1 e1 r where inv: "invokeSEPs env spawn w e = (w1, e1, r)" by (metis prod_cases3)
  have "core (fst (snd (spawn None [] w e))) = core e" using assms(2) by (simp add: keeps_core_def)
  with inv have "core e1 = core e"
    by (auto simp: invokeSEPs_def dest: invokeSEP_core [OF assms(1)] split: sum.splits option.splits if_splits)
  with inv show "core (fst (snd (invokeSEPs env spawn w e))) = core e" by simp
qed

lemma keeps_coreE:
  assumes "keeps_core f" and "f w e = (w', e', r)" and "ev_ctx e = Some c"
  obtains c' where "ev_ctx e' = Some c'" "cx_retries c' = cx_retries c"
  using assms unfolding keeps_core_def core_def by (metis (no_types, lifting) fst_conv map_option_eq_Some option.simps(9) prod.inject snd_conv)

lemma handleResult_fuel:
  assumes "keeps_core (invokeSEPs env spawn)" and "\<And>m. keeps_core (fixer m)"
    and "ev_ctx e = Some c" and "4 \<le> cx_retries c + n" and "n \<le> k"
  shows "handleResult k env spawn fixer w e r = handleResult n env spawn fixer w e r"
  using assms(3-5)
proof (induction n arbitrary: k w e r c)
  case 0
  then show ?case by (simp add: handleResult.simps [of k] handleResult.simps [of 0] split: option.splits)
next
  case (Suc n)
  then obtain j where k: "k = Suc j" and j: "n \<le> j" by (cases k) auto
  show ?case
  proof (cases r)
    case None
    then show ?thesis using Suc.prems by (simp add: handleResult.simps)
  next
    case (Some r0)
    show ?thesis
    proof (cases "\<exists>w1 e1. fixer (p_message r0) w e = (w1, e1, Inr True)")
      case False
      obtain w1 e1 o1 where fx: "fixer (p_message r0) w e = (w1, e1, o1)" by (metis prod_cases3)
      with False have "o1 \<noteq> Inr True" by blast
      then have "(\<exists>err. o1 = Inl err) \<or> o1 = Inr False" by (cases o1) auto
      then show ?thesis using Suc.prems fx Some by (auto simp: handleResult.simps [of "Suc j"] handleResult.simps [of "Suc n"] k)
    next
      case True
      then obtain w1 e1 where fx: "fixer (p_message r0) w e = (w1, e1, Inr True)" by blast
      obtain c1 where c1: "ev_ctx e1 = Some c1" "cx_retries c1 = cx_retries c"
        using keeps_coreE [OF assms(2) fx Suc.prems(1)] by blast
      let ?e2 = "upd_ctx (\<lambda>c'. c'\<lparr>cx_invocations := [], cx_retries := Suc (cx_retries c)\<rparr>) e1"
      obtain w3 e3 o3 where inv: "invokeSEPs env spawn w1 ?e2 = (w3, e3, o3)" by (metis prod_cases3)
      have "ev_ctx ?e2 = Some (c1\<lparr>cx_invocations := [], cx_retries := Suc (cx_retries c)\<rparr>)" using c1 by simp
      from keeps_coreE [OF assms(1) inv this] obtain c3 where c3: "ev_ctx e3 = Some c3" "cx_retries c3 = Suc (cx_retries c)"
        by auto
      have "handleResult j env spawn fixer w3 e3 r2 = handleResult n env spawn fixer w3 e3 r2" for r2
        using Suc.IH [OF c3(1) _ j] c3(2) Suc.prems(2) by simp
      then show ?thesis using Suc.prems(1) fx inv Some
        by (simp add: handleResult.simps [of "Suc j"] handleResult.simps [of "Suc n"] k split: sum.splits)
    qed
  qed
qed

section \<open>Properties\<close>

text \<open>The table of invocations after a call: the invocation is kept exactly while its response is
  pending; after a response or an error it is gone, so that a late callback finds nothing.\<close>

theorem invokeSEP_table:
  assumes "invokeSEP env epName args i w e = (w', e', r)" and "ev_ctx e' \<noteq> None" and "ev_ctx e \<noteq> None"
  shows "invocation_of e' i \<noteq> None \<longleftrightarrow> (\<exists>p. r = Inr p \<and> is_pending p)"
proof -
  obtain c where c: "ev_ctx e = Some c" using assms(3) by auto
  obtain w1 e1 st1 r1 where ch: "chain (ie_sep env) (ie_queue env) w
      (set_invocation i (begin_invocation epName args i c) e) (begin_invocation epName args i c) = (w1, e1, st1, r1)"
    by (metis prod_cases4)
  let ?resp = "case r1 of Inl _ \<Rightarrow> None | Inr p \<Rightarrow> p"
  have out: "e' = (if is_pending ?resp then set_invocation i st1 e1 else del_invocation i e1)
      \<lparr>message := (case ?resp of None \<Rightarrow> None | Some p \<Rightarrow> p_message p)\<rparr>" "r = r1"
    using assms(1) c ch by (auto simp: invokeSEP_def Let_def)
  show ?thesis
    using out assms(2) by (cases r1) (auto simp: invocation_of_def)
qed

theorem invokeSEP_table_witness:
  "invocation_of (fst (snd (invokeSEP \<lparr>ie_sep = plain_env (Some (pending_response None)) None, ie_queue = ex_queue\<rparr>
      (Some ''GET /pets'') None [] (ex_world []) (ex_event_for (ex_endpoint True (Some (- 1))))))) [] \<noteq> None"
proof -
  let ?env = "\<lparr>ie_sep = plain_env (Some (pending_response None)) None, ie_queue = ex_queue\<rparr>"
  let ?e = "ex_event_for (ex_endpoint True (Some (- 1)))"
  have run: "\<exists>w' e' p. invokeSEP ?env (Some ''GET /pets'') None [] (ex_world []) ?e = (w', e', Inr p) \<and> is_pending p \<and> ev_ctx e' \<noteq> None"
    by (simp add: invokeSEP_def ex_event_for_def ex_ctx_def begin_invocation_def chain_def ex_endpoint_def invoke_chain_def
        plain_env_def process_auth_def proc_ctx_def process_cached_def fromCached_def loadCacheConfig_def reallyCache_def
        process_invoke_def process_postprocess_def process_cache_def enter_proc_def is_at_def advance_def sep_break_def upd_proc_def toCache_def
        set_invocation_def upd_ctx_def ex_world_def Let_def)
  then obtain w' e' p where r: "invokeSEP ?env (Some ''GET /pets'') None [] (ex_world []) ?e = (w', e', Inr p)"
    and p: "is_pending p" and e': "ev_ctx e' \<noteq> None" by blast
  have "ev_ctx ?e \<noteq> None" by (simp add: ex_event_for_def)
  from invokeSEP_table [OF r e' this] p r show ?thesis by auto
qed

text \<open>What a task script's run comes to: a result exactly when the process ended normally, was not
  frozen and sent a final response that parses; pending exactly when it was frozen and then exited
  normally or was killed (137); an error otherwise.\<close>

theorem script_result_cases:
  "(p_data (script_result env exitCode s) \<noteq> None \<longleftrightarrow>
      exitCode \<in> {None, Some 0} \<and> \<not> sr_frozen s \<and> (\<exists>t. sr_final s = Some t \<and> (t = [] \<or> (\<exists>j. pe_parse env t = Inr j)))) \<and>
   (p_status (script_result env exitCode s) = Some 2 \<longleftrightarrow> sr_frozen s \<and> exitCode \<in> {None, Some 0, Some 137}) \<and>
   (p_status (script_result env exitCode s) = Some 1 \<longleftrightarrow>
      p_data (script_result env exitCode s) = None \<and> p_status (script_result env exitCode s) \<noteq> Some 2)"
  by (auto simp: script_result_def split: option.splits sum.splits)

text \<open>A command whose invocation throws gets no answer: nothing is written to the script, which
  waits, and the error is a rejection that nobody handles.\<close>

theorem failing_command_unanswered:
  assumes "parse_line cmdPrefix line = Command code t" and "pe_parse env t = Inr (JObj kvs)"
    and "invokeSEP (pe_invoke env) (json_str (obj_get kvs ''epName'')) (obj_get kvs ''args'')
           (case code of None \<Rightarrow> [] | Some c \<Rightarrow> c) (sr_world s) (sr_event s) = (w, e, Inl err)"
  shows "on_line env cwd cmdPrefix line s = s\<lparr>sr_world := w, sr_event := e, sr_unhandled := sr_unhandled s @ [err]\<rparr>"
  using assms by (simp add: on_line_def on_command_def json_field_def)

definition ex_proc :: "(string \<times> json option) list proc_env" where
  "ex_proc = \<lparr>pe_invoke = \<lparr>ie_sep = plain_env None None, ie_queue = ex_queue\<rparr>,
     pe_parse = (\<lambda>s. Inr (JObj [(''epName'', JStr s)])), pe_stringify = (\<lambda>r. ''r''), pe_stringify_json = (\<lambda>j. ''j''),
     pe_freeze = (\<lambda>p w. (w, Inr ()))\<rparr>"

theorem failing_command_unanswered_witness:
  "\<exists>s'. on_line ex_proc (False, []) ''abc'' ''abc|x:-1|nope''
      \<lparr>sr_world = ex_world [], sr_event = ex_event_for (ex_endpoint False None), sr_final = None, sr_error = None,
       sr_frozen = False, sr_writes = [], sr_unhandled = []\<rparr> = s' \<and> sr_writes s' = [] \<and> length (sr_unhandled s') = 1"
proof -
  let ?s = "\<lparr>sr_world = ex_world [], sr_event = ex_event_for (ex_endpoint False None), sr_final = None, sr_error = None,
       sr_frozen = False, sr_writes = [], sr_unhandled = []\<rparr>"
  have p: "parse_line ''abc'' ''abc|x:-1|nope'' = Command (Some ''-1'') ''nope''"
    by (simp add: parse_line_def parse_int_def is_space_def is_digit_def digits_val_def digit_val_def)
  have pp: "pe_parse ex_proc ''nope'' = Inr (JObj [(''epName'', JStr ''nope'')])" by (simp add: ex_proc_def)
  have "\<exists>w e err. invokeSEP (pe_invoke ex_proc) (json_str (obj_get [(''epName'', JStr ''nope'')] ''epName''))
      (obj_get [(''epName'', JStr ''nope'')] ''args'') (case Some ''-1'' of None \<Rightarrow> [] | Some c \<Rightarrow> c) (sr_world ?s) (sr_event ?s) = (w, e, Inl err)"
    by (simp add: invokeSEP_def ex_event_for_def ex_ctx_def begin_invocation_def chain_def ex_endpoint_def json_str_def
        ex_proc_def set_invocation_def upd_ctx_def Let_def)
  then obtain w e err where "invokeSEP (pe_invoke ex_proc) (json_str (obj_get [(''epName'', JStr ''nope'')] ''epName''))
      (obj_get [(''epName'', JStr ''nope'')] ''args'') (case Some ''-1'' of None \<Rightarrow> [] | Some c \<Rightarrow> c) (sr_world ?s) (sr_event ?s) = (w, e, Inl err)"
    by blast
  then show ?thesis using failing_command_unanswered [OF p pp, of ?s w e err "(False, [])"] by simp
qed

text \<open>A frozen process is never restored: the dump is written to \<open>checkpoint\<close> below the working
  directory, the restore looks for \<open>checkpoint/checkpoint\<close>, so the script is started anew.\<close>

theorem frozen_process_not_restored:
  assumes "freezeProcess criu_dump kill_status cwd exists = (exists', Inr ())"
    and "\<not> exists (cwd @ [''checkpoint'', ''checkpoint''])"
  shows "spawnOrRestore exists' criu cwd = Inr Spawned"
  using assms by (auto simp: freezeProcess_def spawnOrRestore_def restoreProcess_def checkpointPath_def Let_def split: if_splits)

theorem frozen_process_not_restored_witness:
  "spawnOrRestore (fst (freezeProcess (\<lambda>p. 0) 0 [''upload''] (\<lambda>p. False))) (\<lambda>p. Inr 42) [''upload''] = Inr Spawned"
  by (rule frozen_process_not_restored [of "\<lambda>p. 0" 0 _ "\<lambda>p. False"]) (simp_all add: freezeProcess_def Let_def)

text \<open>A script that always fails and a fixer that always claims a fix.\<close>

definition failing_spawn :: "nat spawner" where
  "failing_spawn resp i w e = (w\<lparr>sw_out := Suc (sw_out w)\<rparr>, e, Inr (Some (error_response (Some ''boom''))))"

definition hopeful_fixer :: "nat fixer" where
  "hopeful_fixer m w e = (w, e, Inr True)"

definition ex_task :: req_event where
  "ex_task = (ex_request ''e1'')\<lparr>ev_ctx := Some (ex_ctx\<lparr>cx_map2 := Some None\<rparr>)\<rparr>"

definition ex_invoke_env :: "nat invoke_env" where
  "ex_invoke_env = \<lparr>ie_sep = plain_env None None, ie_queue = (\<lambda>calls w. w)\<rparr>"

lemma invokeSEPs_task:
  "ev_ctx e = Some c \<Longrightarrow> cx_map2 c = Some a \<Longrightarrow> \<not> nonempty_str (cx_epName c) \<Longrightarrow> invokeSEPs env spawn w e = spawn None [] w e"
  by (simp add: invokeSEPs_def)

lemma ex_env_core: "env_keeps core (ie_sep ex_invoke_env)"
  by (simp add: env_keeps_def ex_invoke_env_def plain_env_def)

text \<open>C12. The retry loop ends: the counter in the context bounds it, so four rounds of fuel give the
  result that any larger amount gives.\<close>

theorem runAndFix_terminates:
  assumes "env_keeps core (ie_sep env)" and "keeps_core (spawn None [])" and "\<And>m. keeps_core (fixer m)"
    and "ev_ctx e = Some c" and "4 \<le> k"
  shows "runAndFix k env spawn fixer w e = runAndFix 4 env spawn fixer w e"
proof -
  note inv_core = invokeSEPs_core [of env spawn, OF assms(1,2)]
  obtain w1 e1 o1 where inv: "invokeSEPs env spawn w e = (w1, e1, o1)" by (metis prod_cases3)
  obtain c1 where "ev_ctx e1 = Some c1" using keeps_coreE [OF inv_core inv assms(4)] by blast
  then have "handleResult k env spawn fixer w1 e1 r = handleResult 4 env spawn fixer w1 e1 r" for r
    using handleResult_fuel [OF inv_core assms(3)] assms(5) by simp
  then show ?thesis by (simp add: runAndFix_def inv split: sum.splits)
qed

theorem runAndFix_terminates_witness:
  "runAndFix 9 ex_invoke_env failing_spawn hopeful_fixer (ex_world 0) ex_task = runAndFix 4 ex_invoke_env failing_spawn hopeful_fixer (ex_world 0) ex_task"
  by (rule runAndFix_terminates [where c = "ex_ctx\<lparr>cx_map2 := Some None\<rparr>"])
    (simp_all add: ex_task_def ex_env_core keeps_core_def failing_spawn_def hopeful_fixer_def)

text \<open>A script that keeps failing is run five times (the first run and four retries) before the
  error \<open>failed(3x)\<close>, if the fixer always reports success; with the fixer the program has, which
  never does, the first error of a script is final.\<close>

theorem failing_script_runs:
  assumes "ev_ctx e = Some c" and "cx_map2 c = Some a" and "\<not> nonempty_str (cx_epName c)" and "cx_retries c = 0"
  shows "(\<exists>e'. runAndFix 4 env failing_spawn hopeful_fixer w e =
      (w\<lparr>sw_out := sw_out w + 5\<rparr>, e', Inl (PlainError ''Task script failed(3x), error: boom''))) \<and>
    runAndFix 4 env failing_spawn fixScriptError w e =
      (w\<lparr>sw_out := Suc (sw_out w)\<rparr>, e, Inl (PlainError ''Failed to fix task script, error: boom''))"
proof -
  have round: "handleResult (Suc n) env failing_spawn hopeful_fixer u f (Some (error_response (Some ''boom''))) =
      handleResult n env failing_spawn hopeful_fixer (u\<lparr>sw_out := Suc (sw_out u)\<rparr>)
        (f\<lparr>ev_ctx := Some (d\<lparr>cx_invocations := [], cx_retries := Suc (cx_retries d)\<rparr>)\<rparr>) (Some (error_response (Some ''boom'')))"
    if "ev_ctx f = Some d" "cx_retries d \<le> 3" "cx_map2 d = Some a" "\<not> nonempty_str (cx_epName d)" for n u f d
    using that by (simp add: handleResult.simps [of "Suc n"] hopeful_fixer_def invokeSEPs_def failing_spawn_def upd_ctx_def)
  have stop: "handleResult n env failing_spawn hopeful_fixer u f (Some (error_response (Some ''boom''))) =
      (u, f, Inl (PlainError ''Task script failed(3x), error: boom''))"
    if "ev_ctx f = Some d" "3 < cx_retries d" for n u f d
    using that by (simp add: handleResult.simps)
  have four: "(4::nat) = Suc (Suc (Suc (Suc 0)))" by simp
  have "handleResult 4 env failing_spawn hopeful_fixer u e (Some (error_response (Some ''boom''))) =
      (u\<lparr>sw_out := sw_out u + 4\<rparr>, e\<lparr>ev_ctx := Some (c\<lparr>cx_invocations := [], cx_retries := 4\<rparr>)\<rparr>,
       Inl (PlainError ''Task script failed(3x), error: boom''))" for u
    unfolding four using assms by (simp add: round stop)
  then show ?thesis using assms
    by (simp add: runAndFix_def invokeSEPs_task failing_spawn_def fixScriptError_def handleResult.simps [of 4])
qed

theorem failing_script_runs_witness:
  "sw_out (fst (runAndFix 4 ex_invoke_env failing_spawn hopeful_fixer (ex_world 0) ex_task)) = 5"
proof -
  have "ev_ctx ex_task = Some (ex_ctx\<lparr>cx_map2 := Some None\<rparr>)" by (simp add: ex_task_def)
  from failing_script_runs [OF this, of None ex_invoke_env "ex_world 0"]
  show ?thesis by (auto simp: ex_ctx_def ex_world_def)
qed

text \<open>No resumed request ever completes through its callback: an event loaded from the store has
  lost its methods, so a script cannot be respawned for it, and a direct call (\<open>epName\<close>) answers
  \<open>undefined\<close>, on which the runner throws. The hypothesis says that the services do not
  give the methods back.\<close>

theorem resumed_request_fails:
  assumes "\<not> ev_methods e" and "env_keeps core (ie_sep env)"
  shows "\<exists>err. snd (snd (runAndFixCallback n env (spawnOrRestoreSubprocess penv base start script) fixer cls w e)) = Inl err"
proof (cases cls)
  case None
  then show ?thesis by (simp add: runAndFixCallback_def invokeSEPsCallback_def)
next
  case (Some i)
  show ?thesis
  proof (cases "ev_ctx e")
    case None
    then show ?thesis using Some by (simp add: runAndFixCallback_def invokeSEPsCallback_def invocation_of_def)
  next
    case c: (Some c)
    obtain w1 e1 r where inv: "invokeSEP env None None i w e = (w1, e1, r)" by (metis prod_cases3)
    then have nm: "\<not> ev_methods e1" using invokeSEP_core [OF assms(2)] assms(1) by (metis core_def prod.inject)
    show ?thesis
      using Some c inv nm
      by (cases r; cases "ev_ctx e1")
        (auto simp: runAndFixCallback_def invokeSEPsCallback_def invocation_of_def spawnOrRestoreSubprocess_def
          handleResult.simps split: option.splits)
  qed
qed

theorem resumed_request_fails_witness:
  "\<exists>err. snd (snd (runAndFixCallback 4 ex_invoke_env (spawnOrRestoreSubprocess undefined ''u'' (\<lambda>p w. Inr Spawned) (\<lambda>h. ([], Some 0)))
     hopeful_fixer (Some ''1'') (ex_world 0) (ex_task\<lparr>ev_methods := False\<rparr>))) = Inl err"
  by (rule resumed_request_fails) (simp_all add: ex_env_core)

end
