(* ===== verification/Realms.thy ===== *)
theory Realms
  imports SepChain
begin

text \<open>
  \<open>src/callgent-realms\<close>: the security realms of a callgent, the processors of the two auth types
  (\<open>apiKey\<close> and \<open>http\<close>), and the checks of a request against the securities of its entry and
  endpoint. A list of securities is a disjunction; a security maps realm keys to items.
\<close>

section \<open>Realms and their processors\<close>

datatype auth_type = AT_apiKey | AT_http | AT_other string

record scheme_vo =
  sc_type :: auth_type
  sc_perUser :: bool
  sc_provider :: "string option"
  sc_validationUrl :: "string option"
  sc_name :: "string option"
  sc_in :: "string option"
  sc_scheme :: "string option"

record realm =
  rm_pk :: int
  rm_callgentId :: string
  rm_realmKey :: string
  rm_authType :: auth_type
  rm_realm :: "string option"
  rm_scheme :: scheme_vo
  rm_secret :: "json option"
  rm_perUser :: bool
  rm_enabled :: bool

text \<open>The entry that a security guards. \<open>url_host\<close> stands for \<open>new URL(url).hostname\<close>, \<open>None\<close> where
  the constructor throws.\<close>

datatype entry_type = ET_CLIENT | ET_SERVER | ET_EVENT

record entry =
  ey_id :: string
  ey_type :: entry_type
  ey_host :: "string option"
  ey_callgentId :: string
  ey_securities :: "security_item obj list"

type_synonym url_host = "string \<Rightarrow> string option"

definition provider_url :: "auth_type \<Rightarrow> url_host \<Rightarrow> scheme_vo \<Rightarrow> entry option \<Rightarrow> string list \<Rightarrow> string option" where
  "provider_url aty host scheme ey servers =
     (if nonempty_str (sc_provider scheme) then
        (let url = the (sc_provider scheme)
         in Some (if prefix ''http'' (to_lower url) then url else ''http://'' @ url))
      else
        (case ey of
           Some y \<Rightarrow> if ey_type y \<noteq> ET_CLIENT then ey_host y
                     else if aty = AT_http then (case servers of [] \<Rightarrow> None | u # _ \<Rightarrow> Some u)
                     else find (\<lambda>u. host u \<noteq> None) servers
         | None \<Rightarrow> if aty = AT_http then (case servers of [] \<Rightarrow> None | u # _ \<Rightarrow> Some u)
                   else find (\<lambda>u. host u \<noteq> None) servers))"

definition implyProvider :: "auth_type \<Rightarrow> url_host \<Rightarrow> scheme_vo \<Rightarrow> entry option \<Rightarrow> string list \<Rightarrow> string result" where
  "implyProvider aty host scheme ey servers =
     (let url = provider_url aty host scheme ey servers
      in if \<not> nonempty_str url then Inl (BadRequest ''Cannot imply security provider, please specify it manually'')
         else (case host (the url) of
                 None \<Rightarrow> Inl (BadRequest (''Invalid security provider, must be url: '' @ the url))
               | Some h \<Rightarrow> Inr h))"

definition getRealmKey :: "auth_type \<Rightarrow> scheme_vo \<Rightarrow> string option \<Rightarrow> string" where
  "getRealmKey aty scheme rlm =
     (if aty = AT_http
      then join_char (CHR '':'') [''http'', str_or (sc_scheme scheme) [], str_or (sc_provider scheme) ''undefined'', str_or rlm []]
      else join_char (CHR '':'') [''apiKey'', str_or (sc_in scheme) [], str_or (sc_name scheme) [],
             str_or (sc_provider scheme) ''undefined'', str_or rlm []])"

definition checkEnabled :: "scheme_vo \<Rightarrow> realm \<Rightarrow> bool" where
  "checkEnabled scheme rlm =
     (if \<not> truthy_opt (rm_secret rlm) \<or> \<not> nonempty_str (sc_provider scheme) \<or> \<not> nonempty_str (sc_name scheme) \<or>
         \<not> nonempty_str (sc_in scheme)
      then False
      else (case rm_secret rlm of Some (JStr _) \<Rightarrow> True | _ \<Rightarrow> False))"

text \<open>\<open>moduleRef.get(authType + '-authProcessor')\<close>: there are processors for two types; any other throws.\<close>

definition getAuthProcessor :: "auth_type \<Rightarrow> auth_type result" where
  "getAuthProcessor aty =
     (case aty of AT_other t \<Rightarrow> Inl (PlainError (''Nest could not find '' @ t @ ''-authProcessor element'')) | _ \<Rightarrow> Inr aty)"

text \<open>\<open>constructRealm\<close> mutates the scheme and the realm and returns the realm.\<close>

definition constructRealm :: "auth_type \<Rightarrow> url_host \<Rightarrow> scheme_vo \<Rightarrow> realm \<Rightarrow> entry option \<Rightarrow> string list \<Rightarrow> (scheme_vo \<times> realm) result" where
  "constructRealm aty host scheme rlm ey servers =
     and_then (implyProvider aty host scheme ey servers) (\<lambda>p.
       let scheme1 = scheme\<lparr>sc_provider := Some p\<rparr>
       in Inr (scheme1, rlm\<lparr>rm_realmKey := getRealmKey aty scheme1 (rm_realm rlm), rm_perUser := False,
                            rm_enabled := checkEnabled scheme1 rlm\<rparr>))"

definition constructSecurity :: "url_host \<Rightarrow> realm \<Rightarrow> entry \<Rightarrow> string list \<Rightarrow> security_item result" where
  "constructSecurity host rlm ey scopes =
     and_then (getAuthProcessor (rm_authType rlm)) (\<lambda>aty.
       let attach = (if ey_type ey \<noteq> ET_CLIENT \<and>
                        (case implyProvider aty host ((rm_scheme rlm)\<lparr>sc_provider := None\<rparr>) (Some ey) [] of
                           Inl _ \<Rightarrow> False | Inr p \<Rightarrow> Some p = sc_provider (rm_scheme rlm))
                     then Some True else None)
       in Inr \<lparr>si_realmPk = rm_pk rlm, si_attach = attach, si_scopes = scopes\<rparr>)"

section \<open>Tokens\<close>

text \<open>
  \<open>_attachToken\<close>: the secret goes into the request, as a cookie, a header or a query parameter.
  \<open>enc\<close> is \<open>encodeURIComponent\<close>. A request that is \<open>null\<close> throws.
\<close>

definition json_obj :: "json option \<Rightarrow> json obj" where
  "json_obj j = (case j of Some (JObj kvs) \<Rightarrow> kvs | _ \<Rightarrow> [])"

definition secret_str :: "realm \<Rightarrow> string" where
  "secret_str rlm = (case rm_secret rlm of Some (JStr s) \<Rightarrow> s | _ \<Rightarrow> [])"

definition attachToken :: "(string \<Rightarrow> string) \<Rightarrow> realm \<Rightarrow> json \<Rightarrow> json result" where
  "attachToken enc rlm req =
     (let name = str_or (sc_name (rm_scheme rlm)) ''undefined''; in0 = sc_in (rm_scheme rlm)
      in case req of
           JObj kvs \<Rightarrow>
             (if in0 = Some ''cookie'' then
                (let hs = json_obj (obj_get kvs ''headers'');
                     old = (case obj_get hs ''cookie'' of Some (JStr c) \<Rightarrow> c | _ \<Rightarrow> [])
                 in Inr (JObj (obj_set ''headers'' (JObj (obj_set ''cookie''
                      (JStr (old @ (if old = [] then [] else '';'') @ name @ ''='' @ enc (secret_str rlm))) hs)) kvs)))
              else if in0 = Some ''header'' \<or> in0 = Some ''query'' then
                (let k = (if in0 = Some ''header'' then ''headers'' else ''query''); o1 = json_obj (obj_get kvs k)
                 in Inr (JObj (obj_set k (JObj (case rm_secret rlm of None \<Rightarrow> o1 | Some v \<Rightarrow> obj_set name v o1)) kvs)))
              else Inr req)
         | JNull \<Rightarrow> if in0 \<in> {Some ''cookie'', Some ''header'', Some ''query''}
                    then Inl (TypeError ''Cannot read properties of null'') else Inr req
         | _ \<Rightarrow> Inr req)"

text \<open>\<open>validateToken\<close>: \<open>None\<close> is a token that is not valid. \<open>_validateTokenByUrl\<close> has no code: it
  returns \<open>undefined\<close>, which counts as asynchronous.\<close>

definition validateTokenByUrl :: "bool option" where
  "validateTokenByUrl = None"

definition validateToken :: "(string \<Rightarrow> string) \<Rightarrow> realm \<Rightarrow> req_event \<Rightarrow> req_event \<times> string option option result" where
  "validateToken enc rlm e =
     (case ctx_of e of
        Inl err \<Rightarrow> (e, Inl err)
      | Inr c \<Rightarrow>
          (if (case cx_securityItem c of None \<Rightarrow> False | Some it \<Rightarrow> si_attach it = Some True) then
             (case attachToken enc rlm (cx_req c) of
                Inl err \<Rightarrow> (e, Inl err)
              | Inr req \<Rightarrow> (upd_ctx (\<lambda>c. c\<lparr>cx_req := req\<rparr>) e, Inr (Some None)))
           else if nonempty_str (sc_validationUrl (rm_scheme rlm)) then
             (case validateTokenByUrl of
                Some True \<Rightarrow> (e, Inr (Some None))
              | Some False \<Rightarrow> (e, Inr None)
              | None \<Rightarrow> (e, Inr (Some (Some ''postValidateToken''))))
           else (e, Inl (Unauthorized (''Cannot validate auth token, validationUrl must not empty. callgentId='' @ rm_callgentId rlm)))))"

definition authProcess :: "(string \<Rightarrow> string) \<Rightarrow> realm \<Rightarrow> req_event \<Rightarrow> req_event \<times> string option option result" where
  "authProcess enc rlm e =
     (case validateToken enc rlm e of
        (e1, Inl err) \<Rightarrow> (e1, Inl err)
      | (e1, Inr (Some r)) \<Rightarrow> (e1, Inr (Some r))
      | (e1, Inr None) \<Rightarrow> (e1, Inl (Unauthorized (''Invalid api-key token, callgentId='' @ rm_callgentId rlm))))"

section \<open>Checks\<close>

text \<open>The tables and helpers a check reads: the realms, the stored identities of users, the entries.\<close>

record realm_env =
  re_realms :: "realm list"
  re_identity :: "string \<Rightarrow> string \<Rightarrow> string option"
  re_entry :: "string \<Rightarrow> entry option"
  re_enc :: "string \<Rightarrow> string"

definition findRealm :: "realm list \<Rightarrow> int \<Rightarrow> realm option" where
  "findRealm rs pk = find (\<lambda>r. rm_pk r = pk) rs"

definition loadRealm :: "realm_env \<Rightarrow> security_item \<Rightarrow> bool \<Rightarrow> realm option result" where
  "loadRealm env it noError =
     (case findRealm (re_realms env) (si_realmPk it) of
        None \<Rightarrow> if noError then Inr None else Inl (Unauthorized (''Invalid security realm '' @ show_int (si_realmPk it)))
      | Some r \<Rightarrow>
          if \<not> rm_enabled r then
            (if noError then Inr (Some r) else Inl (Unauthorized (''Invalid security realm '' @ show_int (si_realmPk it))))
          else and_then (getAuthProcessor (rm_authType r)) (\<lambda>_. Inr (Some r)))"

definition findUserToken :: "realm_env \<Rightarrow> realm \<Rightarrow> string option \<Rightarrow> string option" where
  "findUserToken env rlm userId =
     (if nonempty_str userId \<and> sc_perUser (rm_scheme rlm) then re_identity env (the userId) (show_int (rm_pk rlm)) else None)"

text \<open>The outcome of a check: \<open>None\<close> failed, \<open>Some f\<close> passed, with \<open>f\<close> the function to resume.\<close>

type_synonym check_out = "req_event \<times> string option option result"

definition use_token :: "realm_env \<Rightarrow> realm \<Rightarrow> string option \<Rightarrow> req_event \<Rightarrow> check_out" where
  "use_token env r tok e =
     (case tok of
        None \<Rightarrow> authProcess (re_enc env) r e
      | Some _ \<Rightarrow>
          (case validateToken (re_enc env) r e of
             (e1, Inl err) \<Rightarrow> (e1, Inl err)
           | (e1, Inr (Some f)) \<Rightarrow> (e1, Inr (Some f))
           | (e1, Inr None) \<Rightarrow> authProcess (re_enc env) r e1))"

definition checkSecurityItem :: "realm_env \<Rightarrow> security_item \<Rightarrow> req_event \<Rightarrow> check_out" where
  "checkSecurityItem env it e0 =
     (let e = upd_ctx (\<lambda>c. c\<lparr>cx_securityItem := Some it\<rparr>) e0
      in case loadRealm env it True of
           Inl err \<Rightarrow> (e, Inl err)
         | Inr None \<Rightarrow> (e, Inr None)
         | Inr (Some r) \<Rightarrow>
             if \<not> rm_enabled r then (e, Inr None)
             else
               (case ctx_of e of
                  Inl err \<Rightarrow> (e, Inl err)
                | Inr c \<Rightarrow>
                    use_token env r (findUserToken env r (cx_callerId c)) e))"

text \<open>\<open>Object.values\<close> lists integer keys in ascending order; the keys of a security are realm keys.\<close>

fun min_entry :: "(string \<times> 'v) list \<Rightarrow> (int \<times> 'v) option" where
  "min_entry [] = None"
| "min_entry ((k, v) # kvs) =
     (let i = (case parse_int k of None \<Rightarrow> 0 | Some n \<Rightarrow> n)
      in case min_entry kvs of
           None \<Rightarrow> Some (i, v)
         | Some (j, w) \<Rightarrow> if i \<le> j then Some (i, v) else Some (j, w))"

definition first_item :: "security_item obj \<Rightarrow> security_item option" where
  "first_item sec = map_option snd (min_entry sec)"

definition checkSecurity :: "realm_env \<Rightarrow> security_item obj \<Rightarrow> req_event \<Rightarrow> check_out" where
  "checkSecurity env sec e =
     (case first_item sec of
        None \<Rightarrow> (upd_ctx (\<lambda>c. c\<lparr>cx_securityItem := None\<rparr>) e, Inl undefined_property)
      | Some it \<Rightarrow> checkSecurityItem env it e)"

fun check_each :: "realm_env \<Rightarrow> string \<Rightarrow> security_item obj list \<Rightarrow> req_event \<Rightarrow> check_out" where
  "check_each env side [] e = (e, Inl (Unauthorized (''Check '' @ side @ '' authentications failed.'')))"
| "check_each env side (sec # secs) e =
     (case checkSecurity env sec (upd_ctx (\<lambda>c. c\<lparr>cx_security := Some sec\<rparr>) e) of
        (e1, Inl err) \<Rightarrow> (e1, Inl err)
      | (e1, Inr (Some f)) \<Rightarrow> (e1, Inr (Some f))
      | (e1, Inr None) \<Rightarrow> check_each env side secs e1)"

text \<open>\<open>checkSecurities\<close>: here \<open>None\<close> is \<open>undefined\<close>, the result where nothing had to be checked.\<close>

definition checkSecurities :: "realm_env \<Rightarrow> security_item obj list \<Rightarrow> bool \<Rightarrow> req_event \<Rightarrow> check_out" where
  "checkSecurities env securities sep e =
     (if securities = [] then (e, Inr None)
      else check_each env (if sep then ''SEP'' else ''CEP'') securities e)"

definition checkCenAuth :: "realm_env \<Rightarrow> req_event \<Rightarrow> check_out" where
  "checkCenAuth env e =
     (case re_entry env (srcId e) of
        None \<Rightarrow> (e, Inl (NotFound (''Client entry not found, id: '' @ srcId e)))
      | Some cep \<Rightarrow> checkSecurities env (ey_securities cep) False e)"

definition checkSepAuth :: "realm_env \<Rightarrow> endpoint \<Rightarrow> req_event \<Rightarrow> check_out" where
  "checkSepAuth env en e =
     (case checkSecurities env (en_securities en) True e of
        (e1, Inl err) \<Rightarrow> (e1, Inl err)
      | (e1, Inr (Some f)) \<Rightarrow> (e1, Inr (Some f))
      | (e1, Inr None) \<Rightarrow>
          (case re_entry env (en_entryId en) of
             None \<Rightarrow> (e1, Inl undefined_property)
           | Some sen \<Rightarrow> checkSecurities env (ey_securities sen) True e1))"

text \<open>The resume functions delegate to the processor, where all of them throw.\<close>

definition post_delegate :: "realm_env \<Rightarrow> string \<Rightarrow> req_event \<Rightarrow> check_out" where
  "post_delegate env msg e =
     (case ctx_of e of
        Inl err \<Rightarrow> (e, Inl err)
      | Inr c \<Rightarrow>
          (case cx_securityItem c of
             None \<Rightarrow> (e, Inl undefined_property)
           | Some it \<Rightarrow> (e, and_then (loadRealm env it False) (\<lambda>_. Inl (PlainError msg)))))"

definition postValidateToken :: "realm_env \<Rightarrow> req_event \<Rightarrow> check_out" where
  "postValidateToken env = post_delegate env ''Method not implemented.''"

definition postAcquireSecret :: "realm_env \<Rightarrow> req_event \<Rightarrow> check_out" where
  "postAcquireSecret env = post_delegate env ''Not applicable.''"

definition postExchangeToken :: "realm_env \<Rightarrow> req_event \<Rightarrow> check_out" where
  "postExchangeToken env = post_delegate env ''Not applicable.''"

text \<open>
  The methods of the service by name, as the auth processor of the chain calls them: with the
  endpoint and the event. The resume functions take the event as their only parameter, so they
  get the endpoint, which has no context, for it.
\<close>

definition realm_methods :: "realm_env \<Rightarrow> string \<Rightarrow> (endpoint \<Rightarrow> 'w sep_world \<Rightarrow> req_event \<Rightarrow> 'w sep_world \<times> req_event \<times> string option result) option" where
  "realm_methods env name =
     (if name = ''checkSepAuth'' then
        Some (\<lambda>en w e. case checkSepAuth env en e of
                 (e1, Inl err) \<Rightarrow> (w, e1, Inl err)
               | (e1, Inr None) \<Rightarrow> (w, e1, Inr None)
               | (e1, Inr (Some f)) \<Rightarrow> (w, e1, Inr f))
      else if name \<in> {''postValidateToken'', ''postAcquireSecret'', ''postExchangeToken''} then
        Some (\<lambda>en w e. (w, e, Inl undefined_property))
      else None)"

section \<open>The realm tables\<close>

text \<open>The realms with their unique index on callgent and key, and the entries and endpoints whose
  securities name them by primary key.\<close>

record realm_db =
  rd_realms :: "realm list"
  rd_nextPk :: int
  rd_entries :: "entry list"
  rd_endpoints :: "endpoint list"

definition find_by_key :: "realm_db \<Rightarrow> string \<Rightarrow> string \<Rightarrow> realm option" where
  "find_by_key db callgentId realmKey =
     find (\<lambda>r. rm_callgentId r = callgentId \<and> rm_realmKey r = realmKey) (rd_realms db)"

definition unique_violation :: js_error where
  "unique_violation = PlainError ''Unique constraint failed on the fields: (`callgentId`,`realmKey`)''"

definition insertRealm :: "realm \<Rightarrow> realm_db \<Rightarrow> (realm_db \<times> realm) result" where
  "insertRealm rlm db =
     (if find_by_key db (rm_callgentId rlm) (rm_realmKey rlm) \<noteq> None then Inl unique_violation
      else (let r = rlm\<lparr>rm_pk := rd_nextPk db\<rparr>
            in Inr (db\<lparr>rd_realms := rd_realms db @ [r], rd_nextPk := rd_nextPk db + 1\<rparr>, r)))"

definition replaceRealm :: "realm \<Rightarrow> realm_db \<Rightarrow> (realm_db \<times> realm) result" where
  "replaceRealm rlm db =
     (if \<exists>r\<in>set (rd_realms db). rm_pk r \<noteq> rm_pk rlm \<and> rm_callgentId r = rm_callgentId rlm \<and> rm_realmKey r = rm_realmKey rlm
      then Inl unique_violation
      else Inr (db\<lparr>rd_realms := map (\<lambda>r. if rm_pk r = rm_pk rlm then rlm else r) (rd_realms db)\<rparr>, rlm))"

definition createRealm :: "url_host \<Rightarrow> realm \<Rightarrow> realm_db \<Rightarrow> (realm_db \<times> realm) result" where
  "createRealm host rlm db =
     and_then (getAuthProcessor (rm_authType rlm)) (\<lambda>aty.
     and_then (constructRealm aty host (rm_scheme rlm) rlm None []) (\<lambda>(scheme, r).
       insertRealm (r\<lparr>rm_scheme := scheme\<rparr>) db))"

text \<open>\<open>upsertRealm\<close>: the given realm is partial, a field that is absent is not written. The look-up of
  an existing realm comes before the first write, so that the upserts of one batch, which start
  together, all look before any of them writes.\<close>

record realm_patch =
  rp_pk :: "int option"
  rp_realm :: "string option"
  rp_secret :: "json option"

definition no_patch :: realm_patch where
  "no_patch = \<lparr>rp_pk = None, rp_realm = None, rp_secret = None\<rparr>"

definition patched_realm :: "string \<Rightarrow> scheme_vo \<Rightarrow> realm_patch \<Rightarrow> realm" where
  "patched_realm callgentId scheme p =
     \<lparr>rm_pk = 0, rm_callgentId = callgentId, rm_realmKey = [], rm_authType = sc_type scheme, rm_realm = rp_realm p, rm_scheme = scheme,
      rm_secret = rp_secret p, rm_perUser = False, rm_enabled = False\<rparr>"

definition upsertLook :: "url_host \<Rightarrow> entry \<Rightarrow> scheme_vo \<Rightarrow> realm_patch \<Rightarrow> string list \<Rightarrow> realm_db \<Rightarrow> (realm \<times> realm option) result" where
  "upsertLook host ey scheme p servers db =
     and_then (getAuthProcessor (sc_type scheme)) (\<lambda>aty.
     and_then (constructRealm aty host scheme (patched_realm (ey_callgentId ey) scheme p) (Some ey) servers) (\<lambda>(scheme1, r0).
       let r = r0\<lparr>rm_scheme := scheme1\<rparr>
       in Inr (r, find (\<lambda>x. (rm_callgentId x = ey_callgentId ey \<and> rm_realmKey x = rm_realmKey r) \<or> Some (rm_pk x) = rp_pk p) (rd_realms db))))"

definition upsertWrite :: "realm_patch \<Rightarrow> realm \<times> realm option \<Rightarrow> realm_db \<Rightarrow> (realm_db \<times> realm) result" where
  "upsertWrite p found db =
     (case found of
        (r, Some x) \<Rightarrow>
          replaceRealm (r\<lparr>rm_pk := rm_pk x, rm_callgentId := rm_callgentId x,
            rm_realm := (if rp_realm p = None then rm_realm x else rp_realm p),
            rm_secret := (if rp_secret p = None then rm_secret x else rp_secret p)\<rparr>) db
      | (r, None) \<Rightarrow> insertRealm (r\<lparr>rm_realm := (if rp_realm p = None then Some [] else rp_realm p)\<rparr>) db)"

definition upsertRealm :: "url_host \<Rightarrow> entry \<Rightarrow> scheme_vo \<Rightarrow> realm_patch \<Rightarrow> string list \<Rightarrow> realm_db \<Rightarrow> (realm_db \<times> realm) result" where
  "upsertRealm host ey scheme p servers db = and_then (upsertLook host ey scheme p servers db) (\<lambda>found. upsertWrite p found db)"

text \<open>\<open>update\<close>: the scheme of the request, if it has one, and \<open>patch\<close>, which sets its other fields.\<close>

definition updateRealm :: "url_host \<Rightarrow> string \<Rightarrow> string \<Rightarrow> scheme_vo option \<Rightarrow> (realm \<Rightarrow> realm) \<Rightarrow> realm_db \<Rightarrow> (realm_db \<times> realm) result" where
  "updateRealm host callgentId realmKey newScheme patch db =
     (case find_by_key db callgentId realmKey of
        None \<Rightarrow>
          (case newScheme of
             None \<Rightarrow> Inl (BadRequest ''realm.scheme is required'')
           | Some s \<Rightarrow> and_then (getAuthProcessor (sc_type s)) (\<lambda>aty.
               and_then (implyProvider aty host s None []) (\<lambda>_. Inl (PlainError ''Record to update not found.''))))
      | Some old \<Rightarrow>
          (let scheme0 = (case newScheme of None \<Rightarrow> rm_scheme old | Some s \<Rightarrow> s);
               dto = (patch old)\<lparr>rm_scheme := scheme0, rm_authType := sc_type scheme0\<rparr>
           in and_then (getAuthProcessor (rm_authType dto)) (\<lambda>aty.
              and_then (constructRealm aty host scheme0 dto None []) (\<lambda>(scheme, r).
                replaceRealm (r\<lparr>rm_scheme := scheme, rm_pk := rm_pk old, rm_callgentId := callgentId\<rparr>) db))))"

text \<open>The SQL of \<open>delete\<close>: securities lose the key, and go when they become empty.\<close>

definition scrub :: "string \<Rightarrow> security_item obj list \<Rightarrow> security_item obj list" where
  "scrub pk secs = filter (\<lambda>s. s \<noteq> []) (map (obj_del pk) secs)"

definition mentions :: "string \<Rightarrow> security_item obj list \<Rightarrow> bool" where
  "mentions pk secs \<longleftrightarrow> (\<exists>s\<in>set secs. obj_get s pk \<noteq> None)"

definition deleteRealm :: "string \<Rightarrow> string \<Rightarrow> realm_db \<Rightarrow> (realm_db \<times> realm) result" where
  "deleteRealm callgentId realmKey db =
     (case find_by_key db callgentId realmKey of
        None \<Rightarrow> Inl (PlainError ''Record to delete does not exist.'')
      | Some r \<Rightarrow>
          (let pk = show_int (rm_pk r)
           in Inr (db\<lparr>rd_realms := filter (\<lambda>x. rm_pk x \<noteq> rm_pk r) (rd_realms db),
                     rd_entries := map (\<lambda>y. if ey_callgentId y = callgentId \<and> mentions pk (ey_securities y)
                                            then y\<lparr>ey_securities := scrub pk (ey_securities y)\<rparr> else y) (rd_entries db),
                     rd_endpoints := map (\<lambda>n. if en_callgentId n = callgentId \<and> mentions pk (en_securities n)
                                              then n\<lparr>en_securities := scrub pk (en_securities n)\<rparr> else n) (rd_endpoints db)\<rparr>, r)))"

text \<open>\<open>updateSecurities\<close> of an entry: every form item becomes a security of its own.\<close>

definition securities_of :: "url_host \<Rightarrow> realm_db \<Rightarrow> entry \<Rightarrow> (string \<times> string list) list \<Rightarrow> security_item obj list result" where
  "securities_of host db ey forms =
     map_result (\<lambda>(key, scopes).
       case find_by_key db (ey_callgentId ey) key of
         None \<Rightarrow> Inl (NotFound ''Not found realm'')
       | Some r \<Rightarrow> and_then (constructSecurity host r ey scopes) (\<lambda>sec. Inr [(show_int (si_realmPk sec), sec)])) forms"

definition updateSecurities :: "url_host \<Rightarrow> string \<Rightarrow> (string \<times> string list) list \<Rightarrow> realm_db \<Rightarrow> realm_db result" where
  "updateSecurities host entryId forms db =
     (case find (\<lambda>y. ey_id y = entryId) (rd_entries db) of
        None \<Rightarrow> Inl (NotFound ''Not found entry'')
      | Some ey \<Rightarrow> and_then (securities_of host db ey forms) (\<lambda>secs.
          Inr (db\<lparr>rd_entries := map (\<lambda>y. if ey_id y = entryId then y\<lparr>ey_securities := secs\<rparr> else y) (rd_entries db)\<rparr>)))"

section \<open>Facts\<close>

definition realm_db_ok :: "realm_db \<Rightarrow> bool" where
  "realm_db_ok db \<longleftrightarrow> distinct (map rm_pk (rd_realms db)) \<and> list_all (\<lambda>r. rm_pk r < rd_nextPk db) (rd_realms db) \<and>
     distinct (map (\<lambda>r. (rm_callgentId r, rm_realmKey r)) (rd_realms db))"

lemma insertRealm_ok: "realm_db_ok db \<Longrightarrow> insertRealm rlm db = Inr (db', r) \<Longrightarrow> realm_db_ok db'"
  by (auto simp: realm_db_ok_def insertRealm_def find_by_key_def list_all_iff find_None_iff Let_def split: if_splits) (force+)?

lemma replaceRealm_ok:
  assumes "realm_db_ok db" and "replaceRealm rlm db = Inr (db', r)" and "\<exists>x\<in>set (rd_realms db). rm_pk x = rm_pk rlm"
  shows "realm_db_ok db'"
proof -
  let ?g = "\<lambda>r. if rm_pk r = rm_pk rlm then rlm else r"
  have fresh: "\<not> (\<exists>r\<in>set (rd_realms db). rm_pk r \<noteq> rm_pk rlm \<and> rm_callgentId r = rm_callgentId rlm \<and> rm_realmKey r = rm_realmKey rlm)"
    and db': "db' = db\<lparr>rd_realms := map ?g (rd_realms db)\<rparr>"
    using assms(2) by (auto simp: replaceRealm_def split: if_splits)
  have pks: "map rm_pk (map ?g rs) = map rm_pk rs" for rs by (induction rs) auto
  have "distinct (map (\<lambda>r. (rm_callgentId r, rm_realmKey r)) rs) \<Longrightarrow> distinct (map rm_pk rs) \<Longrightarrow> set rs \<subseteq> set (rd_realms db) \<Longrightarrow>
      distinct (map (\<lambda>r. (rm_callgentId r, rm_realmKey r)) (map ?g rs))" for rs
  proof (induction rs)
    case Nil
    then show ?case by simp
  next
    case (Cons x rs)
    then show ?case using fresh by (auto simp: image_iff split: if_splits)
  qed
  then have "distinct (map (\<lambda>r. (rm_callgentId r, rm_realmKey r)) (map ?g (rd_realms db)))"
    using assms(1) by (simp add: realm_db_ok_def)
  moreover have "list_all (\<lambda>r. rm_pk r < rd_nextPk db) (map ?g (rd_realms db))"
    using assms(1,3) by (auto simp: realm_db_ok_def list_all_iff)
  ultimately show ?thesis using assms(1) unfolding realm_db_ok_def db' by (simp add: pks del: map_map)
qed

lemma upsertLook_found: "upsertLook host ey scheme p servers db = Inr (r, Some x) \<Longrightarrow> x \<in> set (rd_realms db)"
  by (auto simp: upsertLook_def outcome_simps find_Some_iff Let_def)

lemma upsertWrite_ok:
  assumes "realm_db_ok db" and "upsertWrite p (r0, ex) db = Inr (db', r)" and "\<And>x. ex = Some x \<Longrightarrow> rm_pk x \<in> rm_pk ` set (rd_realms db)"
  shows "realm_db_ok db'"
proof (cases ex)
  case None
  with assms(2) show ?thesis by (auto simp: upsertWrite_def intro: insertRealm_ok [OF assms(1)])
next
  case (Some x)
  with assms(2,3) show ?thesis
    by (auto simp: upsertWrite_def intro!: replaceRealm_ok [OF assms(1)])
qed

lemma find_by_key_in: "find_by_key db c k = Some r \<Longrightarrow> r \<in> set (rd_realms db) \<and> rm_callgentId r = c \<and> rm_realmKey r = k"
  by (auto simp: find_by_key_def find_Some_iff)

lemma scrub_get: "s \<in> set (scrub pk secs) \<Longrightarrow> obj_get s pk = None"
  by (auto simp: scrub_def)

lemma scrubbed: "s \<in> set (if mentions pk secs then scrub pk secs else secs) \<Longrightarrow> obj_get s pk = None"
  by (cases "mentions pk secs") (simp_all add: scrub_get, simp add: mentions_def)

lemma scrub_empty: "(\<And>s. s \<in> set secs \<Longrightarrow> set (obj_keys s) \<subseteq> {pk}) \<Longrightarrow> scrub pk secs = []"
  by (force simp: scrub_def filter_empty_conv obj_del_def obj_keys_def AList.delete_eq)

lemma ev_ctx_set_item [simp]:
  "ev_ctx (upd_ctx (\<lambda>c. c\<lparr>cx_securityItem := x\<rparr>) e) = map_option (\<lambda>c. c\<lparr>cx_securityItem := x\<rparr>) (ev_ctx e)"
  by simp

text \<open>The request of an event, and what validation does to it.\<close>

definition request_of :: "req_event \<Rightarrow> json option" where
  "request_of e = map_option cx_req (ev_ctx e)"

definition may_attach :: "realm_env \<Rightarrow> security_item \<Rightarrow> bool" where
  "may_attach env it \<longleftrightarrow> si_attach it = Some True \<and>
     (\<exists>r. findRealm (re_realms env) (si_realmPk it) = Some r \<and> rm_enabled r)"

lemma request_of_upd [simp]:
  "request_of (upd_ctx (\<lambda>c. c\<lparr>cx_securityItem := x\<rparr>) e) = request_of e"
  "request_of (upd_ctx (\<lambda>c. c\<lparr>cx_security := y\<rparr>) e) = request_of e"
  by (simp_all add: request_of_def option.map_comp comp_def)

lemma validateToken_request:
  assumes "validateToken enc r e = (e1, o1)" and "ev_ctx e = Some c"
    and "\<not> (\<exists>it. cx_securityItem c = Some it \<and> si_attach it = Some True)"
  shows "e1 = e"
  using assms by (auto simp: validateToken_def validateTokenByUrl_def split: option.splits sum.splits if_splits)

lemma use_token_request:
  assumes "use_token env r tok e = (e1, o1)" and "ev_ctx e = Some c"
    and "\<not> (\<exists>it. cx_securityItem c = Some it \<and> si_attach it = Some True)"
  shows "e1 = e"
proof -
  have v: "validateToken enc r e = (e2, o2) \<Longrightarrow> e2 = e" for enc e2 o2
    by (rule validateToken_request [OF _ assms(2,3)])
  have a: "authProcess enc r e = (e2, o2) \<Longrightarrow> e2 = e" for enc e2 o2
    by (auto simp: authProcess_def dest: v split: option.splits sum.splits prod.splits)
  show ?thesis
    using assms(1) by (auto simp: use_token_def dest: v a split: option.splits sum.splits prod.splits)
qed

lemma checkSecurityItem_cases:
  obtains (disabled) "snd (checkSecurityItem env it e) = Inr None"
      "fst (checkSecurityItem env it e) = upd_ctx (\<lambda>c. c\<lparr>cx_securityItem := Some it\<rparr>) e"
      "\<not> (\<exists>r. findRealm (re_realms env) (si_realmPk it) = Some r \<and> rm_enabled r)"
  | (unknown) err where "snd (checkSecurityItem env it e) = Inl err"
      "fst (checkSecurityItem env it e) = upd_ctx (\<lambda>c. c\<lparr>cx_securityItem := Some it\<rparr>) e"
  | (token) r c where "findRealm (re_realms env) (si_realmPk it) = Some r" "rm_enabled r" "ev_ctx e = Some c"
      "checkSecurityItem env it e = use_token env r (findUserToken env r (cx_callerId c)) (upd_ctx (\<lambda>c. c\<lparr>cx_securityItem := Some it\<rparr>) e)"
proof (cases "\<exists>r. findRealm (re_realms env) (si_realmPk it) = Some r \<and> rm_enabled r")
  case False
  then show ?thesis
    by (intro disabled; cases "findRealm (re_realms env) (si_realmPk it)")
      (auto simp: checkSecurityItem_def loadRealm_def Let_def)
next
  case True
  then obtain r where r: "findRealm (re_realms env) (si_realmPk it) = Some r" "rm_enabled r" by blast
  show ?thesis
  proof (cases "getAuthProcessor (rm_authType r)")
    case (Inl err)
    with r show ?thesis by (intro unknown [of err]) (simp_all add: checkSecurityItem_def loadRealm_def Let_def)
  next
    case (Inr t)
    show ?thesis
    proof (cases "ev_ctx e")
      case None
      with r Inr show ?thesis
        by (intro unknown) (simp_all add: checkSecurityItem_def loadRealm_def Let_def)
    next
      case (Some c)
      with r Inr show ?thesis by (intro token) (simp_all add: checkSecurityItem_def loadRealm_def Let_def)
    qed
  qed
qed

lemma checkSecurityItem_request:
  assumes "checkSecurityItem env it e = (e1, o1)" and "\<not> may_attach env it"
  shows "request_of e1 = request_of e"
proof (cases rule: checkSecurityItem_cases [where env = env and it = it and e = e])
  case disabled
  with assms(1) show ?thesis by simp
next
  case (unknown err)
  with assms(1) show ?thesis by simp
next
  case (token r c)
  then have "si_attach it \<noteq> Some True" using assms(2) by (simp add: may_attach_def)
  then have "e1 = upd_ctx (\<lambda>c. c\<lparr>cx_securityItem := Some it\<rparr>) e"
    using token assms(1)
    by (intro use_token_request [of env r "findUserToken env r (cx_callerId c)" _ e1 o1 "c\<lparr>cx_securityItem := Some it\<rparr>"]) simp_all
  then show ?thesis by simp
qed

lemma check_each_request:
  assumes "\<And>sec it. sec \<in> set secs \<Longrightarrow> first_item sec = Some it \<Longrightarrow> \<not> may_attach env it"
  shows "check_each env side secs e = (e1, o1) \<Longrightarrow> request_of e1 = request_of e"
  using assms
proof (induction secs arbitrary: e)
  case Nil
  then show ?case by simp
next
  case (Cons sec secs)
  obtain e2 o2 where cs: "checkSecurity env sec (upd_ctx (\<lambda>c. c\<lparr>cx_security := Some sec\<rparr>) e) = (e2, o2)" by (metis prod.exhaust)
  have e2: "request_of e2 = request_of e"
  proof (cases "first_item sec")
    case None
    with cs show ?thesis by (auto simp: checkSecurity_def)
  next
    case (Some it)
    have "\<not> may_attach env it" by (rule Cons.prems(2) [OF _ Some]) simp
    with cs Some show ?thesis by (auto simp: checkSecurity_def dest: checkSecurityItem_request)
  qed
  have rest: "check_each env side secs e2 = (e1, o1) \<Longrightarrow> request_of e1 = request_of e2"
    by (rule Cons.IH) (assumption, rule Cons.prems(2), simp_all)
  show ?case
    using Cons.prems(1) cs e2 rest by (cases o2) (auto split: option.splits)
qed

text \<open>Alternatives whose realm is gone or disabled are passed over.\<close>

definition is_disabled :: "realm_env \<Rightarrow> security_item obj \<Rightarrow> bool" where
  "is_disabled env sec \<longleftrightarrow> (\<exists>it. first_item sec = Some it \<and>
     \<not> (\<exists>r. findRealm (re_realms env) (si_realmPk it) = Some r \<and> rm_enabled r))"

lemma check_disabled:
  assumes "is_disabled env sec"
  shows "\<exists>it. checkSecurity env sec e = (upd_ctx (\<lambda>c. c\<lparr>cx_securityItem := Some it\<rparr>) e, Inr None)"
proof -
  obtain it where it: "first_item sec = Some it"
    and none: "\<not> (\<exists>r. findRealm (re_realms env) (si_realmPk it) = Some r \<and> rm_enabled r)"
    using assms by (auto simp: is_disabled_def)
  have "checkSecurityItem env it e = (upd_ctx (\<lambda>c. c\<lparr>cx_securityItem := Some it\<rparr>) e, Inr None)"
    using none by (cases "findRealm (re_realms env) (si_realmPk it)") (simp_all add: checkSecurityItem_def loadRealm_def Let_def)
  then show ?thesis using it by (auto simp: checkSecurity_def)
qed

lemma check_each_disabled:
  assumes "\<And>sec. sec \<in> set pre \<Longrightarrow> is_disabled env sec" and "ev_ctx e = Some c"
  shows "\<exists>c'. check_each env side (pre @ secs) e = check_each env side secs (e\<lparr>ev_ctx := Some c'\<rparr>) \<and>
    cx_req c' = cx_req c \<and> cx_callerId c' = cx_callerId c"
  using assms
proof (induction pre arbitrary: e c)
  case Nil
  have "e\<lparr>ev_ctx := Some c\<rparr> = e" using Nil.prems(2) by simp
  then show ?case by (intro exI [of _ c]) simp
next
  case (Cons sec pre)
  let ?e1 = "upd_ctx (\<lambda>c. c\<lparr>cx_security := Some sec\<rparr>) e"
  have "is_disabled env sec" using Cons.prems(1) by simp
  then obtain it where it: "checkSecurity env sec ?e1 = (upd_ctx (\<lambda>c. c\<lparr>cx_securityItem := Some it\<rparr>) ?e1, Inr None)"
    using check_disabled by blast
  let ?e2 = "upd_ctx (\<lambda>c. c\<lparr>cx_securityItem := Some it\<rparr>) ?e1"
  have "ev_ctx ?e2 = Some (c\<lparr>cx_security := Some sec, cx_securityItem := Some it\<rparr>)" using Cons.prems(2) by simp
  from Cons.IH [OF _ this] Cons.prems(1) obtain c' where
    "check_each env side (pre @ secs) ?e2 = check_each env side secs (?e2\<lparr>ev_ctx := Some c'\<rparr>)" "cx_req c' = cx_req c" "cx_callerId c' = cx_callerId c"
    by auto
  moreover have "?e2\<lparr>ev_ctx := Some c'\<rparr> = e\<lparr>ev_ctx := Some c'\<rparr>" by (simp add: upd_ctx_def)
  ultimately show ?case using it by (intro exI [of _ c']) simp
qed

definition ex_realm :: "string option \<Rightarrow> bool \<Rightarrow> realm" where
  "ex_realm vurl enabled =
     \<lparr>rm_pk = 7, rm_callgentId = ''cg'', rm_realmKey = ''apiKey:header:x-key:api.com:'', rm_authType = AT_apiKey, rm_realm = None,
      rm_scheme = \<lparr>sc_type = AT_apiKey, sc_perUser = False, sc_provider = Some ''api.com'', sc_validationUrl = vurl,
                   sc_name = Some ''x-key'', sc_in = Some ''header'', sc_scheme = None\<rparr>,
      rm_secret = Some (JStr ''s3cret''), rm_perUser = False, rm_enabled = enabled\<rparr>"

definition ex_realm_env :: "realm list \<Rightarrow> realm_env" where
  "ex_realm_env rs = \<lparr>re_realms = rs, re_identity = (\<lambda>u p. None), re_entry = (\<lambda>i. None), re_enc = (\<lambda>s. s)\<rparr>"

definition ex_item :: "int \<Rightarrow> bool option \<Rightarrow> security_item" where
  "ex_item pk a = \<lparr>si_realmPk = pk, si_attach = a, si_scopes = []\<rparr>"

definition ex_call :: "json \<Rightarrow> req_event" where
  "ex_call req = (ex_request ''e1'')\<lparr>ev_ctx := Some (ex_ctx\<lparr>cx_req := req\<rparr>)\<rparr>"

section \<open>Properties\<close>

text \<open>C15. The secret of a realm enters a request only on purpose: unless the first realm of some
  security is enabled and its item says \<open>attach\<close>, a check leaves the request as it was, whatever
  its outcome.\<close>

theorem no_secret_without_attach:
  assumes "checkSecurities env secs sep e = (e1, out)"
    and "\<And>sec it. sec \<in> set secs \<Longrightarrow> first_item sec = Some it \<Longrightarrow> \<not> may_attach env it"
  shows "request_of e1 = request_of e"
proof (cases "secs = []")
  case True
  with assms(1) show ?thesis by (simp add: checkSecurities_def)
next
  case False
  with assms(1) have "check_each env (if sep then ''SEP'' else ''CEP'') secs e = (e1, out)" by (simp add: checkSecurities_def)
  then show ?thesis by (rule check_each_request [rotated]) (rule assms(2))
qed

theorem no_secret_without_attach_witness:
  "request_of (fst (checkSecurities (ex_realm_env [ex_realm None True]) [[(''7'', ex_item 7 None)]] False (ex_call (JObj [])))) = Some (JObj [])"
proof -
  obtain e1 out where r: "checkSecurities (ex_realm_env [ex_realm None True]) [[(''7'', ex_item 7 None)]] False (ex_call (JObj [])) = (e1, out)"
    by (metis prod.exhaust)
  have "request_of e1 = request_of (ex_call (JObj []))"
    by (rule no_secret_without_attach [OF r]) (auto simp: may_attach_def first_item_def ex_item_def Let_def)
  moreover have "request_of (ex_call (JObj [])) = Some (JObj [])" by (simp add: ex_call_def request_of_def)
  ultimately show ?thesis by (simp only: r fst_conv)
qed

text \<open>The securities are alternatives: those whose realm is gone or disabled are passed over, the
  first enabled one with \<open>attach\<close> puts its secret into the header it names, and the check
  passes without looking at the rest.\<close>

theorem first_enabled_security_attaches:
  assumes "\<And>sec. sec \<in> set pre \<Longrightarrow> is_disabled env sec" and "ev_ctx e = Some c" and "cx_req c = JObj kvs"
    and "first_item sec = Some it" and "si_attach it = Some True"
    and "findRealm (re_realms env) (si_realmPk it) = Some r" and "rm_enabled r" and "rm_authType r \<in> {AT_apiKey, AT_http}"
    and "sc_in (rm_scheme r) = Some ''header''" and "sc_name (rm_scheme r) = Some (n # ns)" and "rm_secret r = Some (JStr tok)"
  shows "\<exists>e1. checkSecurities env (pre @ sec # post) sep e = (e1, Inr (Some None)) \<and>
    request_of e1 = Some (JObj (obj_set ''headers'' (JObj (obj_set (n # ns) (JStr tok) (json_obj (obj_get kvs ''headers'')))) kvs))"
proof -
  let ?side = "if sep then ''SEP'' else ''CEP''"
  obtain c' where c': "check_each env ?side (pre @ sec # post) e = check_each env ?side (sec # post) (e\<lparr>ev_ctx := Some c'\<rparr>)"
    and req: "cx_req c' = JObj kvs" using check_each_disabled [OF assms(1,2)] assms(3) by metis
  have v: "\<exists>e1. validateToken enc r (upd_ctx (\<lambda>c. c\<lparr>cx_securityItem := Some it\<rparr>) (upd_ctx (\<lambda>c. c\<lparr>cx_security := Some sec\<rparr>) (e\<lparr>ev_ctx := Some c'\<rparr>)))
      = (e1, Inr (Some None)) \<and> request_of e1 = Some (JObj (obj_set ''headers'' (JObj (obj_set (n # ns) (JStr tok) (json_obj (obj_get kvs ''headers'')))) kvs))" for enc
    using assms(5,9-11) req by (simp add: validateToken_def attachToken_def request_of_def Let_def)
  have load: "loadRealm env it True = Inr (Some r)"
    using assms(6-8) by (auto simp: loadRealm_def getAuthProcessor_def)
  have "\<exists>e1. checkSecurityItem env it (upd_ctx (\<lambda>c. c\<lparr>cx_security := Some sec\<rparr>) (e\<lparr>ev_ctx := Some c'\<rparr>)) = (e1, Inr (Some None)) \<and>
      request_of e1 = Some (JObj (obj_set ''headers'' (JObj (obj_set (n # ns) (JStr tok) (json_obj (obj_get kvs ''headers'')))) kvs))"
    using load assms(7) v [of "re_enc env"]
    by (auto simp: checkSecurityItem_def use_token_def authProcess_def Let_def split: option.splits)
  then show ?thesis using c' assms(4) by (auto simp: checkSecurities_def checkSecurity_def)
qed

theorem first_enabled_security_attaches_witness:
  "\<exists>e1. checkSecurities (ex_realm_env [ex_realm None True]) ([[(''5'', ex_item 5 None)]] @ [(''7'', ex_item 7 (Some True))] # []) True (ex_call (JObj [])) = (e1, Inr (Some None)) \<and>
    request_of e1 = Some (JObj (obj_set ''headers'' (JObj (obj_set (CHR ''x'' # ''-key'') (JStr ''s3cret'') (json_obj (obj_get [] ''headers'')))) []))"
  by (rule first_enabled_security_attaches [where it = "ex_item 7 (Some True)" and r = "ex_realm None True" and c = "ex_ctx\<lparr>cx_req := JObj []\<rparr>"])
    (auto simp: is_disabled_def first_item_def ex_item_def ex_realm_def ex_realm_env_def findRealm_def ex_call_def Let_def)

text \<open>Validation by URL never completes: such a check is answered with \<open>postValidateToken\<close> to
  resume, and every resume function of the realm service throws, from the listeners as from the
  processor chain.\<close>

theorem url_validation_never_completes:
  assumes "cx_securityItem c = Some it" and "si_attach it \<noteq> Some True" and "ev_ctx e = Some c"
    and "nonempty_str (sc_validationUrl (rm_scheme r))"
  shows "validateToken enc r e = (e, Inr (Some (Some ''postValidateToken''))) \<and>
    (\<forall>e'. \<exists>err. snd (postValidateToken env e') = Inl err) \<and>
    (\<forall>w e' f en. realm_methods env ''postValidateToken'' = Some f \<longrightarrow> snd (snd (f en w e')) = Inl undefined_property)"
proof -
  have "\<exists>err. and_then x (\<lambda>_. Inl m) = Inl err" for x :: "realm option result" and m
    by (cases x) auto
  then have "\<exists>err. snd (postValidateToken env e') = Inl err" for e'
    by (cases "ev_ctx e'") (auto simp: postValidateToken_def post_delegate_def split: option.splits)
  moreover have "validateToken enc r e = (e, Inr (Some (Some ''postValidateToken'')))"
    using assms by (simp add: validateToken_def validateTokenByUrl_def)
  moreover have "snd (snd (f en w e')) = Inl undefined_property" if "realm_methods env ''postValidateToken'' = Some f" for w e' f en
    using that by (auto simp: realm_methods_def)
  ultimately show ?thesis by blast
qed

theorem url_validation_never_completes_witness:
  "snd (validateToken (\<lambda>s. s) (ex_realm (Some ''https://v'') True)
     ((ex_call JNull)\<lparr>ev_ctx := Some (ex_ctx\<lparr>cx_securityItem := Some (ex_item 7 None)\<rparr>)\<rparr>)) = Inr (Some (Some ''postValidateToken''))"
proof -
  let ?e = "(ex_call JNull)\<lparr>ev_ctx := Some (ex_ctx\<lparr>cx_securityItem := Some (ex_item 7 None)\<rparr>)\<rparr>"
  have "cx_securityItem (ex_ctx\<lparr>cx_securityItem := Some (ex_item 7 None)\<rparr>) = Some (ex_item 7 None)"
      "si_attach (ex_item 7 None) \<noteq> Some True" "ev_ctx ?e = Some (ex_ctx\<lparr>cx_securityItem := Some (ex_item 7 None)\<rparr>)"
      "nonempty_str (sc_validationUrl (rm_scheme (ex_realm (Some ''https://v'') True)))"
    by (simp_all add: ex_item_def ex_realm_def)
  from url_validation_never_completes [OF this, of "\<lambda>s. s" "ex_realm_env []"]
  have "validateToken (\<lambda>s. s) (ex_realm (Some ''https://v'') True) ?e = (?e, Inr (Some (Some ''postValidateToken'')))" ..
  then show ?thesis by (simp only: snd_conv)
qed

text \<open>Deleting a realm removes its key from every security of the callgent's entries and endpoints
  and drops securities that become empty; an entry whose securities all rested on that realm is
  then open: a check with its securities passes for everyone.\<close>

theorem deleteRealm_scrubs:
  assumes "deleteRealm cg key db = Inr (db', r)"
  shows "(\<forall>y\<in>set (rd_entries db'). ey_callgentId y = cg \<longrightarrow> (\<forall>s\<in>set (ey_securities y). obj_get s (show_int (rm_pk r)) = None)) \<and>
    (\<forall>n\<in>set (rd_endpoints db'). en_callgentId n = cg \<longrightarrow> (\<forall>s\<in>set (en_securities n). obj_get s (show_int (rm_pk r)) = None)) \<and>
    (\<forall>y\<in>set (rd_entries db). ey_callgentId y = cg \<longrightarrow> ey_securities y \<noteq> [] \<longrightarrow>
       (\<forall>s\<in>set (ey_securities y). obj_keys s = [show_int (rm_pk r)]) \<longrightarrow>
       y\<lparr>ey_securities := []\<rparr> \<in> set (rd_entries db') \<and> (\<forall>env e. checkSecurities env [] False e = (e, Inr None)))"
proof -
  let ?pk = "show_int (rm_pk r)"
  have db': "rd_entries db' = map (\<lambda>y. if ey_callgentId y = cg \<and> mentions ?pk (ey_securities y)
        then y\<lparr>ey_securities := scrub ?pk (ey_securities y)\<rparr> else y) (rd_entries db)"
      "rd_endpoints db' = map (\<lambda>n. if en_callgentId n = cg \<and> mentions ?pk (en_securities n)
        then n\<lparr>en_securities := scrub ?pk (en_securities n)\<rparr> else n) (rd_endpoints db)"
    using assms by (auto simp: deleteRealm_def Let_def split: option.splits)
  have opened: "y\<lparr>ey_securities := []\<rparr> \<in> set (rd_entries db')"
    if y: "y \<in> set (rd_entries db)" "ey_callgentId y = cg" "ey_securities y \<noteq> []"
      "\<forall>s\<in>set (ey_securities y). obj_keys s = [?pk]" for y
  proof -
    have "scrub ?pk (ey_securities y) = []" using y(4) by (intro scrub_empty) simp
    moreover have "mentions ?pk (ey_securities y)"
    proof -
      obtain s where "s \<in> set (ey_securities y)" using y(3) by (meson ex_in_conv set_empty)
      then have "s \<in> set (ey_securities y)" "?pk \<in> set (obj_keys s)" using y(4) by auto
      then show ?thesis by (auto simp: mentions_def set_obj_keys)
    qed
    ultimately show ?thesis using y(1,2) by (force simp: db'(1))
  qed
  have ys: "\<forall>y\<in>set (rd_entries db'). ey_callgentId y = cg \<longrightarrow> (\<forall>s\<in>set (ey_securities y). obj_get s ?pk = None)"
  proof (intro ballI impI)
    fix y s assume mem: "y \<in> set (rd_entries db')" and cg: "ey_callgentId y = cg" and s: "s \<in> set (ey_securities y)"
    from mem obtain z where z: "y = (if ey_callgentId z = cg \<and> mentions ?pk (ey_securities z)
        then z\<lparr>ey_securities := scrub ?pk (ey_securities z)\<rparr> else z)" unfolding db'(1) set_map by (rule imageE)
    have "ey_callgentId z = cg" using z cg by (auto split: if_splits)
    then have "ey_securities y = (if mentions ?pk (ey_securities z) then scrub ?pk (ey_securities z) else ey_securities z)"
      unfolding z by simp
    with s show "obj_get s ?pk = None" using scrubbed by metis
  qed
  have ns: "\<forall>n\<in>set (rd_endpoints db'). en_callgentId n = cg \<longrightarrow> (\<forall>s\<in>set (en_securities n). obj_get s ?pk = None)"
  proof (intro ballI impI)
    fix n s assume mem: "n \<in> set (rd_endpoints db')" and cg: "en_callgentId n = cg" and s: "s \<in> set (en_securities n)"
    from mem obtain z where z: "n = (if en_callgentId z = cg \<and> mentions ?pk (en_securities z)
        then z\<lparr>en_securities := scrub ?pk (en_securities z)\<rparr> else z)" unfolding db'(2) set_map by (rule imageE)
    have "en_callgentId z = cg" using z cg by (auto split: if_splits)
    then have "en_securities n = (if mentions ?pk (en_securities z) then scrub ?pk (en_securities z) else en_securities z)"
      unfolding z by simp
    with s show "obj_get s ?pk = None" using scrubbed by metis
  qed
  have "\<forall>env e. checkSecurities env [] False e = (e, Inr None)" by (simp add: checkSecurities_def)
  then have os: "\<forall>y\<in>set (rd_entries db). ey_callgentId y = cg \<longrightarrow> ey_securities y \<noteq> [] \<longrightarrow>
       (\<forall>s\<in>set (ey_securities y). obj_keys s = [?pk]) \<longrightarrow>
       y\<lparr>ey_securities := []\<rparr> \<in> set (rd_entries db') \<and> (\<forall>env e. checkSecurities env [] False e = (e, Inr None))"
    using opened by simp
  show ?thesis by (rule conjI [OF ys conjI [OF ns os]])
qed

theorem deleteRealm_scrubs_witness:
  "\<exists>db' r. deleteRealm ''cg'' ''apiKey:header:x-key:api.com:''
      \<lparr>rd_realms = [ex_realm None True], rd_nextPk = 8,
       rd_entries = [\<lparr>ey_id = ''y'', ey_type = ET_CLIENT, ey_host = None, ey_callgentId = ''cg'',
         ey_securities = [[(show_int 7, ex_item 7 None)]]\<rparr>], rd_endpoints = []\<rparr> = Inr (db', r) \<and>
     \<lparr>ey_id = ''y'', ey_type = ET_CLIENT, ey_host = None, ey_callgentId = ''cg'', ey_securities = []\<rparr> \<in> set (rd_entries db')"
proof -
  let ?y = "\<lparr>ey_id = ''y'', ey_type = ET_CLIENT, ey_host = None, ey_callgentId = ''cg'',
         ey_securities = [[(show_int 7, ex_item 7 None)]]\<rparr>"
  let ?db = "\<lparr>rd_realms = [ex_realm None True], rd_nextPk = 8, rd_entries = [?y], rd_endpoints = []\<rparr>"
  obtain db' where d: "deleteRealm ''cg'' ''apiKey:header:x-key:api.com:'' ?db = Inr (db', ex_realm None True)"
    by (simp add: deleteRealm_def find_by_key_def ex_realm_def Let_def)
  from deleteRealm_scrubs [OF d]
  have "?y\<lparr>ey_securities := []\<rparr> \<in> set (rd_entries db')" by (simp add: obj_keys_def ex_realm_def)
  with d show ?thesis by auto
qed

text \<open>Creating, upserting, updating and deleting realms keeps the table's keys: one realm per callgent
  and realm key, fresh primary keys.\<close>

theorem realm_operations_keep_keys:
  assumes "realm_db_ok db"
  shows "(createRealm host rlm db = Inr (db', r) \<longrightarrow> realm_db_ok db') \<and>
    (upsertRealm host ey scheme p servers db = Inr (db', r) \<longrightarrow> realm_db_ok db') \<and>
    (updateRealm host cg key newScheme patch db = Inr (db', r) \<longrightarrow> realm_db_ok db') \<and>
    (deleteRealm cg key db = Inr (db', r) \<longrightarrow> realm_db_ok db')"
proof (intro conjI impI)
  assume "createRealm host rlm db = Inr (db', r)"
  then show "realm_db_ok db'" using insertRealm_ok [OF assms] by (auto simp: createRealm_def outcome_simps)
next
  assume "upsertRealm host ey scheme p servers db = Inr (db', r)"
  then show "realm_db_ok db'" by (auto simp: upsertRealm_def outcome_simps intro!: upsertWrite_ok [OF assms] dest: upsertLook_found)
next
  assume "updateRealm host cg key newScheme patch db = Inr (db', r)"
  then show "realm_db_ok db'"
    by (auto simp: updateRealm_def outcome_simps Let_def split: option.splits)
      (rule replaceRealm_ok [OF assms], assumption, drule find_by_key_in, force)+
next
  assume "deleteRealm cg key db = Inr (db', r)"
  then show "realm_db_ok db'"
    using assms by (auto simp: deleteRealm_def realm_db_ok_def Let_def list_all_iff distinct_map_filter split: option.splits)
qed

theorem realm_operations_keep_keys_witness:
  "\<exists>db' r. createRealm (\<lambda>u. Some u) (ex_realm None True) \<lparr>rd_realms = [], rd_nextPk = 1, rd_entries = [], rd_endpoints = []\<rparr> = Inr (db', r) \<and>
     realm_db_ok db'"
proof -
  let ?db = "\<lparr>rd_realms = [], rd_nextPk = 1, rd_entries = [], rd_endpoints = []\<rparr>"
  obtain db' r where c: "createRealm (\<lambda>u. Some u) (ex_realm None True) ?db = Inr (db', r)"
    by (simp add: createRealm_def getAuthProcessor_def constructRealm_def implyProvider_def provider_url_def ex_realm_def
        insertRealm_def find_by_key_def to_lower_def lower_char_def Let_def)
  have "realm_db_ok ?db" by (simp add: realm_db_ok_def)
  from realm_operations_keep_keys [OF this, of "\<lambda>u. Some u" "ex_realm None True" db' r] c show ?thesis by blast
qed

end
