(* ===== verification/AuthTokens.thy ===== *)
theory AuthTokens
  imports Utils
begin

text \<open>
  \<open>src/auth-tokens/auth-tokens.service.ts\<close>: tokens that are issued with a payload, verified (once
  or any number of times) and revoked. Times are milliseconds; a payload's \<open>exp\<close> is in seconds.
\<close>

section \<open>The table and the service\<close>

datatype token_type = TT_JWT | TT_API_KEY

record jwt_payload =
  jp_jti :: "string option"
  jp_exp :: "int option"
  jp_sub :: "string option"
  jp_resetPwd :: bool
  jp_create :: bool
  jp_userId :: "string option"

record auth_token =
  tk_pk :: int
  tk_token :: string
  tk_type :: token_type
  tk_payload :: "jwt_payload option"
  tk_revoked :: bool
  tk_expiresAt :: "int option"

record token_db =
  td_tokens :: "auth_token list"
  td_next :: int

definition find_token :: "token_db \<Rightarrow> string \<Rightarrow> auth_token option" where
  "find_token db t = find (\<lambda>r. tk_token r = t) (td_tokens db)"

definition insert_token :: "auth_token \<Rightarrow> token_db \<Rightarrow> token_db result" where
  "insert_token r db =
     (if find_token db (tk_token r) \<noteq> None
      then Inl (PlainError ''Unique constraint failed on the fields: (`token`)'')
      else Inr \<lparr>td_tokens = td_tokens db @ [r\<lparr>tk_pk := td_next db\<rparr>], td_next = td_next db + 1\<rparr>)"

text \<open>\<open>fresh\<close> is the value of \<open>Utils.uuid({ raw: true })\<close>; it is used when the payload has no \<open>jti\<close>.
  An \<open>exp\<close> of 0 counts as none.\<close>

definition issue_token :: "string \<Rightarrow> int \<Rightarrow> jwt_payload \<Rightarrow> token_type \<Rightarrow> token_db \<Rightarrow> (token_db \<times> string) result" where
  "issue_token fresh now p ty db =
     (let token = str_or (jp_jti p) fresh;
          expiresAt = (case jp_exp p of None \<Rightarrow> None | Some s \<Rightarrow> if s = 0 then None else Some (now + s * 1000))
      in and_then (insert_token \<lparr>tk_pk = 0, tk_token = token, tk_type = ty, tk_payload = Some (p\<lparr>jp_jti := Some token\<rparr>),
                      tk_revoked = False, tk_expiresAt = expiresAt\<rparr> db)
           (\<lambda>db'. Inr (db', token)))"

text \<open>\<open>authToken.expiresAt < new Date()\<close>: a \<open>null\<close> counts as 0 in the comparison.\<close>

definition token_expired :: "int \<Rightarrow> auth_token \<Rightarrow> bool" where
  "token_expired now r \<longleftrightarrow> (case tk_expiresAt r of None \<Rightarrow> 0 | Some x \<Rightarrow> x) < now"

definition drop_token :: "int \<Rightarrow> token_db \<Rightarrow> token_db" where
  "drop_token pk db = db\<lparr>td_tokens := filter (\<lambda>r. tk_pk r \<noteq> pk) (td_tokens db)\<rparr>"

text \<open>The payload column of a token that was only revoked holds \<open>{}\<close> (\<open>None\<close>); such a row is revoked,
  so its payload is never returned.\<close>

definition verify_token :: "int \<Rightarrow> string \<Rightarrow> token_type \<Rightarrow> bool \<Rightarrow> token_db \<Rightarrow> token_db \<times> jwt_payload option" where
  "verify_token now t ty once db =
     (case find (\<lambda>r. tk_token r = t \<and> tk_type r = ty) (td_tokens db) of
        None \<Rightarrow> (db, None)
      | Some r \<Rightarrow>
          (let expired = token_expired now r;
               db' = (if once \<or> expired then drop_token (tk_pk r) db else db)
           in (db', if \<not> expired \<and> \<not> tk_revoked r then tk_payload r else None)))"

definition mark_revoked :: "string \<Rightarrow> auth_token \<Rightarrow> auth_token" where
  "mark_revoked t r = (if tk_token r = t then r\<lparr>tk_revoked := True\<rparr> else r)"

lemma mark_revoked_fields [simp]:
  "tk_token (mark_revoked t r) = tk_token r" "tk_pk (mark_revoked t r) = tk_pk r"
  "tk_revoked (mark_revoked t r) \<longleftrightarrow> tk_token r = t \<or> tk_revoked r"
  by (simp_all add: mark_revoked_def)

definition revoke_token :: "string \<Rightarrow> token_type \<Rightarrow> token_db \<Rightarrow> token_db result" where
  "revoke_token t ty db =
     (if ty = TT_JWT then
        (case find_token db t of
           Some _ \<Rightarrow> Inr (db\<lparr>td_tokens := map (mark_revoked t) (td_tokens db)\<rparr>)
         | None \<Rightarrow> insert_token \<lparr>tk_pk = 0, tk_token = t, tk_type = ty, tk_payload = None, tk_revoked = True, tk_expiresAt = None\<rparr> db)
      else
        (case find_token db t of
           None \<Rightarrow> Inl (PlainError ''Record to delete does not exist.'')
         | Some r \<Rightarrow> Inr (drop_token (tk_pk r) db)))"

section \<open>The operations as a machine\<close>

text \<open>A run of the service: any interleaving of its operations, each with its outcome.\<close>

datatype token_op =
    Issue string int jwt_payload token_type
  | Verify int string token_type bool
  | Revoke string token_type

fun token_step :: "token_op \<Rightarrow> token_db \<Rightarrow> token_db \<times> jwt_payload option" where
  "token_step (Issue fresh now p ty) db = (case issue_token fresh now p ty db of Inl _ \<Rightarrow> (db, None) | Inr (db', _) \<Rightarrow> (db', None))"
| "token_step (Verify now t ty once) db = verify_token now t ty once db"
| "token_step (Revoke t ty) db = (case revoke_token t ty db of Inl _ \<Rightarrow> (db, None) | Inr db' \<Rightarrow> (db', None))"

fun token_run :: "token_op list \<Rightarrow> token_db \<Rightarrow> token_db \<times> (token_op \<times> jwt_payload option) list" where
  "token_run [] db = (db, [])"
| "token_run (x # xs) db =
     (let (db1, r) = token_step x db; (db2, rs) = token_run xs db1 in (db2, (x, r) # rs))"

definition token_db_ok :: "token_db \<Rightarrow> bool" where
  "token_db_ok db \<longleftrightarrow> distinct (map tk_token (td_tokens db)) \<and> distinct (map tk_pk (td_tokens db)) \<and>
     (\<forall>r\<in>set (td_tokens db). tk_pk r < td_next db)"

section \<open>Lemmas\<close>

lemma find_token_None: "find_token db t = None \<longleftrightarrow> t \<notin> tk_token ` set (td_tokens db)"
  by (auto simp: find_token_def find_None_iff)

lemma find_token_Some: "find_token db t = Some r \<Longrightarrow> r \<in> set (td_tokens db) \<and> tk_token r = t"
  by (auto simp: find_token_def find_Some_iff in_set_conv_nth)

lemma insert_token_ok: "token_db_ok db \<Longrightarrow> insert_token r db = Inr db' \<Longrightarrow> token_db_ok db'"
  by (force simp: insert_token_def token_db_ok_def find_token_None split: if_splits)

lemma drop_token_ok: "token_db_ok db \<Longrightarrow> token_db_ok (drop_token pk db)"
  by (auto simp: token_db_ok_def drop_token_def distinct_map intro: inj_on_subset)

lemma drop_token_gone:
  assumes "token_db_ok db" "r \<in> set (td_tokens db)"
  shows "find_token (drop_token (tk_pk r) db) (tk_token r) = None"
  using assms by (auto simp: find_token_None token_db_ok_def drop_token_def distinct_map dest: inj_onD)

lemma drop_token_keeps_absent: "find_token db t = None \<Longrightarrow> find_token (drop_token pk db) t = None"
  by (auto simp: find_token_None drop_token_def)

lemma revoke_row [simp]:
  "tk_token \<circ> mark_revoked t = tk_token"
  "tk_pk \<circ> mark_revoked t = tk_pk"
  by (simp_all add: fun_eq_iff)

lemma revoke_token_ok: "token_db_ok db \<Longrightarrow> revoke_token t ty db = Inr db' \<Longrightarrow> token_db_ok db'"
  by (auto simp: revoke_token_def drop_token_ok dest: insert_token_ok split: if_splits option.splits)
    (auto simp: token_db_ok_def)

lemma issue_token_ok: "token_db_ok db \<Longrightarrow> issue_token fresh now p ty db = Inr (db', t) \<Longrightarrow> token_db_ok db'"
  by (auto simp: issue_token_def Let_def outcome_simps dest: insert_token_ok)

lemma verify_token_ok: "token_db_ok db \<Longrightarrow> token_db_ok (fst (verify_token now t ty once db))"
  by (auto simp: verify_token_def Let_def drop_token_ok split: option.splits)

lemma token_step_ok: "token_db_ok db \<Longrightarrow> token_db_ok (fst (token_step x db))"
  by (cases x) (auto simp: verify_token_ok dest: issue_token_ok revoke_token_ok split: sum.splits)

text \<open>A dead token: no row of it can be used.\<close>

definition token_dead :: "string \<Rightarrow> token_db \<Rightarrow> bool" where
  "token_dead t db \<longleftrightarrow> (\<forall>r\<in>set (td_tokens db). tk_token r = t \<longrightarrow> tk_revoked r)"

fun issues :: "string \<Rightarrow> token_op \<Rightarrow> bool" where
  "issues t (Issue fresh now p ty) \<longleftrightarrow> str_or (jp_jti p) fresh = t"
| "issues t _ \<longleftrightarrow> False"

fun uses :: "string \<Rightarrow> token_op \<times> jwt_payload option \<Rightarrow> bool" where
  "uses t (Verify now s ty once, r) \<longleftrightarrow> s = t \<and> r \<noteq> None"
| "uses t _ \<longleftrightarrow> False"

fun uses_up :: "string \<Rightarrow> token_op \<times> jwt_payload option \<Rightarrow> bool" where
  "uses_up t (Verify now s ty once, r) \<longleftrightarrow> s = t \<and> once \<and> r \<noteq> None"
| "uses_up t _ \<longleftrightarrow> False"

fun kills :: "string \<Rightarrow> token_op \<Rightarrow> bool" where
  "kills t (Verify now s ty once) \<longleftrightarrow> s = t \<and> once"
| "kills t (Revoke s ty) \<longleftrightarrow> s = t"
| "kills t _ \<longleftrightarrow> False"

lemma find_None_dead: "find_token db t = None \<Longrightarrow> token_dead t db"
  by (auto simp: find_token_None token_dead_def)

lemma dead_insert: "token_dead t db \<Longrightarrow> insert_token r db = Inr db' \<Longrightarrow> tk_token r = t \<Longrightarrow> tk_revoked r \<Longrightarrow> token_dead t db'"
  by (auto simp: insert_token_def token_dead_def split: if_splits)

lemma dead_insert_other: "token_dead t db \<Longrightarrow> insert_token r db = Inr db' \<Longrightarrow> tk_token r \<noteq> t \<Longrightarrow> token_dead t db'"
  by (auto simp: insert_token_def token_dead_def split: if_splits)

lemma dead_drop: "token_dead t db \<Longrightarrow> token_dead t (drop_token pk db)"
  by (auto simp: token_dead_def drop_token_def)

lemma dead_update:
  assumes "token_dead t db \<or> s = t"
  shows "token_dead t (db\<lparr>td_tokens := map (mark_revoked s) (td_tokens db)\<rparr>)"
  using assms unfolding token_dead_def by auto

lemma dead_revoke:
  assumes "revoke_token s ty db = Inr db'" "token_dead t db"
  shows "token_dead t db'"
proof (cases "ty = TT_JWT")
  case True
  show ?thesis
  proof (cases "find_token db s")
    case None
    with True assms(1) have i: "insert_token \<lparr>tk_pk = 0, tk_token = s, tk_type = ty, tk_payload = None,
        tk_revoked = True, tk_expiresAt = None\<rparr> db = Inr db'" by (simp add: revoke_token_def)
    show ?thesis
    proof (cases "s = t")
      case True
      show ?thesis by (rule dead_insert [OF assms(2) i]) (simp_all add: True)
    next
      case False
      show ?thesis by (rule dead_insert_other [OF assms(2) i]) (simp add: False)
    qed
  next
    case (Some r)
    with True assms show ?thesis by (auto simp: revoke_token_def dead_update)
  qed
next
  case False
  with assms show ?thesis by (auto simp: revoke_token_def dead_drop split: option.splits)
qed

lemma revoke_kills:
  assumes "token_db_ok db" "revoke_token t ty db = Inr db'"
  shows "token_dead t db'"
proof (cases "find_token db t")
  case None
  then have "token_dead t db" by (rule find_None_dead)
  with assms(2) show ?thesis by (rule dead_revoke)
next
  case (Some r)
  then have r: "r \<in> set (td_tokens db)" "tk_token r = t" by (auto dest: find_token_Some)
  show ?thesis
  proof (cases "ty = TT_JWT")
    case True
    with Some assms(2) have d: "db' = db\<lparr>td_tokens := map (mark_revoked t) (td_tokens db)\<rparr>"
      by (simp add: revoke_token_def)
    show ?thesis unfolding d by (rule dead_update) simp
  next
    case False
    with Some assms(2) have d: "db' = drop_token (tk_pk r) db" by (simp add: revoke_token_def)
    from drop_token_gone [OF assms(1) r(1)] show ?thesis unfolding d r(2) by (rule find_None_dead)
  qed
qed

lemma dead_verify: "token_dead t db \<Longrightarrow> snd (verify_token now t ty once db) = None"
  by (auto simp: verify_token_def Let_def token_dead_def find_Some_iff split: option.splits)

lemma dead_step:
  assumes "token_dead t db" "\<not> issues t x"
  shows "token_dead t (fst (token_step x db)) \<and> \<not> uses t (x, snd (token_step x db))"
proof (cases x)
  case (Issue fresh now p ty)
  with assms show ?thesis
    by (auto simp: issue_token_def Let_def outcome_simps split: sum.splits intro: dead_insert_other)
next
  case (Verify now s ty once)
  have "token_dead t (fst (verify_token now s ty once db))"
    using assms(1) by (auto simp: verify_token_def Let_def dead_drop split: option.splits)
  with assms(1) Verify show ?thesis by (auto simp: dead_verify)
next
  case (Revoke s ty)
  with assms(1) show ?thesis using dead_revoke by (fastforce split: sum.splits)
qed

lemma dead_run:
  assumes "token_dead t db" "\<forall>x\<in>set xs. \<not> issues t x"
  shows "filter (uses t) (snd (token_run xs db)) = []"
  using assms
proof (induction xs arbitrary: db)
  case (Cons x xs)
  then show ?case using dead_step [of t db x] by (auto simp: split_beta Let_def)
qed simp

lemma killed:
  assumes "token_db_ok db" "kills t x"
  shows "token_dead t (fst (token_step x db)) \<or> snd (token_step x db) = None"
proof (cases x)
  case (Verify now s ty once)
  with assms(2) have s: "s = t" "once" by simp_all
  show ?thesis
  proof (cases "find (\<lambda>r. tk_token r = t \<and> tk_type r = ty) (td_tokens db)")
    case None
    with Verify s show ?thesis by (simp add: verify_token_def)
  next
    case (Some r)
    then have r: "r \<in> set (td_tokens db)" "tk_token r = t" by (auto simp: find_Some_iff in_set_conv_nth)
    with drop_token_gone [OF assms(1) r(1)] have "token_dead t (drop_token (tk_pk r) db)"
      by (simp add: find_None_dead)
    with Verify s Some show ?thesis by (simp add: verify_token_def Let_def)
  qed
qed (use assms(2) in \<open>auto split: sum.splits\<close>)

lemma uses_up_kills: "uses_up t (x, r) \<Longrightarrow> kills t x \<and> r \<noteq> None"
  by (cases x) auto

lemma uses_up_uses: "uses_up t xr \<Longrightarrow> uses t xr"
  by (cases xr; cases "fst xr") auto

section \<open>Properties\<close>

definition ex_payload :: jwt_payload where
  "ex_payload = \<lparr>jp_jti = None, jp_exp = Some 86400, jp_sub = Some ''ann@acme.io'', jp_resetPwd = True,
     jp_create = False, jp_userId = None\<rparr>"

text \<open>C19. A one-time token works once: in any interleaving of issuing, verifying and revoking in which the
  token is not issued anew, nothing verifies the token after a verification that consumed it (\<open>once\<close>),
  or after it was revoked.\<close>

theorem one_time_token:
  assumes "token_db_ok db" and "\<forall>x\<in>set xs. \<not> issues t x"
    and "snd (token_run xs db) = before @ (x, r) # after"
    and "uses_up t (x, r) \<or> (\<exists>ty db'. x = Revoke t ty \<and> revoke_token t ty (fst (token_run (map fst before) db)) = Inr db')"
  shows "filter (uses t) after = []"
  using assms
proof (induction xs arbitrary: db before)
  case (Cons y xs)
  let ?s = "token_step y db"
  show ?case
  proof (cases before)
    case Nil
    with Cons.prems(3) have y: "y = x" "r = snd ?s" "after = snd (token_run xs (fst ?s))"
      by (auto simp: split_beta Let_def)
    have "token_dead t (fst ?s)"
      using Cons.prems(4) Nil y killed [OF Cons.prems(1), of t x] revoke_kills [OF Cons.prems(1)]
      by (auto dest: uses_up_kills)
    with Cons.prems(2) y(3) show ?thesis by (auto intro: dead_run)
  next
    case (Cons b bs)
    with Cons.prems(3) have s: "snd (token_run xs (fst ?s)) = bs @ (x, r) # after" and b: "fst b = y"
      by (auto simp: split_beta Let_def)
    have k: "token_db_ok (fst ?s)" using Cons.prems(1) by (rule token_step_ok)
    have f: "fst (token_run (map fst before) db) = fst (token_run (map fst bs) (fst ?s))"
      using Cons b by (simp add: split_beta Let_def)
    show ?thesis
      by (rule Cons.IH [OF k _ s]) (use Cons.prems(2,4) f in auto)
  qed
qed simp

theorem one_time_token_witness:
  "filter (uses ''T'') [(Verify 2000 ''T'' TT_API_KEY True, None)] = []"
proof -
  let ?p = "ex_payload\<lparr>jp_jti := Some ''T''\<rparr>"
  let ?db = "\<lparr>td_tokens = [\<lparr>tk_pk = 1, tk_token = ''T'', tk_type = TT_API_KEY, tk_payload = Some ?p,
               tk_revoked = False, tk_expiresAt = Some 5000\<rparr>], td_next = 2\<rparr>"
  show ?thesis
    by (rule one_time_token [where db = ?db and before = "[]" and x = "Verify 1000 ''T'' TT_API_KEY True" and r = "Some ?p" and
          xs = "[Verify 1000 ''T'' TT_API_KEY True, Verify 2000 ''T'' TT_API_KEY True]"])
      (simp_all add: token_db_ok_def verify_token_def token_expired_def drop_token_def)
qed

text \<open>The life of a token: once issued it verifies, for its type, with its payload until the expiry
  second has passed, and a later verification fails and removes it; a token issued without an expiry is
  never accepted, because the missing expiry counts as the time 0.\<close>

theorem token_lifetime:
  assumes "token_db_ok db" "issue_token fresh now p ty db = Inr (db', t)"
  shows "verify_token later t ty' once db' =
     (if ty' \<noteq> ty then (db', None)
      else if (case jp_exp p of None \<Rightarrow> 0 | Some s \<Rightarrow> if s = 0 then 0 else now + s * 1000) < later
      then (drop_token (td_next db) db', None)
      else (if once then drop_token (td_next db) db' else db', Some (p\<lparr>jp_jti := Some t\<rparr>)))"
proof -
  let ?r = "\<lparr>tk_pk = td_next db, tk_token = t, tk_type = ty, tk_payload = Some (p\<lparr>jp_jti := Some t\<rparr>), tk_revoked = False,
     tk_expiresAt = (case jp_exp p of None \<Rightarrow> None | Some s \<Rightarrow> if s = 0 then None else Some (now + s * 1000))\<rparr>"
  from assms(2) have d: "db' = \<lparr>td_tokens = td_tokens db @ [?r], td_next = td_next db + 1\<rparr>" and n: "find_token db t = None"
    by (auto simp: issue_token_def Let_def outcome_simps insert_token_def split: if_splits)
  from n have f: "find (\<lambda>r. tk_token r = t \<and> tk_type r = ty') (td_tokens db) = None"
    by (auto simp: find_token_None find_None_iff)
  have a: "find (\<lambda>r. tk_token r = t \<and> tk_type r = ty') (td_tokens db @ [?r]) = (if ty' = ty then Some ?r else None)"
    using f by (auto simp: find_app)
  show ?thesis
    unfolding d verify_token_def by (simp add: a token_expired_def split: option.splits)
qed

theorem token_lifetime_witness:
  "verify_token 90000000 ''T'' TT_API_KEY True
     \<lparr>td_tokens = [\<lparr>tk_pk = 1, tk_token = ''T'', tk_type = TT_API_KEY, tk_payload = Some (ex_payload\<lparr>jp_jti := Some ''T''\<rparr>),
        tk_revoked = False, tk_expiresAt = Some 86405000\<rparr>], td_next = 2\<rparr> = (\<lparr>td_tokens = [], td_next = 2\<rparr>, None)"
  by (subst token_lifetime [where db = "\<lparr>td_tokens = [], td_next = 1\<rparr>" and fresh = "''T''" and now = 5000 and
        p = ex_payload and ty = TT_API_KEY])
    (simp_all add: token_db_ok_def issue_token_def insert_token_def find_token_def ex_payload_def drop_token_def Let_def)

end
