(* ===== verification/Users.thy ===== *)
theory Users
  imports AuthTokens
begin

text \<open>
  \<open>src/users\<close>: tenants, users and their identities; login, registration, the validation email and its
  confirmation. The operations run in one database transaction, so an error leaves the database as it
  was: an operation that throws returns no database. The database's row level security is not
  modelled. \<open>us_deep\<close> says whether the soft-delete middleware (a package) also filters the joined
  records: then a deleted user or tenant of an identity reads as \<open>null\<close>.
\<close>

section \<open>The tables\<close>

record tenant =
  tn_pk :: int
  tn_id :: string
  tn_emailHost :: "string option"
  tn_name :: "string option"
  tn_type :: int
  tn_statusCode :: int
  tn_balance :: int
  tn_currency :: string
  tn_deletedAt :: int

record user =
  us_pk :: int
  us_id :: string
  us_name :: string
  us_email :: "string option"
  us_avatar :: "string option"
  us_tenantPk :: int
  us_deletedAt :: int

record identity =
  ui_pk :: int
  ui_tenantPk :: int
  ui_provider :: string
  ui_uid :: string
  ui_credentials :: string
  ui_name :: "string option"
  ui_email :: "string option"
  ui_email_verified :: bool
  ui_avatar :: "string option"
  ui_userId :: string
  ui_deletedAt :: int

record user_db =
  ud_tenants :: "tenant list"
  ud_users :: "user list"
  ud_identities :: "identity list"
  ud_tokens :: token_db
  ud_next :: int
  ud_seq :: nat
  ud_tenant :: "int option"

text \<open>The environment: the password hash (bcrypt, \<open>us_hash\<close> with the salt drawn), its comparison, the
  ids drawn by \<open>Utils.uuid\<close>, the clock, and the middleware's treatment of joined records.\<close>

record user_env =
  us_hash :: "nat \<Rightarrow> string \<Rightarrow> string"
  us_compare :: "string \<Rightarrow> string \<Rightarrow> bool"
  us_uuid :: "nat \<Rightarrow> string"
  us_deep :: bool

text \<open>An identity with its user and the user's tenant (\<open>include\<close>).\<close>

record joined =
  jn_ui :: identity
  jn_user :: "user option"
  jn_tenant :: "tenant option"

definition user_of :: "user_env \<Rightarrow> user_db \<Rightarrow> string \<Rightarrow> user option" where
  "user_of env db i = find (\<lambda>u. us_id u = i \<and> (us_deep env \<longrightarrow> us_deletedAt u = 0)) (ud_users db)"

definition tenant_of :: "user_env \<Rightarrow> user_db \<Rightarrow> int \<Rightarrow> tenant option" where
  "tenant_of env db pk = find (\<lambda>t. tn_pk t = pk \<and> (us_deep env \<longrightarrow> tn_deletedAt t = 0)) (ud_tenants db)"

definition join_identity :: "user_env \<Rightarrow> user_db \<Rightarrow> identity \<Rightarrow> joined" where
  "join_identity env db ui =
     (let u = user_of env db (ui_userId ui)
      in \<lparr>jn_ui = ui, jn_user = u, jn_tenant = Option.bind u (\<lambda>u. tenant_of env db (us_tenantPk u))\<rparr>)"

section \<open>Finding and login\<close>

text \<open>\<open>$findUserIdentity\<close>: with \<open>evenInvalid\<close> any row; else live identities whose tenant is active. A
  \<open>uid\<close> that is \<open>undefined\<close> is no condition for the query library.\<close>

definition active_tenant :: "joined \<Rightarrow> bool" where
  "active_tenant j \<longleftrightarrow> (case jn_tenant j of None \<Rightarrow> False | Some t \<Rightarrow> tn_statusCode t > 0)"

definition findUserIdentity :: "user_env \<Rightarrow> user_db \<Rightarrow> string option \<Rightarrow> string \<Rightarrow> bool \<Rightarrow> joined option" where
  "findUserIdentity env db uid provider evenInvalid =
     map_option (join_identity env db)
       (find (\<lambda>ui. (case uid of None \<Rightarrow> True | Some i \<Rightarrow> ui_uid ui = i) \<and> ui_provider ui = provider \<and>
                   (if evenInvalid then ui_deletedAt ui \<ge> 0
                    else ui_deletedAt ui = 0 \<and> active_tenant (join_identity env db ui)))
             (ud_identities db))"

text \<open>The comparison of the hash package throws when there is no password to compare.\<close>

definition login :: "user_env \<Rightarrow> user_db \<Rightarrow> string \<Rightarrow> string option \<Rightarrow> user result" where
  "login env db email password =
     (case findUserIdentity env db (Some email) ''local'' False of
        None \<Rightarrow> Inl (Unauthorized ''Unauthorized'')
      | Some j \<Rightarrow>
          (if ui_credentials (jn_ui j) = [] then Inl (Unauthorized ''Unauthorized'')
           else if password = None then Inl (PlainError ''data and hash arguments required'')
           else if us_compare env (the password) (ui_credentials (jn_ui j))
           then (case jn_user j of None \<Rightarrow> Inl (TypeError ''Cannot read properties of null'') | Some u \<Rightarrow> Inr u)
           else Inl (Unauthorized ''Unauthorized'')))"

section \<open>Registration\<close>

record new_identity =
  ni_provider :: string
  ni_uid :: "string option"
  ni_email :: "string option"
  ni_email_verified :: bool
  ni_name :: "string option"
  ni_avatar :: "string option"
  ni_credentials :: "string option"

text \<open>\<open>ui.email?.split('@') || []\<close>: mail name and host.\<close>

definition mail_parts :: "string option \<Rightarrow> string option \<times> string option" where
  "mail_parts email =
     (case email of None \<Rightarrow> (None, None)
      | Some m \<Rightarrow> (case split_char (CHR ''@'') m of
                     [] \<Rightarrow> (None, None) | [a] \<Rightarrow> (Some a, None) | a # h # _ \<Rightarrow> (Some a, Some h)))"

definition identity_name :: "new_identity \<Rightarrow> string" where
  "identity_name ni =
     str_or (ni_name ni) (str_or (fst (mail_parts (ni_email ni)))
       (ni_provider ni @ ''@'' @ (case ni_uid ni of None \<Rightarrow> ''undefined'' | Some u \<Rightarrow> u)))"

definition registerTenant :: "user_env \<Rightarrow> string option \<Rightarrow> user_db \<Rightarrow> user_db \<times> tenant" where
  "registerTenant env emailHost db =
     (let host = (if nonempty_str emailHost then emailHost else None);
          found = (case host of None \<Rightarrow> None
                   | Some h \<Rightarrow> find (\<lambda>t. tn_emailHost t = Some h \<and> tn_deletedAt t \<ge> 0) (ud_tenants db))
      in case found of
           Some t \<Rightarrow> (db\<lparr>ud_tenant := Some (tn_pk t)\<rparr>, t)
         | None \<Rightarrow>
             (let t = \<lparr>tn_pk = ud_next db, tn_id = us_uuid env (ud_seq db), tn_emailHost = host, tn_name = host,
                       tn_type = 1, tn_statusCode = 1, tn_balance = 0, tn_currency = ''USD'', tn_deletedAt = 0\<rparr>
              in (db\<lparr>ud_tenants := ud_tenants db @ [t], ud_next := ud_next db + 1, ud_seq := ud_seq db + 1,
                     ud_tenant := Some (tn_pk t)\<rparr>, t)))"

text \<open>\<open>updateLocalPassword\<close>: a falsy password changes nothing.\<close>

definition hash_password :: "user_env \<Rightarrow> string option \<Rightarrow> user_db \<Rightarrow> (user_db \<times> string option) result" where
  "hash_password env pwd db =
     (if \<not> nonempty_str pwd then Inr (db, None)
      else if length (the pwd) < 8 then Inl (BadRequest ''Password should be at least 8 characters'')
      else Inr (db\<lparr>ud_seq := ud_seq db + 1\<rparr>, Some (us_hash env (ud_seq db) (the pwd))))"

definition with_credentials :: "int \<Rightarrow> string \<Rightarrow> identity \<Rightarrow> identity" where
  "with_credentials k c i = (if ui_pk i = k then i\<lparr>ui_credentials := c\<rparr> else i)"

definition updateLocalPassword :: "user_env \<Rightarrow> string option \<Rightarrow> int option \<Rightarrow> user_db \<Rightarrow> (user_db \<times> string option) result" where
  "updateLocalPassword env pwd pk db =
     and_then (hash_password env pwd db) (\<lambda>(db', cred).
       Inr (case (pk, cred) of
              (Some k, Some c) \<Rightarrow>
                db'\<lparr>ud_identities := map (with_credentials k c) (ud_identities db')\<rparr>
            | _ \<Rightarrow> db', cred))"

text \<open>\<open>updateMany\<close> of the user's email: as written, only rows that already have an email.\<close>

definition setUserEmail :: "string \<Rightarrow> string option \<Rightarrow> user_db \<Rightarrow> user_db" where
  "setUserEmail i email db =
     db\<lparr>ud_users := map (\<lambda>u. if us_id u = i \<and> us_email u \<noteq> None \<and> us_deletedAt u = 0 then u\<lparr>us_email := email\<rparr> else u)
                     (ud_users db)\<rparr>"

definition no_access :: string where
  "no_access = ''Sorry, current account has no access to our services''"

definition status_word :: "int option \<Rightarrow> string" where
  "status_word s = (if s = Some 0 then ''pending'' else ''inactive'')"

text \<open>The two branches of \<open>registerUserFromIdentity\<close>: the identity exists, or not.\<close>

definition checkExisting :: "user_env \<Rightarrow> new_identity \<Rightarrow> joined \<Rightarrow> user_db \<Rightarrow> (user_db \<times> joined) result" where
  "checkExisting env ni j db =
     and_then (if ui_provider (jn_ui j) = ''local''
               then and_then (login env db (ui_uid (jn_ui j)) (ni_credentials ni)) (\<lambda>_. Inr ()) else Inr ()) (\<lambda>_.
     if ui_deletedAt (jn_ui j) \<noteq> 0 \<or> (\<exists>u \<in> set_option (jn_user j). us_deletedAt u \<noteq> 0) \<or>
        (\<exists>t \<in> set_option (jn_tenant j). tn_deletedAt t \<noteq> 0)
     then Inl (Forbidden no_access)
     else (case jn_tenant j of
             None \<Rightarrow> Inl (Forbidden (''Sorry, current account is in '' @ status_word None @ '' status, please try again later.''))
           | Some t \<Rightarrow>
               (if \<not> tn_statusCode t > 0
                then Inl (Forbidden (''Sorry, current account is in '' @ status_word (Some (tn_statusCode t)) @ '' status, please try again later.''))
                else Inr (db\<lparr>ud_tenant := Some (tn_pk t)\<rparr>, j))))"

text \<open>The rows that are created: the user with id \<open>i\<close> and its identity. The id and the triple of
  provider, uid and deletion time are unique in the database.\<close>

definition new_user :: "new_identity \<Rightarrow> tenant \<Rightarrow> string \<Rightarrow> int \<Rightarrow> user" where
  "new_user ni t i pk =
     \<lparr>us_pk = pk, us_id = i, us_name = identity_name ni, us_email = None, us_avatar = ni_avatar ni,
      us_tenantPk = tn_pk t, us_deletedAt = tn_deletedAt t\<rparr>"

definition new_row :: "new_identity \<Rightarrow> string \<Rightarrow> string \<Rightarrow> tenant \<Rightarrow> string \<Rightarrow> int \<Rightarrow> identity" where
  "new_row ni uid c t i pk =
     \<lparr>ui_pk = pk, ui_tenantPk = tn_pk t, ui_provider = ni_provider ni, ui_uid = uid, ui_credentials = c,
      ui_name = Some (identity_name ni), ui_email = ni_email ni, ui_email_verified = ni_email_verified ni,
      ui_avatar = ni_avatar ni, ui_userId = i, ui_deletedAt = tn_deletedAt t\<rparr>"

definition insertAccount :: "user \<Rightarrow> identity \<Rightarrow> tenant \<Rightarrow> user_db \<Rightarrow> (user_db \<times> joined) result" where
  "insertAccount u x t db =
     (if (\<exists>v\<in>set (ud_users db). us_id v = us_id u) \<or>
         (\<exists>y\<in>set (ud_identities db). ui_provider y = ui_provider x \<and> ui_uid y = ui_uid x \<and> ui_deletedAt y = ui_deletedAt x)
      then Inl (PlainError ''Unique constraint failed'')
      else Inr (db\<lparr>ud_users := ud_users db @ [u], ud_identities := ud_identities db @ [x], ud_next := ud_next db + 2\<rparr>,
                \<lparr>jn_ui = x, jn_user = Some u, jn_tenant = Some t\<rparr>))"

text \<open>The columns \<open>uid\<close> and \<open>credentials\<close> are required: without one the query library throws.\<close>

definition addAccount :: "new_identity \<Rightarrow> tenant \<Rightarrow> string \<Rightarrow> string option \<Rightarrow> user_db \<Rightarrow> (user_db \<times> joined) result" where
  "addAccount ni t i cred db =
     (case (ni_uid ni, cred) of
        (Some uid, Some c) \<Rightarrow> insertAccount (new_user ni t i (ud_next db)) (new_row ni uid c t i (ud_next db + 1)) t db
      | _ \<Rightarrow> Inl (PlainError ''Argument is missing.''))"

definition createIdentity :: "user_env \<Rightarrow> new_identity \<Rightarrow> user_db \<Rightarrow> (user_db \<times> joined) result" where
  "createIdentity env ni db =
     (let host = snd (mail_parts (ni_email ni)); (db1, t) = registerTenant env host db
      in if tn_deletedAt t \<noteq> 0 \<or> \<not> tn_statusCode t > 0 then Inl (Forbidden (str_or host ''Forbidden''))
         else
           (let db2 = db1\<lparr>ud_seq := ud_seq db1 + 1, ud_tenant := Some (tn_pk t)\<rparr>
            in and_then (if ni_provider ni = ''local'' \<and> nonempty_str (ni_credentials ni)
                         then updateLocalPassword env (ni_credentials ni) None db2 else Inr (db2, ni_credentials ni)) (\<lambda>(db3, cred).
               addAccount ni t (us_uuid env (ud_seq db1)) cred db3)))"

definition registerUserFromIdentity :: "user_env \<Rightarrow> new_identity \<Rightarrow> user_db \<Rightarrow> (user_db \<times> joined) result" where
  "registerUserFromIdentity env ni db =
     and_then (case findUserIdentity env db (ni_uid ni) (ni_provider ni) True of
                 Some j \<Rightarrow> checkExisting env ni j db
               | None \<Rightarrow> createIdentity env ni db) (\<lambda>(db', j).
       Inr (if ui_email_verified (jn_ui j) \<and> \<not> (\<exists>u \<in> set_option (jn_user j). nonempty_str (us_email u))
            then setUserEmail (ui_userId (jn_ui j)) (ui_email (jn_ui j)) db' else db', j))"

section \<open>Validation by email\<close>

text \<open>The mail that is handed to the mail service.\<close>

record mail =
  ml_email :: string
  ml_name :: string
  ml_token :: string
  ml_resetPwd :: bool
  ml_create :: bool

text \<open>\<open>_accountDeactivated\<close> reads through the user and the tenant: \<open>None\<close> is the \<open>TypeError\<close> on \<open>null\<close>.\<close>

definition accountDeactivated :: "joined \<Rightarrow> bool option" where
  "accountDeactivated j =
     (if ui_deletedAt (jn_ui j) \<noteq> 0 then Some True
      else (case jn_user j of None \<Rightarrow> None
            | Some u \<Rightarrow> (if us_deletedAt u \<noteq> 0 then Some True
                        else (case jn_tenant j of None \<Rightarrow> None
                              | Some t \<Rightarrow> Some (tn_deletedAt t \<noteq> 0 \<or> tn_statusCode t \<noteq> 1)))))"

definition sendValidationEmail :: "user_env \<Rightarrow> int \<Rightarrow> string \<Rightarrow> bool \<Rightarrow> bool \<Rightarrow> string option \<Rightarrow> user_db \<Rightarrow> (user_db \<times> mail) result" where
  "sendValidationEmail env now email create reset userId db =
     (let j = findUserIdentity env db (Some email) ''local'' True
      in and_then (case j of
             Some j \<Rightarrow>
               (case accountDeactivated j of
                  None \<Rightarrow> Inl (TypeError ''Cannot read properties of null'')
                | Some True \<Rightarrow> Inl (BadRequest (''Sorry, the user account is deactivated:'' @ email))
                | Some False \<Rightarrow> if ui_email_verified (jn_ui j) \<and> \<not> reset then Inl (BadRequest (email @ '' is already verified''))
                                else Inr None)
           | None \<Rightarrow> if \<not> create then Inl (BadRequest (''Sorry, the email is not registered, '' @ email)) else Inr userId) (\<lambda>uid.
         let resetPwd = (case j of None \<Rightarrow> True | Some j \<Rightarrow> ui_credentials (jn_ui j) = [] \<or> reset)
         in and_then (issue_token (us_uuid env (ud_seq db)) now \<lparr>jp_jti = None, jp_exp = Some (60 * 60 * 24), jp_sub = Some email,
                        jp_resetPwd = resetPwd, jp_create = create, jp_userId = uid\<rparr> TT_API_KEY (ud_tokens db)) (\<lambda>(tdb, token).
              Inr (db\<lparr>ud_tokens := tdb, ud_seq := ud_seq db + 1\<rparr>,
                   \<lparr>ml_email = email,
                    ml_name = str_or (Option.bind j (\<lambda>j. ui_name (jn_ui j))) (hd (split_char (CHR ''@'') email)),
                    ml_token = token, ml_resetPwd = resetPwd, ml_create = create\<rparr>))))"

text \<open>The security payload that the login listener builds.\<close>

record session =
  ss_tenantPk :: int
  ss_id :: int
  ss_sub :: string
  ss_iss :: string
  ss_aud :: string

definition session_of :: "string \<Rightarrow> user \<Rightarrow> session" where
  "session_of provider u = \<lparr>ss_tenantPk = us_tenantPk u, ss_id = us_pk u, ss_sub = us_id u, ss_iss = provider, ss_aud = us_id u\<rparr>"

text \<open>\<open>AuthLoginedListener\<close>: a tenant key of 0 is not set.\<close>

definition logined :: "session \<Rightarrow> user_db \<Rightarrow> user_db" where
  "logined s db = (if ss_tenantPk s \<noteq> 0 then db\<lparr>ud_tenant := Some (ss_tenantPk s)\<rparr> else db)"

text \<open>\<open>validateEmail\<close>. The update that should mark the email as verified is built and never awaited;
  the query library runs a query only when it is awaited, so that branch changes no row.\<close>

definition confirmIdentity :: "user_env \<Rightarrow> jwt_payload \<Rightarrow> string option \<Rightarrow> user_db \<Rightarrow> (user_db \<times> joined) result" where
  "confirmIdentity env p pwd db =
     (let email = jp_sub p; shown = str_or email ''undefined''
      in case findUserIdentity env db email ''local'' True of
           Some j \<Rightarrow>
             (case accountDeactivated j of
                None \<Rightarrow> Inl (TypeError ''Cannot read properties of null'')
              | Some off \<Rightarrow>
                  (if off then Inl (BadRequest (''Sorry, the user account is deactivated:'' @ shown))
                   else if jp_resetPwd p then
                     and_then (updateLocalPassword env pwd (Some (ui_pk (jn_ui j))) db) (\<lambda>(db1, _). Inr (db1, j))
                   else if ui_email_verified (jn_ui j) then Inl (BadRequest (shown @ '' is already verified''))
                   else Inr (db\<lparr>ud_tenant := map_option tn_pk (jn_tenant j)\<rparr>, j)))
         | None \<Rightarrow>
             (if \<not> jp_create p then Inl (BadRequest (''Sorry, the user account does not exist: '' @ shown))
              else if nonempty_str (jp_userId p) then Inl (NotImplemented ''associate to user'')
              else registerUserFromIdentity env \<lparr>ni_provider = ''local'', ni_uid = email, ni_email = email, ni_email_verified = True,
                     ni_name = None, ni_avatar = None, ni_credentials = pwd\<rparr> db))"

definition validateEmail :: "user_env \<Rightarrow> int \<Rightarrow> string \<Rightarrow> string option \<Rightarrow> user_db \<Rightarrow> (user_db \<times> session option) result" where
  "validateEmail env now token pwd db =
     (let (tdb, payload) = verify_token now token TT_API_KEY True (ud_tokens db); db0 = db\<lparr>ud_tokens := tdb\<rparr>
      in case payload of
           None \<Rightarrow> Inr (db0, None)
         | Some p \<Rightarrow>
             and_then (confirmIdentity env p pwd db0) (\<lambda>(db1, j).
               let db2 = setUserEmail (ui_userId (jn_ui j)) (jp_sub p) db1
               in case jn_user j of
                    None \<Rightarrow> Inl (TypeError ''Cannot read properties of null'')
                  | Some u \<Rightarrow> (let s = session_of (ui_provider (jn_ui j)) u in Inr (logined s db2, Some s))))"

section \<open>The service as a machine\<close>

datatype user_op =
    Register new_identity
  | SendValidation int string bool bool "string option"
  | ValidateEmail int string "string option"

definition committed :: "user_db \<Rightarrow> (user_db \<times> 'a) result \<Rightarrow> user_db" where
  "committed db r = (case r of Inl _ \<Rightarrow> db | Inr (db', _) \<Rightarrow> db')"

fun user_step :: "user_env \<Rightarrow> user_op \<Rightarrow> user_db \<Rightarrow> user_db" where
  "user_step env (Register ni) db = committed db (registerUserFromIdentity env ni db)"
| "user_step env (SendValidation now email create reset uid) db = committed db (sendValidationEmail env now email create reset uid db)"
| "user_step env (ValidateEmail now token pwd) db = committed db (validateEmail env now token pwd db)"

definition user_run :: "user_env \<Rightarrow> user_op list \<Rightarrow> user_db \<Rightarrow> user_db" where
  "user_run env ops db = fold (user_step env) ops db"

section \<open>What the operations keep\<close>

text \<open>The parts of a row that no operation changes.\<close>

definition ident_key :: "identity \<Rightarrow> identity" where
  "ident_key x = x\<lparr>ui_credentials := []\<rparr>"

lemma ident_key_with [simp]: "ident_key (with_credentials k c i) = ident_key i"
  by (simp add: ident_key_def with_credentials_def)

text \<open>A step keeps what is there: accounts are appended, nothing of them changes but the credentials.\<close>

definition keeps :: "user_db \<Rightarrow> user_db \<Rightarrow> bool" where
  "keeps db db' \<longleftrightarrow>
     prefix (map ident_key (ud_identities db)) (map ident_key (ud_identities db')) \<and>
     prefix (ud_users db) (ud_users db') \<and> prefix (ud_tenants db) (ud_tenants db') \<and>
     (\<forall>u \<in> set (drop (length (ud_users db)) (ud_users db')). us_email u = None)"

definition no_emails :: "user_db \<Rightarrow> bool" where
  "no_emails db \<longleftrightarrow> (\<forall>u\<in>set (ud_users db). us_email u = None)"

lemma keeps_refl [simp]: "keeps db db"
  by (simp add: keeps_def)

lemma keeps_same:
  "ud_identities db' = ud_identities db \<Longrightarrow> ud_users db' = ud_users db \<Longrightarrow> ud_tenants db' = ud_tenants db \<Longrightarrow> keeps db db'"
  by (simp add: keeps_def)

lemma keeps_trans: "keeps a b \<Longrightarrow> keeps b c \<Longrightarrow> keeps a c"
  unfolding keeps_def by (auto elim!: prefixE simp: prefix_def)

lemma setUserEmail_idle:
  "(\<And>u. u \<in> set (ud_users db) \<Longrightarrow> us_id u = i \<Longrightarrow> us_email u = None) \<Longrightarrow> setUserEmail i m db = db"
proof -
  assume "\<And>u. u \<in> set (ud_users db) \<Longrightarrow> us_id u = i \<Longrightarrow> us_email u = None"
  then have "map (\<lambda>u. if us_id u = i \<and> us_email u \<noteq> None \<and> us_deletedAt u = 0 then u\<lparr>us_email := m\<rparr> else u) (ud_users db) = ud_users db"
    by (intro map_idI) auto
  then show ?thesis by (simp add: setUserEmail_def)
qed

lemma no_emails_set: "no_emails db \<Longrightarrow> setUserEmail i m db = db"
  by (rule setUserEmail_idle) (simp add: no_emails_def)

lemma no_emails_keeps: "no_emails db \<Longrightarrow> keeps db db' \<Longrightarrow> no_emails db'"
  by (auto simp: no_emails_def keeps_def prefix_def)

lemma hash_password_keeps: "hash_password env pwd db = Inr (db', c) \<Longrightarrow>
    keeps db db' \<and> ud_identities db' = ud_identities db \<and> ud_users db' = ud_users db \<and> ud_tenants db' = ud_tenants db \<and>
    ud_next db' = ud_next db \<and> ud_tokens db' = ud_tokens db"
  by (auto simp: hash_password_def intro: keeps_same split: if_splits)

lemma updateLocalPassword_cases:
  assumes "updateLocalPassword env pwd pk db = Inr (db', c)"
  obtains db0 where "hash_password env pwd db = Inr (db0, c)"
    and "db' = db0 \<or> (\<exists>k d. db' = db0\<lparr>ud_identities := map (with_credentials k d) (ud_identities db0)\<rparr>)"
proof -
  from assms obtain db0 where h: "hash_password env pwd db = Inr (db0, c)"
    and d: "db' = (case (pk, c) of (Some k, Some c) \<Rightarrow> db0\<lparr>ud_identities := map (with_credentials k c) (ud_identities db0)\<rparr> | _ \<Rightarrow> db0)"
    by (auto simp: updateLocalPassword_def outcome_simps)
  from d have "db' = db0 \<or> (\<exists>k d. db' = db0\<lparr>ud_identities := map (with_credentials k d) (ud_identities db0)\<rparr>)"
    by (auto split: option.splits)
  with h show ?thesis by (rule that)
qed

lemma updateLocalPassword_keeps: "updateLocalPassword env pwd pk db = Inr (db', c) \<Longrightarrow>
    keeps db db' \<and> map ident_key (ud_identities db') = map ident_key (ud_identities db) \<and>
    ud_users db' = ud_users db \<and> ud_tenants db' = ud_tenants db \<and> ud_next db' = ud_next db \<and> ud_tokens db' = ud_tokens db"
  by (erule updateLocalPassword_cases) (auto simp: keeps_def o_def dest!: hash_password_keeps)

lemma registerTenant_keeps: "registerTenant env host db = (db', t) \<Longrightarrow>
    keeps db db' \<and> ud_identities db' = ud_identities db \<and> ud_users db' = ud_users db \<and> ud_tokens db' = ud_tokens db"
  by (auto simp: registerTenant_def Let_def keeps_def split: option.splits if_splits)

lemma checkExisting_keeps:
  assumes "checkExisting env ni j db = Inr (db', j')"
  shows "j' = j \<and> (\<exists>t. jn_tenant j = Some t \<and> tn_statusCode t > 0 \<and> db' = db\<lparr>ud_tenant := Some (tn_pk t)\<rparr>)"
  using assms by (auto simp: checkExisting_def outcome_simps split: if_splits option.splits)

lemma insertAccount_Inr:
  "insertAccount u x t db = Inr (db', j) \<longleftrightarrow>
     (\<forall>v\<in>set (ud_users db). us_id v \<noteq> us_id u) \<and>
     (\<forall>y\<in>set (ud_identities db). \<not> (ui_provider y = ui_provider x \<and> ui_uid y = ui_uid x \<and> ui_deletedAt y = ui_deletedAt x)) \<and>
     db' = db\<lparr>ud_users := ud_users db @ [u], ud_identities := ud_identities db @ [x], ud_next := ud_next db + 2\<rparr> \<and>
     j = \<lparr>jn_ui = x, jn_user = Some u, jn_tenant = Some t\<rparr>"
  by (auto simp: insertAccount_def)

lemma addAccount_cases:
  assumes "addAccount ni t i cred db = Inr (db', j)"
  obtains uid c where "ni_uid ni = Some uid" "cred = Some c"
    "insertAccount (new_user ni t i (ud_next db)) (new_row ni uid c t i (ud_next db + 1)) t db = Inr (db', j)"
  using assms by (auto simp: addAccount_def split: option.splits)

lemma createIdentity_cases:
  assumes "createIdentity env ni db = Inr (db', j)"
  obtains db1 t db3 cred where "registerTenant env (snd (mail_parts (ni_email ni))) db = (db1, t)"
    "tn_deletedAt t = 0" "tn_statusCode t > 0"
    "(if ni_provider ni = ''local'' \<and> nonempty_str (ni_credentials ni)
      then updateLocalPassword env (ni_credentials ni) None (db1\<lparr>ud_seq := ud_seq db1 + 1, ud_tenant := Some (tn_pk t)\<rparr>)
      else Inr (db1\<lparr>ud_seq := ud_seq db1 + 1, ud_tenant := Some (tn_pk t)\<rparr>, ni_credentials ni)) = Inr (db3, cred)"
    "addAccount ni t (us_uuid env (ud_seq db1)) cred db3 = Inr (db', j)"
proof -
  obtain db1 t where r: "registerTenant env (snd (mail_parts (ni_email ni))) db = (db1, t)" by fastforce
  from assms r show ?thesis
    by (auto simp: createIdentity_def Let_def outcome_simps simp del: nonempty_str_simps split: if_splits intro!: that [OF r])
qed

lemma createIdentity_keeps:
  assumes "createIdentity env ni db = Inr (db', j)"
  shows "keeps db db'"
  using assms
proof (cases rule: createIdentity_cases)
  case (1 db1 t db3 cred)
  have k: "keeps db db3 \<and> ud_identities db3 = ud_identities db \<and> ud_users db3 = ud_users db"
    using registerTenant_keeps [OF 1(1)] 1(4)
    by (auto simp: keeps_def updateLocalPassword_def hash_password_def outcome_simps split: if_splits)
  have "keeps db3 db'"
    using 1(5) by (elim addAccount_cases) (auto simp: insertAccount_Inr keeps_def new_user_def)
  with k show ?thesis by (blast intro: keeps_trans)
qed

lemma register_cases:
  assumes "registerUserFromIdentity env ni db = Inr (db', j)"
  obtains db1 where
    "(findUserIdentity env db (ni_uid ni) (ni_provider ni) True = None \<and> createIdentity env ni db = Inr (db1, j)) \<or>
     (\<exists>t. findUserIdentity env db (ni_uid ni) (ni_provider ni) True = Some j \<and> jn_tenant j = Some t \<and>
        tn_statusCode t > 0 \<and> db1 = db\<lparr>ud_tenant := Some (tn_pk t)\<rparr>)"
    and "db' = db1 \<or> db' = setUserEmail (ui_userId (jn_ui j)) (ui_email (jn_ui j)) db1"
proof -
  from assms obtain db1 where m: "(case findUserIdentity env db (ni_uid ni) (ni_provider ni) True of
      Some j \<Rightarrow> checkExisting env ni j db | None \<Rightarrow> createIdentity env ni db) = Inr (db1, j)"
    and d: "db' = db1 \<or> db' = setUserEmail (ui_userId (jn_ui j)) (ui_email (jn_ui j)) db1"
    by (auto simp: registerUserFromIdentity_def outcome_simps simp del: split_paired_Ex split: if_splits)
  show ?thesis
    by (rule that [OF _ d]) (use m in \<open>auto split: option.splits dest!: checkExisting_keeps\<close>)
qed

lemma register_keeps:
  assumes "no_emails db" "registerUserFromIdentity env ni db = Inr (db', j)"
  shows "keeps db db'"
  using assms(2)
proof (cases rule: register_cases)
  case (1 db1)
  have k: "keeps db db1" using 1(1) by (auto dest: createIdentity_keeps intro: keeps_same)
  with assms(1) have "no_emails db1" by (rule no_emails_keeps)
  with 1(2) k show ?thesis by (auto simp: no_emails_set)
qed

lemma sendValidation_keeps: "sendValidationEmail env now email create reset uid db = Inr (db', m) \<Longrightarrow> keeps db db'"
  by (auto simp: sendValidationEmail_def Let_def outcome_simps intro: keeps_same)

lemma confirmIdentity_keeps:
  assumes "no_emails db" "confirmIdentity env p pwd db = Inr (db', j)"
  shows "keeps db db'"
proof (cases "findUserIdentity env db (jp_sub p) ''local'' True")
  case None
  with assms show ?thesis by (auto simp: confirmIdentity_def Let_def split: if_splits intro: register_keeps)
next
  case (Some k)
  with assms(2) show ?thesis
    by (auto simp: confirmIdentity_def Let_def outcome_simps split: if_splits option.splits
        dest: updateLocalPassword_keeps intro: keeps_same)
qed

lemma validateEmail_cases:
  assumes "validateEmail env now token pwd db = Inr (db', r)"
  obtains tdb where "verify_token now token TT_API_KEY True (ud_tokens db) = (tdb, None)" "db' = db\<lparr>ud_tokens := tdb\<rparr>" "r = None"
  | tdb p db1 j u where "verify_token now token TT_API_KEY True (ud_tokens db) = (tdb, Some p)"
    "confirmIdentity env p pwd (db\<lparr>ud_tokens := tdb\<rparr>) = Inr (db1, j)" "jn_user j = Some u"
    "r = Some (session_of (ui_provider (jn_ui j)) u)"
    "db' = logined (session_of (ui_provider (jn_ui j)) u) (setUserEmail (ui_userId (jn_ui j)) (jp_sub p) db1)"
proof -
  obtain tdb payload where v: "verify_token now token TT_API_KEY True (ud_tokens db) = (tdb, payload)" by fastforce
  show ?thesis
  proof (cases payload)
    case None
    with assms v show ?thesis by (intro that(1)) (auto simp: validateEmail_def)
  next
    case (Some p)
    with assms v obtain db1 j where c: "confirmIdentity env p pwd (db\<lparr>ud_tokens := tdb\<rparr>) = Inr (db1, j)"
      by (auto simp: validateEmail_def Let_def outcome_simps)
    with assms v Some obtain u where "jn_user j = Some u" by (auto simp: validateEmail_def Let_def split: option.splits)
    with assms v Some c show ?thesis by (intro that(2)) (auto simp: validateEmail_def Let_def)
  qed
qed

lemma validateEmail_keeps:
  assumes "no_emails db" "validateEmail env now token pwd db = Inr (db', r)"
  shows "keeps db db'"
  using assms(2)
proof (cases rule: validateEmail_cases)
  case (1 tdb)
  then show ?thesis by (auto intro: keeps_same)
next
  case (2 tdb p db1 j u)
  let ?db0 = "db\<lparr>ud_tokens := tdb\<rparr>"
  have e: "no_emails ?db0" and k: "keeps db ?db0" using assms(1) by (auto simp: no_emails_def intro: keeps_same)
  have k1: "keeps ?db0 db1" using e 2(2) by (rule confirmIdentity_keeps)
  have "setUserEmail (ui_userId (jn_ui j)) (jp_sub p) db1 = db1"
    using no_emails_keeps [OF e k1] by (rule no_emails_set)
  then have "keeps db1 db'" unfolding 2(5) by (auto simp: logined_def intro: keeps_same)
  with k k1 show ?thesis by (blast intro: keeps_trans)
qed

section \<open>Integrity of the tables\<close>

definition ident_unique :: "identity \<Rightarrow> string \<times> string \<times> int" where
  "ident_unique x = (ui_provider x, ui_uid x, ui_deletedAt x)"

definition hosts :: "user_db \<Rightarrow> string list" where
  "hosts db = List.map_filter tn_emailHost (ud_tenants db)"

definition user_db_ok :: "user_db \<Rightarrow> bool" where
  "user_db_ok db \<longleftrightarrow>
     token_db_ok (ud_tokens db) \<and>
     distinct (map tn_pk (ud_tenants db)) \<and> (\<forall>t\<in>set (ud_tenants db). tn_pk t < ud_next db \<and> tn_deletedAt t \<ge> 0) \<and>
     distinct (hosts db) \<and> distinct (map us_id (ud_users db)) \<and>
     distinct (map ident_unique (ud_identities db)) \<and>
     distinct (map ui_pk (ud_identities db)) \<and> (\<forall>x\<in>set (ud_identities db). ui_pk x < ud_next db) \<and>
     us_tenantPk ` set (ud_users db) \<subseteq> tn_pk ` set (ud_tenants db) \<and>
     ui_userId ` set (ud_identities db) \<subseteq> us_id ` set (ud_users db)"

lemma user_db_ok_cong:
  assumes "user_db_ok db" "token_db_ok (ud_tokens db')" "ud_tenants db' = ud_tenants db" "ud_next db' = ud_next db"
    "map us_id (ud_users db') = map us_id (ud_users db)" "map us_tenantPk (ud_users db') = map us_tenantPk (ud_users db)"
    "map ident_key (ud_identities db') = map ident_key (ud_identities db)"
  shows "user_db_ok db'"
proof -
  have i: "f (ident_key x) = f x" if "f \<in> {ui_pk}" for f :: "identity \<Rightarrow> int" and x using that by (auto simp: ident_key_def)
  have "map ui_pk (ud_identities db') = map ui_pk (map ident_key (ud_identities db'))"
    "map ui_pk (ud_identities db) = map ui_pk (map ident_key (ud_identities db))"
    "map ui_userId (ud_identities db') = map ui_userId (map ident_key (ud_identities db'))"
    "map ui_userId (ud_identities db) = map ui_userId (map ident_key (ud_identities db))"
    "map ident_unique (ud_identities db') = map ident_unique (map ident_key (ud_identities db'))"
    "map ident_unique (ud_identities db) = map ident_unique (map ident_key (ud_identities db))"
    by (simp_all add: ident_key_def ident_unique_def)
  with assms(7) have e: "map ui_pk (ud_identities db') = map ui_pk (ud_identities db)"
    "map ui_userId (ud_identities db') = map ui_userId (ud_identities db)"
    "map ident_unique (ud_identities db') = map ident_unique (ud_identities db)"
    by (simp_all del: map_map)
  have s: "ui_pk ` set (ud_identities db') = ui_pk ` set (ud_identities db)"
    "ui_userId ` set (ud_identities db') = ui_userId ` set (ud_identities db)"
    "us_id ` set (ud_users db') = us_id ` set (ud_users db)"
    "us_tenantPk ` set (ud_users db') = us_tenantPk ` set (ud_users db)"
    using arg_cong [OF e(1), of set] arg_cong [OF e(2), of set] arg_cong [OF assms(5), of set] arg_cong [OF assms(6), of set]
    by simp_all
  have n: "(\<forall>x\<in>set (ud_identities d). ui_pk x < k) \<longleftrightarrow> (\<forall>y\<in>ui_pk ` set (ud_identities d). y < k)" for d k by auto
  show ?thesis
    using assms(1) unfolding user_db_ok_def n s e assms(3-6) hosts_def using assms(2) by auto
qed

lemma find_host_None: "find (\<lambda>t. tn_emailHost t = Some h \<and> tn_deletedAt t \<ge> 0) (ud_tenants db) = None \<Longrightarrow>
    (\<forall>t\<in>set (ud_tenants db). tn_deletedAt t \<ge> 0) \<Longrightarrow> h \<notin> set (hosts db)"
  by (auto simp: find_None_iff hosts_def List.map_filter_def)

lemma registerTenant_ok:
  assumes "user_db_ok db" "registerTenant env host db = (db', t)"
  shows "user_db_ok db' \<and> t \<in> set (ud_tenants db')"
proof -
  let ?h = "if nonempty_str host then host else None"
  let ?f = "case ?h of None \<Rightarrow> None | Some h \<Rightarrow> find (\<lambda>t. tn_emailHost t = Some h \<and> tn_deletedAt t \<ge> 0) (ud_tenants db)"
  show ?thesis
  proof (cases ?f)
    case (Some t')
    with assms(2) have d: "db' = db\<lparr>ud_tenant := Some (tn_pk t)\<rparr>" "t = t'" by (auto simp: registerTenant_def Let_def)
    from Some have "t' \<in> set (ud_tenants db)" by (auto simp: find_Some_iff in_set_conv_nth split: option.splits if_splits)
    moreover have "user_db_ok db'"
      unfolding d(1) by (rule user_db_ok_cong [OF assms(1)]) (use assms(1) in \<open>simp_all add: user_db_ok_def\<close>)
    ultimately show ?thesis using d by simp
  next
    case None
    let ?t = "\<lparr>tn_pk = ud_next db, tn_id = us_uuid env (ud_seq db), tn_emailHost = ?h, tn_name = ?h,
                tn_type = 1, tn_statusCode = 1, tn_balance = 0, tn_currency = ''USD'', tn_deletedAt = 0\<rparr>"
    from None assms(2) have d: "db' = db\<lparr>ud_tenants := ud_tenants db @ [?t], ud_next := ud_next db + 1, ud_seq := ud_seq db + 1,
        ud_tenant := Some (ud_next db)\<rparr>" "t = ?t"
      by (auto simp: registerTenant_def Let_def)
    have h: "h \<notin> set (hosts db)" if "?h = Some h" for h
      using None that assms(1) find_host_None [of h db] by (auto simp: user_db_ok_def)
    have hs: "hosts db' = hosts db @ (case ?h of None \<Rightarrow> [] | Some h \<Rightarrow> [h])"
      unfolding d(1) by (simp add: hosts_def List.map_filter_def split: option.splits)
    have "distinct (hosts db')"
      unfolding hs using assms(1) h by (auto simp: user_db_ok_def split: option.splits)
    moreover have "distinct (map tn_pk (ud_tenants db'))" "\<forall>t\<in>set (ud_tenants db'). tn_pk t < ud_next db' \<and> tn_deletedAt t \<ge> 0"
      using assms(1) unfolding d(1) by (auto simp: user_db_ok_def)
    moreover have "\<forall>x\<in>set (ud_identities db'). ui_pk x < ud_next db'"
      using assms(1) unfolding d(1) by (auto simp: user_db_ok_def)
    moreover have "us_tenantPk ` set (ud_users db') \<subseteq> tn_pk ` set (ud_tenants db')"
      using assms(1) unfolding d(1) by (auto simp: user_db_ok_def)
    ultimately show ?thesis
      using assms(1) unfolding user_db_ok_def d by simp
  qed
qed

lemma updateLocalPassword_ok:
  assumes "user_db_ok db" "updateLocalPassword env pwd pk db = Inr (db', c)"
  shows "user_db_ok db'"
  using updateLocalPassword_keeps [OF assms(2)] assms(1)
  by (intro user_db_ok_cong [OF assms(1)]) (auto simp: user_db_ok_def)

lemma insertAccount_ok:
  assumes "user_db_ok db" "insertAccount u x t db = Inr (db', j)" "t \<in> set (ud_tenants db)"
    "us_tenantPk u = tn_pk t" "ui_userId x = us_id u" "ui_pk x = ud_next db + 1"
  shows "user_db_ok db'"
proof -
  have d: "ud_users db' = ud_users db @ [u]" "ud_identities db' = ud_identities db @ [x]" "ud_next db' = ud_next db + 2"
    "ud_tenants db' = ud_tenants db" "ud_tokens db' = ud_tokens db" and n: "us_id u \<notin> us_id ` set (ud_users db)"
    "ident_unique x \<notin> ident_unique ` set (ud_identities db)"
    using assms(2) by (auto simp: insertAccount_Inr ident_unique_def)
  have "\<forall>t\<in>set (ud_tenants db'). tn_pk t < ud_next db' \<and> tn_deletedAt t \<ge> 0"
    using assms(1) unfolding d by (auto simp: user_db_ok_def)
  moreover have "distinct (map ui_pk (ud_identities db'))" "\<forall>y\<in>set (ud_identities db'). ui_pk y < ud_next db'"
    using assms(1,6) unfolding d by (auto simp: user_db_ok_def)
  moreover have "us_tenantPk ` set (ud_users db') \<subseteq> tn_pk ` set (ud_tenants db')"
    using assms(1,3,4) unfolding d by (auto simp: user_db_ok_def)
  moreover have "ui_userId ` set (ud_identities db') \<subseteq> us_id ` set (ud_users db')"
    using assms(1,5) unfolding d by (auto simp: user_db_ok_def)
  moreover have "distinct (map us_id (ud_users db'))" "distinct (map ident_unique (ud_identities db'))"
    using assms(1) n unfolding d by (auto simp: user_db_ok_def)
  moreover have "hosts db' = hosts db" unfolding hosts_def d ..
  ultimately show ?thesis using assms(1) unfolding user_db_ok_def d(4,5) by simp
qed

lemma createIdentity_ok:
  assumes "user_db_ok db" "createIdentity env ni db = Inr (db', j)"
  shows "user_db_ok db'"
  using assms(2)
proof (cases rule: createIdentity_cases)
  case (1 db1 t db3 cred)
  let ?db2 = "db1\<lparr>ud_seq := ud_seq db1 + 1, ud_tenant := Some (tn_pk t)\<rparr>"
  have o1: "user_db_ok db1" and t: "t \<in> set (ud_tenants db1)" using registerTenant_ok [OF assms(1) 1(1)] by simp_all
  have o2: "user_db_ok ?db2" by (rule user_db_ok_cong [OF o1]) (use o1 in \<open>simp_all add: user_db_ok_def\<close>)
  have o3: "user_db_ok db3 \<and> ud_tenants db3 = ud_tenants db1"
    using 1(4) o2 updateLocalPassword_ok [OF o2] updateLocalPassword_keeps [of env _ None ?db2] by (auto split: if_splits)
  show ?thesis
    using 1(5) o3 t by (elim addAccount_cases) (rule insertAccount_ok [of db3], auto simp: new_user_def new_row_def)
qed

lemma setUserEmail_ok: "user_db_ok db \<Longrightarrow> user_db_ok (setUserEmail i m db)"
  by (rule user_db_ok_cong) (auto simp: setUserEmail_def user_db_ok_def)

lemma register_ok:
  assumes "user_db_ok db" "registerUserFromIdentity env ni db = Inr (db', j)"
  shows "user_db_ok db'"
  using assms(2)
proof (cases rule: register_cases)
  case (1 db1)
  have "user_db_ok (db\<lparr>ud_tenant := x\<rparr>)" for x
    by (rule user_db_ok_cong [OF assms(1)]) (use assms(1) in \<open>simp_all add: user_db_ok_def\<close>)
  then have "user_db_ok db1" using 1(1) createIdentity_ok [OF assms(1)] by blast
  then show ?thesis using 1(2) by (auto simp: setUserEmail_ok)
qed

lemma sendValidation_ok:
  assumes "user_db_ok db" "sendValidationEmail env now email create reset uid db = Inr (db', m)"
  shows "user_db_ok db'"
proof -
  from assms(2) obtain tdb i p t where "issue_token i now p TT_API_KEY (ud_tokens db) = Inr (tdb, t)"
    and d: "db' = db\<lparr>ud_tokens := tdb, ud_seq := ud_seq db + 1\<rparr>"
    by (auto simp: sendValidationEmail_def Let_def outcome_simps)
  then have "token_db_ok tdb" using assms(1) by (auto simp: user_db_ok_def intro: issue_token_ok)
  then show ?thesis unfolding d by (intro user_db_ok_cong [OF assms(1)]) simp_all
qed

lemma confirmIdentity_ok:
  assumes "user_db_ok db" "confirmIdentity env p pwd db = Inr (db', j)"
  shows "user_db_ok db'"
proof -
  have t: "user_db_ok (db\<lparr>ud_tenant := x\<rparr>)" for x
    by (rule user_db_ok_cong [OF assms(1)]) (use assms(1) in \<open>simp_all add: user_db_ok_def\<close>)
  show ?thesis
  proof (cases "findUserIdentity env db (jp_sub p) ''local'' True")
    case None
    with assms(2) register_ok [OF assms(1)] show ?thesis
      by (auto simp: confirmIdentity_def Let_def split: if_splits)
  next
    case (Some k)
    with assms(2) t show ?thesis
      by (auto simp: confirmIdentity_def Let_def outcome_simps split: if_splits option.splits
          dest: updateLocalPassword_ok [OF assms(1)])
  qed
qed

lemma validateEmail_ok:
  assumes "user_db_ok db" "validateEmail env now token pwd db = Inr (db', r)"
  shows "user_db_ok db'"
proof -
  have v: "user_db_ok (db\<lparr>ud_tokens := tdb\<rparr>)" if "verify_token now token TT_API_KEY True (ud_tokens db) = (tdb, x)" for tdb x
  proof -
    have "token_db_ok tdb" using verify_token_ok [of "ud_tokens db" now token TT_API_KEY True] that assms(1)
      by (simp add: user_db_ok_def)
    then show ?thesis by (intro user_db_ok_cong [OF assms(1)]) simp_all
  qed
  have l: "user_db_ok (logined s d)" if "user_db_ok d" for s d
    unfolding logined_def by (auto intro!: that user_db_ok_cong [OF that]) (use that in \<open>simp add: user_db_ok_def\<close>)
  from assms(2) show ?thesis
  proof (cases rule: validateEmail_cases)
    case (1 tdb)
    with v show ?thesis by simp
  next
    case (2 tdb p db1 j u)
    have "user_db_ok db1" using v [OF 2(1)] 2(2) by (rule confirmIdentity_ok)
    then show ?thesis unfolding 2(5) by (intro l setUserEmail_ok)
  qed
qed

lemma user_step_ok: "user_db_ok db \<Longrightarrow> user_db_ok (user_step env op db)"
  by (cases op) (auto simp: committed_def split: sum.splits dest: register_ok sendValidation_ok validateEmail_ok)

lemma user_step_keeps: "no_emails db \<Longrightarrow> keeps db (user_step env op db)"
  by (cases op) (auto simp: committed_def split: sum.splits dest: register_keeps sendValidation_keeps validateEmail_keeps)

section \<open>Properties\<close>

definition ex_user_env :: user_env where
  "ex_user_env = \<lparr>us_hash = (\<lambda>n p. CHR ''#'' # p), us_compare = (\<lambda>p h. h = CHR ''#'' # p), us_uuid = (\<lambda>n. replicate n (CHR ''u'')), us_deep = False\<rparr>"

definition no_users :: user_db where
  "no_users = \<lparr>ud_tenants = [], ud_users = [], ud_identities = [], ud_tokens = \<lparr>td_tokens = [], td_next = 1\<rparr>, ud_next = 1,
     ud_seq = 0, ud_tenant = None\<rparr>"

definition ex_new :: "string \<Rightarrow> new_identity" where
  "ex_new uid = \<lparr>ni_provider = ''local'', ni_uid = Some uid, ni_email = Some uid, ni_email_verified = True, ni_name = None,
     ni_avatar = None, ni_credentials = Some ''12345678''\<rparr>"

lemma no_users_ok: "user_db_ok no_users" "no_emails no_users"
  by (simp_all add: user_db_ok_def no_users_def token_db_ok_def hosts_def List.map_filter_def no_emails_def)

interpretation table_runs: invariant_run "user_step env" user_db_ok for env
  by unfold_locales (erule user_step_ok)

interpretation account_runs: invariant_run "user_step env" "\<lambda>d. keeps db d \<and> no_emails d" for env db
  by unfold_locales (auto dest: user_step_keeps no_emails_keeps intro: keeps_trans)

text \<open>Accounts only grow: whatever is registered, mailed or confirmed, in any order, the tenants and users
  that are there stay as they are and every identity keeps all but its password hash. In particular no
  user ever gets an email (the update asks for users that have one already), and an identity that was not
  verified never becomes verified (its update is never awaited).\<close>

theorem accounts_only_grow:
  assumes "no_emails db"
  shows "keeps db (user_run env ops db) \<and> no_emails (user_run env ops db)"
  unfolding user_run_def by (rule account_runs.run_keeps) (simp add: assms)

theorem accounts_only_grow_witness:
  "keeps no_users (user_run ex_user_env [Register (ex_new ''ann@acme.io''), ValidateEmail 5 ''T'' None] no_users) \<and>
   no_emails (user_run ex_user_env [Register (ex_new ''ann@acme.io''), ValidateEmail 5 ''T'' None] no_users)"
  by (rule accounts_only_grow) (rule no_users_ok)

text \<open>C22. The tables stay consistent through any sequence of operations: one row per token, per tenant host,
  per user id and per provider, uid and deletion time; every user has its tenant, every identity its user.\<close>

theorem user_tables_stay_ok:
  assumes "user_db_ok db"
  shows "user_db_ok (user_run env ops db)"
  unfolding user_run_def using assms by (rule table_runs.run_keeps)

theorem user_tables_stay_ok_witness:
  "user_db_ok (user_run ex_user_env [Register (ex_new ''ann@acme.io''), Register (ex_new ''bob@acme.io'')] no_users)"
  by (rule user_tables_stay_ok) (rule no_users_ok)

lemma findUserIdentity_None:
  "findUserIdentity env db (Some m) p True = None \<Longrightarrow>
     find (\<lambda>ui. ui_uid ui = m \<and> ui_provider ui = p \<and> ui_deletedAt ui = 0 \<and> Q ui) (ud_identities db) = None"
  by (auto simp: findUserIdentity_def find_None_iff)

lemma find_by_pk:
  "distinct (map f xs) \<Longrightarrow> x \<in> set xs \<Longrightarrow> P x \<Longrightarrow> find (\<lambda>y. f y = f x \<and> P y) xs = Some x"
proof (induction xs)
  case (Cons y ys)
  then show ?case by (cases "f y = f x") (auto simp: image_iff dest: inj_onD)
qed simp

text \<open>C21. A local account that was registered with a password can log in with exactly the passwords that the
  hash comparison accepts, and belongs to an active tenant.\<close>

theorem register_then_login:
  assumes ok: "user_db_ok db"
    and ni: "ni_provider ni = ''local''" "ni_uid ni = Some email" "ni_credentials ni = Some pwd" "pwd \<noteq> []"
    and new: "findUserIdentity env db (Some email) ''local'' True = None"
    and reg: "registerUserFromIdentity env ni db = Inr (db', j)"
    and hash: "\<And>s. us_compare env pwd (us_hash env s pwd) \<and> us_hash env s pwd \<noteq> []"
  shows "length pwd \<ge> 8 \<and>
    (\<exists>u t. login env db' email (Some pwd) = Inr u \<and> t \<in> set (ud_tenants db') \<and> us_tenantPk u = tn_pk t \<and>
       tn_statusCode t > 0 \<and> jn_user j = Some u) \<and>
    (\<forall>q. \<not> us_compare env q (ui_credentials (jn_ui j)) \<longrightarrow>
       login env db' email (Some q) = Inl (Unauthorized ''Unauthorized''))"
proof -
  from reg new ni(1,2) obtain dbx where c: "createIdentity env ni db = Inr (dbx, j)"
    and d': "db' = (if ui_email_verified (jn_ui j) \<and> \<not> (\<exists>u \<in> set_option (jn_user j). nonempty_str (us_email u))
            then setUserEmail (ui_userId (jn_ui j)) (ui_email (jn_ui j)) dbx else dbx)"
    by (auto simp: registerUserFromIdentity_def outcome_simps)
  from c show ?thesis
  proof (cases rule: createIdentity_cases)
    case (1 db1 t db3 cred)
    let ?i = "us_uuid env (ud_seq db1)"
    have t: "t \<in> set (ud_tenants db1)" and o1: "user_db_ok db1" using registerTenant_ok [OF ok 1(1)] by simp_all
    have same: "ud_identities db3 = ud_identities db" "ud_users db3 = ud_users db" "ud_tenants db3 = ud_tenants db1"
      and cred: "cred = Some (us_hash env (ud_seq db1 + 1) pwd)" and len: "length pwd \<ge> 8"
      using registerTenant_keeps [OF 1(1)] 1(4) ni
      by (auto simp: updateLocalPassword_def hash_password_def outcome_simps split: if_splits)
    define h where "h = us_hash env (ud_seq db1 + 1) pwd"
    define u where "u = new_user ni t ?i (ud_next db3)"
    define x where "x = new_row ni email h t ?i (ud_next db3 + 1)"
    have ins: "insertAccount u x t db3 = Inr (dbx, j)"
      using 1(5) ni(2) cred by (elim addAccount_cases) (auto simp: u_def x_def h_def)
    then have fresh: "us_id u \<notin> us_id ` set (ud_users db3)"
      and dbx: "dbx = db3\<lparr>ud_users := ud_users db3 @ [u], ud_identities := ud_identities db3 @ [x], ud_next := ud_next db3 + 2\<rparr>"
      and j: "j = \<lparr>jn_ui = x, jn_user = Some u, jn_tenant = Some t\<rparr>"
      by (auto simp: insertAccount_Inr)
    have ids: "us_id u = ?i" "us_email u = None" "ui_userId x = ?i"
      by (simp_all add: u_def x_def new_user_def new_row_def)
    have "setUserEmail ?i m dbx = dbx" for m
      by (rule setUserEmail_idle) (use fresh ids in \<open>force simp: dbx image_iff\<close>)
    then have "db' = dbx" using d' unfolding j by (simp add: ids)
    have uo: "user_of env db' ?i = Some u"
    proof -
      have "find (\<lambda>v. us_id v = ?i \<and> (us_deep env \<longrightarrow> us_deletedAt v = 0)) (ud_users db3) = None"
        using fresh unfolding ids(1) by (force simp: find_None_iff image_iff)
      then show ?thesis
        using 1(2) by (simp add: user_of_def find_app \<open>db' = dbx\<close> dbx) (simp add: u_def new_user_def)
    qed
    have to: "tenant_of env db' (tn_pk t) = Some t"
      unfolding tenant_of_def \<open>db' = dbx\<close> dbx using find_by_pk [of tn_pk "ud_tenants db1" t] o1 t same(3) 1(2)
      by (simp add: user_db_ok_def)
    have jo: "join_identity env db' x = \<lparr>jn_ui = x, jn_user = Some u, jn_tenant = Some t\<rparr>"
      using uo to by (simp add: join_identity_def x_def new_row_def) (simp add: u_def new_user_def to)
    have f: "findUserIdentity env db' (Some email) ''local'' False = Some j"
      using findUserIdentity_None [OF new, of "\<lambda>ui. active_tenant (join_identity env db' ui)"] jo 1(2,3) ni(1) same(1)
      unfolding findUserIdentity_def \<open>db' = dbx\<close> dbx j
      by (simp add: find_app active_tenant_def) (simp add: x_def new_row_def)
    have l: "login env db' email (Some q) = (if us_compare env q h then Inr u else Inl (Unauthorized ''Unauthorized''))" for q
      unfolding login_def f using hash [of "ud_seq db1 + 1"] by (simp add: j x_def new_row_def h_def)
    have tt: "t \<in> set (ud_tenants db')" using t same(3) \<open>db' = dbx\<close> dbx by simp
    have hx: "ui_credentials (jn_ui j) = h" "us_tenantPk u = tn_pk t" by (simp_all add: j x_def new_row_def u_def new_user_def)
    show ?thesis
      using len l hash [of "ud_seq db1 + 1"] tt hx 1(3) by (auto simp: j h_def)
  qed
qed

theorem register_then_login_witness:
  "\<exists>db' j. registerUserFromIdentity ex_user_env (ex_new ''ann@acme.io'') no_users = Inr (db', j) \<and>
     (\<exists>u. login ex_user_env db' ''ann@acme.io'' (Some ''12345678'') = Inr u)"
proof -
  have new: "findUserIdentity ex_user_env no_users (Some ''ann@acme.io'') ''local'' True = None"
    by (simp add: findUserIdentity_def no_users_def)
  obtain db' j where r: "registerUserFromIdentity ex_user_env (ex_new ''ann@acme.io'') no_users = Inr (db', j)"
    using new by (simp add: registerUserFromIdentity_def createIdentity_def registerTenant_def ex_new_def no_users_def
        mail_parts_def ex_user_env_def updateLocalPassword_def hash_password_def addAccount_def insertAccount_def
        new_user_def Let_def)
  have ni: "ni_provider (ex_new ''ann@acme.io'') = ''local''" "ni_uid (ex_new ''ann@acme.io'') = Some ''ann@acme.io''"
    "ni_credentials (ex_new ''ann@acme.io'') = Some ''12345678''" "''12345678'' \<noteq> ([] :: string)"
    by (simp_all add: ex_new_def)
  have h: "us_compare ex_user_env ''12345678'' (us_hash ex_user_env n ''12345678'') \<and> us_hash ex_user_env n ''12345678'' \<noteq> []" for n
    by (simp add: ex_user_env_def)
  from register_then_login [OF no_users_ok(1) ni new r h] r show ?thesis by blast
qed

lemma registerTenant_found:
  assumes "registerTenant env (Some h) db = (db', t)" "h \<noteq> []"
  shows "tn_emailHost t = Some h"
  using assms by (auto simp: registerTenant_def Let_def find_Some_iff split: option.splits)

lemma host_tenant_unique:
  assumes "user_db_ok db" "t \<in> set (ud_tenants db)" "t' \<in> set (ud_tenants db)" "tn_emailHost t = Some h" "tn_emailHost t' = Some h"
  shows "t = t'"
proof -
  have "distinct (List.map_filter tn_emailHost xs) \<Longrightarrow> t \<in> set xs \<Longrightarrow> t' \<in> set xs \<Longrightarrow> t = t'" for xs
  proof (induction xs)
    case (Cons x xs)
    have "h \<in> set (List.map_filter tn_emailHost xs)" if "y \<in> set xs" "tn_emailHost y = Some h" for y
      using that by (force simp: List.map_filter_def)
    with Cons assms(4,5) show ?case by (auto simp: List.map_filter_simps split: option.splits)
  qed simp
  moreover have "distinct (List.map_filter tn_emailHost (ud_tenants db))"
    using assms(1) by (simp add: user_db_ok_def hosts_def)
  ultimately show ?thesis using assms(2,3) by blast
qed

text \<open>The mail host decides the tenant: whatever happens in between, two accounts created from mails of
  one host belong to the same tenant, and so share its balance. No list of public mail hosts is consulted,
  so this holds for the users of a public mail provider too.\<close>

theorem same_host_same_tenant:
  assumes ok: "user_db_ok db" "no_emails db"
    and hosts: "snd (mail_parts (ni_email a)) = Some h" "snd (mail_parts (ni_email b)) = Some h" "h \<noteq> []"
    and first: "createIdentity env a db = Inr (db1, j1)"
    and later: "db2 = user_run env ops db1"
    and second: "createIdentity env b db2 = Inr (db3, j2)"
  shows "jn_tenant j2 = jn_tenant j1 \<and> jn_tenant j1 \<noteq> None"
proof -
  have A: "\<exists>t. jn_tenant j = Some t \<and> tn_emailHost t = Some h \<and> t \<in> set (ud_tenants d')"
    if "createIdentity env ni d = Inr (d', j)" "snd (mail_parts (ni_email ni)) = Some h" "user_db_ok d" for ni d d' j
    using that(1)
  proof (cases rule: createIdentity_cases)
    case (1 db1 t db3 cred)
    have "tn_emailHost t = Some h" using 1(1) that(2) hosts(3) by (auto intro: registerTenant_found)
    moreover have "t \<in> set (ud_tenants db1)" using registerTenant_ok [OF that(3) 1(1)] by simp
    moreover have "ud_tenants db3 = ud_tenants db1" using 1(4) by (auto split: if_splits dest: updateLocalPassword_keeps)
    moreover have "jn_tenant j = Some t \<and> ud_tenants d' = ud_tenants db3"
      using 1(5) by (elim addAccount_cases) (auto simp: insertAccount_Inr)
    ultimately show ?thesis by simp
  qed
  have o1: "user_db_ok db1" using ok(1) first by (rule createIdentity_ok)
  have e1: "no_emails db1" using ok(2) createIdentity_keeps [OF first] by (rule no_emails_keeps)
  have o2: "user_db_ok db2" unfolding later user_run_def using o1 by (rule table_runs.run_keeps)
  have k: "keeps db1 db2 \<and> no_emails db2" unfolding later user_run_def
    by (rule account_runs.run_keeps) (simp add: e1)
  have o3: "user_db_ok db3" using o2 second by (rule createIdentity_ok)
  obtain t1 t2 where t: "jn_tenant j1 = Some t1" "tn_emailHost t1 = Some h" "t1 \<in> set (ud_tenants db1)"
    "jn_tenant j2 = Some t2" "tn_emailHost t2 = Some h" "t2 \<in> set (ud_tenants db3)"
    using A [OF first hosts(1) ok(1)] A [OF second hosts(2) o2] by blast
  have "keeps db1 db3" using k createIdentity_keeps [OF second] by (blast intro: keeps_trans)
  then have "t1 \<in> set (ud_tenants db3)" using t(3) by (auto simp: keeps_def prefix_def)
  then show ?thesis using host_tenant_unique [OF o3 _ t(6) t(2,5)] t(1,4) by simp
qed

theorem same_host_same_tenant_witness:
  "\<exists>db1 j1 db3 j2. createIdentity ex_user_env (ex_new ''ann@gmail.com'') no_users = Inr (db1, j1) \<and>
     createIdentity ex_user_env (ex_new ''bob@gmail.com'') db1 = Inr (db3, j2) \<and> jn_tenant j2 = jn_tenant j1"
proof -
  note defs = createIdentity_def registerTenant_def ex_new_def no_users_def mail_parts_def ex_user_env_def
    updateLocalPassword_def hash_password_def addAccount_def insertAccount_def new_user_def new_row_def Let_def
  obtain db1 j1 where 1: "createIdentity ex_user_env (ex_new ''ann@gmail.com'') no_users = Inr (db1, j1)"
    by (simp add: defs)
  then obtain db3 j2 where 2: "createIdentity ex_user_env (ex_new ''bob@gmail.com'') db1 = Inr (db3, j2)"
    by (auto simp: defs)
  have h: "snd (mail_parts (ni_email (ex_new ''ann@gmail.com''))) = Some ''gmail.com''"
    "snd (mail_parts (ni_email (ex_new ''bob@gmail.com''))) = Some ''gmail.com''"
    by (simp_all add: ex_new_def mail_parts_def)
  have "jn_tenant j2 = jn_tenant j1 \<and> jn_tenant j1 \<noteq> None"
    by (rule same_host_same_tenant [OF no_users_ok h _ 1, of "db1" "[]" db3 j2]) (simp_all add: user_run_def 2)
  with 1 2 show ?thesis by blast
qed

text \<open>An OAuth answer without an id logs in as somebody else: a uid that is undefined is no condition of the
  query, so the registration hands out the first account of the provider.\<close>

theorem undefined_uid_takes_first_account:
  assumes "ud_identities db = xs @ x # ys" "\<forall>y\<in>set xs. ui_provider y \<noteq> p" "ui_provider x = p" "p \<noteq> ''local''"
    and "ui_deletedAt x = 0" "join_identity env db x = j" "jn_user j = Some u" "us_deletedAt u = 0"
    and "jn_tenant j = Some t" "tn_deletedAt t = 0" "tn_statusCode t > 0"
    and "ni_provider ni = p" "ni_uid ni = None"
  shows "\<exists>db'. registerUserFromIdentity env ni db = Inr (db', j) \<and> jn_ui j = x"
proof -
  have j: "jn_ui j = x" using assms(6) by (auto simp: join_identity_def Let_def)
  have "find (\<lambda>ui. ui_provider ui = p \<and> 0 \<le> ui_deletedAt ui) xs = None"
    using assms(2) by (auto simp: find_None_iff)
  then have f: "findUserIdentity env db None p True = Some j"
    using assms(1,3,5,6) by (simp add: findUserIdentity_def find_app)
  have "checkExisting env ni j db = Inr (db\<lparr>ud_tenant := Some (tn_pk t)\<rparr>, j)"
    using j assms by (simp add: checkExisting_def)
  with f j assms(12,13) show ?thesis by (simp add: registerUserFromIdentity_def)
qed

definition one_account :: user_db where
  "one_account = no_users\<lparr>
     ud_tenants := [\<lparr>tn_pk = 1, tn_id = ''1'', tn_emailHost = None, tn_name = None, tn_type = 1, tn_statusCode = 1,
        tn_balance = 0, tn_currency = ''USD'', tn_deletedAt = 0\<rparr>],
     ud_users := [\<lparr>us_pk = 1, us_id = ''u'', us_name = ''ann'', us_email = None, us_avatar = None, us_tenantPk = 1, us_deletedAt = 0\<rparr>],
     ud_identities := [\<lparr>ui_pk = 2, ui_tenantPk = 1, ui_provider = ''github'', ui_uid = ''77'', ui_credentials = ''c'',
        ui_name = None, ui_email = None, ui_email_verified = False, ui_avatar = None, ui_userId = ''u'', ui_deletedAt = 0\<rparr>]\<rparr>"

theorem undefined_uid_takes_first_account_witness:
  "\<exists>db'. registerUserFromIdentity ex_user_env ((ex_new ''x'')\<lparr>ni_provider := ''github'', ni_uid := None\<rparr>) one_account
     = Inr (db', join_identity ex_user_env one_account (hd (ud_identities one_account)))"
proof -
  let ?x = "hd (ud_identities one_account)"
  have "\<exists>db'. registerUserFromIdentity ex_user_env ((ex_new ''x'')\<lparr>ni_provider := ''github'', ni_uid := None\<rparr>) one_account
     = Inr (db', join_identity ex_user_env one_account ?x) \<and> jn_ui (join_identity ex_user_env one_account ?x) = ?x"
    by (rule undefined_uid_takes_first_account [where xs = "[]" and ys = "[]" and p = "''github''" and
          u = "hd (ud_users one_account)" and t = "hd (ud_tenants one_account)"])
      (simp_all add: one_account_def no_users_def join_identity_def user_of_def tenant_of_def ex_user_env_def ex_new_def)
  then show ?thesis by blast
qed

end
