(* ===== verification/Sessions.thy ===== *)
theory Sessions
  imports Users
begin

text \<open>
  Logging in: \<open>src/infras/auth\<close> (cookie, JWT claims, local and OAuth login), the login listener of
  \<open>src/users/listeners\<close> and the user controller's confirmation of a mail. The JWT package signs the
  claims; \<open>JSON.stringify\<close> and the package \<open>ms\<close> are parameters.
\<close>

section \<open>Cookies and claims\<close>

text \<open>The configuration: \<open>None\<close> is an unset variable.\<close>

type_synonym config = "string \<Rightarrow> string option"

text \<open>\<open>ms\<close> turns a duration such as \<open>7d\<close> into milliseconds; without a duration it throws.\<close>

definition genAuthCookie :: "(string option \<Rightarrow> rat result) \<Rightarrow> config \<Rightarrow> string \<Rightarrow> string option result" where
  "genAuthCookie ms cfg token =
     (case cfg ''JWT_COOKIE_NAME'' of
        None \<Rightarrow> Inr None
      | Some cookieName \<Rightarrow>
          (if cookieName = [] then Inr None
           else and_then (ms (cfg ''JWT_EXPIRES_IN'')) (\<lambda>d.
             let env = (case cfg ''NODE_ENV'' of None \<Rightarrow> ''dev'' | Some e \<Rightarrow> e);
                 secure = (if prefix ''dev'' (to_lower env) then [] else ''Secure;'');
                 httpOnly = (if nonempty_str (cfg ''NOT_HTTP_ONLY'') then [] else ''HttpOnly;'');
                 domain = (case cfg ''SITE_ROOT_DOMAIN'' of None \<Rightarrow> ''undefined'' | Some x \<Rightarrow> x)
             in Inr (Some (cookieName @ ''='' @ token @ ''; '' @ httpOnly @ '' '' @ secure @
                  '' Path=/; SameSite=Strict; Domain=.'' @ domain @ ''; Max-Age='' @ show_int \<lfloor>d\<rfloor> @ '';'')))))"

record claims = session +
  cl_iat :: int
  cl_jti :: string

definition jwt_claims :: "string \<Rightarrow> int \<Rightarrow> string \<Rightarrow> session \<Rightarrow> claims" where
  "jwt_claims alph now rnd s = session.extend s \<lparr>cl_iat = now div 1000, cl_jti = intToBase64 alph now @ rnd\<rparr>"

section \<open>The login listener\<close>

text \<open>What the OAuth provider answers about its user; \<open>token\<close> is the token object of the login.\<close>

record oauth_info =
  oi_id :: "string option"
  oi_email :: "string option"
  oi_verified_email :: bool
  oi_name :: "string option"
  oi_picture :: "string option"

record oauth_token =
  ot_fields :: "json obj"
  ot_expiresIn :: int

definition strip_token :: "string list \<Rightarrow> json obj \<Rightarrow> json obj" where
  "strip_token ks o1 = filter (\<lambda>(k, _). k \<notin> set ks) o1"

definition retrieveUserInfoFromOauth ::
    "(json \<Rightarrow> string) \<Rightarrow> (string \<Rightarrow> oauth_token \<Rightarrow> oauth_info option result) \<Rightarrow> int \<Rightarrow> string \<Rightarrow> oauth_token option \<Rightarrow>
     new_identity option result" where
  "retrieveUserInfoFromOauth dump fetch now provider token =
     (case token of
        None \<Rightarrow> Inl (BadRequest ''Invalid oauth token'')
      | Some tok \<Rightarrow>
          (if provider = ''github'' then
             and_then (fetch ''https://api.github.com/user'' tok) (\<lambda>u. Inr (map_option (\<lambda>u.
               \<lparr>ni_provider = ''github'', ni_uid = oi_id u, ni_email = oi_email u, ni_email_verified = nonempty_str (oi_email u),
                ni_name = oi_name u, ni_avatar = oi_picture u,
                ni_credentials = Some (dump (JObj (strip_token [''access_token'', ''token_type''] (ot_fields tok))))\<rparr>) u))
           else if provider = ''google'' then
             and_then (fetch ''https://www.googleapis.com/oauth2/v2/userinfo'' tok) (\<lambda>u. Inr (map_option (\<lambda>u.
               \<lparr>ni_provider = ''google'', ni_uid = oi_id u, ni_email = oi_email u, ni_email_verified = oi_verified_email u,
                ni_name = None, ni_avatar = oi_picture u,
                ni_credentials = Some (dump (JObj (obj_set ''expiresTs'' (JNum (of_int (now div 1000 + ot_expiresIn tok)))
                  (strip_token [''access_token'', ''expires_in'', ''token_type''] (ot_fields tok)))))\<rparr>) u))
           else Inl (BadRequest (''Unsupported Oauth provider '' @ provider))))"

datatype login_event =
    PasswordLogin string "string option"
  | OAuthLogin string "oauth_token option"
  | BypassLogin string user
  | OtherLogin string

definition handleLogin ::
    "(json \<Rightarrow> string) \<Rightarrow> (string \<Rightarrow> oauth_token \<Rightarrow> oauth_info option result) \<Rightarrow> user_env \<Rightarrow> int \<Rightarrow> login_event \<Rightarrow> user_db \<Rightarrow>
     (user_db \<times> session) result" where
  "handleLogin dump fetch env now e db =
     (case e of
        PasswordLogin name pwd \<Rightarrow> and_then (login env db name pwd) (\<lambda>u. Inr (db, session_of ''local'' u))
      | OAuthLogin provider token \<Rightarrow>
          and_then (retrieveUserInfoFromOauth dump fetch now provider token) (\<lambda>ni.
            case ni of
              None \<Rightarrow> Inl (TypeError ''Cannot read properties of undefined'')
            | Some ni \<Rightarrow> and_then (registerUserFromIdentity env ni db) (\<lambda>(db', j).
                case jn_user j of None \<Rightarrow> Inl (TypeError ''Cannot read properties of null'')
                | Some u \<Rightarrow> Inr (db', session_of provider u)))
      | BypassLogin provider u \<Rightarrow> Inr (db, session_of provider u)
      | OtherLogin t \<Rightarrow> Inl (BadRequest (''Invalid auth type:'' @ t)))"

text \<open>The local strategy: the listener's payload, then the tenant of the request.\<close>

definition localLogin :: "user_env \<Rightarrow> string \<Rightarrow> string option \<Rightarrow> user_db \<Rightarrow> (user_db \<times> session) result" where
  "localLogin env name pwd db =
     and_then (handleLogin (\<lambda>_. []) (\<lambda>_ _. Inr None) env 0 (PasswordLogin name pwd) db) (\<lambda>(db', s). Inr (logined s db', s))"

section \<open>OAuth in the browser\<close>

text \<open>The state parameter carries the page to return to behind an at sign.\<close>

definition oauthState :: "string \<Rightarrow> string option \<Rightarrow> string" where
  "oauthState state successUri = state @ ''@'' @ str_or successUri []"

definition splitState :: "string option \<Rightarrow> string option \<times> string option" where
  "splitState states =
     (case states of None \<Rightarrow> (None, None)
      | Some s \<Rightarrow> (case split_char (CHR ''@'') s of [] \<Rightarrow> (None, None) | [a] \<Rightarrow> (Some a, None) | a # b # _ \<Rightarrow> (Some a, Some b)))"

datatype reply = Redirect string | Send string

record 'a http_reply =
  hr_cookie :: "string option"
  hr_body :: 'a

text \<open>\<open>oauthCallback\<close>: \<open>verify\<close> is the state service's answer, \<open>access\<close> the access token of the code,
  \<open>sign\<close> the JWT package.\<close>

definition oauthCallback ::
    "(string option \<Rightarrow> bool) \<Rightarrow> (string \<Rightarrow> oauth_token option result) \<Rightarrow> (session \<Rightarrow> string) \<Rightarrow> (string \<Rightarrow> string option result) \<Rightarrow>
     (login_event \<Rightarrow> user_db \<Rightarrow> (user_db \<times> session) result) \<Rightarrow> string \<Rightarrow> string \<Rightarrow> string option \<Rightarrow> user_db \<Rightarrow>
     (user_db \<times> reply http_reply) result" where
  "oauthCallback verify access sign cookie handle provider code states db =
     (let (state, successUri) = splitState states
      in if \<not> verify state then Inl (BadRequest ''Invalid state'')
         else and_then (access code) (\<lambda>tok.
           and_then (handle (OAuthLogin provider tok) db) (\<lambda>(db', s).
             let token = sign s
             in and_then (cookie token) (\<lambda>c.
                  Inr (logined s db', \<lparr>hr_cookie = (if nonempty_str c then c else None),
                        hr_body = (if nonempty_str successUri then Redirect (the successUri) else Send token)\<rparr>)))))"

section \<open>Confirmation of a mail\<close>

definition confirmEmail ::
    "(session \<Rightarrow> string) \<Rightarrow> (string \<Rightarrow> string option result) \<Rightarrow> user_env \<Rightarrow> int \<Rightarrow> string \<Rightarrow> string option \<Rightarrow> user_db \<Rightarrow>
     user_db \<times> string http_reply result" where
  "confirmEmail sign cookie env now token pwd db =
     (case validateEmail env now token pwd db of
        Inl e \<Rightarrow> (db, Inl e)
      | Inr (db', None) \<Rightarrow> (db', Inl (Unauthorized ''Invalid or expired confirmation token''))
      | Inr (db', Some s) \<Rightarrow>
          (case cookie (sign s) of
             Inl e \<Rightarrow> (db', Inl e)
           | Inr c \<Rightarrow> (db', Inr \<lparr>hr_cookie = (if nonempty_str c then c else None), hr_body = sign s\<rparr>)))"

section \<open>Properties\<close>

lemma hd_split_nosep: "hd (split_char c s) = s \<longleftrightarrow> c \<notin> set s"
  using split_pieces [of "hd (split_char c s)" c s] by (auto simp: split_nosep)

lemma hd_split_prefix: "prefix (hd (split_char c s)) s"
proof (cases "split_char c s")
  case (Cons p ps)
  then show ?thesis
    using join_split [of c s] by (cases ps) (auto intro: prefixI [OF sym])
qed simp

text \<open>The page to return to survives the detour over the OAuth provider exactly when it holds no at sign:
  the state comes back, and of the page the part before its first at sign.\<close>

theorem oauth_state_roundtrip:
  assumes "CHR ''@'' \<notin> set state"
  shows "\<exists>u. splitState (Some (oauthState state uri)) = (Some state, Some u) \<and> prefix u (str_or uri []) \<and>
           (u = str_or uri [] \<longleftrightarrow> CHR ''@'' \<notin> set (str_or uri []))"
proof -
  let ?u = "hd (split_char (CHR ''@'') (str_or uri []))"
  have "splitState (Some (oauthState state uri)) = (Some state, Some ?u)"
    using assms by (cases "split_char (CHR ''@'') (str_or uri [])")
      (auto simp: splitState_def oauthState_def split_at_sep)
  moreover have "prefix ?u (str_or uri [])" by (rule hd_split_prefix)
  ultimately show ?thesis using hd_split_nosep [of "CHR ''@''" "str_or uri []"] by blast
qed

theorem oauth_state_roundtrip_witness:
  "\<exists>u. splitState (Some (oauthState ''s1'' (Some ''https://a.io/@me''))) = (Some ''s1'', Some u) \<and> u \<noteq> ''https://a.io/@me''"
  using oauth_state_roundtrip [of "''s1''" "Some ''https://a.io/@me''"] by force

lemma addAccount_tokens: "addAccount ni t i cred db = Inr (db', j) \<Longrightarrow> ud_tokens db' = ud_tokens db"
  by (elim addAccount_cases) (auto simp: insertAccount_Inr)

lemma createIdentity_tokens: "createIdentity env ni db = Inr (db', j) \<Longrightarrow> ud_tokens db' = ud_tokens db"
  by (elim createIdentity_cases)
    (auto dest!: registerTenant_keeps addAccount_tokens updateLocalPassword_keeps split: if_splits)

lemma register_tokens: "registerUserFromIdentity env ni db = Inr (db', j) \<Longrightarrow> ud_tokens db' = ud_tokens db"
  by (erule register_cases) (auto simp: setUserEmail_def dest: createIdentity_tokens)

lemma confirmIdentity_tokens: "confirmIdentity env p pwd db = Inr (db', j) \<Longrightarrow> ud_tokens db' = ud_tokens db"
  by (auto simp: confirmIdentity_def Let_def outcome_simps dest: register_tokens updateLocalPassword_keeps
      split: option.splits if_splits)

lemma verified_once:
  assumes "token_db_ok db" "verify_token now t ty True db = (db', Some p)"
  shows "verify_token later t ty' once db' = (db', None)"
proof -
  have "uses_up t (Verify now t ty True, snd (token_step (Verify now t ty True) db))" using assms(2) by simp
  with killed [OF assms(1), of t "Verify now t ty True"] assms(2) have "find_token db' t = None"
    using drop_token_gone [OF assms(1)]
    by (auto simp: verify_token_def Let_def find_Some_iff in_set_conv_nth split: option.splits if_splits)
  then have "find (\<lambda>r. tk_token r = t \<and> tk_type r = ty') (td_tokens db') = None"
    by (auto simp: find_token_None find_None_iff)
  then show ?thesis by (simp add: verify_token_def)
qed

text \<open>A confirmation link works once: after it was answered with a session, it is refused with 401 at any
  later time and with any password, and changes nothing; when the confirmation fails the link stays valid.\<close>

theorem confirmation_link_once:
  assumes "token_db_ok (ud_tokens db)" "confirmEmail sign cookie env now token pwd db = (db', Inr r)"
  shows "confirmEmail sign cookie env later token pwd' db' = (db', Inl (Unauthorized ''Invalid or expired confirmation token''))"
proof -
  from assms(2) obtain s where v: "validateEmail env now token pwd db = Inr (db', Some s)"
    by (auto simp: confirmEmail_def split: sum.splits option.splits prod.splits)
  then obtain tdb p db1 j u where t: "verify_token now token TT_API_KEY True (ud_tokens db) = (tdb, Some p)"
    "confirmIdentity env p pwd (db\<lparr>ud_tokens := tdb\<rparr>) = Inr (db1, j)"
    "db' = logined (session_of (ui_provider (jn_ui j)) u) (setUserEmail (ui_userId (jn_ui j)) (jp_sub p) db1)"
    by (cases rule: validateEmail_cases) auto
  then have "ud_tokens db' = tdb" by (auto simp: logined_def setUserEmail_def dest: confirmIdentity_tokens)
  then have "validateEmail env later token pwd' db' = Inr (db', None)"
    using verified_once [OF assms(1) t(1)] by (simp add: validateEmail_def)
  then show ?thesis by (simp add: confirmEmail_def)
qed

theorem confirmation_link_once_witness:
  "\<exists>db db' r. confirmEmail (\<lambda>_. ''jwt'') (\<lambda>_. Inr None) ex_user_env 5 ''T'' (Some ''12345678'') db = (db', Inr r) \<and>
     snd (confirmEmail (\<lambda>_. ''jwt'') (\<lambda>_. Inr None) ex_user_env 6 ''T'' None db') =
       Inl (Unauthorized ''Invalid or expired confirmation token'')"
proof -
  let ?db = "no_users\<lparr>ud_tokens := \<lparr>td_tokens = [\<lparr>tk_pk = 1, tk_token = ''T'', tk_type = TT_API_KEY,
     tk_payload = Some (ex_payload\<lparr>jp_create := True\<rparr>), tk_revoked = False, tk_expiresAt = Some 5000\<rparr>], td_next = 2\<rparr>\<rparr>"
  have "\<exists>db' r. confirmEmail (\<lambda>_. ''jwt'') (\<lambda>_. Inr None) ex_user_env 5 ''T'' (Some ''12345678'') ?db = (db', Inr r)"
    by (simp add: confirmEmail_def validateEmail_def verify_token_def token_expired_def drop_token_def ex_payload_def
        confirmIdentity_def findUserIdentity_def registerUserFromIdentity_def createIdentity_def registerTenant_def
        no_users_def mail_parts_def ex_user_env_def updateLocalPassword_def hash_password_def addAccount_def
        insertAccount_def new_user_def new_row_def Let_def)
  then obtain db' r where c: "confirmEmail (\<lambda>_. ''jwt'') (\<lambda>_. Inr None) ex_user_env 5 ''T'' (Some ''12345678'') ?db = (db', Inr r)"
    by blast
  have ok: "token_db_ok (ud_tokens ?db)" by (simp add: token_db_ok_def)
  from confirmation_link_once [OF ok c, of 6 None] c show ?thesis by fastforce
qed

end
