(* ===== verification/Billing.thy ===== *)
theory Billing
  imports Users
begin

text \<open>
  \<open>src/billing\<close> and \<open>src/transactions\<close>: the balance of a tenant, the transactions that change it, recharges
  by the payment provider's webhook and the expense of a model completion. Amounts are in units of
  1e-11 dollar, columns of type \<open>Decimal(30, 0)\<close>. Every operation runs in one database transaction, so
  an error changes nothing.
\<close>

section \<open>State\<close>

datatype tx_type = RECHARGE | GIFT | REFUND | EXPENSE

record transaction =
  tr_id :: string
  tr_txId :: string
  tr_refData :: "json option"
  tr_type :: tx_type
  tr_amount :: int
  tr_currency :: string
  tr_userId :: string
  tr_tenantPk :: int

record pricing =
  pc_model :: string
  pc_provider :: string
  pc_price :: json
  pc_currency :: string
  pc_method :: string

record billing_db =
  bl_users :: user_db
  bl_txs :: "transaction list"
  bl_pricing :: "pricing list"

text \<open>A decimal of scale 0 stores the nearest integer, ties away from zero, of at most 30 digits.\<close>

definition dec0 :: "rat \<Rightarrow> int" where
  "dec0 x = (if x < 0 then - \<lfloor>1/2 - x\<rfloor> else \<lfloor>x + 1/2\<rfloor>)"

definition dec_store :: "rat \<Rightarrow> int result" where
  "dec_store x = (if \<bar>dec0 x\<bar> < 10 ^ 30 then Inr (dec0 x) else Inl (PlainError ''numeric field overflow''))"

section \<open>Transactions\<close>

definition findTenantOf :: "user_env \<Rightarrow> user_db \<Rightarrow> string option \<Rightarrow> tenant option" where
  "findTenantOf env db userId =
     (if \<not> nonempty_str userId then None
      else Option.bind (find (\<lambda>u. us_id u = the userId \<and> us_deletedAt u = 0) (ud_users db))
             (\<lambda>u. tenant_of env db (us_tenantPk u)))"

definition getTenant :: "user_env \<Rightarrow> user_db \<Rightarrow> string option \<Rightarrow> tenant result" where
  "getTenant env db userId =
     (case findTenantOf env db userId of
        None \<Rightarrow> Inl (PlainError (''Tenant not found for user '' @ (case userId of None \<Rightarrow> ''undefined'' | Some u \<Rightarrow> u)))
      | Some t \<Rightarrow> Inr t)"

definition check_balance :: "user_env \<Rightarrow> billing_db \<Rightarrow> string option \<Rightarrow> int result" where
  "check_balance env db userId =
     and_then (getTenant env (bl_users db) userId) (\<lambda>t.
       if tn_balance t > 0 then Inr (tn_balance t) else Inl (PaymentRequired ''Insufficient balance''))"

record tx_dto =
  dt_txId :: string
  dt_userId :: "string option"
  dt_amount :: rat
  dt_currency :: string
  dt_refData :: "json option"
  dt_type :: tx_type

definition bad_sign :: "tx_dto \<Rightarrow> bool" where
  "bad_sign d \<longleftrightarrow> (dt_amount d > 0 \<and> dt_type d \<in> {EXPENSE, REFUND}) \<or> (dt_amount d < 0 \<and> dt_type d \<in> {RECHARGE, GIFT})"

definition add_balance :: "int \<Rightarrow> int \<Rightarrow> user_db \<Rightarrow> user_db" where
  "add_balance pk b db =
     db\<lparr>ud_tenants := map (\<lambda>t. if tn_pk t = pk then t\<lparr>tn_balance := b\<rparr> else t) (ud_tenants db)\<rparr>"

definition createTransaction :: "user_env \<Rightarrow> tx_dto \<Rightarrow> billing_db \<Rightarrow> (billing_db \<times> transaction \<times> int) result" where
  "createTransaction env d db =
     (let i = us_uuid env (ud_seq (bl_users db))
      in and_then (getTenant env (bl_users db) (dt_userId d)) (\<lambda>t.
         if bad_sign d then Inl (BadRequest ''Invalid amount and type'')
         else if \<exists>x\<in>set (bl_txs db). tr_txId x = dt_txId d \<or> tr_id x = i
              then Inl (PlainError ''Unique constraint failed on the fields: (`txId`)'')
         else and_then (dec_store (dt_amount d)) (\<lambda>a.
              and_then (dec_store (of_int (tn_balance t) + dt_amount d)) (\<lambda>b.
                let tx = \<lparr>tr_id = i, tr_txId = dt_txId d, tr_refData = dt_refData d, tr_type = dt_type d, tr_amount = a,
                          tr_currency = dt_currency d, tr_userId = str_or (dt_userId d) [], tr_tenantPk = tn_pk t\<rparr>
                in Inr (db\<lparr>bl_users := add_balance (tn_pk t) b ((bl_users db)\<lparr>ud_seq := ud_seq (bl_users db) + 1\<rparr>),
                          bl_txs := bl_txs db @ [tx]\<rparr>, tx, b)))))"

section \<open>Recharge and expense\<close>

definition addRecharge :: "user_env \<Rightarrow> string option \<Rightarrow> rat \<Rightarrow> string \<Rightarrow> string option \<Rightarrow> json option \<Rightarrow> billing_db \<Rightarrow>
    (billing_db \<times> transaction \<times> int) result" where
  "addRecharge env txId amount currency userId refData db =
     (if \<not> nonempty_str txId \<or> \<not> nonempty_str userId \<or> \<not> truthy_opt refData then Inl (BadRequest ''Bad Request'')
      else createTransaction env \<lparr>dt_txId = the txId, dt_userId = userId, dt_amount = amount, dt_currency = currency,
             dt_refData = refData, dt_type = RECHARGE\<rparr> db)"

text \<open>The webhook's event, after the payment library has checked the signature. The amount is in cents.
  All cases of the switch fall through to the default, which only logs.\<close>

record stripe_session =
  st_id :: "string option"
  st_currency :: string
  st_userid :: "string option"
  st_amount_total :: int
  st_object :: json

datatype stripe_event = SessionCompleted stripe_session | SessionFailed stripe_session | SessionExpired stripe_session | StripeOther string

definition handleStripeWebhook :: "user_env \<Rightarrow> (string \<Rightarrow> string \<Rightarrow> stripe_event option) \<Rightarrow> string \<Rightarrow> string \<Rightarrow> billing_db \<Rightarrow>
    (billing_db \<times> bool) result" where
  "handleStripeWebhook env constructEvent payload sig db =
     (case constructEvent payload sig of
        None \<Rightarrow> Inl (BadRequest ''Error parsing webhook'')
      | Some e \<Rightarrow>
          (case e of
             SessionCompleted s \<Rightarrow>
               and_then (addRecharge env (st_id s) (of_int (st_amount_total s) * 10 ^ 9) (st_currency s) (st_userid s)
                          (Some (st_object s)) db) (\<lambda>(db', _). Inr (db', True))
           | _ \<Rightarrow> Inr (db, True)))"

text \<open>The price function of a model is text in the database; \<open>evaluate\<close> is the script engine. A call throws or
  returns a number, \<open>None\<close> is not a number.\<close>

type_synonym price_fun = "json \<Rightarrow> json \<Rightarrow> rat option result"

definition calcModelAmount :: "(string \<Rightarrow> string + price_fun evaluated) \<Rightarrow> (json \<Rightarrow> string) \<Rightarrow> json \<Rightarrow> pricing \<Rightarrow> rat result" where
  "calcModelAmount evaluate dump usage p =
     and_then (toFunction evaluate (pc_method p)) (\<lambda>m.
       and_then (m usage (pc_price p)) (\<lambda>amount.
         case amount of
           None \<Rightarrow> Inl (PlainError (''Invalid amount, usage: '' @ dump usage))
         | Some a \<Rightarrow> if a > 0 then Inr a else Inl (PlainError (''Invalid amount, usage: '' @ dump usage))))"

record completion =
  cp_id :: "string option"
  cp_usage :: json
  cp_model :: string
  cp_provider :: "string option"

definition models_for :: "billing_db \<Rightarrow> completion \<Rightarrow> pricing list" where
  "models_for db c =
     filter (\<lambda>p. pc_provider p = [] \<or> pc_provider p = (case cp_provider c of None \<Rightarrow> [] | Some v \<Rightarrow> v))
       (filter (\<lambda>p. pc_model p = cp_model c) (bl_pricing db))"

definition pick_pricing :: "pricing list \<Rightarrow> pricing result" where
  "pick_pricing ms =
     (if length ms > 1
      then (case find (\<lambda>p. pc_provider p \<noteq> []) ms of
              None \<Rightarrow> Inl (TypeError ''Cannot read properties of undefined'') | Some p \<Rightarrow> Inr p)
      else Inr (hd ms))"

definition addModelExpense :: "user_env \<Rightarrow> (string \<Rightarrow> string + price_fun evaluated) \<Rightarrow> (json \<Rightarrow> string) \<Rightarrow> string option \<Rightarrow> string option \<Rightarrow>
    completion \<Rightarrow> (completion \<Rightarrow> pricing \<Rightarrow> json) \<Rightarrow> billing_db \<Rightarrow> (billing_db \<times> transaction \<times> int) result" where
  "addModelExpense env evaluate dump txId userId c ref db =
     (if \<not> nonempty_str txId \<or> \<not> nonempty_str userId then Inl (BadRequest ''Bad Request'')
      else if models_for db c = [] then Inl (BadRequest (''ModelPricing not found: '' @ cp_model c))
      else and_then (pick_pricing (models_for db c)) (\<lambda>p.
        and_then (calcModelAmount evaluate dump (cp_usage c) p) (\<lambda>a.
          createTransaction env \<lparr>dt_txId = the txId, dt_userId = userId, dt_amount = - a, dt_currency = pc_currency p,
            dt_refData = Some (ref c p), dt_type = EXPENSE\<rparr> db)))"

text \<open>The listener of \<open>llm.completion\<close>: before a call it checks the balance, after it books the expense.\<close>

definition handleLlmCompletion :: "user_env \<Rightarrow> (string \<Rightarrow> string + price_fun evaluated) \<Rightarrow> (json \<Rightarrow> string) \<Rightarrow> (completion \<Rightarrow> pricing \<Rightarrow> json) \<Rightarrow>
    string option \<Rightarrow> completion option \<Rightarrow> billing_db \<Rightarrow> billing_db result" where
  "handleLlmCompletion env evaluate dump ref paidBy res db =
     (case res of
        None \<Rightarrow> and_then (check_balance env db paidBy) (\<lambda>_. Inr db)
      | Some c \<Rightarrow> and_then (addModelExpense env evaluate dump (cp_id c) paidBy c ref db) (\<lambda>(db', _). Inr db'))"

section \<open>The ledger\<close>

text \<open>The specification: a balance is what it was plus the amounts of the tenant's transactions. The row of a
  transaction and the balance are rounded on their own, so an amount on the half unit can leave a gap
  of one unit between them.\<close>

definition booked :: "int \<Rightarrow> transaction list \<Rightarrow> int" where
  "booked pk txs = sum_list (map tr_amount (filter (\<lambda>x. tr_tenantPk x = pk) txs))"

definition expenses :: "int \<Rightarrow> transaction list \<Rightarrow> int" where
  "expenses pk txs = int (length (filter (\<lambda>x. tr_tenantPk x = pk \<and> tr_type x = EXPENSE) txs))"

definition gap :: "(int \<Rightarrow> int) \<Rightarrow> billing_db \<Rightarrow> tenant \<Rightarrow> int" where
  "gap base db t = tn_balance t - (base (tn_pk t) + booked (tn_pk t) (bl_txs db))"

definition keys_ok :: "billing_db \<Rightarrow> bool" where
  "keys_ok db \<longleftrightarrow> distinct (map tr_txId (bl_txs db)) \<and> distinct (map tn_pk (ud_tenants (bl_users db)))"

definition ledger_ok :: "(int \<Rightarrow> int) \<Rightarrow> billing_db \<Rightarrow> bool" where
  "ledger_ok base db \<longleftrightarrow> (\<forall>t\<in>set (ud_tenants (bl_users db)). gap base db t = 0) \<and> keys_ok db"

definition ledger_near :: "(int \<Rightarrow> int) \<Rightarrow> billing_db \<Rightarrow> bool" where
  "ledger_near base db \<longleftrightarrow>
     (\<forall>t\<in>set (ud_tenants (bl_users db)). 0 \<le> gap base db t \<and> gap base db t \<le> expenses (tn_pk t) (bl_txs db)) \<and> keys_ok db"

lemma dec0_int [simp]: "dec0 (of_int n) = n"
proof (cases "n < 0")
  case True
  have "\<lfloor>1/2 - (of_int n :: rat)\<rfloor> = - n" by (rule floor_unique) auto
  with True show ?thesis by (simp add: dec0_def)
next
  case False
  have "\<lfloor>(of_int n :: rat) + 1/2\<rfloor> = n" by (rule floor_unique) auto
  with False show ?thesis by (simp add: dec0_def)
qed

lemma dec_store_Inr: "dec_store x = Inr a \<Longrightarrow> a = dec0 x"
  by (simp add: dec_store_def split: if_splits)

text \<open>Rounding a sum with a whole number: off the half units it is the sum of the rounded; on them an
  expense can be rounded one unit further than the balance.\<close>

lemma dec0_floor: "x + 1/2 \<notin> \<int> \<Longrightarrow> dec0 x = \<lfloor>x + 1/2\<rfloor>"
proof (cases "x < 0")
  case True
  assume h: "x + 1/2 \<notin> \<int>"
  have "- \<lfloor>1/2 - x\<rfloor> = \<lceil>x + 1/2 - 1\<rceil>" by (simp add: ceiling_def)
  also have "\<dots> = \<lceil>x + 1/2\<rceil> - 1" by (rule ceiling_diff_one)
  also have "\<dots> = \<lfloor>x + 1/2\<rfloor>" using h by (simp add: ceiling_altdef) (metis Ints_of_int)
  finally show ?thesis using True by (simp add: dec0_def)
qed (simp add: dec0_def)

lemma half_shift: "of_int n + x + 1/2 \<in> \<int> \<longleftrightarrow> x + 1/2 \<in> (\<int> :: rat set)"
  by (metis Ints_add Ints_diff Ints_of_int add.assoc add_diff_cancel_left')

lemma dec0_add: "x + 1/2 \<notin> \<int> \<Longrightarrow> dec0 (of_int n + x) = n + dec0 x"
proof -
  assume h: "x + 1/2 \<notin> \<int>"
  have "dec0 (of_int n + x) = \<lfloor>of_int n + x + 1/2\<rfloor>" using h half_shift [of n x] by (intro dec0_floor) simp
  also have "\<dots> = n + \<lfloor>x + 1/2\<rfloor>" by linarith
  finally show ?thesis by (simp only: dec0_floor [OF h])
qed

lemma dec0_add_near:
  assumes "x \<le> 0"
  shows "n + dec0 x \<le> dec0 (of_int n + x)" "dec0 (of_int n + x) \<le> n + dec0 x + 1"
proof -
  have sum: "\<lfloor>of_int n + x + 1/2\<rfloor> = n + \<lfloor>x + 1/2\<rfloor>" "\<lfloor>1/2 - (of_int n + x)\<rfloor> = \<lfloor>1/2 - x\<rfloor> - n"
    by linarith+
  have round: "- \<lfloor>1/2 - x\<rfloor> \<le> \<lfloor>x + 1/2\<rfloor>" "\<lfloor>x + 1/2\<rfloor> \<le> - \<lfloor>1/2 - x\<rfloor> + 1" by linarith+
  have "\<lfloor>1/2 :: rat\<rfloor> = 0" by (rule floor_unique) auto
  then have "dec0 x = (if x = 0 then 0 else - \<lfloor>1/2 - x\<rfloor>)" using assms by (simp add: dec0_def)
  then show "n + dec0 x \<le> dec0 (of_int n + x)" "dec0 (of_int n + x) \<le> n + dec0 x + 1"
    using sum round dec0_int [of n] by (auto simp: dec0_def)
qed

lemma half_neg: "- x + 1/2 \<in> (\<int> :: rat set) \<Longrightarrow> x + 1/2 \<in> \<int>"
  using Ints_diff [of 1 "- x + 1/2"] by (simp add: add.commute)

lemma int_no_half: "(of_int n :: rat) + 1/2 \<notin> \<int>"
proof
  assume "(of_int n :: rat) + 1/2 \<in> \<int>"
  then obtain m where "(of_int n :: rat) + 1/2 = of_int m" by (auto elim: Ints_cases)
  then have "(of_int (2 * n + 1) :: rat) = of_int (2 * m)" by simp
  then have "2 * n + 1 = 2 * m" by (simp only: of_int_eq_iff)
  then show False by presburger
qed

lemma getTenant_in: "getTenant env db userId = Inr t \<Longrightarrow> t \<in> set (ud_tenants db)"
  by (auto simp: getTenant_def findTenantOf_def tenant_of_def find_Some_iff bind_eq_Some_conv in_set_conv_nth split: option.splits if_splits)

lemma createTransaction_cases:
  assumes "createTransaction env d db = Inr (db', tx, b)"
  obtains t a where "getTenant env (bl_users db) (dt_userId d) = Inr t" "\<not> bad_sign d"
    "dt_txId d \<notin> tr_txId ` set (bl_txs db)" "dec_store (dt_amount d) = Inr a"
    "dec_store (of_int (tn_balance t) + dt_amount d) = Inr b"
    "tx = \<lparr>tr_id = us_uuid env (ud_seq (bl_users db)), tr_txId = dt_txId d, tr_refData = dt_refData d, tr_type = dt_type d,
       tr_amount = a, tr_currency = dt_currency d, tr_userId = str_or (dt_userId d) [], tr_tenantPk = tn_pk t\<rparr>"
    "db' = db\<lparr>bl_users := add_balance (tn_pk t) b ((bl_users db)\<lparr>ud_seq := ud_seq (bl_users db) + 1\<rparr>), bl_txs := bl_txs db @ [tx]\<rparr>"
  using assms by (fastforce simp: createTransaction_def Let_def outcome_simps split: if_splits)

lemma add_balance_tenants:
  "ud_tenants (add_balance pk b db) = map (\<lambda>t. if tn_pk t = pk then t\<lparr>tn_balance := b\<rparr> else t) (ud_tenants db)"
  by (simp add: add_balance_def)

lemma booked_snoc: "booked pk (txs @ [x]) = booked pk txs + (if tr_tenantPk x = pk then tr_amount x else 0)"
  by (simp add: booked_def)

lemma expenses_snoc: "expenses pk (txs @ [x]) = expenses pk txs + (if tr_tenantPk x = pk \<and> tr_type x = EXPENSE then 1 else 0)"
  by (simp add: expenses_def)

text \<open>What a transaction does to the gaps: only that of its tenant changes, by the difference of the roundings.\<close>

lemma createTransaction_gap:
  assumes "keys_ok db" and "createTransaction env d db = Inr (db', tx, b)"
  shows "keys_ok db'"
    and "t' \<in> set (ud_tenants (bl_users db')) \<Longrightarrow> \<exists>t\<in>set (ud_tenants (bl_users db)). tn_pk t' = tn_pk t \<and>
      gap base db' t' = gap base db t +
        (if tr_tenantPk tx = tn_pk t then dec0 (of_int (tn_balance t) + dt_amount d) - (tn_balance t + dec0 (dt_amount d)) else 0)"
    and "bl_txs db' = bl_txs db @ [tx]" "tr_type tx = dt_type d" "bl_pricing db' = bl_pricing db"
  using assms(2)
proof -
  from assms(2) obtain t a where t: "t \<in> set (ud_tenants (bl_users db))" and new: "dt_txId d \<notin> tr_txId ` set (bl_txs db)"
    and a: "a = dec0 (dt_amount d)" and b: "b = dec0 (of_int (tn_balance t) + dt_amount d)"
    and tx: "tr_txId tx = dt_txId d" "tr_amount tx = a" "tr_tenantPk tx = tn_pk t" "tr_type tx = dt_type d"
    and db': "db' = db\<lparr>bl_users := add_balance (tn_pk t) b ((bl_users db)\<lparr>ud_seq := ud_seq (bl_users db) + 1\<rparr>), bl_txs := bl_txs db @ [tx]\<rparr>"
    by (cases rule: createTransaction_cases) (auto dest: getTenant_in dec_store_Inr)
  have pks: "map tn_pk (ud_tenants (bl_users db')) = map tn_pk (ud_tenants (bl_users db))"
    by (simp add: db' add_balance_tenants)
  show "keys_ok db'" using assms(1) new pks by (simp add: keys_ok_def db' tx)
  have u: "s = t" if "s \<in> set (ud_tenants (bl_users db))" "tn_pk s = tn_pk t" for s
    using assms(1) t that by (auto simp: keys_ok_def distinct_map dest: inj_onD)
  show "\<exists>t\<in>set (ud_tenants (bl_users db)). tn_pk t' = tn_pk t \<and> gap base db' t' = gap base db t +
      (if tr_tenantPk tx = tn_pk t then dec0 (of_int (tn_balance t) + dt_amount d) - (tn_balance t + dec0 (dt_amount d)) else 0)"
    if t': "t' \<in> set (ud_tenants (bl_users db'))"
  proof -
    from t' obtain s where s: "s \<in> set (ud_tenants (bl_users db))" "t' = (if tn_pk s = tn_pk t then s\<lparr>tn_balance := b\<rparr> else s)"
      by (auto simp: db' add_balance_tenants)
    show ?thesis using s u [of s] by (intro bexI [OF _ s(1)]) (auto simp: gap_def db' booked_snoc tx a b)
  qed
  show "bl_txs db' = bl_txs db @ [tx]" "tr_type tx = dt_type d" "bl_pricing db' = bl_pricing db" by (simp_all add: db' tx)
qed

lemma createTransaction_ledger:
  assumes "ledger_ok base db" "createTransaction env d db = Inr (db', tx, b)" "dt_amount d + 1/2 \<notin> \<int>"
  shows "ledger_ok base db'"
proof -
  have ok: "keys_ok db" using assms(1) by (simp add: ledger_ok_def)
  note g = createTransaction_gap [OF ok assms(2)]
  have "gap base db' t' = 0" if t': "t' \<in> set (ud_tenants (bl_users db'))" for t'
    using g(2) [OF t', of base] assms(1) by (auto simp: ledger_ok_def dec0_add [OF assms(3)])
  then show ?thesis using g(1) by (simp add: ledger_ok_def)
qed

lemma createTransaction_near:
  assumes "ledger_near base db" "createTransaction env d db = Inr (db', tx, b)" "dt_type d = EXPENSE \<or> dt_amount d \<in> \<int>"
  shows "ledger_near base db'"
proof -
  have ok: "keys_ok db" using assms(1) by (simp add: ledger_near_def)
  note g = createTransaction_gap [OF ok assms(2)]
  have exact: "dec0 (of_int n + dt_amount d) = n + dec0 (dt_amount d)" if "dt_amount d \<in> \<int>" for n
    using that int_no_half by (intro dec0_add) (auto elim: Ints_cases)
  have neg: "dt_amount d \<le> 0" if "dt_type d = EXPENSE"
    using assms(2) that by (cases rule: createTransaction_cases) (auto simp: bad_sign_def)
  show ?thesis
    unfolding ledger_near_def
  proof (intro conjI ballI)
    fix t' assume "t' \<in> set (ud_tenants (bl_users db'))"
    then obtain t where t: "t \<in> set (ud_tenants (bl_users db))" "tn_pk t' = tn_pk t" "gap base db' t' = gap base db t +
        (if tr_tenantPk tx = tn_pk t then dec0 (of_int (tn_balance t) + dt_amount d) - (tn_balance t + dec0 (dt_amount d)) else 0)"
      using g(2) by blast
    have old: "0 \<le> gap base db t" "gap base db t \<le> expenses (tn_pk t) (bl_txs db)"
      using assms(1) t(1) by (auto simp: ledger_near_def)
    let ?e = "dec0 (of_int (tn_balance t) + dt_amount d) - (tn_balance t + dec0 (dt_amount d))"
    have e: "0 \<le> ?e \<and> ?e \<le> (if dt_type d = EXPENSE then 1 else 0)"
    proof (cases "dt_type d = EXPENSE")
      case True
      then show ?thesis using dec0_add_near [OF neg [OF True], of "tn_balance t"] by simp
    next
      case False
      then show ?thesis using exact [of "tn_balance t"] assms(3) by simp
    qed
    have "expenses (tn_pk t) (bl_txs db') = expenses (tn_pk t) (bl_txs db) + (if tr_tenantPk tx = tn_pk t \<and> dt_type d = EXPENSE then 1 else 0)"
      by (simp add: g(3,4) expenses_snoc)
    then show "0 \<le> gap base db' t'" "gap base db' t' \<le> expenses (tn_pk t') (bl_txs db')"
      using old t(2,3) e by (auto split: if_splits)
  qed (rule g(1))
qed

text \<open>Any sequence of webhooks, completions and checks.\<close>

record bill_env =
  be_users :: user_env
  be_event :: "string \<Rightarrow> string \<Rightarrow> stripe_event option"
  be_eval :: "string \<Rightarrow> string + price_fun evaluated"
  be_dump :: "json \<Rightarrow> string"
  be_ref :: "completion \<Rightarrow> pricing \<Rightarrow> json"

datatype billing_op = Webhook string string | Completion "string option" "completion option"

fun billing_step :: "bill_env \<Rightarrow> billing_op \<Rightarrow> billing_db \<Rightarrow> billing_db" where
  "billing_step env (Webhook payload sig) db =
     (case handleStripeWebhook (be_users env) (be_event env) payload sig db of Inl _ \<Rightarrow> db | Inr (db', _) \<Rightarrow> db')"
| "billing_step env (Completion paidBy res) db =
     (case handleLlmCompletion (be_users env) (be_eval env) (be_dump env) (be_ref env) paidBy res db of Inl _ \<Rightarrow> db | Inr db' \<Rightarrow> db')"

definition billing_run :: "bill_env \<Rightarrow> billing_op list \<Rightarrow> billing_db \<Rightarrow> billing_db" where
  "billing_run env ops db = fold (billing_step env) ops db"

lemma addRecharge_cases:
  assumes "addRecharge env i a c u r db = Inr (db', x)"
  obtains tx b d where "createTransaction env d db = Inr (db', tx, b)" "dt_amount d = a"
  using assms by (cases x) (auto simp: addRecharge_def split: if_splits)

lemma calcModelAmount_Inr:
  "calcModelAmount ev dump u p = Inr a \<Longrightarrow> a > 0 \<and> (\<exists>src f. ev src = Inr (IsFunction f) \<and> f u (pc_price p) = Inr (Some a))"
  by (auto simp: calcModelAmount_def toFunction_def outcome_simps split: option.splits if_splits sum.splits evaluated.splits)

lemma addModelExpense_cases:
  assumes "addModelExpense env ev dump i u c ref db = Inr (db', tx, b)"
  obtains p a where "pick_pricing (models_for db c) = Inr p" "models_for db c \<noteq> []" "calcModelAmount ev dump (cp_usage c) p = Inr a"
    "createTransaction env \<lparr>dt_txId = the i, dt_userId = u, dt_amount = - a, dt_currency = pc_currency p,
       dt_refData = Some (ref c p), dt_type = EXPENSE\<rparr> db = Inr (db', tx, b)"
  using assms by (auto simp: addModelExpense_def outcome_simps simp del: split_paired_Ex split: if_splits)

text \<open>A completion whose price, in one of the pricing rows, falls on the half unit.\<close>

definition half_price :: "bill_env \<Rightarrow> pricing list \<Rightarrow> billing_op \<Rightarrow> bool" where
  "half_price env rows op \<longleftrightarrow>
     (\<exists>paidBy c p a. op = Completion paidBy (Some c) \<and> p \<in> set rows \<and>
        calcModelAmount (be_eval env) (be_dump env) (cp_usage c) p = Inr a \<and> a + 1/2 \<in> \<int>)"

lemma pick_pricing_in: "pick_pricing (models_for db c) = Inr p \<Longrightarrow> models_for db c \<noteq> [] \<Longrightarrow> p \<in> set (bl_pricing db)"
proof -
  assume h: "pick_pricing (models_for db c) = Inr p" "models_for db c \<noteq> []"
  then have "p \<in> set (models_for db c)"
    by (auto simp: pick_pricing_def find_Some_iff split: if_splits option.splits)
  then show ?thesis by (auto simp: models_for_def)
qed

text \<open>Every operation that changes the tables is one transaction: a recharge of a whole amount or the expense
  of a completion.\<close>

lemma billing_step_cases:
  obtains (same) "billing_step env op db = db"
  | (recharge) d tx b where "createTransaction (be_users env) d db = Inr (billing_step env op db, tx, b)" "dt_amount d \<in> \<int>"
  | (expense) d tx b paidBy c p a where "createTransaction (be_users env) d db = Inr (billing_step env op db, tx, b)"
      "dt_type d = EXPENSE" "dt_amount d = - a" "op = Completion paidBy (Some c)" "p \<in> set (bl_pricing db)"
      "calcModelAmount (be_eval env) (be_dump env) (cp_usage c) p = Inr a"
proof (cases op)
  case (Webhook payload sig)
  show ?thesis
  proof (cases "handleStripeWebhook (be_users env) (be_event env) payload sig db")
    case (Inl e)
    then show ?thesis using Webhook by (intro same) simp
  next
    case (Inr q)
    obtain db' r where q: "q = (db', r)" by (cases q)
    have step: "billing_step env op db = db'" using Webhook Inr q by simp
    from Inr q have "db' = db \<or> (\<exists>i a c u x y. addRecharge (be_users env) i (of_int a * 10 ^ 9) c u x db = Inr (db', y))"
      by (auto simp: handleStripeWebhook_def outcome_simps split: option.splits stripe_event.splits)
    then show ?thesis
    proof (elim disjE exE)
      fix i a c u x y assume r: "addRecharge (be_users env) i (of_int a * 10 ^ 9) c u x db = Inr (db', y)"
      have "(of_int a * 10 ^ 9 :: rat) = of_int (a * 10 ^ 9)" by simp
      then have "(of_int a * 10 ^ 9 :: rat) \<in> \<int>" by (metis Ints_of_int)
      with r show ?thesis by (cases rule: addRecharge_cases) (auto intro: recharge simp: step)
    qed (use step same in simp)
  qed
next
  case (Completion paidBy res)
  show ?thesis
  proof (cases res)
    case None
    have "handleLlmCompletion (be_users env) (be_eval env) (be_dump env) (be_ref env) paidBy None db \<in> {Inr db} \<union> range Inl"
      by (cases "check_balance (be_users env) db paidBy") (auto simp: handleLlmCompletion_def)
    then show ?thesis using Completion None by (intro same) auto
  next
    case (Some c)
    show ?thesis
    proof (cases "addModelExpense (be_users env) (be_eval env) (be_dump env) (cp_id c) paidBy c (be_ref env) db")
      case (Inl e)
      then show ?thesis using Completion Some by (intro same) (simp add: handleLlmCompletion_def)
    next
      case (Inr q)
      obtain db' tx b where q: "q = (db', tx, b)" by (cases q)
      have step: "billing_step env op db = db'" using Completion Some Inr q by (simp add: handleLlmCompletion_def)
      from Inr [unfolded q] obtain p a where p: "pick_pricing (models_for db c) = Inr p" "models_for db c \<noteq> []"
          and a: "calcModelAmount (be_eval env) (be_dump env) (cp_usage c) p = Inr a"
          and cr: "createTransaction (be_users env) \<lparr>dt_txId = the (cp_id c), dt_userId = paidBy, dt_amount = - a, dt_currency = pc_currency p,
            dt_refData = Some (be_ref env c p), dt_type = EXPENSE\<rparr> db = Inr (billing_step env op db, tx, b)"
        unfolding step by (rule addModelExpense_cases)
      show ?thesis by (rule expense [OF cr _ _ _ pick_pricing_in [OF p] a]) (simp_all add: Completion Some)
    qed
  qed
qed

lemma billing_step_near: "ledger_near base db \<Longrightarrow> ledger_near base (billing_step env op db)"
  by (cases rule: billing_step_cases [of env op db]) (auto intro: createTransaction_near)

lemma billing_step_ledger:
  assumes "ledger_ok base db" and "\<not> half_price env (bl_pricing db) op"
  shows "ledger_ok base (billing_step env op db) \<and> bl_pricing (billing_step env op db) = bl_pricing db"
proof -
  have ok: "keys_ok db" using assms(1) by (simp add: ledger_ok_def)
  show ?thesis
  proof (cases rule: billing_step_cases [of env op db])
    case same
    then show ?thesis using assms(1) by simp
  next
    case (recharge d tx b)
    have "dt_amount d + 1/2 \<notin> \<int>" using recharge(2) int_no_half by (auto elim: Ints_cases)
    then show ?thesis using createTransaction_ledger [OF assms(1) recharge(1)] createTransaction_gap(5) [OF ok recharge(1)] by simp
  next
    case (expense d tx b paidBy c p a)
    have "a + 1/2 \<notin> \<int>" using assms(2) expense(4-6) by (auto simp: half_price_def)
    then have "- a + 1/2 \<notin> \<int>" using half_neg by blast
    then show ?thesis
      using createTransaction_ledger [OF assms(1) expense(1)] createTransaction_gap(5) [OF ok expense(1)] expense(3) by simp
  qed
qed

lemma billing_run_ledger:
  "ledger_ok base db \<Longrightarrow> \<forall>op\<in>set ops. \<not> half_price env (bl_pricing db) op \<Longrightarrow> ledger_ok base (fold (billing_step env) ops db)"
proof (induction ops arbitrary: db)
  case (Cons op ops)
  then show ?case using billing_step_ledger [of base db env op] by simp
qed simp

lemma dec0_mono:
  assumes "x \<le> y"
  shows "dec0 x \<le> dec0 y"
proof -
  have "dec0 x \<le> 0" if "x < 0"
    using that floor_mono [of 0 "1/2 - x"] by (simp add: dec0_def)
  moreover have "dec0 y \<ge> 0" if "\<not> y < 0"
    using that floor_mono [of 0 "y + 1/2"] by (simp add: dec0_def)
  moreover have "dec0 x \<le> dec0 y" if "y < 0"
    using that assms floor_mono [of "1/2 - y" "1/2 - x"] by (simp add: dec0_def)
  moreover have "dec0 x \<le> dec0 y" if "\<not> x < 0"
    using that assms floor_mono [of "x + 1/2" "y + 1/2"] by (simp add: dec0_def)
  ultimately show ?thesis by fastforce
qed

lemma findTenantOf_after:
  assumes "findTenantOf env db u = Some t"
  shows "findTenantOf env (add_balance (tn_pk t) b (db\<lparr>ud_seq := n\<rparr>)) u = Some (t\<lparr>tn_balance := b\<rparr>)"
proof -
  let ?f = "\<lambda>s. if tn_pk s = tn_pk t then s\<lparr>tn_balance := b\<rparr> else s"
  have m: "find P (map ?f xs) = map_option ?f (find P xs)" if "\<And>s. P (?f s) = P s" for P xs
    using that by (induction xs) auto
  have "tenant_of env (add_balance (tn_pk t) b (db\<lparr>ud_seq := n\<rparr>)) k = map_option ?f (tenant_of env db k)" for k
    unfolding tenant_of_def by (simp add: add_balance_tenants) (subst m, auto)
  with assms show ?thesis
    by (auto simp: findTenantOf_def add_balance_def bind_eq_Some_conv split: if_splits)
qed

section \<open>Properties\<close>

definition ex_bank :: "int \<Rightarrow> billing_db" where
  "ex_bank b = \<lparr>bl_users = no_users\<lparr>
     ud_tenants := [\<lparr>tn_pk = 1, tn_id = ''1'', tn_emailHost = None, tn_name = None, tn_type = 1, tn_statusCode = 1,
        tn_balance = b, tn_currency = ''USD'', tn_deletedAt = 0\<rparr>],
     ud_users := [\<lparr>us_pk = 1, us_id = ''u'', us_name = ''ann'', us_email = None, us_avatar = None, us_tenantPk = 1, us_deletedAt = 0\<rparr>]\<rparr>,
     bl_txs = [], bl_pricing = [\<lparr>pc_model = ''m'', pc_provider = [], pc_price = JNum 2, pc_currency = ''USD'', pc_method = ''f''\<rparr>]\<rparr>"

definition ex_session :: stripe_session where
  "ex_session = \<lparr>st_id = Some ''cs_1'', st_currency = ''usd'', st_userid = Some ''u'', st_amount_total = 500, st_object = JObj []\<rparr>"

definition ex_bill_env :: bill_env where
  "ex_bill_env = \<lparr>be_users = ex_user_env, be_event = (\<lambda>_ _. Some (SessionCompleted ex_session)),
     be_eval = (\<lambda>_. Inr (IsFunction (\<lambda>_ _. Inr (Some 7)))), be_dump = (\<lambda>_. []), be_ref = (\<lambda>_ _. JNull)\<rparr>"

interpretation ledger_runs: invariant_run "billing_step env" "ledger_near base" for env base
  by unfold_locales (rule billing_step_near)



text \<open>The gap is real: a completion of half a unit is booked as a whole one and leaves the balance as it was.\<close>

lemma half_unit_leaves_gap:
  assumes "be_users env = ex_user_env" and "be_eval env = (\<lambda>_. Inr (IsFunction (\<lambda>_ _. Inr (Some (1/2)))))"
    and "db = billing_run env [Completion (Some ''u'') (Some \<lparr>cp_id = Some ''c1'', cp_usage = JNull, cp_model = ''m'', cp_provider = None\<rparr>)] (ex_bank 3)"
  shows "map tn_balance (ud_tenants (bl_users db)) = [3] \<and> booked 1 (bl_txs db) = - 1"
  by (simp add: assms(3) billing_run_def handleLlmCompletion_def addModelExpense_def assms models_for_def pick_pricing_def calcModelAmount_def toFunction_def
      createTransaction_def getTenant_def findTenantOf_def tenant_of_def ex_bank_def no_users_def bad_sign_def ex_user_env_def
      dec_store_def dec0_def Let_def add_balance_def booked_def)

text \<open>A webhook that is delivered again books nothing: the second delivery of a completed session fails on
  the external transaction id, whatever was booked in between.\<close>

theorem replayed_webhook_fails:
  assumes "handleStripeWebhook (be_users env) (be_event env) payload sig db = Inr (db', r)"
    and "be_event env payload sig = Some (SessionCompleted s)"
    and "set (bl_txs db') \<subseteq> set (bl_txs db'')"
  shows "billing_step env (Webhook payload sig) db'' = db'' \<and>
    (\<exists>e. handleStripeWebhook (be_users env) (be_event env) payload sig db'' = Inl e)"
proof -
  let ?d = "\<lparr>dt_txId = the (st_id s), dt_userId = st_userid s, dt_amount = of_int (st_amount_total s) * 10 ^ 9,
     dt_currency = st_currency s, dt_refData = Some (st_object s), dt_type = RECHARGE\<rparr>"
  from assms(1,2) obtain tx b where c: "createTransaction (be_users env) ?d db = Inr (db', tx, b)"
    by (auto simp: handleStripeWebhook_def addRecharge_def outcome_simps split: if_splits)
  then have "the (st_id s) \<in> tr_txId ` set (bl_txs db')" by (cases rule: createTransaction_cases) simp
  with assms(3) have dup: "the (st_id s) \<in> tr_txId ` set (bl_txs db'')" by auto
  have "\<exists>e. createTransaction (be_users env) ?d db'' = Inl e"
  proof (cases "createTransaction (be_users env) ?d db''")
    case (Inr q)
    then obtain db3 tx' b' where "createTransaction (be_users env) ?d db'' = Inr (db3, tx', b')" by (cases q) auto
    then show ?thesis using dup by (cases rule: createTransaction_cases) simp
  qed simp
  with assms(2) have "\<exists>e. handleStripeWebhook (be_users env) (be_event env) payload sig db'' = Inl e"
    by (auto simp: handleStripeWebhook_def addRecharge_def)
  then show ?thesis by auto
qed

theorem replayed_webhook_fails_witness:
  "\<exists>db'. handleStripeWebhook ex_user_env (\<lambda>_ _. Some (SessionCompleted ex_session)) ''p'' ''s'' (ex_bank 3) = Inr (db', True) \<and>
     billing_step ex_bill_env (Webhook ''p'' ''s'') db' = db'"
proof -
  obtain db' where h: "handleStripeWebhook (be_users ex_bill_env) (be_event ex_bill_env) ''p'' ''s'' (ex_bank 3) = Inr (db', True)"
    using dec0_int [of 500000000000] dec0_int [of 500000000003]
    by (simp add: handleStripeWebhook_def addRecharge_def ex_bill_env_def ex_session_def createTransaction_def
        getTenant_def findTenantOf_def tenant_of_def ex_bank_def no_users_def bad_sign_def ex_user_env_def dec_store_def Let_def)
  from replayed_webhook_fails [OF h, of ex_session db'] h show ?thesis by (auto simp: ex_bill_env_def)
qed

text \<open>C26. The balance is checked before a completion and charged after it: the check passes exactly on a positive
  balance and is otherwise refused with 402. A booked completion has a positive price by the pricing row
  that is picked for it; it adds one expense of this price to the transactions and lowers the balance by
  it, both rounded to whole units, so one completion may take it below zero, and at or below zero the
  next check is refused.\<close>

theorem spend_then_refused:
  assumes "getTenant env (bl_users db) u = Inr t" "distinct (map tn_pk (ud_tenants (bl_users db)))"
  shows "(handleLlmCompletion env ev dump ref u None db = (if tn_balance t > 0 then Inr db else Inl (PaymentRequired ''Insufficient balance''))) \<and>
    (\<forall>c db'. handleLlmCompletion env ev dump ref u (Some c) db = Inr db' \<longrightarrow>
       (\<exists>p a b tx. pick_pricing (models_for db c) = Inr p \<and> calcModelAmount ev dump (cp_usage c) p = Inr a \<and> 0 < a \<and>
         bl_txs db' = bl_txs db @ [tx] \<and> tr_type tx = EXPENSE \<and> tr_amount tx = dec0 (- a) \<and> tr_tenantPk tx = tn_pk t \<and>
         b = dec0 (of_int (tn_balance t) - a) \<and> b \<le> tn_balance t \<and> getTenant env (bl_users db') u = Inr (t\<lparr>tn_balance := b\<rparr>) \<and>
         (b \<le> 0 \<longrightarrow> handleLlmCompletion env ev dump ref u None db' = Inl (PaymentRequired ''Insufficient balance''))))"
proof -
  have t: "findTenantOf env (bl_users db) u = Some t"
    using assms(1) by (auto simp: getTenant_def split: option.splits)
  have chk: "handleLlmCompletion env ev dump ref u None d =
      (if tn_balance s > 0 then Inr d else Inl (PaymentRequired ''Insufficient balance''))"
    if "getTenant env (bl_users d) u = Inr s" for d s
    using that by (simp add: handleLlmCompletion_def check_balance_def)
  have "\<exists>p a b tx. pick_pricing (models_for db c) = Inr p \<and> calcModelAmount ev dump (cp_usage c) p = Inr a \<and> 0 < a \<and>
      bl_txs db' = bl_txs db @ [tx] \<and> tr_type tx = EXPENSE \<and> tr_amount tx = dec0 (- a) \<and> tr_tenantPk tx = tn_pk t \<and>
      b = dec0 (of_int (tn_balance t) - a) \<and> b \<le> tn_balance t \<and> getTenant env (bl_users db') u = Inr (t\<lparr>tn_balance := b\<rparr>)"
    if fin: "handleLlmCompletion env ev dump ref u (Some c) db = Inr db'" for c db'
  proof -
    from fin obtain x where "addModelExpense env ev dump (cp_id c) u c ref db = Inr (db', x)"
      by (auto simp: handleLlmCompletion_def outcome_simps)
    then obtain tx b where "addModelExpense env ev dump (cp_id c) u c ref db = Inr (db', tx, b)" by (cases x) auto
    then obtain p a where p: "pick_pricing (models_for db c) = Inr p" and a: "calcModelAmount ev dump (cp_usage c) p = Inr a" and
      cr: "createTransaction env \<lparr>dt_txId = the (cp_id c), dt_userId = u, dt_amount = - a, dt_currency = pc_currency p,
        dt_refData = Some (ref c p), dt_type = EXPENSE\<rparr> db = Inr (db', tx, b)" by (rule addModelExpense_cases)
    from calcModelAmount_Inr [OF a] have pos: "a > 0" by simp
    from cr show ?thesis
    proof (cases rule: createTransaction_cases)
      case (1 t' k)
      then have [simp]: "t' = t" using assms(1) by simp
      have b: "b = dec0 (of_int (tn_balance t) - a)" and k: "k = dec0 (- a)"
        using dec_store_Inr [OF 1(5)] dec_store_Inr [OF 1(4)] by simp_all
      have "b \<le> tn_balance t"
        using b pos dec0_mono [of "of_int (tn_balance t) - a" "of_int (tn_balance t)"] by simp
      moreover have "getTenant env (bl_users db') u = Inr (t\<lparr>tn_balance := b\<rparr>)"
        using t by (auto simp: 1(7) getTenant_def findTenantOf_after)
      ultimately show ?thesis
        using p a pos b k by (intro exI [of _ p] exI [of _ a] exI [of _ b] exI [of _ tx]) (simp add: 1(6,7))
    qed
  qed
  with chk assms(1) show ?thesis by fastforce
qed

theorem spend_then_refused_witness:
  "handleLlmCompletion ex_user_env (be_eval ex_bill_env) (\<lambda>_. []) (\<lambda>_ _. JNull) (Some ''u'') None (ex_bank 0) =
     Inl (PaymentRequired ''Insufficient balance'')"
  using spend_then_refused [of ex_user_env "ex_bank 0" "Some ''u''" "hd (ud_tenants (bl_users (ex_bank 0)))"
      "be_eval ex_bill_env" "\<lambda>_. []" "\<lambda>_ _. JNull"]
  by (simp add: getTenant_def findTenantOf_def tenant_of_def ex_bank_def no_users_def ex_user_env_def)

text \<open>The price of a completion: as a model has one row per provider, the row of the completion's provider is
  used if there is one, else the default row (the one without a provider), else the call is refused.\<close>

theorem pricing_of_provider:
  assumes "distinct (map (\<lambda>p. (pc_model p, pc_provider p)) (bl_pricing db))"
    and "pv = (case cp_provider c of None \<Rightarrow> [] | Some v \<Rightarrow> v)"
  shows "(models_for db c = [] \<longleftrightarrow> \<not> (\<exists>p\<in>set (bl_pricing db). pc_model p = cp_model c \<and> pc_provider p \<in> {[], pv})) \<and>
    (models_for db c \<noteq> [] \<longrightarrow>
      (\<exists>p. pick_pricing (models_for db c) = Inr p \<and> p \<in> set (bl_pricing db) \<and> pc_model p = cp_model c \<and>
        pc_provider p = (if \<exists>q\<in>set (bl_pricing db). pc_model q = cp_model c \<and> pc_provider q = pv then pv else [])))"
proof -
  let ?ms = "models_for db c"
  have mem: "p \<in> set ?ms \<longleftrightarrow> p \<in> set (bl_pricing db) \<and> pc_model p = cp_model c \<and> pc_provider p \<in> {[], pv}" for p
    using assms(2) by (auto simp: models_for_def)
  have dist: "distinct (map pc_provider ?ms)"
  proof -
    have "inj_on pc_provider (set ?ms)"
      using assms(1) mem by (auto simp: distinct_map inj_on_def)
    moreover have "distinct ?ms" using assms(1) by (auto simp: models_for_def distinct_map)
    ultimately show ?thesis by (simp add: distinct_map)
  qed
  have "\<exists>p. pick_pricing ?ms = Inr p \<and> p \<in> set ?ms \<and>
      pc_provider p = (if \<exists>q\<in>set ?ms. pc_provider q = pv then pv else [])" if ne: "?ms \<noteq> []"
  proof (cases "length ?ms > 1")
    case False
    with ne obtain p where p: "?ms = [p]" by (cases ?ms) (auto simp: Suc_le_eq)
    then show ?thesis using mem [of p] by (auto simp: pick_pricing_def)
  next
    case True
    then obtain p q rest where pq: "?ms = p # q # rest" by (cases ?ms; cases "tl ?ms") auto
    with dist mem [of p] mem [of q] have two: "pc_provider p \<noteq> pc_provider q" "pc_provider p \<in> {[], pv}" "pc_provider q \<in> {[], pv}"
      by auto
    then have "\<exists>x\<in>set ?ms. pc_provider x \<noteq> []" using pq by auto
    then obtain x where x: "find (\<lambda>p. pc_provider p \<noteq> []) ?ms = Some x"
      by (cases "find (\<lambda>p. pc_provider p \<noteq> []) ?ms") (auto simp: find_None_iff)
    then have "x \<in> set ?ms" "pc_provider x \<noteq> []" by (auto simp: find_Some_iff in_set_conv_nth)
    with x True mem [of x] show ?thesis by (auto simp: pick_pricing_def)
  qed
  then have pick: "?ms \<noteq> [] \<Longrightarrow> \<exists>p. pick_pricing ?ms = Inr p \<and> p \<in> set ?ms \<and>
      pc_provider p = (if \<exists>q\<in>set ?ms. pc_provider q = pv then pv else [])" .
  have ex: "(\<exists>q\<in>set ?ms. pc_provider q = pv) \<longleftrightarrow> (\<exists>q\<in>set (bl_pricing db). pc_model q = cp_model c \<and> pc_provider q = pv)"
    using mem by auto
  have "?ms = [] \<longleftrightarrow> (\<forall>p. p \<notin> set ?ms)" by (simp add: set_empty [symmetric] del: set_empty)
  then have "?ms = [] \<longleftrightarrow> \<not> (\<exists>p\<in>set (bl_pricing db). pc_model p = cp_model c \<and> pc_provider p \<in> {[], pv})"
    unfolding mem by blast
  moreover have "\<exists>p. pick_pricing ?ms = Inr p \<and> p \<in> set (bl_pricing db) \<and> pc_model p = cp_model c \<and>
      pc_provider p = (if \<exists>q\<in>set (bl_pricing db). pc_model q = cp_model c \<and> pc_provider q = pv then pv else [])"
    if "?ms \<noteq> []"
    using pick [OF that] unfolding ex mem by blast
  ultimately show ?thesis by blast
qed

theorem pricing_of_provider_witness:
  "\<exists>p. pick_pricing (models_for (ex_bank 1) \<lparr>cp_id = None, cp_usage = JNull, cp_model = ''m'', cp_provider = Some ''x''\<rparr>) = Inr p \<and>
     pc_provider p = []"
  using pricing_of_provider [of "ex_bank 1" "''x''" "\<lparr>cp_id = None, cp_usage = JNull, cp_model = ''m'', cp_provider = Some ''x''\<rparr>"]
  by (auto simp: ex_bank_def models_for_def)

end
