(* ===== verification/Llm.thy ===== *)
theory Llm
  imports Billing
begin

text \<open>
  \<open>src/agents/llm.service.ts\<close>: prompts from templates, completions with a balance check before and a
  booking after, retries on bad output, the check of generated JSON against an example, and the cache
  of results. The language model service, the template engine, the JSON repair and \<open>JSON.stringify\<close>
  are parameters. Bookings are started and not awaited: they wait in \<open>lw_pending\<close>, and \<open>lw_sched\<close> says
  how many of them have been done before each of the next balance checks, so every interleaving is covered.
\<close>

section \<open>Requests and answers\<close>

datatype role = R_user | R_assistant | R_system | R_tool

record message =
  mg_role :: role
  mg_content :: json

datatype models = OneModel string | ManyModels "string list"

datatype llm_request = PromptRequest string models | ChatRequest "message list" models

record llm_choice =
  ch_text :: "string option"
  ch_message :: "string option option"

record llm_response =
  rp_id :: "string option"
  rp_model :: "string option"
  rp_provider :: "string option"
  rp_choices :: "llm_choice list option"
  rp_usage :: "json option"
  rp_error :: "string option"

datatype llm_answer = Answered llm_response | FetchFailed string

record cache_entry =
  ce_pk :: int
  ce_name :: string
  ce_model :: string
  ce_prompt :: string
  ce_result :: string

record llm_world =
  lw_bank :: billing_db
  lw_pending :: "(string option \<times> completion) list"
  lw_sched :: "nat list"
  lw_answers :: "llm_answer list"
  lw_requests :: "llm_request list"
  lw_cache :: "cache_entry list"
  lw_next :: int
  lw_templates :: "string obj"
  lw_compiled :: "string obj"

record llm_env =
  le_bill :: bill_env
  le_models :: models
  le_cache_on :: bool
  le_render :: "string \<Rightarrow> json \<Rightarrow> string + string"
  le_parser :: json_parser
  le_dump :: "json \<Rightarrow> string"

section \<open>Prompts and completions\<close>

text \<open>\<open>_prompt\<close>: the compiled template is kept for the life of the service.\<close>

definition prompt_of :: "llm_env \<Rightarrow> string \<Rightarrow> json \<Rightarrow> llm_world \<Rightarrow> llm_world \<times> string result" where
  "prompt_of env template args w =
     (let run = (\<lambda>src. case le_render env src args of Inl m \<Rightarrow> Inl (PlainError m) | Inr p \<Rightarrow> Inr p)
      in case obj_get (lw_compiled w) template of
           Some src \<Rightarrow> (w, run src)
         | None \<Rightarrow>
             (if \<not> nonempty_str (obj_get (lw_templates w) template)
              then (w, Inl (PlainError (''LLM Template '' @ template @ '' not found'')))
              else (let src = the (obj_get (lw_templates w) template)
                    in (w\<lparr>lw_compiled := obj_set template src (lw_compiled w)\<rparr>, run src))))"

definition settle :: "llm_env \<Rightarrow> llm_world \<Rightarrow> llm_world" where
  "settle env w =
     (let k = (case lw_sched w of [] \<Rightarrow> 0 | n # _ \<Rightarrow> n)
      in w\<lparr>lw_bank := fold (\<lambda>(paidBy, c). billing_step (le_bill env) (Completion paidBy (Some c))) (take k (lw_pending w)) (lw_bank w),
           lw_pending := drop k (lw_pending w), lw_sched := tl (lw_sched w)\<rparr>)"

definition no_usage :: json where
  "no_usage = JObj [(''completion_tokens'', JNum 0), (''prompt_tokens'', JNum 0), (''total_tokens'', JNum 0), (''total_cost'', JNum 0)]"

text \<open>The booked usage also carries the duration of the call, which the model leaves out.\<close>

definition completion_of :: "llm_response \<Rightarrow> completion" where
  "completion_of r =
     \<lparr>cp_id = rp_id r, cp_usage = (if truthy_opt (rp_usage r) then the (rp_usage r) else no_usage),
      cp_model = str_or (rp_model r) ''undefined'', cp_provider = rp_provider r\<rparr>"

definition completion :: "llm_env \<Rightarrow> string option \<Rightarrow> llm_request \<Rightarrow> llm_world \<Rightarrow> llm_world \<times> llm_response result" where
  "completion env paidBy req w0 =
     (let w = settle env w0; b = le_bill env
      in case handleLlmCompletion (be_users b) (be_eval b) (be_dump b) (be_ref b) paidBy None (lw_bank w) of
           Inl e \<Rightarrow> (w, Inl e)
         | Inr _ \<Rightarrow>
             (let w1 = w\<lparr>lw_requests := lw_requests w @ [req], lw_answers := tl (lw_answers w)\<rparr>
              in case lw_answers w of
                   [] \<Rightarrow> (w1, Inl (PlainError ''fetch failed''))
                 | FetchFailed m # _ \<Rightarrow> (w1, Inl (PlainError m))
                 | Answered r # _ \<Rightarrow> (w1\<lparr>lw_pending := lw_pending w1 @ [(paidBy, completion_of r)]\<rparr>, Inr r)))"

section \<open>Reading the generated text\<close>

datatype parsed = P_text "string option" | P_json "json option" | P_blocks "string list"

datatype parse_type = PT_json | PT_codeBlock | PT_other string

fun js_typeof :: "json \<Rightarrow> string" where
  "js_typeof JNull = ''object''"
| "js_typeof (JBool _) = ''boolean''"
| "js_typeof (JNum _) = ''number''"
| "js_typeof (JStr _) = ''string''"
| "js_typeof (JArr _) = ''object''"
| "js_typeof (JObj _) = ''object''"

fun is_array :: "json \<Rightarrow> bool" where
  "is_array (JArr _) = True"
| "is_array _ = False"

text \<open>\<open>Object.entries\<close>; it throws on \<open>undefined\<close> (\<open>None\<close>) and \<open>null\<close>.\<close>

definition js_entries :: "json option \<Rightarrow> (string \<times> json) list result" where
  "js_entries v =
     (case v of
        Some (JObj kvs) \<Rightarrow> Inr kvs
      | Some (JArr xs) \<Rightarrow> Inr (map (\<lambda>(i, x). (show_nat i, x)) (enumerate 0 xs))
      | Some (JStr s) \<Rightarrow> Inr (map (\<lambda>(i, c). (show_nat i, JStr [c])) (enumerate 0 s))
      | Some (JBool _) \<Rightarrow> Inr []
      | Some (JNum _) \<Rightarrow> Inr []
      | _ \<Rightarrow> Inl (TypeError ''Cannot convert undefined or null to object''))"

text \<open>\<open>key in v\<close> and \<open>v[key]\<close>, for own keys; on a primitive value \<open>in\<close> throws.\<close>

definition own_value :: "string \<Rightarrow> json option \<Rightarrow> json option result" where
  "own_value key v =
     (case v of
        Some (JObj kvs) \<Rightarrow> Inr (obj_get kvs key)
      | Some (JArr xs) \<Rightarrow> Inr (if key = ''length'' then Some (JNum (of_nat (length xs)))
                               else map_of (map (\<lambda>(i, x). (show_nat i, x)) (enumerate 0 xs)) key)
      | _ \<Rightarrow> Inl (TypeError (''Cannot use in operator to search for '' @ key)))"

definition check_entry :: "(json \<Rightarrow> string) \<Rightarrow> json option \<Rightarrow> string \<times> json \<Rightarrow> unit result" where
  "check_entry dump v kt =
     (let (key, ty) = kt
      in if \<not> truthy ty then Inr ()
         else and_then (if key = [] then and_then (js_entries v) (\<lambda>es. Inr (case es of [] \<Rightarrow> None | e # _ \<Rightarrow> Some (snd e)))
                        else and_then (own_value key v) (\<lambda>x. case x of
                               None \<Rightarrow> Inl (PlainError (''Json key='' @ key @ '' is missing'')) | Some y \<Rightarrow> Inr (Some y))) (\<lambda>val.
              if truthy_opt val \<and> (js_typeof (the val) \<noteq> js_typeof ty \<or> is_array ty \<noteq> is_array (the val))
              then Inl (PlainError (''Value type of json key='' @ key @ '' should match example value: '' @ dump ty @
                     '', got: '' @ dump (the val) @ ''}''))
              else Inr ()))"

definition checkJsonType :: "(json \<Rightarrow> string) \<Rightarrow> json \<Rightarrow> json option \<Rightarrow> bool \<Rightarrow> unit result" where
  "checkJsonType dump schema val isArray =
     and_then (js_entries (if isArray then (case schema of JArr (x # _) \<Rightarrow> Some x | _ \<Rightarrow> None) else Some schema)) (\<lambda>entries.
       and_then (if isArray then (case val of
                    Some (JArr vs) \<Rightarrow> Inr (map Some vs)
                  | Some (JStr s) \<Rightarrow> Inr (map (\<lambda>c. Some (JStr [c])) s)
                  | _ \<Rightarrow> Inl (TypeError ''val is not iterable''))
                 else Inr [val]) (\<lambda>vs.
         and_then (map_result (\<lambda>v. map_result (check_entry dump v) entries) vs) (\<lambda>_. Inr ())))"

text \<open>The code blocks: the odd pieces of the split at the fences, counted from the end.\<close>

definition blocks_from_end :: "string list \<Rightarrow> nat \<Rightarrow> string list" where
  "blocks_from_end pcs size0 = map (\<lambda>i. js_trim (pcs ! (length pcs - 2 * (size0 - i)))) [0..<size0]"

definition show_half :: "nat \<Rightarrow> string" where
  "show_half n = show_nat (n div 2) @ (if even n then [] else ''.5'')"

definition parseResultSchema :: "llm_env \<Rightarrow> json option \<Rightarrow> parse_type \<Rightarrow> string option \<Rightarrow> parsed result" where
  "parseResultSchema env schema pt txt =
     (if \<not> truthy_opt schema then Inr (P_text txt)
      else if \<not> nonempty_str txt then Inl (PlainError ''LLM result must not empty'')
      else
        (case pt of
           PT_json \<Rightarrow>
             and_then (toJSON (le_parser env) (the txt) (is_array (the schema))) (\<lambda>ret.
               and_then (checkJsonType (le_dump env) (the schema) ret (is_array (the schema))) (\<lambda>_. Inr (P_json ret)))
         | PT_codeBlock \<Rightarrow>
             (let n = (case the schema of JArr xs \<Rightarrow> length xs | JStr s \<Rightarrow> length s | _ \<Rightarrow> 0)
              in if n = 0 then Inl (PlainError ''for parseType=codeBlock, parseSchema must be array'')
                 else (let pcs = fence_split True None [] (the txt)
                       in if length pcs < 2 * n + 1
                          then Inl (PlainError (show_nat n @ '' code blocks expected, got: '' @ show_half (length pcs)))
                          else Inr (P_blocks (blocks_from_end pcs n))))
         | PT_other t \<Rightarrow> Inl (PlainError (''Unknown llm result parseType:'' @ t))))"

section \<open>The cache of results\<close>

definition max_prompt :: nat where
  "max_prompt = 8190"

text \<open>\<open>_llmCache\<close> without a result: the row found. \<open>None\<close> when the prompt is too long. A model that is
  undefined is no condition of the query.\<close>

definition cacheFind :: "string \<Rightarrow> string option \<Rightarrow> string \<Rightarrow> llm_world \<Rightarrow> cache_entry option" where
  "cacheFind name model prompt w =
     (if length prompt > max_prompt then None
      else find (\<lambda>r. ce_prompt r = prompt \<and> (case model of None \<Rightarrow> True | Some m \<Rightarrow> ce_model r = m) \<and> ce_name r = name) (lw_cache w))"

text \<open>\<open>_llmCache\<close> with a result. The columns of the database are bounded.\<close>

definition too_long :: js_error where
  "too_long = PlainError ''The provided value for the column is too long''"

definition fits :: "cache_entry \<Rightarrow> bool" where
  "fits r \<longleftrightarrow> length (ce_name r) \<le> 32 \<and> length (ce_model r) \<le> 127 \<and> length (ce_prompt r) \<le> 8191 \<and> length (ce_result r) \<le> 8191"

definition cacheStore :: "string \<Rightarrow> string option \<Rightarrow> string \<Rightarrow> string \<Rightarrow> llm_world \<Rightarrow> llm_world result" where
  "cacheStore name model prompt res w =
     (if length prompt > max_prompt \<or> res = [] then Inr w
      else
        (case cacheFind name model prompt w of
           Some r \<Rightarrow>
             (if length res > 8191 then Inl too_long
              else Inr (w\<lparr>lw_cache := map (\<lambda>x. if ce_pk x = ce_pk r then x\<lparr>ce_result := res\<rparr> else x) (lw_cache w)\<rparr>))
         | None \<Rightarrow>
             (case model of
                None \<Rightarrow> Inl (PlainError ''Argument `model` is missing.'')
              | Some m \<Rightarrow>
                  (let new = \<lparr>ce_pk = lw_next w, ce_name = name, ce_model = m, ce_prompt = prompt, ce_result = res\<rparr>
                   in if \<not> fits new then Inl too_long
                      else Inr (w\<lparr>lw_cache := lw_cache w @ [new], lw_next := lw_next w + 1\<rparr>)))))"

text \<open>\<open>for (llmModel of this.llmModels)\<close>: of a string, the loop runs over its characters.\<close>

definition models_iter :: "models \<Rightarrow> string list" where
  "models_iter m = (case m of OneModel s \<Rightarrow> map (\<lambda>c. [c]) s | ManyModels ms \<Rightarrow> ms)"

fun cache_scan :: "string \<Rightarrow> string \<Rightarrow> string list \<Rightarrow> string option \<Rightarrow> llm_world \<Rightarrow> string option \<times> string option" where
  "cache_scan name prompt [] last_model w = (None, last_model)"
| "cache_scan name prompt (m # ms) last_model w =
     (case cacheFind name (Some m) prompt w of
        Some r \<Rightarrow> if ce_result r \<noteq> [] then (Some (ce_result r), Some m) else cache_scan name prompt ms (Some m) w
      | None \<Rightarrow> cache_scan name prompt ms (Some m) w)"

definition llmCacheLoad :: "llm_env \<Rightarrow> string \<Rightarrow> string \<Rightarrow> llm_world \<Rightarrow> string option \<times> string option" where
  "llmCacheLoad env name prompt w =
     (if length prompt \<le> max_prompt then cache_scan name prompt (models_iter (le_models env)) None w else (None, None))"

section \<open>Query\<close>

record query_spec =
  qs_models :: "models option"
  qs_paidBy :: "string option"
  qs_parseType :: parse_type
  qs_schema :: "json option"
  qs_validate :: "(parsed \<Rightarrow> nat \<Rightarrow> bool result) option"

text \<open>\<open>models || (models = this.llmModels)\<close>: only an empty string is falsy.\<close>

definition chosen_models :: "llm_env \<Rightarrow> models option \<Rightarrow> models" where
  "chosen_models env m =
     (case m of None \<Rightarrow> le_models env | Some (OneModel []) \<Rightarrow> le_models env | Some x \<Rightarrow> x)"

definition model_name :: "models \<Rightarrow> string option \<Rightarrow> string option" where
  "model_name m old = (case m of OneModel s \<Rightarrow> Some s | ManyModels _ \<Rightarrow> old)"

definition service_error :: "llm_response \<Rightarrow> string" where
  "service_error r = ''LLM service not available, error='' @ (case rp_error r of None \<Rightarrow> ''undefined'' | Some m \<Rightarrow> m)"

definition failed_content :: "string option \<Rightarrow> string \<Rightarrow> string \<Rightarrow> js_error" where
  "failed_content model template msg =
     PlainError (''Failed validating generated content, '' @ join_char (CHR '','') [str_or model [], template, msg])"

text \<open>The variables of the loop. The body ends with a rethrown error, a retry, or a result and its validity.\<close>

record query_vars =
  qv_text :: "string option"
  qv_error :: string
  qv_model :: "string option"

datatype 'a turn = Rethrow js_error | Retry string | Finish bool 'a

text \<open>The second half of the body: parse, then validate.\<close>

definition judge :: "llm_env \<Rightarrow> query_spec \<Rightarrow> nat \<Rightarrow> string option \<Rightarrow> (parsed \<times> bool) result" where
  "judge env spec i txt =
     and_then (parseResultSchema env (qs_schema spec) (qs_parseType spec) txt) (\<lambda>ret.
       and_then (case qs_validate spec of None \<Rightarrow> Inr True | Some f \<Rightarrow> f ret i) (\<lambda>ok. Inr (ret, ok)))"

definition query_body :: "llm_env \<Rightarrow> query_spec \<Rightarrow> string option \<Rightarrow> string \<Rightarrow> nat \<Rightarrow> query_vars \<Rightarrow> llm_world \<Rightarrow>
    llm_world \<times> query_vars \<times> parsed option turn" where
  "query_body env spec cache prompt i v w =
     (let verdict = (\<lambda>w v. case judge env spec i (qv_text v) of
            Inl e \<Rightarrow> (w, v, if error_status e = Some 402 then Rethrow e else Retry (error_message e))
          | Inr (ret, ok) \<Rightarrow> (w, v, Finish ok (Some ret)))
      in if nonempty_str cache then verdict w v
         else
           (let promptExt = (if qv_error v \<noteq> []
                  then prompt @ [CHR 0x0A, CHR 0x0A] @ ''Please retry as you just made a mistake: '' @ qv_error v else prompt)
            in case completion env (qs_paidBy spec) (PromptRequest promptExt (chosen_models env (qs_models spec))) w of
                 (w1, Inl e) \<Rightarrow> (w1, v, if error_status e = Some 402 then Rethrow e else Retry (error_message e))
               | (w1, Inr r) \<Rightarrow>
                   (let v1 = v\<lparr>qv_model := (if nonempty_str (rp_model r) then rp_model r else qv_model v)\<rparr>
                    in case rp_choices r of
                         Some (c # _) \<Rightarrow> verdict w1 (v1\<lparr>qv_text := ch_text c\<rparr>)
                       | _ \<Rightarrow> (w1, v1\<lparr>qv_error := service_error r\<rparr>, Finish False None))))"

fun query_loop :: "llm_env \<Rightarrow> query_spec \<Rightarrow> string option \<Rightarrow> string \<Rightarrow> nat \<Rightarrow> nat \<Rightarrow> query_vars \<Rightarrow> llm_world \<Rightarrow>
    llm_world \<times> query_vars \<times> parsed option turn" where
  "query_loop env spec cache prompt 0 i v w = (w, v, Finish False None)"
| "query_loop env spec cache prompt (Suc k) i v w =
     (case query_body env spec cache prompt i v w of
        (w1, v1, Retry m) \<Rightarrow> query_loop env spec cache prompt k (Suc i) (v1\<lparr>qv_error := m\<rparr>) w1
      | out \<Rightarrow> out)"

definition query :: "llm_env \<Rightarrow> string \<Rightarrow> json \<Rightarrow> query_spec \<Rightarrow> llm_world \<Rightarrow> llm_world \<times> parsed result" where
  "query env template args spec w0 =
     (case prompt_of env template args w0 of
        (w, Inl e) \<Rightarrow> (w, Inl e)
      | (w, Inr prompt) \<Rightarrow>
          (let (cache, m0) = (if le_cache_on env then llmCacheLoad env template prompt w else (None, None));
               notCached = (le_cache_on env \<and> \<not> nonempty_str cache);
               v0 = \<lparr>qv_text = Some [], qv_error = [], qv_model = model_name (chosen_models env (qs_models spec)) m0\<rparr>
           in case query_loop env spec cache prompt 3 0 v0 w of
                (w1, v, Rethrow e) \<Rightarrow> (w1, Inl e)
              | (w1, v, Finish ok ret) \<Rightarrow>
                  (if \<not> ok then (w1, Inl (failed_content (qv_model v) template (qv_error v)))
                   else if notCached then
                     (case cacheStore template (qv_model v) prompt (str_or (qv_text v) []) w1 of
                        Inl e \<Rightarrow> (w1, Inl e) | Inr w2 \<Rightarrow> (w2, Inr (the ret)))
                   else (w1, Inr (the ret)))
              | (w1, v, Retry m) \<Rightarrow> (w1, Inl (failed_content (qv_model v) template m))))"

section \<open>Chat\<close>

record chat_vars =
  cv_messages :: "message list"
  cv_text :: "string option"
  cv_invalid :: string
  cv_model :: "string option"

definition text_json :: "string option \<Rightarrow> json" where
  "text_json t = (case t of None \<Rightarrow> JNull | Some s \<Rightarrow> JStr s)"

definition mistake :: "string \<Rightarrow> string" where
  "mistake m = ''There was a mistake in generated content:'' @ [CHR 0x0A] @ m"

text \<open>After an error the conversation goes on with the text so far and the complaint.\<close>

definition complain :: "string \<Rightarrow> chat_vars \<Rightarrow> chat_vars" where
  "complain m v =
     v\<lparr>cv_messages := cv_messages v @ [\<lparr>mg_role = R_assistant, mg_content = text_json (cv_text v)\<rparr>,
         \<lparr>mg_role = R_user, mg_content = JStr (mistake m @ [CHR 0x0A, CHR 0x0A] @ ''please re-generate'')\<rparr>],
       cv_invalid := mistake m\<rparr>"

definition chat_body :: "llm_env \<Rightarrow> query_spec \<Rightarrow> nat \<Rightarrow> chat_vars \<Rightarrow> llm_world \<Rightarrow> llm_world \<times> chat_vars \<times> parsed option turn" where
  "chat_body env spec i v0 w =
     (let v = v0\<lparr>cv_invalid := []\<rparr>;
          caught = (\<lambda>w v e. (w, if error_status e = Some 402 then v else complain (error_message e) v,
                              if error_status e = Some 402 then Rethrow e else Retry (error_message e)))
      in case completion env (qs_paidBy spec) (ChatRequest (cv_messages v) (chosen_models env (qs_models spec))) w of
           (w1, Inl e) \<Rightarrow> caught w1 v e
         | (w1, Inr r) \<Rightarrow>
             (let v1 = v\<lparr>cv_model := (if nonempty_str (rp_model r) then rp_model r else cv_model v)\<rparr>
              in case rp_choices r of
                   Some (c # _) \<Rightarrow>
                     (case ch_message c of
                        None \<Rightarrow> caught w1 v1 (TypeError ''Cannot read properties of undefined (reading content)'')
                      | Some t \<Rightarrow>
                          (let v2 = v1\<lparr>cv_text := t\<rparr>
                           in case judge env spec i t of
                                Inl e \<Rightarrow> caught w1 v2 e
                              | Inr (ret, ok) \<Rightarrow>
                                  (w1, if ok then v2 else v2\<lparr>cv_invalid := ''Failed validating generated content''\<rparr>, Finish ok (Some ret))))
                 | _ \<Rightarrow> (w1, v1\<lparr>cv_invalid := service_error r\<rparr>, Finish False None)))"

fun chat_loop :: "llm_env \<Rightarrow> query_spec \<Rightarrow> nat \<Rightarrow> nat \<Rightarrow> chat_vars \<Rightarrow> llm_world \<Rightarrow> llm_world \<times> chat_vars \<times> parsed option turn" where
  "chat_loop env spec 0 i v w = (w, v, Finish False None)"
| "chat_loop env spec (Suc k) i v w =
     (case chat_body env spec i v w of
        (w1, v1, Retry m) \<Rightarrow> chat_loop env spec k (Suc i) v1 w1
      | out \<Rightarrow> out)"

text \<open>The caller's list of messages is the second component: it is changed in place.\<close>

definition chat :: "llm_env \<Rightarrow> string \<Rightarrow> message list \<Rightarrow> json \<Rightarrow> query_spec \<Rightarrow> llm_world \<Rightarrow> llm_world \<times> message list \<times> parsed result" where
  "chat env template original args spec w0 =
     (case prompt_of env template args w0 of
        (w, Inl e) \<Rightarrow> (w, original, Inl e)
      | (w, Inr prompt) \<Rightarrow>
          (let messages = \<lparr>mg_role = R_system, mg_content = JStr prompt\<rparr> # original
           in if mg_role (last messages) \<noteq> R_user then (w, original, Inl (PlainError ''Current message must be role=user''))
              else
                (case chat_loop env spec 3 0 \<lparr>cv_messages = messages, cv_text = Some [], cv_invalid = [],
                        cv_model = model_name (chosen_models env (qs_models spec)) (Some [])\<rparr> w of
                   (w1, v, Rethrow e) \<Rightarrow> (w1, original, Inl e)
                 | (w1, v, Finish ok ret) \<Rightarrow>
                     (if cv_invalid v \<noteq> [] then (w1, original, Inl (failed_content (cv_model v) template (cv_invalid v)))
                      else (w1, original @ [\<lparr>mg_role = R_assistant, mg_content = text_json (cv_text v)\<rparr>], Inr (the ret)))
                 | (w1, v, Retry m) \<Rightarrow> (w1, original, Inl (failed_content (cv_model v) template (cv_invalid v))))))"

section \<open>Lemmas\<close>

lemma settle_fields [simp]:
  "lw_requests (settle env w) = lw_requests w" "lw_cache (settle env w) = lw_cache w"
  "lw_answers (settle env w) = lw_answers w"
  by (simp_all add: settle_def Let_def)

lemma completion_requests:
  "completion env p req w = (w', r) \<Longrightarrow>
     lw_cache w' = lw_cache w \<and> (lw_requests w' = lw_requests w \<and> (\<exists>e. r = Inl e) \<or> lw_requests w' = lw_requests w @ [req])"
  by (auto simp: completion_def Let_def split: sum.splits list.splits llm_answer.splits)

lemma prompt_of_world: "prompt_of env t a w = (w', r) \<Longrightarrow> lw_requests w' = lw_requests w \<and> lw_cache w' = lw_cache w"
  by (auto simp: prompt_of_def Let_def split: option.splits if_splits)

text \<open>One turn of the query: what was sent, and what a finished turn has established.\<close>

lemma query_body_sends:
  assumes "query_body env spec cache prompt i v w = (w', v', out)"
  shows "lw_cache w' = lw_cache w \<and> (\<exists>reqs. lw_requests w' = lw_requests w @ reqs \<and> length reqs \<le> 1 \<and> (nonempty_str cache \<longrightarrow> reqs = []))"
proof (cases "nonempty_str cache")
  case True
  with assms show ?thesis by (auto simp: query_body_def Let_def split: sum.splits if_splits)
next
  case False
  obtain w1 r where c: "completion env (qs_paidBy spec) (PromptRequest (if qv_error v \<noteq> []
      then prompt @ [CHR 0x0A, CHR 0x0A] @ ''Please retry as you just made a mistake: '' @ qv_error v else prompt)
      (chosen_models env (qs_models spec))) w = (w1, r)" by fastforce
  have "w' = w1"
    using assms c False by (auto simp: query_body_def Let_def split: sum.splits option.splits list.splits)
  with completion_requests [OF c] show ?thesis using False by auto
qed

lemma query_body_judged:
  assumes "query_body env spec cache prompt i v w = (w', v', Finish True ret)"
  shows "\<exists>r. ret = Some r \<and> judge env spec i (qv_text v') = Inr (r, True)"
proof (cases "nonempty_str cache")
  case True
  with assms show ?thesis by (auto simp: query_body_def Let_def split: sum.splits if_splits)
next
  case False
  obtain w1 r where c: "completion env (qs_paidBy spec) (PromptRequest (if qv_error v \<noteq> []
      then prompt @ [CHR 0x0A, CHR 0x0A] @ ''Please retry as you just made a mistake: '' @ qv_error v else prompt)
      (chosen_models env (qs_models spec))) w = (w1, r)" by fastforce
  show ?thesis
    using assms c False by (auto simp: query_body_def Let_def split: sum.splits option.splits list.splits if_splits)
qed

lemma query_loop_sends:
  assumes "query_loop env spec cache prompt k i v w = (w', v', out)"
  shows "lw_cache w' = lw_cache w \<and> (\<exists>reqs. lw_requests w' = lw_requests w @ reqs \<and> length reqs \<le> k \<and> (nonempty_str cache \<longrightarrow> reqs = []))"
  using assms
proof (induction k arbitrary: i v w)
  case (Suc k)
  obtain w1 v1 o1 where b: "query_body env spec cache prompt i v w = (w1, v1, o1)" by (cases "query_body env spec cache prompt i v w") auto
  from query_body_sends [OF b] obtain r1 where r1: "lw_cache w1 = lw_cache w" "lw_requests w1 = lw_requests w @ r1" "length r1 \<le> 1"
    "nonempty_str cache \<longrightarrow> r1 = []" by auto
  show ?case
  proof (cases o1)
    case (Retry m)
    with Suc.prems b have "query_loop env spec cache prompt k (Suc i) (v1\<lparr>qv_error := m\<rparr>) w1 = (w', v', out)" by simp
    from Suc.IH [OF this] obtain r2 where "lw_cache w' = lw_cache w1" "lw_requests w' = lw_requests w1 @ r2" "length r2 \<le> k"
      "nonempty_str cache \<longrightarrow> r2 = []" by auto
    with r1 show ?thesis by (intro conjI exI [of _ "r1 @ r2"]) auto
  qed (use Suc.prems b r1 in auto)
qed simp

lemma query_loop_judged:
  "query_loop env spec cache prompt k i v w = (w', v', Finish True ret) \<Longrightarrow>
     \<exists>r j. i \<le> j \<and> j < i + k \<and> ret = Some r \<and> judge env spec j (qv_text v') = Inr (r, True)"
proof (induction k arbitrary: i v w)
  case (Suc k)
  obtain w1 v1 o1 where b: "query_body env spec cache prompt i v w = (w1, v1, o1)" by (cases "query_body env spec cache prompt i v w") auto
  show ?case
  proof (cases o1)
    case (Retry m)
    with Suc.prems b have "query_loop env spec cache prompt k (Suc i) (v1\<lparr>qv_error := m\<rparr>) w1 = (w', v', Finish True ret)" by simp
    from Suc.IH [OF this] obtain r j where "Suc i \<le> j" "j < Suc i + k" "ret = Some r" "judge env spec j (qv_text v') = Inr (r, True)"
      by blast
    then show ?thesis by (intro exI [of _ r] exI [of _ j]) simp
  next
    case (Finish ok r)
    with Suc.prems b have "query_body env spec cache prompt i v w = (w', v', Finish True ret)" by simp
    from query_body_judged [OF this] obtain r where "ret = Some r" "judge env spec i (qv_text v') = Inr (r, True)" by blast
    then show ?thesis by (intro exI [of _ r] exI [of _ i]) simp
  qed (use Suc.prems b in simp)
qed simp

lemma query_cases:
  assumes "query env template args spec w = (w', Inr ret)"
  obtains prompt w0 cache m0 v v0 w1 where "prompt_of env template args w = (w0, Inr prompt)"
    "(cache, m0) = (if le_cache_on env then llmCacheLoad env template prompt w0 else (None, None))"
    "query_loop env spec cache prompt 3 0 v0 w0 = (w1, v, Finish True (Some ret))"
    "if le_cache_on env \<and> \<not> nonempty_str cache then cacheStore template (qv_model v) prompt (str_or (qv_text v) []) w1 = Inr w' else w' = w1"
proof -
  from assms obtain w0 prompt where p: "prompt_of env template args w = (w0, Inr prompt)"
    by (auto simp: query_def split: prod.splits sum.splits)
  obtain cache m0 where cm: "(cache, m0) = (if le_cache_on env then llmCacheLoad env template prompt w0 else (None, None))"
    by (metis surj_pair)
  let ?v0 = "\<lparr>qv_text = Some [], qv_error = [], qv_model = model_name (chosen_models env (qs_models spec)) m0\<rparr>"
  obtain w1 v out where l: "query_loop env spec cache prompt 3 0 ?v0 w0 = (w1, v, out)"
    by (cases "query_loop env spec cache prompt 3 0 ?v0 w0") auto
  from assms p cm [symmetric] l obtain r where o1: "out = Finish True r" and r: "ret = the r"
    by (cases out) (auto simp: query_def Let_def split: if_splits sum.splits)
  from l o1 query_loop_judged obtain r' where "r = Some r'" by blast
  with r o1 l have l': "query_loop env spec cache prompt 3 0 ?v0 w0 = (w1, v, Finish True (Some ret))" by simp
  show ?thesis
    by (rule that [OF p cm l']) (use assms p cm [symmetric] l' in \<open>auto simp: query_def Let_def split: if_splits sum.splits\<close>)
qed

lemma query_judged:
  assumes "query env template args spec w = (w', Inr ret)"
  shows "\<exists>i tx. i < 3 \<and> judge env spec i tx = Inr (ret, True)"
  using assms
proof (cases rule: query_cases)
  case (1 prompt w0 cache m0 v v0 w1)
  from query_loop_judged [OF 1(3)] show ?thesis by auto
qed

text \<open>What the check of generated JSON establishes, for an example that is an object.\<close>

definition conforms :: "(string \<times> json) list \<Rightarrow> json \<Rightarrow> bool" where
  "conforms kts v \<longleftrightarrow>
     (\<forall>(k, ty)\<in>set kts. truthy ty \<longrightarrow> k \<noteq> [] \<longrightarrow>
        (\<exists>x. own_value k (Some v) = Inr (Some x) \<and> (truthy x \<longrightarrow> js_typeof x = js_typeof ty \<and> is_array x = is_array ty)))"

lemma map_result_each: "map_result f xs = Inr ys \<Longrightarrow> x \<in> set xs \<Longrightarrow> \<exists>y. f x = Inr y"
  by (induction xs arbitrary: ys) (auto simp: outcome_simps)

lemma check_entry_conforms:
  assumes "check_entry dump v (k, ty) = Inr u" "truthy ty" "k \<noteq> []"
  shows "\<exists>x. own_value k v = Inr (Some x) \<and> (truthy x \<longrightarrow> js_typeof x = js_typeof ty \<and> is_array x = is_array ty)"
  using assms by (auto simp: check_entry_def outcome_simps split: option.splits if_splits)

lemma own_value_some: "own_value k v = Inr y \<Longrightarrow> \<exists>j. v = Some j"
  by (cases v) (auto simp: own_value_def)

lemma checkJsonType_object:
  assumes "checkJsonType dump (JObj kts) val False = Inr u" "\<exists>(k, ty)\<in>set kts. truthy ty \<and> k \<noteq> []"
  shows "\<exists>v. val = Some v \<and> conforms kts v"
proof -
  from assms(1) obtain ys where m: "map_result (check_entry dump val) kts = Inr ys"
    by (auto simp: checkJsonType_def js_entries_def outcome_simps)
  have e: "\<exists>x. own_value k val = Inr (Some x) \<and> (truthy x \<longrightarrow> js_typeof x = js_typeof ty \<and> is_array x = is_array ty)"
    if kt: "(k, ty) \<in> set kts" "truthy ty" "k \<noteq> []" for k ty
    using map_result_each [OF m kt(1)] check_entry_conforms [OF _ kt(2,3)] by blast
  with assms(2) obtain v where "val = Some v" using own_value_some by blast
  with e show ?thesis unfolding conforms_def by blast
qed

lemma checkJsonType_array:
  assumes "checkJsonType dump (JArr (JObj kts # rest)) (Some (JArr vs)) True = Inr u"
  shows "\<forall>v\<in>set vs. conforms kts v"
proof
  fix v assume v: "v \<in> set vs"
  from assms obtain ys where m: "map_result (\<lambda>v. map_result (check_entry dump v) kts) (map Some vs) = Inr ys"
    by (auto simp: checkJsonType_def js_entries_def outcome_simps)
  from map_result_each [OF m, of "Some v"] v obtain zs where z: "map_result (check_entry dump (Some v)) kts = Inr zs" by auto
  show "conforms kts v"
    unfolding conforms_def using map_result_each [OF z] check_entry_conforms by fastforce
qed

text \<open>One turn of the chat, and the turns together.\<close>

lemma complain_fields [simp]:
  "cv_text (complain m v) = cv_text v" "cv_model (complain m v) = cv_model v" "cv_invalid (complain m v) = mistake m"
  "cv_messages (complain m v) = cv_messages v @ [\<lparr>mg_role = R_assistant, mg_content = text_json (cv_text v)\<rparr>,
         \<lparr>mg_role = R_user, mg_content = JStr (mistake m @ [CHR 0x0A, CHR 0x0A] @ ''please re-generate'')\<rparr>]"
  by (simp_all add: complain_def)

lemma chat_body_turn:
  assumes "chat_body env spec i v w = (w', v', out)"
  shows "(\<exists>reqs. lw_requests w' = lw_requests w @ reqs \<and>
      set reqs \<subseteq> {ChatRequest (cv_messages v) (chosen_models env (qs_models spec))} \<and> length reqs \<le> 1) \<and>
    (case out of Retry m \<Rightarrow> \<exists>a b. cv_messages v' = cv_messages v @ [a, b] \<and> mg_role a = R_assistant \<and> mg_role b = R_user \<and> cv_invalid v' = mistake m
     | Finish ok ret \<Rightarrow> (cv_invalid v' = [] \<longleftrightarrow> ok) \<and> (ok \<longrightarrow> (\<exists>r. ret = Some r \<and> judge env spec i (cv_text v') = Inr (r, True)))
     | Rethrow e \<Rightarrow> error_status e = Some 402)"
proof -
  obtain w1 r where c: "completion env (qs_paidBy spec) (ChatRequest (cv_messages v) (chosen_models env (qs_models spec))) w = (w1, r)"
    by fastforce
  have w1: "w' = w1"
    using assms c by (auto simp: chat_body_def Let_def split: sum.splits option.splits list.splits)
  have "\<exists>reqs. lw_requests w' = lw_requests w @ reqs \<and>
      set reqs \<subseteq> {ChatRequest (cv_messages v) (chosen_models env (qs_models spec))} \<and> length reqs \<le> 1"
    using completion_requests [OF c] unfolding w1 by auto
  moreover have "case out of Retry m \<Rightarrow> \<exists>a b. cv_messages v' = cv_messages v @ [a, b] \<and> mg_role a = R_assistant \<and> mg_role b = R_user \<and> cv_invalid v' = mistake m
     | Finish ok ret \<Rightarrow> (cv_invalid v' = [] \<longleftrightarrow> ok) \<and> (ok \<longrightarrow> (\<exists>r. ret = Some r \<and> judge env spec i (cv_text v') = Inr (r, True)))
     | Rethrow e \<Rightarrow> error_status e = Some 402"
    using assms c by (auto simp: chat_body_def Let_def service_error_def split: sum.splits option.splits list.splits if_splits)
  ultimately show ?thesis by blast
qed

lemma chat_loop_turns:
  assumes "chat_loop env spec k i v w = (w', v', out)"
  shows "(\<exists>reqs. lw_requests w' = lw_requests w @ reqs \<and> length reqs \<le> k \<and>
      (\<forall>r\<in>set reqs. \<exists>more md. r = ChatRequest (cv_messages v @ more) md \<and> even (length more) \<and> length more + 2 \<le> 2 * k)) \<and>
    (\<forall>ok ret. out = Finish ok ret \<longrightarrow> 0 < k \<longrightarrow> ok \<longrightarrow>
       (\<exists>r j. ret = Some r \<and> j < i + k \<and> judge env spec j (cv_text v') = Inr (r, True)))"
  using assms
proof (induction k arbitrary: i v w)
  case (Suc k)
  obtain w1 v1 o1 where b: "chat_body env spec i v w = (w1, v1, o1)" by (cases "chat_body env spec i v w") auto
  from chat_body_turn [OF b] obtain r1 where r1: "lw_requests w1 = lw_requests w @ r1" "length r1 \<le> 1"
    "set r1 \<subseteq> {ChatRequest (cv_messages v) (chosen_models env (qs_models spec))}" by auto
  have first: "\<forall>r\<in>set r1. \<exists>more md. r = ChatRequest (cv_messages v @ more) md \<and> even (length more) \<and> length more + 2 \<le> 2 * Suc k"
    using r1(3) by (auto intro: exI [of _ "[]"])
  show ?case
  proof (cases o1)
    case (Retry m)
    with Suc.prems b have l: "chat_loop env spec k (Suc i) v1 w1 = (w', v', out)" by simp
    from chat_body_turn [OF b] Retry obtain x y where m: "cv_messages v1 = cv_messages v @ [x, y]" by auto
    from Suc.IH [OF l] obtain r2 where r2: "lw_requests w' = lw_requests w1 @ r2" "length r2 \<le> k"
      "\<forall>r\<in>set r2. \<exists>more md. r = ChatRequest (cv_messages v1 @ more) md \<and> even (length more) \<and> length more + 2 \<le> 2 * k" by auto
    have "\<exists>more md. r = ChatRequest (cv_messages v @ more) md \<and> even (length more) \<and> length more + 2 \<le> 2 * Suc k" if "r \<in> set r2" for r
    proof -
      from r2(3) that obtain more md where "r = ChatRequest (cv_messages v1 @ more) md" "even (length more)" "length more + 2 \<le> 2 * k" by blast
      with m show ?thesis by (intro exI [of _ "[x, y] @ more"] exI [of _ md]) simp
    qed
    with first r1 r2(1,2) have "\<exists>reqs. lw_requests w' = lw_requests w @ reqs \<and> length reqs \<le> Suc k \<and>
      (\<forall>r\<in>set reqs. \<exists>more md. r = ChatRequest (cv_messages v @ more) md \<and> even (length more) \<and> length more + 2 \<le> 2 * Suc k)"
      by (intro exI [of _ "r1 @ r2"]) auto
    moreover have "\<exists>r j. ret = Some r \<and> j < i + Suc k \<and> judge env spec j (cv_text v') = Inr (r, True)" if "out = Finish True ret" for ret
    proof (cases k)
      case 0
      with l that show ?thesis by simp
    next
      case (Suc n)
      with Suc.IH [OF l] that show ?thesis by auto
    qed
    ultimately show ?thesis by blast
  next
    case (Finish ok ret)
    with Suc.prems b have o: "w' = w1" "v' = v1" "out = Finish ok ret" by simp_all
    from chat_body_turn [OF b] Finish have "ok \<longrightarrow> (\<exists>r. ret = Some r \<and> judge env spec i (cv_text v1) = Inr (r, True))" by simp
    then have "\<forall>k' r'. out = Finish k' r' \<longrightarrow> k' \<longrightarrow> (\<exists>r j. r' = Some r \<and> j < i + Suc k \<and> judge env spec j (cv_text v') = Inr (r, True))"
      using o by (auto intro!: exI [of _ i])
    with o first r1(1,2) show ?thesis by (intro conjI exI [of _ r1]) auto
  next
    case (Rethrow e)
    with Suc.prems b first r1(1,2) show ?thesis by (intro conjI exI [of _ r1]) auto
  qed
qed simp

text \<open>How much a query sends.\<close>

lemma query_sends:
  "\<exists>reqs. lw_requests (fst (query env template args spec w)) = lw_requests w @ reqs \<and> length reqs \<le> 3 \<and>
     (\<forall>w0 prompt. prompt_of env template args w = (w0, Inr prompt) \<longrightarrow> le_cache_on env \<longrightarrow>
        nonempty_str (fst (llmCacheLoad env template prompt w0)) \<longrightarrow> reqs = [])"
proof -
  obtain w0 r where p: "prompt_of env template args w = (w0, r)" by fastforce
  note w0 = prompt_of_world [OF p]
  show ?thesis
  proof (cases r)
    case (Inl e)
    with p w0 show ?thesis by (auto simp: query_def)
  next
    case (Inr prompt)
    obtain cache m0 where cm: "(if le_cache_on env then llmCacheLoad env template prompt w0 else (None, None)) = (cache, m0)" by fastforce
    let ?v0 = "\<lparr>qv_text = Some [], qv_error = [], qv_model = model_name (chosen_models env (qs_models spec)) m0\<rparr>"
    obtain w1 v out where l: "query_loop env spec cache prompt 3 0 ?v0 w0 = (w1, v, out)"
      by (cases "query_loop env spec cache prompt 3 0 ?v0 w0") auto
    have st: "lw_requests w2 = lw_requests w1" if "cacheStore a b c d w1 = Inr w2" for a b c d w2
      using that by (auto simp: cacheStore_def Let_def split: if_splits option.splits)
    have q: "lw_requests (fst (query env template args spec w)) = lw_requests w1"
      using p Inr cm l by (auto simp: query_def Let_def st split: turn.splits sum.splits)
    from query_loop_sends [OF l] obtain reqs where r: "lw_requests w1 = lw_requests w0 @ reqs" "length reqs \<le> 3" "nonempty_str cache \<longrightarrow> reqs = []"
      by auto
    show ?thesis
      unfolding q by (rule exI [of _ reqs]) (use r w0 p Inr cm in auto)
  qed
qed

section \<open>Properties\<close>

definition ex_world :: "int \<Rightarrow> llm_answer list \<Rightarrow> llm_world" where
  "ex_world b as = \<lparr>lw_bank = ex_bank b, lw_pending = [], lw_sched = [], lw_answers = as, lw_requests = [], lw_cache = [], lw_next = 1,
     lw_templates = [(''t'', ''say hi'')], lw_compiled = []\<rparr>"

definition ex_llm_env :: "models \<Rightarrow> llm_env" where
  "ex_llm_env m = \<lparr>le_bill = ex_bill_env, le_models = m, le_cache_on = True, le_render = (\<lambda>src args. Inr src),
     le_parser = (\<lambda>s. Inr (JObj [(''a'', JStr ''x'')])), le_dump = (\<lambda>j. ''j'')\<rparr>"

definition ex_spec :: query_spec where
  "ex_spec = \<lparr>qs_models = None, qs_paidBy = Some ''u'', qs_parseType = PT_json, qs_schema = Some (JObj [(''a'', JStr ''name'')]), qs_validate = None\<rparr>"

definition ex_answer :: "string \<Rightarrow> llm_answer" where
  "ex_answer t = Answered \<lparr>rp_id = Some ''r1'', rp_model = Some ''m'', rp_provider = None,
     rp_choices = Some [\<lparr>ch_text = Some t, ch_message = Some (Some t)\<rparr>], rp_usage = None, rp_error = None\<rparr>"

text \<open>A query is bounded: it sends at most three requests to the language model, whatever the model
  answers, and none at all when the cache has the answer.\<close>

theorem query_bounded:
  "\<exists>reqs. lw_requests (fst (query env template args spec w)) = lw_requests w @ reqs \<and> length reqs \<le> 3 \<and>
     (\<forall>w0 prompt. prompt_of env template args w = (w0, Inr prompt) \<longrightarrow> le_cache_on env \<longrightarrow>
        nonempty_str (fst (llmCacheLoad env template prompt w0)) \<longrightarrow> reqs = [])"
  by (rule query_sends)

theorem query_bounded_witness:
  "lw_requests (fst (query (ex_llm_env (ManyModels [''m''])) ''t'' JNull ex_spec
      ((ex_world 9 [])\<lparr>lw_cache := [\<lparr>ce_pk = 0, ce_name = ''t'', ce_model = ''m'', ce_prompt = ''say hi'', ce_result = ''{a: 1}''\<rparr>]\<rparr>))) = []"
proof -
  let ?w = "(ex_world 9 [])\<lparr>lw_cache := [\<lparr>ce_pk = 0, ce_name = ''t'', ce_model = ''m'', ce_prompt = ''say hi'', ce_result = ''{a: 1}''\<rparr>]\<rparr>"
  let ?env = "ex_llm_env (ManyModels [''m''])"
  let ?wc = "?w\<lparr>lw_compiled := obj_set ''t'' ''say hi'' []\<rparr>"
  have p: "prompt_of ?env ''t'' JNull ?w = (?wc, Inr ''say hi'')"
    by (simp add: prompt_of_def ex_world_def ex_llm_env_def Let_def)
  have c: "nonempty_str (fst (llmCacheLoad ?env ''t'' ''say hi'' ?wc))" "le_cache_on ?env"
    by (simp_all add: llmCacheLoad_def ex_world_def ex_llm_env_def max_prompt_def models_iter_def cacheFind_def)
  from query_bounded [of ?env "''t''" JNull ex_spec ?w] p c show ?thesis by (auto simp: ex_world_def)
qed

text \<open>A cached answer breaks the query that asks for structured output: the cached text is stored in a
  variable that is never parsed, so the query with a schema fails after three empty turns.\<close>

theorem cache_hit_fails:
  assumes "le_cache_on env" "prompt_of env template args w = (w0, Inr prompt)"
    and "llmCacheLoad env template prompt w0 = (Some r, m0)" "r \<noteq> []" "truthy_opt (qs_schema spec)"
  shows "query env template args spec w =
    (w0, Inl (failed_content (model_name (chosen_models env (qs_models spec)) m0) template ''LLM result must not empty''))"
proof -
  have b: "query_body env spec (Some r) prompt i v w = (w, v, Retry ''LLM result must not empty'')" if "qv_text v = Some []" for i v w
    using that assms(4,5) by (simp add: query_body_def judge_def parseResultSchema_def)
  have "query_loop env spec (Some r) prompt 3 0 \<lparr>qv_text = Some [], qv_error = [], qv_model = m\<rparr> w0 =
      (w0, \<lparr>qv_text = Some [], qv_error = ''LLM result must not empty'', qv_model = m\<rparr>, Finish False None)" for m
    by (simp add: numeral_3_eq_3 b)
  with assms show ?thesis by (simp add: query_def Let_def)
qed

theorem cache_hit_fails_witness:
  "snd (query (ex_llm_env (ManyModels [''m''])) ''t'' JNull ex_spec
      ((ex_world 9 [])\<lparr>lw_cache := [\<lparr>ce_pk = 0, ce_name = ''t'', ce_model = ''m'', ce_prompt = ''say hi'', ce_result = ''{a: 1}''\<rparr>]\<rparr>)) =
   Inl (failed_content (Some ''m'') ''t'' ''LLM result must not empty'')"
proof -
  let ?w = "(ex_world 9 [])\<lparr>lw_cache := [\<lparr>ce_pk = 0, ce_name = ''t'', ce_model = ''m'', ce_prompt = ''say hi'', ce_result = ''{a: 1}''\<rparr>]\<rparr>"
  let ?env = "ex_llm_env (ManyModels [''m''])"
  let ?wc = "?w\<lparr>lw_compiled := obj_set ''t'' ''say hi'' []\<rparr>"
  have p: "prompt_of ?env ''t'' JNull ?w = (?wc, Inr ''say hi'')"
    by (simp add: prompt_of_def ex_world_def ex_llm_env_def Let_def)
  have c: "llmCacheLoad ?env ''t'' ''say hi'' ?wc = (Some ''{a: 1}'', Some ''m'')"
    by (simp add: llmCacheLoad_def ex_world_def ex_llm_env_def max_prompt_def models_iter_def cacheFind_def)
  have "query ?env ''t'' JNull ex_spec ?w =
      (?wc, Inl (failed_content (model_name (chosen_models ?env (qs_models ex_spec)) (Some ''m'')) ''t'' ''LLM result must not empty''))"
    by (rule cache_hit_fails [OF _ p c]) (simp_all add: ex_llm_env_def ex_spec_def)
  then show ?thesis by (simp add: ex_llm_env_def ex_spec_def chosen_models_def model_name_def)
qed


lemma ex_bank_check: "b > 0 \<Longrightarrow> check_balance ex_user_env (ex_bank b) (Some ''u'') = Inr b"
  by (simp add: check_balance_def getTenant_def findTenantOf_def tenant_of_def ex_bank_def no_users_def ex_user_env_def)


lemma chat_loop_ok:
  "chat_loop env spec k i v w = (w', v', Finish ok ret) \<Longrightarrow> 0 < k \<Longrightarrow> (cv_invalid v' = [] \<longrightarrow> ok) \<or> (\<exists>m. cv_invalid v' = mistake m)"
proof (induction k arbitrary: i v w)
  case (Suc k)
  obtain w1 v1 o1 where b: "chat_body env spec i v w = (w1, v1, o1)" by (cases "chat_body env spec i v w") auto
  show ?case
  proof (cases o1)
    case (Retry m)
    show ?thesis
    proof (cases k)
      case 0
      with Suc.prems b Retry have "v' = v1" by simp
      moreover have "cv_invalid v1 = mistake m" using chat_body_turn [OF b] Retry by auto
      ultimately show ?thesis by (auto simp: mistake_def)
    qed (use Suc.IH Suc.prems b Retry in auto)
  next
    case (Finish k r)
    with Suc.prems b chat_body_turn [OF b] show ?thesis by auto
  qed (use Suc.prems b in simp)
qed simp

text \<open>A chat keeps the caller's conversation whole: on success one assistant message is appended, whose text
  was parsed into the result and accepted; on any failure the conversation is as before. At most three
  requests are sent, each with the system prompt, the conversation and pairs of a bad answer and a complaint.\<close>

theorem chat_conversation:
  assumes "chat env template original args spec w = (w', original', res)"
  shows "(case res of Inl e \<Rightarrow> original' = original
      | Inr ret \<Rightarrow> \<exists>t i. i < 3 \<and> original' = original @ [\<lparr>mg_role = R_assistant, mg_content = text_json t\<rparr>] \<and>
          judge env spec i t = Inr (ret, True)) \<and>
    (\<exists>reqs. lw_requests w' = lw_requests w @ reqs \<and> length reqs \<le> 3 \<and>
      (\<forall>r\<in>set reqs. \<exists>sys more md. r = ChatRequest (sys # original @ more) md \<and> mg_role sys = R_system \<and>
         even (length more) \<and> length more \<le> 4))"
proof -
  obtain w0 pr where p: "prompt_of env template args w = (w0, pr)" by fastforce
  note w0 = prompt_of_world [OF p]
  have trivial: ?thesis if "w' = w0" "original' = original" "\<exists>e. res = Inl e"
    using that w0 by (auto intro: exI [of _ "[]"])
  show ?thesis
  proof (cases pr)
    case (Inl e)
    with assms p trivial show ?thesis by (auto simp: chat_def)
  next
    case (Inr prompt)
    let ?sys = "\<lparr>mg_role = R_system, mg_content = JStr prompt\<rparr>"
    let ?v = "\<lparr>cv_messages = ?sys # original, cv_text = Some [], cv_invalid = [],
        cv_model = model_name (chosen_models env (qs_models spec)) (Some [])\<rparr>"
    obtain w1 v out where l: "chat_loop env spec 3 0 ?v w0 = (w1, v, out)" by (cases "chat_loop env spec 3 0 ?v w0") auto
    show ?thesis
    proof (cases "mg_role (last (?sys # original)) = R_user")
      case False
      with assms p Inr trivial show ?thesis by (auto simp: chat_def Let_def)
    next
      case True
      have w': "w' = w1"
        using assms p Inr True l by (auto simp: chat_def Let_def split: turn.splits if_splits)
      from chat_loop_turns [OF l] obtain reqs where r: "lw_requests w1 = lw_requests w0 @ reqs" "length reqs \<le> 3"
        "\<forall>r\<in>set reqs. \<exists>more md. r = ChatRequest (?sys # original @ more) md \<and> even (length more) \<and> length more + 2 \<le> 2 * 3"
        by auto
      have "\<exists>sys more md. q = ChatRequest (sys # original @ more) md \<and> mg_role sys = R_system \<and> even (length more) \<and> length more \<le> 4"
        if "q \<in> set reqs" for q
        using r(3) that by fastforce
      then have sent: "\<exists>reqs. lw_requests w' = lw_requests w @ reqs \<and> length reqs \<le> 3 \<and>
        (\<forall>r\<in>set reqs. \<exists>sys more md. r = ChatRequest (sys # original @ more) md \<and> mg_role sys = R_system \<and> even (length more) \<and> length more \<le> 4)"
        using r(1,2) w0 w' by (intro exI [of _ reqs]) simp
      have "case res of Inl e \<Rightarrow> original' = original
      | Inr ret \<Rightarrow> \<exists>t i. i < 3 \<and> original' = original @ [\<lparr>mg_role = R_assistant, mg_content = text_json t\<rparr>] \<and>
          judge env spec i t = Inr (ret, True)"
      proof (cases res)
        case (Inl e)
        with assms p Inr True l show ?thesis by (auto simp: chat_def Let_def split: turn.splits if_splits)
      next
        case (Inr ret)
        with assms p \<open>pr = Inr prompt\<close> True l obtain ok rt where o: "out = Finish ok rt" "cv_invalid v = []" "ret = the rt"
          "original' = original @ [\<lparr>mg_role = R_assistant, mg_content = text_json (cv_text v)\<rparr>]"
          by (cases out) (auto simp: chat_def Let_def split: if_splits)
        from chat_loop_ok [OF l [unfolded o(1)]] o(2) have "ok" by (auto simp: mistake_def)
        with chat_loop_turns [OF l] o(1,3) obtain j where "j < 3" "judge env spec j (cv_text v) = Inr (ret, True)" by auto
        with Inr o(4) show ?thesis by auto
      qed
      with sent show ?thesis by blast
    qed
  qed
qed

theorem chat_conversation_witness:
  "\<exists>w' original'. chat (ex_llm_env (OneModel ''m'')) ''t'' [\<lparr>mg_role = R_assistant, mg_content = JNull\<rparr>] JNull ex_spec (ex_world 9 []) =
       (w', original', Inl (PlainError ''Current message must be role=user'')) \<and>
     original' = [\<lparr>mg_role = R_assistant, mg_content = JNull\<rparr>]"
proof -
  have "\<exists>w' original'. chat (ex_llm_env (OneModel ''m'')) ''t'' [\<lparr>mg_role = R_assistant, mg_content = JNull\<rparr>] JNull ex_spec (ex_world 9 []) =
       (w', original', Inl (PlainError ''Current message must be role=user''))"
    by (simp add: chat_def prompt_of_def ex_world_def ex_llm_env_def Let_def)
  then obtain w' original' where c: "chat (ex_llm_env (OneModel ''m'')) ''t'' [\<lparr>mg_role = R_assistant, mg_content = JNull\<rparr>] JNull ex_spec (ex_world 9 []) =
       (w', original', Inl (PlainError ''Current message must be role=user''))" by blast
  from chat_conversation [OF c] c show ?thesis by simp
qed

text \<open>The cache of results: with a list of models, a stored answer is found again by the next query of the
  same template and prompt; with a single model name the search runs over the characters of the name and
  finds no row of a longer model name.\<close>

theorem cache_read_after_write:
  assumes "cacheStore name (Some m) prompt res w = Inr w'" "res \<noteq> []" "length prompt \<le> max_prompt"
    and "distinct (map ce_pk (lw_cache w))"
  shows "(\<forall>ms. le_models env = ManyModels ms \<longrightarrow> m \<in> set ms \<longrightarrow> nonempty_str (fst (llmCacheLoad env name prompt w'))) \<and>
    (\<forall>s w. le_models env = OneModel s \<longrightarrow> (\<forall>r\<in>set (lw_cache w). length (ce_model r) \<noteq> 1) \<longrightarrow> fst (llmCacheLoad env name prompt w) = None)"
proof (intro conjI allI impI)
  fix ms assume ms: "le_models env = ManyModels ms" "m \<in> set ms"
  have found: "\<exists>r. cacheFind name (Some m) prompt w' = Some r \<and> ce_result r \<noteq> []"
  proof (cases "cacheFind name (Some m) prompt w")
    case None
    then have "find (\<lambda>r. ce_prompt r = prompt \<and> ce_model r = m \<and> ce_name r = name) (lw_cache w) = None"
      using assms(3) by (simp add: cacheFind_def)
    with None assms(1-3) show ?thesis by (auto simp: cacheStore_def cacheFind_def find_app Let_def split: if_splits)
  next
    case (Some r)
    let ?f = "\<lambda>x. if ce_pk x = ce_pk r then x\<lparr>ce_result := res\<rparr> else x"
    have P: "find Q (map ?f xs) = map_option ?f (find Q xs)" if "\<And>x. Q (?f x) = Q x" for Q xs
      using that by (induction xs) auto
    have "lw_cache w' = map ?f (lw_cache w)"
      using assms(1-3) Some by (auto simp: cacheStore_def split: if_splits)
    then have "cacheFind name (Some m) prompt w' = map_option ?f (cacheFind name (Some m) prompt w)"
      using assms(3) P [of "\<lambda>r. ce_prompt r = prompt \<and> ce_model r = m \<and> ce_name r = name" "lw_cache w"]
      by (simp add: cacheFind_def)
    with Some assms(2) show ?thesis by simp
  qed
  have "nonempty_str (fst (cache_scan name prompt ms l w'))" if "m \<in> set ms" for l
    using that
  proof (induction ms arbitrary: l)
    case (Cons a ms)
    then show ?case using found by (auto split: option.splits)
  qed simp
  with ms assms(3) show "nonempty_str (fst (llmCacheLoad env name prompt w'))"
    by (simp add: llmCacheLoad_def models_iter_def)
next
  fix s and w :: llm_world
  assume s: "le_models env = OneModel s" and w: "\<forall>r\<in>set (lw_cache w). length (ce_model r) \<noteq> 1"
  have "cacheFind name (Some [c]) prompt w = None" for c
    using w by (auto simp: cacheFind_def find_None_iff)
  then have "fst (cache_scan name prompt (map (\<lambda>c. [c]) s) l w) = None" for l
    by (induction s arbitrary: l) auto
  with s show "fst (llmCacheLoad env name prompt w) = None" by (simp add: llmCacheLoad_def models_iter_def)
qed

theorem cache_read_after_write_witness:
  "\<exists>w'. cacheStore ''t'' (Some ''m'') ''hi'' ''ok'' (ex_world 9 []) = Inr w' \<and>
     nonempty_str (fst (llmCacheLoad (ex_llm_env (ManyModels [''n'', ''m''])) ''t'' ''hi'' w'))"
proof -
  obtain w' where s: "cacheStore ''t'' (Some ''m'') ''hi'' ''ok'' (ex_world 9 []) = Inr w'"
    by (simp add: cacheStore_def ex_world_def cacheFind_def max_prompt_def fits_def)
  have "length ''hi'' \<le> max_prompt" "distinct (map ce_pk (lw_cache (ex_world 9 [])))"
    by (simp_all add: max_prompt_def ex_world_def)
  from cache_read_after_write [OF s _ this, of "ex_llm_env (ManyModels [''n'', ''m''])"] s show ?thesis
    by (auto simp: ex_llm_env_def)
qed

text \<open>The code blocks of an answer: split at its fences, an answer with closed blocks alternates between text
  and block; the result is the last blocks, trimmed, in their order.\<close>

theorem code_blocks_from_end:
  assumes "fence_split True None [] tx = t0 # concat (map (\<lambda>(b, t). [b, t]) bts)" "0 < n" "n \<le> length bts" "tx \<noteq> []"
  shows "parseResultSchema env (Some (JArr (replicate n JNull))) PT_codeBlock (Some tx) =
    Inr (P_blocks (map (js_trim \<circ> fst) (drop (length bts - n) bts)))"
proof -
  let ?pcs = "t0 # concat (map (\<lambda>(b, t). [b, t]) bts)"
  have len: "length ?pcs = 2 * length bts + 1" by (induction bts) auto
  have nth: "i < length bs \<Longrightarrow> (t # concat (map (\<lambda>(b, t). [b, t]) bs)) ! Suc (2 * i) = fst (bs ! i)" for bs :: "(string \<times> string) list" and i t
  proof (induction bs arbitrary: i t)
    case (Cons x bs)
    then show ?case by (cases x; cases i) auto
  qed simp
  have "?pcs ! (length ?pcs - 2 * (n - i)) = fst (bts ! (length bts - n + i))" if "i < n" for i
  proof -
    have "length ?pcs - 2 * (n - i) = Suc (2 * (length bts - n + i))"
      unfolding len using that assms(3) by (simp add: diff_mult_distrib2)
    then show ?thesis using nth [of "length bts - n + i" bts t0] that assms(3) by simp
  qed
  then have "blocks_from_end ?pcs n = map (js_trim \<circ> fst) (drop (length bts - n) bts)"
    by (intro nth_equalityI) (use assms(3) in \<open>auto simp: blocks_from_end_def\<close>)
  moreover have "\<not> length ?pcs < 2 * n + 1" using len assms(3) by linarith
  ultimately show ?thesis using assms by (simp add: parseResultSchema_def)
qed

theorem code_blocks_from_end_witness:
  "parseResultSchema (ex_llm_env (OneModel ''m'')) (Some (JArr (replicate 1 JNull))) PT_codeBlock
      (Some (''```js'' @ [CHR 0x0A] @ ''f()'' @ [CHR 0x0A] @ ''```'')) = Inr (P_blocks [''f()''])"
proof -
  have "fence_split True None [] (''```js'' @ [CHR 0x0A] @ ''f()'' @ [CHR 0x0A] @ ''```'') =
      [] # concat (map (\<lambda>(b, t). [b, t]) [(CHR 0x0A # ''f()'' @ [CHR 0x0A], [])])"
    by (simp add: fence_split.simps fence_match_def fence_tail_def is_line_end_def is_word_def is_space_def Let_def)
  from code_blocks_from_end [OF this, of 1] show ?thesis
    by (simp add: js_trim_def is_space_def)
qed

end
