(* ===== verification/Entries.thy ===== *)
theory Entries
  imports Realms
begin

text \<open>
  \<open>src/entries\<close>: the registry of entry adaptors, the entries of a callgent (created through their adaptor,
  deleted with their endpoints), the default entries of a new callgent, and the reading of an API
  description. Adaptor classes, the JSON and YAML readers, the Postman converter and the reference
  resolver are parameters. The tables hold the rows that are not deleted.
\<close>

section \<open>State\<close>

record entry_row = entry +
  er_pk :: int
  er_tenantPk :: int
  er_name :: "string option"
  er_summary :: "string option"
  er_instruction :: "string option"
  er_initParams :: "json option"
  er_content :: "json option"
  er_adaptorKey :: string
  er_priority :: int
  er_createdBy :: "string option"

record endpoint_row = endpoint +
  nr_pk :: int
  nr_summary :: "string option"
  nr_description :: "string option"
  nr_servers :: "json option"
  nr_params :: "json option"
  nr_responses :: "json option"
  nr_rawJson :: json
  nr_createdBy :: "string option"

text \<open>An adaptor: its base class decides on the host of a new entry.\<close>

datatype adaptor_base = ServerAdaptor | ClientAdaptor | BothAdaptor

record adaptor =
  ad_base :: adaptor_base
  ad_genHost :: "entry_row \<Rightarrow> string"
  ad_isAsync :: "endpoint \<Rightarrow> bool"

record adaptor_types =
  ty_client :: "string option"
  ty_server :: "string option"
  ty_both :: "string option"

record registered =
  rg_icon :: "string option"
  rg_token :: string

record registry =
  rg_server :: "registered obj"
  rg_client :: "registered obj"

text \<open>The events that the services publish when the tables change.\<close>

datatype change_event =
    EntriesChanged "string option" string "entry_row list" "entry_row list"
  | EndpointsChanged "string option" string "endpoint_row list" "endpoint_row list"

text \<open>The tables. \<open>ed_tenantPk\<close> is the session's tenant, the default of the column \<open>tenantPk\<close>.
  \<open>ed_goneEntries\<close> and \<open>ed_goneEndpoints\<close> are the ids of deleted rows, which stay in the
  unique index of the ids.\<close>

record entry_db =
  ed_entries :: "entry_row list"
  ed_endpoints :: "endpoint_row list"
  ed_goneEntries :: "string list"
  ed_goneEndpoints :: "string list"
  ed_nextEntry :: int
  ed_nextEndpoint :: int
  ed_events :: "change_event list"
  ed_tenantPk :: int

section \<open>The registry of adaptors\<close>

text \<open>\<open>key in map\<close> holds for the names of \<open>Object.prototype\<close> too.
  \<open>__add2AdaptorsMap\<close>: the message of a conflict reads \<open>this.clientAdaptors.key\<close>, the adaptor named
  \<open>key\<close>; without such an adaptor building the message throws.\<close>

definition object_proto :: "string list" where
  "object_proto = [''constructor'', ''__defineGetter__'', ''__defineSetter__'', ''hasOwnProperty'', ''__lookupGetter__'',
     ''__lookupSetter__'', ''isPrototypeOf'', ''propertyIsEnumerable'', ''toString'', ''valueOf'', ''__proto__'', ''toLocaleString'']"

definition in_obj :: "string \<Rightarrow> 'v obj \<Rightarrow> bool" where
  "in_obj k m \<longleftrightarrow> k \<in> set (obj_keys m) \<or> k \<in> set object_proto"

definition add2Map :: "registered obj \<Rightarrow> string \<Rightarrow> registered obj \<Rightarrow> registered \<Rightarrow> registered obj result" where
  "add2Map clients key m v =
     (if in_obj key m then
        (case obj_get clients ''key'' of
           None \<Rightarrow> Inl (TypeError ''Cannot read properties of undefined (reading serviceToken)'')
         | Some r \<Rightarrow> Inl (PlainError (''Conflict entry adaptor '' @ key @ '':['' @ rg_token v @ '', '' @ rg_token r @ '']'')))
      else Inr (obj_set key v m))"

definition add2AdaptorsMap :: "string \<Rightarrow> adaptor_types \<Rightarrow> string \<Rightarrow> registry \<Rightarrow> registry result" where
  "add2AdaptorsMap key ty token rg =
     and_then (if ty_both ty \<noteq> None \<or> ty_client ty \<noteq> None
               then and_then (add2Map (rg_client rg) key (rg_client rg)
                      \<lparr>rg_icon = (if ty_client ty \<noteq> None then ty_client ty else ty_both ty), rg_token = token\<rparr>)
                      (\<lambda>m. Inr (rg\<lparr>rg_client := m\<rparr>))
               else Inr rg) (\<lambda>rg1.
       if ty_both ty \<noteq> None \<or> ty_server ty \<noteq> None
       then and_then (add2Map (rg_client rg1) key (rg_server rg1)
              \<lparr>rg_icon = (if ty_server ty \<noteq> None then ty_server ty else ty_both ty), rg_token = token\<rparr>)
              (\<lambda>m. Inr (rg1\<lparr>rg_server := m\<rparr>))
       else Inr rg1)"

text \<open>\<open>onModuleInit\<close>: the providers of the modules, in order; those without adaptor options are skipped.\<close>

fun registerAll :: "(string \<times> (string \<times> adaptor_types) option) list \<Rightarrow> registry \<Rightarrow> registry result" where
  "registerAll [] rg = Inr rg"
| "registerAll ((token, opts) # rest) rg =
     (case opts of
        None \<Rightarrow> registerAll rest rg
      | Some (key, ty) \<Rightarrow> if key = [] then registerAll rest rg
          else and_then (add2AdaptorsMap key ty token rg) (registerAll rest))"

definition listAdaptors :: "registry \<Rightarrow> bool \<Rightarrow> (string option) obj" where
  "listAdaptors rg client = map (\<lambda>(k, v). (k, rg_icon v)) (if client then rg_client rg else rg_server rg)"

text \<open>\<open>getAdaptor\<close>: \<open>None\<close> is \<open>undefined\<close>. An event entry is looked up among the client adaptors. A
  name of \<open>Object.prototype\<close> is found in the map, but has no service token: \<open>moduleRef.get\<close> throws.\<close>

definition token_of :: "registered obj \<Rightarrow> string \<Rightarrow> string option result" where
  "token_of m key =
     (case obj_get m key of
        Some r \<Rightarrow> Inr (Some (rg_token r))
      | None \<Rightarrow> Inl (PlainError ''Nest could not find given element (this provider does not exist in the current context)''))"

definition getAdaptor :: "registry \<Rightarrow> string \<Rightarrow> entry_type option \<Rightarrow> string option result" where
  "getAdaptor rg key ty =
     (let m = (if ty = Some ET_SERVER then rg_server rg else rg_client rg)
      in if in_obj key m then token_of m key
         else if ty = None \<and> in_obj key (rg_server rg) then token_of (rg_server rg) key
         else Inr None)"

section \<open>Entries\<close>

text \<open>\<open>String.replace\<close> with a string pattern: the first occurrence. The id that is filled in is drawn
  from an alphabet without \<open>$\<close>, so it is not read as a replacement pattern.\<close>

definition replace_first :: "string \<Rightarrow> string \<Rightarrow> string \<Rightarrow> string" where
  "replace_first pat r s = (case find_sub pat s of None \<Rightarrow> s | Some i \<Rightarrow> take i s @ r @ drop (i + length pat) s)"

definition preCreateBase :: "entry_row \<Rightarrow> entry_row result" where
  "preCreateBase d =
     (if \<not> nonempty_str (ey_host d) then Inl (BadRequest ''host is required'')
      else (let host = replace_first ''{id}'' (ey_id d) (the (ey_host d))
            in Inr (d\<lparr>ey_host := Some host, er_name := (if nonempty_str (er_name d) then er_name d else Some host)\<rparr>)))"

definition preCreate :: "adaptor \<Rightarrow> entry_row \<Rightarrow> entry_row result" where
  "preCreate a d =
     preCreateBase (if ad_base a = ClientAdaptor \<or> ad_base a = BothAdaptor \<and> ey_type d \<noteq> ET_SERVER
                    then d\<lparr>ey_host := Some (ad_genHost a d)\<rparr> else d)"

text \<open>The generated hosts of the two builtin adaptors.\<close>

definition restHost :: "entry_row \<Rightarrow> string" where
  "restHost d = ''/api/rest/request/'' @ ey_callgentId d @ ''/'' @ ey_id d"

definition getRelayAddress :: "string \<Rightarrow> string \<Rightarrow> string \<Rightarrow> string" where
  "getRelayAddress mailHost i relayType = relayType @ ''+'' @ i @ ''@'' @ mailHost"

definition emailHost :: "string \<Rightarrow> entry_row \<Rightarrow> string" where
  "emailHost mailHost d = getRelayAddress mailHost (ey_callgentId d) ''callgent''"

definition type_name :: "entry_type \<Rightarrow> string" where
  "type_name t = (case t of ET_CLIENT \<Rightarrow> ''CLIENT'' | ET_SERVER \<Rightarrow> ''SERVER'' | ET_EVENT \<Rightarrow> ''EVENT'')"

definition createEntry :: "registry \<Rightarrow> (string \<Rightarrow> adaptor) \<Rightarrow> string \<Rightarrow> entry_row \<Rightarrow> entry_db \<Rightarrow> (entry_db \<times> entry_row) result" where
  "createEntry rg service fresh d db =
     and_then (getAdaptor rg (er_adaptorKey d) (Some (ey_type d))) (\<lambda>found. case found of
        None \<Rightarrow> Inl (BadRequest (''Invalid '' @ type_name (ey_type d) @ '' entry adaptor key='' @ er_adaptorKey d))
      | Some token \<Rightarrow>
          and_then (preCreate (service token) (d\<lparr>ey_id := fresh\<rparr>)) (\<lambda>row.
            if fresh \<in> ey_id ` set (ed_entries db) \<or> fresh \<in> set (ed_goneEntries db) then Inl (PlainError ''Unique constraint failed on the fields: (`id`)'')
            else (let r = row\<lparr>er_pk := ed_nextEntry db, er_tenantPk := ed_tenantPk db\<rparr>
                  in Inr (db\<lparr>ed_entries := ed_entries db @ [r], ed_nextEntry := ed_nextEntry db + 1\<rparr>, r))))"

definition deleteEntry :: "string \<Rightarrow> string option \<Rightarrow> entry_db \<Rightarrow> (entry_db \<times> entry_row) result" where
  "deleteEntry i opBy db =
     (case find (\<lambda>y. ey_id y = i) (ed_entries db) of
        None \<Rightarrow> Inl (PlainError ''Record to delete does not exist.'')
      | Some r \<Rightarrow>
          Inr (db\<lparr>ed_entries := filter (\<lambda>y. ey_id y \<noteq> i) (ed_entries db),
                  ed_endpoints := filter (\<lambda>n. en_entryId n \<noteq> i) (ed_endpoints db),
                  ed_goneEntries := i # ed_goneEntries db,
                  ed_goneEndpoints := map en_id (filter (\<lambda>n. en_entryId n = i) (ed_endpoints db)) @ ed_goneEndpoints db,
                  ed_events := ed_events db @ [EntriesChanged opBy (ey_callgentId r) [] [r]]\<rparr>, r))"

text \<open>\<open>update\<close>: the body of the request sets fields of the row.\<close>

definition updateEntry :: "string \<Rightarrow> (entry_row \<Rightarrow> entry_row) \<Rightarrow> entry_db \<Rightarrow> entry_db result" where
  "updateEntry i patch db =
     (if i \<in> ey_id ` set (ed_entries db)
      then Inr (db\<lparr>ed_entries := map (\<lambda>y. if ey_id y = i then patch y else y) (ed_entries db)\<rparr>)
      else Inl (PlainError ''Record to update not found.''))"

text \<open>\<open>orderBy: { priority: 'desc' }\<close> and the first row; an empty id is no condition. The request's tenant is
  the entry's.\<close>

definition by_priority :: "entry_row \<Rightarrow> entry_row \<Rightarrow> int" where
  "by_priority a b = er_priority b - er_priority a"

definition findFirstByType :: "entry_type \<Rightarrow> string \<Rightarrow> string \<Rightarrow> string option \<Rightarrow> entry_db \<Rightarrow> entry_row option" where
  "findFirstByType ty callgentId key i db =
     (case js_sort by_priority (filter (\<lambda>y. ey_callgentId y = callgentId \<and> er_adaptorKey y = key \<and> ey_type y = ty \<and>
             (nonempty_str i \<longrightarrow> ey_id y = the i)) (ed_entries db)) of
        [] \<Rightarrow> None | y # _ \<Rightarrow> Some y)"

definition findFirstSettingTenant :: "entry_type \<Rightarrow> string \<Rightarrow> string \<Rightarrow> string option \<Rightarrow> entry_db \<Rightarrow> int option \<Rightarrow> entry_row option \<times> int option" where
  "findFirstSettingTenant ty callgentId key i db tenantCtx =
     (let y = findFirstByType ty callgentId key i db
      in (y, case y of None \<Rightarrow> tenantCtx | Some r \<Rightarrow> Some (er_tenantPk r)))"

definition updateEntrySecurities :: "string \<Rightarrow> security_item obj list \<Rightarrow> entry_db \<Rightarrow> entry_db result" where
  "updateEntrySecurities i secs db = updateEntry i (\<lambda>y. y\<lparr>ey_securities := secs\<rparr>) db"

definition preprocessClientRequest :: "registry \<Rightarrow> (string \<Rightarrow> req_event \<Rightarrow> entry_row option \<Rightarrow> req_event result) \<Rightarrow> entry_db \<Rightarrow> req_event \<Rightarrow> req_event result" where
  "preprocessClientRequest rg prep db e =
     and_then (getAdaptor rg (dataType e) (Some ET_CLIENT)) (\<lambda>found. case found of
        None \<Rightarrow> Inl (PlainError (''Invalid adaptor '' @ dataType e @ '' from cep '' @ srcId e))
      | Some token \<Rightarrow> prep token e (find (\<lambda>y. ey_id y = srcId e) (ed_entries db)))"

text \<open>The default entries of a new callgent: an API entry and a mail entry; a forked callgent gets none.\<close>

definition new_entry :: "string \<Rightarrow> string \<Rightarrow> string option \<Rightarrow> entry_row" where
  "new_entry callgentId key createdBy =
     \<lparr>ey_id = [], ey_type = ET_CLIENT, ey_host = None, ey_callgentId = callgentId, ey_securities = [],
      er_pk = 0, er_tenantPk = 0, er_name = None, er_summary = None, er_instruction = None, er_initParams = None, er_content = None,
       er_adaptorKey = key, er_priority = 0, er_createdBy = createdBy\<rparr>"

definition onCallgentCreated :: "registry \<Rightarrow> (string \<Rightarrow> adaptor) \<Rightarrow> string \<Rightarrow> string \<Rightarrow> string \<Rightarrow> string option \<Rightarrow> int option \<Rightarrow> entry_db \<Rightarrow>
    (entry_db \<times> entry_row list) result" where
  "onCallgentCreated rg service fresh1 fresh2 callgentId createdBy forkedPk db =
     (if forkedPk \<noteq> None \<and> forkedPk \<noteq> Some 0 then Inr (db, [])
      else and_then (createEntry rg service fresh1 (new_entry callgentId ''restAPI'' createdBy) db) (\<lambda>(db1, a).
           and_then (createEntry rg service fresh2 (new_entry callgentId ''Email'' createdBy) db1) (\<lambda>(db2, b).
             Inr (db2, [a, b]))))"

section \<open>Facts\<close>

lemma token_of_Some: "obj_get m k = Some r \<Longrightarrow> in_obj k m \<and> token_of m k = Inr (Some (rg_token r))"
  by (auto simp: in_obj_def set_obj_keys token_of_def)

lemma in_obj_set [simp]: "in_obj k (obj_set k' v m) \<longleftrightarrow> k = k' \<or> in_obj k m"
  by (auto simp: in_obj_def obj_set_keys)

lemma getAdaptor_side:
  "getAdaptor rg k (Some t) =
     (let m = (if t = ET_SERVER then rg_server rg else rg_client rg) in if in_obj k m then token_of m k else Inr None)"
  by (simp add: getAdaptor_def Let_def)

text \<open>Registering one provider whose key is new.\<close>

lemma add2AdaptorsMap_new:
  assumes "\<not> in_obj key (rg_client rg)" and "\<not> in_obj key (rg_server rg)"
  shows "\<exists>rg'. add2AdaptorsMap key ty token rg = Inr rg' \<and>
    (\<forall>k. obj_get (rg_client rg') k = (if k = key \<and> (ty_both ty \<noteq> None \<or> ty_client ty \<noteq> None)
        then Some \<lparr>rg_icon = (if ty_client ty \<noteq> None then ty_client ty else ty_both ty), rg_token = token\<rparr>
        else obj_get (rg_client rg) k)) \<and>
    (\<forall>k. obj_get (rg_server rg') k = (if k = key \<and> (ty_both ty \<noteq> None \<or> ty_server ty \<noteq> None)
        then Some \<lparr>rg_icon = (if ty_server ty \<noteq> None then ty_server ty else ty_both ty), rg_token = token\<rparr>
        else obj_get (rg_server rg) k))"
  using assms by (auto simp: add2AdaptorsMap_def add2Map_def)

lemma in_obj_iff: "in_obj k m \<longleftrightarrow> obj_get m k \<noteq> None \<or> k \<in> set object_proto"
  by (simp add: in_obj_def set_obj_keys)

definition client_side :: "adaptor_types \<Rightarrow> string \<Rightarrow> registered option" where
  "client_side ty token = (if ty_both ty \<noteq> None \<or> ty_client ty \<noteq> None
     then Some \<lparr>rg_icon = (if ty_client ty \<noteq> None then ty_client ty else ty_both ty), rg_token = token\<rparr> else None)"

definition server_side :: "adaptor_types \<Rightarrow> string \<Rightarrow> registered option" where
  "server_side ty token = (if ty_both ty \<noteq> None \<or> ty_server ty \<noteq> None
     then Some \<lparr>rg_icon = (if ty_server ty \<noteq> None then ty_server ty else ty_both ty), rg_token = token\<rparr> else None)"

definition provider_ok :: "registry \<Rightarrow> string \<times> string \<times> adaptor_types \<Rightarrow> bool" where
  "provider_ok rg p \<longleftrightarrow> (case p of (t, k, ty) \<Rightarrow> k \<noteq> [] \<and> \<not> in_obj k (rg_client rg) \<and> \<not> in_obj k (rg_server rg))"

lemma registerAll_declared:
  assumes "distinct (map (\<lambda>(t, k, ty). k) ps)" and "list_all (provider_ok rg) ps"
  shows "\<exists>rg'. registerAll (map (\<lambda>(t, k, ty). (t, Some (k, ty))) ps) rg = Inr rg' \<and>
    (\<forall>t k ty. (t, k, ty) \<in> set ps \<longrightarrow> obj_get (rg_client rg') k = client_side ty t \<and> obj_get (rg_server rg') k = server_side ty t) \<and>
    (\<forall>k. k \<notin> (\<lambda>(t, k, ty). k) ` set ps \<longrightarrow> obj_get (rg_client rg') k = obj_get (rg_client rg) k \<and>
       obj_get (rg_server rg') k = obj_get (rg_server rg) k)"
  using assms
proof (induction ps arbitrary: rg)
  case Nil
  then show ?case by simp
next
  case (Cons p ps)
  obtain t k ty where p: "p = (t, k, ty)" by (metis prod_cases3)
  from Cons.prems have new: "k \<noteq> []" "\<not> in_obj k (rg_client rg)" "\<not> in_obj k (rg_server rg)"
    and kd: "k \<notin> (\<lambda>(t, k, ty). k) ` set ps" by (auto simp: p provider_ok_def)
  from add2AdaptorsMap_new [OF new(2,3), of ty t]
  obtain rg1 where rg1: "add2AdaptorsMap k ty t rg = Inr rg1"
    and c: "\<And>k'. obj_get (rg_client rg1) k' = (if k' = k \<and> client_side ty t \<noteq> None then client_side ty t else obj_get (rg_client rg) k')"
    and s: "\<And>k'. obj_get (rg_server rg1) k' = (if k' = k \<and> server_side ty t \<noteq> None then server_side ty t else obj_get (rg_server rg) k')"
    by (fastforce simp: client_side_def server_side_def)
  have here: "obj_get (rg_client rg1) k = client_side ty t" "obj_get (rg_server rg1) k = server_side ty t"
    using new(2,3) c [of k] s [of k] by (auto simp: in_obj_iff)
  have "list_all (provider_ok rg1) ps"
    using Cons.prems(2) kd by (auto simp: list_all_iff provider_ok_def p in_obj_iff c s) force+
  moreover have "distinct (map (\<lambda>(t, k, ty). k) ps)" using Cons.prems(1) by simp
  ultimately obtain rg' where IH: "registerAll (map (\<lambda>(t, k, ty). (t, Some (k, ty))) ps) rg1 = Inr rg'"
    "\<And>t k ty. (t, k, ty) \<in> set ps \<Longrightarrow> obj_get (rg_client rg') k = client_side ty t \<and> obj_get (rg_server rg') k = server_side ty t"
    "\<And>k. k \<notin> (\<lambda>(t, k, ty). k) ` set ps \<Longrightarrow> obj_get (rg_client rg') k = obj_get (rg_client rg1) k \<and>
       obj_get (rg_server rg') k = obj_get (rg_server rg1) k"
    using Cons.IH [of rg1] by blast
  have "registerAll (map (\<lambda>(t, k, ty). (t, Some (k, ty))) (p # ps)) rg = Inr rg'"
    using new(1) rg1 IH(1) by (simp add: p)
  moreover have "obj_get (rg_client rg') k' = client_side ty' t' \<and> obj_get (rg_server rg') k' = server_side ty' t'"
    if "(t', k', ty') \<in> set (p # ps)" for t' k' ty'
    using that IH(2) IH(3) [OF kd] here by (auto simp: p)
  moreover have "obj_get (rg_client rg') k' = obj_get (rg_client rg) k' \<and> obj_get (rg_server rg') k' = obj_get (rg_server rg) k'"
    if "k' \<notin> (\<lambda>(t, k, ty). k) ` set (p # ps)" for k'
    using that IH(3) [of k'] c [of k'] s [of k'] by (auto simp: p)
  ultimately show ?case by blast
qed

interpretation priority_order: comparator by_priority
  by unfold_locales (auto simp: by_priority_def)

lemma js_sort_empty: "js_sort by_priority xs = [] \<longleftrightarrow> xs = []"
  using priority_order.mset_js_sort [of xs] by (cases xs) auto

lemma js_sort_head:
  "js_sort by_priority xs = y # ys \<Longrightarrow> y \<in> set xs \<and> (\<forall>z\<in>set xs. er_priority z \<le> er_priority y)"
  using priority_order.sorted_js_sort [of xs] priority_order.mset_js_sort [of xs]
  by (metis (no_types, lifting) by_priority_def diff_le_0_iff_le list.set_intros(1) nle_le set_ConsD set_mset_mset sorted_wrt.simps(2))

lemma replace_first_absent: "CHR ''{'' \<notin> set s \<Longrightarrow> replace_first ''{id}'' r s = s"
proof -
  assume "CHR ''{'' \<notin> set s"
  then have "find_sub ''{id}'' s = None" by (induction s) auto
  then show ?thesis by (simp add: replace_first_def)
qed

definition empty_registry :: registry where
  "empty_registry = \<lparr>rg_server = [], rg_client = []\<rparr>"

definition generates_host :: "adaptor \<Rightarrow> entry_type \<Rightarrow> bool" where
  "generates_host a t \<longleftrightarrow> ad_base a = ClientAdaptor \<or> ad_base a = BothAdaptor \<and> t \<noteq> ET_SERVER"

lemma preCreateBase_Inr:
  "preCreateBase d = Inr r \<longleftrightarrow> nonempty_str (ey_host d) \<and>
     r = d\<lparr>ey_host := Some (replace_first ''{id}'' (ey_id d) (the (ey_host d))),
           er_name := (if nonempty_str (er_name d) then er_name d else Some (replace_first ''{id}'' (ey_id d) (the (ey_host d))))\<rparr>"
  by (auto simp: preCreateBase_def Let_def)

lemma createEntry_Inr:
  assumes "createEntry rg service fresh d db = Inr (db', r)"
  shows "\<exists>token d1. getAdaptor rg (er_adaptorKey d) (Some (ey_type d)) = Inr (Some token) \<and>
    preCreate (service token) (d\<lparr>ey_id := fresh\<rparr>) = Inr d1 \<and> r = d1\<lparr>er_pk := ed_nextEntry db, er_tenantPk := ed_tenantPk db\<rparr> \<and>
    fresh \<notin> ey_id ` set (ed_entries db) \<and> fresh \<notin> set (ed_goneEntries db) \<and>
    db' = db\<lparr>ed_entries := ed_entries db @ [r], ed_nextEntry := ed_nextEntry db + 1\<rparr>"
  using assms by (auto simp: createEntry_def outcome_simps Let_def split: option.splits if_splits)

lemma preCreate_keeps:
  assumes "preCreate a d = Inr r"
  shows "ey_id r = ey_id d \<and> ey_type r = ey_type d \<and> ey_callgentId r = ey_callgentId d \<and> er_adaptorKey r = er_adaptorKey d \<and>
    ey_securities r = ey_securities d \<and> er_priority r = er_priority d \<and> er_pk r = er_pk d"
  using assms by (auto simp: preCreate_def preCreateBase_Inr split: if_splits)

section \<open>Properties\<close>

definition ex_types :: "adaptor_types" where
  "ex_types = \<lparr>ty_client = None, ty_server = None, ty_both = Some ''/icons/RestAPI.svg''\<rparr>"

definition builtin_providers :: "(string \<times> string \<times> adaptor_types) list" where
  "builtin_providers = [(''restAPI-EntryAdaptor'', ''restAPI'', ex_types), (''Email-EntryAdaptor'', ''Email'', ex_types)]"

lemma builtin_ok: "distinct (map (\<lambda>(t, k, ty). k) builtin_providers)" "list_all (provider_ok empty_registry) builtin_providers"
  by (simp_all add: builtin_providers_def provider_ok_def empty_registry_def in_obj_iff object_proto_def)

text \<open>After the start of the application an adaptor is found under its key exactly on the sides its
  decorator names: among the servers for a server entry, among the clients for client and event
  entries, on either side when no type is given.\<close>

theorem registered_adaptors_found:
  assumes "distinct (map (\<lambda>(t, k, ty). k) ps)" and "list_all (provider_ok empty_registry) ps" and "(t, k, ty) \<in> set ps"
  shows "\<exists>rg. registerAll (map (\<lambda>(t, k, ty). (t, Some (k, ty))) ps) empty_registry = Inr rg \<and>
    getAdaptor rg k (Some ET_SERVER) = Inr (if ty_both ty \<noteq> None \<or> ty_server ty \<noteq> None then Some t else None) \<and>
    getAdaptor rg k (Some ET_CLIENT) = Inr (if ty_both ty \<noteq> None \<or> ty_client ty \<noteq> None then Some t else None) \<and>
    getAdaptor rg k (Some ET_EVENT) = getAdaptor rg k (Some ET_CLIENT) \<and>
    getAdaptor rg k None = Inr (if ty_both ty \<noteq> None \<or> ty_client ty \<noteq> None \<or> ty_server ty \<noteq> None then Some t else None)"
proof -
  from registerAll_declared [OF assms(1,2)] obtain rg
    where rg: "registerAll (map (\<lambda>(t, k, ty). (t, Some (k, ty))) ps) empty_registry = Inr rg"
      and side: "obj_get (rg_client rg) k = client_side ty t" "obj_get (rg_server rg) k = server_side ty t"
    using assms(3) by blast
  have "k \<notin> set object_proto" using assms(2,3) by (force simp: list_all_iff provider_ok_def in_obj_iff)
  then have "getAdaptor rg k (Some ET_SERVER) = Inr (if ty_both ty \<noteq> None \<or> ty_server ty \<noteq> None then Some t else None)"
    "getAdaptor rg k (Some ET_CLIENT) = Inr (if ty_both ty \<noteq> None \<or> ty_client ty \<noteq> None then Some t else None)"
    "getAdaptor rg k (Some ET_EVENT) = getAdaptor rg k (Some ET_CLIENT)"
    "getAdaptor rg k None = Inr (if ty_both ty \<noteq> None \<or> ty_client ty \<noteq> None \<or> ty_server ty \<noteq> None then Some t else None)"
    using side by (auto simp: getAdaptor_def in_obj_iff token_of_def client_side_def server_side_def Let_def)
  with rg show ?thesis by blast
qed

theorem registered_adaptors_found_witness:
  "\<exists>rg. registerAll (map (\<lambda>(t, k, ty). (t, Some (k, ty))) builtin_providers) empty_registry = Inr rg \<and>
    getAdaptor rg ''Email'' (Some ET_EVENT) = Inr (Some ''Email-EntryAdaptor'')"
  using registered_adaptors_found [OF builtin_ok, of "''Email-EntryAdaptor''" "''Email''" ex_types]
  by (auto simp: builtin_providers_def ex_types_def)

text \<open>A key that two adaptors declare stops the start; the intended message of the conflict names a
  property that does not exist, so what is thrown is a \<open>TypeError\<close>.\<close>

theorem conflicting_adaptors:
  assumes "obj_get (rg_client rg) ''key'' = None" and "in_obj k (rg_client rg)" and "ty_both ty \<noteq> None \<or> ty_client ty \<noteq> None"
  shows "\<exists>m. add2AdaptorsMap k ty token rg = Inl (TypeError m)"
  using assms by (auto simp: add2AdaptorsMap_def add2Map_def)

text \<open>A created entry has a new id and is the last row of the table, whatever id the caller gave; the
  host of a client entry is the adaptor's, whatever the caller gave, that of a server entry is the
  given one with the id filled in, and it is never empty before the replacement; without a name
  the host is the name.\<close>

theorem created_entry:
  assumes "createEntry rg service fresh d db = Inr (db', r)" and "fresh \<noteq> []"
  shows "ed_entries db' = ed_entries db @ [r] \<and> ey_id r = fresh \<and> fresh \<notin> ey_id ` set (ed_entries db) \<and>
    ey_callgentId r = ey_callgentId d \<and> ey_type r = ey_type d \<and>
    (\<exists>token h. getAdaptor rg (er_adaptorKey d) (Some (ey_type d)) = Inr (Some token) \<and> h \<noteq> [] \<and>
       h = (if generates_host (service token) (ey_type d) then ad_genHost (service token) (d\<lparr>ey_id := fresh\<rparr>) else the (ey_host d)) \<and>
       ey_host r = Some (replace_first ''{id}'' fresh h) \<and>
       er_name r = (if nonempty_str (er_name d) then er_name d else ey_host r))"
proof -
  from createEntry_Inr [OF assms(1)] obtain token d1
    where t: "getAdaptor rg (er_adaptorKey d) (Some (ey_type d)) = Inr (Some token)"
      and pre: "preCreate (service token) (d\<lparr>ey_id := fresh\<rparr>) = Inr d1" and r: "r = d1\<lparr>er_pk := ed_nextEntry db, er_tenantPk := ed_tenantPk db\<rparr>"
      and new: "fresh \<notin> ey_id ` set (ed_entries db)"
      and db': "db' = db\<lparr>ed_entries := ed_entries db @ [r], ed_nextEntry := ed_nextEntry db + 1\<rparr>" by blast
  define h where "h = (if generates_host (service token) (ey_type d) then ad_genHost (service token) (d\<lparr>ey_id := fresh\<rparr>) else the (ey_host d))"
  have "h \<noteq> [] \<and> ey_host r = Some (replace_first ''{id}'' fresh h) \<and> er_name r = (if nonempty_str (er_name d) then er_name d else ey_host r)"
    using pre by (cases "ey_host d") (auto simp: preCreate_def preCreateBase_Inr r h_def generates_host_def split: if_splits)
  then show ?thesis using preCreate_keeps [OF pre] t new db' r h_def by fastforce
qed

definition ex_db :: entry_db where
  "ex_db = \<lparr>ed_entries = [], ed_endpoints = [], ed_goneEntries = [], ed_goneEndpoints = [], ed_nextEntry = 1, ed_nextEndpoint = 1, ed_events = [], ed_tenantPk = 0\<rparr>"

definition ex_registry :: registry where
  "ex_registry = \<lparr>rg_server = [(''restAPI'', \<lparr>rg_icon = None, rg_token = ''R''\<rparr>), (''Email'', \<lparr>rg_icon = None, rg_token = ''E''\<rparr>)],
     rg_client = [(''restAPI'', \<lparr>rg_icon = None, rg_token = ''R''\<rparr>), (''Email'', \<lparr>rg_icon = None, rg_token = ''E''\<rparr>)]\<rparr>"

definition builtin_service :: "string \<Rightarrow> string \<Rightarrow> adaptor" where
  "builtin_service mailHost token =
     (if token = ''R'' then \<lparr>ad_base = BothAdaptor, ad_genHost = restHost, ad_isAsync = (\<lambda>_. False)\<rparr>
      else \<lparr>ad_base = BothAdaptor, ad_genHost = emailHost mailHost, ad_isAsync = (\<lambda>_. True)\<rparr>)"

lemma ex_getAdaptor [simp]:
  "getAdaptor ex_registry ''restAPI'' (Some t) = Inr (Some ''R'')" "getAdaptor ex_registry ''Email'' (Some t) = Inr (Some ''E'')"
  by (simp_all add: getAdaptor_def ex_registry_def in_obj_iff token_of_def Let_def)

theorem created_entry_witness:
  "\<exists>db' r. createEntry ex_registry (builtin_service ''m'') ''e1'' ((new_entry ''cg'' ''restAPI'' None)\<lparr>ey_id := ''mine'', ey_host := Some ''http://evil''\<rparr>) ex_db = Inr (db', r) \<and>
     ey_id r = ''e1'' \<and> (\<exists>h. ey_host r = Some (replace_first ''{id}'' ''e1'' h) \<and> h = ''/api/rest/request/cg/e1'')"
proof -
  obtain db' r where c: "createEntry ex_registry (builtin_service ''m'') ''e1'' ((new_entry ''cg'' ''restAPI'' None)\<lparr>ey_id := ''mine'', ey_host := Some ''http://evil''\<rparr>) ex_db = Inr (db', r)"
    by (simp add: createEntry_def new_entry_def preCreate_def preCreateBase_def builtin_service_def restHost_def ex_db_def Let_def)
  have "''e1'' \<noteq> []" by simp
  from created_entry [OF c this] c show ?thesis
    by (auto simp: generates_host_def builtin_service_def restHost_def new_entry_def)
qed

text \<open>The entry a request is served by is one of its callgent, adaptor and type, with the asked id if
  one is given, and none of the matching entries has a higher priority; there is none only if no
  entry matches. The tenant of the request becomes the entry's.\<close>

theorem serving_entry:
  "(case findFirstByType ty cg key i db of
      None \<Rightarrow> \<forall>y\<in>set (ed_entries db). \<not> (ey_callgentId y = cg \<and> er_adaptorKey y = key \<and> ey_type y = ty \<and> (nonempty_str i \<longrightarrow> ey_id y = the i))
    | Some y \<Rightarrow> y \<in> set (ed_entries db) \<and> ey_callgentId y = cg \<and> er_adaptorKey y = key \<and> ey_type y = ty \<and> (nonempty_str i \<longrightarrow> ey_id y = the i) \<and>
        (\<forall>z\<in>set (ed_entries db). ey_callgentId z = cg \<longrightarrow> er_adaptorKey z = key \<longrightarrow> ey_type z = ty \<longrightarrow> (nonempty_str i \<longrightarrow> ey_id z = the i) \<longrightarrow>
           er_priority z \<le> er_priority y)) \<and>
   snd (findFirstSettingTenant ty cg key i db t) = (case findFirstByType ty cg key i db of None \<Rightarrow> t | Some y \<Rightarrow> Some (er_tenantPk y))"
proof (cases "findFirstByType ty cg key i db")
  case None
  then have "filter (\<lambda>y. ey_callgentId y = cg \<and> er_adaptorKey y = key \<and> ey_type y = ty \<and> (nonempty_str i \<longrightarrow> ey_id y = the i)) (ed_entries db) = []"
    by (simp add: findFirstByType_def js_sort_empty split: list.splits)
  then show ?thesis using None by (simp add: filter_empty_conv findFirstSettingTenant_def Let_def)
next
  case (Some y)
  then obtain ys where "js_sort by_priority (filter (\<lambda>y. ey_callgentId y = cg \<and> er_adaptorKey y = key \<and> ey_type y = ty \<and> (nonempty_str i \<longrightarrow> ey_id y = the i)) (ed_entries db)) = y # ys"
    by (simp add: findFirstByType_def split: list.splits)
  from js_sort_head [OF this] Some show ?thesis by (simp add: findFirstSettingTenant_def Let_def)
qed

theorem serving_entry_witness:
  "snd (findFirstSettingTenant ET_CLIENT ''cg'' ''restAPI'' None (ex_db\<lparr>ed_entries := [(new_entry ''cg'' ''restAPI'' None)\<lparr>er_tenantPk := 5\<rparr>]\<rparr>) None) = Some 5"
  unfolding serving_entry [THEN conjunct2] by (simp add: findFirstByType_def new_entry_def js_sort_def ex_db_def)

definition default_entry :: "string \<Rightarrow> string \<Rightarrow> string option \<Rightarrow> string \<Rightarrow> string \<Rightarrow> int \<Rightarrow> int \<Rightarrow> entry_row" where
  "default_entry cg key createdBy fresh host pk t =
     (new_entry cg key createdBy)\<lparr>ey_id := fresh, ey_host := Some host, er_name := Some host, er_pk := pk, er_tenantPk := t\<rparr>"

lemma default_entry_fields [simp]:
  "ey_id (default_entry cg key u i h pk t) = i" "ey_type (default_entry cg key u i h pk t) = ET_CLIENT"
  "ey_callgentId (default_entry cg key u i h pk t) = cg" "er_adaptorKey (default_entry cg key u i h pk t) = key"
  "ey_host (default_entry cg key u i h pk t) = Some h"
  by (simp_all add: default_entry_def new_entry_def)

lemma createEntry_default:
  assumes "getAdaptor rg key (Some ET_CLIENT) = Inr (Some token)" and "ad_base (service token) = BothAdaptor"
    and "ad_genHost (service token) ((new_entry cg key u)\<lparr>ey_id := fresh\<rparr>) = h" and "h \<noteq> []" and "CHR ''{'' \<notin> set h"
    and "fresh \<notin> ey_id ` set (ed_entries db)" and "fresh \<notin> set (ed_goneEntries db)"
  shows "createEntry rg service fresh (new_entry cg key u) db =
    Inr (db\<lparr>ed_entries := ed_entries db @ [default_entry cg key u fresh h (ed_nextEntry db) (ed_tenantPk db)], ed_nextEntry := ed_nextEntry db + 1\<rparr>,
         default_entry cg key u fresh h (ed_nextEntry db) (ed_tenantPk db))"
  using assms replace_first_absent [OF assms(5)]
  by (simp add: createEntry_def preCreate_def preCreateBase_def default_entry_def new_entry_def Let_def)

text \<open>A new callgent is reachable at once: with the builtin adaptors its creation adds a REST entry,
  whose host is the request address with the entry's id, and a mail entry, and the REST entry is
  the one its requests are served by; a forked callgent gets none.\<close>

theorem new_callgent_reachable:
  assumes "fresh1 \<noteq> fresh2" and "CHR ''{'' \<notin> set (cg @ fresh1 @ fresh2 @ mailHost)"
    and "\<forall>y\<in>set (ed_entries db). ey_callgentId y \<noteq> cg \<and> ey_id y \<notin> {fresh1, fresh2}"
    and "{fresh1, fresh2} \<inter> set (ed_goneEntries db) = {}"
  shows "\<exists>db' a b. onCallgentCreated ex_registry (builtin_service mailHost) fresh1 fresh2 cg by None db = Inr (db', [a, b]) \<and>
    ed_entries db' = ed_entries db @ [a, b] \<and>
    ey_host a = Some (''/api/rest/request/'' @ cg @ ''/'' @ fresh1) \<and> ey_host b = Some (''callgent+'' @ cg @ ''@'' @ mailHost) \<and>
    findFirstByType ET_CLIENT cg ''restAPI'' None db' = Some a \<and>
    onCallgentCreated ex_registry (builtin_service mailHost) fresh1 fresh2 cg by (Some 7) db = Inr (db, [])"
proof -
  let ?a = "default_entry cg ''restAPI'' by fresh1 (''/api/rest/request/'' @ cg @ ''/'' @ fresh1) (ed_nextEntry db) (ed_tenantPk db)"
  let ?db1 = "db\<lparr>ed_entries := ed_entries db @ [?a], ed_nextEntry := ed_nextEntry db + 1\<rparr>"
  let ?b = "default_entry cg ''Email'' by fresh2 (''callgent+'' @ cg @ ''@'' @ mailHost) (ed_nextEntry db + 1) (ed_tenantPk db)"
  let ?db2 = "?db1\<lparr>ed_entries := ed_entries ?db1 @ [?b], ed_nextEntry := ed_nextEntry db + 2\<rparr>"
  have "createEntry ex_registry (builtin_service mailHost) fresh1 (new_entry cg ''restAPI'' by) db = Inr (?db1, ?a)"
    by (rule createEntry_default) (use assms in \<open>auto simp: builtin_service_def restHost_def new_entry_def\<close>)
  moreover have "createEntry ex_registry (builtin_service mailHost) fresh2 (new_entry cg ''Email'' by) ?db1 = Inr (?db2, ?b)"
    by (subst createEntry_default [where token = "''E''" and h = "''callgent+'' @ cg @ ''@'' @ mailHost"])
      (use assms in \<open>auto simp: builtin_service_def emailHost_def getRelayAddress_def new_entry_def\<close>)
  ultimately have created: "onCallgentCreated ex_registry (builtin_service mailHost) fresh1 fresh2 cg by None db = Inr (?db2, [?a, ?b])"
    by (simp add: onCallgentCreated_def)
  have "filter (\<lambda>y. ey_callgentId y = cg \<and> er_adaptorKey y = ''restAPI'' \<and> ey_type y = ET_CLIENT) (ed_entries db) = []"
    using assms(3) by (auto simp: filter_empty_conv)
  then have "findFirstByType ET_CLIENT cg ''restAPI'' None ?db2 = Some ?a"
    by (simp add: findFirstByType_def js_sort_def)
  then show ?thesis using created by (simp add: onCallgentCreated_def)
qed

theorem new_callgent_reachable_witness:
  "\<exists>db' a b. onCallgentCreated ex_registry (builtin_service ''m'') ''e1'' ''e2'' ''cg'' None None ex_db = Inr (db', [a, b]) \<and>
    ey_host a = Some (''/api/rest/request/'' @ ''cg'' @ ''/'' @ ''e1'')"
proof -
  have "''e1'' \<noteq> ''e2''" "CHR ''{'' \<notin> set (''cg'' @ ''e1'' @ ''e2'' @ ''m'')"
    "\<forall>y\<in>set (ed_entries ex_db). ey_callgentId y \<noteq> ''cg'' \<and> ey_id y \<notin> {''e1'', ''e2''}" "{''e1'', ''e2''} \<inter> set (ed_goneEntries ex_db) = {}"
    by (simp_all add: ex_db_def)
  from new_callgent_reachable [OF this, of None] show ?thesis by blast
qed

end
