(* ===== verification/ApiSpec.thy ===== *)
theory ApiSpec
  imports Utils
begin

text \<open>
  \<open>parseApis\<close> of \<open>src/entries/adaptors/entry-adaptor.base.ts\<close>: an API description in JSON, YAML or as
  a Postman collection becomes the list of its operations. The readers of JSON and YAML, the
  Postman converter, the reference resolver and the printing of numbers are parameters.
\<close>

section \<open>Values\<close>

text \<open>\<open>j?.k\<close>, and \<open>j.k\<close> where \<open>j\<close> is known not to be \<open>null\<close>.\<close>

definition json_at :: "string \<Rightarrow> json \<Rightarrow> json option" where
  "json_at k j = (case j of JObj kvs \<Rightarrow> obj_get kvs k | _ \<Rightarrow> None)"

definition json_opt_at :: "string \<Rightarrow> json option \<Rightarrow> json option" where
  "json_opt_at k j = (case j of None \<Rightarrow> None | Some v \<Rightarrow> json_at k v)"

text \<open>\<open>Object.entries\<close>, which throws for \<open>null\<close>; the keys of objects are no array indices.\<close>

definition obj_entries :: "json \<Rightarrow> (string \<times> json) list result" where
  "obj_entries j =
     (case j of
        JNull \<Rightarrow> Inl (TypeError ''Cannot convert undefined or null to object'')
      | JObj kvs \<Rightarrow> Inr kvs
      | JArr xs \<Rightarrow> Inr (map (\<lambda>(i, x). (show_nat i, x)) (enumerate 0 xs))
      | JStr s \<Rightarrow> Inr (map (\<lambda>(i, c). (show_nat i, JStr [c])) (enumerate 0 s))
      | _ \<Rightarrow> Inr [])"

text \<open>The conversion of a value to a string, as templates and \<open>join\<close> do it; \<open>num\<close> prints a number.\<close>

fun join_str :: "string \<Rightarrow> string list \<Rightarrow> string" where
  "join_str sep [] = []"
| "join_str sep [s] = s"
| "join_str sep (s # t # ts) = s @ sep @ join_str sep (t # ts)"

fun js_string :: "(rat \<Rightarrow> string) \<Rightarrow> json \<Rightarrow> string" where
  "js_string num JNull = ''null''"
| "js_string num (JBool b) = (if b then ''true'' else ''false'')"
| "js_string num (JNum n) = num n"
| "js_string num (JStr s) = s"
| "js_string num (JArr xs) = join_str '','' (map (\<lambda>x. if x = JNull then [] else js_string num x) xs)"
| "js_string num (JObj _) = ''[object Object]''"

definition js_join :: "(rat \<Rightarrow> string) \<Rightarrow> string \<Rightarrow> json list \<Rightarrow> string" where
  "js_join num sep xs = join_str sep (map (\<lambda>x. if x = JNull then [] else js_string num x) xs)"

text \<open>\<open>v || ''\<close> in a template.\<close>

definition or_empty :: "(rat \<Rightarrow> string) \<Rightarrow> json option \<Rightarrow> string" where
  "or_empty num v = (if truthy_opt v then js_string num (the v) else [])"

section \<open>Operations\<close>

record api =
  ap_path :: string
  ap_method :: string
  ap_summary :: string
  ap_description :: string
  ap_securities :: "json option"
  ap_servers :: "json option"
  ap_parameters :: "json option"
  ap_requestBody :: "json option"
  ap_responses :: "json option"
  ap_rawJson :: json

record api_spec =
  as_apis :: "api list"
  as_securitySchemes :: "json option"
  as_servers :: "json option"
  as_securities :: "json option"

text \<open>\<open>restApi.tags?.length\<close> and the join of the tags, which only an array has.\<close>

definition has_length :: "json option \<Rightarrow> bool" where
  "has_length t =
     (case t of
        Some (JArr xs) \<Rightarrow> xs \<noteq> []
      | Some (JStr s) \<Rightarrow> s \<noteq> []
      | Some (JObj kvs) \<Rightarrow> truthy_opt (obj_get kvs ''length'')
      | _ \<Rightarrow> False)"

definition tags_text :: "(rat \<Rightarrow> string) \<Rightarrow> json option \<Rightarrow> string result" where
  "tags_text num t =
     (if \<not> has_length t then Inr []
      else (case t of
              Some (JArr xs) \<Rightarrow> Inr (''Tags: '' @ js_join num '', '' xs)
            | _ \<Rightarrow> Inl (TypeError ''restApi.tags.join is not a function'')))"

definition api_summary :: "(rat \<Rightarrow> string) \<Rightarrow> json \<Rightarrow> string" where
  "api_summary num r =
     (let i = json_at ''operationId'' r; s = json_at ''summary'' r
      in or_empty num i @ (if truthy_opt i \<and> truthy_opt s then '': '' else []) @ or_empty num s)"

definition api_description :: "(rat \<Rightarrow> string) \<Rightarrow> json \<Rightarrow> string result" where
  "api_description num r =
     (let d = json_at ''description'' r; t = json_at ''tags'' r
      in and_then (tags_text num t) (\<lambda>tags.
           Inr (or_empty num d @ (if truthy_opt d \<and> has_length t then ''; '' else []) @ tags)))"

definition api_of :: "(rat \<Rightarrow> string) \<Rightarrow> string \<Rightarrow> string \<Rightarrow> json \<Rightarrow> api result" where
  "api_of num path key r =
     (if r = JNull then Inl (TypeError ''Cannot read properties of null (reading operationId)'')
      else and_then (api_description num r) (\<lambda>descr.
        Inr \<lparr>ap_path = path, ap_method = to_upper key, ap_summary = api_summary num r, ap_description = descr,
             ap_securities = json_at ''security'' r, ap_servers = json_at ''servers'' r,
             ap_parameters = json_at ''parameters'' r, ap_requestBody = json_at ''requestBody'' r,
             ap_responses = json_at ''responses'' r, ap_rawJson = r\<rparr>))"

text \<open>The operations of one path: every key of the path item counts as a method.\<close>

definition apis_of_path :: "(rat \<Rightarrow> string) \<Rightarrow> string \<times> json \<Rightarrow> api list result" where
  "apis_of_path num pj =
     and_then (obj_entries (snd pj)) (map_result (\<lambda>(key, r). api_of num (fst pj) key r))"

definition apis_of_paths :: "(rat \<Rightarrow> string) \<Rightarrow> (string \<times> json) list \<Rightarrow> api list result" where
  "apis_of_paths num ps = and_then (map_result (apis_of_path num) ps) (\<lambda>l. Inr (concat l))"

section \<open>Reading a description\<close>

datatype format = F_json | F_yaml | F_text

fun format_name :: "format option \<Rightarrow> string" where
  "format_name None = ''text''"
| "format_name (Some F_json) = ''json''"
| "format_name (Some F_yaml) = ''yaml''"
| "format_name (Some F_text) = ''text''"

record readers =
  rd_num :: "rat \<Rightarrow> string"
  rd_json :: "string \<Rightarrow> json result"
  rd_yaml :: "string \<Rightarrow> json result"
  rd_postman :: "string \<Rightarrow> string result"
  rd_deref :: "json \<Rightarrow> json result"

definition postman_schema :: string where
  "postman_schema = ''https://schema.getpostman.com/json/collection''"

definition is_postman :: "string \<Rightarrow> format option \<Rightarrow> bool" where
  "is_postman s fmt \<longleftrightarrow> fmt \<in> {None, Some F_json} \<and> prefix ''{'' s \<and>
     (case find_sub postman_schema s of None \<Rightarrow> False | Some i \<Rightarrow> i > 0)"

text \<open>The first block: \<open>None\<close> is \<open>undefined\<close>, a text that is neither JSON nor YAML.\<close>

definition read_text :: "readers \<Rightarrow> string \<Rightarrow> format option \<Rightarrow> json option result" where
  "read_text rd s fmt =
     (case fmt of
        Some F_json \<Rightarrow> and_then (rd_json rd s) (\<lambda>j. Inr (Some j))
      | Some F_yaml \<Rightarrow> and_then (rd_yaml rd s) (\<lambda>j. Inr (Some j))
      | _ \<Rightarrow> (case rd_json rd s of
                Inr j \<Rightarrow> Inr (Some j)
              | Inl _ \<Rightarrow> (case rd_yaml rd s of Inr j \<Rightarrow> Inr (Some j) | Inl _ \<Rightarrow> Inr None)))"

definition must_be_openapi :: "json option \<Rightarrow> json result" where
  "must_be_openapi j =
     (if truthy_opt (json_opt_at ''openapi'' j) \<and> truthy_opt (json_opt_at ''paths'' j) then Inr (the j)
      else Inl (PlainError ''TODO: Not implemented.''))"

definition parse_failed :: "format option \<Rightarrow> js_error \<Rightarrow> js_error" where
  "parse_failed fmt err =
     BadRequest (''Failed to parse content as '' @ format_name fmt @ '' format, msg: '' @ error_message err)"

definition wrap_error :: "(js_error \<Rightarrow> js_error) \<Rightarrow> 'a result \<Rightarrow> 'a result" where
  "wrap_error f r = (case r of Inl e \<Rightarrow> Inl (f e) | Inr x \<Rightarrow> Inr x)"

definition read_openapi :: "readers \<Rightarrow> string \<Rightarrow> format option \<Rightarrow> json result" where
  "read_openapi rd s fmt =
     (if is_postman s fmt then
        and_then (wrap_error (parse_failed fmt) (rd_postman rd s)) (\<lambda>s1.
          wrap_error (parse_failed (Some F_json)) (and_then (read_text rd s1 (Some F_json)) must_be_openapi))
      else wrap_error (parse_failed fmt) (and_then (read_text rd s fmt) must_be_openapi))"

text \<open>\<open>openapi?.startsWith('3.0')\<close>: a version that is a number has no such method.\<close>

definition check_version :: "json \<Rightarrow> unit result" where
  "check_version j =
     (case json_at ''openapi'' j of
        Some (JStr v) \<Rightarrow> if prefix ''3.0'' v then Inr ()
                        else Inl (BadRequest (''Only openAPI `3.0.x` is supported now, openapi='' @ v))
      | None \<Rightarrow> Inl (BadRequest ''Only openAPI `3.0.x` is supported now, openapi=undefined'')
      | Some JNull \<Rightarrow> Inl (BadRequest ''Only openAPI `3.0.x` is supported now, openapi=null'')
      | Some _ \<Rightarrow> Inl (TypeError ''openapi?.startsWith is not a function''))"

definition parseApis :: "readers \<Rightarrow> string \<Rightarrow> format option \<Rightarrow> api_spec result" where
  "parseApis rd s fmt =
     and_then (read_openapi rd s fmt) (\<lambda>j0.
     and_then (wrap_error (\<lambda>e. BadRequest (''Invalid openAPI.JSON, failed to dereference, '' @ error_message e)) (rd_deref rd j0)) (\<lambda>j.
     and_then (if j = JNull then Inl (TypeError ''Cannot destructure properties of null'') else Inr ()) (\<lambda>_.
     and_then (check_version j) (\<lambda>_.
     and_then (if truthy_opt (json_at ''paths'' j) then obj_entries (the (json_at ''paths'' j)) else Inr []) (\<lambda>ps.
       if ps = [] then Inl (NotFound ''No API found in the text.'')
       else and_then (apis_of_paths (rd_num rd) ps) (\<lambda>apis.
         Inr \<lparr>as_apis = apis, as_securitySchemes = json_opt_at ''securitySchemes'' (json_at ''components'' j),
              as_servers = json_at ''servers'' j, as_securities = json_at ''security'' j\<rparr>))))))"

section \<open>Facts\<close>

lemma api_of_Inr: "api_of num p k r = Inr a \<Longrightarrow> ap_path a = p \<and> ap_method a = to_upper k \<and> ap_rawJson a = r"
  by (auto simp: api_of_def outcome_simps split: if_splits)

lemma api_of_error: "api_of num p k r = Inl e \<Longrightarrow> \<exists>m. e = TypeError m"
  by (auto simp: api_of_def api_description_def tags_text_def outcome_simps Let_def split: if_splits option.splits json.splits)

lemma map_result_error: "map_result f xs = Inl e \<Longrightarrow> \<exists>x\<in>set xs. f x = Inl e"
  by (induction xs) (auto simp: outcome_simps)

lemma obj_entries_error: "obj_entries j = Inl e \<Longrightarrow> \<exists>m. e = TypeError m"
  by (auto simp: obj_entries_def split: json.splits)

lemma apis_of_paths_error: "apis_of_paths num ps = Inl e \<Longrightarrow> \<exists>m. e = TypeError m"
  by (auto simp: apis_of_paths_def apis_of_path_def outcome_simps dest!: map_result_error dest: api_of_error obj_entries_error)

text \<open>The pairs of path and method that an object of path items lists, in its order.\<close>

definition listed :: "(string \<times> json) list \<Rightarrow> (string \<times> string \<times> json) list" where
  "listed ps = concat (map (\<lambda>(p, j). map (\<lambda>(k, r). (p, to_upper k, r)) (case obj_entries j of Inr l \<Rightarrow> l | Inl _ \<Rightarrow> [])) ps)"

lemma apis_of_path_listed:
  assumes "apis_of_path num (p, j) = Inr l"
  shows "map (\<lambda>a. (ap_path a, ap_method a, ap_rawJson a)) l =
    map (\<lambda>(k, r). (p, to_upper k, r)) (case obj_entries j of Inr l \<Rightarrow> l | Inl _ \<Rightarrow> [])"
proof -
  from assms obtain kvs where kvs: "obj_entries j = Inr kvs"
    and "list_all2 (\<lambda>(k, r) a. api_of num p k r = Inr a) kvs l"
    by (auto simp: apis_of_path_def outcome_simps map_result_Inr case_prod_unfold)
  from this(2) have "map (\<lambda>a. (ap_path a, ap_method a, ap_rawJson a)) l = map (\<lambda>(k, r). (p, to_upper k, r)) kvs"
    by (induction rule: list_all2_induct) (auto dest: api_of_Inr)
  with kvs show ?thesis by simp
qed

lemma apis_of_paths_listed:
  assumes "apis_of_paths num ps = Inr l"
  shows "map (\<lambda>a. (ap_path a, ap_method a, ap_rawJson a)) l = listed ps"
proof -
  from assms obtain ls where l: "l = concat ls" and "list_all2 (\<lambda>p q. apis_of_path num p = Inr q) ps ls"
    by (auto simp: apis_of_paths_def outcome_simps map_result_Inr)
  from this(2) have "map (\<lambda>a. (ap_path a, ap_method a, ap_rawJson a)) (concat ls) = listed ps"
    by (induction rule: list_all2_induct) (auto simp: listed_def dest!: apis_of_path_listed)
  with l show ?thesis by simp
qed

section \<open>Properties\<close>

text \<open>A description that is read lists one operation for every key of every path item, in the order
  of the document, with the key in upper case as its method and the item as its raw form; it has
  an OpenAPI version that starts with 3.0. Keys of a path item that are no HTTP methods, such as
  \<open>parameters\<close> or \<open>summary\<close>, become operations as well.\<close>

theorem parseApis_lists_operations:
  assumes "parseApis rd s fmt = Inr spec"
  shows "\<exists>j0 j ps v. read_openapi rd s fmt = Inr j0 \<and> rd_deref rd j0 = Inr j \<and>
    json_at ''openapi'' j = Some (JStr v) \<and> prefix ''3.0'' v \<and>
    (\<exists>pj. json_at ''paths'' j = Some pj \<and> obj_entries pj = Inr ps) \<and> ps \<noteq> [] \<and>
    map (\<lambda>a. (ap_path a, ap_method a, ap_rawJson a)) (as_apis spec) = listed ps"
proof -
  from assms obtain j0 j ps apis where j0: "read_openapi rd s fmt = Inr j0" and j: "rd_deref rd j0 = Inr j"
    and v: "check_version j = Inr ()"
    and ps: "(if truthy_opt (json_at ''paths'' j) then obj_entries (the (json_at ''paths'' j)) else Inr []) = Inr ps" "ps \<noteq> []"
    and apis: "apis_of_paths (rd_num rd) ps = Inr apis" and spec: "as_apis spec = apis"
    by (auto simp: parseApis_def wrap_error_def outcome_simps split: if_splits sum.splits)
  from v obtain w where "json_at ''openapi'' j = Some (JStr w)" "prefix ''3.0'' w"
    by (auto simp: check_version_def split: option.splits json.splits if_splits)
  moreover from ps have "\<exists>pj. json_at ''paths'' j = Some pj \<and> obj_entries pj = Inr ps"
    by (cases "json_at ''paths'' j") (auto split: if_splits)
  ultimately show ?thesis using j0 j ps(2) apis_of_paths_listed [OF apis] spec by blast
qed

definition ex_doc :: "json \<Rightarrow> json" where
  "ex_doc v = JObj [(''openapi'', v), (''paths'', JObj [(''/pets'', JObj
     [(''parameters'', JArr []), (''get'', JObj [(''operationId'', JStr ''list''), (''tags'', JArr [JStr ''a'', JStr ''b''])])])])]"

definition ex_readers :: "json \<Rightarrow> readers" where
  "ex_readers v = \<lparr>rd_num = (\<lambda>_. ''0''), rd_json = (\<lambda>_. Inl (PlainError ''Unexpected token'')), rd_yaml = (\<lambda>_. Inr (ex_doc v)),
     rd_postman = Inr, rd_deref = Inr\<rparr>"

lemma ex_parse: "\<exists>spec. parseApis (ex_readers (JStr ''3.0.1'')) ''openapi'' None = Inr spec \<and>
    map ap_method (as_apis spec) = [to_upper ''parameters'', to_upper ''get''] \<and> map ap_description (as_apis spec) = [[], ''Tags: a, b'']"
  by (simp add: parseApis_def read_openapi_def is_postman_def read_text_def must_be_openapi_def json_at_def json_opt_at_def
      ex_readers_def ex_doc_def wrap_error_def check_version_def obj_entries_def apis_of_paths_def apis_of_path_def api_of_def
      api_description_def tags_text_def has_length_def js_join_def or_empty_def Let_def)

theorem parseApis_lists_operations_witness:
  "\<exists>spec. parseApis (ex_readers (JStr ''3.0.1'')) ''openapi'' None = Inr spec \<and>
     (\<exists>j0 j ps v. read_openapi (ex_readers (JStr ''3.0.1'')) ''openapi'' None = Inr j0 \<and> rd_deref (ex_readers (JStr ''3.0.1'')) j0 = Inr j \<and>
       json_at ''openapi'' j = Some (JStr v) \<and> prefix ''3.0'' v \<and>
       (\<exists>pj. json_at ''paths'' j = Some pj \<and> obj_entries pj = Inr ps) \<and> ps \<noteq> [] \<and>
       map (\<lambda>a. (ap_path a, ap_method a, ap_rawJson a)) (as_apis spec) = listed ps)"
proof -
  obtain spec where s: "parseApis (ex_readers (JStr ''3.0.1'')) ''openapi'' None = Inr spec" using ex_parse by blast
  show ?thesis by (rule exI [of _ spec], rule conjI [OF s parseApis_lists_operations [OF s]])
qed

text \<open>Whatever goes wrong in reading a description is a bad request, an empty list of paths is not
  found, and the only other failure is a \<open>TypeError\<close>; a text that neither reader takes is always a
  bad request.\<close>

theorem parseApis_errors:
  "(\<forall>err. parseApis rd s fmt = Inl err \<longrightarrow> (\<exists>m. err = BadRequest m \<or> err = NotFound m \<or> err = TypeError m)) \<and>
   (\<forall>e1 e2. rd_json rd s = Inl e1 \<longrightarrow> rd_yaml rd s = Inl e2 \<longrightarrow> \<not> is_postman s fmt \<longrightarrow>
     (\<exists>m. parseApis rd s fmt = Inl (BadRequest m)))"
proof (rule conjI; intro allI impI)
  fix err assume a: "parseApis rd s fmt = Inl err"
  have r: "\<exists>m. e = BadRequest m" if "read_openapi rd s fmt = Inl e" for e
    using that by (auto simp: read_openapi_def wrap_error_def parse_failed_def outcome_simps split: if_splits sum.splits)
  have v: "\<exists>m. e = BadRequest m \<or> e = TypeError m" if "check_version j = Inl e" for e j
    using that by (auto simp: check_version_def split: option.splits json.splits if_splits)
  show "\<exists>m. err = BadRequest m \<or> err = NotFound m \<or> err = TypeError m"
    using a by (auto simp: parseApis_def outcome_simps wrap_error_def split: if_splits sum.splits
        dest: r v apis_of_paths_error obj_entries_error)
next
  fix e1 e2 assume "rd_json rd s = Inl e1" "rd_yaml rd s = Inl e2" "\<not> is_postman s fmt"
  then show "\<exists>m. parseApis rd s fmt = Inl (BadRequest m)"
    by (auto simp: parseApis_def read_openapi_def read_text_def must_be_openapi_def json_opt_at_def wrap_error_def parse_failed_def
        split: option.splits format.splits)
qed

theorem parseApis_errors_witness:
  "\<exists>m. parseApis (ex_readers JNull\<lparr>rd_yaml := \<lambda>_. Inl (PlainError ''bad indentation'')\<rparr>) ''call me'' None = Inl (BadRequest m)"
  using parseApis_errors [of "ex_readers JNull\<lparr>rd_yaml := \<lambda>_. Inl (PlainError ''bad indentation'')\<rparr>" "''call me''" None]
  by (simp add: ex_readers_def is_postman_def)

text \<open>A version written as a YAML number is not refused, it breaks the check: the caller gets an internal error.\<close>

theorem numeric_version_breaks:
  "parseApis (ex_readers (JNum 3)) ''openapi'' None = Inl (TypeError ''openapi?.startsWith is not a function'')"
  by (simp add: parseApis_def read_openapi_def is_postman_def read_text_def must_be_openapi_def json_at_def json_opt_at_def
      ex_readers_def ex_doc_def wrap_error_def check_version_def)

end
