(* ===== verification/Endpoints.thy ===== *)
theory Endpoints
  imports Entries ApiSpec
begin

text \<open>
  \<open>src/endpoints/endpoints.service.ts\<close>: the endpoints of a callgent, created one by one or in a batch
  from an API description, together with the realms that its security schemes name; their changes
  are published as events. Ids of new rows are drawn by the caller of a definition.
\<close>

section \<open>Reading the securities of a description\<close>

definition str_at :: "string \<Rightarrow> json \<Rightarrow> string option" where
  "str_at k j = (case json_at k j of Some (JStr s) \<Rightarrow> Some s | _ \<Rightarrow> None)"

definition scheme_of_json :: "json \<Rightarrow> scheme_vo" where
  "scheme_of_json j =
     \<lparr>sc_type = (case str_at ''type'' j of
         None \<Rightarrow> AT_other ''undefined''
       | Some t \<Rightarrow> if t = ''apiKey'' then AT_apiKey else if t = ''http'' then AT_http else AT_other t),
      sc_perUser = truthy_opt (json_at ''perUser'' j), sc_provider = str_at ''provider'' j,
      sc_validationUrl = str_at ''validationUrl'' j, sc_name = str_at ''name'' j, sc_in = str_at ''in'' j, sc_scheme = str_at ''scheme'' j\<rparr>"

definition strings_of :: "json \<Rightarrow> string list" where
  "strings_of j = (case j of JArr xs \<Rightarrow> List.map_filter (\<lambda>x. case x of JStr s \<Rightarrow> Some s | _ \<Rightarrow> None) xs | _ \<Rightarrow> [])"

definition server_urls :: "json option \<Rightarrow> string list" where
  "server_urls v = (case v of Some (JArr xs) \<Rightarrow> List.map_filter (str_at ''url'') xs | _ \<Rightarrow> [])"

text \<open>A list of security requirements: each maps names of schemes to scopes.\<close>

definition requirements_of :: "json option \<Rightarrow> (string list) obj list" where
  "requirements_of v =
     (case v of
        Some (JArr xs) \<Rightarrow> map (\<lambda>x. case x of JObj kvs \<Rightarrow> map (\<lambda>(k, s). (k, strings_of s)) kvs | _ \<Rightarrow> []) xs
      | _ \<Rightarrow> [])"

section \<open>Creating endpoints\<close>

text \<open>The upserts of one batch run together: all of them look before the first writes.\<close>

fun write_realms :: "(string \<times> realm \<times> realm option) list \<Rightarrow> realm_db \<Rightarrow> (realm_db \<times> realm obj) result" where
  "write_realms [] db = Inr (db, [])"
| "write_realms ((name, found) # rest) db =
     and_then (upsertWrite no_patch found db) (\<lambda>(db1, r).
     and_then (write_realms rest db1) (\<lambda>(db2, m). Inr (db2, (name, r) # m)))"

definition upsertAll :: "url_host \<Rightarrow> entry \<Rightarrow> string list \<Rightarrow> (string \<times> json) list \<Rightarrow> realm_db \<Rightarrow> (realm_db \<times> realm obj) result" where
  "upsertAll host ey servers schemes db =
     and_then (map_result (\<lambda>(name, j).
         and_then (upsertLook host ey (scheme_of_json j) no_patch servers db) (\<lambda>found. Inr (name, found))) schemes)
       (\<lambda>founds. write_realms founds db)"

definition security_of :: "url_host \<Rightarrow> realm obj \<Rightarrow> entry \<Rightarrow> (string list) obj \<Rightarrow> security_item obj result" where
  "security_of host realms ey sec =
     and_then (map_result (\<lambda>(name, scopes).
         case obj_get realms name of
           None \<Rightarrow> Inl (BadRequest (''Unknown security scheme name: '' @ name))
         | Some r \<Rightarrow> constructSecurity host r ey scopes) sec)
       (\<lambda>items. Inr (fold (\<lambda>it m. obj_set (show_int (si_realmPk it)) it m) items []))"

definition batch_row :: "url_host \<Rightarrow> realm obj \<Rightarrow> entry_row \<Rightarrow> json option \<Rightarrow> string option \<Rightarrow> string \<Rightarrow> api \<Rightarrow> endpoint_row result" where
  "batch_row host realms ey general createdBy fresh a =
     (let reqs = requirements_of general @ requirements_of (ap_securities a)
      in and_then (map_result (security_of host realms (entry.truncate ey)) reqs) (\<lambda>secs.
           Inr \<lparr>en_id = fresh, en_name = formalApiName (ap_method a) (ap_path a), en_path = ap_path a, en_method = ap_method a,
                en_callgentId = ey_callgentId ey, en_entryId = ey_id ey, en_adaptorKey = er_adaptorKey ey, en_isAsync = False,
                en_cacheKey = None, en_cacheTtl = Some 0, en_securities = secs,
                nr_pk = 0, nr_summary = Some (ap_summary a), nr_description = Some (ap_description a), nr_servers = ap_servers a,
                nr_params = Some (JObj (List.map_filter (\<lambda>(k, v). map_option (Pair k) v)
                  [(''parameters'', ap_parameters a), (''requestBody'', ap_requestBody a)])),
                nr_responses = ap_responses a, nr_rawJson = ap_rawJson a, nr_createdBy = createdBy\<rparr>))"

text \<open>The insertion of rows: ids are unique among all rows, names among the live rows of a callgent.\<close>

definition row_key :: "endpoint_row \<Rightarrow> string \<times> string" where
  "row_key n = (en_callgentId n, en_name n)"

definition insertEndpoints :: "endpoint_row list \<Rightarrow> entry_db \<Rightarrow> (entry_db \<times> endpoint_row list) result" where
  "insertEndpoints ns db =
     (if \<not> distinct (map en_id ns) \<or> \<not> distinct (map row_key ns) \<or>
         (\<exists>n\<in>set ns. en_id n \<in> en_id ` set (ed_endpoints db) \<or> en_id n \<in> set (ed_goneEndpoints db) \<or>
                     row_key n \<in> row_key ` set (ed_endpoints db))
      then Inl (PlainError ''Unique constraint failed on the fields: (`callgentId`,`name`,`deletedAt`)'')
      else (let rows = map (\<lambda>(i, n). n\<lparr>nr_pk := ed_nextEndpoint db + int i\<rparr>) (enumerate 0 ns)
            in Inr (db\<lparr>ed_endpoints := ed_endpoints db @ rows, ed_nextEndpoint := ed_nextEndpoint db + int (length ns)\<rparr>, rows)))"

definition publish :: "change_event \<Rightarrow> entry_db \<Rightarrow> entry_db" where
  "publish ev db = db\<lparr>ed_events := ed_events db @ [ev]\<rparr>"

definition createEndpoint :: "string \<Rightarrow> endpoint_row \<Rightarrow> string option \<Rightarrow> entry_db \<Rightarrow> (entry_db \<times> endpoint_row) result" where
  "createEndpoint fresh data opBy db =
     and_then (insertEndpoints [data\<lparr>en_id := fresh\<rparr>] db) (\<lambda>(db1, rows).
       Inr (publish (EndpointsChanged opBy (en_entryId data) rows []) db1, hd rows))"

text \<open>\<open>createMany\<close>: without a server adaptor the first endpoint throws; the published rows are the given ones.\<close>

definition with_async :: "adaptor \<Rightarrow> endpoint_row \<Rightarrow> endpoint_row" where
  "with_async a n = n\<lparr>en_isAsync := ad_isAsync a (endpoint.truncate n)\<rparr>"

definition createMany :: "registry \<Rightarrow> (string \<Rightarrow> adaptor) \<Rightarrow> endpoint_row list \<Rightarrow> entry_row \<Rightarrow> string option \<Rightarrow> entry_db \<Rightarrow> (entry_db \<times> nat) result" where
  "createMany rg service ns ey opBy db =
     and_then (getAdaptor rg (er_adaptorKey ey) (Some ET_SERVER)) (\<lambda>found.
       (if found = None \<and> ns \<noteq> [] then Inl (TypeError ''Cannot read properties of undefined (reading isAsync)'')
        else (let data = map (with_async (service (the found))) ns
              in and_then (insertEndpoints data db) (\<lambda>(db1, rows).
                   Inr (publish (EndpointsChanged opBy (ey_id ey) data []) db1, length rows)))))"

text \<open>\<open>createBatch\<close>; \<open>fresh\<close> gives the id of the n-th operation.\<close>

definition createBatch :: "registry \<Rightarrow> (string \<Rightarrow> adaptor) \<Rightarrow> url_host \<Rightarrow> (nat \<Rightarrow> string) \<Rightarrow> entry_row \<Rightarrow> api_spec \<Rightarrow> string option \<Rightarrow>
    realm_db \<Rightarrow> entry_db \<Rightarrow> (realm_db \<times> entry_db \<times> nat) result" where
  "createBatch rg service host fresh ey spec createdBy rdb db =
     (if ey_type ey \<noteq> ET_SERVER then Inl (BadRequest (''entry must be of type `SERVER`, id='' @ ey_id ey))
      else and_then (if truthy_opt (as_securitySchemes spec)
                     then and_then (obj_entries (the (as_securitySchemes spec))) (\<lambda>schemes.
                            upsertAll host (entry.truncate ey) (server_urls (as_servers spec)) schemes rdb)
                     else Inr (rdb, [])) (\<lambda>(rdb1, realms).
           and_then (map_result (\<lambda>(i, a). batch_row host realms ey (as_securities spec) createdBy (fresh i) a) (enumerate 0 (as_apis spec))) (\<lambda>rows.
           and_then (createMany rg service rows ey createdBy db) (\<lambda>(db1, n). Inr (rdb1, db1, n)))))"

text \<open>\<open>importBatch\<close>: the adaptor reads the text; every server adaptor inherits the same reader.\<close>

definition parseApisOf :: "registry \<Rightarrow> readers \<Rightarrow> entry_row \<Rightarrow> string \<Rightarrow> format option \<Rightarrow> api_spec result" where
  "parseApisOf rg rd ey s fmt =
     and_then (getAdaptor rg (er_adaptorKey ey) (Some ET_SERVER)) (\<lambda>found.
       if found = None then Inl (TypeError ''Cannot read properties of undefined (reading parseApis)'') else parseApis rd s fmt)"

definition importBatch :: "registry \<Rightarrow> (string \<Rightarrow> adaptor) \<Rightarrow> url_host \<Rightarrow> readers \<Rightarrow> (nat \<Rightarrow> string) \<Rightarrow> entry_row option \<Rightarrow> string \<Rightarrow> format option \<Rightarrow>
    string option \<Rightarrow> realm_db \<Rightarrow> entry_db \<Rightarrow> (realm_db \<times> entry_db \<times> nat) result" where
  "importBatch rg service host rd fresh entry s fmt createdBy rdb db =
     (case entry of
        None \<Rightarrow> Inl (BadRequest ''Function endpoints can only be imported into Server Entry. '')
      | Some ey \<Rightarrow>
          if ey_type ey \<noteq> ET_SERVER then Inl (BadRequest ''Function endpoints can only be imported into Server Entry. '')
          else and_then (parseApisOf rg rd ey s fmt) (\<lambda>spec. createBatch rg service host fresh ey spec createdBy rdb db))"

section \<open>Deleting, updating, loading\<close>

definition deleteEndpoint :: "string \<Rightarrow> string option \<Rightarrow> entry_db \<Rightarrow> (entry_db \<times> endpoint_row) result" where
  "deleteEndpoint i opBy db =
     (case find (\<lambda>n. en_id n = i) (ed_endpoints db) of
        None \<Rightarrow> Inl (PlainError ''Record to delete does not exist.'')
      | Some n \<Rightarrow>
          Inr (publish (EndpointsChanged opBy (en_entryId n) [] [n])
                 (db\<lparr>ed_endpoints := filter (\<lambda>n. en_id n \<noteq> i) (ed_endpoints db), ed_goneEndpoints := i # ed_goneEndpoints db\<rparr>), n))"

text \<open>\<open>update\<close>: a body without an id does nothing; the name follows the method and the path of the body,
  \<open>patch\<close> sets the fields it has. A body without a method has no \<open>toUpperCase\<close>.\<close>

definition updated_row :: "string \<Rightarrow> string option \<Rightarrow> (endpoint_row \<Rightarrow> endpoint_row) \<Rightarrow> endpoint_row \<Rightarrow> endpoint_row" where
  "updated_row m path patch old =
     (patch old)\<lparr>en_method := m, en_path := (case path of None \<Rightarrow> en_path old | Some p \<Rightarrow> p),
                 en_name := formalApiName m (case path of None \<Rightarrow> ''undefined'' | Some p \<Rightarrow> p)\<rparr>"

definition storeUpdated :: "string \<Rightarrow> endpoint_row \<Rightarrow> endpoint_row \<Rightarrow> string option \<Rightarrow> entry_db \<Rightarrow> (entry_db \<times> endpoint_row option) result" where
  "storeUpdated i new old opBy db =
     (if \<exists>n\<in>set (ed_endpoints db). en_id n \<noteq> i \<and> row_key n = row_key new
      then Inl (PlainError ''Unique constraint failed on the fields: (`callgentId`,`name`,`deletedAt`)'')
      else Inr (publish (EndpointsChanged opBy (en_entryId new) [new] [old])
             (db\<lparr>ed_endpoints := map (\<lambda>n. if en_id n = i then new else n) (ed_endpoints db)\<rparr>), Some new))"

definition updateEndpoint :: "string \<Rightarrow> string option \<Rightarrow> string option \<Rightarrow> (endpoint_row \<Rightarrow> endpoint_row) \<Rightarrow> string option \<Rightarrow> entry_db \<Rightarrow>
    (entry_db \<times> endpoint_row option) result" where
  "updateEndpoint i meth path patch opBy db =
     (if i = [] then Inr (db, None)
      else (case meth of
              None \<Rightarrow> Inl (TypeError ''Cannot read properties of undefined (reading toUpperCase)'')
            | Some m \<Rightarrow>
                (case find (\<lambda>n. en_id n = i) (ed_endpoints db) of
                   None \<Rightarrow> Inl (PlainError ''Record to update not found.'')
                 | Some old \<Rightarrow> storeUpdated i (updated_row m path patch old) old opBy db)))"

definition updateEndpointSecurities :: "string \<Rightarrow> security_item obj list \<Rightarrow> entry_db \<Rightarrow> entry_db result" where
  "updateEndpointSecurities i secs db =
     (if i \<in> en_id ` set (ed_endpoints db)
      then Inr (db\<lparr>ed_endpoints := map (\<lambda>n. if en_id n = i then n\<lparr>en_securities := secs\<rparr> else n) (ed_endpoints db)\<rparr>)
      else Inl (PlainError ''Record to update not found.''))"

text \<open>\<open>loadEndpoints\<close>: the newest first; without a name all endpoints of the callgent.\<close>

definition callgentEndpoints :: "string \<Rightarrow> string option \<Rightarrow> entry_db \<Rightarrow> endpoint list" where
  "callgentEndpoints cg name db =
     map endpoint.truncate (js_sort (\<lambda>a b. nr_pk b - nr_pk a)
       (filter (\<lambda>n. en_callgentId n = cg \<and> (name = None \<or> Some (en_name n) = name)) (ed_endpoints db)))"

definition loadEndpoints :: "entry_db \<Rightarrow> req_event \<Rightarrow> req_event result" where
  "loadEndpoints db e =
     and_then (ctx_of e) (\<lambda>c.
       (case callgentEndpoints (cx_callgentId c) (cx_epName c) db of
          [] \<Rightarrow> Inl (NotFound (''No service endpoints found for callgent#'' @ cx_callgentId c @
                   (if nonempty_str (cx_epName c) then '' name='' @ the (cx_epName c) else [])))
        | eps \<Rightarrow> Inr (upd_ctx (\<lambda>c. c\<lparr>cx_endpoints := eps\<rparr>) e)))"

section \<open>Facts\<close>

interpretation newest_first: comparator "\<lambda>a b. nr_pk b - nr_pk a"
  by unfold_locales auto

definition numbered :: "int \<Rightarrow> endpoint_row list \<Rightarrow> endpoint_row list" where
  "numbered k ns = map (\<lambda>(i, n). n\<lparr>nr_pk := k + int i\<rparr>) (enumerate 0 ns)"

lemma numbered_from:
  "map f (map (\<lambda>(i, n). n\<lparr>nr_pk := k + int i\<rparr>) (enumerate j ns)) = map f ns"
  if "\<And>n v. f (n\<lparr>nr_pk := v\<rparr>) = f n"
  by (induction ns arbitrary: j) (auto simp: that)

lemma numbered_map:
  assumes "\<And>n v. f (n\<lparr>nr_pk := v\<rparr>) = f n"
  shows "map f (numbered k ns) = map f ns"
  unfolding numbered_def by (rule numbered_from) (rule assms)

lemma numbered_keys [simp]:
  "map en_id (numbered k ns) = map en_id ns" "map row_key (numbered k ns) = map row_key ns"
  "map en_entryId (numbered k ns) = map en_entryId ns" "map endpoint.truncate (numbered k ns) = map endpoint.truncate ns"
  by (rule numbered_map, simp add: row_key_def endpoint.truncate_def)+

lemma numbered_pks: "map nr_pk (map (\<lambda>(i, n). n\<lparr>nr_pk := k + int i\<rparr>) (enumerate j ns)) = map (\<lambda>i. k + int i) [j..<j + length ns]"
proof (induction ns arbitrary: j)
  case Nil
  then show ?case by simp
next
  case (Cons n ns)
  have "[j..<j + length (n # ns)] = j # [Suc j..<Suc j + length ns]" by (simp add: upt_conv_Cons del: upt_Suc)
  then show ?case using Cons [of "Suc j"] by (simp del: upt_Suc)
qed

lemma length_numbered [simp]: "length (numbered k ns) = length ns"
  by (simp add: numbered_def)

lemma insertEndpoints_Inr:
  "insertEndpoints ns db = Inr (db', rows) \<longleftrightarrow>
     distinct (map en_id ns) \<and> distinct (map row_key ns) \<and>
     (\<forall>n\<in>set ns. en_id n \<notin> en_id ` set (ed_endpoints db) \<and> en_id n \<notin> set (ed_goneEndpoints db) \<and> row_key n \<notin> row_key ` set (ed_endpoints db)) \<and>
     rows = numbered (ed_nextEndpoint db) ns \<and>
     db' = db\<lparr>ed_endpoints := ed_endpoints db @ rows, ed_nextEndpoint := ed_nextEndpoint db + int (length ns)\<rparr>"
  by (auto simp: insertEndpoints_def numbered_def Let_def)

lemma with_async_fields [simp]:
  "en_id (with_async a n) = en_id n" "en_name (with_async a n) = en_name n" "en_entryId (with_async a n) = en_entryId n"
  "en_callgentId (with_async a n) = en_callgentId n" "row_key (with_async a n) = row_key n" "en_path (with_async a n) = en_path n"
  "en_method (with_async a n) = en_method n" "en_securities (with_async a n) = en_securities n" "nr_rawJson (with_async a n) = nr_rawJson n"
  by (simp_all add: with_async_def row_key_def)

lemma createMany_Inr:
  assumes "createMany rg service ns ey opBy db = Inr (db', n)"
  shows "\<exists>a db1 rows. insertEndpoints (map (with_async a) ns) db = Inr (db1, rows) \<and> n = length ns \<and>
    db' = publish (EndpointsChanged opBy (ey_id ey) (map (with_async a) ns) []) db1 \<and>
    (ns \<noteq> [] \<longrightarrow> (\<exists>token. getAdaptor rg (er_adaptorKey ey) (Some ET_SERVER) = Inr (Some token) \<and> a = service token))"
proof -
  obtain found where f: "getAdaptor rg (er_adaptorKey ey) (Some ET_SERVER) = Inr found"
    using assms by (auto simp: createMany_def outcome_simps)
  with assms have g: "ns = [] \<or> found \<noteq> None" by (auto simp: createMany_def split: if_splits)
  let ?a = "service (the found)"
  have "createMany rg service ns ey opBy db = and_then (insertEndpoints (map (with_async ?a) ns) db) (\<lambda>(db1, rows).
      Inr (publish (EndpointsChanged opBy (ey_id ey) (map (with_async ?a) ns) []) db1, length rows))"
    using f g by (auto simp: createMany_def Let_def)
  with assms obtain db1 rows where i: "insertEndpoints (map (with_async ?a) ns) db = Inr (db1, rows)"
    and db': "db' = publish (EndpointsChanged opBy (ey_id ey) (map (with_async ?a) ns) []) db1" and n: "n = length rows"
    by (cases "insertEndpoints (map (with_async ?a) ns) db") auto
  from i n have "n = length ns" by (auto simp: insertEndpoints_Inr)
  moreover have "ns \<noteq> [] \<longrightarrow> (\<exists>token. getAdaptor rg (er_adaptorKey ey) (Some ET_SERVER) = Inr (Some token) \<and> ?a = service token)"
    using f g by (cases found) auto
  ultimately show ?thesis using i db' by blast
qed

lemma publish_fields [simp]:
  "ed_entries (publish ev db) = ed_entries db" "ed_endpoints (publish ev db) = ed_endpoints db"
  "ed_goneEntries (publish ev db) = ed_goneEntries db" "ed_goneEndpoints (publish ev db) = ed_goneEndpoints db"
  by (simp_all add: publish_def)

section \<open>The tables stay consistent\<close>

definition catalog_ok :: "entry_db \<Rightarrow> bool" where
  "catalog_ok db \<longleftrightarrow>
     distinct (map ey_id (ed_entries db)) \<and> distinct (map en_id (ed_endpoints db)) \<and> distinct (map row_key (ed_endpoints db)) \<and>
     ey_id ` set (ed_entries db) \<inter> set (ed_goneEntries db) = {} \<and> en_id ` set (ed_endpoints db) \<inter> set (ed_goneEndpoints db) = {} \<and>
     en_entryId ` set (ed_endpoints db) \<subseteq> ey_id ` set (ed_entries db)"

text \<open>The operations of the entry and endpoint services. Bodies of updates cannot name the id, key or
  owner of a row; endpoints are inserted for a stored entry.\<close>

inductive catalog_step :: "entry_db \<Rightarrow> entry_db \<Rightarrow> bool" where
  entry_created: "createEntry rg service fresh d db = Inr (db', r) \<Longrightarrow> catalog_step db db'"
| entry_deleted: "deleteEntry i opBy db = Inr (db', r) \<Longrightarrow> catalog_step db db'"
| entry_updated: "updateEntry i patch db = Inr db' \<Longrightarrow> (\<And>y. ey_id (patch y) = ey_id y) \<Longrightarrow> catalog_step db db'"
| endpoints_created: "createMany rg service ns ey opBy db = Inr (db', n) \<Longrightarrow> ey \<in> set (ed_entries db) \<Longrightarrow>
    (\<And>x. x \<in> set ns \<Longrightarrow> en_entryId x = ey_id ey) \<Longrightarrow> catalog_step db db'"
| endpoint_deleted: "deleteEndpoint i opBy db = Inr (db', m) \<Longrightarrow> catalog_step db db'"
| endpoint_updated: "updateEndpoint i meth path patch opBy db = Inr (db', u) \<Longrightarrow>
    (\<And>x. en_id (patch x) = en_id x \<and> en_entryId (patch x) = en_entryId x \<and> en_callgentId (patch x) = en_callgentId x) \<Longrightarrow> catalog_step db db'"
| securities_updated: "updateEndpointSecurities i secs db = Inr db' \<Longrightarrow> catalog_step db db'"

inductive_cases catalog_stepE: "catalog_step db db'"

lemma map_if_same: "(\<And>x. P x \<Longrightarrow> f (g x) = f x) \<Longrightarrow> map f (map (\<lambda>x. if P x then g x else x) xs) = map f xs"
  by (induction xs) auto

lemma catalog_ok_filter_endpoints:
  assumes "catalog_ok db" and "\<And>n. n \<in> set (ed_endpoints db) \<Longrightarrow> P n \<Longrightarrow> en_entryId n \<in> ids"
  shows "distinct (map en_id (filter P (ed_endpoints db))) \<and> distinct (map row_key (filter P (ed_endpoints db))) \<and>
    en_entryId ` set (filter P (ed_endpoints db)) \<subseteq> ids"
  using assms by (auto simp: catalog_ok_def distinct_map_filter)

lemma createEntry_ok: "catalog_ok db \<Longrightarrow> createEntry rg service fresh d db = Inr (db', r) \<Longrightarrow> catalog_ok db'"
proof -
  assume ok: "catalog_ok db" and "createEntry rg service fresh d db = Inr (db', r)"
  from createEntry_Inr [OF this(2)] obtain token d1
    where pre: "preCreate (service token) (d\<lparr>ey_id := fresh\<rparr>) = Inr d1" and r: "r = d1\<lparr>er_pk := ed_nextEntry db, er_tenantPk := ed_tenantPk db\<rparr>"
      and new: "fresh \<notin> ey_id ` set (ed_entries db)" "fresh \<notin> set (ed_goneEntries db)"
      and db': "db' = db\<lparr>ed_entries := ed_entries db @ [r], ed_nextEntry := ed_nextEntry db + 1\<rparr>" by blast
  from preCreate_keeps [OF pre] r have "ey_id r = fresh" by simp
  with ok new show ?thesis unfolding catalog_ok_def db' by auto
qed

lemma deleteEntry_Inr:
  assumes "deleteEntry i opBy db = Inr (db', r)"
  shows "ed_entries db' = filter (\<lambda>y. ey_id y \<noteq> i) (ed_entries db) \<and> ed_endpoints db' = filter (\<lambda>n. en_entryId n \<noteq> i) (ed_endpoints db) \<and>
    ed_goneEntries db' = i # ed_goneEntries db \<and>
    ed_goneEndpoints db' = map en_id (filter (\<lambda>n. en_entryId n = i) (ed_endpoints db)) @ ed_goneEndpoints db \<and>
    r \<in> set (ed_entries db) \<and> ey_id r = i"
  using assms by (auto simp: deleteEntry_def find_Some_iff split: option.splits)

lemma deleteEntry_ok:
  assumes "catalog_ok db" and "deleteEntry i opBy db = Inr (db', r)"
  shows "catalog_ok db'"
proof -
  note d = deleteEntry_Inr [OF assms(2)]
  have ids: "distinct (map en_id (ed_endpoints db))" using assms(1) by (simp add: catalog_ok_def)
  have "distinct (map en_id (ed_endpoints db')) \<and> distinct (map row_key (ed_endpoints db')) \<and>
      en_entryId ` set (ed_endpoints db') \<subseteq> ey_id ` set (ed_entries db')"
    using assms(1) d by (auto simp: catalog_ok_def distinct_map_filter)
  moreover have "en_id ` set (ed_endpoints db') \<inter> set (ed_goneEndpoints db') = {}"
    using assms(1) d ids by (auto simp: catalog_ok_def distinct_map dest: inj_onD)
  ultimately show ?thesis using assms(1) d by (auto simp: catalog_ok_def distinct_map_filter)
qed

lemma updateEntry_ok:
  assumes "catalog_ok db" and "updateEntry i patch db = Inr db'" and "\<And>y. ey_id (patch y) = ey_id y"
  shows "catalog_ok db'"
proof -
  have db': "db' = db\<lparr>ed_entries := map (\<lambda>y. if ey_id y = i then patch y else y) (ed_entries db)\<rparr>"
    using assms(2) by (auto simp: updateEntry_def split: if_splits)
  have "map ey_id (ed_entries db') = map ey_id (ed_entries db)" by (simp add: db' assms(3))
  then have "map ey_id (ed_entries db') = map ey_id (ed_entries db)" "ey_id ` set (ed_entries db') = ey_id ` set (ed_entries db)"
    by (simp, metis list.set_map)
  then show ?thesis using assms(1) by (simp add: catalog_ok_def db' del: map_map)
qed

lemma publish_ok [simp]: "catalog_ok (publish ev db) = catalog_ok db"
  by (simp add: catalog_ok_def)

lemma insertEndpoints_ok:
  assumes "catalog_ok db" and "insertEndpoints ns db = Inr (db', rows)" and "en_entryId ` set ns \<subseteq> ey_id ` set (ed_entries db)"
  shows "catalog_ok db'"
proof -
  have rows: "rows = numbered (ed_nextEndpoint db) ns"
    and db': "db' = db\<lparr>ed_endpoints := ed_endpoints db @ rows, ed_nextEndpoint := ed_nextEndpoint db + int (length ns)\<rparr>"
    and new: "distinct (map en_id ns)" "distinct (map row_key ns)" "\<forall>n\<in>set ns. en_id n \<notin> en_id ` set (ed_endpoints db) \<and>
      en_id n \<notin> set (ed_goneEndpoints db) \<and> row_key n \<notin> row_key ` set (ed_endpoints db)"
    using assms(2) by (auto simp: insertEndpoints_Inr)
  have "en_id ` set rows = en_id ` set ns" "row_key ` set rows = row_key ` set ns" "en_entryId ` set rows = en_entryId ` set ns"
    unfolding rows by (metis list.set_map numbered_keys)+
  note sets = this
  have d: "distinct (map en_id rows)" "distinct (map row_key rows)" using new by (simp_all add: rows)
  have apart: "en_id ` set ns \<inter> en_id ` set (ed_endpoints db) = {}" "en_id ` set ns \<inter> set (ed_goneEndpoints db) = {}"
    "row_key ` set ns \<inter> row_key ` set (ed_endpoints db) = {}" using new(3) by blast+
  have ok: "distinct (map ey_id (ed_entries db))" "distinct (map en_id (ed_endpoints db))" "distinct (map row_key (ed_endpoints db))"
    "ey_id ` set (ed_entries db) \<inter> set (ed_goneEntries db) = {}" "en_id ` set (ed_endpoints db) \<inter> set (ed_goneEndpoints db) = {}"
    "en_entryId ` set (ed_endpoints db) \<subseteq> ey_id ` set (ed_entries db)" using assms(1) by (auto simp: catalog_ok_def)
  have "distinct (map en_id (ed_endpoints db @ rows))" using ok(2) d(1) apart(1) sets(1) by (simp add: Int_commute)
  moreover have "distinct (map row_key (ed_endpoints db @ rows))" using ok(3) d(2) apart(3) sets(2) by (simp add: Int_commute)
  moreover have "en_id ` set (ed_endpoints db @ rows) \<inter> set (ed_goneEndpoints db) = {}"
    using ok(5) apart(2) sets(1) by (simp add: image_Un Int_Un_distrib2)
  moreover have "en_entryId ` set (ed_endpoints db @ rows) \<subseteq> ey_id ` set (ed_entries db)"
    using ok(6) assms(3) sets(3) by (simp add: image_Un)
  ultimately show ?thesis using ok(1,4) unfolding catalog_ok_def db' by simp
qed

lemma createMany_ok:
  assumes "catalog_ok db" and "createMany rg service ns ey opBy db = Inr (db', n)" and "ey \<in> set (ed_entries db)"
    and "\<And>x. x \<in> set ns \<Longrightarrow> en_entryId x = ey_id ey"
  shows "catalog_ok db'"
proof -
  from createMany_Inr [OF assms(2)] obtain a db1 rows where i: "insertEndpoints (map (with_async a) ns) db = Inr (db1, rows)"
    and db': "db' = publish (EndpointsChanged opBy (ey_id ey) (map (with_async a) ns) []) db1" by blast
  have "en_entryId ` set (map (with_async a) ns) \<subseteq> ey_id ` set (ed_entries db)" using assms(3,4) by auto
  from insertEndpoints_ok [OF assms(1) i this] show ?thesis by (simp add: db')
qed

lemma deleteEndpoint_ok:
  assumes "catalog_ok db" and "deleteEndpoint i opBy db = Inr (db', n)"
  shows "catalog_ok db'"
proof -
  obtain n1 where db': "db' = publish (EndpointsChanged opBy (en_entryId n1) [] [n1])
      (db\<lparr>ed_endpoints := filter (\<lambda>n. en_id n \<noteq> i) (ed_endpoints db), ed_goneEndpoints := i # ed_goneEndpoints db\<rparr>)"
    using assms(2) by (auto simp: deleteEndpoint_def split: option.splits)
  show ?thesis
    using assms(1) by (auto simp: catalog_ok_def db' distinct_map_filter)
qed

lemma replace_endpoint_ok:
  assumes "catalog_ok db" and "\<And>n. en_id n = i \<Longrightarrow> n \<in> set (ed_endpoints db) \<Longrightarrow> en_id (f n) = i \<and> en_entryId (f n) = en_entryId n"
    and "\<And>m n. m \<in> set (ed_endpoints db) \<Longrightarrow> n \<in> set (ed_endpoints db) \<Longrightarrow> en_id m \<noteq> i \<Longrightarrow> en_id n = i \<Longrightarrow> row_key m \<noteq> row_key (f n)"
  shows "catalog_ok (db\<lparr>ed_endpoints := map (\<lambda>n. if en_id n = i then f n else n) (ed_endpoints db)\<rparr>)"
proof -
  let ?g = "\<lambda>n. if en_id n = i then f n else n"
  have id: "en_id (?g n) = en_id n" "en_entryId (?g n) = en_entryId n" if "n \<in> set (ed_endpoints db)" for n using assms(2) that by auto
  have "inj_on en_id (set (ed_endpoints db))" and d: "distinct (map en_id (ed_endpoints db))"
    using assms(1) by (auto simp: catalog_ok_def distinct_map)
  then have one: "m = n" if "m \<in> set (ed_endpoints db)" "n \<in> set (ed_endpoints db)" "en_id m = i" "en_id n = i" for m n
    using that by (auto dest: inj_onD)
  have "distinct (map row_key (map ?g ns))" if "distinct (map row_key ns)" "distinct (map en_id ns)" "set ns \<subseteq> set (ed_endpoints db)" for ns
    using that
  proof (induction ns)
    case Nil
    then show ?case by simp
  next
    case (Cons x xs)
    have "row_key (?g x) \<noteq> row_key (?g y)" if y: "y \<in> set xs" for y
    proof -
      have "y \<in> set (ed_endpoints db)" "x \<in> set (ed_endpoints db)" "en_id y \<noteq> en_id x" "row_key y \<noteq> row_key x"
        using Cons.prems y by (auto simp: image_iff)
      then show ?thesis using assms(3) [of y x] assms(3) [of x y] by (auto dest: sym)
    qed
    then have "row_key (?g x) \<notin> (\<lambda>y. row_key (?g y)) ` set xs" by (rule_tac notI, elim imageE, blast)
    then show ?case using Cons by (simp add: image_image comp_def del: if_split)
  qed
  then have "distinct (map row_key (map ?g (ed_endpoints db)))" using assms(1) d by (simp add: catalog_ok_def)
  moreover have "map en_id (map ?g (ed_endpoints db)) = map en_id (ed_endpoints db)" using id(1) by simp
  moreover have "en_id ` set (map ?g (ed_endpoints db)) = en_id ` set (ed_endpoints db)"
    "en_entryId ` set (map ?g (ed_endpoints db)) = en_entryId ` set (ed_endpoints db)"
    using id by (simp_all only: set_map image_image) (simp_all cong: image_cong)
  ultimately show ?thesis using assms(1) by (simp add: catalog_ok_def del: map_map set_map list.set_map)
qed

lemma updateEndpoint_ok:
  assumes "catalog_ok db" and "updateEndpoint i meth path patch opBy db = Inr (db', u)"
    and "\<And>x. en_id (patch x) = en_id x \<and> en_entryId (patch x) = en_entryId x \<and> en_callgentId (patch x) = en_callgentId x"
  shows "catalog_ok db'"
proof (cases "i = []")
  case True
  with assms show ?thesis by (simp add: updateEndpoint_def)
next
  case False
  with assms(2) obtain m old where m: "meth = Some m" and old: "find (\<lambda>n. en_id n = i) (ed_endpoints db) = Some old"
    by (auto simp: updateEndpoint_def split: option.splits)
  define new where "new = updated_row m path patch old"
  have "storeUpdated i new old opBy db = Inr (db', u)" using assms(2) False m old by (simp add: updateEndpoint_def new_def)
  then have "\<not> (\<exists>n\<in>set (ed_endpoints db). en_id n \<noteq> i \<and> row_key n = row_key new)"
    and db': "db' = publish (EndpointsChanged opBy (en_entryId new) [new] [old])
      (db\<lparr>ed_endpoints := map (\<lambda>n. if en_id n = i then new else n) (ed_endpoints db)\<rparr>)"
    by (auto simp: storeUpdated_def split: if_splits)
  moreover have "en_id old = i" "old \<in> set (ed_endpoints db)" using old by (auto simp: find_Some_iff)
  moreover have "n = old" if "n \<in> set (ed_endpoints db)" "en_id n = i" for n
    using assms(1) that \<open>en_id old = i\<close> \<open>old \<in> set (ed_endpoints db)\<close> by (auto simp: catalog_ok_def distinct_map dest: inj_onD)
  moreover have "en_id new = en_id old" "en_entryId new = en_entryId old" using assms(3) by (simp_all add: new_def updated_row_def)
  ultimately have "catalog_ok (db\<lparr>ed_endpoints := map (\<lambda>n. if en_id n = i then new else n) (ed_endpoints db)\<rparr>)"
    by (intro replace_endpoint_ok [OF assms(1)]) blast+
  then show ?thesis by (simp only: db' publish_ok)
qed

lemma updateEndpointSecurities_ok:
  assumes "catalog_ok db" and "updateEndpointSecurities i secs db = Inr db'"
  shows "catalog_ok db'"
proof -
  have db': "db' = db\<lparr>ed_endpoints := map (\<lambda>n. if en_id n = i then n\<lparr>en_securities := secs\<rparr> else n) (ed_endpoints db)\<rparr>"
    using assms(2) by (auto simp: updateEndpointSecurities_def split: if_splits)
  have "row_key m \<noteq> row_key n" if "m \<in> set (ed_endpoints db)" "n \<in> set (ed_endpoints db)" "en_id m \<noteq> i" "en_id n = i" for m n
    using assms(1) that by (auto simp: catalog_ok_def distinct_map dest!: inj_onD)
  then show ?thesis unfolding db' by (intro replace_endpoint_ok [OF assms(1)]) (simp_all add: row_key_def)
qed

lemma catalog_step_ok: "catalog_step db db' \<Longrightarrow> catalog_ok db \<Longrightarrow> catalog_ok db'"
  by (erule catalog_stepE)
    (fast intro: createEntry_ok deleteEntry_ok updateEntry_ok createMany_ok deleteEndpoint_ok updateEndpoint_ok updateEndpointSecurities_ok)+

section \<open>Batches\<close>

lemma filter_unique: "distinct xs \<Longrightarrow> x \<in> set xs \<Longrightarrow> P x \<Longrightarrow> (\<And>y. y \<in> set xs \<Longrightarrow> P y \<Longrightarrow> y = x) \<Longrightarrow> filter P xs = [x]"
proof (induction xs)
  case Nil
  then show ?case by simp
next
  case (Cons a xs)
  show ?case
  proof (cases "a = x")
    case True
    have "\<not> P y" if "y \<in> set xs" for y using Cons.prems(1) Cons.prems(4) [of y] that True by auto
    then have "filter P xs = []" by (simp add: filter_empty_conv)
    then show ?thesis using True Cons.prems(3) by simp
  next
    case False
    then have "\<not> P a" using Cons.prems(4) [of a] by auto
    moreover have "filter P xs = [x]" using False Cons.prems by (intro Cons.IH) simp_all
    ultimately show ?thesis by simp
  qed
qed

lemma map_result_length: "map_result f xs = Inr ys \<Longrightarrow> length ys = length xs"
  by (simp add: map_result_Inr list_all2_lengthD)

definition api_key :: "string \<Rightarrow> entry_row \<Rightarrow> api \<Rightarrow> string \<times> string \<times> string \<times> string \<times> string \<times> string \<times> json" where
  "api_key fresh ey a = (fresh, formalApiName (ap_method a) (ap_path a), ap_path a, ap_method a, ey_callgentId ey, ey_id ey, ap_rawJson a)"

definition endpoint_key :: "endpoint_row \<Rightarrow> string \<times> string \<times> string \<times> string \<times> string \<times> string \<times> json" where
  "endpoint_key n = (en_id n, en_name n, en_path n, en_method n, en_callgentId n, en_entryId n, nr_rawJson n)"

definition alternatives :: "api_spec \<Rightarrow> api \<Rightarrow> nat" where
  "alternatives spec a = length (requirements_of (as_securities spec)) + length (requirements_of (ap_securities a))"

lemma endpoint_key_simps [simp]:
  "endpoint_key (with_async a n) = endpoint_key n" "endpoint_key (n\<lparr>nr_pk := k\<rparr>) = endpoint_key n"
  by (simp_all add: endpoint_key_def)

lemma batch_row_Inr:
  assumes "batch_row host realms ey general by fresh a = Inr n"
  shows "endpoint_key n = api_key fresh ey a \<and> length (en_securities n) = length (requirements_of general) + length (requirements_of (ap_securities a)) \<and>
    map_result (security_of host realms (entry.truncate ey)) (requirements_of general @ requirements_of (ap_securities a)) = Inr (en_securities n)"
proof -
  from assms obtain secs where secs: "map_result (security_of host realms (entry.truncate ey)) (requirements_of general @ requirements_of (ap_securities a)) = Inr secs"
    and n: "endpoint_key n = api_key fresh ey a" "en_securities n = secs"
    by (auto simp: batch_row_def endpoint_key_def api_key_def outcome_simps Let_def)
  from map_result_length [OF secs] secs n show ?thesis by simp
qed

lemma batch_rows_Inr:
  assumes "map_result (\<lambda>(i, a). batch_row host realms ey general by (fresh i) a) (enumerate k apis) = Inr ns"
  shows "map endpoint_key ns = map (\<lambda>(i, a). api_key (fresh i) ey a) (enumerate k apis) \<and>
    map (\<lambda>n. length (en_securities n)) ns = map (\<lambda>a. length (requirements_of general) + length (requirements_of (ap_securities a))) apis"
  using assms by (induction apis arbitrary: k ns) (fastforce simp: outcome_simps dest: batch_row_Inr)+

lemma createBatch_Inr:
  assumes "createBatch rg service host fresh ey spec by rdb db = Inr (rdb', db', n)"
  shows "ey_type ey = ET_SERVER \<and> (\<exists>realms ns. map_result (\<lambda>(i, a). batch_row host realms ey (as_securities spec) by (fresh i) a) (enumerate 0 (as_apis spec)) = Inr ns \<and>
    createMany rg service ns ey by db = Inr (db', n) \<and>
    (if truthy_opt (as_securitySchemes spec)
     then \<exists>schemes. obj_entries (the (as_securitySchemes spec)) = Inr schemes \<and>
            upsertAll host (entry.truncate ey) (server_urls (as_servers spec)) schemes rdb = Inr (rdb', realms)
     else rdb' = rdb \<and> realms = []))"
  using assms by (auto simp: createBatch_def outcome_simps split: if_splits)

lemma createMany_rows:
  assumes "createMany rg service ns ey by db = Inr (db', n)"
  shows "\<exists>rows. ed_endpoints db' = ed_endpoints db @ rows \<and> n = length ns \<and> map endpoint_key rows = map endpoint_key ns \<and>
    map en_securities rows = map en_securities ns"
proof -
  from createMany_Inr [OF assms] obtain a db1 rows where "insertEndpoints (map (with_async a) ns) db = Inr (db1, rows)"
    and "n = length ns" and "db' = publish (EndpointsChanged by (ey_id ey) (map (with_async a) ns) []) db1" by blast
  then have "ed_endpoints db' = ed_endpoints db @ numbered (ed_nextEndpoint db) (map (with_async a) ns)" "n = length ns"
    by (auto simp: insertEndpoints_Inr)
  moreover have "map endpoint_key (numbered k (map (with_async a) ns)) = map endpoint_key ns" for k
    by (subst numbered_map) (simp_all add: comp_def)
  moreover have "map en_securities (numbered k (map (with_async a) ns)) = map en_securities ns" for k
    by (subst numbered_map) (simp_all add: comp_def)
  ultimately show ?thesis by blast
qed

section \<open>Realms of a batch\<close>

lemma map_result_in: "map_result f xs = Inr ys \<Longrightarrow> y \<in> set ys \<Longrightarrow> \<exists>x\<in>set xs. f x = Inr y"
  by (induction xs arbitrary: ys) (auto simp: outcome_simps)

lemma constructRealm_keeps:
  "constructRealm aty host scheme rlm ey servers = Inr (s1, r) \<Longrightarrow>
     rm_callgentId r = rm_callgentId rlm \<and> rm_secret r = rm_secret rlm \<and> (rm_secret rlm = None \<longrightarrow> \<not> rm_enabled r)"
  by (auto simp: constructRealm_def checkEnabled_def outcome_simps Let_def)

lemma upsertLook_new:
  "upsertLook host ey scheme no_patch servers db = Inr (r, ex) \<Longrightarrow>
     \<not> rm_enabled r \<and> rm_callgentId r = ey_callgentId ey \<and>
     (case ex of None \<Rightarrow> find_by_key db (ey_callgentId ey) (rm_realmKey r) = None | Some x \<Rightarrow> x \<in> set (rd_realms db))"
  by (auto simp: upsertLook_def no_patch_def patched_realm_def find_by_key_def outcome_simps find_Some_iff Let_def
      dest!: constructRealm_keeps split: option.splits)

text \<open>What the writes of a batch preserve: primary keys stay stored, a realm that was written is disabled,
  and the secrets of the realms that existed before are kept.\<close>

definition off_in :: "int \<Rightarrow> realm_db \<Rightarrow> bool" where
  "off_in pk db \<longleftrightarrow> (\<exists>y\<in>set (rd_realms db). rm_pk y = pk \<and> \<not> rm_enabled y)"

definition secrets_kept :: "realm_db \<Rightarrow> realm_db \<Rightarrow> bool" where
  "secrets_kept db0 db \<longleftrightarrow> rd_nextPk db0 \<le> rd_nextPk db \<and> rm_pk ` set (rd_realms db0) \<subseteq> rm_pk ` set (rd_realms db) \<and>
     (\<forall>y\<in>set (rd_realms db). \<forall>x\<in>set (rd_realms db0). rm_pk y = rm_pk x \<longrightarrow> rm_secret y = rm_secret x)"

lemma replaceRealm_Inr:
  "replaceRealm rlm db = Inr (db', r) \<Longrightarrow> r = rlm \<and> db' = db\<lparr>rd_realms := map (\<lambda>r. if rm_pk r = rm_pk rlm then rlm else r) (rd_realms db)\<rparr>"
  by (auto simp: replaceRealm_def split: if_splits)

lemma insertRealm_Inr:
  "insertRealm rlm db = Inr (db', r) \<Longrightarrow> r = rlm\<lparr>rm_pk := rd_nextPk db\<rparr> \<and>
     db' = db\<lparr>rd_realms := rd_realms db @ [r], rd_nextPk := rd_nextPk db + 1\<rparr>"
  by (auto simp: insertRealm_def Let_def split: if_splits)

lemma upsertWrite_step:
  assumes "upsertWrite no_patch (r0, ex) db = Inr (db', r)" and "\<not> rm_enabled r0"
    and "\<And>x. ex = Some x \<Longrightarrow> x \<in> set (rd_realms db0)" and "realm_db_ok db0" and "secrets_kept db0 db"
  shows "off_in (rm_pk r) db' \<and> (off_in pk db \<longrightarrow> off_in pk db') \<and> secrets_kept db0 db'"
proof (cases ex)
  case None
  with assms(1) have r: "r = r0\<lparr>rm_realm := Some [], rm_pk := rd_nextPk db\<rparr>"
    and db': "db' = db\<lparr>rd_realms := rd_realms db @ [r], rd_nextPk := rd_nextPk db + 1\<rparr>"
    by (auto simp: upsertWrite_def no_patch_def dest!: insertRealm_Inr)
  have "rm_pk x \<noteq> rd_nextPk db" if "x \<in> set (rd_realms db0)" for x
    using assms(4,5) that by (auto simp: realm_db_ok_def secrets_kept_def list_all_iff)
  then show ?thesis using assms(2,5) r by (auto simp: off_in_def secrets_kept_def db')
next
  case (Some x)
  let ?r = "r0\<lparr>rm_pk := rm_pk x, rm_callgentId := rm_callgentId x, rm_realm := rm_realm x, rm_secret := rm_secret x\<rparr>"
  from Some assms(1) have r: "r = ?r" and db': "db' = db\<lparr>rd_realms := map (\<lambda>y. if rm_pk y = rm_pk ?r then ?r else y) (rd_realms db)\<rparr>"
    by (auto simp: upsertWrite_def no_patch_def dest!: replaceRealm_Inr)
  have x: "x \<in> set (rd_realms db0)" using assms(3) Some by simp
  then obtain y where y: "y \<in> set (rd_realms db)" "rm_pk y = rm_pk x" using assms(5) by (force simp: secrets_kept_def)
  have "?r \<in> set (rd_realms db')" using y by (force simp: db')
  then have "off_in (rm_pk r) db'" using assms(2) unfolding off_in_def r by (rule_tac bexI [of _ ?r]) simp_all
  moreover have "off_in pk db'" if off: "off_in pk db"
  proof -
    obtain z where z: "z \<in> set (rd_realms db)" "rm_pk z = pk" "\<not> rm_enabled z" using off by (auto simp: off_in_def)
    let ?z = "if rm_pk z = rm_pk ?r then ?r else z"
    have "?z \<in> set (rd_realms db')" using z(1) by (simp add: db')
    moreover have "rm_pk ?z = pk" "\<not> rm_enabled ?z" using z assms(2) by auto
    ultimately show ?thesis unfolding off_in_def by blast
  qed
  moreover have "rm_pk ` set (rd_realms db') = rm_pk ` set (rd_realms db)"
  proof -
    have "map rm_pk (rd_realms db') = map rm_pk (rd_realms db)" by (simp add: db')
    then show ?thesis by (metis list.set_map)
  qed
  moreover have "rm_secret z = rm_secret w" if "z \<in> set (rd_realms db')" "w \<in> set (rd_realms db0)" "rm_pk z = rm_pk w" for z w
  proof (cases "z = ?r")
    case True
    then have "w = x" using that(2,3) x assms(4) by (auto simp: realm_db_ok_def distinct_map dest: inj_onD)
    then show ?thesis using True by simp
  next
    case False
    then have "z \<in> set (rd_realms db)" using that(1) by (auto simp: db' split: if_splits)
    then show ?thesis using assms(5) that by (auto simp: secrets_kept_def)
  qed
  moreover have "rd_nextPk db' = rd_nextPk db" by (simp add: db')
  ultimately show ?thesis using assms(5) by (simp add: secrets_kept_def)
qed

lemma write_realms_off:
  assumes "write_realms founds db = Inr (db', m)" and "\<And>name r0 ex. (name, r0, ex) \<in> set founds \<Longrightarrow> \<not> rm_enabled r0 \<and> (\<forall>x. ex = Some x \<longrightarrow> x \<in> set (rd_realms db0))"
    and "realm_db_ok db0" and "secrets_kept db0 db"
  shows "(\<forall>(name, r)\<in>set m. off_in (rm_pk r) db') \<and> (\<forall>pk. off_in pk db \<longrightarrow> off_in pk db') \<and> secrets_kept db0 db'"
  using assms(1,2,4)
proof (induction founds arbitrary: db db' m)
  case Nil
  then show ?case by simp
next
  case (Cons f founds)
  obtain name r0 ex where f: "f = (name, r0, ex)" by (metis prod_cases3)
  from Cons.prems(1) obtain db1 r m1 where w: "upsertWrite no_patch (r0, ex) db = Inr (db1, r)"
    and rest: "write_realms founds db1 = Inr (db', m1)" and m: "m = (name, r) # m1" by (auto simp: f outcome_simps)
  have step: "off_in (rm_pk r) db1 \<and> (off_in pk db \<longrightarrow> off_in pk db1) \<and> secrets_kept db0 db1" for pk
    by (rule upsertWrite_step [OF w]) (use Cons.prems(2,3) assms(3) in \<open>auto simp: f\<close>)
  have "(\<forall>(name, r)\<in>set m1. off_in (rm_pk r) db') \<and> (\<forall>pk. off_in pk db1 \<longrightarrow> off_in pk db') \<and> secrets_kept db0 db'"
    by (rule Cons.IH [OF rest]) (use Cons.prems(2) step in auto)
  then show ?case using step by (auto simp: m)
qed

lemma upsertAll_off:
  assumes "upsertAll host ey servers schemes rdb = Inr (rdb', m)" and "realm_db_ok rdb"
  shows "(\<forall>(name, r)\<in>set m. off_in (rm_pk r) rdb') \<and> secrets_kept rdb rdb'"
proof -
  from assms(1) obtain founds where w: "write_realms founds rdb = Inr (rdb', m)"
    and f: "map_result (\<lambda>(name, j). and_then (upsertLook host ey (scheme_of_json j) no_patch servers rdb) (\<lambda>found. Inr (name, found))) schemes = Inr founds"
    by (auto simp: upsertAll_def outcome_simps)
  have "\<not> rm_enabled r0 \<and> (\<forall>x. ex = Some x \<longrightarrow> x \<in> set (rd_realms rdb))" if "(name, r0, ex) \<in> set founds" for name r0 ex
  proof -
    from map_result_in [OF f that] obtain j where "upsertLook host ey (scheme_of_json j) no_patch servers rdb = Inr (r0, ex)"
      by (auto simp: outcome_simps)
    then show ?thesis using upsertLook_new by fastforce
  qed
  moreover have "secrets_kept rdb rdb"
    using assms(2) by (auto simp: secrets_kept_def realm_db_ok_def distinct_map dest: inj_onD)
  ultimately show ?thesis using write_realms_off [OF w _ assms(2)] by blast
qed

lemma fold_items:
  "obj_get (fold (\<lambda>it m. obj_set (f it) it m) items m0) k = Some it \<Longrightarrow> it \<in> set items \<and> k = f it \<or> obj_get m0 k = Some it"
proof (induction items arbitrary: m0)
  case Nil
  then show ?case by simp
next
  case (Cons a items)
  then have "it \<in> set items \<and> k = f it \<or> obj_get (obj_set (f a) a m0) k = Some it"
    using Cons.IH [of "obj_set (f a) a m0"] by (simp del: obj_get_set)
  then show ?case by (auto split: if_splits)
qed

lemma security_of_items:
  assumes "security_of host realms ey sec = Inr m" and "obj_get m k = Some it"
  shows "k = show_int (si_realmPk it) \<and> (\<exists>name r. (name, r) \<in> set realms \<and> rm_pk r = si_realmPk it)"
proof -
  from assms(1) obtain items where i: "map_result (\<lambda>(name, scopes). case obj_get realms name of
         None \<Rightarrow> Inl (BadRequest (''Unknown security scheme name: '' @ name))
       | Some r \<Rightarrow> constructSecurity host r ey scopes) sec = Inr items"
    and m: "m = fold (\<lambda>it m. obj_set (show_int (si_realmPk it)) it m) items []"
    by (auto simp: security_of_def outcome_simps)
  from fold_items [of "\<lambda>it. show_int (si_realmPk it)" items "[]" k it] assms(2) have k: "k = show_int (si_realmPk it)" "it \<in> set items"
    by (simp_all add: m)
  from map_result_in [OF i k(2)] obtain name scopes r where "obj_get realms name = Some r" "constructSecurity host r ey scopes = Inr it"
    by (auto split: option.splits)
  then have "(name, r) \<in> set realms" "rm_pk r = si_realmPk it"
    by (auto simp: obj_get_def constructSecurity_def outcome_simps Let_def map_of_SomeD)
  then show ?thesis using k(1) by blast
qed

section \<open>Properties\<close>



lemma batch_rows_created:
  assumes "createBatch rg service host fresh ey spec by rdb db = Inr (rdb', db', n)"
  shows "ey_type ey = ET_SERVER \<and> n = length (as_apis spec) \<and> (\<exists>rows. ed_endpoints db' = ed_endpoints db @ rows \<and>
    map endpoint_key rows = map (\<lambda>(i, a). api_key (fresh i) ey a) (enumerate 0 (as_apis spec)) \<and>
    map (\<lambda>r. length (en_securities r)) rows = map (alternatives spec) (as_apis spec))"
proof -
  from createBatch_Inr [OF assms] obtain realms ns where t: "ey_type ey = ET_SERVER"
    and r: "map_result (\<lambda>(i, a). batch_row host realms ey (as_securities spec) by (fresh i) a) (enumerate 0 (as_apis spec)) = Inr ns"
    and m: "createMany rg service ns ey by db = Inr (db', n)" by blast
  from createMany_rows [OF m] obtain rows where "ed_endpoints db' = ed_endpoints db @ rows" "n = length ns"
    "map endpoint_key rows = map endpoint_key ns" "map en_securities rows = map en_securities ns" by blast
  moreover have "length ns = length (as_apis spec)" using map_result_length [OF r] by simp
  moreover have "map (\<lambda>r. length (en_securities r)) rows = map length (map en_securities rows)" by (simp add: comp_def)
  ultimately show ?thesis using t batch_rows_Inr [OF r] by (auto simp: alternatives_def comp_def)
qed


definition ex_api :: api where
  "ex_api = \<lparr>ap_path = ''/pets'', ap_method = ''GET'', ap_summary = [], ap_description = [],
     ap_securities = Some (JArr [JObj [(''key'', JArr [])]]), ap_servers = None, ap_parameters = None, ap_requestBody = None,
     ap_responses = None, ap_rawJson = JObj []\<rparr>"

definition ex_api_spec :: api_spec where
  "ex_api_spec = \<lparr>as_apis = [ex_api], as_securitySchemes = Some (JObj [(''key'', JObj [(''type'', JStr ''apiKey''), (''in'', JStr ''header''),
       (''name'', JStr ''x-key'')])]), as_servers = None, as_securities = Some (JArr [JObj []])\<rparr>"

definition ex_sep :: entry_row where
  "ex_sep = (new_entry ''cg'' ''restAPI'' None)\<lparr>ey_id := ''s1'', ey_type := ET_SERVER, ey_host := Some ''http://pets.io''\<rparr>"

definition ex_realms :: realm_db where
  "ex_realms = \<lparr>rd_realms = [], rd_nextPk = 7, rd_entries = [], rd_endpoints = []\<rparr>"

lemma ex_batch:
  assumes "ed_endpoints db = []" and "ed_goneEndpoints db = []"
  shows "\<exists>rdb' db'. createBatch ex_registry (builtin_service ''m'') (\<lambda>u. Some u) (\<lambda>_. ''n1'') ex_sep ex_api_spec None ex_realms db = Inr (rdb', db', 1)"
  using assms by (simp add: createBatch_def ex_sep_def ex_api_spec_def ex_api_def new_entry_def obj_entries_def upsertAll_def upsertLook_def
        upsertWrite_def insertRealm_def find_by_key_def scheme_of_json_def str_at_def json_at_def getAuthProcessor_def constructRealm_def
        implyProvider_def provider_url_def patched_realm_def no_patch_def ex_realms_def batch_row_def requirements_of_def strings_of_def
        security_of_def constructSecurity_def entry.truncate_def createMany_def insertEndpoints_def publish_def Let_def)


lemma imported_operation_found:
  assumes "createBatch rg service host fresh ey spec by rdb db = Inr (rdb', db', n)" and "catalog_ok db" and "ey \<in> set (ed_entries db)"
    and "a \<in> set (as_apis spec)" and "ev_ctx e = Some c" and "cx_callgentId c = ey_callgentId ey"
    and "cx_epName c = Some (formalApiName (ap_method a) (ap_path a))"
  shows "\<exists>r. r \<in> set (ed_endpoints db') \<and> en_path r = ap_path a \<and> en_method r = ap_method a \<and> en_entryId r = ey_id ey \<and>
    loadEndpoints db' e = Inr (upd_ctx (\<lambda>c. c\<lparr>cx_endpoints := [endpoint.truncate r]\<rparr>) e)"
proof -
  from batch_rows_created [OF assms(1)] obtain rows where rows: "ed_endpoints db' = ed_endpoints db @ rows"
    and keys: "map endpoint_key rows = map (\<lambda>(i, a). api_key (fresh i) ey a) (enumerate 0 (as_apis spec))" by blast
  from assms(4) obtain i where "(i, a) \<in> set (enumerate 0 (as_apis spec))"
    by (metis in_set_impl_in_set_zip2 enumerate_eq_zip length_upt add_0 diff_zero prod.exhaust)
  then have "api_key (fresh i) ey a \<in> set (map endpoint_key rows)" unfolding keys by force
  then obtain r where r: "r \<in> set rows" "endpoint_key r = api_key (fresh i) ey a" by auto
  have ok: "catalog_ok db'"
  proof -
    from createBatch_Inr [OF assms(1)] obtain realms ns
      where m: "map_result (\<lambda>(i, a). batch_row host realms ey (as_securities spec) by (fresh i) a) (enumerate 0 (as_apis spec)) = Inr ns"
        and c: "createMany rg service ns ey by db = Inr (db', n)" by blast
    have "en_entryId x = ey_id ey" if "x \<in> set ns" for x
    proof -
      have "endpoint_key x \<in> set (map endpoint_key ns)" using that by simp
      then show ?thesis unfolding batch_rows_Inr [OF m, THEN conjunct1] by (auto simp: endpoint_key_def api_key_def)
    qed
    then show ?thesis by (rule createMany_ok [OF assms(2) c assms(3)])
  qed
  let ?P = "\<lambda>n. en_callgentId n = cx_callgentId c \<and> (cx_epName c = None \<or> Some (en_name n) = cx_epName c)"
  have here: "r \<in> set (ed_endpoints db')" "?P r" using r rows assms(6,7) by (auto simp: endpoint_key_def api_key_def)
  have "n = r" if "n \<in> set (ed_endpoints db')" "?P n" for n
  proof -
    have "row_key n = row_key r" using that here assms(6,7) by (auto simp: row_key_def)
    then show ?thesis using ok here(1) that(1) by (auto simp: catalog_ok_def distinct_map dest: inj_onD)
  qed
  moreover have "distinct (ed_endpoints db')" using ok by (simp add: catalog_ok_def distinct_map)
  ultimately have "filter ?P (ed_endpoints db') = [r]"
    using here by (intro filter_unique) assumption+
  then have "callgentEndpoints (cx_callgentId c) (cx_epName c) db' = [endpoint.truncate r]"
    by (simp add: callgentEndpoints_def js_sort_def)
  then have "loadEndpoints db' e = Inr (upd_ctx (\<lambda>c. c\<lparr>cx_endpoints := [endpoint.truncate r]\<rparr>) e)"
    using assms(5) by (simp add: loadEndpoints_def ctx_of_def)
  then show ?thesis using here r(2) by (auto simp: endpoint_key_def api_key_def)
qed

text \<open>C29. An imported operation can be invoked: a request of the callgent that names its method and path
  loads exactly the endpoint the import created for it.\<close>

theorem imported_operation_loads:
  assumes "createBatch rg service host fresh ey spec by rdb db = Inr (rdb', db', n)" and "catalog_ok db" and "ey \<in> set (ed_entries db)"
    and "a \<in> set (as_apis spec)" and "ev_ctx e = Some c" and "cx_callgentId c = ey_callgentId ey"
    and "cx_epName c = Some (formalApiName (ap_method a) (ap_path a))"
  shows "\<exists>r. r \<in> set (ed_endpoints db') \<and> en_path r = ap_path a \<and> en_method r = ap_method a \<and> en_entryId r = ey_id ey \<and>
    loadEndpoints db' e = Inr (upd_ctx (\<lambda>c. c\<lparr>cx_endpoints := [endpoint.truncate r]\<rparr>) e)"
  by (rule imported_operation_found [OF assms])

definition ex_call_of :: "string option \<Rightarrow> req_event" where
  "ex_call_of name = (ex_call JNull)\<lparr>ev_ctx := Some (ex_ctx\<lparr>cx_callgentId := ''cg'', cx_epName := name\<rparr>)\<rparr>"

theorem imported_operation_loads_witness:
  "\<exists>rdb' db' r. createBatch ex_registry (builtin_service ''m'') (\<lambda>u. Some u) (\<lambda>_. ''n1'') ex_sep ex_api_spec None ex_realms (ex_db\<lparr>ed_entries := [ex_sep]\<rparr>) = Inr (rdb', db', 1) \<and>
     r \<in> set (ed_endpoints db') \<and> en_path r = ''/pets'' \<and>
     loadEndpoints db' (ex_call_of (Some (formalApiName ''GET'' ''/pets''))) = Inr (upd_ctx (\<lambda>c. c\<lparr>cx_endpoints := [endpoint.truncate r]\<rparr>) (ex_call_of (Some (formalApiName ''GET'' ''/pets''))))"
proof -
  let ?db = "ex_db\<lparr>ed_entries := [ex_sep]\<rparr>"
  obtain rdb' db' where b: "createBatch ex_registry (builtin_service ''m'') (\<lambda>u. Some u) (\<lambda>_. ''n1'') ex_sep ex_api_spec None ex_realms ?db = Inr (rdb', db', 1)"
    using ex_batch [of ?db] by (auto simp: ex_db_def)
  have ok: "catalog_ok ?db" "ex_sep \<in> set (ed_entries ?db)" by (simp_all add: catalog_ok_def ex_db_def)
  have a: "ex_api \<in> set (as_apis ex_api_spec)" by (simp add: ex_api_spec_def)
  have c: "ev_ctx (ex_call_of (Some (formalApiName ''GET'' ''/pets''))) = Some (ex_ctx\<lparr>cx_callgentId := ''cg'', cx_epName := Some (formalApiName ''GET'' ''/pets'')\<rparr>)"
    by (simp add: ex_call_of_def)
  from imported_operation_loads [OF b ok a c] b show ?thesis
    by (auto simp: ex_sep_def new_entry_def ex_api_def)
qed

text \<open>C30. Every security of an imported endpoint names a stored realm by its primary key, and that realm is
  disabled after the import: also a realm that was in use before, whose secret is kept, so that
  importing a description again takes the callgent's endpoints out of service.\<close>

theorem import_disables_realms:
  assumes "createBatch rg service host fresh ey spec by rdb db = Inr (rdb', db', n)" and "realm_db_ok rdb"
  shows "(\<exists>rows. ed_endpoints db' = ed_endpoints db @ rows \<and>
    (\<forall>r\<in>set rows. \<forall>sec\<in>set (en_securities r). \<forall>k it. obj_get sec k = Some it \<longrightarrow>
       k = show_int (si_realmPk it) \<and> (\<exists>y\<in>set (rd_realms rdb'). rm_pk y = si_realmPk it \<and> \<not> rm_enabled y))) \<and>
    (\<forall>y\<in>set (rd_realms rdb'). \<forall>x\<in>set (rd_realms rdb). rm_pk y = rm_pk x \<longrightarrow> rm_secret y = rm_secret x)"
proof -
  from createBatch_Inr [OF assms(1)] obtain realms ns
    where m: "map_result (\<lambda>(i, a). batch_row host realms ey (as_securities spec) by (fresh i) a) (enumerate 0 (as_apis spec)) = Inr ns"
      and c: "createMany rg service ns ey by db = Inr (db', n)"
      and u: "if truthy_opt (as_securitySchemes spec)
        then \<exists>schemes. obj_entries (the (as_securitySchemes spec)) = Inr schemes \<and>
            upsertAll host (entry.truncate ey) (server_urls (as_servers spec)) schemes rdb = Inr (rdb', realms)
        else rdb' = rdb \<and> realms = []" by blast
  have off: "(\<forall>(name, r)\<in>set realms. off_in (rm_pk r) rdb') \<and> secrets_kept rdb rdb'"
  proof (cases "truthy_opt (as_securitySchemes spec)")
    case True
    then obtain schemes where "upsertAll host (entry.truncate ey) (server_urls (as_servers spec)) schemes rdb = Inr (rdb', realms)"
      using u by auto
    then show ?thesis by (rule upsertAll_off [OF _ assms(2)])
  next
    case False
    then show ?thesis using u assms(2) by (auto simp: secrets_kept_def realm_db_ok_def distinct_map dest: inj_onD)
  qed
  from createMany_rows [OF c] obtain rows where rows: "ed_endpoints db' = ed_endpoints db @ rows"
    and secs: "map en_securities rows = map en_securities ns" by blast
  have "k = show_int (si_realmPk it) \<and> (\<exists>y\<in>set (rd_realms rdb'). rm_pk y = si_realmPk it \<and> \<not> rm_enabled y)"
    if "r \<in> set rows" "sec \<in> set (en_securities r)" "obj_get sec k = Some it" for r sec k it
  proof -
    from that(1) secs obtain x where x: "x \<in> set ns" "en_securities x = en_securities r" by (metis (no_types, lifting) imageE image_eqI list.set_map)
    from map_result_in [OF m x(1)] obtain i a where "batch_row host realms ey (as_securities spec) by (fresh i) a = Inr x" by auto
    from batch_row_Inr [OF this] that(2) x(2) map_result_in obtain req
      where "security_of host realms (entry.truncate ey) req = Inr sec" by metis
    from security_of_items [OF this that(3)] off show ?thesis by (force simp: off_in_def)
  qed
  then show ?thesis using rows off by (auto simp: secrets_kept_def)
qed

definition used_realm :: realm where
  "used_realm = \<lparr>rm_pk = 7, rm_callgentId = ''cg'', rm_realmKey = ''apiKey:header:x-key:http://pets.io:'', rm_authType = AT_apiKey, rm_realm = Some [],
     rm_scheme = \<lparr>sc_type = AT_apiKey, sc_perUser = False, sc_provider = Some ''http://pets.io'', sc_validationUrl = None, sc_name = Some ''x-key'',
       sc_in = Some ''header'', sc_scheme = None\<rparr>, rm_secret = Some (JStr ''s3cret''), rm_perUser = False, rm_enabled = True\<rparr>"

theorem import_disables_realms_witness:
  "\<exists>rdb' db'. createBatch ex_registry (builtin_service ''m'') (\<lambda>u. Some u) (\<lambda>_. ''n1'') ex_sep ex_api_spec None
       (ex_realms\<lparr>rd_realms := [used_realm], rd_nextPk := 8\<rparr>) ex_db = Inr (rdb', db', 1) \<and>
     map rm_pk (rd_realms rdb') = [7] \<and> map rm_enabled (rd_realms rdb') = [False] \<and>
     (\<forall>y\<in>set (rd_realms rdb'). rm_secret y = Some (JStr ''s3cret''))"
proof -
  let ?rdb = "ex_realms\<lparr>rd_realms := [used_realm], rd_nextPk := 8\<rparr>"
  obtain rdb' db' where b: "createBatch ex_registry (builtin_service ''m'') (\<lambda>u. Some u) (\<lambda>_. ''n1'') ex_sep ex_api_spec None ?rdb ex_db = Inr (rdb', db', 1)"
    and r: "map rm_pk (rd_realms rdb') = [7]" "map rm_enabled (rd_realms rdb') = [False]"
    by (simp add: createBatch_def ex_sep_def ex_api_spec_def ex_api_def new_entry_def obj_entries_def upsertAll_def upsertLook_def
        upsertWrite_def replaceRealm_def insertRealm_def find_by_key_def scheme_of_json_def str_at_def json_at_def getAuthProcessor_def constructRealm_def
        implyProvider_def provider_url_def patched_realm_def no_patch_def ex_realms_def batch_row_def requirements_of_def strings_of_def
        security_of_def constructSecurity_def entry.truncate_def createMany_def insertEndpoints_def publish_def Let_def used_realm_def
        getRealmKey_def checkEnabled_def ex_db_def)
  have "realm_db_ok ?rdb" by (simp add: realm_db_ok_def used_realm_def)
  from import_disables_realms [OF b this] r b show ?thesis by (auto simp: used_realm_def)
qed

text \<open>A description whose first general requirement is the empty one, which makes authentication
  optional, yields endpoints that cannot be invoked: the check of their securities always ends in
  the \<open>TypeError\<close> of reading the first item of an empty security.\<close>

theorem optional_security_breaks:
  assumes "createBatch rg service host fresh ey spec by rdb db = Inr (rdb', db', n)" and "requirements_of (as_securities spec) = [] # others"
    and "r \<in> set (ed_endpoints db')" and "r \<notin> set (ed_endpoints db)"
  shows "snd (checkSepAuth env (endpoint.truncate r) e) = Inl undefined_property"
proof -
  from createBatch_Inr [OF assms(1)] obtain realms ns
    where m: "map_result (\<lambda>(i, a). batch_row host realms ey (as_securities spec) by (fresh i) a) (enumerate 0 (as_apis spec)) = Inr ns"
      and c: "createMany rg service ns ey by db = Inr (db', n)" by blast
  from createMany_rows [OF c] assms(3,4) obtain rows where "r \<in> set rows" and secs: "map en_securities rows = map en_securities ns" by auto
  then obtain x where x: "x \<in> set ns" "en_securities x = en_securities r" by (metis (no_types, lifting) imageE image_eqI list.set_map)
  from map_result_in [OF m x(1)] obtain i a where "batch_row host realms ey (as_securities spec) by (fresh i) a = Inr x" by auto
  from batch_row_Inr [OF this] x(2) assms(2) obtain rest where "en_securities r = [] # rest"
    by (auto simp: security_of_def outcome_simps dest: sym)
  moreover have "en_securities (endpoint.truncate r) = en_securities r" by (simp add: endpoint.truncate_def)
  ultimately show ?thesis
    by (simp add: checkSepAuth_def checkSecurities_def checkSecurity_def first_item_def)
qed

theorem optional_security_breaks_witness:
  "\<exists>rdb' db' r. createBatch ex_registry (builtin_service ''m'') (\<lambda>u. Some u) (\<lambda>_. ''n1'') ex_sep ex_api_spec None ex_realms ex_db = Inr (rdb', db', 1) \<and>
     ed_endpoints db' = [r] \<and> snd (checkSepAuth (ex_realm_env (rd_realms rdb')) (endpoint.truncate r) (ex_call JNull)) = Inl undefined_property"
proof -
  obtain rdb' db' where b: "createBatch ex_registry (builtin_service ''m'') (\<lambda>u. Some u) (\<lambda>_. ''n1'') ex_sep ex_api_spec None ex_realms ex_db = Inr (rdb', db', 1)"
    using ex_batch [of ex_db] by (auto simp: ex_db_def)
  have req: "requirements_of (as_securities ex_api_spec) = [] # []" by (simp add: ex_api_spec_def requirements_of_def)
  from createBatch_Inr [OF b] obtain ns where c: "createMany ex_registry (builtin_service ''m'') ns ex_sep None ex_db = Inr (db', 1)" by blast
  from createMany_rows [OF c] obtain rows where "ed_endpoints db' = rows" "length rows = 1"
    by (metis append_Nil ex_db_def entry_db.select_convs(2) length_map)
  then obtain r where r: "ed_endpoints db' = [r]" by (auto simp: length_Suc_conv)
  have "r \<in> set (ed_endpoints db')" "r \<notin> set (ed_endpoints ex_db)" by (simp_all add: r ex_db_def)
  from optional_security_breaks [OF b req this] b r show ?thesis by blast
qed

text \<open>Two schemes of one description that come to the same realm key make the whole import fail: both
  look before either writes, so the second insertion violates the unique index.\<close>

theorem same_key_schemes_conflict:
  assumes "upsertLook host ey (scheme_of_json j1) no_patch servers rdb = Inr (r1, None)"
    and "upsertLook host ey (scheme_of_json j2) no_patch servers rdb = Inr (r2, None)" and "rm_realmKey r1 = rm_realmKey r2"
  shows "upsertAll host ey servers [(n1, j1), (n2, j2)] rdb = Inl unique_violation"
proof -
  note l = upsertLook_new [OF assms(1)] upsertLook_new [OF assms(2)]
  have "find_by_key (rdb\<lparr>rd_realms := rd_realms rdb @ [r1\<lparr>rm_realm := Some [], rm_pk := rd_nextPk rdb\<rparr>], rd_nextPk := rd_nextPk rdb + 1\<rparr>)
      (ey_callgentId ey) (rm_realmKey r1) \<noteq> None"
    using l by (auto simp: find_by_key_def find_app split: option.splits)
  then show ?thesis using assms l by (simp add: upsertAll_def upsertWrite_def insertRealm_def no_patch_def Let_def)
qed

end
