(* ===== verification/RestApi.thy ===== *)
theory RestApi
  imports Endpoints EventListeners "HOL-Library.List_Lexorder" "HOL-Library.Char_ord"
begin

text \<open>
  \<open>src/entries/adaptors/builtin/restapi\<close>: the REST controller, which turns an HTTP request into an
  event, runs it through the listeners and answers with what became of it, and the REST adaptor,
  which forwards the request to the server of an endpoint. The HTTP client is a parameter.
\<close>

section \<open>The adaptor\<close>

text \<open>\<open>indexOf\<close> from a position and \<open>substr\<close>: a negative start counts from the end.\<close>

definition char_index :: "char \<Rightarrow> string \<Rightarrow> nat \<Rightarrow> int" where
  "char_index c s start = (case cut_at c (drop start s) of None \<Rightarrow> - 1 | Some (p, _) \<Rightarrow> int (start + length p))"

definition substr :: "string \<Rightarrow> int \<Rightarrow> string" where
  "substr s i = (if 0 \<le> i then drop (nat i) s else drop (length s - nat (- i)) s)"

definition invoke_path :: string where
  "invoke_path = ''/rest/invoke/''"

definition resource_url :: "string \<Rightarrow> string result" where
  "resource_url url0 =
     (case find_sub invoke_path url0 of
        None \<Rightarrow> Inl (PlainError ''Unsupported URL, should be /rest/invoke/:callgentId/:entry/*'')
      | Some i \<Rightarrow>
          (let j = char_index (CHR ''/'') url0 (i + 13); k = char_index (CHR ''/'') url0 (nat (j + 1))
           in Inr (substr url0 k)))"

text \<open>The headers: sorted by key, in lower case, without those for the platform. A key that is not in
  lower case is looked up under a name it is not stored under, and its value is lost.\<close>

definition callgent_prefix :: string where
  "callgent_prefix = ''x-callgent-''"

fun forwarded :: "json obj \<Rightarrow> string list \<Rightarrow> json obj \<Rightarrow> json obj" where
  "forwarded raw [] hs = hs"
| "forwarded raw (k # ks) hs =
     (let key = to_lower k
      in forwarded raw ks (if prefix callgent_prefix key then hs
           else (case obj_get raw key of None \<Rightarrow> hs | Some v \<Rightarrow> obj_set key v hs)))"

definition forward_headers :: "json obj \<Rightarrow> json obj" where
  "forward_headers raw = forwarded raw (sort (obj_keys raw)) []"

definition present :: "(string \<times> json option) list \<Rightarrow> json" where
  "present kvs = JObj (List.map_filter (\<lambda>(k, v). map_option (Pair k) v) kvs)"

definition req2Json :: "json \<Rightarrow> json result" where
  "req2Json req =
     (if \<not> truthy_opt (json_at ''method'' req) then Inr req
      else (case json_at ''url'' req of
              Some (JStr url0) \<Rightarrow>
                and_then (resource_url url0) (\<lambda>url.
                and_then (case json_at ''headers'' req of
                            None \<Rightarrow> Inl (TypeError ''Cannot convert undefined or null to object'')
                          | Some h \<Rightarrow> obj_entries h) (\<lambda>raw.
                  Inr (present [(''url'', Some (JStr url)), (''method'', json_at ''method'' req),
                         (''headers'', Some (JObj (forward_headers raw))),
                         (''params'', json_at ''query'' req), (''data'', json_at ''body'' req)])))
            | _ \<Rightarrow> Inl (TypeError ''Cannot read properties of undefined (reading indexOf)'')))"

definition preprocess :: "req_event \<Rightarrow> req_event result" where
  "preprocess e =
     and_then (ctx_of e) (\<lambda>c.
       if \<not> truthy (cx_req c) then Inl (BadRequest (''Missing request object for ClientRequestEvent#'' @ ev_id e))
       else and_then (req2Json (cx_req c)) (\<lambda>j. Inr (upd_ctx (\<lambda>c. c\<lparr>cx_req := j\<rparr>) e)))"

text \<open>The configuration of the HTTP client: \<open>undefined\<close> headers are not sent.\<close>

definition drop_hop :: "json obj \<Rightarrow> json obj" where
  "drop_hop hs = obj_del ''content-length'' (obj_del ''host'' hs)"

definition axios_config :: "json \<Rightarrow> string option \<Rightarrow> bool \<Rightarrow> json result" where
  "axios_config req host withSecurity =
     (if req = JNull then Inl (TypeError ''Cannot read properties of null (reading headers)'')
      else and_then (obj_entries req) (\<lambda>kvs.
           and_then (case json_at ''headers'' req of None \<Rightarrow> Inr [] | Some JNull \<Rightarrow> Inr [] | Some h \<Rightarrow> obj_entries h) (\<lambda>hs.
             Inr (JObj (obj_set ''withCredentials'' (JBool withSecurity)
                    ((case host of None \<Rightarrow> obj_del ''baseURL'' | Some h \<Rightarrow> obj_set ''baseURL'' (JStr h))
                       (obj_set ''headers'' (JObj (drop_hop hs)) kvs)))))))"

record axios_response =
  ax_data :: "json option"
  ax_headers :: "(string \<times> json) list"
  ax_status :: int
  ax_statusText :: string

definition resp2json :: "axios_response \<Rightarrow> json" where
  "resp2json r =
     present [(''data'', ax_data r),
       (''headers'', Some (JObj (fold (\<lambda>(n, v) hs. if to_lower n = ''content-length'' then hs else obj_set (to_lower n) v hs) (ax_headers r) []))),
       (''status'', Some (JNum (of_int (ax_status r)))), (''statusText'', Some (JStr (ax_statusText r)))]"

definition restInvoke :: "(json \<Rightarrow> axios_response result) \<Rightarrow> string option \<Rightarrow> req_event \<Rightarrow> json result" where
  "restInvoke client host e =
     and_then (ctx_of e) (\<lambda>c.
     and_then (axios_config (cx_req c) host (cx_securityItem c \<noteq> None)) (\<lambda>config.
     and_then (client config) (\<lambda>r. Inr (resp2json r))))"

section \<open>The controller\<close>

text \<open>The callgent as \<open>_load\<close> selects it: its creator is not among the selected fields.\<close>

record callgent_view =
  cv_id :: string
  cv_name :: string
  cv_createdBy :: "string option"

definition select_view :: "callgent_view \<Rightarrow> callgent_view" where
  "select_view c = c\<lparr>cv_createdBy := None\<rparr>"

definition load :: "entry_db \<Rightarrow> (string \<Rightarrow> callgent_view option) \<Rightarrow> string \<Rightarrow> string option \<Rightarrow> int option \<Rightarrow>
    ((entry_row \<times> callgent_view) result) \<times> int option" where
  "load db callgents callgentId entryId tenant =
     (case findFirstSettingTenant ET_CLIENT callgentId ''restAPI'' entryId db tenant of
        (None, t) \<Rightarrow> (Inl (NotFound (''`restAPI` Client Entry not found for callgent: '' @ callgentId)), t)
      | (Some y, _) \<Rightarrow>
          (case callgents callgentId of
             None \<Rightarrow> (Inl (NotFound (''callgent not found: '' @ callgentId)), Some (er_tenantPk y))
           | Some c \<Rightarrow> (Inr (y, select_view c), Some (er_tenantPk y))))"

text \<open>The name of the requested endpoint: everything behind the entry in the URL, the query included.\<close>

definition requested_name :: "string \<Rightarrow> string \<Rightarrow> string \<Rightarrow> string option \<Rightarrow> string" where
  "requested_name url meth callgentId entryId =
     (let base = ''invoke/'' @ callgentId @ ''/'' @ (case entryId of None \<Rightarrow> ''undefined'' | Some i \<Rightarrow> i) @ ''/'';
          i = (case find_sub base url of None \<Rightarrow> - 1 | Some i \<Rightarrow> int i);
          epName = substr url (i + int (length base))
      in if epName = [] then [] else formalApiName meth (''/'' @ epName))"

datatype rest_body =
    RB_data json
  | RB_status "json option" "json option"
  | RB_event "req_event" "int option" "string option"

record http_answer =
  ha_status :: "json option"
  ha_headers :: "json obj"
  ha_body :: rest_body

definition rest_status :: "int option \<Rightarrow> int" where
  "rest_status s =
     (case s of
        None \<Rightarrow> 200
      | Some n \<Rightarrow> if n = 0 then 200 else if n < 0 then 418 else if n < 200 then 202 else n)"

definition merge_headers :: "json option \<Rightarrow> json obj \<Rightarrow> json obj" where
  "merge_headers h hs = (case h of Some (JObj kvs) \<Rightarrow> fold (\<lambda>(k, v). obj_set k v) kvs hs | _ \<Rightarrow> hs)"

text \<open>\<open>reqId\<close> and \<open>taskId\<close> are read of the event, which is \<open>undefined\<close> where a URL callback was due, and
  \<open>context\<close> of an event without one throws too. With \<open>verbose\<close> the status and the message go into headers.\<close>

definition event_headers :: "bool \<Rightarrow> req_event \<Rightarrow> json obj" where
  "event_headers verbose e =
     [(''x-callgent-reqId'', JStr (ev_id e)), (''x-callgent-taskId'', JStr (taskId e))] @
     (if verbose then
        (case statusCode e of Some n \<Rightarrow> if n = 0 then [] else [(''x-callgent-status'', JNum (of_int n))] | None \<Rightarrow> []) @
        (if nonempty_str (message e) then [(''x-callgent-message'', JStr (the (message e)))] else [])
      else [])"

definition answer :: "bool \<Rightarrow> req_event option \<Rightarrow> http_answer result" where
  "answer verbose data =
     (case data of
        None \<Rightarrow> Inl (TypeError ''Cannot read properties of undefined (reading id)'')
      | Some e \<Rightarrow>
          (case ev_ctx e of
             None \<Rightarrow> Inl (TypeError ''Cannot read properties of undefined (reading resp)'')
           | Some c \<Rightarrow>
               (if truthy_opt (cx_resp c) then
                  (let resp = the (cx_resp c); d = json_at ''data'' resp; s = json_at ''status'' resp
                   in Inr \<lparr>ha_status = s, ha_headers = merge_headers (json_at ''headers'' resp) (event_headers verbose e),
                           ha_body = (if truthy_opt d then RB_data (the d) else RB_status s (json_at ''statusText'' resp))\<rparr>)
                else Inr \<lparr>ha_status = Some (JNum (of_int (rest_status (statusCode e)))), ha_headers = event_headers verbose e,
                          ha_body = RB_event (e\<lparr>statusCode := None, message := None\<rparr>) (statusCode e) (message e)\<rparr>)))"

record rest_request =
  rq_url :: string
  rq_method :: string
  rq_raw :: json
  rq_user :: "string option"
  rq_callback :: "string option"
  rq_timeout :: "string option"

definition or_else :: "string option \<Rightarrow> string option \<Rightarrow> string option" where
  "or_else a b = (if nonempty_str a then a else b)"

definition invoke_event :: "string \<Rightarrow> string \<Rightarrow> entry_row \<Rightarrow> callgent_view \<Rightarrow> string \<Rightarrow> string option \<Rightarrow> rest_request \<Rightarrow> req_event" where
  "invoke_event today eid y c callgentId entryId rq =
     (let name = requested_name (rq_url rq) (rq_method rq) callgentId entryId
      in clientRequestEvent today eid (ey_id y) (er_adaptorKey y) None (''Invoke: '' @ name) (or_else (rq_user rq) (cv_createdBy c)) (rq_user rq)
           \<lparr>cx_callgentId = callgentId, cx_callgentName = cv_name c, cx_callerId = rq_user rq, cx_epName = Some name, cx_req = rq_raw rq,
            cx_resp = None, cx_map2 = None, cx_endpoints = [], cx_invocations = [], cx_retries = 0, cx_security = None, cx_securityItem = None\<rparr>
           (rq_callback rq))"

definition sync_timeout :: "string option \<Rightarrow> nat" where
  "sync_timeout t = (case t of None \<Rightarrow> 0 | Some s \<Rightarrow> (case parse_int s of None \<Rightarrow> 0 | Some n \<Rightarrow> nat n))"

definition rest_invoke :: "entry_db \<Rightarrow> (string \<Rightarrow> callgent_view option) \<Rightarrow> (req_ctx, 'w) EventListeners.registry \<Rightarrow> listener list \<Rightarrow>
    string \<Rightarrow> string \<Rightarrow> string \<Rightarrow> string option \<Rightarrow> int option \<Rightarrow> bool \<Rightarrow> rest_request \<Rightarrow> (req_ctx, 'w) app \<Rightarrow> (req_ctx, 'w) app \<times> http_answer result" where
  "rest_invoke db callgents services listeners today eid callgentId entryId tenant late rq w =
     (case fst (load db callgents callgentId entryId tenant) of
        Inl err \<Rightarrow> (w, Inl err)
      | Inr (y, c) \<Rightarrow>
          (case emit services listeners (invoke_event today eid y c callgentId entryId rq) (sync_timeout (rq_timeout rq)) late w of
             (w1, Inl err) \<Rightarrow> (w1, Inl err)
           | (w1, Inr data) \<Rightarrow> (w1, answer True data)))"

text \<open>\<open>request\<close>: a requirement in natural language, with uploaded files; the directory of a task id
  from the caller may be no path. The caller gives the task id.\<close>

definition request_event :: "string \<Rightarrow> string \<Rightarrow> entry_row \<Rightarrow> callgent_view \<Rightarrow> string \<Rightarrow> string option \<Rightarrow> string option \<Rightarrow> string \<Rightarrow> json \<Rightarrow> req_event" where
  "request_event today eid y c callgentId task user requirement req =
     clientRequestEvent today eid (ey_id y) (er_adaptorKey y) task (''Request: '' @ map char_of (Utils.truncate (map of_char requirement) 120))
       (or_else user (cv_createdBy c)) user
       \<lparr>cx_callgentId = callgentId, cx_callgentName = cv_name c, cx_callerId = user, cx_epName = None, cx_req = req,
        cx_resp = None, cx_map2 = None, cx_endpoints = [], cx_invocations = [], cx_retries = 0, cx_security = None, cx_securityItem = None\<rparr>
       None"

definition with_files :: "json option \<Rightarrow> json \<Rightarrow> json" where
  "with_files files req = (case req of JObj kvs \<Rightarrow> JObj (case files of None \<Rightarrow> obj_del ''files'' kvs | Some f \<Rightarrow> obj_set ''files'' f kvs) | _ \<Rightarrow> req)"

definition rest_request_run :: "entry_db \<Rightarrow> (string \<Rightarrow> callgent_view option) \<Rightarrow> (req_ctx, 'w) EventListeners.registry \<Rightarrow> listener list \<Rightarrow>
    (path \<Rightarrow> json option result) \<Rightarrow> string \<Rightarrow> string \<Rightarrow> string \<Rightarrow> string \<Rightarrow> string option \<Rightarrow> int option \<Rightarrow> string option \<Rightarrow> string option \<Rightarrow> string \<Rightarrow> json \<Rightarrow>
    (req_ctx, 'w) app \<Rightarrow> (req_ctx, 'w) app \<times> http_answer result" where
  "rest_request_run db callgents services listeners move upload today eid callgentId entryId tenant task user requirement req w =
     (case fst (load db callgents callgentId entryId tenant) of
        Inl err \<Rightarrow> (w, Inl err)
      | Inr (y, c) \<Rightarrow>
          (let e = request_event today eid y c callgentId task user requirement req
           in case and_then (getTaskCwd upload (taskId e)) (\<lambda>dir. move (fst dir, snd dir @ [''upload''])) of
                Inl err \<Rightarrow> (w, Inl err)
              | Inr files \<Rightarrow>
                  (case emit services listeners (upd_ctx (\<lambda>c. c\<lparr>cx_req := with_files files req\<rparr>) e) 0 False w of
                     (w1, Inl err) \<Rightarrow> (w1, Inl err)
                   | (w1, Inr data) \<Rightarrow> (w1, answer False data))))"

section \<open>Facts\<close>

lemma forwarded_get:
  assumes "\<And>k. k \<in> set ks \<Longrightarrow> to_lower k = k"
  shows "obj_get (forwarded raw ks hs) k =
    (if k \<in> set ks \<and> \<not> prefix callgent_prefix k \<and> obj_get raw k \<noteq> None then obj_get raw k else obj_get hs k)"
  using assms
proof (induction ks arbitrary: hs)
  case Nil
  then show ?case by simp
next
  case (Cons a ks)
  have a: "to_lower a = a" using Cons.prems by simp
  have IH: "obj_get (forwarded raw ks hs') k =
    (if k \<in> set ks \<and> \<not> prefix callgent_prefix k \<and> obj_get raw k \<noteq> None then obj_get raw k else obj_get hs' k)" for hs'
    by (rule Cons.IH) (use Cons.prems in simp)
  show ?case by (cases "prefix callgent_prefix a"; cases "obj_get raw a") (auto simp: a IH Let_def)
qed

lemma forward_headers_get:
  assumes "list_all (\<lambda>k. to_lower k = k) (obj_keys raw)"
  shows "obj_get (forward_headers raw) k = (if prefix callgent_prefix k then None else obj_get raw k)"
proof -
  have "obj_get (forwarded raw (sort (obj_keys raw)) []) k =
      (if k \<in> set (sort (obj_keys raw)) \<and> \<not> prefix callgent_prefix k \<and> obj_get raw k \<noteq> None then obj_get raw k else obj_get [] k)"
    by (rule forwarded_get) (use assms in \<open>simp add: list_all_iff\<close>)
  then show ?thesis by (auto simp: forward_headers_def set_obj_keys)
qed

lemma find_invoke_path: "find_sub (''invoke/'' @ s) (''/api/rest/invoke/'' @ s @ t) = Some 10"
  by simp

lemma find_rest_invoke: "find_sub invoke_path (''/api/rest/invoke/'' @ s) = Some 4"
  by (simp add: invoke_path_def)

lemma drop_app: "length p = n \<Longrightarrow> drop n (p @ s) = s"
  by simp

lemma char_index_app: "c \<notin> set p \<Longrightarrow> length q = n \<Longrightarrow> char_index c (q @ p @ c # s) n = int (n + length p)"
  by (simp add: char_index_def cut_at_app)

text \<open>What the adaptor forwards of the URL is the resource behind callgent and entry, query included.\<close>

lemma resource_url_behind:
  assumes "CHR ''/'' \<notin> set cg" and "CHR ''/'' \<notin> set i"
  shows "resource_url (''/api/rest/invoke/'' @ cg @ ''/'' @ i @ ''/'' @ rest) = Inr (''/'' @ rest)"
proof -
  let ?u = "''/api/rest/invoke/'' @ cg @ ''/'' @ i @ ''/'' @ rest"
  have j: "char_index (CHR ''/'') ?u 17 = int (17 + length cg)"
    using char_index_app [OF assms(1), of "''/api/rest/invoke/''" 17 "i @ ''/'' @ rest"] by simp
  have k: "char_index (CHR ''/'') ?u (18 + length cg) = int (18 + length cg + length i)"
    using char_index_app [OF assms(2), of "''/api/rest/invoke/'' @ cg @ ''/''" "18 + length cg" rest] by simp
  have "substr ?u (int (18 + length cg + length i)) = ''/'' @ rest"
    using drop_app [of "''/api/rest/invoke/'' @ cg @ ''/'' @ i" "18 + length cg + length i" "''/'' @ rest"]
    by (simp add: substr_def nat_add_distrib)
  moreover have "nat (int (17 + length cg) + 1) = 18 + length cg" by simp
  ultimately show ?thesis using j k find_rest_invoke [of "cg @ ''/'' @ i @ ''/'' @ rest"]
    by (simp add: resource_url_def Let_def del: append.simps append_Cons)
qed

lemma requested_name_behind:
  assumes "rest \<noteq> []"
  shows "requested_name (''/api/rest/invoke/'' @ cg @ ''/'' @ i @ ''/'' @ rest) m cg (Some i) = formalApiName m (''/'' @ rest)"
proof -
  let ?b = "''invoke/'' @ cg @ ''/'' @ i @ ''/''"
  have "find_sub ?b (''/api/rest/invoke/'' @ cg @ ''/'' @ i @ ''/'' @ rest) = Some 10"
    using find_invoke_path [of "cg @ ''/'' @ i @ ''/''" rest] by simp
  moreover have "substr (''/api/rest/invoke/'' @ cg @ ''/'' @ i @ ''/'' @ rest) (10 + int (length ?b)) = rest"
    using drop_app [of "''/api/rest/invoke/'' @ cg @ ''/'' @ i @ ''/''" "10 + length ?b" rest] by (simp add: substr_def nat_add_distrib)
  ultimately show ?thesis using assms by (simp add: requested_name_def Let_def del: append.simps append_Cons)
qed

section \<open>Properties\<close>

text \<open>The status of an answer without a response of its own: success exactly for a run that is done,
  202 for one in progress or pending, 418 for an error without an HTTP status, the status of the
  error otherwise; it is always an HTTP status of at least 200.\<close>

theorem answer_status:
  assumes "ev_ctx e = Some c" and "\<not> truthy_opt (cx_resp c)"
  shows "\<exists>a n. answer verbose (Some e) = Inr a \<and> ha_status a = Some (JNum (of_int n)) \<and> 200 \<le> n \<and>
    (n = 200 \<longleftrightarrow> statusCode e \<in> {None, Some 0, Some 200}) \<and>
    (n = 202 \<longleftrightarrow> (\<exists>s. statusCode e = Some s \<and> 0 < s \<and> (s < 200 \<or> s = 202))) \<and>
    (n = 418 \<longleftrightarrow> (\<exists>s. statusCode e = Some s \<and> (s < 0 \<or> s = 418))) \<and>
    ha_body a = RB_event (e\<lparr>statusCode := None, message := None\<rparr>) (statusCode e) (message e)"
  using assms by (cases "statusCode e") (auto simp: answer_def rest_status_def)

theorem answer_status_witness:
  "\<exists>a. answer True (Some ((ex_call JNull)\<lparr>statusCode := Some 2\<rparr>)) = Inr a \<and> ha_status a = Some (JNum 202)"
proof -
  let ?e = "(ex_call JNull)\<lparr>statusCode := Some 2\<rparr>"
  have "ev_ctx ?e = Some (ex_ctx\<lparr>cx_req := JNull\<rparr>)" "\<not> truthy_opt (cx_resp (ex_ctx\<lparr>cx_req := JNull\<rparr>))"
    by (simp_all add: ex_call_def ex_ctx_def)
  from answer_status [OF this, of True] show ?thesis by auto
qed

text \<open>An invocation that outlasts the timeout its caller set is answered with an internal error, not with
  the announced 202: the timed-out event is a copy without a context, which the controller reads.\<close>

theorem timed_out_invocation_fails:
  assumes "fst (load db callgents cg i tenant) = Inr (y, c)" and "0 < sync_timeout (rq_timeout rq)"
    and "loadListeners listeners (ey_id y) ''CLIENT_REQUEST'' (er_adaptorKey y) False = Inr ls"
  shows "\<exists>w1. rest_invoke db callgents services listeners today eid cg i tenant True rq w =
    (w1, Inl (TypeError ''Cannot read properties of undefined (reading resp)''))"
proof -
  let ?e = "invoke_event today eid y c cg i rq"
  have e: "srcId ?e = ey_id y" "eventType ?e = ''CLIENT_REQUEST''" "dataType ?e = er_adaptorKey y"
    by (simp_all add: invoke_event_def clientRequestEvent_def newEvent_def Let_def)
  obtain w1 r where r: "invokeListeners services ls ?e None w = (w1, r)" by (metis prod.exhaust)
  have "emit services listeners ?e (sync_timeout (rq_timeout rq)) True w = (w1, Inr (Some (timeout_event (sync_timeout (rq_timeout rq)) ?e)))"
    using assms(2,3) e r by (simp add: emit_def)
  then show ?thesis
    using assms(1) by (simp add: rest_invoke_def answer_def timeout_event_def spread_event_def)
qed

definition ex_rest_db :: entry_db where
  "ex_rest_db = ex_db\<lparr>ed_entries := [(new_entry ''cg'' ''restAPI'' None)\<lparr>ey_id := ''e1''\<rparr>]\<rparr>"

definition ex_rest_request :: "string option \<Rightarrow> string \<Rightarrow> rest_request" where
  "ex_rest_request timeout url =
     \<lparr>rq_url = url, rq_method = ''get'', rq_raw = JNull, rq_user = None, rq_callback = None, rq_timeout = timeout\<rparr>"

definition ex_callgents :: "string \<Rightarrow> callgent_view option" where
  "ex_callgents i = Some \<lparr>cv_id = i, cv_name = ''pets'', cv_createdBy = Some ''owner''\<rparr>"

lemma ex_load: "\<exists>y c. fst (load ex_rest_db ex_callgents ''cg'' None None) = Inr (y, c) \<and> ey_id y = ''e1'' \<and> er_adaptorKey y = ''restAPI'' \<and> cv_createdBy c = None"
  by (simp add: load_def findFirstSettingTenant_def findFirstByType_def js_sort_def ex_rest_db_def ex_db_def new_entry_def ex_callgents_def
      select_view_def Let_def)

theorem timed_out_invocation_fails_witness:
  "\<exists>w1. rest_invoke ex_rest_db ex_callgents (\<lambda>_. Inr None) seed_listeners ''250109'' ''ev'' ''cg'' None None True (ex_rest_request (Some ''5'') ''/'') (empty_app ()) =
    (w1, Inl (TypeError ''Cannot read properties of undefined (reading resp)''))"
proof -
  obtain y c where y: "fst (load ex_rest_db ex_callgents ''cg'' None None) = Inr (y, c)" and k: "er_adaptorKey y = ''restAPI''" using ex_load by blast
  have t: "0 < sync_timeout (rq_timeout (ex_rest_request (Some ''5'') ''/''))"
    by (simp add: ex_rest_request_def sync_timeout_def parse_int_def) code_simp
  obtain ls where "loadListeners seed_listeners (ey_id y) ''CLIENT_REQUEST'' (er_adaptorKey y) False = Inr ls"
    by (simp add: loadListeners_def seed_listeners_def seed_listener_def listener_matches_def js_sort_def listener_cmp_def k Let_def)
  from timed_out_invocation_fails [OF y t this] show ?thesis by blast
qed

text \<open>The query string of a call is taken for a part of the endpoint's name: a call of an imported
  operation without one loads the operation's endpoint, the same call with one finds none, unless
  an endpoint happens to be named with it.\<close>

theorem query_hides_operation:
  assumes "createBatch rg service host fresh ey spec by rdb db = Inr (rdb', db', n)" and "catalog_ok db" and "ey \<in> set (ed_entries db)"
    and "a \<in> set (as_apis spec)" and "ap_path a = ''/'' @ p" and "p \<noteq> []" and "to_upper (rq_method rq) = to_upper (ap_method a)"
    and "rq_url rq = ''/api/rest/invoke/'' @ ey_callgentId ey @ ''/'' @ i @ ''/'' @ p @ q"
    and "\<forall>m\<in>set (ed_endpoints db'). CHR ''?'' \<notin> set (en_name m)"
  shows "let e = invoke_event today eid y c (ey_callgentId ey) (Some i) rq in
    (q = [] \<longrightarrow> (\<exists>r :: endpoint_row. en_path r = ap_path a \<and> en_entryId r = ey_id ey \<and> loadEndpoints db' e = Inr (upd_ctx (\<lambda>c. c\<lparr>cx_endpoints := [endpoint.truncate r]\<rparr>) e))) \<and>
    (hd q = CHR ''?'' \<and> q \<noteq> [] \<longrightarrow> (\<exists>m. loadEndpoints db' e = Inl (NotFound m)))"
proof -
  let ?e = "invoke_event today eid y c (ey_callgentId ey) (Some i) rq"
  have name: "requested_name (rq_url rq) (rq_method rq) (ey_callgentId ey) (Some i) = formalApiName (rq_method rq) (''/'' @ p @ q)"
    unfolding assms(8) by (rule requested_name_behind) (use assms(6) in simp)
  obtain ctx where ctx: "ev_ctx ?e = Some ctx" "cx_callgentId ctx = ey_callgentId ey" "cx_epName ctx = Some (formalApiName (rq_method rq) (''/'' @ p @ q))"
    by (simp add: invoke_event_def clientRequestEvent_def newEvent_def name Let_def)
  have "\<exists>r :: endpoint_row. en_path r = ap_path a \<and> en_entryId r = ey_id ey \<and> loadEndpoints db' ?e = Inr (upd_ctx (\<lambda>c. c\<lparr>cx_endpoints := [endpoint.truncate r]\<rparr>) ?e)"
    if "q = []"
  proof -
    have "cx_epName ctx = Some (formalApiName (ap_method a) (ap_path a))" using ctx(3) that assms(5,7) by (simp add: formalApiName_def)
    from imported_operation_found [OF assms(1-4) ctx(1,2) this] show ?thesis by blast
  qed
  moreover have "\<exists>m. loadEndpoints db' ?e = Inl (NotFound m)" if "hd q = CHR ''?''" "q \<noteq> []"
  proof -
    have "CHR ''?'' \<in> set (formalApiName (rq_method rq) (''/'' @ p @ q))" using that by (cases q) (simp_all add: formalApiName_def)
    then have "filter (\<lambda>n. en_callgentId n = cx_callgentId ctx \<and> (cx_epName ctx = None \<or> Some (en_name n) = cx_epName ctx)) (ed_endpoints db') = []"
      using assms(9) by (auto simp: ctx(3) filter_empty_conv)
    then have "callgentEndpoints (cx_callgentId ctx) (cx_epName ctx) db' = []"
      by (simp only: callgentEndpoints_def js_sort_def) simp
    then show ?thesis using ctx(1) by (simp add: loadEndpoints_def ctx_of_def)
  qed
  ultimately show ?thesis by (simp add: Let_def)
qed

theorem query_hides_operation_witness:
  "\<exists>rdb' db' m. createBatch ex_registry (builtin_service ''m'') (\<lambda>u. Some u) (\<lambda>_. ''n1'') ex_sep ex_api_spec None ex_realms (ex_db\<lparr>ed_entries := [ex_sep]\<rparr>) = Inr (rdb', db', 1) \<and>
     loadEndpoints db' (invoke_event ''250109'' ''ev'' ex_sep \<lparr>cv_id = ''cg'', cv_name = ''c'', cv_createdBy = None\<rparr> ''cg'' (Some ''e1'')
        (ex_rest_request None (''/api/rest/invoke/'' @ ''cg'' @ ''/'' @ ''e1'' @ ''/'' @ ''pets'' @ ''?limit=3''))) = Inl (NotFound m)"
proof -
  let ?db = "ex_db\<lparr>ed_entries := [ex_sep]\<rparr>"
  let ?rq = "ex_rest_request None (''/api/rest/invoke/'' @ ''cg'' @ ''/'' @ ''e1'' @ ''/'' @ ''pets'' @ ''?limit=3'')"
  obtain rdb' db' where b: "createBatch ex_registry (builtin_service ''m'') (\<lambda>u. Some u) (\<lambda>_. ''n1'') ex_sep ex_api_spec None ex_realms ?db = Inr (rdb', db', 1)"
    using ex_batch [of ?db] by (auto simp: ex_db_def)
  have ok: "catalog_ok ?db" "ex_sep \<in> set (ed_entries ?db)" by (simp_all add: catalog_ok_def ex_db_def)
  have a: "ex_api \<in> set (as_apis ex_api_spec)" "ap_path ex_api = ''/'' @ ''pets''" "''pets'' \<noteq> []" by (simp_all add: ex_api_spec_def ex_api_def)
  have m: "to_upper (rq_method ?rq) = to_upper (ap_method ex_api)" by (simp add: ex_rest_request_def ex_api_def) code_simp
  have u: "rq_url ?rq = ''/api/rest/invoke/'' @ ey_callgentId ex_sep @ ''/'' @ ''e1'' @ ''/'' @ ''pets'' @ ''?limit=3''"
    by (simp add: ex_rest_request_def ex_sep_def new_entry_def)
  obtain rows where rows: "ed_endpoints db' = rows" "map endpoint_key rows = [(''n1'', formalApiName ''GET'' ''/pets'', ''/pets'', ''GET'', ''cg'', ''s1'', JObj [])]"
    using batch_rows_created [OF b] by (auto simp: ex_db_def ex_api_spec_def ex_api_def api_key_def ex_sep_def new_entry_def)
  have "CHR ''?'' \<notin> set (formalApiName ''GET'' ''/pets'')" by code_simp
  with rows have noq: "\<forall>m\<in>set (ed_endpoints db'). CHR ''?'' \<notin> set (en_name m)" by (auto simp: endpoint_key_def)
  from query_hides_operation [OF b ok a m u noq, of "''250109''" "''ev''" ex_sep "\<lparr>cv_id = ''cg'', cv_name = ''c'', cv_createdBy = None\<rparr>"] b
  show ?thesis by (auto simp: Let_def ex_sep_def new_entry_def)
qed

text \<open>C40. What reaches the server of an endpoint: the resource behind callgent and entry with its query,
  the query a second time as parameters, and every header of the caller but the platform's, the
  host and the length; so the caller's own authorization and cookies are handed on to the
  third party.\<close>

theorem caller_credentials_forwarded:
  assumes "ev_ctx e = Some c" and "cx_req c = JObj [(''method'', JStr (m # ms)), (''url'', JStr (''/api/rest/invoke/'' @ cg @ ''/'' @ i @ ''/'' @ rest)),
      (''headers'', JObj raw), (''query'', q)]"
    and "CHR ''/'' \<notin> set cg" and "CHR ''/'' \<notin> set i" and "list_all (\<lambda>k. to_lower k = k) (obj_keys raw)"
  shows "\<exists>e1 j config hs. preprocess e = Inr e1 \<and> request_of e1 = Some j \<and> axios_config j (Some host) withSecurity = Inr config \<and>
    json_at ''url'' config = Some (JStr (''/'' @ rest)) \<and> json_at ''params'' config = Some q \<and> json_at ''baseURL'' config = Some (JStr host) \<and>
    json_at ''headers'' config = Some (JObj hs) \<and>
    (\<forall>k. obj_get hs k = (if prefix callgent_prefix k \<or> k \<in> {''host'', ''content-length''} then None else obj_get raw k))"
proof -
  let ?j = "present [(''url'', Some (JStr (''/'' @ rest))), (''method'', Some (JStr (m # ms))), (''headers'', Some (JObj (forward_headers raw))),
      (''params'', Some q), (''data'', None)]"
  have "req2Json (cx_req c) = Inr ?j"
    using resource_url_behind [OF assms(3,4)] by (simp add: req2Json_def assms(2) json_at_def obj_entries_def)
  then have pre: "preprocess e = Inr (upd_ctx (\<lambda>c. c\<lparr>cx_req := ?j\<rparr>) e)"
    using assms(1,2) by (simp add: preprocess_def ctx_of_def)
  have "obj_get (drop_hop (forward_headers raw)) k = (if prefix callgent_prefix k \<or> k \<in> {''host'', ''content-length''} then None else obj_get raw k)" for k
    by (simp add: drop_hop_def forward_headers_get [OF assms(5)])
  then show ?thesis
    using pre assms(1) by (simp add: request_of_def axios_config_def present_def json_at_def obj_entries_def)
qed

theorem caller_credentials_forwarded_witness:
  "\<exists>e1 j config hs. preprocess (ex_call (JObj [(''method'', JStr ''GET''), (''url'', JStr (''/api/rest/invoke/'' @ ''cg'' @ ''/'' @ ''e1'' @ ''/'' @ ''pets?limit=3'')),
      (''headers'', JObj [(''authorization'', JStr ''Bearer me''), (''x-callgent-taskid'', JStr ''t'')]), (''query'', JObj [(''limit'', JStr ''3'')])])) = Inr e1 \<and>
    request_of e1 = Some j \<and> axios_config j (Some ''http://pets.io'') False = Inr config \<and> json_at ''url'' config = Some (JStr ''/pets?limit=3'') \<and>
    json_at ''headers'' config = Some (JObj hs) \<and> obj_get hs ''authorization'' = Some (JStr ''Bearer me'') \<and> obj_get hs ''x-callgent-taskid'' = None"
proof -
  let ?raw = "[(''authorization'', JStr ''Bearer me''), (''x-callgent-taskid'', JStr ''t'')]"
  let ?req = "JObj [(''method'', JStr ''GET''), (''url'', JStr (''/api/rest/invoke/'' @ ''cg'' @ ''/'' @ ''e1'' @ ''/'' @ ''pets?limit=3'')),
      (''headers'', JObj ?raw), (''query'', JObj [(''limit'', JStr ''3'')])]"
  have c: "ev_ctx (ex_call ?req) = Some (ex_ctx\<lparr>cx_req := ?req\<rparr>)" by (simp add: ex_call_def)
  have r: "cx_req (ex_ctx\<lparr>cx_req := ?req\<rparr>) = ?req" by simp
  have l: "list_all (\<lambda>k. to_lower k = k) (obj_keys ?raw)" by code_simp
  have "CHR ''/'' \<notin> set ''cg''" "CHR ''/'' \<notin> set ''e1''" by simp_all
  from caller_credentials_forwarded [OF c r this l, of "''http://pets.io''" False] obtain e1 j config hs
    where "preprocess (ex_call ?req) = Inr e1" "request_of e1 = Some j" "axios_config j (Some ''http://pets.io'') False = Inr config"
      "json_at ''url'' config = Some (JStr (''/'' @ ''pets?limit=3''))" "json_at ''headers'' config = Some (JObj hs)"
      and hs: "\<forall>k. obj_get hs k = (if prefix callgent_prefix k \<or> k \<in> {''host'', ''content-length''} then None else obj_get ?raw k)" by blast
  moreover have "obj_get hs ''authorization'' = Some (JStr ''Bearer me'')" "obj_get hs ''x-callgent-taskid'' = None"
    using hs by (simp_all add: callgent_prefix_def)
  ultimately show ?thesis by auto
qed

end
