(* ===== verification/ScriptArgs.thy ===== *)
theory ScriptArgs
  imports ApiSpec
begin

text \<open>
  The part of \<open>src/agents/script-agent.service.ts\<close> that judges generated arguments: the search of a
  property path in an OpenAPI schema, the validation of argument hints against the parameters of
  an endpoint, and what becomes of hints that need a confirmation. A schema is a tree of JSON.
\<close>

section \<open>Property paths\<close>

text \<open>\<open>schema[k]\<close>; \<open>JNull\<close> stands for \<open>undefined\<close> too, both are no objects.\<close>

definition json_prop :: "string \<Rightarrow> json \<Rightarrow> json" where
  "json_prop k j =
     (case j of
        JObj kvs \<Rightarrow> (case obj_get kvs k of None \<Rightarrow> JNull | Some v \<Rightarrow> v)
      | JArr xs \<Rightarrow> (case map_of (map (\<lambda>(i, x). (show_nat i, x)) (enumerate 0 xs)) k of None \<Rightarrow> JNull | Some v \<Rightarrow> v)
      | _ \<Rightarrow> JNull)"

fun is_object :: "json \<Rightarrow> bool" where
  "is_object (JObj _) = True"
| "is_object (JArr _) = True"
| "is_object _ = False"

text \<open>The combination keyword of a schema: \<open>True\<close> for those that ask for some member, \<open>False\<close> for \<open>allOf\<close>.\<close>

definition members :: "bool \<Rightarrow> json \<Rightarrow> (bool \<times> json list) option result" where
  "members some j = (case j of JArr xs \<Rightarrow> Inr (Some (some, xs)) | _ \<Rightarrow> Inl (TypeError ''some or every is not a function''))"

definition combination :: "json \<Rightarrow> (bool \<times> json list) option result" where
  "combination schema =
     (if truthy (json_prop ''anyOf'' schema) then members True (json_prop ''anyOf'' schema)
      else if truthy (json_prop ''oneOf'' schema) then members True (json_prop ''oneOf'' schema)
      else if truthy (json_prop ''allOf'' schema) then members False (json_prop ''allOf'' schema)
      else Inr None)"

lemma size_json_prop: "json_prop k j = v \<Longrightarrow> v \<noteq> JNull \<Longrightarrow> size v < size j"
proof (cases j)
  case (JArr xs)
  assume "json_prop k j = v" "v \<noteq> JNull"
  then have "(k, v) \<in> set (map (\<lambda>(i, x). (show_nat i, x)) (enumerate 0 xs))"
    using JArr by (auto simp: json_prop_def split: option.splits dest: map_of_SomeD)
  then have "v \<in> set xs" by (auto simp: in_set_enumerate_eq)
  then have "size v < Suc (size_list size xs)" by (simp add: size_list_estimation' less_Suc_eq_le)
  then show ?thesis by (simp add: JArr)
next
  case (JObj kvs)
  assume "json_prop k j = v" "v \<noteq> JNull"
  then have "(k, v) \<in> set kvs" using JObj by (auto simp: json_prop_def obj_get_def split: option.splits dest: map_of_SomeD)
  then have "size_prod (\<lambda>x. 0) size (k, v) \<le> size_list (size_prod (\<lambda>x. 0) size) kvs" by (intro size_list_estimation' [of "(k, v)"]) auto
  then show ?thesis by (simp add: JObj)
qed (auto simp: json_prop_def)

lemma size_combination: "combination j = Inr (Some (b, xs)) \<Longrightarrow> size_list size xs < size j"
proof -
  assume "combination j = Inr (Some (b, xs))"
  then obtain k where "json_prop k j = JArr xs" by (auto simp: combination_def members_def split: if_splits json.splits)
  from size_json_prop [OF this] show ?thesis by simp
qed

lemma size_item: "is_object j \<Longrightarrow> size (json_prop k j) < size j"
  by (cases "json_prop k j = JNull") (use size_json_prop in \<open>auto elim: is_object.elims\<close>)

lemma size_property: "is_object j \<Longrightarrow> size (json_prop k (json_prop l j)) < size j"
proof (cases "json_prop k (json_prop l j) = JNull")
  case True
  then show "is_object j \<Longrightarrow> ?thesis" by (auto elim: is_object.elims)
next
  case False
  then have "size (json_prop k (json_prop l j)) < size (json_prop l j)" by (intro size_json_prop) auto
  also assume "is_object j"
  then have "size (json_prop l j) < size j" by (rule size_item)
  finally show ?thesis .
qed

text \<open>
  \<open>_hasOpenAPIProperty\<close>. The path is one array that all calls share and shift: the second component
  is what is left of it, and the next member of a combination starts with what the former left.
\<close>

function hasProp :: "json \<Rightarrow> string list \<Rightarrow> (bool \<times> string list) result"
  and hasProps :: "bool \<Rightarrow> json list \<Rightarrow> string list \<Rightarrow> (bool \<times> string list) result" where
  "hasProp schema props =
     (if \<not> is_object schema then Inr (False, props)
      else if props = [] then Inr (True, props)
      else (case combination schema of
              Inl e \<Rightarrow> Inl e
            | Inr (Some (some, xs)) \<Rightarrow> hasProps some xs props
            | Inr None \<Rightarrow>
                (if json_prop ''type'' schema = JStr ''array'' then hasProp (json_prop ''items'' schema) props
                 else if json_prop ''type'' schema = JStr ''object'' then
                   (if \<not> truthy (json_prop ''properties'' schema) then Inr (False, props)
                    else hasProp (json_prop (hd props) (json_prop ''properties'' schema)) (tl props))
                 else hasProp (json_prop (hd props) schema) (tl props))))"
| "hasProps some [] props = Inr (\<not> some, props)"
| "hasProps some (x # xs) props =
     (case hasProp x props of
        Inl e \<Rightarrow> Inl e
      | Inr (b, rest) \<Rightarrow> if b = some then Inr (some, rest) else hasProps some xs rest)"
  by pat_completeness auto
termination
  by (relation "measure (\<lambda>x. case x of Inl (s, _) \<Rightarrow> size s | Inr (_, xs, _) \<Rightarrow> size_list size xs)")
    (auto simp: size_item size_property dest: size_combination)

declare hasProp.simps [simp del]

text \<open>The reference: a path leads into a schema if each name leads one step on, where an array is entered
  through its items and an object through its properties.\<close>

function leads :: "json \<Rightarrow> string list \<Rightarrow> bool" where
  "leads schema props =
     (if is_object schema then
        (case props of
           [] \<Rightarrow> True
         | p # ps \<Rightarrow>
             (if json_prop ''type'' schema = JStr ''array'' then leads (json_prop ''items'' schema) props
              else if json_prop ''type'' schema = JStr ''object'' then leads (json_prop p (json_prop ''properties'' schema)) ps
              else leads (json_prop p schema) ps))
      else False)"
  by pat_completeness auto
termination
  by (relation "measure (\<lambda>(s, _). size s)") (auto simp: size_item size_property)

declare leads.simps [simp del]

text \<open>A schema none of whose parts uses a combination keyword.\<close>

function plain_schema :: "json \<Rightarrow> bool" where
  "plain_schema j =
     (case j of
        JObj kvs \<Rightarrow> combination j = Inr None \<and> (\<forall>v\<in>set (map snd kvs). plain_schema v)
      | JArr xs \<Rightarrow> combination j = Inr None \<and> (\<forall>v\<in>set xs. plain_schema v)
      | _ \<Rightarrow> True)"
  by pat_completeness auto
termination
proof (relation "measure size")
  show "wf (measure size)" by simp
next
  fix j :: json and kvs v
  assume "j = JObj kvs" "v \<in> set (map snd kvs)"
  then obtain k where "(k, v) \<in> set kvs" by auto
  then have "size_prod (\<lambda>x. 0) size (k, v) \<le> size_list (size_prod (\<lambda>x. 0) size) kvs" by (intro size_list_estimation' [of "(k, v)"]) auto
  with \<open>j = JObj kvs\<close> show "(v, j) \<in> measure size" by simp
next
  fix j :: json and xs v
  assume "j = JArr xs" "v \<in> set xs"
  then show "(v, j) \<in> measure size" by (simp add: size_list_estimation' less_Suc_eq_le)
qed

declare plain_schema.simps [simp del]

lemma plain_prop: "plain_schema j \<Longrightarrow> plain_schema (json_prop k j)"
proof (cases j)
  case (JArr xs)
  assume "plain_schema j"
  show ?thesis
  proof (cases "map_of (map (\<lambda>(i, x). (show_nat i, x)) (enumerate 0 xs)) k")
    case (Some v)
    then have "v \<in> set xs" by (auto simp: in_set_enumerate_eq dest!: map_of_SomeD)
    then show ?thesis using \<open>plain_schema j\<close> Some unfolding JArr by (simp add: json_prop_def plain_schema.simps [of "JArr xs"])
  qed (simp add: JArr json_prop_def plain_schema.simps [of JNull])
next
  case (JObj kvs)
  assume "plain_schema j"
  then have parts: "\<forall>v\<in>set (map snd kvs). plain_schema v" unfolding JObj by (subst (asm) plain_schema.simps) simp
  show ?thesis
  proof (cases "obj_get kvs k")
    case None
    then show ?thesis by (simp add: JObj json_prop_def plain_schema.simps [of JNull])
  next
    case (Some v)
    then have "v \<in> set (map snd kvs)" by (force simp: obj_get_def dest: map_of_SomeD)
    from parts [rule_format, OF this] Some show ?thesis by (simp add: JObj json_prop_def)
  qed
qed (simp_all add: json_prop_def plain_schema.simps [of JNull])

lemma plain_no_combination: "plain_schema j \<Longrightarrow> is_object j \<Longrightarrow> combination j = Inr None"
  by (subst (asm) plain_schema.simps) (cases j, simp_all)

lemma hasProp_plain:
  "plain_schema s \<Longrightarrow> \<exists>rest. hasProp s props = Inr (leads s props, rest)"
proof (induction s props rule: leads.induct)
  case (1 schema props)
  show ?case
  proof (cases "is_object schema \<and> props \<noteq> []")
    case False
    then show ?thesis by (cases props) (auto simp: hasProp.simps leads.simps)
  next
    case True
    then obtain p ps where props: "props = p # ps" by (cases props) auto
    have c: "combination schema = Inr None" using 1 True plain_no_combination by blast
    have pp: "plain_schema (json_prop k schema)" for k using 1 plain_prop by blast
    consider (arr) "json_prop ''type'' schema = JStr ''array''" | (obj) "json_prop ''type'' schema = JStr ''object''"
      | (other) "json_prop ''type'' schema \<noteq> JStr ''array''" "json_prop ''type'' schema \<noteq> JStr ''object''" by blast
    then show ?thesis
    proof cases
      case arr
      then have "\<exists>rest. hasProp (json_prop ''items'' schema) props = Inr (leads (json_prop ''items'' schema) props, rest)"
        using 1 True props pp by simp
      then show ?thesis using arr c True props by (simp add: hasProp.simps [of schema] leads.simps [of schema])
    next
      case obj
      then have IH: "\<exists>rest. hasProp (json_prop p (json_prop ''properties'' schema)) ps =
          Inr (leads (json_prop p (json_prop ''properties'' schema)) ps, rest)"
        using 1 True props plain_prop [OF pp] by simp
      have "leads (json_prop p (json_prop ''properties'' schema)) ps = False" if "\<not> truthy (json_prop ''properties'' schema)"
      proof -
        have "json_prop p (json_prop ''properties'' schema) = JNull"
          using that by (cases "json_prop ''properties'' schema") (simp_all add: json_prop_def)
        then show ?thesis by (simp add: leads.simps)
      qed
      then show ?thesis using obj c True props IH by (simp add: hasProp.simps [of schema] leads.simps [of schema])
    next
      case other
      then have "\<exists>rest. hasProp (json_prop p schema) ps = Inr (leads (json_prop p schema) ps, rest)"
        using 1 True props pp by simp
      then show ?thesis using other c True props by (simp add: hasProp.simps [of schema] leads.simps [of schema])
    qed
  qed
qed

section \<open>Argument hints\<close>

text \<open>What is generated for one argument of an endpoint.\<close>

definition user_key :: string where
  "user_key = ''extracted-from-user-info-or-files''"

definition api_key_name :: string where
  "api_key_name = ''retrieved-from-API-calls''"

text \<open>The schemas by parameter name, and that of the request body. An endpoint whose operation has no
  \<open>parameters\<close> has none in its record.\<close>

fun param_schemas :: "json list \<Rightarrow> json obj \<Rightarrow> json obj result" where
  "param_schemas [] m = Inr m"
| "param_schemas (p # ps) m =
     (if p = JNull then Inl (TypeError ''Cannot read properties of null (reading name)'')
      else param_schemas ps (obj_set (case json_prop ''name'' p of JStr n \<Rightarrow> n | _ \<Rightarrow> ''undefined'') (json_prop ''schema'' p) m))"

definition body_schema :: "json \<Rightarrow> json result" where
  "body_schema requestBody =
     (if \<not> truthy requestBody then Inr (JObj [])
      else and_then (obj_entries (json_prop ''content'' requestBody)) (\<lambda>media.
        case media of
          [] \<Rightarrow> Inr (JObj [])
        | (_, m) # _ \<Rightarrow>
            if m = JNull then Inl (TypeError ''Cannot read properties of null (reading schema)'')
            else Inr (if truthy (json_prop ''schema'' m) then json_prop ''schema'' m else JObj [])))"

definition endpoint_schemas :: "json option \<Rightarrow> json obj result" where
  "endpoint_schemas params =
     (let ps = (if truthy_opt params then the params else JObj [])
      in and_then (case json_prop ''parameters'' ps of
                     JArr xs \<Rightarrow> param_schemas xs []
                   | _ \<Rightarrow> Inl (TypeError ''Cannot read properties of undefined (reading forEach)'')) (\<lambda>m.
         and_then (body_schema (json_prop ''requestBody'' ps)) (\<lambda>b. Inr (obj_set ''requestBody'' b m))))"

definition arg_path :: "string \<Rightarrow> string \<times> string list" where
  "arg_path name =
     (let n = (if prefix ''parameters'' name
               then (case find_sub ''parameters.'' name of None \<Rightarrow> name | Some i \<Rightarrow> take i name @ drop (i + 11) name) else name);
          parts = split_char (CHR ''.'') n
      in (hd parts, tl parts))"

text \<open>An argument needs a source: the user, a question to the user, another call, or being optional.\<close>

definition has_source :: "json \<Rightarrow> bool result" where
  "has_source arg =
     (let user = json_prop user_key arg
      in if truthy (json_prop ''flag'' user) then Inr True
         else if user = JNull then Inl (TypeError ''Cannot read properties of undefined (reading needConfirm)'')
         else Inr (truthy (json_prop ''needConfirm'' user) \<or> has_length (Some (json_prop api_key_name arg)) \<or>
                   truthy (json_prop ''optional'' (json_prop ''mapping'' arg))))"

definition check_arg :: "json obj \<Rightarrow> string \<Rightarrow> json \<Rightarrow> unit result" where
  "check_arg schemas epName arg =
     (case json_prop ''argName'' arg of
        JStr name \<Rightarrow>
          (let (p, rest) = arg_path name
           in and_then (hasProp (case obj_get schemas p of None \<Rightarrow> JNull | Some s \<Rightarrow> s) rest) (\<lambda>(found, _).
              if \<not> found then Inl (PlainError (''There is no such parameter '' @ name @ '' on endpoint '' @ epName))
              else and_then (has_source arg) (\<lambda>ok.
                if ok then Inr () else Inl (PlainError (''There must be at least one source for argument '' @ name @ '' on endpoint '' @ epName)))))
      | _ \<Rightarrow> Inl (TypeError ''Cannot read properties of undefined (reading startsWith)''))"

text \<open>\<open>validate\<close>: \<open>purposes\<close> gives the endpoint name of a purpose, \<open>params\<close> the parameters of an endpoint, \<open>None\<close> for one that
  is not among the chosen.\<close>

definition check_hint :: "string obj \<Rightarrow> (string \<Rightarrow> json option option) \<Rightarrow> json \<Rightarrow> unit result" where
  "check_hint purposes params hint =
     (case json_prop ''purposeKey'' hint of
        JStr key \<Rightarrow>
          (case obj_get purposes key of
             None \<Rightarrow> Inl (PlainError (''There is no such purposeKey: '' @ key))
           | Some epName \<Rightarrow>
               (case params epName of
                  None \<Rightarrow> Inl (TypeError ''Cannot read properties of undefined (reading params)'')
                | Some ps \<Rightarrow>
                    and_then (endpoint_schemas ps) (\<lambda>schemas.
                      (case json_prop ''args'' hint of
                         JArr args \<Rightarrow> and_then (map_result (check_arg schemas epName) args) (\<lambda>_. Inr ())
                       | _ \<Rightarrow> Inl (TypeError ''Cannot read properties of undefined (reading every)'')))))
      | _ \<Rightarrow> Inl (PlainError ''There is no such purposeKey: undefined''))"

definition validate_hints :: "string obj \<Rightarrow> (string \<Rightarrow> json option option) \<Rightarrow> json list \<Rightarrow> bool result" where
  "validate_hints purposes params gen = and_then (map_result (check_hint purposes params) gen) (\<lambda>_. Inr True)"

section \<open>Properties\<close>


definition ex_pet :: json where
  "ex_pet = JObj [(''type'', JStr ''object''), (''properties'', JObj [(''tags'', JObj [(''type'', JStr ''array''),
     (''items'', JObj [(''name'', JObj [])])])])]"

lemma ex_pet_plain: "plain_schema ex_pet"
  unfolding ex_pet_def by (subst plain_schema.simps, simp add: combination_def json_prop_def)+


text \<open>With a combination keyword the search accepts names that no alternative has: the first
  alternative consumes the path, and the second is asked for the empty one, which any object has.\<close>

theorem later_alternative_accepts_anything:
  assumes "schema = JObj [(''anyOf'', JArr (a # b # rest))]" and "plain_schema a" and "is_object a" and "is_object b"
    and "json_prop ''type'' a = JStr ''object''" and "truthy (json_prop ''properties'' a)" and "\<not> leads a [p]"
  shows "hasProp schema [p] = Inr (True, []) \<and> hasProp a [p] = Inr (False, [])"
proof -
  let ?n = "json_prop p (json_prop ''properties'' a)"
  have n: "\<not> is_object ?n"
  proof
    assume o: "is_object ?n"
    then have "leads ?n []" by (simp add: leads.simps [of ?n])
    then have "leads a [p]" using assms(3,5) by (simp add: leads.simps [of a])
    with assms(7) show False by contradiction
  qed
  have a: "hasProp a [p] = Inr (False, [])"
    using n assms(3,5,6) plain_no_combination [OF assms(2,3)] by (simp add: hasProp.simps [of a] hasProp.simps [of ?n])
  have "combination schema = Inr (Some (True, a # b # rest))" by (simp add: assms(1) combination_def members_def json_prop_def)
  moreover have "hasProp b [] = Inr (True, [])" using assms(4) by (simp add: hasProp.simps [of b])
  ultimately show ?thesis using a by (simp add: hasProp.simps [of schema]) (simp add: assms(1))
qed

theorem later_alternative_accepts_anything_witness:
  "hasProp (JObj [(''anyOf'', JArr (ex_pet # JObj [] # []))]) [''price''] = Inr (True, []) \<and> \<not> leads (JObj []) [''price'']"
proof -
  have o: "is_object ex_pet" "is_object (JObj [])" "json_prop ''type'' ex_pet = JStr ''object''" "truthy (json_prop ''properties'' ex_pet)"
    by (simp_all add: ex_pet_def json_prop_def)
  have "\<not> leads ex_pet [''price'']" unfolding ex_pet_def by (subst leads.simps, simp add: json_prop_def)+
  from later_alternative_accepts_anything [OF refl ex_pet_plain o this, of "[]"]
  have "hasProp (JObj [(''anyOf'', JArr (ex_pet # JObj [] # []))]) [''price''] = Inr (True, [])" ..
  moreover have "\<not> leads (JObj []) [''price'']" by (subst leads.simps, simp add: json_prop_def)+
  ultimately show ?thesis by blast
qed

text \<open>Hints that pass the validation name purposes that were chosen, and every argument is found in the
  schemas of its endpoint and has a source; hints for an endpoint without a list of parameters, as an
  operation with only a request body has none, never pass.\<close>

theorem validated_hints:
  "(validate_hints purposes params gen = Inr ok \<longrightarrow> (\<forall>h\<in>set gen. \<exists>key ep ps schemas args.
      json_prop ''purposeKey'' h = JStr key \<and> obj_get purposes key = Some ep \<and> params ep = Some ps \<and>
      endpoint_schemas ps = Inr schemas \<and> json_prop ''args'' h = JArr args \<and>
      (\<forall>a\<in>set args. has_source a = Inr True \<and> (\<exists>name rest. json_prop ''argName'' a = JStr name \<and>
         hasProp (case obj_get schemas (fst (arg_path name)) of None \<Rightarrow> JNull | Some s \<Rightarrow> s) (snd (arg_path name)) = Inr (True, rest))))) \<and>
   (\<forall>h\<in>set gen. \<forall>key ep ps. json_prop ''purposeKey'' h = JStr key \<longrightarrow> obj_get purposes key = Some ep \<longrightarrow> params ep = Some ps \<longrightarrow>
      json_prop ''parameters'' (if truthy_opt ps then the ps else JObj []) = JNull \<longrightarrow>
      (\<exists>err. validate_hints purposes params gen = Inl err))"
proof (intro conjI impI ballI allI)
  fix h assume "validate_hints purposes params gen = Inr ok" "h \<in> set gen"
  then have "check_hint purposes params h = Inr ()"
    by (auto simp: validate_hints_def outcome_simps map_result_Inr list_all2_conv_all_nth in_set_conv_nth)
  then obtain key ep ps schemas args where k: "json_prop ''purposeKey'' h = JStr key" "obj_get purposes key = Some ep" "params ep = Some ps"
    "endpoint_schemas ps = Inr schemas" "json_prop ''args'' h = JArr args" and "\<exists>us. map_result (check_arg schemas ep) args = Inr us"
    by (cases "json_prop ''args'' h") (auto simp: check_hint_def outcome_simps split: json.splits option.splits)
  then have c: "check_arg schemas ep a = Inr ()" if "a \<in> set args" for a
    using that by (auto simp: map_result_Inr list_all2_conv_all_nth in_set_conv_nth)
  have "has_source a = Inr True \<and> (\<exists>name rest. json_prop ''argName'' a = JStr name \<and>
         hasProp (case obj_get schemas (fst (arg_path name)) of None \<Rightarrow> JNull | Some s \<Rightarrow> s) (snd (arg_path name)) = Inr (True, rest))"
    if "a \<in> set args" for a
    using c [OF that] by (auto simp: check_arg_def outcome_simps case_prod_unfold Let_def split: json.splits if_splits)
  then show "\<exists>key ep ps schemas args. json_prop ''purposeKey'' h = JStr key \<and> obj_get purposes key = Some ep \<and> params ep = Some ps \<and>
      endpoint_schemas ps = Inr schemas \<and> json_prop ''args'' h = JArr args \<and>
      (\<forall>a\<in>set args. has_source a = Inr True \<and> (\<exists>name rest. json_prop ''argName'' a = JStr name \<and>
         hasProp (case obj_get schemas (fst (arg_path name)) of None \<Rightarrow> JNull | Some s \<Rightarrow> s) (snd (arg_path name)) = Inr (True, rest)))"
    using k by blast
next
  fix h key ep ps
  assume h: "h \<in> set gen" and k: "json_prop ''purposeKey'' h = JStr key" "obj_get purposes key = Some ep" "params ep = Some ps"
    and p: "json_prop ''parameters'' (if truthy_opt ps then the ps else JObj []) = JNull"
  have "\<exists>err. check_hint purposes params h = Inl err" using k p by (simp add: check_hint_def endpoint_schemas_def Let_def)
  then have "\<not> (\<exists>us. map_result (check_hint purposes params) gen = Inr us)"
    using h by (auto simp: map_result_Inr list_all2_conv_all_nth in_set_conv_nth)
  then show "\<exists>err. validate_hints purposes params gen = Inl err"
    by (cases "map_result (check_hint purposes params) gen") (auto simp: validate_hints_def)
qed

theorem validated_hints_witness:
  "\<exists>err. validate_hints [(''buy'', ''POST /orders'')] (\<lambda>_. Some (Some (JObj [(''requestBody'', JObj [])]))) [JObj [(''purposeKey'', JStr ''buy''), (''args'', JArr [])]] = Inl err"
  using validated_hints [of "[(''buy'', ''POST /orders'')]" "\<lambda>_. Some (Some (JObj [(''requestBody'', JObj [])]))"
      "[JObj [(''purposeKey'', JStr ''buy''), (''args'', JArr [])]]" True]
  by (simp add: json_prop_def)

end
