(* ===== verification/ScriptAgent.thy ===== *)
theory ScriptAgent
  imports Llm ScriptArgs Endpoints
begin

text \<open>
  \<open>src/agents/script-agent.service.ts\<close>: what a client request means for the endpoints. A call of one
  endpoint is mapped by a generated function that is kept for the next call; a requirement is planned:
  endpoints are chosen, chosen again and confirmed, their arguments are hinted and confirmed, and a
  script is generated and installed. The JavaScript evaluator, \<open>JSON.stringify\<close>, \<open>JSON.parse\<close>, the
  printing of numbers and the package manager are parameters.
\<close>

section \<open>Environment\<close>

type_synonym js_fun = "json \<Rightarrow> json option result"

record agent_env =
  ag_llm :: llm_env
  ag_params :: "string \<Rightarrow> json option"
  ag_eval :: "string \<Rightarrow> string + js_fun evaluated"
  ag_num :: "rat \<Rightarrow> string"
  ag_dump :: "json \<Rightarrow> string"
  ag_parse :: "string \<Rightarrow> json result"
  ag_endpoint :: "endpoint \<Rightarrow> json"

record agent_world =
  aw_llm :: llm_world
  aw_repo :: "((string \<times> string) \<times> string) list"
  aw_files :: "(path \<times> string \<times> string) list"

definition undef_str :: "(rat \<Rightarrow> string) \<Rightarrow> json option \<Rightarrow> string" where
  "undef_str num v = (case v of None \<Rightarrow> ''undefined'' | Some j \<Rightarrow> js_string num j)"

section \<open>One endpoint\<close>

definition run_args :: "agent_env \<Rightarrow> string \<Rightarrow> json \<Rightarrow> json option result" where
  "run_args env code req = and_then (toFunction (ag_eval env) code) (\<lambda>f. f req)"

definition no_params :: "json option \<Rightarrow> bool" where
  "no_params p \<longleftrightarrow> \<not> truthy_opt p \<or> (case p of Some (JObj kvs) \<Rightarrow> kvs = [] | Some (JArr xs) \<Rightarrow> xs = [] | Some (JStr _) \<Rightarrow> False | _ \<Rightarrow> True)"

definition validate_map :: "agent_env \<Rightarrow> json \<Rightarrow> parsed \<Rightarrow> nat \<Rightarrow> bool result" where
  "validate_map env req ret i =
     (let code = (case ret of P_json (Some j) \<Rightarrow> Inr (undef_str (ag_num env) (json_at ''req2Args'' j))
                  | _ \<Rightarrow> Inl (TypeError ''Cannot read properties of undefined (reading req2Args)''))
      in case and_then code (\<lambda>s. run_args env s req) of
           Inl e \<Rightarrow> Inl (PlainError (''[map2Endpoint] Wrong generation `req2Args` function: '' @ error_message e))
         | Inr _ \<Rightarrow> Inr True)"

definition map_spec :: "agent_env \<Rightarrow> string option \<Rightarrow> json \<Rightarrow> query_spec" where
  "map_spec env payer req =
     \<lparr>qs_models = None, qs_paidBy = payer, qs_parseType = PT_json, qs_schema = Some (JObj [(''req2Args'', JStr [])]),
      qs_validate = Some (validate_map env req)\<rparr>"

definition generate_map :: "agent_env \<Rightarrow> req_event \<Rightarrow> req_ctx \<Rightarrow> endpoint list \<Rightarrow> string \<times> string \<Rightarrow> agent_world \<Rightarrow> agent_world \<times> json option result" where
  "generate_map env e c eps key w =
     (let args = JObj [(''req'', cx_req c), (''epName'', JStr (str_or (cx_epName c) [])), (''callgentName'', JStr (cx_callgentName c)),
            (''cepAdaptor'', JStr (dataType e)), (''endpoints'', JArr (map (ag_endpoint env) eps))]
      in case query (ag_llm env) ''map2Endpoint'' args (map_spec env (paidBy e) (cx_req c)) (aw_llm w) of
           (l, Inl err) \<Rightarrow> (w\<lparr>aw_llm := l\<rparr>, Inl err)
         | (l, Inr (P_json (Some j))) \<Rightarrow>
             (let v = json_at ''req2Args'' j; w1 = w\<lparr>aw_llm := l\<rparr>;
                  w2 = (if truthy_opt v then w1\<lparr>aw_repo := AList.update key (undef_str (ag_num env) v) (aw_repo w1)\<rparr> else w1)
              in (w2, run_args env (undef_str (ag_num env) v) (cx_req c)))
         | (l, Inr _) \<Rightarrow> (w\<lparr>aw_llm := l\<rparr>, Inl (TypeError ''Cannot read properties of undefined (reading requestArgs)'')))"

text \<open>\<open>_map2Endpoint\<close>: a stored function that fails is generated anew.\<close>

definition map2Endpoint :: "agent_env \<Rightarrow> req_event \<Rightarrow> req_ctx \<Rightarrow> endpoint list \<Rightarrow> agent_world \<Rightarrow> agent_world \<times> json option result" where
  "map2Endpoint env e c eps w =
     (let epName = str_or (cx_epName c) []
      in case find (\<lambda>n. en_name n = epName) eps of
           None \<Rightarrow> (w, Inl (NotFound (''map2Endpoint not found of name:'' @ epName)))
         | Some n \<Rightarrow>
             (if no_params (ag_params env (en_id n)) then (w, Inr (Some (JObj [])))
              else (let key = (srcId e, en_id n)
                    in case map_of (aw_repo w) key of
                         None \<Rightarrow> generate_map env e c eps key w
                       | Some code \<Rightarrow>
                           (case run_args env code (cx_req c) of
                              Inr r \<Rightarrow> (w, Inr r)
                            | Inl _ \<Rightarrow> generate_map env e c eps key w))))"

section \<open>Choosing endpoints\<close>

record purpose =
  pu_key :: string
  pu_usedFor :: string
  pu_external :: bool
  pu_ep :: "string option"
  pu_descr :: string

definition purpose_of :: "agent_env \<Rightarrow> json \<Rightarrow> purpose" where
  "purpose_of env j =
     \<lparr>pu_key = undef_str (ag_num env) (json_at ''purposeKey'' j), pu_usedFor = undef_str (ag_num env) (json_at ''usedFor'' j),
      pu_external = truthy_opt (json_at ''needExternalAPI'' j), pu_ep = str_at ''epName'' j,
      pu_descr = undef_str (ag_num env) (json_at ''description'' j)\<rparr>"

text \<open>The validator of the choices: something is generated, and every named endpoint exists.\<close>

definition length_of :: "json option \<Rightarrow> bool result" where
  "length_of v = (case v of None \<Rightarrow> Inl (TypeError ''Cannot read properties of undefined (reading length)'')
     | Some JNull \<Rightarrow> Inl (TypeError ''Cannot read properties of null (reading length)'') | _ \<Rightarrow> Inr (has_length v))"

definition known_endpoint :: "endpoint list \<Rightarrow> json \<Rightarrow> unit result" where
  "known_endpoint eps j =
     (if \<not> truthy_opt (json_at ''epName'' j) \<or> (\<exists>n\<in>set eps. Some (en_name n) = str_at ''epName'' j) then Inr ()
      else Inl (PlainError (''There is no such endpoint named: '' @ (case str_at ''epName'' j of None \<Rightarrow> [] | Some s \<Rightarrow> s))))"

definition every_known :: "endpoint list \<Rightarrow> json option \<Rightarrow> bool result" where
  "every_known eps v =
     (case v of
        Some (JArr xs) \<Rightarrow> and_then (map_result (known_endpoint eps) xs) (\<lambda>_. Inr True)
      | _ \<Rightarrow> Inl (TypeError ''every is not a function''))"

definition validate_choice :: "endpoint list \<Rightarrow> parsed \<Rightarrow> nat \<Rightarrow> bool result" where
  "validate_choice eps ret i =
     (case ret of
        P_json (Some gen) \<Rightarrow>
          and_then (length_of (json_at ''usedEndpoints'' gen)) (\<lambda>a.
          and_then (if a then Inr True else length_of (json_at ''unaddressedAPI'' gen)) (\<lambda>b.
            if b then every_known eps (json_at ''usedEndpoints'' gen) else Inr False))
      | _ \<Rightarrow> Inl (TypeError ''Cannot read properties of undefined (reading usedEndpoints)''))"

definition choice_schema :: json where
  "choice_schema = JObj
     [(''unaddressedAPI'', JArr [JObj [(''purposeKey'', JStr []), (''usedFor'', JStr []), (''needExternalAPI'', JBool False)]]),
      (''usedEndpoints'', JArr [JObj [(''purposeKey'', JStr []), (''epName'', JStr []), (''description'', JStr []), (''usedFor'', JStr []),
         (''needExternalAPI'', JBool False)]])]"

definition chat_spec :: "string option \<Rightarrow> json \<Rightarrow> (parsed \<Rightarrow> nat \<Rightarrow> bool result) \<Rightarrow> query_spec" where
  "chat_spec payer schema valid =
     \<lparr>qs_models = None, qs_paidBy = payer, qs_parseType = PT_json, qs_schema = Some schema, qs_validate = Some valid\<rparr>"

definition items_of :: "json option \<Rightarrow> json list" where
  "items_of v = (case v of Some (JArr xs) \<Rightarrow> xs | _ \<Rightarrow> [])"

definition choice_purposes :: "agent_env \<Rightarrow> parsed \<Rightarrow> purpose list" where
  "choice_purposes env ret =
     (case ret of
        P_json (Some gen) \<Rightarrow>
          uniqueBy pu_key (map (purpose_of env) (items_of (json_at ''unaddressedAPI'' gen) @ items_of (json_at ''usedEndpoints'' gen)))
      | _ \<Rightarrow> [])"

text \<open>One choice; the assistant's message is removed again by the caller.\<close>

definition choose_once :: "agent_env \<Rightarrow> string \<Rightarrow> req_event \<Rightarrow> message list \<Rightarrow> json \<Rightarrow> endpoint list \<Rightarrow> agent_world \<Rightarrow>
    agent_world \<times> message list \<times> purpose list result" where
  "choose_once env template e msgs args eps w =
     (case chat (ag_llm env) template msgs args (chat_spec (paidBy e) choice_schema (validate_choice eps)) (aw_llm w) of
        (l, ms, Inl err) \<Rightarrow> (w\<lparr>aw_llm := l\<rparr>, ms, Inl err)
      | (l, ms, Inr ret) \<Rightarrow> (w\<lparr>aw_llm := l\<rparr>, butlast ms, Inr (choice_purposes env ret)))"

text \<open>The second choice, among the endpoints that the first one left, has the same schema and validation.\<close>

definition reChooseEndpoints :: "agent_env \<Rightarrow> req_event \<Rightarrow> message list \<Rightarrow> json \<Rightarrow> endpoint list \<Rightarrow> agent_world \<Rightarrow>
    agent_world \<times> message list \<times> purpose list result" where
  "reChooseEndpoints env = choose_once env ''reChooseEndpoints''"

declare reChooseEndpoints_def [simp]

record candidates =
  cs_key :: string
  cs_usedFor :: string
  cs_external :: bool
  cs_eps :: "(string \<times> string) list"

definition add_purpose :: "purpose \<Rightarrow> candidates obj \<Rightarrow> candidates obj" where
  "add_purpose p sets =
     (let cur = (case obj_get sets (pu_key p) of
                   None \<Rightarrow> \<lparr>cs_key = pu_key p, cs_usedFor = pu_usedFor p, cs_external = pu_external p, cs_eps = []\<rparr> | Some c \<Rightarrow> c)
      in obj_set (pu_key p) (if nonempty_str (pu_ep p) then cur\<lparr>cs_eps := cs_eps cur @ [(the (pu_ep p), pu_descr p)]\<rparr> else cur) sets)"

definition merge_purposes :: "purpose list \<Rightarrow> candidates obj" where
  "merge_purposes ps = fold add_purpose ps []"

definition endpoint_map :: "endpoint list \<Rightarrow> purpose list \<Rightarrow> (endpoint option) obj" where
  "endpoint_map eps ps =
     fold (\<lambda>p m. if nonempty_str (pu_ep p) then obj_set (the (pu_ep p)) (find (\<lambda>n. en_name n = the (pu_ep p)) eps) m else m) ps []"

text \<open>\<open>_confirmEndpoints\<close>: three groups by the number of candidates; a fourth does not exist.\<close>

record used_purpose =
  up_key :: string
  up_usedFor :: string
  up_ep :: "string option"
  up_descr :: string

definition impossible :: "candidates list \<Rightarrow> js_error" where
  "impossible cs =
     BadRequest (''Mission Impossible: current service APIs is not sufficient to fulfill your request.'' @ [CHR 0x0A] @ ''Unaddressed APIs:'' @
       [CHR 0x0A] @ join_char (CHR 0x0A) (map (\<lambda>c. ''- '' @ cs_key c @ '': '' @ cs_usedFor c) cs))"

definition used_of :: "agent_env \<Rightarrow> json \<Rightarrow> used_purpose" where
  "used_of env j =
     \<lparr>up_key = undef_str (ag_num env) (json_at ''purposeKey'' j), up_usedFor = undef_str (ag_num env) (json_at ''usedFor'' j),
      up_ep = str_at ''epName'' j, up_descr = undef_str (ag_num env) (json_at ''description'' j)\<rparr>"

definition validate_confirm :: "endpoint list \<Rightarrow> parsed \<Rightarrow> nat \<Rightarrow> bool result" where
  "validate_confirm eps ret i =
     (case ret of
        P_json gen \<Rightarrow> and_then (length_of gen) (\<lambda>b. if b then every_known eps gen else Inr False)
      | _ \<Rightarrow> Inl (TypeError ''Cannot read properties of undefined (reading length)''))"

definition confirmEndpoints :: "agent_env \<Rightarrow> req_event \<Rightarrow> message list \<Rightarrow> (candidates list \<Rightarrow> json) \<Rightarrow> endpoint list \<Rightarrow> candidates list \<Rightarrow> agent_world \<Rightarrow>
    agent_world \<times> message list \<times> used_purpose list result" where
  "confirmEndpoints env e msgs args eps cs w =
     (if \<exists>c\<in>set cs. 2 < length (cs_eps c) then (w, msgs, Inl (TypeError ''Cannot read properties of undefined (reading push)''))
      else (let unaddressed = filter (\<lambda>c. cs_eps c = [] \<and> cs_external c) cs
            in if unaddressed \<noteq> [] then (w, msgs, Inl (impossible unaddressed))
               else if \<exists>c\<in>set cs. length (cs_eps c) = 2 then
                 (case chat (ag_llm env) ''confirmEndpoints'' msgs (args cs)
                         (chat_spec (paidBy e) (JArr [JObj [(''purposeKey'', JStr []), (''epName'', JStr []), (''description'', JStr []), (''usedFor'', JStr [])]])
                            (validate_confirm eps)) (aw_llm w) of
                    (l, ms, Inl err) \<Rightarrow> (w\<lparr>aw_llm := l\<rparr>, ms, Inl err)
                  | (l, ms, Inr ret) \<Rightarrow> (w\<lparr>aw_llm := l\<rparr>, ms, Inr (map (used_of env) (items_of (case ret of P_json g \<Rightarrow> g | _ \<Rightarrow> None)))))
               else (w, msgs, Inr (map (\<lambda>c. \<lparr>up_key = cs_key c, up_usedFor = cs_usedFor c, up_ep = Some (fst (hd (cs_eps c))), up_descr = snd (hd (cs_eps c))\<rparr>)
                      (filter (\<lambda>c. length (cs_eps c) = 1) cs)))))"

text \<open>\<open>chooseEndpoints\<close>: before each step the last message is removed, which after a confirmation without
  a conversation is a message of the task.\<close>

definition chosen_of :: "(endpoint option) obj \<Rightarrow> used_purpose list \<Rightarrow> endpoint option list" where
  "chosen_of m ps = map snd (filter (\<lambda>(k, n). \<exists>p\<in>set ps. up_ep p = Some k) m)"

definition chooseEndpoints :: "agent_env \<Rightarrow> req_event \<Rightarrow> message list \<Rightarrow> (endpoint list \<Rightarrow> json) \<Rightarrow> (candidates list \<Rightarrow> json) \<Rightarrow> endpoint list \<Rightarrow> agent_world \<Rightarrow>
    agent_world \<times> message list \<times> (endpoint option list \<times> used_purpose list) result" where
  "chooseEndpoints env e msgs args cargs eps w =
     (case choose_once env ''chooseEndpoints'' e msgs (args eps) eps w of
        (w1, ms1, Inl err) \<Rightarrow> (w1, ms1, Inl err)
      | (w1, ms1, Inr ps0) \<Rightarrow>
          (let others = filter (\<lambda>n. \<not> (\<exists>p\<in>set ps0. pu_ep p = Some (en_name n))) eps
           in case reChooseEndpoints env e ms1 (args others) others w1 of
                (w2, ms2, Inl err) \<Rightarrow> (w2, ms2, Inl err)
              | (w2, ms2, Inr ps1) \<Rightarrow>
                  (let m = endpoint_map eps (ps1 @ ps0); known = List.map_filter snd m
                   in case confirmEndpoints env e ms2 cargs known (map snd (merge_purposes (ps1 @ ps0))) w2 of
                        (w3, ms3, Inl err) \<Rightarrow> (w3, ms3, Inl err)
                      | (w3, ms3, Inr used) \<Rightarrow> (w3, ms3, Inr (chosen_of m used, used)))))"

section \<open>Confirming arguments\<close>

definition json_with :: "string \<Rightarrow> json \<Rightarrow> json \<Rightarrow> json" where
  "json_with k v j = (case j of JObj kvs \<Rightarrow> JObj (if v = JNull then obj_del k kvs else obj_set k v kvs) | _ \<Rightarrow> j)"

definition json_without :: "string \<Rightarrow> json \<Rightarrow> json" where
  "json_without k j = (case j of JObj kvs \<Rightarrow> JObj (obj_del k kvs) | _ \<Rightarrow> j)"

definition key_of :: "agent_env \<Rightarrow> json \<Rightarrow> string" where
  "key_of env h = undef_str (ag_num env) (json_at ''purposeKey'' h)"

definition args_of :: "json \<Rightarrow> json list result" where
  "args_of h = (case json_prop ''args'' h of JArr xs \<Rightarrow> Inr xs | _ \<Rightarrow> Inl (TypeError ''Cannot read properties of undefined (reading forEach)''))"

text \<open>An argument is uncertain when the user must confirm it or it mismatches its mapping.\<close>

definition uncertain :: "json \<Rightarrow> bool result" where
  "uncertain arg =
     (let user = json_prop user_key arg
      in if truthy (json_prop ''flag'' user) \<and> truthy (json_prop ''needConfirm'' user) then Inr True
         else if json_prop ''mapping'' arg = JNull then Inl (TypeError ''Cannot read properties of undefined (reading mismatch)'')
         else Inr (truthy (json_prop ''mismatch'' (json_prop ''mapping'' arg))))"

text \<open>Pairs of a purpose and its uncertain arguments, grouped by purpose.\<close>

definition uncertain_args :: "agent_env \<Rightarrow> json \<Rightarrow> (string \<times> json list) result" where
  "uncertain_args env h =
     and_then (args_of h) (\<lambda>args.
     and_then (map_result (\<lambda>a. and_then (uncertain a) (\<lambda>b. Inr (if b then [a] else []))) args) (\<lambda>l.
       Inr (key_of env h, concat l)))"

definition group_args :: "(string \<times> 'a list) list \<Rightarrow> ('a list) obj" where
  "group_args l = fold (\<lambda>(k, as) m. if as = [] then m else obj_set k ((case obj_get m k of None \<Rightarrow> [] | Some bs \<Rightarrow> bs) @ as) m) l []"

definition validate_again :: "agent_env \<Rightarrow> (parsed \<Rightarrow> nat \<Rightarrow> bool result) \<Rightarrow> (json list) obj \<Rightarrow> parsed \<Rightarrow> nat \<Rightarrow> bool result" where
  "validate_again env valid groups ret i =
     (let gen = items_of (case ret of P_json g \<Rightarrow> g | _ \<Rightarrow> None)
      in and_then (map_result (\<lambda>(key, as).
             case find (\<lambda>g. key_of env g = key) gen of
               None \<Rightarrow> Inl (PlainError (''You should not miss the uncertain purposeKey: '' @ key))
             | Some g \<Rightarrow> and_then (args_of g) (\<lambda>bs.
                 if \<forall>a\<in>set as. \<exists>b\<in>set bs. json_at ''argName'' b = json_at ''argName'' a then Inr ()
                 else Inl (PlainError (''You should not miss the uncertain arg on purposeKey '' @ key)))) groups) (\<lambda>_. valid ret i))"

text \<open>The second answer replaces the arguments it names; \<open>find\<close> gives the first hint of a purpose.\<close>

fun replace_first_arg :: "json \<Rightarrow> json list \<Rightarrow> json list" where
  "replace_first_arg a [] = []"
| "replace_first_arg a (b # bs) = (if json_at ''argName'' b = json_at ''argName'' a then a # bs else b # replace_first_arg a bs)"

fun replace_hint :: "agent_env \<Rightarrow> json \<Rightarrow> json list \<Rightarrow> json list result" where
  "replace_hint env h [] = Inl (TypeError ''Cannot read properties of undefined (reading args)'')"
| "replace_hint env h (g # gs) =
     (if key_of env g = key_of env h then
        and_then (args_of h) (\<lambda>as. and_then (args_of g) (\<lambda>bs. Inr (json_with ''args'' (JArr (fold replace_first_arg as bs)) g # gs)))
      else and_then (replace_hint env h gs) (\<lambda>gs'. Inr (g # gs')))"

fun replace_hints :: "agent_env \<Rightarrow> json list \<Rightarrow> json list \<Rightarrow> json list result" where
  "replace_hints env [] gs = Inr gs"
| "replace_hints env (h # hs) gs = and_then (replace_hint env h gs) (replace_hints env hs)"

text \<open>The redundant fields go; what is left is the argument, a question to the user, or a missing conversion.\<close>

definition clean_user :: "json \<Rightarrow> json \<times> string option" where
  "clean_user arg =
     (let user = json_prop user_key arg
      in if truthy (json_prop ''flag'' user) then
           (if truthy (json_prop ''needConfirm'' user) then (arg, Some (case json_prop ''needConfirm'' user of JStr s \<Rightarrow> s | _ \<Rightarrow> ''true''))
            else (json_with user_key (json_prop ''userProvided'' user) arg, None))
         else (json_without user_key arg, None))"

definition clean_arg :: "json \<Rightarrow> (json \<times> string option \<times> bool) result" where
  "clean_arg arg =
     (let user = json_prop user_key arg; mapping = json_prop ''mapping'' arg; (arg1, confirm) = clean_user arg;
          arg2 = (if has_length (Some (json_prop api_key_name arg)) then arg1 else json_without api_key_name arg1)
      in if \<not> truthy mapping then Inr (arg2, confirm, False)
         else if user = JNull then Inl (TypeError ''Cannot read properties of undefined (reading needConfirm)'')
         else (let m1 = json_without ''mismatch'' mapping;
                   missing = (\<not> truthy (json_prop ''needConfirm'' user) \<and> truthy (json_prop ''missing'' (json_prop ''conversion'' mapping)))
               in Inr (json_with ''mapping'' (if missing then m1 else json_without ''conversion'' m1) arg2, confirm, missing)))"

definition clean_hint :: "agent_env \<Rightarrow> json \<Rightarrow> (json \<times> string list \<times> bool) result" where
  "clean_hint env h =
     and_then (args_of h) (\<lambda>args.
     and_then (map_result clean_arg args) (\<lambda>cleaned.
       Inr (json_with ''args'' (JArr (map fst cleaned)) h,
            List.map_filter (\<lambda>(a, c, _). map_option (\<lambda>q. ''- ['' @ key_of env h @ ''] '' @ undef_str (ag_num env) (json_at ''argName'' a) @ '': '' @ q) c) cleaned,
            (\<exists>(a, c, missing)\<in>set cleaned. missing))))"

definition finish_hints :: "agent_env \<Rightarrow> json list \<Rightarrow> json list result" where
  "finish_hints env hints =
     and_then (map_result (clean_hint env) hints) (\<lambda>cleaned.
       if \<exists>(h, qs, missing)\<in>set cleaned. missing then Inl (PlainError ''FIXME: re-choose eps or mission impossible'')
       else if \<exists>(h, qs, missing)\<in>set cleaned. qs \<noteq> [] then
         Inl (BadRequest (''Need some clarification to fulfill the request:'' @ [CHR 0x0A] @
           join_char (CHR 0x0A) (concat (map (\<lambda>(h, qs, missing). qs) cleaned))))
       else Inr (map fst cleaned))"

definition hint_schema :: json where
  "hint_schema = JArr [JObj [(''purposeKey'', JStr []), (''args'', JArr [JObj
     [(''argName'', JStr []), (api_key_name, JArr [JStr []]),
      (user_key, JObj [(''flag'', JBool False), (''userProvided'', JStr []), (''needConfirm'', JStr [])]),
      (''mapping'', JObj [(''from'', JStr []), (''to'', JStr []), (''optional'', JBool False), (''mismatch'', JBool False),
         (''conversion'', JObj [(''steps'', JArr []), (''missing'', JBool False)])])]])]]"

definition validate_args :: "agent_env \<Rightarrow> endpoint option list \<Rightarrow> used_purpose list \<Rightarrow> parsed \<Rightarrow> nat \<Rightarrow> bool result" where
  "validate_args env chosen used ret i =
     validate_hints (List.map_filter (\<lambda>p. map_option (Pair (up_key p)) (Some (case up_ep p of None \<Rightarrow> [] | Some n \<Rightarrow> n))) used)
       (\<lambda>name. case find (\<lambda>n. en_name n = name) (List.map_filter id chosen) of None \<Rightarrow> None | Some n \<Rightarrow> Some (ag_params env (en_id n)))
       (items_of (case ret of P_json g \<Rightarrow> g | _ \<Rightarrow> None))"

definition hints_of :: "parsed \<Rightarrow> json list" where
  "hints_of ret = items_of (case ret of P_json g \<Rightarrow> g | _ \<Rightarrow> None)"

text \<open>\<open>confirmEndpointArgs\<close>; the message of the first answer is removed only where there is a second question.\<close>

definition confirmEndpointArgs :: "agent_env \<Rightarrow> req_event \<Rightarrow> message list \<Rightarrow> json \<Rightarrow> endpoint option list \<Rightarrow> used_purpose list \<Rightarrow> agent_world \<Rightarrow>
    agent_world \<times> message list \<times> json list result" where
  "confirmEndpointArgs env e msgs args chosen used w =
     (let valid = validate_args env chosen used
      in case chat (ag_llm env) ''confirmEndpointsArgs'' msgs args (chat_spec (paidBy e) hint_schema valid) (aw_llm w) of
           (l, ms, Inl err) \<Rightarrow> (w\<lparr>aw_llm := l\<rparr>, ms, Inl err)
         | (l, ms, Inr ret) \<Rightarrow>
             (let w1 = w\<lparr>aw_llm := l\<rparr>; hints = hints_of ret
              in case map_result (uncertain_args env) hints of
                   Inl err \<Rightarrow> (w1, ms, Inl err)
                 | Inr l1 \<Rightarrow>
                     (let groups = group_args l1
                      in if groups = [] then (w1, ms, finish_hints env hints)
                         else
                           (case chat (ag_llm env) ''reConfirmEndpointsArgs'' (butlast ms) args
                                   (chat_spec (paidBy e) hint_schema (validate_again env valid groups)) (aw_llm w1) of
                              (l2, ms2, Inl err) \<Rightarrow> (w1\<lparr>aw_llm := l2\<rparr>, ms2, Inl err)
                            | (l2, ms2, Inr ret2) \<Rightarrow>
                                (w1\<lparr>aw_llm := l2\<rparr>, ms2, and_then (replace_hints env (hints_of ret2) hints) (finish_hints env))))))"

section \<open>The script\<close>

definition block_spec :: "agent_env \<Rightarrow> string option \<Rightarrow> nat \<Rightarrow> query_spec" where
  "block_spec env payer n =
     \<lparr>qs_models = None, qs_paidBy = payer, qs_parseType = PT_codeBlock, qs_schema = Some (JArr (replicate n JNull)),
      qs_validate = Some (\<lambda>ret i. case ret of
         P_blocks bs \<Rightarrow> if length bs < n \<or> bs ! (n - 1) = [] then Inr False
           else and_then (ag_parse env (bs ! (n - 1))) (\<lambda>j. Inr (truthy (json_prop ''name'' j)))
       | _ \<Rightarrow> Inl (TypeError ''object is not iterable''))\<rparr>"

definition review :: message where
  "review = \<lparr>mg_role = R_user, mg_content = JStr (join_char (CHR 0x0A)
     [''- Review and fix bugs'', ''- simplify `resumingStates`'', ''- Double check batch processing'',
      ''- null check on params/responses'',
      ''- early return on any errors. since we'' @ [CHR 0x27] @ ''ll retry execution if any errors, after fixing bugs based on the error message'',
      ''- avoid over design.'', [], ''Output clean, bug-free and robust code, and package.json''])\<rparr>"

text \<open>\<open>_generateTaskScript\<close>: the estimate comes with a first draft, the code from its review.\<close>

definition generateTaskScript :: "agent_env \<Rightarrow> req_event \<Rightarrow> message list \<Rightarrow> json \<Rightarrow> agent_world \<Rightarrow>
    agent_world \<times> message list \<times> (string \<times> string \<times> string) result" where
  "generateTaskScript env e msgs args w =
     (case chat (ag_llm env) ''generateTaskScript'' msgs args (block_spec env (paidBy e) 3) (aw_llm w) of
        (l, ms, Inl err) \<Rightarrow> (w\<lparr>aw_llm := l\<rparr>, ms, Inl err)
      | (l, ms, Inr ret) \<Rightarrow>
          (case chat (ag_llm env) ''generateTaskScript'' (ms @ [review]) args (block_spec env (paidBy e) 2) l of
             (l2, ms2, Inl err) \<Rightarrow> (w\<lparr>aw_llm := l2\<rparr>, ms2, Inl err)
           | (l2, ms2, Inr ret2) \<Rightarrow>
               (w\<lparr>aw_llm := l2\<rparr>, ms2,
                (case (ret, ret2) of
                   (P_blocks (est # _), P_blocks [mainTs, pkg]) \<Rightarrow> Inr (est, mainTs, pkg)
                 | _ \<Rightarrow> Inl (TypeError ''object is not iterable'')))))"

text \<open>\<open>installScriptFiles\<close>: the package file gets the tools of the runner; the installation counts as
  failed only if it wrote something to its error stream that is not from the debugger.\<close>

definition pin_tools :: "json \<Rightarrow> json" where
  "pin_tools p =
     (let dev = json_prop ''devDependencies'' p;
          p1 = (if truthy dev then p else json_with ''devDependencies'' (JObj []) p);
          deps = json_prop ''dependencies'' p1;
          deps1 = (if truthy (json_prop ''tsx'' deps) then json_without ''tsx'' deps else deps);
          deps2 = (if truthy (json_prop ''typescript'' deps1) then json_without ''typescript'' deps1 else deps1);
          p2 = (if deps = JNull then p1 else json_with ''dependencies'' deps2 p1)
      in json_with ''devDependencies'' (json_with ''typescript'' (JStr ''^5.7.3'')
            (json_with ''tsx'' (JStr ''^4.19.2'') (json_prop ''devDependencies'' p1))) p2)"

definition install_error :: "string option \<Rightarrow> string" where
  "install_error stderr =
     (case stderr of
        None \<Rightarrow> []
      | Some s \<Rightarrow> join_char (CHR 0x0A) (filter (\<lambda>l. find_sub ''bugger'' l = None) (split_char (CHR 0x0A) s)))"

definition installScriptFiles :: "agent_env \<Rightarrow> (agent_world \<Rightarrow> string option option) \<Rightarrow> path \<Rightarrow> string \<Rightarrow> string \<Rightarrow> json \<Rightarrow> json \<Rightarrow> agent_world \<Rightarrow>
    agent_world \<times> unit result" where
  "installScriptFiles env pnpm cwd mainTs pkg purposes hints w =
     (case ag_parse env pkg of
        Inl err \<Rightarrow> (w, Inl err)
      | Inr p \<Rightarrow>
          (let w1 = w\<lparr>aw_files := aw_files w @
                 [(cwd, ''main.ts'', mainTs), (cwd, ''package.json'', ag_dump env (pin_tools p)),
                  (cwd, ''purposes.json'', ag_dump env purposes), (cwd, ''args-hints.json'', ag_dump env hints)] @
                 map (\<lambda>f. (cwd, f, ''./templates/task-runner/'' @ f)) [''index.ts'', ''pipe-client.ts'', ''pnpm-lock.yaml'', ''tsconfig.json'']\<rparr>
           in case pnpm w1 of
                None \<Rightarrow> (w1, Inr ())
              | Some stderr \<Rightarrow> (w1, if install_error stderr = [] then Inr () else Inl (PlainError (install_error stderr)))))"

section \<open>Planning a task\<close>

text \<open>The conversation of the task: the requirement of each event that did not fail, and its answer unless it is
  still running; the current event is the last.\<close>

record past =
  pa_status :: "int option"
  pa_message :: "string option"
  pa_req :: json
  pa_resp :: "json option"

definition past_messages :: "agent_env \<Rightarrow> past \<Rightarrow> message list" where
  "past_messages env h =
     (if (case pa_status h of Some s \<Rightarrow> s < 0 | None \<Rightarrow> False) then []
      else \<lparr>mg_role = R_user, mg_content = JStr (ag_dump env (pa_req h))\<rparr> #
           (if pa_status h \<in> {Some 1, Some 2} then []
            else [\<lparr>mg_role = R_assistant, mg_content = JStr (ag_dump env (if truthy_opt (pa_resp h) then the (pa_resp h)
              else JObj (List.map_filter (\<lambda>(k, v). map_option (Pair k) v)
                [(''statusCode'', map_option (\<lambda>s. JNum (of_int s)) (pa_status h)), (''message'', map_option JStr (pa_message h))])))\<rparr>]))"

definition task_messages :: "agent_env \<Rightarrow> past list \<Rightarrow> past \<Rightarrow> message list" where
  "task_messages env histories current = concat (map (past_messages env) (histories @ [current]))"

definition current_of :: "req_event \<Rightarrow> req_ctx \<Rightarrow> past" where
  "current_of e c = \<lparr>pa_status = statusCode e, pa_message = message e, pa_req = cx_req c, pa_resp = cx_resp c\<rparr>"

definition hints_json :: "json list \<Rightarrow> json" where
  "hints_json hs = JArr hs"

definition used_json :: "used_purpose list \<Rightarrow> json" where
  "used_json ps = JArr (map (\<lambda>p. JObj [(''purposeKey'', JStr (up_key p)), (''usedFor'', JStr (up_usedFor p)),
     (''epName'', case up_ep p of None \<Rightarrow> JNull | Some n \<Rightarrow> JStr n), (''description'', JStr (up_descr p))]) ps)"

text \<open>\<open>_map2Endpoints\<close>. \<open>args\<close> and \<open>cargs\<close> are the arguments of the templates. After the choice the last message is
  removed again.\<close>

definition plan :: "agent_env \<Rightarrow> (agent_world \<Rightarrow> string option option) \<Rightarrow> string \<Rightarrow> (endpoint list \<Rightarrow> json) \<Rightarrow> (candidates list \<Rightarrow> json) \<Rightarrow> past list \<Rightarrow>
    req_event \<Rightarrow> req_ctx \<Rightarrow> endpoint list \<Rightarrow> agent_world \<Rightarrow> agent_world \<times> unit result" where
  "plan env pnpm upload args cargs histories e c eps w =
     (if eps = [] then (w, Inl (NotFound (''No endpoints for mapping, ClientRequestEvent#'' @ ev_id e)))
      else
        (case chooseEndpoints env e (task_messages env histories (current_of e c)) args cargs eps w of
           (w1, ms1, Inl err) \<Rightarrow> (w1, Inl err)
         | (w1, ms1, Inr (chosen, used)) \<Rightarrow>
             (case confirmEndpointArgs env e (butlast ms1) (used_json used) chosen used w1 of
                (w2, ms2, Inl err) \<Rightarrow> (w2, Inl err)
              | (w2, ms2, Inr hints) \<Rightarrow>
                  (case generateTaskScript env e (butlast ms2) (JArr [used_json used, hints_json hints]) w2 of
                     (w3, ms3, Inl err) \<Rightarrow> (w3, Inl err)
                   | (w3, ms3, Inr (est, mainTs, pkg)) \<Rightarrow>
                       (if \<not> ev_methods e then (w3, Inl (TypeError ''reqEvent.getTaskCwd is not a function''))
                        else (case getTaskCwd upload (taskId e) of
                                Inl err \<Rightarrow> (w3, Inl err)
                              | Inr cwd \<Rightarrow> installScriptFiles env pnpm cwd mainTs pkg (used_json used) (hints_json hints) w3))))))"

definition map2Endpoints :: "agent_env \<Rightarrow> (agent_world \<Rightarrow> string option option) \<Rightarrow> string \<Rightarrow> (endpoint list \<Rightarrow> json) \<Rightarrow> (candidates list \<Rightarrow> json) \<Rightarrow> past list \<Rightarrow>
    req_event \<Rightarrow> agent_world \<Rightarrow> agent_world \<times> req_event \<times> unit result" where
  "map2Endpoints env pnpm upload args cargs histories e w =
     (case ctx_of e of
        Inl err \<Rightarrow> (w, e, Inl err)
      | Inr c \<Rightarrow>
          (if cx_endpoints c = [] then (w, e, Inl (NotFound (''No endpoints for mapping, ClientRequestEvent#'' @ ev_id e)))
           else if nonempty_str (cx_epName c) then
             (case map2Endpoint env e c (cx_endpoints c) w of
                (w1, Inl err) \<Rightarrow> (w1, e, Inl err)
              | (w1, Inr requestArgs) \<Rightarrow> (w1, upd_ctx (\<lambda>c. c\<lparr>cx_map2 := Some requestArgs\<rparr>) e, Inr ()))
           else
             (case plan env pnpm upload args cargs histories e c (cx_endpoints c) w of
                (w1, Inl err) \<Rightarrow> (w1, e, Inl err)
              | (w1, Inr _) \<Rightarrow> (w1, upd_ctx (\<lambda>c. c\<lparr>cx_map2 := Some None\<rparr>) e, Inr ()))))"

section \<open>Lemmas\<close>

lemma chat_messages:
  assumes "chat env template original args spec w = (w', ms, Inr ret)"
  shows "original \<noteq> [] \<and> mg_role (last original) = R_user \<and> butlast ms = original"
proof -
  obtain w0 pr where p: "prompt_of env template args w = (w0, pr)" by fastforce
  with assms obtain prompt where pr: "pr = Inr prompt" by (cases pr) (auto simp: chat_def)
  have "mg_role (last (\<lparr>mg_role = R_system, mg_content = JStr prompt\<rparr> # original)) = R_user"
    using assms p pr by (auto simp: chat_def Let_def split: if_splits)
  moreover have "ms = original @ [last ms]"
    using assms p pr by (auto simp: chat_def Let_def split: if_splits prod.splits turn.splits)
  ultimately show ?thesis by (cases "original = []") (auto simp: butlast_append split: if_splits, metis butlast_snoc)
qed

lemma choose_once_messages:
  "choose_once env t e msgs args eps w = (w', ms, Inr ps) \<Longrightarrow> ms = msgs \<and> distinct (map pu_key ps)"
  by (auto simp: choose_once_def choice_purposes_def uniqueBy_def uniqueBy_from_distinct dest: chat_messages
      split: prod.splits sum.splits parsed.splits option.splits)

text \<open>The candidates of a purpose are the endpoints that the choices name for it.\<close>

definition names_ep :: "string \<Rightarrow> purpose \<Rightarrow> bool" where
  "names_ep k p \<longleftrightarrow> pu_key p = k \<and> nonempty_str (pu_ep p)"

lemma fold_purposes:
  "(\<forall>k c. obj_get m k = Some c \<longrightarrow> cs_eps c = f k) \<Longrightarrow> (\<forall>k. obj_get m k = None \<longrightarrow> f k = []) \<Longrightarrow>
   obj_get (fold add_purpose ps m) k = Some c \<Longrightarrow>
   cs_eps c = f k @ map (\<lambda>p. (the (pu_ep p), pu_descr p)) (filter (names_ep k) ps)"
proof (induction ps arbitrary: m f)
  case (Cons p ps)
  let ?g = "\<lambda>k. f k @ (if names_ep k p then [(the (pu_ep p), pu_descr p)] else [])"
  have 1: "\<forall>k c. obj_get (add_purpose p m) k = Some c \<longrightarrow> cs_eps c = ?g k"
    using Cons.prems(1,2) by (auto simp: add_purpose_def Let_def names_ep_def split: option.splits)
  have 2: "\<forall>k. obj_get (add_purpose p m) k = None \<longrightarrow> ?g k = []"
    using Cons.prems(2) by (auto simp: add_purpose_def Let_def names_ep_def split: if_splits)
  from Cons.IH [OF 1 2] Cons.prems(3) show ?case by simp
qed simp

lemma merge_purposes_eps:
  "obj_get (merge_purposes ps) k = Some c \<Longrightarrow> cs_eps c = map (\<lambda>p. (the (pu_ep p), pu_descr p)) (filter (names_ep k) ps)"
  using fold_purposes [of "[]" "\<lambda>k. []" ps k c] by (simp add: merge_purposes_def)

lemma filter_key_length: "distinct (map key xs) \<Longrightarrow> length (filter (\<lambda>x. key x = k \<and> P x) xs) \<le> 1"
proof (induction xs)
  case (Cons x xs)
  then have "filter (\<lambda>x. key x = k \<and> P x) xs = []" if "key x = k"
    using that by (auto simp: filter_empty_conv) (metis image_eqI)
  with Cons show ?case by auto
qed simp

lemma merge_purposes_keys: "distinct (map fst m) \<Longrightarrow> distinct (map fst (fold add_purpose ps m))"
  by (induction ps arbitrary: m)
    (auto simp: add_purpose_def Let_def distinct_obj_set [unfolded obj_keys_def] split: option.splits)

lemma merge_purposes_member:
  "c \<in> set (map snd (merge_purposes ps)) \<Longrightarrow> \<exists>k. cs_eps c = map (\<lambda>p. (the (pu_ep p), pu_descr p)) (filter (names_ep k) ps)"
  using merge_purposes_keys [of "[]" ps] merge_purposes_eps [of ps]
  by (auto simp: merge_purposes_def obj_get_def)

lemma names_ep_length: "distinct (map pu_key ps) \<Longrightarrow> length (filter (names_ep k) ps) \<le> 1"
  using filter_key_length [of pu_key ps k "\<lambda>p. nonempty_str (pu_ep p)"] by (simp add: names_ep_def [abs_def])

definition finished :: "past \<Rightarrow> bool" where
  "finished h \<longleftrightarrow> pa_status h \<notin> {Some 1, Some 2}"

lemma finished_messages:
  assumes "\<forall>h\<in>set hs. finished h"
  shows "concat (map (past_messages env) hs) = [] \<or> mg_role (last (concat (map (past_messages env) hs))) \<noteq> R_user"
  using assms
proof (induction hs rule: rev_induct)
  case (snoc h hs)
  then show ?case by (cases "past_messages env h") (auto simp: past_messages_def finished_def last_append split: if_splits option.splits)
qed simp

lemma running_messages:
  assumes "statusCode e = Some 1" and "\<forall>h\<in>set hs. finished h"
  shows "butlast (task_messages env hs (current_of e c)) = [] \<or>
    mg_role (last (butlast (task_messages env hs (current_of e c)))) \<noteq> R_user"
  using finished_messages [OF assms(2), of env] assms(1)
  by (simp add: task_messages_def current_of_def past_messages_def butlast_append)

lemma chat_refused:
  assumes "original = [] \<or> mg_role (last original) \<noteq> R_user"
  shows "\<exists>w' err. chat env template original args spec w = (w', original, Inl err) \<and> lw_requests w' = lw_requests w"
proof -
  obtain w0 pr where p: "prompt_of env template args w = (w0, pr)" by fastforce
  note prompt_of_world [OF p]
  with assms p show ?thesis by (cases pr) (auto simp: chat_def Let_def)
qed

text \<open>Without a purpose of two candidates the confirmation asks nothing: the messages stay as they are.\<close>

lemma confirmEndpoints_quiet:
  assumes "\<forall>c\<in>set cs. length (cs_eps c) \<le> 1"
  shows "fst (confirmEndpoints env e msgs cargs eps cs w) = w \<and> fst (snd (confirmEndpoints env e msgs cargs eps cs w)) = msgs"
proof -
  have "\<not> (\<exists>c\<in>set cs. 2 < length (cs_eps c))" "\<not> (\<exists>c\<in>set cs. length (cs_eps c) = 2)" using assms by fastforce+
  then show ?thesis by (simp add: confirmEndpoints_def Let_def)
qed

lemma candidates_bound:
  assumes "distinct (map pu_key ps0)" and "distinct (map pu_key ps1)" and "c \<in> set (map snd (merge_purposes (ps1 @ ps0)))"
  shows "length (cs_eps c) \<le> 2"
proof -
  from merge_purposes_member [OF assms(3)] obtain k
    where "cs_eps c = map (\<lambda>p. (the (pu_ep p), pu_descr p)) (filter (names_ep k) (ps1 @ ps0))" by blast
  with names_ep_length [OF assms(1), of k] names_ep_length [OF assms(2), of k] show ?thesis by simp
qed

lemma candidates_single:
  assumes "distinct (map pu_key ps0)" and "distinct (map pu_key ps1)" and "c \<in> set (map snd (merge_purposes (ps1 @ ps0)))"
    and disj: "\<forall>p\<in>set ps0. \<forall>q\<in>set ps1. pu_key p = pu_key q \<longrightarrow> \<not> nonempty_str (pu_ep p) \<or> \<not> nonempty_str (pu_ep q)"
  shows "length (cs_eps c) \<le> 1"
proof -
  from merge_purposes_member [OF assms(3)] obtain k
    where c: "cs_eps c = map (\<lambda>p. (the (pu_ep p), pu_descr p)) (filter (names_ep k) (ps1 @ ps0))" by blast
  have "filter (names_ep k) ps0 = [] \<or> filter (names_ep k) ps1 = []"
    using disj by (auto simp: filter_empty_conv names_ep_def)
  with c names_ep_length [OF assms(1), of k] names_ep_length [OF assms(2), of k] show ?thesis by auto
qed

section \<open>Properties\<close>


definition ex_choice :: "bool \<Rightarrow> json" where
  "ex_choice first =
     JObj [(''unaddressedAPI'', JArr (if first then [] else [JObj [(''purposeKey'', JStr ''sum''), (''usedFor'', JStr ''adding''), (''needExternalAPI'', JBool False)]])),
           (''usedEndpoints'', JArr (if first then [JObj [(''purposeKey'', JStr ''list''), (''epName'', JStr ''pets''), (''description'', JStr ''d''),
              (''usedFor'', JStr ''listing''), (''needExternalAPI'', JBool True)]] else []))]"

definition ex_agent :: agent_env where
  "ex_agent = \<lparr>ag_llm = (ex_llm_env (OneModel ''m''))\<lparr>le_parser := (\<lambda>s. Inr (ex_choice (CHR ''a'' \<in> set s)))\<rparr>,
     ag_params = (\<lambda>_. Some (JObj [(''parameters'', JArr [])])),
     ag_eval = (\<lambda>s. if CHR ''q'' \<in> set s then Inr (IsFunction (\<lambda>req. Inr (Some (JObj [(''q'', req)])))) else Inr (IsOther ''undefined'')),
     ag_num = (\<lambda>_. ''0''), ag_dump = (\<lambda>_. ''{}''), ag_parse = (\<lambda>_. Inr (JObj [(''name'', JStr ''task'')])), ag_endpoint = (\<lambda>_. JNull)\<rparr>"

definition ex_endpoint :: endpoint where
  "ex_endpoint = \<lparr>en_id = ''n1'', en_name = ''pets'', en_path = ''/pets'', en_method = ''GET'', en_callgentId = ''cg'', en_entryId = ''s1'',
     en_adaptorKey = ''restAPI'', en_isAsync = False, en_cacheKey = None, en_cacheTtl = None, en_securities = []\<rparr>"

definition ex_agent_world :: "llm_answer list \<Rightarrow> agent_world" where
  "ex_agent_world as = \<lparr>aw_llm = (Llm.ex_world 9 as)\<lparr>lw_templates := map (\<lambda>t. (t, ''say hi'')) [''chooseEndpoints'', ''reChooseEndpoints'', ''map2Endpoint'']\<rparr>,
     aw_repo = [], aw_files = []\<rparr>"

definition ex_requirement :: req_event where
  "ex_requirement = (ex_call (JStr ''list the pets''))\<lparr>statusCode := Some 1, paidBy := Some ''u''\<rparr>"

lemma ex_toJSON:
  "toJSON parser ''{a}'' False = toJSON_parse parser ''{a}'' False ''{a}''"
  "toJSON parser ''{b}'' False = toJSON_parse parser ''{b}'' False ''{b}''"
  by (simp_all add: toJSON_def js_trim_def is_space_def to_lower_def lower_char_def fence_split.simps fence_match_def Let_def)

lemmas ex_agent_simps = toJSON_parse_def ex_agent_def ex_agent_world_def ex_requirement_def ex_call_def Llm.ex_world_def ex_llm_env_def Let_def prompt_of_def
  completion_def settle_def handleLlmCompletion_def ex_bank_check ex_answer_def judge_def parseResultSchema_def ex_toJSON checkJsonType_def js_entries_def
  check_entry_def own_value_def chosen_models_def model_name_def ex_bill_env_def

lemma ex_rounds:
  "\<exists>w1 ms1 w2 ms2. choose_once ex_agent ''chooseEndpoints'' ex_requirement (task_messages ex_agent [] (current_of ex_requirement ex_ctx)) JNull
       [ex_endpoint] (ex_agent_world [ex_answer ''{a}'', ex_answer ''{b}'']) =
     (w1, ms1, Inr [\<lparr>pu_key = ''list'', pu_usedFor = ''listing'', pu_external = True, pu_ep = Some ''pets'', pu_descr = ''d''\<rparr>]) \<and>
   choose_once ex_agent ''reChooseEndpoints'' ex_requirement ms1 JNull [] w1 =
     (w2, ms2, Inr [\<lparr>pu_key = ''sum'', pu_usedFor = ''adding'', pu_external = False, pu_ep = None, pu_descr = ''undefined''\<rparr>])"
  by (simp add: choose_once_def chat_def chat_spec_def task_messages_def past_messages_def current_of_def numeral_3_eq_3 chat_body_def ex_agent_simps
    choice_schema_def ex_choice_def validate_choice_def length_of_def json_at_def has_length_def every_known_def known_endpoint_def
    str_at_def ex_endpoint_def choice_purposes_def uniqueBy_def purpose_of_def undef_str_def items_of_def)


section \<open>Kept functions and finished hints\<close>

text \<open>What JavaScript does with a source text that is the print of a falsy value: it is no function.\<close>

definition falsy_no_function :: "agent_env \<Rightarrow> bool" where
  "falsy_no_function env \<longleftrightarrow> (\<forall>v f. \<not> truthy_opt v \<longrightarrow> toFunction (ag_eval env) (undef_str (ag_num env) v) \<noteq> Inr f)"

lemma generate_map_keeps:
  assumes "generate_map env e c eps key w = (w', Inr r)" and "falsy_no_function env"
  shows "\<exists>code. map_of (aw_repo w') key = Some code \<and> run_args env code (cx_req c) = Inr r"
  using assms by (auto simp: generate_map_def Let_def run_args_def outcome_simps falsy_no_function_def update_Some_unfold AList.update_conv'
      split: prod.splits sum.splits parsed.splits option.splits if_splits)

text \<open>C38. A mapping is learned once: when a call of a named endpoint has been mapped to arguments, the same request
  from the same entry is mapped to the same arguments again, without any request to the language model and
  without any change of the stored functions.\<close>

theorem learned_mapping_is_reused:
  assumes "map2Endpoint env e c eps w = (w', Inr r)" and "falsy_no_function env"
  shows "map2Endpoint env e c eps w' = (w', Inr r)"
proof -
  let ?ep = "str_or (cx_epName c) []"
  from assms(1) obtain n where n: "find (\<lambda>n. en_name n = ?ep) eps = Some n"
    by (cases "find (\<lambda>n. en_name n = ?ep) eps") (auto simp: map2Endpoint_def)
  show ?thesis
  proof (cases "no_params (ag_params env (en_id n))")
    case True
    with n assms(1) show ?thesis by (simp add: map2Endpoint_def)
  next
    case False
    let ?key = "(srcId e, en_id n)"
    have "(w' = w \<and> (\<exists>code. map_of (aw_repo w) ?key = Some code \<and> run_args env code (cx_req c) = Inr r)) \<or>
        generate_map env e c eps ?key w = (w', Inr r)"
      using assms(1) n False by (auto simp: map2Endpoint_def Let_def split: option.splits sum.splits)
    with generate_map_keeps assms(2) obtain code where
      "map_of (aw_repo w') ?key = Some code" "run_args env code (cx_req c) = Inr r" by blast
    with n False show ?thesis by (simp add: map2Endpoint_def Let_def)
  qed
qed

theorem learned_mapping_is_reused_witness:
  "map2Endpoint ex_agent ex_requirement (ex_ctx\<lparr>cx_epName := Some ''pets''\<rparr>) [ex_endpoint]
      ((ex_agent_world [])\<lparr>aw_repo := [((srcId ex_requirement, ''n1''), ''q'')]\<rparr>) =
    ((ex_agent_world [])\<lparr>aw_repo := [((srcId ex_requirement, ''n1''), ''q'')]\<rparr>, Inr (Some (JObj [(''q'', cx_req ex_ctx)])))"
proof (rule learned_mapping_is_reused [where w = "(ex_agent_world [])\<lparr>aw_repo := [((srcId ex_requirement, ''n1''), ''q'')]\<rparr>"])
  have "CHR ''q'' \<notin> set (undef_str (ag_num ex_agent) v)" if "\<not> truthy_opt v" for v
    using that by (cases v; cases "the v") (auto simp: undef_str_def ex_agent_def)
  then show "falsy_no_function ex_agent"
    by (auto simp: falsy_no_function_def toFunction_def ex_agent_def)
qed (simp add: map2Endpoint_def ex_endpoint_def no_params_def ex_agent_def run_args_def toFunction_def Let_def)

lemma json_prop_array: "(\<exists>x\<in>set k. \<not> is_digit x) \<Longrightarrow> json_prop k (JArr xs) = JNull"
proof -
  assume k: "\<exists>x\<in>set k. \<not> is_digit x"
  have "k \<notin> range show_nat" using k show_nat_digits by blast
  then have "map_of (map (\<lambda>(i, x). (show_nat i, x)) (enumerate 0 xs)) k = None" by (auto simp: map_of_eq_None_iff)
  then show ?thesis by (simp add: json_prop_def)
qed

definition named :: "string \<Rightarrow> bool" where
  "named k \<longleftrightarrow> (\<exists>x\<in>set k. \<not> is_digit x)"

lemma json_prop_without: "named k \<Longrightarrow> json_prop k (json_without k' j) = (if k = k' then JNull else json_prop k j)"
  using json_prop_array [of k] by (cases j) (auto simp: json_without_def json_prop_def named_def)

lemma json_prop_with: "named k \<Longrightarrow> k \<noteq> k' \<Longrightarrow> json_prop k (json_with k' v j) = json_prop k j"
  by (cases j) (auto simp: json_with_def json_prop_def)

lemma json_prop_with_same: "named k \<Longrightarrow> json_prop k (json_with k v j) = v \<or> json_prop k (json_with k v j) = JNull"
  using json_prop_array [of k] by (cases j) (auto simp: json_with_def json_prop_def named_def)

lemma named_keys [simp]:
  "named ''mapping''" "named ''mismatch''" "named ''conversion''" "named ''args''" "named user_key" "named api_key_name"
  by (simp_all add: named_def is_digit_def user_key_def api_key_name_def)

lemma key_names: "''mapping'' \<noteq> user_key" "''mapping'' \<noteq> api_key_name" "user_key \<noteq> api_key_name"
  by (simp_all add: user_key_def api_key_name_def)

lemma falsy_prop: "\<not> truthy m \<Longrightarrow> json_prop k m = JNull"
  by (cases m) (auto simp: json_prop_def)

definition settled_arg :: "json \<Rightarrow> bool" where
  "settled_arg a \<longleftrightarrow> json_prop ''mismatch'' (json_prop ''mapping'' a) = JNull \<and> json_prop ''conversion'' (json_prop ''mapping'' a) = JNull"

definition open_question :: "json \<Rightarrow> bool" where
  "open_question a \<longleftrightarrow> truthy (json_prop ''flag'' (json_prop user_key a)) \<and> truthy (json_prop ''needConfirm'' (json_prop user_key a))"

lemma clean_user_mapping: "clean_user a = (a', q) \<Longrightarrow> json_prop ''mapping'' a' = json_prop ''mapping'' a \<and> (q = None \<longleftrightarrow> \<not> open_question a)"
  by (auto simp: clean_user_def Let_def open_question_def json_prop_with json_prop_without key_names split: if_splits)

lemma clean_arg_settled:
  assumes "clean_arg a = Inr (a', None, False)"
  shows "settled_arg a' \<and> \<not> open_question a"
proof -
  let ?m = "json_prop ''mapping'' a"
  obtain a1 q where u: "clean_user a = (a1, q)" by fastforce
  let ?a2 = "if has_length (Some (json_prop api_key_name a)) then a1 else json_without api_key_name a1"
  have m2: "json_prop ''mapping'' ?a2 = ?m" using clean_user_mapping [OF u] by (simp add: json_prop_without key_names)
  show ?thesis
  proof (cases "truthy ?m")
    case False
    with assms u have "a' = ?a2" "q = None" by (auto simp: clean_arg_def Let_def)
    with m2 False clean_user_mapping [OF u] show ?thesis by (simp add: settled_arg_def falsy_prop)
  next
    case True
    with assms u have "a' = json_with ''mapping'' (json_without ''conversion'' (json_without ''mismatch'' ?m)) ?a2" "q = None"
      by (auto simp: clean_arg_def Let_def split: if_splits)
    with clean_user_mapping [OF u] json_prop_with_same [of "''mapping''" "json_without ''conversion'' (json_without ''mismatch'' ?m)" ?a2]
    show ?thesis by (auto simp: settled_arg_def json_prop_without falsy_prop)
  qed
qed

lemma args_of_with:
  assumes "args_of h = Inr args"
  shows "args_of (json_with ''args'' (JArr xs) h) = Inr xs"
proof (cases h)
  case (JArr ys)
  with json_prop_array [of "''args''" ys] assms show ?thesis by (simp add: args_of_def is_digit_def)
qed (use assms in \<open>auto simp: args_of_def json_with_def json_prop_def\<close>)

text \<open>Hints that are finished leave nothing open: no argument of them keeps a mapping with a mismatch or a
  conversion, and none carries the user's answer with a question in it.\<close>

theorem finished_hints_are_settled:
  assumes "finish_hints env hints = Inr hs"
  shows "list_all2 (\<lambda>h h'. \<exists>args args'. args_of h = Inr args \<and> args_of h' = Inr args' \<and> length args' = length args \<and>
     (\<forall>a\<in>set args. \<not> open_question a) \<and> (\<forall>a\<in>set args'. settled_arg a)) hints hs"
proof -
  from assms obtain cleaned where c: "map_result (clean_hint env) hints = Inr cleaned" "hs = map fst cleaned"
    "\<forall>(h, qs, missing)\<in>set cleaned. \<not> missing \<and> qs = []"
    by (auto simp: finish_hints_def outcome_simps split: if_splits) blast
  have "\<exists>args args'. args_of h = Inr args \<and> args_of (fst p) = Inr args' \<and> length args' = length args \<and>
     (\<forall>a\<in>set args. \<not> open_question a) \<and> (\<forall>a\<in>set args'. settled_arg a)" if "clean_hint env h = Inr p" "p \<in> set cleaned" for h p
  proof -
    from that(1) obtain args out where a: "args_of h = Inr args" "map_result clean_arg args = Inr out"
      "p = (json_with ''args'' (JArr (map fst out)) h,
            List.map_filter (\<lambda>(a, c, _). map_option (\<lambda>q. ''- ['' @ key_of env h @ ''] '' @ undef_str (ag_num env) (json_at ''argName'' a) @ '': '' @ q) c) out,
            (\<exists>(a, c, missing)\<in>set out. missing))" by (auto simp: clean_hint_def outcome_simps)
    have none: "c = None \<and> \<not> m" if "(b, c, m) \<in> set out" for b c m
    proof -
      show ?thesis using c(3) \<open>p \<in> set cleaned\<close> that unfolding a(3) by (force simp: List.map_filter_def filter_empty_conv)
    qed
    have l: "list_all2 (\<lambda>x y. clean_arg x = Inr y) args out" using a(2) by (simp add: map_result_Inr)
    have "args_of (fst p) = Inr (map fst out)"
      using args_of_with [OF a(1)] unfolding a(3) by simp
    moreover have "settled_arg b" if "b \<in> set (map fst out)" for b
    proof -
      from that obtain c m where o: "(b, c, m) \<in> set out" by auto
      with l obtain x where "clean_arg x = Inr (b, c, m)" by (auto simp: list_all2_conv_all_nth in_set_conv_nth)
      with none [OF o] clean_arg_settled show ?thesis by auto
    qed
    moreover have "\<not> open_question x" if "x \<in> set args" for x
    proof -
      from that l obtain b c m where "(b, c, m) \<in> set out" "clean_arg x = Inr (b, c, m)"
        by (auto simp: list_all2_conv_all_nth in_set_conv_nth) (metis nth_mem prod_cases3)
      with none clean_arg_settled show ?thesis by (metis (full_types))
    qed
    ultimately show ?thesis using a(1) list_all2_lengthD [OF l] by auto
  qed
  then show ?thesis using c(1,2) by (auto simp: map_result_Inr list_all2_conv_all_nth)
qed

definition ex_hint :: "string \<Rightarrow> json" where
  "ex_hint question = JObj [(''purposeKey'', JStr ''list''), (''args'', JArr [JObj [(''argName'', JStr ''parameters.limit''),
     (user_key, JObj [(''flag'', JBool True), (''userProvided'', JStr ''10''), (''needConfirm'', JStr question)]),
     (''mapping'', JObj [(''from'', JStr ''text''), (''mismatch'', JBool False), (''conversion'', JObj [(''missing'', JBool False)])])]])]"

theorem finished_hints_are_settled_witness:
  "\<exists>h'. finish_hints ex_agent [ex_hint []] = Inr [h'] \<and> (\<exists>args'. args_of h' = Inr args' \<and> (\<forall>a\<in>set args'. settled_arg a))"
proof -
  have "\<exists>h'. finish_hints ex_agent [ex_hint []] = Inr [h']"
    by (simp add: finish_hints_def clean_hint_def args_of_def ex_hint_def clean_arg_def clean_user_def json_prop_def user_key_def
        api_key_name_def json_with_def json_without_def has_length_def obj_set_def obj_del_def Let_def List.map_filter_def)
  then obtain h' where h: "finish_hints ex_agent [ex_hint []] = Inr [h']" by blast
  from finished_hints_are_settled [OF h] h show ?thesis by auto
qed

end
