(* ===== verification/Pipeline.thy ===== *)
theory Pipeline
  imports Invoke RestApi ScriptAgent
begin

text \<open>
  The services put together: the listeners that \<open>prisma/seed.ts\<close> installs for a client request are
  bound to the models of the services they name, the REST adaptor to the processor chain, and a call
  is followed from the controller's event to its answer. The HTTP client of the adaptor, the spawner
  of task scripts and the adaptors of other protocols are parameters.
\<close>

section \<open>Binding the services\<close>

record 'w tables =
  tb_entries :: entry_db
  tb_agent :: agent_world
  tb_sep :: "'w sep_world"

record 'w site =
  si_registry :: Entries.registry
  si_prep :: "string \<Rightarrow> req_event \<Rightarrow> entry_row option \<Rightarrow> req_event result"
  si_server :: "string \<Rightarrow> 'w sep_adaptor"
  si_realms :: realm_env
  si_agent :: agent_env
  si_pnpm :: "agent_world \<Rightarrow> string option option"
  si_upload :: string
  si_args :: "endpoint list \<Rightarrow> json"
  si_cargs :: "candidates list \<Rightarrow> json"
  si_eval :: key_evaluator
  si_queue :: "(string \<times> json option) list \<Rightarrow> 'w \<Rightarrow> 'w"
  si_spawn :: "'w spawner"

type_synonym 'w site_app = "(req_ctx, 'w tables) app"

text \<open>The REST adaptor as the chain calls it: the entry must exist, the answer is data, and nothing is
  done after it.\<close>

definition rest_adaptor :: "(json \<Rightarrow> axios_response result) \<Rightarrow> 'w sep_adaptor" where
  "rest_adaptor client =
     \<lparr>ad_invoke = (\<lambda>en args sen w e st.
        (w, e, st, case sen of None \<Rightarrow> Inl (TypeError ''Cannot read properties of null (reading host)'')
                   | Some y \<Rightarrow> and_then (restInvoke client (str_at ''host'' y) e) (\<lambda>j. Inr (Some (data_response (Some j)))))),
      ad_postprocess = (\<lambda>j en w e st. (w, e, Inr j))\<rparr>"

interpretation rest_calls: sync_adaptor "rest_adaptor client" for client
  by unfold_locales (auto simp: rest_adaptor_def outcome_simps data_response_def split: option.splits)

definition entry_json :: "entry_row \<Rightarrow> json" where
  "entry_json y = present [(''id'', Some (JStr (ey_id y))), (''host'', map_option JStr (ey_host y))]"

definition sep_env_of :: "'w site \<Rightarrow> 'w tables \<Rightarrow> 'w sep_env" where
  "sep_env_of s tb =
     \<lparr>realm_fun = realm_methods (si_realms s),
      get_adaptor = (\<lambda>k. case getAdaptor (si_registry s) k (Some ET_SERVER) of Inr (Some t) \<Rightarrow> Some (si_server s t) | _ \<Rightarrow> None),
      find_entry = (\<lambda>i. map_option entry_json (find (\<lambda>y. ey_id y = i) (ed_entries (tb_entries tb)))),
      eval_key = si_eval s\<rparr>"

definition invoke_env_of :: "'w site \<Rightarrow> 'w tables \<Rightarrow> 'w invoke_env" where
  "invoke_env_of s tb = \<lparr>ie_sep = sep_env_of s tb, ie_queue = si_queue s\<rparr>"

section \<open>The listeners\<close>

definition from_event :: "(req_event \<Rightarrow> req_event result) \<Rightarrow> (req_ctx, 'v) service_fun" where
  "from_event f = (\<lambda>w e. case f e of Inl err \<Rightarrow> (w, e, Inl err) | Inr e1 \<Rightarrow> (w, e1, Inr None))"

definition from_check :: "(req_event \<Rightarrow> check_out) \<Rightarrow> (req_ctx, 'v) service_fun" where
  "from_check f = (\<lambda>w e. case f e of
       (e1, Inl err) \<Rightarrow> (w, e1, Inl err)
     | (e1, Inr None) \<Rightarrow> (w, e1, Inr None)
     | (e1, Inr (Some g)) \<Rightarrow> (w, e1, Inr (Some \<lparr>sr_data = Some e1, sr_resume = g\<rparr>)))"

definition past_of :: "req_ctx event_row \<Rightarrow> past" where
  "past_of r = (let e = row_event r; c = ev_ctx e in
     \<lparr>pa_status = Some (row_status r), pa_message = message e, pa_req = (case c of None \<Rightarrow> JNull | Some x \<Rightarrow> cx_req x),
      pa_resp = (case c of None \<Rightarrow> None | Some x \<Rightarrow> cx_resp x)\<rparr>)"

text \<open>The histories are the rows that \<open>loadClientEventHistories\<close> attaches to the event; the store changes
  only when the run ends, so the planner may read them when it needs them.\<close>

definition histories_of :: "'w site_app \<Rightarrow> req_event \<Rightarrow> past list" where
  "histories_of w e = (case loadClientEventHistories (app_store w) e of None \<Rightarrow> [] | Some rs \<Rightarrow> map past_of rs)"

definition map_listener :: "'w site \<Rightarrow> (req_ctx, 'w tables) service_fun" where
  "map_listener s w e =
     (let tb = app_world w
      in case map2Endpoints (si_agent s) (si_pnpm s) (si_upload s) (si_args s) (si_cargs s) (histories_of w e) e (tb_agent tb) of
           (aw, e1, Inl err) \<Rightarrow> (w\<lparr>app_world := tb\<lparr>tb_agent := aw\<rparr>\<rparr>, e1, Inl err)
         | (aw, e1, Inr _) \<Rightarrow> (w\<lparr>app_world := tb\<lparr>tb_agent := aw\<rparr>\<rparr>, e1, Inr None))"

definition from_runner :: "('w sep_world \<Rightarrow> req_event \<Rightarrow> 'w runner_out) \<Rightarrow> (req_ctx, 'w tables) service_fun" where
  "from_runner f w e =
     (let tb = app_world w
      in case f (tb_sep tb) e of
           (sw, e1, Inl err) \<Rightarrow> (w\<lparr>app_world := tb\<lparr>tb_sep := sw\<rparr>\<rparr>, e1, Inl err)
         | (sw, e1, Inr None) \<Rightarrow> (w\<lparr>app_world := tb\<lparr>tb_sep := sw\<rparr>\<rparr>, e1, Inr None)
         | (sw, e1, Inr (Some g)) \<Rightarrow> (w\<lparr>app_world := tb\<lparr>tb_sep := sw\<rparr>\<rparr>, e1, Inr (Some \<lparr>sr_data = Some e1, sr_resume = Some g\<rparr>)))"

definition on_fun :: "string \<Rightarrow> 'f \<Rightarrow> string \<Rightarrow> 'f option" where
  "on_fun name f g = (if g = name then Some f else None)"

text \<open>Four rounds of fuel are enough for the script runner, as theory Invoke shows.\<close>

definition callgent_services :: "'w site \<Rightarrow> (req_ctx, 'w tables) EventListeners.registry" where
  "callgent_services s name =
     Inr (if name = ''EntriesService'' then
            Some (on_fun ''preprocessClientRequest''
              (\<lambda>w e. from_event (preprocessClientRequest (si_registry s) (si_prep s) (tb_entries (app_world w))) w e))
          else if name = ''CallgentRealmsService'' then
            Some (\<lambda>g. if g = ''checkCenAuth'' then Some (from_check (checkCenAuth (si_realms s)))
              else if g = ''postValidateToken'' then Some (from_check (postValidateToken (si_realms s)))
              else if g = ''postAcquireSecret'' then Some (from_check (postAcquireSecret (si_realms s)))
              else if g = ''postExchangeToken'' then Some (from_check (postExchangeToken (si_realms s)))
              else None)
          else if name = ''EventStoresService'' then Some (on_fun ''loadClientEventHistories'' (\<lambda>w e. (w, e, Inr None)))
          else if name = ''EndpointsService'' then
            Some (on_fun ''loadEndpoints'' (\<lambda>w e. from_event (loadEndpoints (tb_entries (app_world w))) w e))
          else if name = ''ScriptAgentService'' then Some (on_fun ''map2Endpoints'' (map_listener s))
          else if name = ''ScriptRunnerAgent'' then
            Some (\<lambda>g. if g = ''runAndFix'' then
                Some (\<lambda>w e. from_runner (runAndFix 4 (invoke_env_of s (app_world w)) (si_spawn s) Invoke.fixScriptError) w e)
              else if g = ''runAndFixCallback'' then
                Some (\<lambda>w e. from_runner (runAndFixCallback 4 (invoke_env_of s (app_world w)) (si_spawn s) Invoke.fixScriptError (app_cls w)) w e)
              else None)
          else None)"

section \<open>Facts\<close>

lemma rest_listeners:
  assumes "dtype \<noteq> ''Webpage''"
  shows "loadListeners seed_listeners src ''CLIENT_REQUEST'' dtype False = Inr (filter (\<lambda>l. l_dataType l = ''*'') seed_listeners)"
  using assms by (simp add: loadListeners_def seed_listeners_def seed_listener_def listener_matches_def js_sort_def
      listener_cmp_def Let_def)

text \<open>An open, synchronous endpoint that is not cached, behind the REST adaptor.\<close>

definition open_endpoint :: "'w site \<Rightarrow> 'w tables \<Rightarrow> (json \<Rightarrow> axios_response result) \<Rightarrow> endpoint \<Rightarrow> string \<Rightarrow> bool" where
  "open_endpoint s tb client en host \<longleftrightarrow>
     en_securities en = [] \<and> (\<exists>n<0. en_cacheTtl en = Some n) \<and>
     (\<exists>sen. re_entry (si_realms s) (en_entryId en) = Some sen \<and> ey_securities sen = []) \<and>
     (\<exists>row. find (\<lambda>y. ey_id y = en_entryId en) (ed_entries (tb_entries tb)) = Some row \<and> ey_host row = Some host) \<and>
     (\<exists>t. getAdaptor (si_registry s) (en_adaptorKey en) (Some ET_SERVER) = Inr (Some t) \<and> si_server s t = rest_adaptor client)"

lemma chain_open:
  assumes "open_endpoint s tb client en host" and look: "lookup_ok e st en" and new: "is_processor st = None" "is_cacheKey st = None"
    and inv: "restInvoke client (Some host) e = Inr j"
  shows "\<exists>st'. chain (sep_env_of s tb) q w e st = (w, e, st', Inr (Some (data_response (Some j))))"
proof -
  obtain n sen row t where o: "en_securities en = []" "n < 0" "en_cacheTtl en = Some n" "re_entry (si_realms s) (en_entryId en) = Some sen"
    "ey_securities sen = []" "find (\<lambda>y. ey_id y = en_entryId en) (ed_entries (tb_entries tb)) = Some row" "ey_host row = Some host"
    "getAdaptor (si_registry s) (en_adaptorKey en) (Some ET_SERVER) = Inr (Some t)" "si_server s t = rest_adaptor client"
    using assms(1) by (auto simp: open_endpoint_def)
  have auth: "realm_fun (sep_env_of s tb) ''checkSepAuth'' = Some (\<lambda>en w e. case checkSepAuth (si_realms s) en e of
                 (e1, Inl err) \<Rightarrow> (w, e1, Inl err) | (e1, Inr None) \<Rightarrow> (w, e1, Inr None) | (e1, Inr (Some f)) \<Rightarrow> (w, e1, Inr f))"
    by (simp add: sep_env_of_def realm_methods_def)
  have check: "checkSepAuth (si_realms s) en e = (e, Inr None)"
    using o(1,4,5) by (simp add: checkSepAuth_def checkSecurities_def)
  have miss: "fromCached (eval_key (sep_env_of s tb)) i en e t db = (db, Inr \<lparr>h_cacheKey = None, h_cacheTtl = None, h_response = None\<rparr>)" for i t db
    using o(2,3) by (simp add: fromCached_def loadCacheConfig_def reallyCache_def)
  have ad: "get_adaptor (sep_env_of s tb) (en_adaptorKey en) = Some (rest_adaptor client)"
    using o(8,9) by (simp add: sep_env_of_def)
  have ent: "find_entry (sep_env_of s tb) (en_entryId en) = Some (entry_json row)" "str_at ''host'' (entry_json row) = Some host"
    using o(6,7) by (simp_all add: sep_env_of_def entry_json_def present_def str_at_def json_at_def)
  have store: "toCache None ttl r en i t db = (db, Inr False)" for ttl r i t db by (simp add: toCache_def reallyCache_def)
  show ?thesis
    unfolding chain_lookup [OF look] invoke_chain_def
    using new auth check miss ad ent inv store
    by (simp add: process_auth_def process_cached_def process_invoke_def process_postprocess_def process_cache_def rest_adaptor_def
        proc_ctx_def enter_proc_def is_at_def advance_def sep_end_def upd_proc_def Let_def)
qed

lemma run_open:
  assumes "open_endpoint s tb client en host" and c: "ev_ctx e = Some c" "cx_map2 c = Some a" "cx_epName c = Some (en_name en)" "en_name en \<noteq> []"
    "cx_endpoints c = [en]" "cx_invocations c = []" "cx_securityItem c = None"
    and third: "axios_config (cx_req c) (Some host) False = Inr config" "client config = Inr resp"
  shows "runAndFix 4 (invoke_env_of s tb) spawn fixer w e =
    (w, e\<lparr>ev_ctx := Some (c\<lparr>cx_resp := Some (resp2json resp)\<rparr>), message := None\<rparr>, Inr None)"
proof -
  let ?st = "begin_invocation (cx_epName c) a [] c" and ?j = "resp2json resp"
  let ?e = "set_invocation [] ?st e"
  have st: "?st = fresh_status [] (Some (en_name en)) a" using c by (simp add: begin_invocation_def fresh_status_def)
  have "is_epName ?st = Some (en_name en)" by (simp add: st fresh_status_def)
  then have look: "lookup_ok ?e ?st en" using c by (simp add: lookup_ok_def set_invocation_def upd_ctx_def)
  have inv: "restInvoke client (Some host) ?e = Inr ?j"
    using c third by (simp add: restInvoke_def ctx_of_def set_invocation_def upd_ctx_def)
  obtain st' where ch: "chain (sep_env_of s tb) (si_queue s) w ?e ?st = (w, ?e, st', Inr (Some (data_response (Some ?j))))"
    using chain_open [OF assms(1) look _ _ inv] by (auto simp: st fresh_status_def)
  have "del_invocation [] ?e = e"
    using c by (cases e; cases c) (simp add: del_invocation_def set_invocation_def upd_ctx_def obj_set_def obj_del_def)
  with ch c(1) have "invokeSEP (invoke_env_of s tb) (cx_epName c) a [] w e = (w, e\<lparr>message := None\<rparr>, Inr (Some (data_response (Some ?j))))"
    by (simp add: invokeSEP_def invoke_env_of_def ctx_of_def Let_def)
  with c have "invokeSEPs (invoke_env_of s tb) spawn w e = (w, e\<lparr>message := None\<rparr>, Inr (Some (data_response (Some ?j))))"
    by (simp add: invokeSEPs_def ctx_of_def)
  with c(1) show ?thesis by (simp add: runAndFix_def handleResult.simps ctx_of_def upd_ctx_def)
qed

lemmas service_step_simps = seed_listeners_def seed_listener_def invokeListener_def invokeService_def callgent_services_def on_fun_def

lemma run_step:
  assumes "\<not> stopPropagation e" and "invokeListener reg l None w e = (w', e', Inr None)" and "\<not> stopPropagation e'" and "rest \<noteq> []"
  shows "run_listeners reg cur (l # rest) e None w = run_listeners reg (Some l) rest (e'\<lparr>statusCode := Some 1\<rparr>) None w'"
  using assms by (simp add: svc_event_def svc_resume_def Let_def)

lemma run_last:
  assumes "\<not> stopPropagation e" and "invokeListener reg l None w e = (w', e', Inr None)"
  shows "run_listeners reg cur [l] e None w = (w', e'\<lparr>statusCode := Some 0\<rparr>, None, Some l, [])"
  using assms by (simp add: svc_event_def svc_resume_def Let_def)

section \<open>Properties\<close>

text \<open>C1. A call of a named operation comes to its end: sent through an open client entry to an open, uncached
  REST endpoint without parameters, it passes all listeners in order, reaches the third party exactly as
  the adaptor configures it, and the caller gets the third party's answer with the third party's
  status; the run is stored as done.\<close>

theorem named_call_is_answered:
  assumes ev: "ev_ctx e = Some c" "\<not> stopPropagation e" "paidBy e = Some u" "eventType e = ''CLIENT_REQUEST''" "dataType e = ''restAPI''"
      "callback e = None"
    and ctx: "cx_epName c = Some (en_name en)" "en_name en \<noteq> []" "cx_invocations c = []" "cx_securityItem c = None"
    and req: "truthy (cx_req c)" "req2Json (cx_req c) = Inr req"
    and cep: "getAdaptor (si_registry s) ''restAPI'' (Some ET_CLIENT) = Inr (Some t)" "\<And>f y. si_prep s t f y = preprocess f"
      "re_entry (si_realms s) (srcId e) = Some cen" "ey_securities cen = []"
    and sep: "callgentEndpoints (cx_callgentId c) (cx_epName c) (tb_entries (app_world w)) = [en]"
      "open_endpoint s (app_world w) client en host" "no_params (ag_params (si_agent s) (en_id en))"
    and third: "axios_config req (Some host) False = Inr config" "client config = Inr resp"
  shows "\<exists>w' e' row a. emit (callgent_services s) seed_listeners e 0 late w = (w', Inr (Some e')) \<and> app_world w' = app_world w \<and>
    statusCode e' = Some 0 \<and> findEvent (app_store w') (ev_id e) = Some row \<and> row_status row = 0 \<and>
    answer True (Some e') = Inr a \<and> ha_status a = Some (JNum (of_int (ax_status resp)))"
proof -
  let ?ls = "filter (\<lambda>l. l_dataType l = ''*'') seed_listeners" and ?S = "callgent_services s" and ?tb = "app_world w"
  let ?E = "\<lambda>k. e\<lparr>ev_ctx := Some k, statusCode := Some 1\<rparr>"
  let ?c2 = "c\<lparr>cx_req := req\<rparr>"
  let ?c3 = "?c2\<lparr>cx_endpoints := [en]\<rparr>"
  let ?c4 = "?c3\<lparr>cx_map2 := Some (Some (JObj []))\<rparr>"
  let ?c5 = "?c4\<lparr>cx_resp := Some (resp2json resp)\<rparr>"
  let ?e5 = "(?E ?c4)\<lparr>ev_ctx := Some ?c5, message := None, statusCode := Some 0\<rparr>"
  let ?l = "\<lambda>i. ?ls ! i"
  have start: "e\<lparr>statusCode := Some 1\<rparr> = ?E c" using ev(1) by (cases e) simp
  have upd: "upd_ctx f (?E k) = ?E (f k)" for f k by (cases e) (simp add: upd_ctx_def)
  have again: "(?E k)\<lparr>statusCode := Some 1\<rparr> = ?E k" for k by simp
  have stop: "\<not> stopPropagation (?E k)" for k using ev(2) by simp
  have 1: "invokeListener ?S (?l 0) None w (?E c) = (w, ?E ?c2, Inr None)"
    using ev req cep(1,2) upd by (simp add: service_step_simps from_event_def preprocessClientRequest_def preprocess_def ctx_of_def)
  have 2: "invokeListener ?S (?l 1) None w (?E ?c2) = (w, ?E ?c2, Inr None)"
    using cep(3,4) by (simp add: service_step_simps from_check_def checkCenAuth_def checkSecurities_def)
  have 3: "invokeListener ?S (?l 2) None w (?E ?c2) = (w, ?E ?c2, Inr None)"
    by (simp add: service_step_simps)
  have 4: "invokeListener ?S (?l 3) None w (?E ?c2) = (w, ?E ?c3, Inr None)"
    using sep(1) upd by (simp add: service_step_simps from_event_def loadEndpoints_def ctx_of_def)
  have 5: "invokeListener ?S (?l 4) None w (?E ?c3) = (w, ?E ?c4, Inr None)"
    using ctx sep(3) upd by (simp add: service_step_simps map_listener_def map2Endpoints_def map2Endpoint_def ctx_of_def)
  have "runAndFix 4 (invoke_env_of s ?tb) (si_spawn s) Invoke.fixScriptError (tb_sep ?tb) (?E ?c4) =
      (tb_sep ?tb, (?E ?c4)\<lparr>ev_ctx := Some ?c5, message := None\<rparr>, Inr None)"
    by (rule run_open [OF sep(2), where c = ?c4]) (use ctx third in simp_all)
  then have 6: "invokeListener ?S (?l 5) None w (?E ?c4) = (w, (?E ?c4)\<lparr>ev_ctx := Some ?c5, message := None\<rparr>, Inr None)"
    by (simp add: service_step_simps from_runner_def)
  have ls: "?ls = [?l 0, ?l 1, ?l 2, ?l 3, ?l 4, ?l 5]" by (simp add: seed_listeners_def seed_listener_def)
  have "run_listeners ?S None [?l 0, ?l 1, ?l 2, ?l 3, ?l 4, ?l 5] (?E c) None w = (w, ?e5, None, Some (?l 5), [])"
    by (simp only: run_step [OF stop 1 stop] run_step [OF stop 2 stop] run_step [OF stop 3 stop] run_step [OF stop 4 stop]
        run_step [OF stop 5 stop] run_last [OF stop 6] again list.distinct not_False_eq_True)
  then have run: "\<exists>f. run_listeners ?S None ?ls (?E c) None w = (w, ?e5, f, Some (?l 5), [])"
    by (subst ls) blast
  then obtain f where run: "run_listeners ?S None ?ls (?E c) None w = (w, ?e5, f, Some (?l 5), [])" ..
  obtain st where up: "upsertEvent ?e5 (or_null f) (or_null None) (app_store w) = Inr st" using ev(3) by (simp add: upsertEvent_def)
  have inv: "invokeListeners ?S ?ls e None w = (w\<lparr>app_store := st\<rparr>, Inr ?e5)"
    unfolding invokeListeners_def start run using up by (simp add: next_listener_def)
  have em: "emit ?S seed_listeners e 0 late w = (w\<lparr>app_store := st\<rparr>, Inr (Some ?e5))"
    using inv ev rest_listeners [of "''restAPI''" "srcId e"] by (simp add: emit_def invokeCallback_def)
  obtain a where a: "answer True (Some ?e5) = Inr a" "ha_status a = Some (JNum (of_int (ax_status resp)))"
    by (cases "ax_data resp") (simp_all add: answer_def resp2json_def present_def json_at_def Let_def)
  obtain row where row: "findEvent st (ev_id e) = Some row" "row_status row = 0"
    using findEvent_upsert [OF up, of "ev_id e"] by simp
  show ?thesis
    by (intro exI [of _ "w\<lparr>app_store := st\<rparr>"] exI [of _ ?e5] exI [of _ row] exI [of _ a] conjI) (use em row a in simp_all)
qed

definition ex_served :: endpoint_row where
  "ex_served = \<lparr>en_id = ''n1'', en_name = ''GET /pets'', en_path = ''/pets'', en_method = ''GET'', en_callgentId = ''cg'', en_entryId = ''s1'',
     en_adaptorKey = ''restAPI'', en_isAsync = False, en_cacheKey = None, en_cacheTtl = Some (- 1), en_securities = [], nr_pk = 1, nr_summary = None,
     nr_description = None, nr_servers = None, nr_params = None, nr_responses = None, nr_rawJson = JObj [], nr_createdBy = None\<rparr>"

definition ex_third_party :: "json \<Rightarrow> axios_response result" where
  "ex_third_party cfg = Inr \<lparr>ax_data = Some (JStr ''rex''), ax_headers = [], ax_status = 200, ax_statusText = ''OK''\<rparr>"

definition ex_site :: "unit site" where
  "ex_site = \<lparr>si_registry = ex_registry, si_prep = (\<lambda>_ e _. preprocess e), si_server = (\<lambda>_. rest_adaptor ex_third_party),
     si_realms = \<lparr>re_realms = [], re_identity = (\<lambda>u p. None),
        re_entry = (\<lambda>i. Some \<lparr>ey_id = i, ey_type = ET_CLIENT, ey_host = None, ey_callgentId = ''cg'', ey_securities = []\<rparr>), re_enc = id\<rparr>,
     si_agent = ex_agent\<lparr>ag_params := (\<lambda>_. None)\<rparr>, si_pnpm = (\<lambda>_. None), si_upload = ''upload'', si_args = (\<lambda>_. JNull), si_cargs = (\<lambda>_. JNull),
     si_eval = no_eval, si_queue = (\<lambda>_ w. w), si_spawn = (\<lambda>r i w e. (w, e, Inr None))\<rparr>"

definition ex_tables :: "unit tables" where
  "ex_tables = \<lparr>tb_entries = ex_db\<lparr>ed_entries := [ex_sep], ed_endpoints := [ex_served]\<rparr>, tb_agent = ex_agent_world [], tb_sep = SepChain.ex_world ()\<rparr>"

definition ex_named_call :: req_event where
  "ex_named_call = (ex_call JNull)\<lparr>dataType := ''restAPI'', ev_ctx := Some (ex_ctx\<lparr>cx_epName := Some ''GET /pets'', cx_req := JObj [(''url'', JStr ''/pets'')]\<rparr>)\<rparr>"

theorem named_call_is_answered_witness:
  "\<exists>w' e' a. emit (callgent_services ex_site) seed_listeners ex_named_call 0 False (empty_app ex_tables) = (w', Inr (Some e')) \<and>
     statusCode e' = Some 0 \<and> answer True (Some e') = Inr a \<and> ha_status a = Some (JNum 200)"
proof -
  let ?c = "ex_ctx\<lparr>cx_epName := Some ''GET /pets'', cx_req := JObj [(''url'', JStr ''/pets'')]\<rparr>" and ?en = "endpoint.truncate ex_served"
  have ev: "ev_ctx ex_named_call = Some ?c" "\<not> stopPropagation ex_named_call" "paidBy ex_named_call = Some ''u''"
    "eventType ex_named_call = ''CLIENT_REQUEST''" "dataType ex_named_call = ''restAPI''" "callback ex_named_call = None"
    by (simp_all add: ex_named_call_def ex_call_def ex_request_def clientRequestEvent_def newEvent_def)
  have en: "en_name ?en = ''GET /pets''" by (simp add: ex_served_def endpoint.defs)
  have ctx: "cx_epName ?c = Some (en_name ?en)" "en_name ?en \<noteq> []" "cx_invocations ?c = []" "cx_securityItem ?c = None"
    by (simp_all add: en ex_ctx_def)
  have req: "truthy (cx_req ?c)" "req2Json (cx_req ?c) = Inr (cx_req ?c)" by (simp_all add: req2Json_def json_at_def)
  have cep: "getAdaptor (si_registry ex_site) ''restAPI'' (Some ET_CLIENT) = Inr (Some ''R'')" "\<And>f y. si_prep ex_site ''R'' f y = preprocess f"
    "re_entry (si_realms ex_site) (srcId ex_named_call) = Some \<lparr>ey_id = srcId ex_named_call, ey_type = ET_CLIENT, ey_host = None, ey_callgentId = ''cg'', ey_securities = []\<rparr>"
    by (simp_all add: ex_site_def)
  have sep: "callgentEndpoints (cx_callgentId ?c) (cx_epName ?c) (tb_entries (app_world (empty_app ex_tables))) = [?en]"
    by (simp add: callgentEndpoints_def js_sort_def empty_app_def ex_tables_def ex_served_def ex_ctx_def)
  have op: "open_endpoint ex_site (app_world (empty_app ex_tables)) ex_third_party ?en ''http://pets.io''"
    by (simp add: open_endpoint_def ex_site_def ex_served_def endpoint.defs empty_app_def ex_tables_def ex_sep_def new_entry_def)
  have np: "no_params (ag_params (si_agent ex_site) (en_id ?en))" by (simp add: ex_site_def no_params_def)
  obtain cfg where cfg: "axios_config (cx_req ?c) (Some ''http://pets.io'') False = Inr cfg"
    by (simp add: axios_config_def obj_entries_def json_at_def)
  have third: "ex_third_party cfg = Inr \<lparr>ax_data = Some (JStr ''rex''), ax_headers = [], ax_status = 200, ax_statusText = ''OK''\<rparr>"
    by (simp add: ex_third_party_def)
  have open_cen: "ey_securities \<lparr>ey_id = srcId ex_named_call, ey_type = ET_CLIENT, ey_host = None, ey_callgentId = ''cg'', ey_securities = []\<rparr> = []" by simp
  from named_call_is_answered [OF ev ctx req cep(1) cep(2) cep(3) open_cen sep op np cfg third, of False] show ?thesis by fastforce
qed

end
