(* ===== verification/Tenancy.thy ===== *)
theory Tenancy
  imports Prelude
begin

text \<open>
  \<open>src/infras/repo/tenancy\<close>: tenant isolation. The tenant of a request is kept in the continuation-local
  store; before every query of a model the Prisma extension copies it into a setting of the database
  session, which the row level security policies of the tables read. The settings are local to a
  database transaction.
\<close>

section \<open>The database session\<close>

record pg_session =
  pg_tenantPk :: "string option"
  pg_bypass :: "string option"

definition fresh_session :: pg_session where
  "fresh_session = \<lparr>pg_tenantPk = None, pg_bypass = None\<rparr>"

text \<open>\<open>COALESCE(NULLIF(current_setting(..), ''), '0')::int\<close>; only numbers are ever written into the setting.\<close>

definition setting_int :: "string option \<Rightarrow> int" where
  "setting_int v = (case v of None \<Rightarrow> 0 | Some s \<Rightarrow> if s = [] then 0 else (case parse_int s of None \<Rightarrow> 0 | Some n \<Rightarrow> n))"

text \<open>The two policies of a table are permissive: a row that satisfies one of them can be read and written.\<close>

definition tenant_isolation_policy :: "pg_session \<Rightarrow> int \<Rightarrow> bool" where
  "tenant_isolation_policy s tenantPk \<longleftrightarrow> tenantPk = 0 \<or> tenantPk = setting_int (pg_tenantPk s)"

definition bypass_rls_policy :: "pg_session \<Rightarrow> bool" where
  "bypass_rls_policy s \<longleftrightarrow> pg_bypass s = Some ''on''"

definition row_visible :: "pg_session \<Rightarrow> int \<Rightarrow> bool" where
  "row_visible s tenantPk \<longleftrightarrow> tenant_isolation_policy s tenantPk \<or> bypass_rls_policy s"

section \<open>The extension of the client\<close>

text \<open>A query runs on the session. Outside a transaction the setting and the query share a transaction of
  their own, so the session is as before afterwards.\<close>

type_synonym 'a pg_query = "pg_session \<Rightarrow> pg_session \<times> 'a"

definition set_tenant :: "int \<Rightarrow> pg_session \<Rightarrow> pg_session" where
  "set_tenant t s = s\<lparr>pg_tenantPk := Some (show_int t)\<rparr>"

definition allOperations :: "int option \<Rightarrow> bool \<Rightarrow> 'a pg_query \<Rightarrow> 'a pg_query" where
  "allOperations tenantId inTx query s =
     (case tenantId of
        None \<Rightarrow> query s
      | Some t \<Rightarrow> if inTx then query (set_tenant t s) else (s, snd (query (set_tenant t s))))"

text \<open>\<open>bypassTenancy\<close> is a statement of its own: without a transaction around it, it has no effect.\<close>

definition bypassTenancy :: "bool \<Rightarrow> bool \<Rightarrow> pg_session \<Rightarrow> pg_session" where
  "bypassTenancy inTx bypass s = (if inTx then s\<lparr>pg_bypass := Some (if bypass then ''on'' else ''off'')\<rparr> else s)"

definition in_transaction :: "'a pg_query \<Rightarrow> 'a pg_query" where
  "in_transaction body s = (s, snd (body s))"

section \<open>Tables under the policies\<close>

text \<open>A tenanted table: \<open>ten\<close> reads the tenant of a row. The default of the column is the session's
  setting, which must exist; a row that leaves the policies is refused.\<close>

definition policy_violation :: js_error where
  "policy_violation = PlainError ''new row violates row-level security policy''"

definition default_tenantPk :: "pg_session \<Rightarrow> int result" where
  "default_tenantPk s =
     (case pg_tenantPk s of
        None \<Rightarrow> Inl (PlainError ''unrecognized configuration parameter (tenancy.tenantPk)'')
      | Some v \<Rightarrow> (case parse_int v of None \<Rightarrow> Inl (PlainError ''invalid input syntax for type integer'') | Some n \<Rightarrow> Inr n))"

definition rls_find :: "('r \<Rightarrow> int) \<Rightarrow> pg_session \<Rightarrow> ('r \<Rightarrow> bool) \<Rightarrow> 'r list \<Rightarrow> 'r list" where
  "rls_find ten s P rows = filter (\<lambda>r. row_visible s (ten r) \<and> P r) rows"

definition rls_update :: "('r \<Rightarrow> int) \<Rightarrow> pg_session \<Rightarrow> ('r \<Rightarrow> bool) \<Rightarrow> ('r \<Rightarrow> 'r) \<Rightarrow> 'r list \<Rightarrow> 'r list result" where
  "rls_update ten s P f rows =
     (if \<exists>r\<in>set (rls_find ten s P rows). \<not> row_visible s (ten (f r)) then Inl policy_violation
      else Inr (map (\<lambda>r. if row_visible s (ten r) \<and> P r then f r else r) rows))"

definition rls_create :: "('r \<Rightarrow> int) \<Rightarrow> pg_session \<Rightarrow> (int \<Rightarrow> 'r) \<Rightarrow> 'r list \<Rightarrow> ('r list \<times> 'r) result" where
  "rls_create ten s mk rows =
     and_then (default_tenantPk s) (\<lambda>t.
       if row_visible s (ten (mk t)) then Inr (rows @ [mk t], mk t) else Inl policy_violation)"

section \<open>Facts\<close>

text \<open>The session in which a query of a request runs, inside the transaction of its service operation.\<close>

definition session_for :: "int option \<Rightarrow> pg_session" where
  "session_for t = fst (allOperations t True (\<lambda>s. (s, ())) fresh_session)"

definition tenant_or_0 :: "int option \<Rightarrow> int" where
  "tenant_or_0 t = (case t of None \<Rightarrow> 0 | Some n \<Rightarrow> n)"

lemma show_int_nonempty [simp]: "show_int n \<noteq> []"
  by (simp add: show_int_def)

lemma setting_int_set [simp]: "setting_int (Some (show_int n)) = n"
  by (simp add: setting_int_def parse_show_int)

lemma session_for_sees [simp]: "row_visible (session_for t) p \<longleftrightarrow> p = 0 \<or> p = tenant_or_0 t"
  by (cases t) (auto simp: row_visible_def session_for_def allOperations_def set_tenant_def fresh_session_def
      tenant_isolation_policy_def bypass_rls_policy_def tenant_or_0_def setting_int_def parse_show_int)

lemma session_for_default:
  "default_tenantPk (session_for t) = (case t of None \<Rightarrow> Inl (PlainError ''unrecognized configuration parameter (tenancy.tenantPk)'') | Some n \<Rightarrow> Inr n)"
  by (cases t) (simp_all add: default_tenantPk_def session_for_def allOperations_def set_tenant_def fresh_session_def parse_show_int)

text \<open>The rows that a tenant cannot see; no query of the tenant changes them.\<close>

definition hidden_rows :: "('r \<Rightarrow> int) \<Rightarrow> int option \<Rightarrow> 'r list \<Rightarrow> 'r list" where
  "hidden_rows ten t rows = filter (\<lambda>r. ten r \<noteq> 0 \<and> ten r \<noteq> tenant_or_0 t) rows"

lemma rls_find_sees: "r \<in> set (rls_find ten (session_for t) P rows) \<Longrightarrow> ten r = 0 \<or> ten r = tenant_or_0 t"
  by (auto simp: rls_find_def)

lemma rls_find_set: "r \<in> set (rls_find ten s P rows) \<longleftrightarrow> r \<in> set rows \<and> row_visible s (ten r) \<and> P r"
  by (auto simp: rls_find_def)

lemma rls_update_hidden:
  "rls_update ten (session_for t) P f rows = Inr rows' \<Longrightarrow> hidden_rows ten t rows' = hidden_rows ten t rows"
proof (induction rows arbitrary: rows')
  case Nil
  then show ?case by (simp add: rls_update_def rls_find_def)
next
  case (Cons r rows)
  then have ok: "\<And>x. x \<in> set (rls_find ten (session_for t) P (r # rows)) \<Longrightarrow> row_visible (session_for t) (ten (f x))"
    and rows': "rows' = map (\<lambda>r. if row_visible (session_for t) (ten r) \<and> P r then f r else r) (r # rows)"
    by (auto simp: rls_update_def split: if_splits)
  have "\<not> (\<exists>x\<in>set (rls_find ten (session_for t) P rows). \<not> row_visible (session_for t) (ten (f x)))"
    using ok by (auto simp: rls_find_def)
  then have "rls_update ten (session_for t) P f rows = Inr (tl rows')" using rows' by (simp add: rls_update_def)
  from Cons.IH [OF this] show ?case using ok [of r] rows' by (auto simp: hidden_rows_def rls_find_def)
qed

lemma rls_create_hidden:
  "rls_create ten (session_for t) mk rows = Inr (rows', r) \<Longrightarrow> hidden_rows ten t rows' = hidden_rows ten t rows \<and> r \<in> set rows' \<and> (ten r = 0 \<or> ten r = tenant_or_0 t)"
  by (auto simp: rls_create_def hidden_rows_def outcome_simps split: if_splits)

section \<open>Properties\<close>

text \<open>The setting of one query never reaches another request: outside a transaction a query leaves the
  session as it was, and a transaction leaves it as it was when it ends, whatever its body did (it
  may have switched the tenant or bypassed the policies). Within a transaction a query is always
  run with the tenant of the request, whatever ran before it.\<close>

theorem tenant_setting_is_local:
  "fst (allOperations t False (\<lambda>s'. (s', query s')) s) = s \<and>
   fst (in_transaction body s) = s \<and>
   snd (allOperations (Some n) inTx (\<lambda>s'. (s', filter (\<lambda>p. tenant_isolation_policy s' p) ps)) s) = filter (\<lambda>p. p = 0 \<or> p = n) ps"
  by (cases t) (auto simp: allOperations_def in_transaction_def set_tenant_def tenant_isolation_policy_def)

text \<open>A query without a tenant inherits the setting of the transaction it runs in: after a query of tenant
  5, a query of no tenant sees the rows of tenant 5.\<close>

theorem missing_tenant_inherits:
  "snd (in_transaction (\<lambda>s. allOperations None True (\<lambda>s'. (s', row_visible s' 5)) (fst (allOperations (Some 5) True (\<lambda>s'. (s', ())) s))) fresh_session)"
  by (simp add: in_transaction_def allOperations_def set_tenant_def fresh_session_def row_visible_def tenant_isolation_policy_def)

text \<open>Bypassing the policies takes a transaction.\<close>

theorem bypass_needs_transaction:
  "row_visible (bypassTenancy inTx True (session_for t)) p \<longleftrightarrow> inTx \<or> p = 0 \<or> p = tenant_or_0 t"
  using session_for_sees [of t p]
  by (cases inTx) (simp_all add: bypassTenancy_def row_visible_def bypass_rls_policy_def)

end
