(* ===== verification/Callgents.thy ===== *)
theory Callgents
  imports Tenancy Entries
begin

text \<open>
  \<open>src/callgents\<close>: the callgents of a tenant (created with their default entries, read, renamed,
  deleted), the query of the list, and the tree of a callgent that \<open>src/bff/callgent-tree\<close> serves. All
  queries go through the policies of theory Tenancy; a deleted row stays in the table with the time
  of its deletion.
\<close>

section \<open>Tables\<close>

record callgent_row =
  cg_pk :: int
  cg_id :: string
  cg_tenantPk :: int
  cg_name :: string
  cg_avatar :: "string option"
  cg_summary :: "string option"
  cg_instruction :: "string option"
  cg_liked :: int
  cg_viewed :: int
  cg_forked :: int
  cg_favorite :: int
  cg_official :: bool
  cg_featured :: bool
  cg_forkedPk :: "int option"
  cg_mainTagId :: "int option"
  cg_createdBy :: string
  cg_deletedAt :: int

record callgent_db =
  cd_callgents :: "callgent_row list"
  cd_nextCallgent :: int
  cd_tags :: "(string \<times> int) list"

text \<open>The body of a creation; a field is absent (\<open>None\<close>), \<open>null\<close> or a value.\<close>

record create_dto =
  cn_name :: string
  cn_avatar :: "string option option"
  cn_summary :: "string option option"
  cn_instruction :: "string option option"
  cn_mainTagId :: "int option option"

record update_dto =
  cu_id :: string
  cu_name :: "string option"
  cu_avatar :: "string option option"
  cu_summary :: "string option option"
  cu_instruction :: "string option option"
  cu_mainTagId :: "int option option"

definition given :: "'a option option \<Rightarrow> 'a option \<Rightarrow> 'a option" where
  "given d old = (case d of None \<Rightarrow> old | Some v \<Rightarrow> v)"

text \<open>The unique indexes: ids among all rows, names among the rows of a tenant with the same
  time of deletion.\<close>

definition name_key :: "callgent_row \<Rightarrow> int \<times> string \<times> int" where
  "name_key r = (cg_tenantPk r, cg_name r, cg_deletedAt r)"

definition name_taken :: js_error where
  "name_taken = PlainError ''Unique constraint failed on the fields: (`tenantPk`,`name`,`deletedAt`)''"

definition insertCallgent :: "int option \<Rightarrow> (int \<Rightarrow> int \<Rightarrow> callgent_row) \<Rightarrow> callgent_db \<Rightarrow> (callgent_db \<times> callgent_row) result" where
  "insertCallgent tenant mk db =
     and_then (rls_create cg_tenantPk (session_for tenant) (\<lambda>t. mk (cd_nextCallgent db) t) (cd_callgents db)) (\<lambda>(rows, r).
       if cg_id r \<in> cg_id ` set (cd_callgents db) then Inl (PlainError ''Unique constraint failed on the fields: (`id`)'')
       else if name_key r \<in> name_key ` set (cd_callgents db) then Inl name_taken
       else Inr (db\<lparr>cd_callgents := rows, cd_nextCallgent := cd_nextCallgent db + 1\<rparr>, r))"

text \<open>The update of one row by its id. The soft-delete middleware leaves \<open>update\<close> alone or not, depending
  on its version: \<open>deletedToo\<close> says whether a deleted row is reached.\<close>

definition one_row :: "bool \<Rightarrow> string \<Rightarrow> callgent_row \<Rightarrow> bool" where
  "one_row deletedToo i r \<longleftrightarrow> cg_id r = i \<and> (deletedToo \<or> cg_deletedAt r = 0)"

definition updateRow :: "bool \<Rightarrow> int option \<Rightarrow> string \<Rightarrow> string \<Rightarrow> (callgent_row \<Rightarrow> callgent_row) \<Rightarrow> callgent_db \<Rightarrow> (callgent_db \<times> callgent_row) result" where
  "updateRow deletedToo tenant missing i f db =
     (case rls_find cg_tenantPk (session_for tenant) (one_row deletedToo i) (cd_callgents db) of
        [] \<Rightarrow> Inl (PlainError missing)
      | r # _ \<Rightarrow>
          if \<exists>x\<in>set (cd_callgents db). cg_id x \<noteq> i \<and> name_key x = name_key (f r) then Inl name_taken
          else and_then (rls_update cg_tenantPk (session_for tenant) (one_row deletedToo i) f (cd_callgents db)) (\<lambda>rows.
                 Inr (db\<lparr>cd_callgents := rows\<rparr>, f r)))"

section \<open>The service\<close>

definition new_callgent :: "create_dto \<Rightarrow> int option \<Rightarrow> string \<Rightarrow> string \<Rightarrow> int \<Rightarrow> int \<Rightarrow> callgent_row" where
  "new_callgent dto forkedPk fresh createdBy pk t =
     \<lparr>cg_pk = pk, cg_id = fresh, cg_tenantPk = t, cg_name = cn_name dto, cg_avatar = given (cn_avatar dto) None,
      cg_summary = given (cn_summary dto) None, cg_instruction = given (cn_instruction dto) None, cg_liked = 0, cg_viewed = 0,
      cg_forked = 0, cg_favorite = 0, cg_official = False, cg_featured = False, cg_forkedPk = forkedPk,
      cg_mainTagId = given (cn_mainTagId dto) None, cg_createdBy = createdBy, cg_deletedAt = 0\<rparr>"

definition upsertTag :: "string \<Rightarrow> int option \<Rightarrow> callgent_db \<Rightarrow> callgent_db" where
  "upsertTag i tag db =
     (case tag of
        None \<Rightarrow> db
      | Some t \<Rightarrow> if t = 0 \<or> (i, t) \<in> set (cd_tags db) then db else db\<lparr>cd_tags := cd_tags db @ [(i, t)]\<rparr>)"

text \<open>\<open>create\<close> waits for the listeners of the creation, which add the default entries. \<open>ids\<close> are the ids that
  are drawn: for the callgent and for its two default entries. The row that is returned lacks the
  hidden columns (primary key, tenant, \<open>forkedPk\<close>, creator, time of deletion).\<close>

definition createCallgent :: "registry \<Rightarrow> (string \<Rightarrow> adaptor) \<Rightarrow> string \<times> string \<times> string \<Rightarrow> int option \<Rightarrow> create_dto \<Rightarrow> int option \<Rightarrow> string \<Rightarrow>
    callgent_db \<Rightarrow> entry_db \<Rightarrow> (callgent_db \<times> entry_db \<times> callgent_row) result" where
  "createCallgent rg service ids tenant dto forkedPk createdBy db edb =
     (case ids of (i, e1, e2) \<Rightarrow>
        and_then (insertCallgent tenant (new_callgent dto forkedPk i createdBy) db) (\<lambda>(db1, r).
        and_then (onCallgentCreated rg service e1 e2 i (Some createdBy) forkedPk edb) (\<lambda>(edb1, _).
          Inr (upsertTag i (given (cn_mainTagId dto) None) db1, edb1, r))))"

text \<open>\<open>delete\<close>: the entries and the endpoints go with the callgent, without change events.\<close>

definition deleteCallgent :: "bool \<Rightarrow> int \<Rightarrow> int option \<Rightarrow> string \<Rightarrow> callgent_db \<Rightarrow> entry_db \<Rightarrow> (callgent_db \<times> entry_db \<times> callgent_row) result" where
  "deleteCallgent deletedToo now tenant i db edb =
     and_then (updateRow deletedToo tenant ''Record to delete does not exist.'' i (\<lambda>r. r\<lparr>cg_deletedAt := now\<rparr>) db) (\<lambda>(db1, r).
       let sees = (\<lambda>y. ey_callgentId y = i \<and> row_visible (session_for tenant) (er_tenantPk y))
       in Inr (db1, edb\<lparr>ed_entries := filter (\<lambda>y. \<not> sees y) (ed_entries edb),
                       ed_endpoints := filter (\<lambda>n. en_callgentId n \<noteq> i) (ed_endpoints edb),
                       ed_goneEntries := map ey_id (filter sees (ed_entries edb)) @ ed_goneEntries edb,
                       ed_goneEndpoints := map en_id (filter (\<lambda>n. en_callgentId n = i) (ed_endpoints edb)) @ ed_goneEndpoints edb\<rparr>, r))"

definition apply_update :: "update_dto \<Rightarrow> callgent_row \<Rightarrow> callgent_row" where
  "apply_update d r =
     r\<lparr>cg_name := (case cu_name d of None \<Rightarrow> cg_name r | Some n \<Rightarrow> n), cg_avatar := given (cu_avatar d) (cg_avatar r),
       cg_summary := given (cu_summary d) (cg_summary r), cg_instruction := given (cu_instruction d) (cg_instruction r),
       cg_mainTagId := given (cu_mainTagId d) (cg_mainTagId r)\<rparr>"

definition updateCallgent :: "bool \<Rightarrow> int option \<Rightarrow> update_dto \<Rightarrow> callgent_db \<Rightarrow> (callgent_db \<times> callgent_row option) result" where
  "updateCallgent deletedToo tenant d db =
     (if cu_id d = [] then Inr (db, None)
      else and_then (updateRow deletedToo tenant ''Record to update not found.'' (cu_id d) (apply_update d) db) (\<lambda>(db1, r). Inr (db1, Some r)))"

text \<open>\<open>findOne\<close> counts the view; a missing row is recognised by the message of the error.\<close>

definition findOne :: "bool \<Rightarrow> int option \<Rightarrow> string \<Rightarrow> callgent_db \<Rightarrow> (callgent_db \<times> callgent_row option) result" where
  "findOne deletedToo tenant i db =
     (case updateRow deletedToo tenant ''Record to update not found.'' i (\<lambda>r. r\<lparr>cg_viewed := cg_viewed r + 1\<rparr>) db of
        Inl err \<Rightarrow> if find_sub '' not found.'' (error_message err) \<noteq> None then Inr (db, None) else Inl err
      | Inr (db1, r) \<Rightarrow> Inr (db1, Some r))"

text \<open>\<open>getByName\<close>: the unique key needs the request's tenant.\<close>

definition getByName :: "int option \<Rightarrow> string \<Rightarrow> callgent_db \<Rightarrow> callgent_row option result" where
  "getByName tenant name db =
     (case tenant of
        None \<Rightarrow> Inl (PlainError ''Argument `tenantPk` is missing.'')
      | Some t \<Rightarrow>
          Inr (case rls_find cg_tenantPk (session_for tenant) (\<lambda>r. name_key r = (t, name, 0)) (cd_callgents db) of
                 [] \<Rightarrow> None | r # _ \<Rightarrow> if cg_deletedAt r \<noteq> 0 then None else Some r))"

text \<open>\<open>please\<close> (deprecated): what is left of it are its checks and the switch to the tenant of the callgent,
  with the policies bypassed while the client entry is looked up. The state is the tenant of the
  request and the bypass of the session. The endpoints of a callgent belong to its tenant.\<close>

definition please :: "string \<Rightarrow> string \<Rightarrow> string option \<Rightarrow> string option \<Rightarrow> callgent_db \<Rightarrow> entry_db \<Rightarrow> int option \<Rightarrow>
    int option \<times> bool \<times> unit result" where
  "please act cgId entryId adaptorKey db edb tenant =
     (let withEntry = nonempty_str entryId \<or> nonempty_str adaptorKey;
          sees = (\<lambda>p. withEntry \<or> row_visible (session_for tenant) p);
          found = find (\<lambda>r. cg_id r = cgId \<and> cg_deletedAt r = 0 \<and> sees (cg_tenantPk r)) (cd_callgents db);
          actions = filter (\<lambda>n. en_name n = act \<and> en_callgentId n = cgId) (ed_endpoints edb);
          epClient = find (\<lambda>y. ey_callgentId y = cgId \<and> ey_type y = ET_CLIENT \<and> sees (er_tenantPk y) \<and>
                                (case entryId of None \<Rightarrow> True | Some i \<Rightarrow> ey_id y = i) \<and>
                                (case adaptorKey of None \<Rightarrow> True | Some k \<Rightarrow> er_adaptorKey y = k)) (ed_entries edb)
      in case found of
           None \<Rightarrow> (tenant, withEntry, Inl (NotFound (''callgent not found: '' @ cgId)))
         | Some c \<Rightarrow>
             if actions = [] then (tenant, withEntry, Inl (NotFound (''callgent='' @ cgId @ '' API action not found: '' @ act)))
             else if withEntry then
               (if epClient = None
                then (tenant, withEntry, Inl (NotFound (''Client entry not found for callgent='' @ cgId @ '': '' @
                        str_or entryId (str_or adaptorKey ''undefined''))))
                else (Some (cg_tenantPk c), False, Inr ()))
             else (tenant, False, Inr ()))"

section \<open>The list\<close>

text \<open>\<open>CallgentsController.list\<close>: the arguments of the paginated query. Page numbers are read by unary plus
  (a parameter); zero and the empty string count as absent.\<close>

record list_query =
  lq_page :: "int option"
  lq_perPage :: "int option"
  lq_contains :: "string option"
  lq_tag :: "int option"
  lq_orderBy :: "(string \<times> direction) list option"

definition order_fields :: "string list" where
  "order_fields = [''name'', ''favorite'', ''featured'', ''forked'', ''liked'', ''official'', ''viewed'', ''mainTagId'', ''pk'', ''updatedAt'']"

definition listQuery :: "(string \<Rightarrow> int option) \<Rightarrow> string option \<Rightarrow> string option \<Rightarrow> string option \<Rightarrow> string option \<Rightarrow> string option \<Rightarrow> list_query" where
  "listQuery to_number query mainTagId pageNo psize orders =
     (let num = (\<lambda>s. if nonempty_str s then to_number (the s) else None);
          q = map_option js_trim query; tag = num mainTagId
      in \<lparr>lq_page = num pageNo, lq_perPage = num psize, lq_contains = (if nonempty_str q then q else None),
          lq_tag = (if tag = Some 0 then None else tag),
          lq_orderBy = parseOrderBy (Some order_fields) orders\<rparr>)"

text \<open>The filter of the query, on the rows that the tenant sees; without an order the newest come first.
  \<open>ord\<close> compares rows by the fields of an order as the database does, \<open>paginate\<close> is the pagination library.\<close>

definition list_matches :: "list_query \<Rightarrow> callgent_row \<Rightarrow> bool" where
  "list_matches q r \<longleftrightarrow>
     (case lq_contains q of None \<Rightarrow> True | Some s \<Rightarrow> find_sub s (cg_name r) \<noteq> None) \<and>
     (case lq_tag q of None \<Rightarrow> True | Some t \<Rightarrow> cg_mainTagId r = Some t)"

definition newest_first :: "callgent_row \<Rightarrow> callgent_row \<Rightarrow> int" where
  "newest_first a b = cg_pk b - cg_pk a"

definition findMany :: "((string \<times> direction) list \<Rightarrow> callgent_row \<Rightarrow> callgent_row \<Rightarrow> int) \<Rightarrow> (int option \<Rightarrow> int option \<Rightarrow> callgent_row list \<Rightarrow> 'p) \<Rightarrow>
    int option \<Rightarrow> list_query \<Rightarrow> callgent_db \<Rightarrow> 'p" where
  "findMany ord paginate tenant q db =
     paginate (lq_page q) (lq_perPage q)
       (js_sort (case lq_orderBy q of None \<Rightarrow> newest_first | Some os \<Rightarrow> ord os)
         (rls_find cg_tenantPk (session_for tenant) (\<lambda>r. cg_deletedAt r = 0 \<and> list_matches q r) (cd_callgents db)))"

interpretation newest_order: comparator newest_first
  by unfold_locales (auto simp: newest_first_def)

section \<open>The tree of a callgent\<close>

text \<open>\<open>CallgentTreeController\<close>: the entries of a callgent by type, with the icon of their adaptor; a server entry
  has its endpoints as children. Realms are read without their secrets.\<close>

record callgent_tree =
  tr_callgent :: callgent_row
  tr_realms :: "realm list"
  tr_client :: "(entry_row \<times> string option) list"
  tr_server :: "(entry_row \<times> string option \<times> endpoint_row list) list"
  tr_event :: "(entry_row \<times> string option) list"

definition icon_url :: "registry \<Rightarrow> bool \<Rightarrow> entry_row \<Rightarrow> string option" where
  "icon_url rg client y = (case obj_get (listAdaptors rg client) (er_adaptorKey y) of None \<Rightarrow> None | Some i \<Rightarrow> i)"

definition newest_entry :: "entry_row \<Rightarrow> entry_row \<Rightarrow> int" where
  "newest_entry a b = er_pk b - er_pk a"

definition oldest_endpoint :: "endpoint_row \<Rightarrow> endpoint_row \<Rightarrow> int" where
  "oldest_endpoint a b = nr_pk a - nr_pk b"

text \<open>\<open>EntriesService.findAll\<close> and \<open>EndpointsService.findAll\<close> with their default orders.\<close>

definition callgent_entries :: "int option \<Rightarrow> string \<Rightarrow> entry_db \<Rightarrow> entry_row list" where
  "callgent_entries tenant i db = js_sort newest_entry (rls_find er_tenantPk (session_for tenant) (\<lambda>y. ey_callgentId y = i) (ed_entries db))"

definition entry_endpoints :: "entry_db \<Rightarrow> string \<Rightarrow> endpoint_row list" where
  "entry_endpoints db i = js_sort oldest_endpoint (filter (\<lambda>n. en_entryId n = i) (ed_endpoints db))"

interpretation newest_entry_order: comparator newest_entry
  by unfold_locales (auto simp: newest_entry_def)

interpretation oldest_endpoint_order: comparator oldest_endpoint
  by unfold_locales (auto simp: oldest_endpoint_def)

definition callgentTree :: "registry \<Rightarrow> int option \<Rightarrow> realm_db \<Rightarrow> entry_db \<Rightarrow> callgent_row \<Rightarrow> callgent_tree" where
  "callgentTree rg tenant rdb edb c =
     (let ens = callgent_entries tenant (cg_id c) edb;
          of_type = (\<lambda>t. filter (\<lambda>y. ey_type y = t) ens)
      in \<lparr>tr_callgent = c,
          tr_realms = map (\<lambda>r. r\<lparr>rm_secret := None\<rparr>)
            (js_sort (\<lambda>a b. rm_pk b - rm_pk a) (filter (\<lambda>r. rm_callgentId r = cg_id c) (rd_realms rdb))),
          tr_client = map (\<lambda>y. (y, icon_url rg True y)) (of_type ET_CLIENT),
          tr_server = map (\<lambda>y. (y, icon_url rg False y, entry_endpoints edb (ey_id y))) (of_type ET_SERVER),
          tr_event = map (\<lambda>y. (y, icon_url rg True y)) (of_type ET_EVENT)\<rparr>)"

definition treeFindOne :: "bool \<Rightarrow> registry \<Rightarrow> int option \<Rightarrow> string \<Rightarrow> callgent_db \<Rightarrow> realm_db \<Rightarrow> entry_db \<Rightarrow> (callgent_db \<times> callgent_tree) result" where
  "treeFindOne deletedToo rg tenant i db rdb edb =
     and_then (findOne deletedToo tenant i db) (\<lambda>(db1, found). case found of
        None \<Rightarrow> Inl (NotFound ''Not Found'')
      | Some c \<Rightarrow> Inr (db1, callgentTree rg tenant rdb edb c))"

text \<open>Creating the tree: an existing callgent with the name is returned as it is.\<close>

definition treeCreate :: "registry \<Rightarrow> (string \<Rightarrow> adaptor) \<Rightarrow> string \<times> string \<times> string \<Rightarrow> int option \<Rightarrow> create_dto \<Rightarrow> string \<Rightarrow>
    callgent_db \<Rightarrow> realm_db \<Rightarrow> entry_db \<Rightarrow> (callgent_db \<times> entry_db \<times> callgent_tree) result" where
  "treeCreate rg service ids tenant dto sub db rdb edb =
     and_then (getByName tenant (cn_name dto) db) (\<lambda>found. case found of
        Some c \<Rightarrow> Inr (db, edb, callgentTree rg tenant rdb edb c)
      | None \<Rightarrow> and_then (createCallgent rg service ids tenant dto None sub db edb) (\<lambda>(db1, edb1, c).
                 Inr (db1, edb1, callgentTree rg tenant rdb edb1 c)))"

section \<open>The operations as a machine\<close>

datatype callgent_op =
    CreateOp "string \<times> string \<times> string" create_dto "int option" string
  | FindOneOp string
  | UpdateOp update_dto
  | DeleteOp int string

type_synonym callgent_state = "callgent_db \<times> entry_db"

definition settled :: "callgent_state \<Rightarrow> (callgent_db \<times> entry_db \<times> 'a) result \<Rightarrow> callgent_state \<times> 'a option" where
  "settled s r = (case r of Inl _ \<Rightarrow> (s, None) | Inr (db, edb, a) \<Rightarrow> ((db, edb), Some a))"

fun callgent_step :: "registry \<Rightarrow> (string \<Rightarrow> adaptor) \<Rightarrow> bool \<Rightarrow> int option \<Rightarrow> callgent_op \<Rightarrow> callgent_state \<Rightarrow> callgent_state \<times> callgent_row option" where
  "callgent_step rg service del t (CreateOp ids dto forkedPk by) (db, edb) = settled (db, edb) (createCallgent rg service ids t dto forkedPk by db edb)"
| "callgent_step rg service del t (FindOneOp i) (db, edb) =
     (case findOne del t i db of Inl _ \<Rightarrow> ((db, edb), None) | Inr (db1, r) \<Rightarrow> ((db1, edb), r))"
| "callgent_step rg service del t (UpdateOp d) (db, edb) =
     (case updateCallgent del t d db of Inl _ \<Rightarrow> ((db, edb), None) | Inr (db1, r) \<Rightarrow> ((db1, edb), r))"
| "callgent_step rg service del t (DeleteOp now i) (db, edb) = settled (db, edb) (deleteCallgent del now t i db edb)"

fun callgent_run :: "registry \<Rightarrow> (string \<Rightarrow> adaptor) \<Rightarrow> bool \<Rightarrow> (int option \<times> callgent_op) list \<Rightarrow> callgent_state \<Rightarrow> callgent_state \<times> callgent_row option list" where
  "callgent_run rg service del [] s = (s, [])"
| "callgent_run rg service del ((t, x) # xs) s =
     (let (s1, r) = callgent_step rg service del t x s; (s2, rs) = callgent_run rg service del xs s1 in (s2, r # rs))"

definition callgent_db_ok :: "callgent_db \<Rightarrow> bool" where
  "callgent_db_ok db \<longleftrightarrow> distinct (map cg_id (cd_callgents db)) \<and> distinct (map name_key (cd_callgents db)) \<and>
     distinct (map cg_pk (cd_callgents db)) \<and> (\<forall>r\<in>set (cd_callgents db). cg_pk r < cd_nextCallgent db)"

section \<open>Facts\<close>

lemma insertCallgent_Inr:
  "insertCallgent tenant mk db = Inr (db', r) \<longleftrightarrow>
     (\<exists>t. tenant = Some t \<and> r = mk (cd_nextCallgent db) t \<and> (cg_tenantPk r = 0 \<or> cg_tenantPk r = t) \<and>
        cg_id r \<notin> cg_id ` set (cd_callgents db) \<and> name_key r \<notin> name_key ` set (cd_callgents db) \<and>
        db' = db\<lparr>cd_callgents := cd_callgents db @ [r], cd_nextCallgent := cd_nextCallgent db + 1\<rparr>)"
  by (cases tenant) (auto simp: insertCallgent_def rls_create_def session_for_default outcome_simps tenant_or_0_def)

lemma updateRow_Inr:
  assumes "updateRow del tenant m i f db = Inr (db', r)"
  shows "\<exists>x. x \<in> set (cd_callgents db) \<and> one_row del i x \<and> (cg_tenantPk x = 0 \<or> cg_tenantPk x = tenant_or_0 tenant) \<and> r = f x \<and>
    (\<forall>y\<in>set (cd_callgents db). cg_id y \<noteq> i \<longrightarrow> name_key y \<noteq> name_key (f x)) \<and>
    rls_update cg_tenantPk (session_for tenant) (one_row del i) f (cd_callgents db) = Inr (cd_callgents db') \<and>
    cd_nextCallgent db' = cd_nextCallgent db \<and> cd_tags db' = cd_tags db"
proof -
  obtain x xs where f: "rls_find cg_tenantPk (session_for tenant) (one_row del i) (cd_callgents db) = x # xs"
    using assms by (cases "rls_find cg_tenantPk (session_for tenant) (one_row del i) (cd_callgents db)") (auto simp: updateRow_def)
  then have "x \<in> set (rls_find cg_tenantPk (session_for tenant) (one_row del i) (cd_callgents db))" by simp
  then have "x \<in> set (cd_callgents db) \<and> one_row del i x \<and> (cg_tenantPk x = 0 \<or> cg_tenantPk x = tenant_or_0 tenant)"
    by (auto simp: rls_find_set)
  with f assms show ?thesis
    by (intro exI [of _ x]) (auto simp: updateRow_def outcome_simps split: if_splits)
qed

lemma updateRow_hidden:
  "updateRow del t m i f db = Inr (db', r) \<Longrightarrow> hidden_rows cg_tenantPk t (cd_callgents db') = hidden_rows cg_tenantPk t (cd_callgents db)"
  by (auto dest!: updateRow_Inr intro: rls_update_hidden)

text \<open>Updates that keep id and primary key keep the indexes.\<close>

lemma distinct_replace_one:
  assumes "distinct (map k xs)" and "\<And>x. x \<in> set xs \<Longrightarrow> P x \<Longrightarrow> x = a" and "\<And>y. y \<in> set xs \<Longrightarrow> y \<noteq> a \<Longrightarrow> k y \<noteq> k (f a)"
  shows "distinct (map k (map (\<lambda>x. if P x then f x else x) xs))"
  using assms
proof (induction xs)
  case Nil
  then show ?case by simp
next
  case (Cons x xs)
  have d: "distinct (map k xs)" "k x \<notin> k ` set xs" using Cons.prems(1) by auto
  have ih: "distinct (map k (map (\<lambda>x. if P x then f x else x) xs))"
    by (rule Cons.IH) (use Cons.prems d in auto)
  have "k (if P x then f x else x) \<notin> k ` (\<lambda>x. if P x then f x else x) ` set xs"
  proof
    assume "k (if P x then f x else x) \<in> k ` (\<lambda>x. if P x then f x else x) ` set xs"
    then obtain y where y: "y \<in> set xs" "k (if P x then f x else x) = k (if P y then f y else y)" by auto
    have ne: "x \<noteq> y" using d y by auto
    show False
    proof (cases "P x")
      case True
      then have "x = a" using Cons.prems(2) by auto
      then have "\<not> P y" using Cons.prems(2) [of y] y ne by auto
      with True \<open>x = a\<close> y Cons.prems(3) [of y] ne show False by auto
    next
      case F: False
      then show False
      proof (cases "P y")
        case True
        then have "y = a" using Cons.prems(2) y by auto
        with True F y ne Cons.prems(3) [of x] show False by auto
      next
        case False
        with F y d show False by auto
      qed
    qed
  qed
  then have "k (if P x then f x else x) \<notin> set (map k (map (\<lambda>x. if P x then f x else x) xs))" by (simp only: set_map not_False_eq_True)
  with ih show ?case by (simp only: list.map distinct.simps not_False_eq_True simp_thms)
qed

lemma updateRow_ok:
  assumes ok: "callgent_db_ok db" and up: "updateRow del t m i f db = Inr (db', r)"
    and keeps: "\<And>x. cg_id (f x) = cg_id x \<and> cg_pk (f x) = cg_pk x"
  shows "callgent_db_ok db'"
proof -
  obtain x where x: "x \<in> set (cd_callgents db)" "one_row del i x"
    and fresh: "\<forall>y\<in>set (cd_callgents db). cg_id y \<noteq> i \<longrightarrow> name_key y \<noteq> name_key (f x)"
    and rows: "rls_update cg_tenantPk (session_for t) (one_row del i) f (cd_callgents db) = Inr (cd_callgents db')"
    and nxt: "cd_nextCallgent db' = cd_nextCallgent db"
    using updateRow_Inr [OF up] by blast
  let ?P = "\<lambda>r. row_visible (session_for t) (cg_tenantPk r) \<and> one_row del i r"
  have rows': "cd_callgents db' = map (\<lambda>r. if ?P r then f r else r) (cd_callgents db)"
    using rows by (auto simp: rls_update_def split: if_splits)
  have inj: "y = z" if "y \<in> set (cd_callgents db)" "z \<in> set (cd_callgents db)" "cg_id y = cg_id z" for y z
    using that ok by (auto simp: callgent_db_ok_def distinct_map dest: inj_onD)
  have id: "cg_id x = i" using x(2) by (simp add: one_row_def)
  have only: "y = x" if "y \<in> set (cd_callgents db)" "?P y" for y
    using that x id by (intro inj) (auto simp: one_row_def)
  have other: "name_key y \<noteq> name_key (f x)" if "y \<in> set (cd_callgents db)" "y \<noteq> x" for y
    using fresh that inj [OF that(1) x(1)] id by auto
  have "map cg_id (cd_callgents db') = map cg_id (cd_callgents db)" "map cg_pk (cd_callgents db') = map cg_pk (cd_callgents db)"
    using keeps by (auto simp: rows')
  moreover have "distinct (map name_key (cd_callgents db'))"
    unfolding rows' by (rule distinct_replace_one [of _ _ _ x]) (use ok only other in \<open>auto simp: callgent_db_ok_def\<close>)
  moreover have "\<forall>r\<in>set (cd_callgents db'). cg_pk r < cd_nextCallgent db'"
    using ok keeps by (auto simp: rows' callgent_db_ok_def nxt)
  ultimately show ?thesis using ok by (simp add: callgent_db_ok_def)
qed

lemma insertCallgent_ok:
  "callgent_db_ok db \<Longrightarrow> insertCallgent t mk db = Inr (db', r) \<Longrightarrow> cg_pk r = cd_nextCallgent db \<Longrightarrow> callgent_db_ok db'"
  unfolding insertCallgent_Inr by (force simp: callgent_db_ok_def)

lemma upsertTag_rows [simp]: "cd_callgents (upsertTag i tag db) = cd_callgents db" "cd_nextCallgent (upsertTag i tag db) = cd_nextCallgent db"
  by (auto simp: upsertTag_def split: option.splits)

lemma upsertTag_ok: "callgent_db_ok (upsertTag i tag db) \<longleftrightarrow> callgent_db_ok db"
  by (simp add: callgent_db_ok_def)

lemma createCallgent_Inr:
  assumes "createCallgent rg service (i, e1, e2) tenant dto forkedPk by db edb = Inr (db', edb', r)"
  shows "\<exists>t db1 es. tenant = Some t \<and> insertCallgent tenant (new_callgent dto forkedPk i by) db = Inr (db1, r) \<and>
    onCallgentCreated rg service e1 e2 i (Some by) forkedPk edb = Inr (edb', es) \<and> db' = upsertTag i (given (cn_mainTagId dto) None) db1 \<and>
    r = new_callgent dto forkedPk i by (cd_nextCallgent db) t"
  using assms by (auto simp: createCallgent_def outcome_simps insertCallgent_Inr)

definition rows_of :: "int \<Rightarrow> callgent_db \<Rightarrow> callgent_row list" where
  "rows_of p db = filter (\<lambda>r. cg_tenantPk r = p) (cd_callgents db)"

lemma rows_of_hidden:
  assumes "hidden_rows cg_tenantPk t (cd_callgents db') = hidden_rows cg_tenantPk t (cd_callgents db)" "p \<noteq> 0" "p \<noteq> tenant_or_0 t"
  shows "rows_of p db' = rows_of p db"
proof -
  have "rows_of p d = filter (\<lambda>r. cg_tenantPk r = p) (hidden_rows cg_tenantPk t (cd_callgents d))" for d
    unfolding rows_of_def hidden_rows_def filter_filter by (rule filter_cong) (use assms(2,3) in auto)
  with assms(1) show ?thesis by simp
qed

text \<open>What one operation of tenant \<open>t\<close> keeps.\<close>

definition step_keeps :: "int option \<Rightarrow> callgent_db \<Rightarrow> callgent_db \<Rightarrow> callgent_row option \<Rightarrow> bool" where
  "step_keeps t db db' r \<longleftrightarrow>
     hidden_rows cg_tenantPk t (cd_callgents db') = hidden_rows cg_tenantPk t (cd_callgents db) \<and>
     (callgent_db_ok db \<longrightarrow> callgent_db_ok db') \<and> (\<forall>x. r = Some x \<longrightarrow> cg_tenantPk x = 0 \<or> cg_tenantPk x = tenant_or_0 t)"

lemma updateRow_keeps:
  assumes up: "updateRow del t m i f db = Inr (db', r)" and keeps: "\<And>x. cg_id (f x) = cg_id x \<and> cg_pk (f x) = cg_pk x \<and> cg_tenantPk (f x) = cg_tenantPk x"
  shows "step_keeps t db db' (Some r)"
  using updateRow_hidden [OF up] updateRow_ok [OF _ up] updateRow_Inr [OF up] keeps by (auto simp: step_keeps_def)

lemma step_keeps_refl [simp]: "step_keeps t db db None"
  by (simp add: step_keeps_def)

lemma findOne_Some: "findOne del t i db = Inr (db', Some r) \<Longrightarrow> updateRow del t ''Record to update not found.'' i (\<lambda>r. r\<lparr>cg_viewed := cg_viewed r + 1\<rparr>) db = Inr (db', r)"
  by (auto simp: findOne_def split: sum.splits if_splits)

lemma findOne_None: "findOne del t i db = Inr (db', None) \<Longrightarrow> db' = db"
  by (auto simp: findOne_def split: sum.splits if_splits)

lemma findOne_keeps: "findOne del t i db = Inr (db', r) \<Longrightarrow> step_keeps t db db' r"
  by (cases r) (auto dest: findOne_None intro: updateRow_keeps [OF findOne_Some])

lemma updateCallgent_keeps: "updateCallgent del t d db = Inr (db', r) \<Longrightarrow> step_keeps t db db' r"
  by (auto simp: updateCallgent_def outcome_simps apply_update_def split: if_splits intro: updateRow_keeps)

lemma deleteCallgent_keeps: "deleteCallgent del now t i db edb = Inr (db', edb', r) \<Longrightarrow> step_keeps t db db' (Some r)"
  by (auto simp: deleteCallgent_def outcome_simps Let_def intro: updateRow_keeps)

lemma createCallgent_keeps:
  assumes "createCallgent rg service ids t dto forkedPk by db edb = Inr (db', edb', r)"
  shows "step_keeps t db db' (Some r)"
proof -
  obtain i e1 e2 where ids: "ids = (i, e1, e2)" by (cases ids)
  from createCallgent_Inr [OF assms [unfolded ids]] obtain n db1
    where t: "t = Some n" and ins: "insertCallgent t (new_callgent dto forkedPk i by) db = Inr (db1, r)"
      and db': "db' = upsertTag i (given (cn_mainTagId dto) None) db1" and r: "r = new_callgent dto forkedPk i by (cd_nextCallgent db) n" by blast
  have "callgent_db_ok db \<Longrightarrow> callgent_db_ok db'"
    using insertCallgent_ok [OF _ ins] by (simp add: db' upsertTag_ok r new_callgent_def)
  moreover have "hidden_rows cg_tenantPk t (cd_callgents db') = hidden_rows cg_tenantPk t (cd_callgents db)"
    using ins t by (auto simp: db' insertCallgent_Inr hidden_rows_def tenant_or_0_def)
  ultimately show ?thesis by (simp add: step_keeps_def r new_callgent_def t tenant_or_0_def)
qed

lemma callgent_step_keeps:
  assumes "callgent_step rg service del t x s = (s', r)"
  shows "step_keeps t (fst s) (fst s') r"
  using assms
  by (cases x; cases s) (auto simp: settled_def split: sum.splits
      dest: createCallgent_keeps findOne_keeps updateCallgent_keeps deleteCallgent_keeps)

section \<open>Properties\<close>

text \<open>Tenants are isolated: whatever operations other tenants run (with whatever ids and bodies), the rows of a
  tenant stay as they are; an operation returns only rows of the tenant that called it or of the
  public tenant 0; and the unique indexes hold at every moment.\<close>

theorem callgent_tenants_isolated:
  assumes "callgent_run rg service del ops s = (s', rs)" and "p \<noteq> 0" and "\<forall>(t, x)\<in>set ops. t \<noteq> Some p"
  shows "rows_of p (fst s') = rows_of p (fst s) \<and> (callgent_db_ok (fst s) \<longrightarrow> callgent_db_ok (fst s')) \<and>
    list_all2 (\<lambda>(t, x) r. \<forall>row. r = Some row \<longrightarrow> cg_tenantPk row = 0 \<or> cg_tenantPk row = tenant_or_0 t) ops rs"
  using assms
proof (induction ops arbitrary: s rs)
  case Nil
  then show ?case by simp
next
  case (Cons op ops)
  obtain t x where op: "op = (t, x)" by (cases op)
  obtain s1 r where st: "callgent_step rg service del t x s = (s1, r)" by (cases "callgent_step rg service del t x s")
  obtain rs' where run: "callgent_run rg service del ops s1 = (s', rs')" and rs: "rs = r # rs'"
    using Cons.prems(1) st by (auto simp: op split: prod.splits)
  have k: "step_keeps t (fst s) (fst s1) r" by (rule callgent_step_keeps [OF st])
  have "p \<noteq> tenant_or_0 t" using Cons.prems(2,3) by (cases t) (auto simp: op tenant_or_0_def)
  then have "rows_of p (fst s1) = rows_of p (fst s)"
    using k Cons.prems(2) by (intro rows_of_hidden) (auto simp: step_keeps_def)
  then show ?case using Cons.IH [OF run] Cons.prems(2,3) k by (auto simp: op rs step_keeps_def)
qed

definition ex_callgents :: callgent_db where
  "ex_callgents = \<lparr>cd_callgents = [], cd_nextCallgent = 1, cd_tags = []\<rparr>"

definition ex_dto :: "string \<Rightarrow> create_dto" where
  "ex_dto name = \<lparr>cn_name = name, cn_avatar = None, cn_summary = Some (Some ''s''), cn_instruction = None, cn_mainTagId = Some (Some 2)\<rparr>"

definition ex_rename :: "string \<Rightarrow> string \<Rightarrow> update_dto" where
  "ex_rename i name = \<lparr>cu_id = i, cu_name = Some name, cu_avatar = None, cu_summary = None, cu_instruction = None, cu_mainTagId = None\<rparr>"

definition ex_pets :: callgent_row where
  "ex_pets = new_callgent (ex_dto ''pets'') (Some 9) ''c1'' ''u'' 1 5"

definition ex_owned :: callgent_db where
  "ex_owned = \<lparr>cd_callgents = [ex_pets], cd_nextCallgent = 2, cd_tags = [(''c1'', 2)]\<rparr>"

lemma ex_pets_fields [simp]:
  "cg_id ex_pets = ''c1''" "cg_tenantPk ex_pets = 5" "cg_name ex_pets = ''pets''" "cg_deletedAt ex_pets = 0" "cg_viewed ex_pets = 0" "cg_pk ex_pets = 1"
  by (simp_all add: ex_pets_def new_callgent_def ex_dto_def)

lemma ex_create:
  "createCallgent ex_registry (builtin_service ''m'') (''c1'', ''e1'', ''e2'') (Some 5) (ex_dto ''pets'') (Some 9) ''u'' ex_callgents edb =
     Inr (ex_owned, edb, ex_pets)"
  by (simp add: createCallgent_def insertCallgent_def rls_create_def session_for_default new_callgent_def ex_callgents_def onCallgentCreated_def
      upsertTag_def ex_dto_def given_def tenant_or_0_def ex_owned_def ex_pets_def)

theorem callgent_tenants_isolated_witness:
  "\<exists>s'. callgent_run ex_registry (builtin_service ''m'') True
      [(Some 6, UpdateOp (ex_rename ''c1'' ''mine'')), (Some 6, DeleteOp 77 ''c1'')] (ex_owned, ex_db) = (s', [None, None]) \<and>
    map cg_name (rows_of 5 (fst s')) = [''pets'']"
proof -
  let ?ops = "[(Some 6, UpdateOp (ex_rename ''c1'' ''mine'')), (Some 6, DeleteOp 77 ''c1'')]"
  have run: "callgent_run ex_registry (builtin_service ''m'') True ?ops (ex_owned, ex_db) = ((ex_owned, ex_db), [None, None])"
    by (simp add: updateCallgent_def deleteCallgent_def updateRow_def rls_find_def ex_rename_def settled_def tenant_or_0_def ex_owned_def)
  have "rows_of 5 (fst (ex_owned, ex_db)) = rows_of 5 (fst (ex_owned, ex_db))"
    using callgent_tenants_isolated [OF run, of 5] by simp
  then show ?thesis using run by (simp add: rows_of_def ex_owned_def)
qed

text \<open>The life of a name: after a creation the name is found and cannot be taken again by the tenant; after the
  callgent is deleted the name is free, the callgent is gone from the list and from the look-up by
  name, and so are its entries and endpoints.\<close>

theorem callgent_lifecycle:
  assumes ok: "callgent_db_ok db" and c: "createCallgent rg service (i, e1, e2) (Some t) dto forkedPk by db edb = Inr (db1, edb1, r)" and now: "now \<noteq> 0"
    and none: "\<forall>x\<in>set (cd_callgents db). cg_deletedAt x \<noteq> now"
  shows "getByName (Some t) (cn_name dto) db1 = Inr (Some r) \<and>
    (\<forall>ids'. \<exists>m. createCallgent rg service ids' (Some t) dto forkedPk' by' db1 edb1 = Inl (PlainError m)) \<and>
    (\<exists>db2 edb2 r'. deleteCallgent del now (Some t) i db1 edb1 = Inr (db2, edb2, r') \<and> getByName (Some t) (cn_name dto) db2 = Inr None \<and>
       (\<forall>y\<in>set (ed_entries edb2). ey_callgentId y = i \<longrightarrow> er_tenantPk y \<noteq> t) \<and> (\<forall>n\<in>set (ed_endpoints edb2). en_callgentId n \<noteq> i))"
proof -
  from createCallgent_Inr [OF c] obtain d0 es
    where ins: "insertCallgent (Some t) (new_callgent dto forkedPk i by) db = Inr (d0, r)"
      and db1: "db1 = upsertTag i (given (cn_mainTagId dto) None) d0" and r: "r = new_callgent dto forkedPk i by (cd_nextCallgent db) t" by auto
  have rows: "cd_callgents db1 = cd_callgents db @ [r]" and new: "i \<notin> cg_id ` set (cd_callgents db)" "name_key r \<notin> name_key ` set (cd_callgents db)"
    using ins by (auto simp: insertCallgent_Inr db1 new_callgent_def)
  have key: "name_key r = (t, cn_name dto, 0)" by (simp add: r name_key_def new_callgent_def)
  have rf: "cg_id r = i" "cg_tenantPk r = t" "cg_deletedAt r = 0" by (simp_all add: r new_callgent_def)
  have "filter (\<lambda>x. (cg_tenantPk x = 0 \<or> cg_tenantPk x = t) \<and> name_key x = (t, cn_name dto, 0)) (cd_callgents db) = []"
    using new(2) key by (simp add: filter_empty_conv) (metis image_eqI)
  then have found: "getByName (Some t) (cn_name dto) db1 = Inr (Some r)"
    by (simp add: getByName_def rls_find_def rows tenant_or_0_def key rf)
  have again: "\<exists>m. createCallgent rg service ids' (Some t) dto forkedPk' by' db1 edb1 = Inl (PlainError m)" for ids'
  proof -
    obtain j f1 f2 where ids: "ids' = (j, f1, f2)" by (cases ids')
    have "name_key (new_callgent dto forkedPk' j by' n t) \<in> name_key ` set (cd_callgents db1)" for n
      using key by (auto simp: rows name_key_def new_callgent_def)
    then show ?thesis
      by (simp add: ids createCallgent_def insertCallgent_def rls_create_def session_for_default tenant_or_0_def new_callgent_def name_taken_def)
  qed
  let ?f = "\<lambda>x::callgent_row. x\<lparr>cg_deletedAt := now\<rparr>"
  have "\<forall>x\<in>set (cd_callgents db). \<not> one_row del i x" using new(1) by (auto simp: one_row_def)
  then have f1: "rls_find cg_tenantPk (session_for (Some t)) (one_row del i) (cd_callgents db1) = [r]"
    using rf by (auto simp: rls_find_def rows filter_empty_conv one_row_def tenant_or_0_def)
  have upd: "rls_update cg_tenantPk (session_for (Some t)) (one_row del i) ?f (cd_callgents db1) = Inr (cd_callgents db @ [?f r])"
  proof -
    have "map (\<lambda>x. if row_visible (session_for (Some t)) (cg_tenantPk x) \<and> one_row del i x then ?f x else x) (cd_callgents db) = cd_callgents db"
      by (rule map_idI) (use new(1) in \<open>auto simp: one_row_def\<close>)
    then show ?thesis unfolding rls_update_def f1 using rf by (simp add: rows one_row_def tenant_or_0_def)
  qed
  have uniq: "\<not> (\<exists>x\<in>set (cd_callgents db1). cg_id x \<noteq> i \<and> name_key x = name_key (?f r))"
    using none by (auto simp: rows name_key_def rf)
  let ?db2 = "db1\<lparr>cd_callgents := cd_callgents db @ [?f r]\<rparr>"
  have "updateRow del (Some t) ''Record to delete does not exist.'' i ?f db1 = Inr (?db2, ?f r)"
    unfolding updateRow_def f1 using uniq upd by simp
  then have "\<exists>edb2. deleteCallgent del now (Some t) i db1 edb1 = Inr (?db2, edb2, ?f r) \<and>
      (\<forall>y\<in>set (ed_entries edb2). ey_callgentId y = i \<longrightarrow> er_tenantPk y \<noteq> t) \<and> (\<forall>n\<in>set (ed_endpoints edb2). en_callgentId n \<noteq> i)"
    by (auto simp: deleteCallgent_def Let_def tenant_or_0_def)
  moreover have "getByName (Some t) (cn_name dto) ?db2 = Inr None"
    using \<open>filter _ (cd_callgents db) = []\<close> now key by (simp add: getByName_def rls_find_def tenant_or_0_def name_key_def)
  ultimately show ?thesis using found again by blast
qed

theorem callgent_lifecycle_witness:
  "getByName (Some 5) ''pets'' ex_owned = Inr (Some ex_pets) \<and>
   (\<exists>db2 edb2 r'. deleteCallgent True 77 (Some 5) ''c1'' ex_owned ex_db = Inr (db2, edb2, r') \<and> getByName (Some 5) ''pets'' db2 = Inr None)"
proof -
  have "callgent_db_ok ex_callgents" "(77::int) \<noteq> 0" "\<forall>x\<in>set (cd_callgents ex_callgents). cg_deletedAt x \<noteq> 77"
    by (simp_all add: callgent_db_ok_def ex_callgents_def)
  from callgent_lifecycle [OF this(1) ex_create [of ex_db] this(2,3), of None "''u''" True] show ?thesis by (simp add: ex_dto_def) blast
qed

lemma tr_callgent_tree [simp]: "tr_callgent (callgentTree rg t rdb edb c) = c"
  by (simp add: callgentTree_def Let_def)

definition ex_realms_of :: realm_db where
  "ex_realms_of = \<lparr>rd_realms = [], rd_nextPk = 1, rd_entries = [], rd_endpoints = []\<rparr>"

text \<open>Asking for the tree of a name twice creates one callgent: the second request changes nothing and gives
  the callgent of the first.\<close>

theorem tree_create_once:
  assumes "treeCreate rg service ids (Some t) dto sub db rdb edb = Inr (db1, edb1, tree)" and "callgent_db_ok db"
  shows "treeCreate rg service ids' (Some t) dto sub' db1 rdb edb1 = Inr (db1, edb1, callgentTree rg (Some t) rdb edb1 (tr_callgent tree)) \<and>
    cg_name (tr_callgent tree) = cn_name dto"
proof (cases "getByName (Some t) (cn_name dto) db")
  case (Inl e)
  with assms show ?thesis by (simp add: treeCreate_def)
next
  case (Inr found)
  show ?thesis
  proof (cases found)
    case None
    obtain i e1 e2 where ids: "ids = (i, e1, e2)" by (cases ids)
    from assms(1) Inr None obtain r where c: "createCallgent rg service (i, e1, e2) (Some t) dto None sub db edb = Inr (db1, edb1, r)"
      and tree: "tree = callgentTree rg (Some t) rdb edb1 r" by (auto simp: treeCreate_def ids outcome_simps)
    obtain now where now: "now \<noteq> (0::int)" "now \<notin> cg_deletedAt ` set (cd_callgents db)"
      using ex_new_if_finite [of "insert 0 (cg_deletedAt ` set (cd_callgents db))"] by auto
    have "getByName (Some t) (cn_name dto) db1 = Inr (Some r)"
      using callgent_lifecycle [OF assms(2) c now(1)] now(2) by blast
    moreover have "cg_name r = cn_name dto" using createCallgent_Inr [OF c] by (auto simp: new_callgent_def)
    ultimately show ?thesis by (simp add: treeCreate_def tree)
  next
    case (Some r)
    then have "cg_name r = cn_name dto" using Inr
      by (auto simp: getByName_def rls_find_def name_key_def split: list.splits if_splits dest!: filter_eq_ConsD)
    with Some Inr assms(1) show ?thesis by (auto simp: treeCreate_def)
  qed
qed

theorem tree_create_once_witness:
  "\<exists>db1 edb1 tree. treeCreate ex_registry (builtin_service ''m'') (''c2'', ''e1'', ''e2'') (Some 5) (ex_dto ''pets'') ''u'' ex_owned ex_realms_of ex_db = Inr (db1, edb1, tree) \<and>
     treeCreate ex_registry (builtin_service ''m'') (''c3'', ''e3'', ''e4'') (Some 5) (ex_dto ''pets'') ''u'' db1 ex_realms_of edb1 =
       Inr (db1, edb1, callgentTree ex_registry (Some 5) ex_realms_of edb1 (tr_callgent tree))"
proof -
  have "getByName (Some 5) ''pets'' ex_owned = Inr (Some ex_pets)"
    by (simp add: getByName_def rls_find_def ex_owned_def name_key_def tenant_or_0_def)
  then have t: "treeCreate ex_registry (builtin_service ''m'') (''c2'', ''e1'', ''e2'') (Some 5) (ex_dto ''pets'') ''u'' ex_owned ex_realms_of ex_db =
      Inr (ex_owned, ex_db, callgentTree ex_registry (Some 5) ex_realms_of ex_db ex_pets)"
    by (simp add: treeCreate_def ex_dto_def)
  have "callgent_db_ok ex_owned" by (simp add: callgent_db_ok_def ex_owned_def)
  from tree_create_once [OF t this, of "(''c3'', ''e3'', ''e4'')" "''u''"] t show ?thesis by blast
qed

text \<open>The tree shows every entry of the callgent that the tenant sees, once, under its type, and the endpoints
  under their server entry; no realm comes with its secret.\<close>

theorem tree_shows_entries:
  "let tree = callgentTree rg t rdb edb c
   in mset (map fst (tr_client tree) @ map fst (tr_server tree) @ map fst (tr_event tree)) =
        mset (rls_find er_tenantPk (session_for t) (\<lambda>y. ey_callgentId y = cg_id c) (ed_entries edb)) \<and>
      (\<forall>(y, icon, ns)\<in>set (tr_server tree). set ns = {n \<in> set (ed_endpoints edb). en_entryId n = ey_id y}) \<and>
      (\<forall>r\<in>set (tr_realms tree). rm_secret r = None)"
proof -
  have split: "mset (filter (\<lambda>y. ey_type y = ET_CLIENT) ys) + mset (filter (\<lambda>y. ey_type y = ET_SERVER) ys) + mset (filter (\<lambda>y. ey_type y = ET_EVENT) ys) = mset ys"
    for ys :: "entry_row list"
  proof (induction ys)
    case (Cons y ys)
    then show ?case by (cases "ey_type y") simp_all
  qed simp
  let ?ys = "callgent_entries t (cg_id c) edb" and ?tree = "callgentTree rg t rdb edb c"
  have "map fst (tr_client ?tree) = filter (\<lambda>y. ey_type y = ET_CLIENT) ?ys" "map fst (tr_server ?tree) = filter (\<lambda>y. ey_type y = ET_SERVER) ?ys"
    "map fst (tr_event ?tree) = filter (\<lambda>y. ey_type y = ET_EVENT) ?ys"
    by (simp_all add: callgentTree_def Let_def comp_def)
  then have "mset (map fst (tr_client ?tree) @ map fst (tr_server ?tree) @ map fst (tr_event ?tree)) = mset ?ys"
    by (simp only: mset_append add.assoc [symmetric] split)
  moreover have "mset ?ys = mset (rls_find er_tenantPk (session_for t) (\<lambda>y. ey_callgentId y = cg_id c) (ed_entries edb))"
    by (simp only: callgent_entries_def newest_entry_order.mset_js_sort)
  moreover have eps: "set (entry_endpoints edb i) = {n \<in> set (ed_endpoints edb). en_entryId n = i}" for i
    using mset_eq_setD [OF oldest_endpoint_order.mset_js_sort] by (simp add: entry_endpoints_def)
  have "\<forall>(y, icon, ns)\<in>set (tr_server ?tree). set ns = {n \<in> set (ed_endpoints edb). en_entryId n = ey_id y}"
    by (simp add: callgentTree_def Let_def eps del: set_filter)
  moreover have "\<forall>r\<in>set (tr_realms ?tree). rm_secret r = None" by (simp add: callgentTree_def Let_def)
  ultimately show ?thesis by (simp only: Let_def simp_thms)
qed

end
