(* ===== verification/Hub.thy ===== *)
theory Hub
  imports Callgents Endpoints
begin

text \<open>
  \<open>src/callgent-hub/callgent-hub.service.ts\<close>: the hub is the tenant -1; a callgent is forked from the hub
  into the tenant of the caller, or committed from it to the hub, by copying it with its realms (but
  not their secrets), entries and endpoints. The realms and endpoints of a callgent belong to its
  tenant. A failing copy is rolled back as a whole.
\<close>

section \<open>State\<close>

record hub_db =
  hb_callgents :: callgent_db
  hb_realms :: realm_db
  hb_entries :: entry_db

text \<open>What the copy needs from outside: the adaptors, the host of a URL, the reach of the soft-delete
  middleware, and the ids that are drawn: of the callgent (with the two that only a new callgent
  uses), of the n-th entry and of the m-th endpoint of the n-th entry.\<close>

record hub_env =
  he_registry :: registry
  he_service :: "string \<Rightarrow> adaptor"
  he_host :: url_host
  he_deletedToo :: bool
  he_ids :: "string \<times> string \<times> string"
  he_entryId :: "nat \<Rightarrow> string"
  he_endpointId :: "nat \<Rightarrow> nat \<Rightarrow> string"

definition hubTenantPK :: int where
  "hubTenantPK = - 1"

text \<open>\<open>_onHubAction\<close>: an action with the tenant of the hub; the state is the tenant of the request.\<close>

definition onHubAction :: "(int option \<Rightarrow> 'a result) \<Rightarrow> int option \<Rightarrow> int option \<times> 'a result" where
  "onHubAction f tenant = (tenant, f (Some hubTenantPK))"

definition findAllInHub :: "((string \<times> direction) list \<Rightarrow> callgent_row \<Rightarrow> callgent_row \<Rightarrow> int) \<Rightarrow> (int option \<Rightarrow> int option \<Rightarrow> callgent_row list \<Rightarrow> 'p) \<Rightarrow>
    list_query \<Rightarrow> callgent_db \<Rightarrow> int option \<Rightarrow> int option \<times> 'p result" where
  "findAllInHub ord paginate q db = onHubAction (\<lambda>t. Inr (findMany ord paginate t q db))"

text \<open>The query of the hub's controller: a name to look for and a page.\<close>

definition hubQuery :: "string option \<Rightarrow> int option \<Rightarrow> int option \<Rightarrow> list_query" where
  "hubQuery query pageNo psize =
     \<lparr>lq_page = pageNo, lq_perPage = psize, lq_contains = (if nonempty_str query then query else None), lq_tag = None, lq_orderBy = None\<rparr>"

section \<open>Copying\<close>

text \<open>\<open>dupSecurities\<close>: the items of a security, keyed by the copies of their realms; a realm without a copy
  has no \<open>pk\<close>.\<close>

definition dupSecurity :: "(int \<times> realm) list \<Rightarrow> security_item obj \<Rightarrow> security_item obj result" where
  "dupSecurity realmMap sec =
     and_then (map_result (\<lambda>(k, it). case map_of realmMap (si_realmPk it) of
           None \<Rightarrow> Inl (TypeError ''Cannot read properties of undefined (reading pk)'')
         | Some r \<Rightarrow> Inr (it\<lparr>si_realmPk := rm_pk r\<rparr>)) sec)
       (\<lambda>items. Inr (fold (\<lambda>it m. obj_set (show_int (si_realmPk it)) it m) items []))"

definition dupSecurities :: "(int \<times> realm) list \<Rightarrow> security_item obj list \<Rightarrow> security_item obj list result" where
  "dupSecurities realmMap = map_result (dupSecurity realmMap)"

text \<open>The realms, oldest first, without their secrets. Their creations run together; of several that
  fail the model reports the first.\<close>

fun forkRealms :: "url_host \<Rightarrow> string \<Rightarrow> realm list \<Rightarrow> realm_db \<Rightarrow> (realm_db \<times> (int \<times> realm) list) result" where
  "forkRealms host cgId [] db = Inr (db, [])"
| "forkRealms host cgId (r # rs) db =
     and_then (createRealm host (r\<lparr>rm_callgentId := cgId, rm_secret := None\<rparr>) db) (\<lambda>(db1, new).
     and_then (forkRealms host cgId rs db1) (\<lambda>(db2, m). Inr (db2, (rm_pk r, new) # m)))"

text \<open>An endpoint: the columns that the query selects. The servers and the cache settings are not among them,
  so the copy has their defaults.\<close>

definition forkEndpoint :: "(int \<times> realm) list \<Rightarrow> string \<Rightarrow> string \<Rightarrow> string \<Rightarrow> string \<Rightarrow> endpoint_row \<Rightarrow> endpoint_row result" where
  "forkEndpoint realmMap cgId entryId createdBy fresh n =
     and_then (dupSecurities realmMap (en_securities n)) (\<lambda>secs.
       Inr (n\<lparr>en_id := fresh, en_callgentId := cgId, en_entryId := entryId, en_securities := secs, en_isAsync := False,
              en_cacheKey := None, en_cacheTtl := Some 0, nr_pk := 0, nr_servers := None, nr_createdBy := Some createdBy\<rparr>))"

definition forkEndpoints :: "(int \<times> realm) list \<Rightarrow> string \<Rightarrow> string \<Rightarrow> string \<Rightarrow> (nat \<Rightarrow> string) \<Rightarrow> endpoint_row list \<Rightarrow> endpoint_row list result" where
  "forkEndpoints realmMap cgId entryId createdBy fresh ns =
     map_result (\<lambda>(i, n). forkEndpoint realmMap cgId entryId createdBy (fresh i) n) (enumerate 0 ns)"

definition forkEntry :: "hub_env \<Rightarrow> (int \<times> realm) list \<Rightarrow> string \<Rightarrow> string \<Rightarrow> nat \<Rightarrow> entry_row \<Rightarrow> endpoint_row list \<Rightarrow> entry_db \<Rightarrow> (entry_db \<times> entry_row) result" where
  "forkEntry env realmMap cgId createdBy i old ns db =
     and_then (dupSecurities realmMap (ey_securities old)) (\<lambda>secs.
     and_then (createEntry (he_registry env) (he_service env) (he_entryId env i)
                 (old\<lparr>ey_callgentId := cgId, ey_securities := secs, er_createdBy := Some createdBy\<rparr>) db) (\<lambda>(db1, en).
     and_then (forkEndpoints realmMap cgId (ey_id en) createdBy (he_endpointId env i) ns) (\<lambda>eps.
       if eps = [] then Inr (db1, en)
       else and_then (createMany (he_registry env) (he_service env) eps en (Some createdBy) db1) (\<lambda>(db2, _). Inr (db2, en)))))"

text \<open>The entries, each with the endpoints that were read before the first is created.\<close>

fun forkEntries :: "hub_env \<Rightarrow> (int \<times> realm) list \<Rightarrow> string \<Rightarrow> string \<Rightarrow> nat \<Rightarrow> (entry_row \<times> endpoint_row list) list \<Rightarrow> entry_db \<Rightarrow>
    (entry_db \<times> entry_row list) result" where
  "forkEntries env realmMap cgId createdBy i [] db = Inr (db, [])"
| "forkEntries env realmMap cgId createdBy i ((old, ns) # rest) db =
     and_then (forkEntry env realmMap cgId createdBy i old ns db) (\<lambda>(db1, en).
     and_then (forkEntries env realmMap cgId createdBy (Suc i) rest db1) (\<lambda>(db2, ens). Inr (db2, en # ens)))"

section \<open>Duplicating a callgent\<close>

text \<open>\<open>{ ...from, ...dto }\<close>: the name, the summary and the instruction of the source where the body has none.\<close>

definition merged_dto :: "callgent_row \<Rightarrow> create_dto \<Rightarrow> create_dto" where
  "merged_dto src dto =
     dto\<lparr>cn_summary := Some (given (cn_summary dto) (cg_summary src)),
         cn_instruction := Some (given (cn_instruction dto) (cg_instruction src))\<rparr>"

definition by_pk :: "realm \<Rightarrow> realm \<Rightarrow> int" where
  "by_pk a b = rm_pk a - rm_pk b"

definition endpoint_by_pk :: "endpoint_row \<Rightarrow> endpoint_row \<Rightarrow> int" where
  "endpoint_by_pk a b = nr_pk a - nr_pk b"

text \<open>The rows of the source. \<open>forkedPk\<close> is not among the selected columns of \<open>from\<close>, so it is always
  \<open>undefined\<close> (\<open>None\<close>) in the test that is to keep forks out of the hub.\<close>

definition source_entries :: "int option \<Rightarrow> string \<Rightarrow> entry_db \<Rightarrow> entry_row list" where
  "source_entries tenant i db = rls_find er_tenantPk (session_for tenant) (\<lambda>y. ey_callgentId y = i) (ed_entries db)"

definition source_realms :: "string \<Rightarrow> realm_db \<Rightarrow> realm list" where
  "source_realms i db = js_sort by_pk (filter (\<lambda>r. rm_callgentId r = i) (rd_realms db))"

definition source_endpoints :: "entry_db \<Rightarrow> entry_row \<Rightarrow> endpoint_row list" where
  "source_endpoints db y = js_sort endpoint_by_pk (filter (\<lambda>n. en_entryId n = ey_id y) (ed_endpoints db))"

definition hub_refuses :: "int option \<Rightarrow> int option \<Rightarrow> bool" where
  "hub_refuses toTenant forkedPk \<longleftrightarrow> toTenant = Some hubTenantPK \<and> forkedPk \<noteq> None \<and> forkedPk \<noteq> Some 0"

definition duplicate :: "hub_env \<Rightarrow> string \<Rightarrow> create_dto \<Rightarrow> string \<Rightarrow> int option \<Rightarrow> int option \<Rightarrow> hub_db \<Rightarrow> (hub_db \<times> callgent_row) result" where
  "duplicate env fromId dto createdBy fromTenant toTenant db =
     and_then (findOne (he_deletedToo env) fromTenant fromId (hb_callgents db)) (\<lambda>(cdb1, found). case found of
        None \<Rightarrow> Inl (NotFound ''Not Found'')
      | Some src \<Rightarrow>
          if hub_refuses toTenant None then Inl (BadRequest ''Only original callgent can be committed to hub.'')
          else
            (let ens = source_entries fromTenant (cg_id src) (hb_entries db);
                 pairs = map (\<lambda>y. (y, source_endpoints (hb_entries db) y)) ens
             in and_then (updateRow (he_deletedToo env) fromTenant ''Record to update not found.'' fromId (\<lambda>r. r\<lparr>cg_forked := cg_forked r + 1\<rparr>) cdb1) (\<lambda>(cdb2, _).
                and_then (createCallgent (he_registry env) (he_service env) (he_ids env) toTenant (merged_dto src dto) (Some (cg_pk src)) createdBy
                            cdb2 ((hb_entries db)\<lparr>ed_tenantPk := tenant_or_0 toTenant\<rparr>)) (\<lambda>(cdb3, edb1, c).
                and_then (forkRealms (he_host env) (cg_id c) (source_realms (cg_id src) (hb_realms db)) (hb_realms db)) (\<lambda>(rdb, realmMap).
                and_then (forkEntries env realmMap (cg_id c) createdBy 0 pairs edb1) (\<lambda>(edb2, _).
                  Inr (\<lparr>hb_callgents = cdb3, hb_realms = rdb, hb_entries = edb2\<rparr>, c)))))))"

text \<open>\<open>_duplicateCallgent\<close> on the state of a request, the tenant and the database: the \<open>finally\<close> block restores the
  tenant, the transaction the database.\<close>

definition duplicateCallgent :: "hub_env \<Rightarrow> string \<Rightarrow> create_dto \<Rightarrow> string \<Rightarrow> int option \<Rightarrow> int option \<Rightarrow> int option \<times> hub_db \<Rightarrow>
    (int option \<times> hub_db) \<times> callgent_row result" where
  "duplicateCallgent env fromId dto createdBy fromTenant toTenant s =
     (case duplicate env fromId dto createdBy fromTenant toTenant (snd s) of
        Inl err \<Rightarrow> (s, Inl err)
      | Inr (db, c) \<Rightarrow> ((fst s, db\<lparr>hb_entries := (hb_entries db)\<lparr>ed_tenantPk := ed_tenantPk (hb_entries (snd s))\<rparr>\<rparr>), Inr c))"

definition forkFromHub :: "hub_env \<Rightarrow> string \<Rightarrow> create_dto \<Rightarrow> string \<Rightarrow> int option \<times> hub_db \<Rightarrow> (int option \<times> hub_db) \<times> callgent_row result" where
  "forkFromHub env dupId dto createdBy s = duplicateCallgent env dupId dto createdBy (Some hubTenantPK) (fst s) s"

definition commitToHub :: "hub_env \<Rightarrow> string \<Rightarrow> create_dto \<Rightarrow> string \<Rightarrow> int option \<times> hub_db \<Rightarrow> (int option \<times> hub_db) \<times> callgent_row result" where
  "commitToHub env dupId dto createdBy s = duplicateCallgent env dupId dto createdBy (fst s) (Some hubTenantPK) s"

section \<open>Facts\<close>

text \<open>What a copy has in common with its original.\<close>

definition copied_entry :: "(int \<times> realm) list \<Rightarrow> string \<Rightarrow> int \<Rightarrow> entry_row \<Rightarrow> entry_row \<Rightarrow> bool" where
  "copied_entry m cg t old new \<longleftrightarrow>
     ey_callgentId new = cg \<and> er_tenantPk new = t \<and> ey_type new = ey_type old \<and> er_adaptorKey new = er_adaptorKey old \<and>
     er_priority new = er_priority old \<and> er_summary new = er_summary old \<and> er_instruction new = er_instruction old \<and>
     er_initParams new = er_initParams old \<and> er_content new = er_content old \<and>
     dupSecurities m (ey_securities old) = Inr (ey_securities new)"

definition copied_endpoint :: "(int \<times> realm) list \<Rightarrow> string \<Rightarrow> endpoint_row \<Rightarrow> endpoint_row \<Rightarrow> bool" where
  "copied_endpoint m cg old new \<longleftrightarrow>
     en_callgentId new = cg \<and> en_name new = en_name old \<and> en_path new = en_path old \<and> en_method new = en_method old \<and>
     en_adaptorKey new = en_adaptorKey old \<and> nr_summary new = nr_summary old \<and> nr_description new = nr_description old \<and>
     nr_params new = nr_params old \<and> nr_responses new = nr_responses old \<and> nr_rawJson new = nr_rawJson old \<and>
     nr_servers new = None \<and> en_cacheKey new = None \<and> dupSecurities m (en_securities old) = Inr (en_securities new)"

definition copied_realm :: "string \<Rightarrow> realm \<Rightarrow> realm \<Rightarrow> bool" where
  "copied_realm cg old new \<longleftrightarrow>
     rm_callgentId new = cg \<and> rm_authType new = rm_authType old \<and> rm_realm new = rm_realm old \<and> rm_secret new = None \<and> \<not> rm_enabled new"

lemma list_all2_ex: "list_all2 P xs ys \<Longrightarrow> y \<in> set ys \<Longrightarrow> \<exists>x\<in>set xs. P x y"
  by (induction rule: list_all2_induct) auto

lemma preCreate_shape:
  "preCreate a d = Inr r \<Longrightarrow> \<exists>h. r = d\<lparr>ey_host := Some h, er_name := (if nonempty_str (er_name d) then er_name d else Some h)\<rparr>"
  by (auto simp: preCreate_def preCreateBase_Inr split: if_splits)

lemma dupSecurity_realms:
  assumes "dupSecurity m sec = Inr sec'" and "obj_get sec' k = Some it"
  shows "\<exists>r\<in>snd ` set m. si_realmPk it = rm_pk r \<and> k = show_int (rm_pk r)"
proof -
  obtain items where items: "map_result (\<lambda>(k, it). case map_of m (si_realmPk it) of
        None \<Rightarrow> Inl (TypeError ''Cannot read properties of undefined (reading pk)'') | Some r \<Rightarrow> Inr (it\<lparr>si_realmPk := rm_pk r\<rparr>)) sec = Inr items"
    and sec': "sec' = fold (\<lambda>it m. obj_set (show_int (si_realmPk it)) it m) items []"
    using assms(1) by (auto simp: dupSecurity_def outcome_simps)
  have "obj_get (fold (\<lambda>it m. obj_set (show_int (si_realmPk it)) it m) xs o1) k = Some it \<Longrightarrow>
      obj_get o1 k = Some it \<or> it \<in> set xs \<and> k = show_int (si_realmPk it)" for xs o1
    by (induction xs arbitrary: o1) (force split: if_splits)+
  from this [of items "[]"] have it: "it \<in> set items" "k = show_int (si_realmPk it)" using assms(2) by (auto simp: sec')
  from it(1) obtain n where n: "n < length items" "it = items ! n" by (auto simp: in_set_conv_nth)
  obtain j old where "sec ! n = (j, old)" by (cases "sec ! n")
  with items n have "(case map_of m (si_realmPk old) of
        None \<Rightarrow> Inl (TypeError ''Cannot read properties of undefined (reading pk)'') | Some r \<Rightarrow> Inr (old\<lparr>si_realmPk := rm_pk r\<rparr>)) = Inr it"
    unfolding map_result_Inr by (auto dest: list_all2_nthD2)
  then obtain r where "map_of m (si_realmPk old) = Some r" "it = old\<lparr>si_realmPk := rm_pk r\<rparr>" by (auto split: option.splits)
  then show ?thesis using it(2) by (force dest: map_of_SomeD)
qed

lemma dupSecurities_realms:
  assumes "dupSecurities m secs = Inr secs'" and "sec \<in> set secs'" and "obj_get sec k = Some it"
  shows "\<exists>r\<in>snd ` set m. si_realmPk it = rm_pk r \<and> k = show_int (rm_pk r)"
proof -
  obtain i where "i < length secs'" "sec = secs' ! i" using assms(2) by (auto simp: in_set_conv_nth)
  with assms(1) have "dupSecurity m (secs ! i) = Inr sec"
    unfolding dupSecurities_def map_result_Inr by (auto dest: list_all2_nthD2)
  from dupSecurity_realms [OF this assms(3)] show ?thesis .
qed

lemma forkRealms_Inr:
  assumes "forkRealms host cg rs db = Inr (db', m)"
  shows "rd_realms db' = rd_realms db @ map snd m \<and> map fst m = map rm_pk rs \<and> list_all2 (copied_realm cg) rs (map snd m) \<and>
    rd_entries db' = rd_entries db \<and> rd_endpoints db' = rd_endpoints db"
  using assms
proof (induction rs arbitrary: db m)
  case Nil
  then show ?case by simp
next
  case (Cons r rs)
  from Cons.prems obtain db1 new m' where c: "createRealm host (r\<lparr>rm_callgentId := cg, rm_secret := None\<rparr>) db = Inr (db1, new)"
    and f: "forkRealms host cg rs db1 = Inr (db', m')" and m: "m = (rm_pk r, new) # m'" by (auto simp: outcome_simps)
  from c have "rd_realms db1 = rd_realms db @ [new] \<and> copied_realm cg r new \<and> rd_entries db1 = rd_entries db \<and> rd_endpoints db1 = rd_endpoints db"
    by (auto simp: createRealm_def outcome_simps constructRealm_def insertRealm_def checkEnabled_def copied_realm_def Let_def split: if_splits)
  with Cons.IH [OF f] show ?case by (simp add: m)
qed

lemma numbered_rows: "list_all2 (\<lambda>n n'. \<exists>v. n' = n\<lparr>nr_pk := v\<rparr>) ns (numbered k ns)"
  by (auto simp: list_all2_conv_all_nth numbered_def nth_enumerate_eq)

lemma forkEndpoint_copied:
  "forkEndpoint m cg e u i n = Inr n' \<Longrightarrow> copied_endpoint m cg n (with_async a n'\<lparr>nr_pk := v\<rparr>) \<and> en_entryId n' = e"
  by (auto simp: forkEndpoint_def outcome_simps copied_endpoint_def with_async_def)

lemma forkEndpoints_Inr:
  assumes "forkEndpoints m cg e u fresh ns = Inr eps" and "insertEndpoints (map (with_async a) eps) db = Inr (db', rows)"
  shows "list_all2 (copied_endpoint m cg) ns rows \<and> (\<forall>n\<in>set rows. en_entryId n = e) \<and> length eps = length ns"
proof -
  have l: "length eps = length ns" and f: "\<And>i. i < length ns \<Longrightarrow> forkEndpoint m cg e u (fresh i) (ns ! i) = Inr (eps ! i)"
    using assms(1) unfolding forkEndpoints_def map_result_Inr by (auto simp: list_all2_conv_all_nth nth_enumerate_eq)
  have rows: "rows = numbered (ed_nextEndpoint db) (map (with_async a) eps)" using assms(2) by (simp add: insertEndpoints_Inr)
  have "\<exists>v. rows ! i = with_async a (eps ! i)\<lparr>nr_pk := v\<rparr>" if "i < length ns" for i
    using list_all2_nthD [OF numbered_rows, of i "map (with_async a) eps"] that l rows by simp
  then have "copied_endpoint m cg (ns ! i) (rows ! i) \<and> en_entryId (rows ! i) = e" if "i < length ns" for i
    using forkEndpoint_copied [OF f [OF that]] that by fastforce
  with l rows show ?thesis by (auto simp: list_all2_conv_all_nth in_set_conv_nth)
qed

lemma forkEntry_Inr:
  assumes "forkEntry env m cg u i old ns db = Inr (db', en)"
  shows "\<exists>eps. ed_entries db' = ed_entries db @ [en] \<and> ed_endpoints db' = ed_endpoints db @ eps \<and> copied_entry m cg (ed_tenantPk db) old en \<and>
    list_all2 (copied_endpoint m cg) ns eps \<and> (\<forall>n\<in>set eps. en_entryId n = ey_id en) \<and> ed_tenantPk db' = ed_tenantPk db"
proof -
  from assms obtain secs db1 eps where secs: "dupSecurities m (ey_securities old) = Inr secs"
    and c: "createEntry (he_registry env) (he_service env) (he_entryId env i) (old\<lparr>ey_callgentId := cg, ey_securities := secs, er_createdBy := Some u\<rparr>) db = Inr (db1, en)"
    and f: "forkEndpoints m cg (ey_id en) u (he_endpointId env i) ns = Inr eps"
    and g: "if eps = [] then db' = db1 else \<exists>k. createMany (he_registry env) (he_service env) eps en (Some u) db1 = Inr (db', k)"
    by (auto simp: forkEntry_def outcome_simps split: if_splits)
  from createEntry_Inr [OF c] obtain token d1 where
    "preCreate (he_service env token) (old\<lparr>ey_callgentId := cg, ey_securities := secs, er_createdBy := Some u, ey_id := he_entryId env i\<rparr>) = Inr d1"
    and en: "en = d1\<lparr>er_pk := ed_nextEntry db, er_tenantPk := ed_tenantPk db\<rparr>"
    and db1: "db1 = db\<lparr>ed_entries := ed_entries db @ [en], ed_nextEntry := ed_nextEntry db + 1\<rparr>" by auto
  from preCreate_shape [OF this(1)] secs have en': "copied_entry m cg (ed_tenantPk db) old en" by (auto simp: en copied_entry_def)
  show ?thesis
  proof (cases "eps = []")
    case True
    then have "ns = []" using f unfolding forkEndpoints_def map_result_Inr by (auto simp: list_all2_conv_all_nth)
    with True g db1 en' show ?thesis by simp
  next
    case False
    with g obtain k where "createMany (he_registry env) (he_service env) eps en (Some u) db1 = Inr (db', k)" by auto
    from createMany_Inr [OF this] obtain a db2 rows where ins: "insertEndpoints (map (with_async a) eps) db1 = Inr (db2, rows)"
      and db': "db' = publish (EndpointsChanged (Some u) (ey_id en) (map (with_async a) eps) []) db2" by blast
    from forkEndpoints_Inr [OF f ins] ins db1 en' show ?thesis
      by (intro exI [of _ rows]) (simp add: db' insertEndpoints_Inr publish_def)
  qed
qed

lemma forkEntries_Inr:
  assumes "forkEntries env m cg u i pairs db = Inr (db', ens)"
  shows "\<exists>eps. ed_entries db' = ed_entries db @ ens \<and> ed_endpoints db' = ed_endpoints db @ concat eps \<and>
    list_all2 (copied_entry m cg (ed_tenantPk db)) (map fst pairs) ens \<and> list_all2 (list_all2 (copied_endpoint m cg)) (map snd pairs) eps \<and>
    list_all2 (\<lambda>en ns. \<forall>n\<in>set ns. en_entryId n = ey_id en) ens eps \<and> ed_tenantPk db' = ed_tenantPk db"
  using assms
proof (induction pairs arbitrary: i db ens)
  case Nil
  then show ?case by simp
next
  case (Cons p pairs)
  obtain old ns where p: "p = (old, ns)" by (cases p)
  from Cons.prems obtain db1 en ens' where one: "forkEntry env m cg u i old ns db = Inr (db1, en)"
    and rest: "forkEntries env m cg u (Suc i) pairs db1 = Inr (db', ens')" and ens: "ens = en # ens'"
    by (auto simp: p outcome_simps)
  from forkEntry_Inr [OF one] obtain eps where "ed_entries db1 = ed_entries db @ [en]" "ed_endpoints db1 = ed_endpoints db @ eps"
    "copied_entry m cg (ed_tenantPk db) old en" "list_all2 (copied_endpoint m cg) ns eps" "\<forall>n\<in>set eps. en_entryId n = ey_id en" "ed_tenantPk db1 = ed_tenantPk db" by blast
  moreover from Cons.IH [OF rest] obtain eps' where "ed_entries db' = ed_entries db1 @ ens'" "ed_endpoints db' = ed_endpoints db1 @ concat eps'"
    "list_all2 (copied_entry m cg (ed_tenantPk db1)) (map fst pairs) ens'" "list_all2 (list_all2 (copied_endpoint m cg)) (map snd pairs) eps'"
    "list_all2 (\<lambda>en ns. \<forall>n\<in>set ns. en_entryId n = ey_id en) ens' eps'" "ed_tenantPk db' = ed_tenantPk db1" by blast
  ultimately show ?case by (intro exI [of _ "eps # eps'"]) (simp add: p ens)
qed

lemma findOne_row:
  assumes "findOne del t i db = Inr (db', Some r)"
  shows "\<exists>x\<in>set (cd_callgents db). r = x\<lparr>cg_viewed := cg_viewed x + 1\<rparr> \<and> cg_id x = i \<and> (cg_tenantPk x = 0 \<or> cg_tenantPk x = tenant_or_0 t)"
  using updateRow_Inr [OF findOne_Some [OF assms]] by (auto simp: one_row_def)

lemma updateRow_ids:
  assumes "updateRow del t m i f db = Inr (db', r)" and "\<And>y. cg_id (f y) = cg_id y"
  shows "cg_id ` set (cd_callgents db') = cg_id ` set (cd_callgents db)"
proof -
  have "rls_update cg_tenantPk (session_for t) (one_row del i) f (cd_callgents db) = Inr (cd_callgents db')"
    using updateRow_Inr [OF assms(1)] by blast
  then have "cd_callgents db' = map (\<lambda>r. if row_visible (session_for t) (cg_tenantPk r) \<and> one_row del i r then f r else r) (cd_callgents db)"
    by (simp add: rls_update_def split: if_splits)
  then have "map cg_id (cd_callgents db') = map cg_id (cd_callgents db)" using assms(2) by simp
  then show ?thesis by (metis set_map)
qed

lemma duplicate_Inr:
  assumes "duplicate env fromId dto u from to db = Inr (db', c)" and "\<forall>r\<in>set (cd_callgents (hb_callgents db)). cg_pk r \<noteq> 0"
  shows "\<exists>src cdb1 cdb2 t m ens. findOne (he_deletedToo env) from fromId (hb_callgents db) = Inr (cdb1, Some src) \<and> to = Some t \<and>
    (\<exists>r. updateRow (he_deletedToo env) from ''Record to update not found.'' fromId (\<lambda>r. r\<lparr>cg_forked := cg_forked r + 1\<rparr>) cdb1 = Inr (cdb2, r)) \<and>
    createCallgent (he_registry env) (he_service env) (he_ids env) to (merged_dto src dto) (Some (cg_pk src)) u cdb2 ((hb_entries db)\<lparr>ed_tenantPk := t\<rparr>) =
      Inr (hb_callgents db', (hb_entries db)\<lparr>ed_tenantPk := t\<rparr>, c) \<and>
    c = new_callgent (merged_dto src dto) (Some (cg_pk src)) (fst (he_ids env)) u (cd_nextCallgent cdb2) t \<and>
    forkRealms (he_host env) (cg_id c) (source_realms (cg_id src) (hb_realms db)) (hb_realms db) = Inr (hb_realms db', m) \<and>
    forkEntries env m (cg_id c) u 0
      (map (\<lambda>y. (y, source_endpoints (hb_entries db) y)) (source_entries from (cg_id src) (hb_entries db))) ((hb_entries db)\<lparr>ed_tenantPk := t\<rparr>) =
      Inr (hb_entries db', ens)"
proof -
  from assms(1) obtain cdb1 src cdb2 r cdb3 edb1 rdb m edb2 ens
    where found: "findOne (he_deletedToo env) from fromId (hb_callgents db) = Inr (cdb1, Some src)"
      and up: "updateRow (he_deletedToo env) from ''Record to update not found.'' fromId (\<lambda>r. r\<lparr>cg_forked := cg_forked r + 1\<rparr>) cdb1 = Inr (cdb2, r)"
      and cr: "createCallgent (he_registry env) (he_service env) (he_ids env) to (merged_dto src dto) (Some (cg_pk src)) u cdb2
                 ((hb_entries db)\<lparr>ed_tenantPk := tenant_or_0 to\<rparr>) = Inr (cdb3, edb1, c)"
      and re: "forkRealms (he_host env) (cg_id c) (source_realms (cg_id src) (hb_realms db)) (hb_realms db) = Inr (rdb, m)"
      and en: "forkEntries env m (cg_id c) u 0
                 (map (\<lambda>y. (y, source_endpoints (hb_entries db) y)) (source_entries from (cg_id src) (hb_entries db))) edb1 = Inr (edb2, ens)"
      and db': "db' = \<lparr>hb_callgents = cdb3, hb_realms = rdb, hb_entries = edb2\<rparr>"
    by (auto simp: duplicate_def outcome_simps Let_def hub_refuses_def split: option.splits)
  obtain i e1 e2 where ids: "he_ids env = (i, e1, e2)" by (cases "he_ids env")
  from createCallgent_Inr [OF cr [unfolded ids]] obtain t es where t: "to = Some t"
    and cc: "onCallgentCreated (he_registry env) (he_service env) e1 e2 i (Some u) (Some (cg_pk src)) ((hb_entries db)\<lparr>ed_tenantPk := tenant_or_0 to\<rparr>) = Inr (edb1, es)"
    and c: "c = new_callgent (merged_dto src dto) (Some (cg_pk src)) i u (cd_nextCallgent cdb2) t" by blast
  have "cg_pk src \<noteq> 0" using findOne_row [OF found] assms(2) by auto
  then have "edb1 = (hb_entries db)\<lparr>ed_tenantPk := t\<rparr>" using cc by (simp add: onCallgentCreated_def t tenant_or_0_def)
  with found up cr re en t c ids show ?thesis by (auto simp: db' tenant_or_0_def)
qed

text \<open>What a successful copy does to the tables.\<close>

lemma duplicate_copies:
  assumes "duplicateCallgent env fromId dto u from to s = (s', Inr c)"
    and "\<forall>r\<in>set (cd_callgents (hb_callgents (snd s))). cg_pk r \<noteq> 0"
  shows "\<exists>src m ens eps. src \<in> set (cd_callgents (hb_callgents (snd s))) \<and> cg_id src = fromId \<and>
    c \<in> set (cd_callgents (hb_callgents (snd s'))) \<and> cg_id c \<notin> cg_id ` set (cd_callgents (hb_callgents (snd s))) \<and>
    cg_forkedPk c = Some (cg_pk src) \<and> Some (cg_tenantPk c) = to \<and> cg_name c = cn_name dto \<and>
    rd_realms (hb_realms (snd s')) = rd_realms (hb_realms (snd s)) @ map snd m \<and>
    list_all2 (copied_realm (cg_id c)) (source_realms fromId (hb_realms (snd s))) (map snd m) \<and>
    ed_entries (hb_entries (snd s')) = ed_entries (hb_entries (snd s)) @ ens \<and>
    list_all2 (copied_entry m (cg_id c) (cg_tenantPk c)) (source_entries from fromId (hb_entries (snd s))) ens \<and>
    ed_endpoints (hb_entries (snd s')) = ed_endpoints (hb_entries (snd s)) @ concat eps \<and>
    list_all2 (list_all2 (copied_endpoint m (cg_id c))) (map (source_endpoints (hb_entries (snd s))) (source_entries from fromId (hb_entries (snd s)))) eps \<and>
    list_all2 (\<lambda>en ns. \<forall>n\<in>set ns. en_entryId n = ey_id en) ens eps \<and> fst s' = fst s"
proof -
  obtain db' where dup: "duplicate env fromId dto u from to (snd s) = Inr (db', c)"
    and s': "s' = (fst s, db'\<lparr>hb_entries := (hb_entries db')\<lparr>ed_tenantPk := ed_tenantPk (hb_entries (snd s))\<rparr>\<rparr>)"
    using assms(1) by (auto simp: duplicateCallgent_def split: sum.splits)
  from duplicate_Inr [OF dup assms(2)] obtain src cdb1 cdb2 t m ens
    where found: "findOne (he_deletedToo env) from fromId (hb_callgents (snd s)) = Inr (cdb1, Some src)" and t: "to = Some t"
      and up: "\<exists>r. updateRow (he_deletedToo env) from ''Record to update not found.'' fromId (\<lambda>r. r\<lparr>cg_forked := cg_forked r + 1\<rparr>) cdb1 = Inr (cdb2, r)"
      and cr: "createCallgent (he_registry env) (he_service env) (he_ids env) to (merged_dto src dto) (Some (cg_pk src)) u cdb2
          ((hb_entries (snd s))\<lparr>ed_tenantPk := t\<rparr>) = Inr (hb_callgents db', (hb_entries (snd s))\<lparr>ed_tenantPk := t\<rparr>, c)"
      and c: "c = new_callgent (merged_dto src dto) (Some (cg_pk src)) (fst (he_ids env)) u (cd_nextCallgent cdb2) t"
      and re: "forkRealms (he_host env) (cg_id c) (source_realms (cg_id src) (hb_realms (snd s))) (hb_realms (snd s)) = Inr (hb_realms db', m)"
      and en: "forkEntries env m (cg_id c) u 0 (map (\<lambda>y. (y, source_endpoints (hb_entries (snd s)) y)) (source_entries from (cg_id src) (hb_entries (snd s))))
          ((hb_entries (snd s))\<lparr>ed_tenantPk := t\<rparr>) = Inr (hb_entries db', ens)" by blast
  from findOne_row [OF found] obtain x where x: "x \<in> set (cd_callgents (hb_callgents (snd s)))" "cg_id x = fromId"
    and src: "src = x\<lparr>cg_viewed := cg_viewed x + 1\<rparr>" by blast
  have ids: "cg_id ` set (cd_callgents cdb2) = cg_id ` set (cd_callgents (hb_callgents (snd s)))"
  proof -
    obtain r where u: "updateRow (he_deletedToo env) from ''Record to update not found.'' fromId (\<lambda>r. r\<lparr>cg_forked := cg_forked r + 1\<rparr>) cdb1 = Inr (cdb2, r)"
      using up by blast
    have "cg_id ` set (cd_callgents cdb2) = cg_id ` set (cd_callgents cdb1)" by (rule updateRow_ids [OF u]) simp
    moreover have "cg_id ` set (cd_callgents cdb1) = cg_id ` set (cd_callgents (hb_callgents (snd s)))" by (rule updateRow_ids [OF findOne_Some [OF found]]) simp
    ultimately show ?thesis by simp
  qed
  obtain i e1 e2 where idse: "he_ids env = (i, e1, e2)" by (cases "he_ids env")
  from createCallgent_Inr [OF cr [unfolded idse]] obtain db1 where
    ins: "insertCallgent to (new_callgent (merged_dto src dto) (Some (cg_pk src)) i u) cdb2 = Inr (db1, c)"
    and rows: "cd_callgents (hb_callgents db') = cd_callgents db1" by auto
  have new: "c \<in> set (cd_callgents (hb_callgents db'))" "cg_id c \<notin> cg_id ` set (cd_callgents (hb_callgents (snd s)))"
    using ins rows ids by (auto simp: insertCallgent_Inr)
  have cf: "cg_forkedPk c = Some (cg_pk x)" "cg_tenantPk c = t" "cg_name c = cn_name dto" "cg_id src = fromId"
    using x by (simp_all add: c new_callgent_def merged_dto_def src)
  from forkEntries_Inr [OF en] obtain eps where
    "ed_entries (hb_entries db') = ed_entries (hb_entries (snd s)) @ ens" "ed_endpoints (hb_entries db') = ed_endpoints (hb_entries (snd s)) @ concat eps"
    "list_all2 (copied_entry m (cg_id c) t) (source_entries from fromId (hb_entries (snd s))) ens"
    "list_all2 (list_all2 (copied_endpoint m (cg_id c))) (map (source_endpoints (hb_entries (snd s))) (source_entries from fromId (hb_entries (snd s)))) eps"
    "list_all2 (\<lambda>en ns. \<forall>n\<in>set ns. en_entryId n = ey_id en) ens eps"
    by (auto simp: comp_def cf)
  moreover from forkRealms_Inr [OF re] have "rd_realms (hb_realms db') = rd_realms (hb_realms (snd s)) @ map snd m"
    "list_all2 (copied_realm (cg_id c)) (source_realms fromId (hb_realms (snd s))) (map snd m)" by (simp_all add: cf)
  ultimately show ?thesis using x new cf t s'
    by (intro exI [of _ x] exI [of _ m] exI [of _ ens] exI [of _ eps]) simp
qed


section \<open>Properties\<close>


text \<open>A hub with one callgent: a realm with a secret, a server entry that it guards, and an endpoint.\<close>

definition ex_hub_realm :: realm where
  "ex_hub_realm = \<lparr>rm_pk = 4, rm_callgentId = ''h1'', rm_realmKey = ''apiKey:header:X-Key:pets.io:'', rm_authType = AT_apiKey, rm_realm = None,
     rm_scheme = \<lparr>sc_type = AT_apiKey, sc_perUser = False, sc_provider = Some ''pets.io'', sc_validationUrl = None, sc_name = Some ''X-Key'',
                  sc_in = Some ''header'', sc_scheme = None\<rparr>,
     rm_secret = Some (JStr ''s3cret''), rm_perUser = False, rm_enabled = True\<rparr>"

definition ex_guard :: "security_item obj list" where
  "ex_guard = [[(''4'', \<lparr>si_realmPk = 4, si_attach = Some True, si_scopes = []\<rparr>)]]"

definition ex_hub_entry :: "int \<Rightarrow> entry_row" where
  "ex_hub_entry t = (new_entry ''h1'' ''restAPI'' None)\<lparr>ey_id := ''y1'', ey_type := ET_SERVER, ey_host := Some ''http://pets.io'', ey_securities := ex_guard,
     er_tenantPk := t, er_pk := 1, er_name := Some ''pets''\<rparr>"

definition ex_hub_endpoint :: endpoint_row where
  "ex_hub_endpoint = \<lparr>en_id = ''n1'', en_name = ''GET /pets'', en_path = ''/pets'', en_method = ''GET'', en_callgentId = ''h1'', en_entryId = ''y1'',
     en_adaptorKey = ''restAPI'', en_isAsync = False, en_cacheKey = None, en_cacheTtl = Some 60, en_securities = ex_guard, nr_pk = 1, nr_summary = None,
     nr_description = None, nr_servers = None, nr_params = None, nr_responses = None, nr_rawJson = JObj [], nr_createdBy = None\<rparr>"

definition ex_row :: "int \<Rightarrow> int \<Rightarrow> int \<Rightarrow> callgent_row" where
  "ex_row t v f = (new_callgent (ex_dto ''pets'') (Some 9) ''h1'' ''u'' 1 t)\<lparr>cg_viewed := v, cg_forked := f\<rparr>"

definition ex_cdb :: "int \<Rightarrow> int \<Rightarrow> int \<Rightarrow> callgent_db" where
  "ex_cdb t v f = \<lparr>cd_callgents = [ex_row t v f], cd_nextCallgent = 2, cd_tags = []\<rparr>"

definition ex_hub_realms :: realm_db where
  "ex_hub_realms = \<lparr>rd_realms = [ex_hub_realm], rd_nextPk = 5, rd_entries = [], rd_endpoints = []\<rparr>"

definition ex_hub :: "int \<Rightarrow> hub_db" where
  "ex_hub t = \<lparr>hb_callgents = ex_cdb t 0 0, hb_realms = ex_hub_realms,
     hb_entries = ex_db\<lparr>ed_entries := [ex_hub_entry t], ed_endpoints := [ex_hub_endpoint]\<rparr>\<rparr>"

definition ex_hub_env :: hub_env where
  "ex_hub_env = \<lparr>he_registry = ex_registry, he_service = builtin_service ''m'', he_host = (\<lambda>u. Some (drop 7 u)), he_deletedToo = False,
     he_ids = (''c1'', ''e1'', ''e2''), he_entryId = (\<lambda>i. ''f1''), he_endpointId = (\<lambda>i j. ''g1'')\<rparr>"

lemma ex_row_fields [simp]:
  "cg_pk (ex_row t v f) = 1" "cg_id (ex_row t v f) = ''h1''" "cg_tenantPk (ex_row t v f) = t" "cg_name (ex_row t v f) = ''pets''" "cg_deletedAt (ex_row t v f) = 0"
  "cg_viewed (ex_row t v f) = v" "cg_forked (ex_row t v f) = f" "(ex_row t v f)\<lparr>cg_viewed := w\<rparr> = ex_row t w f" "(ex_row t v f)\<lparr>cg_forked := w\<rparr> = ex_row t v w"
  by (simp_all add: ex_row_def new_callgent_def ex_dto_def)

lemma ex_found: "findOne False (Some t) ''h1'' (ex_cdb t 0 0) = Inr (ex_cdb t 1 0, Some (ex_row t 1 0))"
  by (simp add: findOne_def updateRow_def rls_find_def rls_update_def ex_cdb_def one_row_def tenant_or_0_def)

lemma ex_counted: "updateRow False (Some t) m ''h1'' (\<lambda>r. r\<lparr>cg_forked := cg_forked r + 1\<rparr>) (ex_cdb t 1 0) = Inr (ex_cdb t 1 1, ex_row t 1 1)"
  by (simp add: updateRow_def rls_find_def rls_update_def ex_cdb_def one_row_def tenant_or_0_def)

lemma ex_created:
  "\<exists>cdb. createCallgent rg service (''c1'', ''e1'', ''e2'') (Some t') (merged_dto (ex_row t 1 0) (ex_dto ''mine'')) (Some 1) ''u'' (ex_cdb t 1 1) edb =
     Inr (cdb, edb, new_callgent (merged_dto (ex_row t 1 0) (ex_dto ''mine'')) (Some 1) ''c1'' ''u'' 2 t')"
  by (simp add: createCallgent_def insertCallgent_def rls_create_def session_for_default onCallgentCreated_def ex_cdb_def new_callgent_def
      tenant_or_0_def name_key_def merged_dto_def ex_dto_def)

lemma ex_copied_realm:
  "\<exists>rdb r. forkRealms (\<lambda>u. Some (drop 7 u)) ''c1'' (source_realms ''h1'' ex_hub_realms) ex_hub_realms = Inr (rdb, [(4, r)]) \<and> rm_pk r = 5"
  by (simp add: source_realms_def ex_hub_realms_def js_sort_def createRealm_def constructRealm_def implyProvider_def provider_url_def getAuthProcessor_def
      getRealmKey_def insertRealm_def find_by_key_def ex_hub_realm_def Let_def to_lower_def)

lemma ex_pairs:
  "map (\<lambda>y. (y, source_endpoints (hb_entries (ex_hub t)) y)) (source_entries (Some t) ''h1'' (hb_entries (ex_hub t))) = [(ex_hub_entry t, [ex_hub_endpoint])]"
  by (simp add: source_entries_def source_endpoints_def rls_find_def ex_hub_def js_sort_def ex_hub_entry_def ex_hub_endpoint_def new_entry_def tenant_or_0_def)

lemma ex_dup: "rm_pk r = 5 \<Longrightarrow> dupSecurities [(4, r)] ex_guard = Inr [[(show_int 5, \<lparr>si_realmPk = 5, si_attach = Some True, si_scopes = []\<rparr>)]]"
  by (simp add: dupSecurities_def ex_guard_def dupSecurity_def obj_set_def)

lemma ex_copied:
  assumes "rm_pk r = 5"
  shows "\<exists>edb ens. forkEntries ex_hub_env [(4, r)] ''c1'' ''u'' 0 [(ex_hub_entry t, [ex_hub_endpoint])] ((hb_entries (ex_hub t))\<lparr>ed_tenantPk := t'\<rparr>) = Inr (edb, ens)"
proof -
  have e: "ey_securities (ex_hub_entry t) = ex_guard" "en_securities ex_hub_endpoint = ex_guard" by (simp_all add: ex_hub_entry_def ex_hub_endpoint_def)
  show ?thesis
    by (simp add: forkEntry_def forkEndpoints_def forkEndpoint_def e ex_dup [OF assms] ex_hub_env_def createEntry_def preCreate_def preCreateBase_def
        builtin_service_def createMany_def insertEndpoints_def ex_hub_def ex_db_def ex_hub_entry_def ex_hub_endpoint_def new_entry_def row_key_def Let_def)
qed

text \<open>The callgent \<open>h1\<close> of any tenant \<open>t\<close> (it names a source itself) can be copied to any tenant \<open>t'\<close>.\<close>

lemma ex_duplicate:
  "\<exists>db'. duplicate ex_hub_env ''h1'' (ex_dto ''mine'') ''u'' (Some t) (Some t') (ex_hub t) =
     Inr (db', new_callgent (merged_dto (ex_row t 1 0) (ex_dto ''mine'')) (Some 1) ''c1'' ''u'' 2 t')"
proof -
  let ?c = "new_callgent (merged_dto (ex_row t 1 0) (ex_dto ''mine'')) (Some 1) ''c1'' ''u'' 2 t'"
  have c: "cg_id ?c = ''c1''" by (simp add: new_callgent_def)
  obtain rdb r where re: "forkRealms (\<lambda>u. Some (drop 7 u)) ''c1'' (source_realms ''h1'' ex_hub_realms) ex_hub_realms = Inr (rdb, [(4, r)])" "rm_pk r = 5"
    using ex_copied_realm by blast
  obtain edb ens where en: "forkEntries ex_hub_env [(4, r)] ''c1'' ''u'' 0 [(ex_hub_entry t, [ex_hub_endpoint])] ((hb_entries (ex_hub t))\<lparr>ed_tenantPk := t'\<rparr>) = Inr (edb, ens)"
    using ex_copied [OF re(2)] by blast
  obtain cdb where cr: "createCallgent ex_registry (builtin_service ''m'') (''c1'', ''e1'', ''e2'') (Some t') (merged_dto (ex_row t 1 0) (ex_dto ''mine'')) (Some 1) ''u''
      (ex_cdb t 1 1) ((hb_entries (ex_hub t))\<lparr>ed_tenantPk := t'\<rparr>) = Inr (cdb, (hb_entries (ex_hub t))\<lparr>ed_tenantPk := t'\<rparr>, ?c)"
    using ex_created by blast
  have h: "hb_callgents (ex_hub t) = ex_cdb t 0 0" "hb_realms (ex_hub t) = ex_hub_realms" by (simp_all add: ex_hub_def)
  have env: "he_deletedToo ex_hub_env = False" "he_registry ex_hub_env = ex_registry" "he_service ex_hub_env = builtin_service ''m''"
    "he_host ex_hub_env = (\<lambda>u. Some (drop 7 u))" "he_ids ex_hub_env = (''c1'', ''e1'', ''e2'')" by (simp_all add: ex_hub_env_def)
  have "duplicate ex_hub_env ''h1'' (ex_dto ''mine'') ''u'' (Some t) (Some t') (ex_hub t) = Inr (\<lparr>hb_callgents = cdb, hb_realms = rdb, hb_entries = edb\<rparr>, ?c)"
    unfolding duplicate_def h env ex_found using c re(1) en cr
    by (simp add: ex_counted hub_refuses_def ex_pairs tenant_or_0_def)
  then show ?thesis by blast
qed

lemma ex_fork: "\<exists>s' c. forkFromHub ex_hub_env ''h1'' (ex_dto ''mine'') ''u'' (Some 5, ex_hub (- 1)) = (s', Inr c) \<and> cg_id c = ''c1''"
  using ex_duplicate [of "- 1" 5] by (auto simp: forkFromHub_def duplicateCallgent_def hubTenantPK_def new_callgent_def)


text \<open>C32. A fork carries no secret: every realm of the new callgent is disabled and has no secret, and the
  securities of its entries and endpoints name realms of the new callgent only, never those of the
  source.\<close>

theorem fork_carries_no_secret:
  assumes "forkFromHub env fromId dto u s = (s', Inr c)" and "\<forall>r\<in>set (cd_callgents (hb_callgents (snd s))). cg_pk r \<noteq> 0"
    and "\<forall>r\<in>set (rd_realms (hb_realms (snd s))). rm_callgentId r \<noteq> cg_id c"
    and "\<forall>y\<in>set (ed_entries (hb_entries (snd s))). ey_callgentId y \<noteq> cg_id c"
    and "\<forall>n\<in>set (ed_endpoints (hb_entries (snd s))). en_callgentId n \<noteq> cg_id c"
  shows "(\<forall>r\<in>set (rd_realms (hb_realms (snd s'))). rm_callgentId r = cg_id c \<longrightarrow> rm_secret r = None \<and> \<not> rm_enabled r) \<and>
    (\<forall>sec\<in>(\<Union>y\<in>{y \<in> set (ed_entries (hb_entries (snd s'))). ey_callgentId y = cg_id c}. set (ey_securities y)) \<union>
            (\<Union>n\<in>{n \<in> set (ed_endpoints (hb_entries (snd s'))). en_callgentId n = cg_id c}. set (en_securities n)).
       \<forall>k it. obj_get sec k = Some it \<longrightarrow> (\<exists>r\<in>set (rd_realms (hb_realms (snd s'))). rm_callgentId r = cg_id c \<and> rm_pk r = si_realmPk it))"
proof -
  from duplicate_copies [OF assms(1) [unfolded forkFromHub_def] assms(2)] obtain m ens eps
    where rr: "rd_realms (hb_realms (snd s')) = rd_realms (hb_realms (snd s)) @ map snd m"
      "list_all2 (copied_realm (cg_id c)) (source_realms fromId (hb_realms (snd s))) (map snd m)"
    and en: "ed_entries (hb_entries (snd s')) = ed_entries (hb_entries (snd s)) @ ens"
      "list_all2 (copied_entry m (cg_id c) (cg_tenantPk c)) (source_entries (Some hubTenantPK) fromId (hb_entries (snd s))) ens"
    and ep: "ed_endpoints (hb_entries (snd s')) = ed_endpoints (hb_entries (snd s)) @ concat eps"
      "list_all2 (list_all2 (copied_endpoint m (cg_id c))) (map (source_endpoints (hb_entries (snd s))) (source_entries (Some hubTenantPK) fromId (hb_entries (snd s)))) eps"
    by blast
  have new: "\<exists>o1. copied_realm (cg_id c) o1 r" if "r \<in> snd ` set m" for r
    using list_all2_ex [OF rr(2)] that by auto
  have item: "\<exists>r\<in>set (rd_realms (hb_realms (snd s'))). rm_callgentId r = cg_id c \<and> rm_pk r = si_realmPk it"
    if "dupSecurities m secs = Inr secs'" "sec \<in> set secs'" "obj_get sec k = Some it" for secs secs' sec k it
    using dupSecurities_realms [OF that] new rr(1) by (fastforce simp: copied_realm_def)
  have ys: "\<exists>secs. dupSecurities m secs = Inr (ey_securities y)" if "y \<in> set (ed_entries (hb_entries (snd s')))" "ey_callgentId y = cg_id c" for y
  proof -
    have "y \<in> set ens" using that en(1) assms(4) by auto
    from list_all2_ex [OF en(2) this] show ?thesis by (auto simp: copied_entry_def)
  qed
  have ns: "\<exists>secs. dupSecurities m secs = Inr (en_securities n)" if "n \<in> set (ed_endpoints (hb_entries (snd s')))" "en_callgentId n = cg_id c" for n
  proof -
    have "n \<in> set (concat eps)" using that ep(1) assms(5) by auto
    then obtain l where l: "l \<in> set eps" "n \<in> set l" by auto
    from list_all2_ex [OF ep(2) l(1)] obtain olds where "list_all2 (copied_endpoint m (cg_id c)) olds l" by auto
    from list_all2_ex [OF this l(2)] show ?thesis by (auto simp: copied_endpoint_def)
  qed
  have "rm_secret r = None \<and> \<not> rm_enabled r" if "r \<in> set (rd_realms (hb_realms (snd s')))" "rm_callgentId r = cg_id c" for r
  proof -
    have "r \<in> snd ` set m" using that rr(1) assms(3) by auto
    from new [OF this] show ?thesis by (auto simp: copied_realm_def)
  qed
  moreover have "\<exists>r\<in>set (rd_realms (hb_realms (snd s'))). rm_callgentId r = cg_id c \<and> rm_pk r = si_realmPk it"
    if sec: "sec \<in> (\<Union>y\<in>{y \<in> set (ed_entries (hb_entries (snd s'))). ey_callgentId y = cg_id c}. set (ey_securities y)) \<union>
            (\<Union>n\<in>{n \<in> set (ed_endpoints (hb_entries (snd s'))). en_callgentId n = cg_id c}. set (en_securities n))"
      and k: "obj_get sec k = Some it" for sec k it
  proof -
    from sec obtain secs secs' where "dupSecurities m secs = Inr secs'" "sec \<in> set secs'" using ys ns by blast
    from item [OF this k] show ?thesis .
  qed
  ultimately show ?thesis by blast
qed

theorem fork_carries_no_secret_witness:
  "\<exists>s' c. forkFromHub ex_hub_env ''h1'' (ex_dto ''mine'') ''u'' (Some 5, ex_hub (- 1)) = (s', Inr c) \<and>
     (\<forall>r\<in>set (rd_realms (hb_realms (snd s'))). rm_callgentId r = ''c1'' \<longrightarrow> rm_secret r = None)"
proof -
  obtain s' c where f: "forkFromHub ex_hub_env ''h1'' (ex_dto ''mine'') ''u'' (Some 5, ex_hub (- 1)) = (s', Inr c)" and c: "cg_id c = ''c1''"
    using ex_fork by blast
  have "\<forall>r\<in>set (cd_callgents (hb_callgents (snd (Some (5::int), ex_hub (- 1))))). cg_pk r \<noteq> 0"
    "\<forall>r\<in>set (rd_realms (hb_realms (snd (Some (5::int), ex_hub (- 1))))). rm_callgentId r \<noteq> cg_id c"
    "\<forall>y\<in>set (ed_entries (hb_entries (snd (Some (5::int), ex_hub (- 1))))). ey_callgentId y \<noteq> cg_id c"
    "\<forall>n\<in>set (ed_endpoints (hb_entries (snd (Some (5::int), ex_hub (- 1))))). en_callgentId n \<noteq> cg_id c"
    by (simp_all add: c ex_hub_def ex_cdb_def ex_hub_realms_def ex_hub_realm_def ex_hub_entry_def ex_hub_endpoint_def new_entry_def)
  from fork_carries_no_secret [OF f this] f c show ?thesis by auto
qed

text \<open>The guard that is to keep forks out of the hub never fires: the column it tests is not read. A callgent
  that names a source and is committed by its tenant is copied into the hub like an original.\<close>

theorem forks_reach_the_hub:
  "cg_forkedPk (ex_row 5 0 0) \<noteq> None \<and> hb_callgents (ex_hub 5) = ex_cdb 5 0 0 \<and> cd_callgents (ex_cdb 5 0 0) = [ex_row 5 0 0] \<and>
   (\<exists>s' c. commitToHub ex_hub_env ''h1'' (ex_dto ''mine'') ''u'' (Some 5, ex_hub 5) = (s', Inr c) \<and> cg_tenantPk c = hubTenantPK)"
  using ex_duplicate [of 5 "- 1"]
  by (auto simp: commitToHub_def duplicateCallgent_def hubTenantPK_def ex_row_def new_callgent_def ex_hub_def ex_cdb_def)

end
