(* ===== verification/Agents.thy ===== *)
theory Agents
  imports Llm Callgents Endpoints
begin

text \<open>
  \<open>src/agents/agents.service.ts\<close> and the listeners of \<open>src/endpoints/listeners\<close> and \<open>src/entries/listeners\<close>
  that summarise: the prompts of the agents with what they accept as an answer, and the propagation of
  a change of endpoints to the summary of their entry, and of a change of entries to the summary of
  their callgent. Printing rows for a prompt is a parameter, and so is the text of a value that is no string
  in an error message.
\<close>

section \<open>Reading generated values\<close>

text \<open>\<open>v.every(f)\<close> and \<open>v.key\<close>; a value without that method or property throws.\<close>

definition no_every :: js_error where
  "no_every = TypeError ''every is not a function''"

fun all_hold :: "('a \<Rightarrow> bool result) \<Rightarrow> 'a list \<Rightarrow> bool result" where
  "all_hold f [] = Inr True"
| "all_hold f (x # xs) = and_then (f x) (\<lambda>b. if b then all_hold f xs else Inr False)"

definition js_every :: "json option \<Rightarrow> (json \<Rightarrow> bool result) \<Rightarrow> bool result" where
  "js_every v f = (case v of Some (JArr xs) \<Rightarrow> all_hold f xs | _ \<Rightarrow> Inl no_every)"

definition prop_of :: "string \<Rightarrow> json option \<Rightarrow> json option result" where
  "prop_of k v =
     (case v of
        None \<Rightarrow> Inl (TypeError ''Cannot read properties of undefined'')
      | Some JNull \<Rightarrow> Inl (TypeError ''Cannot read properties of null'')
      | Some j \<Rightarrow> Inr (json_at k j))"

text \<open>\<open>p.lastIndexOf('@') <= 0\<close> for a package.\<close>

definition lastIndexOf :: "char \<Rightarrow> string \<Rightarrow> int" where
  "lastIndexOf c s = (if c \<in> set s then int (length s) - 1 - int (length (takeWhile (\<lambda>x. x \<noteq> c) (rev s))) else - 1)"

definition check_package :: "bool \<Rightarrow> json \<Rightarrow> bool result" where
  "check_package name_it p =
     (case p of
        JStr s \<Rightarrow> if lastIndexOf (CHR ''@'') s \<le> 0
                  then Inl (PlainError (''package name should be like `name@version`'' @ (if name_it then '': '' @ s else [])))
                  else Inr True
      | _ \<Rightarrow> Inl (TypeError ''lastIndexOf is not a function''))"

text \<open>A value inside a template literal: a string is itself.\<close>

definition shown :: "(json \<Rightarrow> string) \<Rightarrow> json \<Rightarrow> string" where
  "shown show x = (case x of JStr s \<Rightarrow> s | _ \<Rightarrow> show x)"

definition generated :: "parsed \<Rightarrow> json option" where
  "generated r = (case r of P_json j \<Rightarrow> j | _ \<Rightarrow> None)"

section \<open>The agents\<close>

definition spec_of :: "json \<Rightarrow> string option \<Rightarrow> (json option \<Rightarrow> bool result) option \<Rightarrow> query_spec" where
  "spec_of schema payer check =
     \<lparr>qs_models = None, qs_paidBy = payer, qs_parseType = PT_json, qs_schema = Some schema,
      qs_validate = map_option (\<lambda>f r i. f (generated r)) check\<rparr>"

text \<open>\<open>convert2Response\<close>: the arguments become a list of names and values.\<close>

definition convert_schema :: json where
  "convert_schema = JObj [(''status'', JNum 200), (''statusText'', JStr []), (''data'', JNull)]"

definition convert2Response :: "llm_env \<Rightarrow> json obj option \<Rightarrow> string \<Rightarrow> json \<Rightarrow> string option \<Rightarrow> llm_world \<Rightarrow> llm_world \<times> parsed result" where
  "convert2Response env requestArgs resp ep payer w =
     query env ''convert2Response''
       (JObj [(''requestArgs'', JArr (case requestArgs of None \<Rightarrow> [] | Some kvs \<Rightarrow> map (\<lambda>(n, v). JObj [(''name'', JStr n), (''value'', v)]) kvs)),
              (''resp'', JStr resp), (''ep'', ep)])
       (spec_of convert_schema payer None) w"

definition summary_schema :: json where
  "summary_schema = JObj [(''summary'', JStr []), (''instruction'', JStr []), (''totally'', JBool True)]"

definition summarizeEntry :: "llm_env \<Rightarrow> string option \<Rightarrow> json \<Rightarrow> llm_world \<Rightarrow> llm_world \<times> parsed result" where
  "summarizeEntry env opBy data w = query env ''summarizeEntry'' data (spec_of summary_schema opBy None) w"

definition summarizeCallgent :: "llm_env \<Rightarrow> string option \<Rightarrow> json \<Rightarrow> llm_world \<Rightarrow> llm_world \<times> parsed result" where
  "summarizeCallgent env opBy data w = query env ''summarizeCallgent'' data (spec_of summary_schema opBy None) w"

definition genVue1Route :: "llm_env \<Rightarrow> json \<Rightarrow> string option \<Rightarrow> llm_world \<Rightarrow> llm_world \<times> parsed result" where
  "genVue1Route env data payer w =
     query env ''genVue1Route'' data
       (spec_of (JArr [JObj (map (\<lambda>k. (k, JStr [])) [''name'', ''path'', ''component'', ''file'', ''title'', ''summary'', ''instruction''] @
                             [(''distance'', JNum 0)])]) payer None) w"

text \<open>The validator of \<open>genVue2Components\<close>: every endpoint of a component must be one of the given ones.\<close>

definition check_component :: "(json \<Rightarrow> string) \<Rightarrow> string list \<Rightarrow> string \<times> json \<Rightarrow> bool result" where
  "check_component show eps kv =
     (case kv of (compName, c) \<Rightarrow>
        and_then (prop_of ''endpoints'' (Some c)) (\<lambda>v. js_every v (\<lambda>x.
          if \<exists>n\<in>set eps. x = JStr n then Inr True
          else Inl (PlainError (''endpoint '' @ [CHR 39] @ shown show x @ [CHR 39] @ '' not found for component: '' @ compName)))))"

definition check_components :: "(json \<Rightarrow> string) \<Rightarrow> string list \<Rightarrow> json option \<Rightarrow> bool result" where
  "check_components show eps gen = and_then (js_entries gen) (all_hold (check_component show eps))"

definition components_schema :: json where
  "components_schema = JObj [([], JObj [(''file'', JStr []), (''endpoints'', JArr [JStr []]), (''summary'', JStr []), (''instruction'', JStr [])])]"

definition genVue2Components :: "llm_env \<Rightarrow> string list \<Rightarrow> json \<Rightarrow> string option \<Rightarrow> llm_world \<Rightarrow> llm_world \<times> parsed result" where
  "genVue2Components env eps data payer w =
     query env ''genVue2Components'' data (spec_of components_schema payer (Some (check_components (le_dump env) eps))) w"

text \<open>The validator of \<open>genVue3Component\<close>: packages have a version, imported components are among the given ones.\<close>

definition check_import :: "(json \<Rightarrow> string) \<Rightarrow> string list \<Rightarrow> json \<Rightarrow> bool result" where
  "check_import show names c =
     (if \<exists>n\<in>set names. c = JStr n then Inr True
      else Inl (PlainError (''in $.spec.importedComponents: '' @ [CHR 39] @ shown show c @ [CHR 39] @ '' isn'' @ [CHR 39] @
             ''t a self-defined components, must not listed here!'')))"

definition check_vue3 :: "(json \<Rightarrow> string) \<Rightarrow> string list \<Rightarrow> json option \<Rightarrow> bool result" where
  "check_vue3 show names gen =
     and_then (prop_of ''packages'' gen) (\<lambda>ps.
     and_then (js_every ps (check_package True)) (\<lambda>ok.
       if \<not> ok then Inr False
       else and_then (prop_of ''spec'' gen) (\<lambda>sp.
            and_then (prop_of ''importedComponents'' sp) (\<lambda>cs.
              if \<not> truthy_opt cs then Inr True else js_every cs (check_import show names)))))"

definition vue3_schema :: json where
  "vue3_schema = JObj [(''code'', JStr []), (''packages'', JArr [JStr []]),
     (''importedStores'', JArr [JObj [(''file'', JStr []), (''name'', JStr []), (''state'', JObj []), (''actions'', JArr [JStr []]), (''getters'', JArr [JObj []])]]),
     (''spec'', JObj [(''props'', JArr [JStr []]), (''slots'', JArr [JObj [(''name'', JStr []), (''summary'', JStr [])]]),
        (''importedComponents'', JArr [JStr ''ComponentName'', JStr ''may empty array''])])]"

definition genVue3Component :: "llm_env \<Rightarrow> string list \<Rightarrow> json \<Rightarrow> string option \<Rightarrow> llm_world \<Rightarrow> llm_world \<times> parsed result" where
  "genVue3Component env names data payer w = query env ''genVue3Component'' data (spec_of vue3_schema payer (Some (check_vue3 (le_dump env) names))) w"

definition code_schema :: json where
  "code_schema = JObj [(''code'', JStr []), (''packages'', JArr [JStr []])]"

definition check_packages :: "json option \<Rightarrow> bool result" where
  "check_packages gen = and_then (prop_of ''packages'' gen) (\<lambda>ps. js_every ps (check_package True))"

definition genVue4Store :: "llm_env \<Rightarrow> json \<Rightarrow> string option \<Rightarrow> llm_world \<Rightarrow> llm_world \<times> parsed result" where
  "genVue4Store env data payer w = query env ''genVue4Store'' data (spec_of code_schema payer (Some check_packages)) w"

text \<open>\<open>genVue5View\<close>: missing packages make the validator \<open>undefined\<close>, which is no acceptance.\<close>

definition check_packages_opt :: "json option \<Rightarrow> bool result" where
  "check_packages_opt gen =
     and_then (prop_of ''packages'' gen) (\<lambda>ps. if ps = None \<or> ps = Some JNull then Inr False else js_every ps (check_package False))"

definition genVue5View :: "llm_env \<Rightarrow> json \<Rightarrow> string option \<Rightarrow> llm_world \<Rightarrow> llm_world \<times> parsed result" where
  "genVue5View env data payer w = query env ''genVue5View'' data (spec_of code_schema payer (Some check_packages_opt)) w"

section \<open>Summaries\<close>

text \<open>What a query for a summary is asked: the changed rows, or all rows (\<open>totally\<close>).\<close>

definition summary_data :: "string option \<Rightarrow> string \<Rightarrow> json \<Rightarrow> json option \<Rightarrow> json option \<Rightarrow> bool \<Rightarrow> json" where
  "summary_data opBy key owner news olds totally =
     JObj (List.map_filter (\<lambda>(k, v). map_option (Pair k) v)
       [(''opBy'', map_option JStr opBy), (key, Some owner), (''news'', news), (''olds'', olds),
        (''totally'', if totally then Some (JBool True) else None)])"

text \<open>A generated field as a column: \<open>undefined\<close> leaves it, \<open>null\<close> clears it, anything but a string is refused
  by the query library.\<close>

definition column_of :: "json option \<Rightarrow> string option option result" where
  "column_of v =
     (case v of
        None \<Rightarrow> Inr None
      | Some JNull \<Rightarrow> Inr (Some None)
      | Some (JStr s) \<Rightarrow> Inr (Some (Some s))
      | _ \<Rightarrow> Inl (PlainError ''Invalid value provided. Expected String or Null.''))"

definition is_same :: "json option \<Rightarrow> string option \<Rightarrow> bool" where
  "is_same v old \<longleftrightarrow> (case v of Some JNull \<Rightarrow> old = None | Some (JStr s) \<Rightarrow> old = Some s | _ \<Rightarrow> False)"

record sum_env =
  su_llm :: llm_env
  su_entry :: "entry_row \<Rightarrow> json"
  su_endpoint :: "endpoint_row \<Rightarrow> json"
  su_callgent :: "callgent_row \<Rightarrow> json"
  su_deletedToo :: bool
  su_tenant :: "int option"

record sum_world =
  sw_llm :: llm_world
  sw_entries :: entry_db
  sw_callgents :: callgent_db

definition is_totally :: "json option \<Rightarrow> bool" where
  "is_totally r = (case r of None \<Rightarrow> False | Some j \<Rightarrow> truthy_opt (json_at ''totally'' j))"

definition field_of :: "string \<Rightarrow> json option \<Rightarrow> json option" where
  "field_of k r = (case r of None \<Rightarrow> None | Some j \<Rightarrow> json_at k j)"

text \<open>One or two queries: a model that asks for a total summary gets all rows; without rows there is no
  summary (\<open>None\<close>).\<close>

definition two_queries :: "(json \<Rightarrow> llm_world \<Rightarrow> llm_world \<times> parsed result) \<Rightarrow> json \<Rightarrow> json list \<Rightarrow> (json \<Rightarrow> json) \<Rightarrow> llm_world \<Rightarrow>
    llm_world \<times> json option option result" where
  "two_queries ask data rows whole w =
     (case ask data w of
        (w1, Inl e) \<Rightarrow> (w1, Inl e)
      | (w1, Inr r) \<Rightarrow>
          (if \<not> is_totally (generated r) then (w1, Inr (Some (generated r)))
           else if rows = [] then (w1, Inr None)
           else (case ask (whole (JArr rows)) w1 of
                   (w2, Inl e) \<Rightarrow> (w2, Inl e)
                 | (w2, Inr r2) \<Rightarrow> (w2, Inr (Some (generated r2))))))"

text \<open>\<open>EndpointsChangedSumEntryListener\<close>. The event carries the entry or, without its callgent, only its id.\<close>

definition event_entry :: "entry_db \<Rightarrow> string \<Rightarrow> entry_row option \<Rightarrow> entry_row option" where
  "event_entry db i given_entry =
     (case given_entry of
        Some y \<Rightarrow> if ey_callgentId y = [] then find (\<lambda>y. ey_id y = i) (ed_entries db) else Some y
      | None \<Rightarrow> find (\<lambda>y. ey_id y = i) (ed_entries db))"

definition write_summary :: "string option option \<Rightarrow> string option option \<Rightarrow> entry_row \<Rightarrow> entry_row" where
  "write_summary s n y = y\<lparr>er_summary := given s (er_summary y), er_instruction := given n (er_instruction y)\<rparr>"

definition onEndpointsChanged :: "sum_env \<Rightarrow> string option \<Rightarrow> string \<Rightarrow> entry_row option \<Rightarrow> endpoint_row list \<Rightarrow> endpoint_row list \<Rightarrow> sum_world \<Rightarrow>
    sum_world \<times> entry_row option result" where
  "onEndpointsChanged env opBy i given_entry news olds w =
     (case event_entry (sw_entries w) i given_entry of
        None \<Rightarrow> (w, Inl (TypeError ''Cannot read properties of null (reading id)''))
      | Some old \<Rightarrow>
          (case two_queries (summarizeEntry (su_llm env) opBy)
                  (summary_data opBy ''entry'' (su_entry env old) (Some (JArr (map (su_endpoint env) news))) (Some (JArr (map (su_endpoint env) olds))) False)
                  (map (su_endpoint env) (entry_endpoints (sw_entries w) (ey_id old)))
                  (\<lambda>rows. summary_data opBy ''entry'' (su_entry env old) (Some rows) None True) (sw_llm w) of
             (l, Inl e) \<Rightarrow> (w\<lparr>sw_llm := l\<rparr>, Inl e)
           | (l, Inr None) \<Rightarrow> (w\<lparr>sw_llm := l\<rparr>, Inr None)
           | (l, Inr (Some r)) \<Rightarrow>
               (let w1 = w\<lparr>sw_llm := l\<rparr>; s = field_of ''summary'' r; n = field_of ''instruction'' r
                in if is_same s (er_summary old) \<and> is_same n (er_instruction old) then (w1, Inr None)
                   else case and_then (column_of s) (\<lambda>cs. and_then (column_of n) (\<lambda>cn.
                               and_then (updateEntry (ey_id old) (write_summary cs cn) (sw_entries w)) (\<lambda>db. Inr (db, write_summary cs cn)))) of
                          Inl e \<Rightarrow> (w1, Inl e)
                        | Inr (db, f) \<Rightarrow>
                            (let new = f (the (find (\<lambda>y. ey_id y = ey_id old) (ed_entries (sw_entries w))))
                             in (w1\<lparr>sw_entries := db\<lparr>ed_events := ed_events db @ [EntriesChanged opBy (ey_callgentId old) [new] [old]]\<rparr>\<rparr>,
                                 Inr (Some new))))))"

text \<open>\<open>EntriesChangedSumCallgentListener\<close>: reading the callgent counts as a view.\<close>

definition onEntriesChanged :: "sum_env \<Rightarrow> string option \<Rightarrow> string \<Rightarrow> entry_row list \<Rightarrow> entry_row list \<Rightarrow> sum_world \<Rightarrow> sum_world \<times> callgent_row option result" where
  "onEntriesChanged env opBy cgId news olds w =
     (case findOne (su_deletedToo env) (su_tenant env) cgId (sw_callgents w) of
        Inl e \<Rightarrow> (w, Inl e)
      | Inr (cdb, None) \<Rightarrow> (w, Inl (TypeError ''Cannot read properties of null (reading id)''))
      | Inr (cdb, Some c) \<Rightarrow>
          (case two_queries (summarizeCallgent (su_llm env) opBy)
                  (summary_data opBy ''callgent'' (su_callgent env c) (Some (JArr (map (su_entry env) news))) (Some (JArr (map (su_entry env) olds))) False)
                  (map (su_entry env) (filter (\<lambda>y. ey_type y = ET_SERVER) (callgent_entries (su_tenant env) (cg_id c) (sw_entries w))))
                  (\<lambda>rows. summary_data opBy ''callgent'' (su_callgent env c) (Some rows) None True) (sw_llm w) of
             (l, Inl e) \<Rightarrow> (w\<lparr>sw_llm := l\<rparr>, Inl e)
           | (l, Inr None) \<Rightarrow> (w\<lparr>sw_llm := l, sw_callgents := cdb\<rparr>, Inr None)
           | (l, Inr (Some r)) \<Rightarrow>
               (case and_then (column_of (field_of ''summary'' r)) (\<lambda>cs. and_then (column_of (field_of ''instruction'' r)) (\<lambda>cn.
                       updateCallgent (su_deletedToo env) (su_tenant env)
                         \<lparr>cu_id = cg_id c, cu_name = None, cu_avatar = None, cu_summary = cs, cu_instruction = cn, cu_mainTagId = None\<rparr> cdb)) of
                  Inl e \<Rightarrow> (w\<lparr>sw_llm := l\<rparr>, Inl e)
                | Inr (cdb2, c2) \<Rightarrow> (w\<lparr>sw_llm := l, sw_callgents := cdb2\<rparr>, Inr c2))))"

section \<open>Facts\<close>

lemma all_hold_True: "all_hold f xs = Inr True \<longleftrightarrow> (\<forall>x\<in>set xs. f x = Inr True)"
  by (induction xs) (auto simp: outcome_simps split: if_splits)

lemma js_every_True: "js_every v f = Inr True \<longleftrightarrow> (\<exists>xs. v = Some (JArr xs) \<and> (\<forall>x\<in>set xs. f x = Inr True))"
  by (auto simp: js_every_def all_hold_True split: option.splits json.splits)

lemma prop_of_Inr: "prop_of k v = Inr x \<longleftrightarrow> (\<exists>j. v = Some j \<and> j \<noteq> JNull \<and> x = json_at k j)"
  by (auto simp: prop_of_def split: option.splits json.splits)

lemma lastIndexOf_pos: "0 < lastIndexOf c s \<longleftrightarrow> (\<exists>a b. s = a @ c # b \<and> a \<noteq> [])"
proof
  assume pos: "0 < lastIndexOf c s"
  then have c: "c \<in> set s" by (auto simp: lastIndexOf_def split: if_splits)
  then obtain a b where s: "s = a @ c # b" "c \<notin> set b" by (meson split_list_last)
  have "takeWhile (\<lambda>x. x \<noteq> c) (rev s) = rev b" using s(2) by (simp add: s(1)) (subst takeWhile_append2, auto)
  then have "lastIndexOf c s = int (length a)" using c by (simp add: lastIndexOf_def s(1))
  with pos have "a \<noteq> []" by auto
  with s show "\<exists>a b. s = a @ c # b \<and> a \<noteq> []" by blast
next
  assume "\<exists>a b. s = a @ c # b \<and> a \<noteq> []"
  then obtain x where "x \<noteq> []" "\<exists>y. s = x @ c # y" by blast
  then have c: "c \<in> set (tl s)" by (cases x) auto
  then obtain u v where t: "tl s = u @ c # v" "c \<notin> set v" by (meson split_list_last)
  from c obtain h where s: "s = h # u @ c # v" using t by (cases s) auto
  have "takeWhile (\<lambda>x. x \<noteq> c) (rev s) = rev v" using t(2) by (simp add: s) (subst takeWhile_append2, auto)
  then show "0 < lastIndexOf c s" by (simp add: lastIndexOf_def s)
qed

lemma check_package_True: "check_package b p = Inr True \<longleftrightarrow> (\<exists>n v. p = JStr (n @ CHR ''@'' # v) \<and> n \<noteq> [])"
proof -
  have "check_package b p = Inr True \<longleftrightarrow> (\<exists>s. p = JStr s \<and> 0 < lastIndexOf (CHR ''@'') s)"
    by (cases p) (auto simp: check_package_def)
  then show ?thesis by (auto simp: lastIndexOf_pos)
qed

lemma packages_checked:
  assumes "prop_of ''packages'' gen = Inr v" and "js_every v (check_package b) = Inr True"
  shows "\<exists>j ps. gen = Some j \<and> json_at ''packages'' j = Some (JArr ps) \<and> (\<forall>p\<in>set ps. \<exists>n v. p = JStr (n @ CHR ''@'' # v) \<and> n \<noteq> [])"
proof -
  from assms(1) obtain j where j: "gen = Some j" "v = json_at ''packages'' j" unfolding prop_of_Inr by blast
  from assms(2) obtain ps where "v = Some (JArr ps)" "\<forall>p\<in>set ps. check_package b p = Inr True" unfolding js_every_True by blast
  with j show ?thesis by (metis check_package_True)
qed

text \<open>An accepted answer has passed the check of its agent.\<close>

lemma accepted:
  assumes "query env template args (spec_of schema payer (Some f)) w = (w', Inr r)"
  shows "f (generated r) = Inr True"
proof -
  from query_judged [OF assms] obtain i tx where "judge env (spec_of schema payer (Some f)) i tx = Inr (r, True)" by blast
  then show ?thesis by (auto simp: judge_def spec_of_def outcome_simps)
qed

lemma query_requests:
  assumes "query env template args spec w = (w', r)"
  shows "\<exists>reqs. lw_requests w' = lw_requests w @ reqs \<and> length reqs \<le> 3"
  using query_sends [of env template args spec w] assms by auto

lemma two_queries_requests:
  assumes ask: "\<And>a w w' r. ask a w = (w', r) \<Longrightarrow> \<exists>reqs. lw_requests w' = lw_requests w @ reqs \<and> length reqs \<le> 3"
    and "two_queries ask data rows whole w = (w', out)"
  shows "\<exists>reqs. lw_requests w' = lw_requests w @ reqs \<and> length reqs \<le> 6"
proof -
  obtain w1 r where one: "ask data w = (w1, r)" by fastforce
  from ask [OF one] obtain r1 where r1: "lw_requests w1 = lw_requests w @ r1" "length r1 \<le> 3" by blast
  show ?thesis
  proof (cases "w' = w1")
    case True
    with r1 show ?thesis by auto
  next
    case False
    obtain w2 r' where two: "ask (whole (JArr rows)) w1 = (w2, r')" by fastforce
    have "w' = w2" using assms(2) one two False by (auto simp: two_queries_def split: sum.splits if_splits)
    with ask [OF two] r1 show ?thesis by fastforce
  qed
qed

lemma ask_requests:
  "summarizeEntry env opBy d l = (l', r) \<Longrightarrow> \<exists>reqs. lw_requests l' = lw_requests l @ reqs \<and> length reqs \<le> 3"
  "summarizeCallgent env opBy d l = (l', r) \<Longrightarrow> \<exists>reqs. lw_requests l' = lw_requests l @ reqs \<and> length reqs \<le> 3"
  unfolding summarizeEntry_def summarizeCallgent_def by (rule query_requests, assumption)+

text \<open>What the listener of endpoint changes does: nothing, or one new summary and one event.\<close>

definition resummarised :: "string option \<Rightarrow> entry_row \<Rightarrow> entry_row \<Rightarrow> entry_db \<Rightarrow> entry_db \<Rightarrow> bool" where
  "resummarised opBy old new db db' \<longleftrightarrow>
     (\<exists>cs cn. ey_id old \<in> ey_id ` set (ed_entries db) \<and>
        new = write_summary cs cn (the (find (\<lambda>y. ey_id y = ey_id old) (ed_entries db))) \<and>
        db' = db\<lparr>ed_entries := map (\<lambda>y. if ey_id y = ey_id old then write_summary cs cn y else y) (ed_entries db),
                 ed_events := ed_events db @ [EntriesChanged opBy (ey_callgentId old) [new] [old]]\<rparr>)"

lemma onEndpointsChanged_cases:
  assumes "onEndpointsChanged env opBy i given_entry news olds w = (w', out)"
  shows "(\<exists>l. w' = w\<lparr>sw_llm := l\<rparr> \<and> (\<forall>new. out \<noteq> Inr (Some new))) \<or>
    (\<exists>l old new edb. event_entry (sw_entries w) i given_entry = Some old \<and> out = Inr (Some new) \<and> w' = w\<lparr>sw_llm := l, sw_entries := edb\<rparr> \<and>
       resummarised opBy old new (sw_entries w) edb)"
proof (cases "event_entry (sw_entries w) i given_entry")
  case None
  with assms show ?thesis by (auto simp: onEndpointsChanged_def intro!: exI [of _ "sw_llm w"])
next
  case (Some old)
  note this [simp]
  obtain l t where t: "two_queries (summarizeEntry (su_llm env) opBy)
                  (summary_data opBy ''entry'' (su_entry env old) (Some (JArr (map (su_endpoint env) news))) (Some (JArr (map (su_endpoint env) olds))) False)
                  (map (su_endpoint env) (entry_endpoints (sw_entries w) (ey_id old)))
                  (\<lambda>rows. summary_data opBy ''entry'' (su_entry env old) (Some rows) None True) (sw_llm w) = (l, t)" by fastforce
  show ?thesis
  proof (cases "\<exists>r. t = Inr (Some r)")
    case False
    with assms t show ?thesis by (auto simp: onEndpointsChanged_def split: sum.splits option.splits)
  next
    case True
    then obtain r where r: "t = Inr (Some r)" by blast
    let ?s = "field_of ''summary'' r" and ?n = "field_of ''instruction'' r"
    show ?thesis
    proof (cases "is_same ?s (er_summary old) \<and> is_same ?n (er_instruction old)")
      case True
      with assms t r show ?thesis by (auto simp: onEndpointsChanged_def)
    next
      case False
      let ?upd = "and_then (column_of ?s) (\<lambda>cs. and_then (column_of ?n) (\<lambda>cn.
          and_then (updateEntry (ey_id old) (write_summary cs cn) (sw_entries w)) (\<lambda>db. Inr (db, write_summary cs cn))))"
      show ?thesis
      proof (cases ?upd)
        case (Inl e)
        with assms t r False show ?thesis by (auto simp: onEndpointsChanged_def)
      next
        case (Inr p)
        then obtain cs cn db where u: "?upd = Inr (db, write_summary cs cn)" "updateEntry (ey_id old) (write_summary cs cn) (sw_entries w) = Inr db"
          unfolding and_then_eq_Inr by blast
        from u(2) have "ey_id old \<in> ey_id ` set (ed_entries (sw_entries w))"
          "db = (sw_entries w)\<lparr>ed_entries := map (\<lambda>y. if ey_id y = ey_id old then write_summary cs cn y else y) (ed_entries (sw_entries w))\<rparr>"
          by (simp_all add: updateEntry_def split: if_splits)
        then have "resummarised opBy old (write_summary cs cn (the (find (\<lambda>y. ey_id y = ey_id old) (ed_entries (sw_entries w))))) (sw_entries w)
            (db\<lparr>ed_events := ed_events db @ [EntriesChanged opBy (ey_callgentId old) [write_summary cs cn (the (find (\<lambda>y. ey_id y = ey_id old) (ed_entries (sw_entries w))))] [old]]\<rparr>)"
          unfolding resummarised_def by (intro exI [of _ cs] exI [of _ cn]) simp
        with assms t r False u(1) show ?thesis by (simp add: onEndpointsChanged_def Let_def) blast
      qed
    qed
  qed
qed

lemma onEndpointsChanged_requests:
  assumes "onEndpointsChanged env opBy i given_entry news olds w = (w', out)"
  shows "\<exists>reqs. lw_requests (sw_llm w') = lw_requests (sw_llm w) @ reqs \<and> length reqs \<le> 6"
proof (cases "event_entry (sw_entries w) i given_entry")
  case None
  with assms show ?thesis by (auto simp: onEndpointsChanged_def)
next
  case (Some old)
  obtain l t where t: "two_queries (summarizeEntry (su_llm env) opBy)
                  (summary_data opBy ''entry'' (su_entry env old) (Some (JArr (map (su_endpoint env) news))) (Some (JArr (map (su_endpoint env) olds))) False)
                  (map (su_endpoint env) (entry_endpoints (sw_entries w) (ey_id old)))
                  (\<lambda>rows. summary_data opBy ''entry'' (su_entry env old) (Some rows) None True) (sw_llm w) = (l, t)" by fastforce
  have "sw_llm w' = l"
    using assms by (auto simp: onEndpointsChanged_def Some t Let_def split: sum.splits option.splits if_splits prod.splits)
  moreover have "\<exists>reqs. lw_requests l = lw_requests (sw_llm w) @ reqs \<and> length reqs \<le> 6"
    by (rule two_queries_requests [OF _ t]) (rule ask_requests(1))
  ultimately show ?thesis by blast
qed

text \<open>The listener of entry changes writes callgents only.\<close>

lemma onEntriesChanged_requests:
  assumes "onEntriesChanged env opBy cgId news olds w = (w', out)"
  shows "sw_entries w' = sw_entries w \<and> (\<exists>reqs. lw_requests (sw_llm w') = lw_requests (sw_llm w) @ reqs \<and> length reqs \<le> 6)"
proof (cases "\<exists>cdb c. findOne (su_deletedToo env) (su_tenant env) cgId (sw_callgents w) = Inr (cdb, Some c)")
  case False
  with assms show ?thesis by (auto simp: onEntriesChanged_def split: sum.splits option.splits prod.splits)
next
  case True
  then obtain cdb c where f: "findOne (su_deletedToo env) (su_tenant env) cgId (sw_callgents w) = Inr (cdb, Some c)" by blast
  obtain l t where t: "two_queries (summarizeCallgent (su_llm env) opBy)
                  (summary_data opBy ''callgent'' (su_callgent env c) (Some (JArr (map (su_entry env) news))) (Some (JArr (map (su_entry env) olds))) False)
                  (map (su_entry env) (filter (\<lambda>y. ey_type y = ET_SERVER) (callgent_entries (su_tenant env) (cg_id c) (sw_entries w))))
                  (\<lambda>rows. summary_data opBy ''callgent'' (su_callgent env c) (Some rows) None True) (sw_llm w) = (l, t)" by fastforce
  have "sw_llm w' = l \<and> sw_entries w' = sw_entries w"
    using assms by (auto simp: onEntriesChanged_def f t split: sum.splits option.splits prod.splits)
  moreover have "\<exists>reqs. lw_requests l = lw_requests (sw_llm w) @ reqs \<and> length reqs \<le> 6"
    by (rule two_queries_requests [OF _ t]) (rule ask_requests(2))
  ultimately show ?thesis by blast
qed

text \<open>What an accepted answer of each generator satisfies.\<close>

lemma vue2_answer:
  assumes q: "genVue2Components env eps data payer w = (w', Inr r)" and g: "generated r = Some (JObj kvs)" "(name, c) \<in> set kvs"
  shows "\<exists>xs. json_at ''endpoints'' c = Some (JArr xs) \<and> set xs \<subseteq> JStr ` set eps"
proof -
  have "check_component (le_dump env) eps (name, c) = Inr True"
    using accepted [OF q [unfolded genVue2Components_def]] g by (auto simp: check_components_def js_entries_def all_hold_True outcome_simps)
  then show ?thesis by (auto simp: check_component_def outcome_simps js_every_True prop_of_Inr split: if_splits)
qed

lemma vue3_answer:
  assumes q: "genVue3Component env names data payer w = (w', Inr r)"
  shows "\<exists>j ps. generated r = Some j \<and> json_at ''packages'' j = Some (JArr ps) \<and> (\<forall>p\<in>set ps. \<exists>n v. p = JStr (n @ CHR ''@'' # v) \<and> n \<noteq> []) \<and>
        (\<forall>sp xs. json_at ''spec'' j = Some sp \<longrightarrow> json_at ''importedComponents'' sp = Some (JArr xs) \<longrightarrow> set xs \<subseteq> JStr ` set names)"
proof -
  let ?rest = "\<lambda>j. and_then (prop_of ''spec'' j) (\<lambda>sp. and_then (prop_of ''importedComponents'' sp) (\<lambda>cs.
            if \<not> truthy_opt cs then Inr True else js_every cs (check_import (le_dump env) names)))"
  have "check_vue3 (le_dump env) names (generated r) = Inr True" by (rule accepted [OF q [unfolded genVue3Component_def]])
  then obtain ps0 ok where 1: "prop_of ''packages'' (generated r) = Inr ps0" "js_every ps0 (check_package True) = Inr ok"
    "(if \<not> ok then Inr False else ?rest (generated r)) = Inr True" unfolding check_vue3_def and_then_eq_Inr by blast
  then have ok: "js_every ps0 (check_package True) = Inr True" "?rest (generated r) = Inr True" by (cases ok; simp)+
  from 1(1) obtain j where g: "generated r = Some j" "ps0 = json_at ''packages'' j" unfolding prop_of_Inr by blast
  from ok(1) obtain ps where ps: "ps0 = Some (JArr ps)" "\<forall>p\<in>set ps. check_package True p = Inr True" unfolding js_every_True by blast
  note j = g(1) g(2) [symmetric, unfolded ps(1)] ps(2)
  have rest: "?rest (Some j) = Inr True" using ok(2) unfolding g(1) .
  have "set xs \<subseteq> JStr ` set names" if "json_at ''spec'' j = Some sp" "json_at ''importedComponents'' sp = Some (JArr xs)" for sp xs
  proof -
    have "js_every (Some (JArr xs)) (check_import (le_dump env) names) = Inr True"
      using rest that by (auto simp: outcome_simps prop_of_Inr)
    then show ?thesis by (auto simp: js_every_True check_import_def split: if_splits)
  qed
  with j show ?thesis by (auto simp: check_package_True)
qed

lemma vue4_answer:
  assumes that: "genVue4Store env data payer w = (w', Inr r)"
  shows "\<exists>j ps. generated r = Some j \<and> json_at ''packages'' j = Some (JArr ps) \<and> (\<forall>p\<in>set ps. \<exists>n v. p = JStr (n @ CHR ''@'' # v) \<and> n \<noteq> [])"
  using accepted [OF that [unfolded genVue4Store_def]] packages_checked unfolding check_packages_def and_then_eq_Inr by blast

lemma vue5_answer:
  assumes that: "genVue5View env data payer w = (w', Inr r)"
  shows "\<exists>j ps. generated r = Some j \<and> json_at ''packages'' j = Some (JArr ps) \<and> (\<forall>p\<in>set ps. \<exists>n v. p = JStr (n @ CHR ''@'' # v) \<and> n \<noteq> [])"
proof -
  from accepted [OF that [unfolded genVue5View_def]] obtain v where "prop_of ''packages'' (generated r) = Inr v"
    "(if v = None \<or> v = Some JNull then Inr False else js_every v (check_package False)) = Inr True"
    unfolding check_packages_opt_def and_then_eq_Inr by blast
  then have "prop_of ''packages'' (generated r) = Inr v" "js_every v (check_package False) = Inr True" by (auto split: if_splits)
  then show ?thesis by (rule packages_checked)
qed

section \<open>Properties\<close>

text \<open>C34. What the page generator is given exists: every endpoint that a generated component names is one of
  the endpoints it was told about, every package that a component, a store or a view asks for has a
  name and a version, and a component imports only components that were defined before.\<close>

theorem generated_names_exist:
  "(genVue2Components env eps data payer w = (w', Inr r) \<longrightarrow>
     (\<forall>kvs name c. generated r = Some (JObj kvs) \<longrightarrow> (name, c) \<in> set kvs \<longrightarrow>
        (\<exists>xs. json_at ''endpoints'' c = Some (JArr xs) \<and> set xs \<subseteq> JStr ` set eps))) \<and>
   (genVue3Component env names data payer w = (w', Inr r) \<longrightarrow>
     (\<exists>j ps. generated r = Some j \<and> json_at ''packages'' j = Some (JArr ps) \<and> (\<forall>p\<in>set ps. \<exists>n v. p = JStr (n @ CHR ''@'' # v) \<and> n \<noteq> []) \<and>
        (\<forall>sp xs. json_at ''spec'' j = Some sp \<longrightarrow> json_at ''importedComponents'' sp = Some (JArr xs) \<longrightarrow> set xs \<subseteq> JStr ` set names))) \<and>
   (genVue4Store env data payer w = (w', Inr r) \<or> genVue5View env data payer w = (w', Inr r) \<longrightarrow>
     (\<exists>j ps. generated r = Some j \<and> json_at ''packages'' j = Some (JArr ps) \<and> (\<forall>p\<in>set ps. \<exists>n v. p = JStr (n @ CHR ''@'' # v) \<and> n \<noteq> [])))"
  by (intro conjI impI, blast dest: vue2_answer, erule vue3_answer, erule disjE, erule vue4_answer, erule vue5_answer)

definition ex_store_json :: json where
  "ex_store_json = JObj [(''code'', JStr ''x''), (''packages'', JArr [JStr ''pinia@2''])]"

definition ex_says :: "json \<Rightarrow> llm_env" where
  "ex_says j = (ex_llm_env (OneModel ''m''))\<lparr>le_parser := (\<lambda>s. Inr j)\<rparr>"

definition ex_told :: "string \<Rightarrow> string \<Rightarrow> llm_world" where
  "ex_told txt template = (Llm.ex_world 9 [ex_answer txt])\<lparr>lw_templates := [(template, ''say hi'')]\<rparr>"

definition ex_prompted :: "string \<Rightarrow> llm_world" where
  "ex_prompted = ex_told ''{a: 1}''"

lemma ex_told_query:
  assumes "parseResultSchema (ex_says j) (qs_schema spec) (qs_parseType spec) (Some txt) = Inr r"
    and "\<And>f. qs_validate spec = Some f \<Longrightarrow> f r 0 = Inr True" and "qs_models spec = None" "qs_paidBy spec = Some ''u''" and "length template < 32" "txt \<noteq> []" "length txt \<le> 8191"
  shows "\<exists>w'. query (ex_says j) template args spec (ex_told txt template) = (w', Inr r)"
proof -
  have jd: "judge (ex_says j) spec 0 (Some txt) = Inr (r, True)"
    using assms(1,2) by (cases "qs_validate spec") (simp_all add: judge_def)
  have p: "prompt_of (ex_says j) template args (ex_told txt template) = ((ex_told txt template)\<lparr>lw_compiled := obj_set template ''say hi'' []\<rparr>, Inr ''say hi'')"
    by (simp add: prompt_of_def ex_told_def Llm.ex_world_def ex_says_def ex_llm_env_def Let_def)
  let ?w = "(ex_told txt template)\<lparr>lw_compiled := obj_set template ''say hi'' []\<rparr>"
  have c: "\<exists>w1 r1. completion (ex_says j) (Some ''u'') req ?w = (w1, Inr r1) \<and> rp_model r1 = Some ''m'' \<and>
      rp_choices r1 = Some [\<lparr>ch_text = Some txt, ch_message = Some (Some txt)\<rparr>] \<and> lw_cache w1 = []" for req
    by (simp add: completion_def settle_def handleLlmCompletion_def ex_bank_check ex_says_def ex_llm_env_def ex_told_def Llm.ex_world_def ex_answer_def
        ex_bill_env_def Let_def)
  obtain w1 r1 where c1: "completion (ex_says j) (Some ''u'') (PromptRequest ''say hi'' (chosen_models (ex_says j) None)) ?w = (w1, Inr r1)"
    "rp_model r1 = Some ''m''" "rp_choices r1 = Some [\<lparr>ch_text = Some txt, ch_message = Some (Some txt)\<rparr>]" "lw_cache w1 = []" using c by blast
  have m: "fst (llmCacheLoad (ex_says j) template ''say hi'' ?w) = None"
    by (simp add: llmCacheLoad_def models_iter_def cacheFind_def ex_says_def ex_llm_env_def ex_told_def Llm.ex_world_def max_prompt_def)
  then obtain m0 where m0: "llmCacheLoad (ex_says j) template ''say hi'' ?w = (None, m0)" by (metis prod.collapse)
  have on: "le_cache_on (ex_says j)" by (simp add: ex_says_def ex_llm_env_def)
  have st: "\<exists>w2. cacheStore template (Some ''m'') ''say hi'' txt w1 = Inr w2"
    using c1(4) assms(5,7) by (simp add: cacheStore_def max_prompt_def cacheFind_def fits_def Let_def)
  show ?thesis
    using st by (auto simp: query_def p m0 on numeral_3_eq_3 query_body_def assms(3,4,6) c1 jd Let_def)
qed

lemma ex_query:
  assumes "parseResultSchema (ex_says j) (qs_schema spec) (qs_parseType spec) (Some ''{a: 1}'') = Inr r"
    and "\<And>f. qs_validate spec = Some f \<Longrightarrow> f r 0 = Inr True" and "qs_models spec = None" "qs_paidBy spec = Some ''u''" and "length template < 32"
  shows "\<exists>w'. query (ex_says j) template args spec (ex_prompted template) = (w', Inr r)"
  unfolding ex_prompted_def by (rule ex_told_query) (use assms in auto)

theorem generated_names_exist_witness:
  "\<exists>w' r j ps. genVue4Store (ex_says ex_store_json) JNull (Some ''u'') (ex_prompted ''genVue4Store'') = (w', Inr r) \<and>
     generated r = Some j \<and> json_at ''packages'' j = Some (JArr ps) \<and> (\<forall>p\<in>set ps. \<exists>n v. p = JStr (n @ CHR ''@'' # v) \<and> n \<noteq> [])"
proof -
  have "\<exists>w'. query (ex_says ex_store_json) ''genVue4Store'' JNull (spec_of code_schema (Some ''u'') (Some check_packages)) (ex_prompted ''genVue4Store'') =
      (w', Inr (P_json (Some ex_store_json)))"
    by (rule ex_query, simp_all add: spec_of_def code_schema_def ex_says_def ex_llm_env_def ex_store_json_def parseResultSchema_def toJSON_def js_trim_def is_space_def
        to_lower_def lower_char_def fence_split.simps fence_match_def toJSON_parse_def checkJsonType_def js_entries_def check_entry_def own_value_def
        check_packages_def prop_of_def json_at_def js_every_def check_package_def lastIndexOf_def generated_def)
  then obtain w' where "genVue4Store (ex_says ex_store_json) JNull (Some ''u'') (ex_prompted ''genVue4Store'') = (w', Inr (P_json (Some ex_store_json)))"
    unfolding genVue4Store_def by blast
  with generated_names_exist [of "ex_says ex_store_json" "[]" JNull "Some ''u''" "ex_prompted ''genVue4Store''" w' "P_json (Some ex_store_json)" "[]"]
  show ?thesis by blast
qed

text \<open>C35. A change of endpoints reaches the summary of the callgent in at most two steps: the listener of
  the change leaves the entries as they are, or rewrites nothing but the summary and the instruction of the
  one entry it was told about and then emits one event, that its callgent's entries changed; the listener of that event
  changes no entry and emits nothing; together they send at most twelve requests to the language model.\<close>

theorem summaries_settle:
  assumes "onEndpointsChanged env opBy i given_entry news olds w = (w1, out)"
  shows "(case out of
      Inr (Some new) \<Rightarrow> \<exists>old. event_entry (sw_entries w) i given_entry = Some old \<and> sw_callgents w1 = sw_callgents w \<and>
        ed_events (sw_entries w1) = ed_events (sw_entries w) @ [EntriesChanged opBy (ey_callgentId old) [new] [old]] \<and>
        list_all2 (\<lambda>y y'. if ey_id y = ey_id old then \<exists>s n. y' = y\<lparr>er_summary := s, er_instruction := n\<rparr> else y' = y)
          (ed_entries (sw_entries w)) (ed_entries (sw_entries w1)) \<and> new \<in> set (ed_entries (sw_entries w1))
    | _ \<Rightarrow> sw_entries w1 = sw_entries w \<and> sw_callgents w1 = sw_callgents w) \<and>
    (onEntriesChanged env opBy cgId [new] [old] w1 = (w2, out2) \<longrightarrow>
       sw_entries w2 = sw_entries w1 \<and> (\<exists>reqs. lw_requests (sw_llm w2) = lw_requests (sw_llm w) @ reqs \<and> length reqs \<le> 12))"
proof -
  have one: "case out of
      Inr (Some new) \<Rightarrow> \<exists>old. event_entry (sw_entries w) i given_entry = Some old \<and> sw_callgents w1 = sw_callgents w \<and>
        ed_events (sw_entries w1) = ed_events (sw_entries w) @ [EntriesChanged opBy (ey_callgentId old) [new] [old]] \<and>
        list_all2 (\<lambda>y y'. if ey_id y = ey_id old then \<exists>s n. y' = y\<lparr>er_summary := s, er_instruction := n\<rparr> else y' = y)
          (ed_entries (sw_entries w)) (ed_entries (sw_entries w1)) \<and> new \<in> set (ed_entries (sw_entries w1))
    | _ \<Rightarrow> sw_entries w1 = sw_entries w \<and> sw_callgents w1 = sw_callgents w"
    using onEndpointsChanged_cases [OF assms]
  proof (elim disjE exE conjE)
    fix l assume "w1 = w\<lparr>sw_llm := l\<rparr>" "\<forall>new. out \<noteq> Inr (Some new)"
    then show ?thesis by (auto split: sum.splits option.splits)
  next
    fix l old new edb
    assume a: "event_entry (sw_entries w) i given_entry = Some old" "out = Inr (Some new)" "w1 = w\<lparr>sw_llm := l, sw_entries := edb\<rparr>"
      "resummarised opBy old new (sw_entries w) edb"
    let ?es = "ed_entries (sw_entries w)"
    from a(4) obtain cs cn where r: "ey_id old \<in> ey_id ` set ?es" "new = write_summary cs cn (the (find (\<lambda>y. ey_id y = ey_id old) ?es))"
      "edb = (sw_entries w)\<lparr>ed_entries := map (\<lambda>y. if ey_id y = ey_id old then write_summary cs cn y else y) ?es,
                 ed_events := ed_events (sw_entries w) @ [EntriesChanged opBy (ey_callgentId old) [new] [old]]\<rparr>"
      unfolding resummarised_def by blast
    obtain y where y: "find (\<lambda>y. ey_id y = ey_id old) ?es = Some y"
      using r(1) by (cases "find (\<lambda>y. ey_id y = ey_id old) ?es") (auto simp: find_None_iff)
    then have "y \<in> set ?es" "ey_id y = ey_id old" by (auto simp: find_Some_iff)
    then have "new \<in> set (ed_entries edb)" by (auto simp: r y)
    moreover have "list_all2 (\<lambda>y y'. if ey_id y = ey_id old then \<exists>s n. y' = y\<lparr>er_summary := s, er_instruction := n\<rparr> else y' = y) ?es (ed_entries edb)"
      by (auto simp: r(3) list_all2_conv_all_nth write_summary_def)
    ultimately show ?thesis using a r(3) by simp
  qed
  have two: "sw_entries w2 = sw_entries w1 \<and> (\<exists>reqs. lw_requests (sw_llm w2) = lw_requests (sw_llm w) @ reqs \<and> length reqs \<le> 12)"
    if "onEntriesChanged env opBy cgId [new] [old] w1 = (w2, out2)"
    using onEndpointsChanged_requests [OF assms] onEntriesChanged_requests [OF that] by fastforce
  from one two show ?thesis by blast
qed

definition ex_summary :: json where
  "ex_summary = JObj [(''summary'', JStr ''All about pets''), (''instruction'', JStr ''Ask''), (''totally'', JBool False)]"

definition ex_sum_env :: sum_env where
  "ex_sum_env = \<lparr>su_llm = ex_says ex_summary, su_entry = (\<lambda>y. JNull), su_endpoint = (\<lambda>n. JNull), su_callgent = (\<lambda>c. JNull), su_deletedToo = False,
     su_tenant = Some 5\<rparr>"

definition ex_entry1 :: entry_row where
  "ex_entry1 = (new_entry ''cg'' ''restAPI'' None)\<lparr>ey_id := ''e1''\<rparr>"

definition ex_sum_world :: sum_world where
  "ex_sum_world = \<lparr>sw_llm = ex_prompted ''summarizeEntry'', sw_entries = ex_db\<lparr>ed_entries := [ex_entry1]\<rparr>, sw_callgents = ex_owned\<rparr>"

lemma ex_summarize: "\<exists>l. summarizeEntry (ex_says ex_summary) (Some ''u'') d (ex_prompted ''summarizeEntry'') = (l, Inr (P_json (Some ex_summary)))"
  unfolding summarizeEntry_def
  by (rule ex_query, simp_all add: spec_of_def summary_schema_def ex_says_def ex_llm_env_def ex_summary_def parseResultSchema_def toJSON_def js_trim_def is_space_def
        to_lower_def lower_char_def fence_split.simps fence_match_def toJSON_parse_def checkJsonType_def js_entries_def check_entry_def own_value_def
        json_at_def)

theorem summaries_settle_witness:
  "\<exists>w1 new. onEndpointsChanged ex_sum_env (Some ''u'') ''e1'' None [] [] ex_sum_world = (w1, Inr (Some new)) \<and>
     er_summary new = Some ''All about pets'' \<and> ed_events (sw_entries w1) = [EntriesChanged (Some ''u'') ''cg'' [new] [ex_entry1]] \<and>
     (\<exists>w2 out2. onEntriesChanged ex_sum_env (Some ''u'') ''cg'' [new] [ex_entry1] w1 = (w2, out2) \<and> sw_entries w2 = sw_entries w1)"
proof -
  obtain l where l: "summarizeEntry (ex_says ex_summary) (Some ''u'')
      (summary_data (Some ''u'') ''entry'' JNull (Some (JArr [])) (Some (JArr [])) False) (ex_prompted ''summarizeEntry'') = (l, Inr (P_json (Some ex_summary)))"
    using ex_summarize by blast
  let ?new = "write_summary (Some (Some ''All about pets'')) (Some (Some ''Ask'')) ex_entry1"
  have ev: "event_entry (sw_entries ex_sum_world) ''e1'' None = Some ex_entry1"
    by (simp add: event_entry_def ex_sum_world_def ex_db_def ex_entry1_def)
  have o: "\<exists>w1. onEndpointsChanged ex_sum_env (Some ''u'') ''e1'' None [] [] ex_sum_world = (w1, Inr (Some ?new))"
    unfolding onEndpointsChanged_def ev
    by (simp add: ex_sum_env_def ex_sum_world_def two_queries_def l is_totally_def generated_def, simp add: ex_summary_def json_at_def field_of_def is_same_def
        ex_sum_world_def Let_def ex_entry1_def new_entry_def column_of_def updateEntry_def ex_db_def write_summary_def given_def)
  then obtain w1 where w1: "onEndpointsChanged ex_sum_env (Some ''u'') ''e1'' None [] [] ex_sum_world = (w1, Inr (Some ?new))" by blast
  obtain w2 out2 where w2: "onEntriesChanged ex_sum_env (Some ''u'') ''cg'' [?new] [ex_entry1] w1 = (w2, out2)" by fastforce
  from summaries_settle [OF w1, of "''cg''" ?new ex_entry1 w2 out2] w2 ev
  have "ed_events (sw_entries w1) = ed_events (sw_entries ex_sum_world) @ [EntriesChanged (Some ''u'') (ey_callgentId ex_entry1) [?new] [ex_entry1]]"
    "sw_entries w2 = sw_entries w1" by auto
  with w1 w2 show ?thesis
    by (intro exI [of _ w1] exI [of _ ?new]) (auto simp: ex_sum_world_def ex_db_def ex_entry1_def new_entry_def write_summary_def given_def)
qed

end
