(* ===== verification/Emails.thy ===== *)
theory Emails
  imports Agents EventListeners SepChain RestApi
begin

text \<open>
  \<open>src/emails\<close> and \<open>src/entries/adaptors/builtin/email/email.adaptor.ts\<close>: mails to a server entry
  instead of requests, and the replies to them. The service that sends mails answers each posted mail with
  a status, the template engine renders the body of a mail, and the verifier of tokens is a package;
  all are parameters. The head of the template \<open>relay-sep-invoke.dot\<close>, whose title becomes the
  subject, is modelled.
\<close>

section \<open>The mail service\<close>

record mail_env =
  me_host :: string
  me_sender :: json
  me_templates :: "(json \<Rightarrow> string) obj"
  me_num :: "rat \<Rightarrow> string"
  me_dump :: "json \<Rightarrow> string"
  me_status :: "string \<Rightarrow> string option"
  me_endpoint :: "string \<Rightarrow> json"
  me_llm :: llm_env

text \<open>The posted mails, the statuses the service is going to answer with, and the language model.\<close>

record mail_world =
  mw_posted :: "json list"
  mw_answers :: "int result list"
  mw_llm :: llm_world

text \<open>\<open>_formalizeEmails\<close>: the name defaults to what stands before the at sign.\<close>

definition formalizeEmail :: "json option \<Rightarrow> json result" where
  "formalizeEmail d =
     and_then (prop_of ''email'' d) (\<lambda>m.
     and_then (prop_of ''name'' d) (\<lambda>n.
       let email = (if truthy_opt m then the m else the d)
       in and_then (if truthy_opt n then Inr (the n)
                    else case email of
                           JStr s \<Rightarrow> Inr (JStr (hd (split_char (CHR ''@'') s)))
                         | _ \<Rightarrow> Inl (TypeError ''email.split is not a function''))
            (\<lambda>name. Inr (JObj [(''name'', name), (''email'', email)]))))"

definition formalizeEmails :: "json option \<Rightarrow> json list result" where
  "formalizeEmails emails =
     map_result formalizeEmail (case emails of Some (JArr xs) \<Rightarrow> map Some xs | _ \<Rightarrow> [emails])"

definition first_of :: "json list \<Rightarrow> json option" where
  "first_of xs = (case xs of [] \<Rightarrow> None | x # _ \<Rightarrow> Some x)"

definition sender_of :: "mail_env \<Rightarrow> json option \<Rightarrow> json option result" where
  "sender_of env sender =
     (if truthy_opt sender then and_then (formalizeEmails sender) (\<lambda>xs. Inr (first_of xs)) else Inr (Some (me_sender env)))"

text \<open>\<open>substring\<close> with two positions: negative ones count as 0, and they are swapped when out of order.\<close>

definition js_substring :: "int \<Rightarrow> int \<Rightarrow> string \<Rightarrow> string" where
  "js_substring a b s = (let i = nat (min a b); j = nat (max a b) in take (j - i) (drop i s))"

definition index_of :: "string \<Rightarrow> string \<Rightarrow> int" where
  "index_of pat s = (case find_sub pat s of None \<Rightarrow> - 1 | Some i \<Rightarrow> int i)"

definition title_open :: string where "title_open = ''<title>''"
definition title_close :: string where "title_close = ''</title>''"

definition extractSubject :: "string \<Rightarrow> string option" where
  "extractSubject content =
     (let idx = index_of title_open content
      in if idx < 0 then None else Some (js_trim (js_substring (idx + 7) (index_of title_close content) content)))"

text \<open>\<open>sendEmail\<close>: the address of the service and the headers are constant.\<close>

definition sendEmail :: "mail_env \<Rightarrow> json option \<Rightarrow> string \<Rightarrow> string \<Rightarrow> json option \<Rightarrow> mail_world \<Rightarrow> mail_world \<times> bool result" where
  "sendEmail env mailTo subject htmlContent sender w =
     (case and_then (formalizeEmails mailTo) (\<lambda>ts. and_then (sender_of env sender) (\<lambda>s.
             Inr (present [(''to'', Some (JArr ts)), (''sender'', s), (''subject'', Some (JStr subject)), (''htmlContent'', Some (JStr htmlContent)),
                           (''headers'', Some (JObj [(''charset'', JStr ''UTF-8'')]))]))) of
        Inl err \<Rightarrow> (w, Inl err)
      | Inr data \<Rightarrow>
          (let w1 = w\<lparr>mw_posted := mw_posted w @ [data], mw_answers := tl (mw_answers w)\<rparr>
           in case mw_answers w of
                [] \<Rightarrow> (w1, Inl (PlainError ''Network Error''))
              | Inl err # _ \<Rightarrow> (w1, Inl err)
              | Inr status # _ \<Rightarrow> (w1, Inr (status < 300))))"

text \<open>\<open>EmailTemplateProvider\<close>: the files of the directory that end in \<open>.dot\<close>, compiled by the engine.\<close>

definition is_template :: "string \<Rightarrow> bool" where
  "is_template file \<longleftrightarrow> suffix ''.dot'' file \<and> file \<noteq> ''.dot''"

definition loadTemplates :: "(string \<Rightarrow> json \<Rightarrow> string) \<Rightarrow> (string \<times> string) list \<Rightarrow> (json \<Rightarrow> string) obj" where
  "loadTemplates engine files =
     fold (\<lambda>(file, content). obj_set (take (length file - 4) file) (engine content)) (filter (\<lambda>(file, _). is_template file) files) []"

definition render :: "(json \<Rightarrow> string) obj \<Rightarrow> string \<Rightarrow> json \<Rightarrow> string result" where
  "render templates templateName data =
     (case obj_get templates templateName of
        None \<Rightarrow> Inl (PlainError (''Template '' @ templateName @ '' not found''))
      | Some f \<Rightarrow> Inr (f data))"

text \<open>\<open>sendTemplateEmail\<close>; the configuration that the templates also see is left out.\<close>

definition sendTemplateEmail :: "mail_env \<Rightarrow> json option \<Rightarrow> string \<Rightarrow> json obj \<Rightarrow> json option \<Rightarrow> mail_world \<Rightarrow> mail_world \<times> bool result" where
  "sendTemplateEmail env mailTo template context sender w =
     (case and_then (formalizeEmails mailTo) (\<lambda>ts. and_then (sender_of env sender) (\<lambda>s.
           and_then (render (me_templates env) template
               (JObj (fold (\<lambda>(k, v). obj_set k v) ([(''to'', JArr ts)] @ (case s of None \<Rightarrow> [] | Some x \<Rightarrow> [(''sender'', x)])) context))) (\<lambda>content.
             if nonempty_str (extractSubject content) then Inr (ts, s, the (extractSubject content), content)
             else Inl (PlainError (''No subject found. template='' @ template))))) of
        Inl err \<Rightarrow> (w, Inl err)
      | Inr (ts, s, subject, content) \<Rightarrow> sendEmail env (Some (JArr ts)) subject content s w)"

section \<open>Relayed mails\<close>

record mail_content =
  ct_subject :: "string option"
  ct_html :: "string option"
  ct_text :: "string option"

record relay_email =
  re_rcpt_to :: "string option"
  re_content :: "mail_content option"

datatype relay_key = RelayRequest | RelayCallgent

record relay_event =
  rv_key :: relay_key
  rv_id :: string
  rv_email :: relay_email

definition relay_json :: "relay_email \<Rightarrow> json" where
  "relay_json m =
     present [(''rcpt_to'', map_option JStr (re_rcpt_to m)),
              (''content'', map_option (\<lambda>c. present [(''subject'', map_option JStr (ct_subject c)), (''html'', map_option JStr (ct_html c)),
                                                     (''text'', map_option JStr (ct_text c))]) (re_content m))]"

text \<open>\<open>handleRelayEmail\<close>: the type of the relay is in the address, the id at the end of the subject. Mails that are
  not for the relay are ignored (\<open>None\<close>).\<close>

definition after_hash :: "string \<Rightarrow> string" where
  "after_hash s = drop (nat (lastIndexOf (CHR ''#'') s + 1)) s"

definition handleRelayEmail :: "string \<Rightarrow> relay_email option \<Rightarrow> relay_event option result" where
  "handleRelayEmail mailHost email =
     (case email of
        None \<Rightarrow> Inr None
      | Some m \<Rightarrow>
          (case re_rcpt_to m of
             None \<Rightarrow> Inr None
           | Some mailTo \<Rightarrow>
               if \<not> suffix mailHost mailTo then Inr None
               else (case re_content m of
                       None \<Rightarrow> Inl (TypeError ''Cannot read properties of undefined (reading subject)'')
                     | Some c \<Rightarrow>
                         (case ct_subject c of
                            None \<Rightarrow> Inl (TypeError ''Cannot read properties of undefined (reading substring)'')
                          | Some subject \<Rightarrow>
                              (let relayKey = (case cut_at (CHR ''+'') mailTo of None \<Rightarrow> [] | Some (k, _) \<Rightarrow> k); relayId = after_hash subject
                               in if relayKey = ''request'' then Inr (Some \<lparr>rv_key = RelayRequest, rv_id = relayId, rv_email = m\<rparr>)
                                  else if relayKey = ''callgent'' then Inr (Some \<lparr>rv_key = RelayCallgent, rv_id = relayId, rv_email = m\<rparr>)
                                  else Inr None)))))"

text \<open>\<open>EmailsController.handleRelayEvent\<close>: \<open>verify\<close> gives the subject of a valid token. The events emitted before an
  error stay emitted.\<close>

fun relay_all :: "string \<Rightarrow> relay_email option list \<Rightarrow> relay_event list \<times> unit result" where
  "relay_all mailHost [] = ([], Inr ())"
| "relay_all mailHost (None # ms) = relay_all mailHost ms"
| "relay_all mailHost (Some m # ms) =
     (case handleRelayEmail mailHost (Some m) of
        Inl err \<Rightarrow> ([], Inl err)
      | Inr ev \<Rightarrow> (case relay_all mailHost ms of (evs, r) \<Rightarrow> ((case ev of None \<Rightarrow> [] | Some v \<Rightarrow> [v]) @ evs, r)))"

definition handleRelayEvent :: "(string option \<Rightarrow> string option result) \<Rightarrow> string \<Rightarrow> string \<Rightarrow> string option \<Rightarrow> relay_email option list option \<Rightarrow>
    relay_event list \<times> unit result" where
  "handleRelayEvent verify mailHost clientId authorization relays =
     (case (if find_sub ''test'' mailHost = None
            then and_then (verify (map_option (drop 7) authorization)) (\<lambda>sub. if sub \<noteq> Some clientId then Inl (BadRequest ''Invalid Client ID'') else Inr ())
            else Inr ()) of
        Inl err \<Rightarrow> ([], Inl err)
      | Inr _ \<Rightarrow> (case relays of None \<Rightarrow> ([], Inr ()) | Some ms \<Rightarrow> relay_all mailHost ms))"

text \<open>\<open>RequestRelayListener\<close> resumes the event; nothing listens to relayed mails of callgents.\<close>

definition onRelay :: "nat \<Rightarrow> (req_ctx, 'w) EventListeners.registry \<Rightarrow> listener list \<Rightarrow> relay_event \<Rightarrow> (req_ctx, 'w) app \<Rightarrow>
    (req_ctx, 'w) app \<times> req_event option result" where
  "onRelay n reg tbl ev w =
     (case rv_key ev of
        RelayRequest \<Rightarrow> resume n reg tbl (rv_id ev) (Some (relay_json (rv_email ev))) w
      | RelayCallgent \<Rightarrow> (w, Inr None))"

section \<open>The adaptor\<close>

text \<open>\<open>{ ...v }\<close>: the own keys of an object, the indices of an array or a string, nothing of other values.\<close>

definition spread :: "json \<Rightarrow> json obj" where
  "spread j =
     (case j of
        JObj kvs \<Rightarrow> kvs
      | JArr xs \<Rightarrow> map (\<lambda>(i, x). (show_nat i, x)) (enumerate 0 xs)
      | JStr s \<Rightarrow> map (\<lambda>(i, c). (show_nat i, JStr [c])) (enumerate 0 s)
      | _ \<Rightarrow> [])"

definition obj_put :: "string \<Rightarrow> json option \<Rightarrow> json obj \<Rightarrow> json obj" where
  "obj_put k v m = (case v of None \<Rightarrow> obj_del k m | Some x \<Rightarrow> obj_set k x m)"

text \<open>\<open>v?.forEach(f)\<close> and \<open>v?.map(f)\<close> as the list they run over.\<close>

definition each_of :: "json option \<Rightarrow> json list result" where
  "each_of v =
     (case v of
        None \<Rightarrow> Inr [] | Some JNull \<Rightarrow> Inr []
      | Some (JArr xs) \<Rightarrow> Inr xs
      | _ \<Rightarrow> Inl (TypeError ''forEach is not a function''))"

text \<open>\<open>_params30x\<close>: the parameters with their values, then the body. An undefined value is left out.\<close>

definition param_value :: "mail_env \<Rightarrow> json option \<Rightarrow> json \<Rightarrow> json result" where
  "param_value env args p =
     and_then (prop_of ''name'' (Some p)) (\<lambda>n.
     and_then (prop_of (case n of None \<Rightarrow> ''undefined'' | Some x \<Rightarrow> js_string (me_num env) x) args) (\<lambda>v.
       Inr (JObj (obj_put ''value'' v (spread p)))))"

definition body_value :: "json option \<Rightarrow> json \<Rightarrow> json result" where
  "body_value args body =
     and_then (prop_of ''requestBody'' args) (\<lambda>v.
       Inr (present [(''name'', Some (JStr ''requestBody'')), (''value'', v),
                     (''required'', if truthy_opt (json_at ''required'' body) then json_at ''required'' body else None),
                     (''description'', if truthy_opt (json_at ''description'' body) then json_at ''description'' body else None)]))"

definition params30x :: "mail_env \<Rightarrow> json option \<Rightarrow> json option \<Rightarrow> json list result" where
  "params30x env params args =
     and_then (prop_of ''parameters'' params) (\<lambda>ps.
     and_then (prop_of ''requestBody'' params) (\<lambda>body.
     and_then (each_of ps) (\<lambda>xs.
     and_then (map_result (param_value env args) xs) (\<lambda>vs.
       if truthy_opt body then and_then (body_value args (the body)) (\<lambda>b. Inr (vs @ [b])) else Inr vs))))"

text \<open>\<open>_formatSchema\<close>. A loose comparison with a string also holds for a list that prints as it. The type of
  a string is shown with its constraints; anything but arrays, objects and strings is shown as it is.
  A property that is no object has no type, so it is shown as its spread.\<close>

definition loosely :: "(rat \<Rightarrow> string) \<Rightarrow> json option \<Rightarrow> string \<Rightarrow> bool" where
  "loosely num v t \<longleftrightarrow> (case v of Some (JStr s) \<Rightarrow> s = t | Some (JArr xs) \<Rightarrow> js_string num (JArr xs) = t | _ \<Rightarrow> False)"

definition constraint :: "(json \<Rightarrow> string) \<Rightarrow> string \<Rightarrow> json option \<Rightarrow> string" where
  "constraint show label v = (if truthy_opt v then label @ '': '' @ show (the v) @ '', '' else [])"

definition string_schema :: "mail_env \<Rightarrow> json \<Rightarrow> json" where
  "string_schema env schema =
     (let text_of = js_string (me_num env);
          pre = constraint text_of ''format'' (json_at ''format'' schema) @ constraint text_of ''pattern'' (json_at ''pattern'' schema) @
                constraint (me_dump env) ''enums'' (json_at ''enum'' schema);
          d = json_at ''description'' schema
      in JStr (pre @ (if truthy_opt d then text_of (the d) else ''string'')))"

lemma size_prop: "(k, v) \<in> set kvs \<Longrightarrow> size v < size (JObj kvs)"
proof -
  assume "(k, v) \<in> set kvs"
  then have "size_prod (\<lambda>_. 0) size (k, v) \<le> size_list (size_prod (\<lambda>_. 0) size) kvs" by (rule size_list_estimation') simp
  then show ?thesis by simp
qed

lemma size_json_at: "json_at k j = Some v \<Longrightarrow> size v < size j"
  by (cases j) (auto simp: json_at_def obj_get_def dest!: map_of_SomeD dest: size_prop)

lemma size_entry: "js_entries (Some j) = Inr kvs \<Longrightarrow> (k, JObj own) \<in> set kvs \<Longrightarrow> size (JObj own) < size j"
proof (cases j)
  case (JArr xs)
  assume "js_entries (Some j) = Inr kvs" "(k, JObj own) \<in> set kvs"
  then have "JObj own \<in> set xs" by (auto simp: js_entries_def JArr enumerate_eq_zip dest: set_zip_rightD)
  then have "size (JObj own) \<le> size_list size xs" by (rule size_list_estimation') simp
  then show ?thesis by (simp add: JArr)
qed (auto simp: js_entries_def dest: size_prop)

lemma size_without: "size (JObj (obj_del k kvs)) \<le> size (JObj kvs)"
  by (induction kvs) (auto simp: obj_del_def)

lemma size_own_property:
  assumes "js_entries (json_at k schema) = Inr kvs" and "(n, JObj own) \<in> set kvs"
  shows "size (JObj (obj_del r own)) < size schema"
proof -
  from assms(1) obtain j where j: "json_at k schema = Some j" by (cases "json_at k schema") (auto simp: js_entries_def)
  have "size (JObj (obj_del r own)) \<le> size (JObj own)" by (rule size_without)
  also have "\<dots> < size j" using assms j by (auto intro: size_entry simp del: json.size)
  also have "\<dots> < size schema" using j by (rule size_json_at)
  finally show ?thesis .
qed

lemma and_then_cong [fundef_cong]:
  "r = r' \<Longrightarrow> (\<And>a. r' = Inr a \<Longrightarrow> f a = g a) \<Longrightarrow> and_then r f = and_then r' g"
  by (cases r') auto

lemma map_result_cong [fundef_cong]:
  "xs = ys \<Longrightarrow> (\<And>x. x \<in> set ys \<Longrightarrow> f x = g x) \<Longrightarrow> map_result f xs = map_result g ys"
  by (induction ys arbitrary: xs) auto

function formatSchema :: "mail_env \<Rightarrow> json \<Rightarrow> json result" where
  "formatSchema env schema =
     (if schema = JNull then Inl (TypeError ''Cannot read properties of null'')
      else if loosely (me_num env) (json_at ''type'' schema) ''array'' then
        (case json_at ''items'' schema of
           None \<Rightarrow> Inl (TypeError ''Cannot read properties of undefined'')
         | Some items \<Rightarrow> and_then (formatSchema env items) (\<lambda>x. Inr (JArr [x])))
      else if loosely (me_num env) (json_at ''type'' schema) ''object'' then
        (let ps = json_at ''properties'' schema
         in and_then (js_entries ps) (\<lambda>kvs.
            and_then (map_result (\<lambda>(k, v).
                  if v = JNull then Inl (TypeError ''Cannot read properties of null'')
                  else and_then (case v of JObj own \<Rightarrow> formatSchema env (JObj (obj_del ''required'' own)) | _ \<Rightarrow> Inr (JObj (spread v)))
                         (\<lambda>x. Inr (k @ (if truthy_opt (json_at ''required'' v) then ''*'' else []), x))) kvs)
               (\<lambda>props. Inr (JObj (fold (\<lambda>(k, v). obj_set k v) props [])))))
      else if loosely (me_num env) (json_at ''type'' schema) ''string'' then Inr (string_schema env schema)
      else Inr schema)"
  by pat_completeness auto
termination
  by (relation "measure (\<lambda>(env, j). size j)")
    (auto intro: size_json_at size_own_property simp del: json.size)

declare formatSchema.simps [simp del]

text \<open>\<open>_formatMediaType\<close>: one item per media type, and the item alone when there is one. Examples are spread,
  which only lists and strings can be.\<close>

definition media_item :: "mail_env \<Rightarrow> json \<Rightarrow> json list result" where
  "media_item env c =
     (if c = JNull then Inl (TypeError ''Cannot read properties of null'')
      else if truthy_opt (json_at ''schema'' c) then and_then (formatSchema env (the (json_at ''schema'' c))) (\<lambda>x. Inr [x])
      else if truthy_opt (json_at ''examples'' c) then
        (case json_at ''examples'' c of
           Some (JArr xs) \<Rightarrow> Inr xs
         | Some (JStr s) \<Rightarrow> Inr (map (\<lambda>x. JStr [x]) s)
         | _ \<Rightarrow> Inl (TypeError ''Spread syntax requires an iterable''))
      else if truthy_opt (json_at ''example'' c) then Inr [the (json_at ''example'' c)]
      else Inr [])"

definition formatMediaType :: "mail_env \<Rightarrow> json option \<Rightarrow> json option result" where
  "formatMediaType env content =
     (if \<not> truthy_opt content then Inr content
      else and_then (js_entries content) (\<lambda>kvs.
           and_then (map_result (\<lambda>(_, c). media_item env c) kvs) (\<lambda>xss.
             Inr (Some (case concat xss of [x] \<Rightarrow> x | xs \<Rightarrow> JArr xs)))))"

text \<open>\<open>_responses30x\<close>: the default response first, then the others under the names of their statuses.\<close>

definition response_item :: "mail_env \<Rightarrow> string \<times> json \<Rightarrow> json result" where
  "response_item env kv =
     (case kv of (k, r) \<Rightarrow>
        if r = JNull then Inl (TypeError ''Cannot destructure properties of null'')
        else and_then (formatMediaType env (json_at ''content'' r)) (\<lambda>content.
               Inr (present [(''name'', Some (JStr (str_or (me_status env k) k))), (''description'', json_at ''description'' r), (''content'', content)])))"

definition responses30x :: "mail_env \<Rightarrow> json option \<Rightarrow> json list result" where
  "responses30x env responses =
     (if \<not> truthy_opt responses then Inr []
      else (let d = json_at ''default'' (the responses);
                first = (if truthy_opt d then [JObj (obj_set ''name'' (JStr ''Default Response'') (spread (the d)))] else [])
            in and_then (js_entries responses) (\<lambda>kvs.
               and_then (map_result (response_item env) (filter (\<lambda>(k, _). k \<noteq> ''default'') kvs)) (\<lambda>rs. Inr (first @ rs)))))"

text \<open>\<open>invoke\<close>: the mail goes from an address of the request to the host of the entry; its title ends with
  the key of the invocation.\<close>

definition relay_template :: string where
  "relay_template = ''relay-sep-invoke''"

definition pending_by_mail :: string where
  "pending_by_mail = ''Service called via email, please wait for reply.''"

definition not_sent :: "mail_env \<Rightarrow> json option \<Rightarrow> json" where
  "not_sent env mailTo =
     JObj [(''status'', JNum 500),
           (''statusText'', JStr (''Failed to call service via email '' @ (case mailTo of None \<Rightarrow> ''undefined'' | Some j \<Rightarrow> js_string (me_num env) j)))]"

definition mail_context :: "mail_env \<Rightarrow> endpoint \<Rightarrow> string \<Rightarrow> string \<Rightarrow> string \<Rightarrow> json list \<Rightarrow> json list \<Rightarrow> json obj" where
  "mail_context env en i eventId callgentName params responses =
     [(''relayId'', JStr (composeInvokeKey i eventId)), (''callgentName'', JStr callgentName), (''endpoint'', me_endpoint env (en_id en)),
      (''params'', JArr params), (''responses'', JArr responses)]"

definition mailInvoke :: "mail_env \<Rightarrow> endpoint \<Rightarrow> json option \<Rightarrow> json option \<Rightarrow> req_event \<Rightarrow> invoke_status \<Rightarrow> mail_world \<Rightarrow> mail_world \<times> por option result" where
  "mailInvoke env en args sentry e st w =
     (let emailFrom = getRelayAddress (me_host env) (ev_id e) ''request''; doc = me_endpoint env (en_id en)
      in case and_then (prop_of ''host'' sentry) (\<lambda>emailTo.
              and_then (params30x env (json_at ''params'' doc) args) (\<lambda>params.
              and_then (responses30x env (json_at ''responses'' doc)) (\<lambda>responses.
              and_then (ctx_of e) (\<lambda>c. Inr (emailTo, mail_context env en (is_invokeId st) (ev_id e) (cx_callgentName c) params responses))))) of
           Inl err \<Rightarrow> (w, Inl err)
         | Inr (emailTo, context) \<Rightarrow>
             (case sendTemplateEmail env emailTo relay_template context (Some (JObj [(''email'', JStr emailFrom), (''name'', JStr ''Callgent Invoker'')])) w of
                (w1, Inl err) \<Rightarrow> (w1, Inl err)
              | (w1, Inr sent) \<Rightarrow>
                  (w1, Inr (Some (if sent then pending_response (Some pending_by_mail) else data_response (Some (not_sent env emailTo)))))))"

text \<open>\<open>postprocess\<close>: the text of the reply is converted by the language model.\<close>

definition args_of :: "json option \<Rightarrow> json obj option" where
  "args_of v = (if truthy_opt v then (case obj_entries (the v) of Inr kvs \<Rightarrow> Some kvs | Inl _ \<Rightarrow> None) else None)"

definition mailPostprocess :: "mail_env \<Rightarrow> json option \<Rightarrow> endpoint \<Rightarrow> req_event \<Rightarrow> invoke_status \<Rightarrow> mail_world \<Rightarrow> mail_world \<times> json option result" where
  "mailPostprocess env resp en e st w =
     (let content = json_opt_at ''content'' resp; html = json_opt_at ''html'' content; plain = json_opt_at ''text'' content
      in if \<not> truthy_opt html then (w, Inl (BadRequest (''Missing response for reqEvent#'' @ ev_id e)))
         else (case convert2Response (me_llm env) (args_of (is_args st))
                      (js_string (me_num env) (if truthy_opt plain then the plain else the html)) (me_endpoint env (en_id en)) (paidBy e) (mw_llm w) of
                 (l, Inl err) \<Rightarrow> (w\<lparr>mw_llm := l\<rparr>, Inl err)
               | (l, Inr r) \<Rightarrow> (w\<lparr>mw_llm := l\<rparr>, Inr (generated r))))"

definition email_adaptor :: "mail_env \<Rightarrow> mail_world sep_adaptor" where
  "email_adaptor env =
     \<lparr>ad_invoke = (\<lambda>en args sentry w e st. case mailInvoke env en args sentry e st (sw_out w) of (m, r) \<Rightarrow> (w\<lparr>sw_out := m\<rparr>, e, st, r)),
      ad_postprocess = (\<lambda>j en w e st. case mailPostprocess env j en e st (sw_out w) of (m, r) \<Rightarrow> (w\<lparr>sw_out := m\<rparr>, e, r))\<rparr>"

interpretation mail_calls: async_adaptor "email_adaptor env" for env
  by unfold_locales (auto simp: email_adaptor_def mailInvoke_def not_sent_def outcome_simps Let_def mailPostprocess_def json_opt_at_def json_at_def
     split: prod.splits sum.splits option.splits if_splits)

text \<open>The head of the mail that calls a service; what follows the title is left to the engine.\<close>

definition relay_head :: string where
  "relay_head = ''<!DOCTYPE html>'' @ [CHR 0x0A] @ ''<html lang='' @ [CHR 0x22] @ ''en'' @ [CHR 0x22] @ ''>'' @ [CHR 0x0A] @ ''<head>'' @ [CHR 0x0A] @
     ''<meta charset='' @ [CHR 0x22] @ ''utf-8'' @ [CHR 0x22] @ ''>'' @ [CHR 0x0A] @ ''<!-- relay email title always ends with #relayId -->'' @ [CHR 0x0A]"

definition text_at :: "(rat \<Rightarrow> string) \<Rightarrow> string \<Rightarrow> json option \<Rightarrow> string" where
  "text_at num k v = (case json_opt_at k v of None \<Rightarrow> ''undefined'' | Some j \<Rightarrow> js_string num j)"

definition relay_title :: "(rat \<Rightarrow> string) \<Rightarrow> json \<Rightarrow> string" where
  "relay_title num it =
     ''[Callgent] Function calling: '' @ [CHR 39] @ text_at num ''name'' (json_at ''endpoint'' it) @ [CHR 39] @ '' of Callgent '' @
     text_at num ''callgentName'' (Some it) @ ''. #'' @ text_at num ''relayId'' (Some it)"

definition relay_mail :: "(rat \<Rightarrow> string) \<Rightarrow> (json \<Rightarrow> string) \<Rightarrow> json \<Rightarrow> string" where
  "relay_mail num rest it = relay_head @ title_open @ relay_title num it @ title_close @ rest it"

section \<open>Facts\<close>

lemma find_sub_skip:
  "pat \<noteq> [] \<Longrightarrow> hd pat \<notin> set pre \<Longrightarrow> find_sub pat (pre @ s) = map_option (\<lambda>n. n + length pre) (find_sub pat s)"
proof (induction pre)
  case Nil
  then show ?case by (cases "find_sub pat s") auto
next
  case (Cons x xs)
  then have "\<not> prefix pat (x # xs @ s)" by (cases pat) auto
  with Cons show ?case by (cases "find_sub pat s") auto
qed

lemma find_sub_here: "pat \<noteq> [] \<Longrightarrow> find_sub pat (pat @ s) = Some 0"
  by (cases pat) auto

lemma head_open: "find_sub title_open (relay_head @ title_open @ s) = Some (length relay_head)"
  by (simp add: relay_head_def title_open_def)

lemma head_close: "find_sub title_close (relay_head @ title_open @ s) = map_option (\<lambda>n. n + length relay_head + 7) (find_sub title_close s)"
  by (cases "find_sub title_close s") (simp_all add: relay_head_def title_open_def title_close_def)

lemma js_trim_solid: "s \<noteq> [] \<Longrightarrow> \<not> is_space (hd s) \<Longrightarrow> \<not> is_space (last s) \<Longrightarrow> js_trim s = s"
  by (cases s; cases "rev s" rule: rev_cases) (auto simp: js_trim_def dropWhile_eq_self_iff hd_append hd_rev split: if_splits)

lemma subject_of_mail:
  assumes "CHR ''<'' \<notin> set t" "t \<noteq> []" "\<not> is_space (hd t)" "\<not> is_space (last t)"
  shows "extractSubject (relay_head @ title_open @ t @ title_close @ rest) = Some t"
proof -
  have c: "find_sub title_close (t @ title_close @ rest) = Some (length t)"
    using assms(1) find_sub_skip [of title_close t "title_close @ rest"] find_sub_here [of title_close rest] by (simp add: title_close_def)
  have "index_of title_open (relay_head @ title_open @ t @ title_close @ rest) = int (length relay_head)"
    by (simp add: index_of_def head_open)
  moreover have "index_of title_close (relay_head @ title_open @ t @ title_close @ rest) = int (length t + length relay_head + 7)"
    by (simp add: index_of_def head_close c)
  moreover have "nat (int (length relay_head) + 7) = length (relay_head @ title_open)" by (simp add: title_open_def)
  ultimately have "js_substring (index_of title_open (relay_head @ title_open @ t @ title_close @ rest) + 7)
      (index_of title_close (relay_head @ title_open @ t @ title_close @ rest)) (relay_head @ title_open @ t @ title_close @ rest) = t"
    by (simp add: js_substring_def Let_def nat_add_distrib title_open_def)
  with assms show ?thesis by (simp add: extractSubject_def Let_def index_of_def head_open js_trim_solid)
qed

lemma after_last_hash: "CHR ''#'' \<notin> set i \<Longrightarrow> after_hash (pre @ CHR ''#'' # i) = i"
proof -
  assume i: "CHR ''#'' \<notin> set i"
  have "takeWhile (\<lambda>x. x \<noteq> CHR ''#'') (rev (pre @ CHR ''#'' # i)) = rev i" using i by simp (subst takeWhile_append2, auto)
  then have "lastIndexOf (CHR ''#'') (pre @ CHR ''#'' # i) = int (length pre)" by (simp add: lastIndexOf_def)
  then show ?thesis by (simp add: after_hash_def nat_add_distrib)
qed

text \<open>Sending twice formalises twice, which changes nothing.\<close>

lemma formalize_text: "formalizeEmails (Some (JStr (m # ms))) = Inr [JObj [(''name'', JStr (hd (split_char (CHR ''@'') (m # ms)))), (''email'', JStr (m # ms))]]"
  by (simp add: formalizeEmails_def formalizeEmail_def prop_of_def json_at_def Let_def del: split_char.simps)

lemma formalize_formal:
  "formalizeEmail (Some (JObj [(''name'', JStr n), (''email'', JStr (m # ms))])) =
    Inr (JObj [(''name'', JStr (if n = [] then hd (split_char (CHR ''@'') (m # ms)) else n)), (''email'', JStr (m # ms))])"
  "n \<noteq> [] \<Longrightarrow> formalizeEmail (Some (JObj [(''email'', JStr (m # ms)), (''name'', JStr n)])) = Inr (JObj [(''name'', JStr n), (''email'', JStr (m # ms))])"
  by (simp_all add: formalizeEmail_def prop_of_def json_at_def Let_def del: split_char.simps)

definition plain_address :: "string \<Rightarrow> json" where
  "plain_address m = JObj [(''name'', JStr (hd (split_char (CHR ''@'') m))), (''email'', JStr m)]"

definition posted_mail :: "string \<Rightarrow> json \<Rightarrow> string \<Rightarrow> string \<Rightarrow> json" where
  "posted_mail mailTo sender subject content =
     JObj [(''to'', JArr [plain_address mailTo]), (''sender'', sender), (''subject'', JStr subject), (''htmlContent'', JStr content),
           (''headers'', JObj [(''charset'', JStr ''UTF-8'')])]"

lemma sendTemplate_sends:
  assumes "mailTo \<noteq> []" "mailFrom \<noteq> []" "n \<noteq> []" "obj_get (me_templates env) template = Some f" "mw_answers w = Inr status # as"
    and "content = f (JObj (obj_set ''sender'' (JObj [(''name'', JStr n), (''email'', JStr mailFrom)]) (obj_set ''to'' (JArr [plain_address mailTo]) context)))"
    and "extractSubject content = Some subject" "subject \<noteq> []"
  shows "sendTemplateEmail env (Some (JStr mailTo)) template context (Some (JObj [(''email'', JStr mailFrom), (''name'', JStr n)])) w =
    (w\<lparr>mw_posted := mw_posted w @ [posted_mail mailTo (JObj [(''name'', JStr n), (''email'', JStr mailFrom)]) subject content], mw_answers := as\<rparr>,
     Inr (status < 300))"
proof -
  obtain m ms k ks where m: "mailTo = m # ms" "mailFrom = k # ks" using assms(1,2) by (cases mailTo; cases mailFrom) auto
  have plain: "formalizeEmails (Some (JStr mailTo)) = Inr [plain_address mailTo]" by (simp add: m formalize_text plain_address_def del: split_char.simps)
  have "hd (split_char (CHR ''@'') (m # ms)) = [] \<Longrightarrow> m = CHR ''@''" by (auto split: list.splits if_splits)
  then have again: "formalizeEmail (Some (plain_address mailTo)) = Inr (plain_address mailTo)"
    unfolding plain_address_def m by (subst formalize_formal) (auto simp del: split_char.simps)
  let ?s = "JObj [(''name'', JStr n), (''email'', JStr mailFrom)]"
  have s1: "sender_of env (Some (JObj [(''email'', JStr mailFrom), (''name'', JStr n)])) = Inr (Some ?s)"
    using assms(3) by (simp add: sender_of_def formalizeEmails_def m formalize_formal first_of_def)
  have s2: "sender_of env (Some ?s) = Inr (Some ?s)"
    using assms(3) by (simp add: sender_of_def formalizeEmails_def m formalize_formal first_of_def del: split_char.simps)
  have twice: "formalizeEmails (Some (JArr [plain_address mailTo])) = Inr [plain_address mailTo]" by (simp add: formalizeEmails_def again)
  show ?thesis
    using assms(4-8) by (simp add: sendTemplateEmail_def plain s1 render_def sendEmail_def twice s2 present_def posted_mail_def Let_def List.map_filter_def)
qed

definition mail_title :: "string \<Rightarrow> string \<Rightarrow> string \<Rightarrow> string" where
  "mail_title nm cg key = ''[Callgent] Function calling: '' @ [CHR 39] @ nm @ [CHR 39] @ '' of Callgent '' @ cg @ ''. #'' @ key"

lemma title_shape:
  assumes "CHR ''<'' \<notin> set nm \<union> set cg \<union> set key" "key \<noteq> []" "\<not> is_space (last key)"
  shows "CHR ''<'' \<notin> set (mail_title nm cg key)" "mail_title nm cg key \<noteq> []" "\<not> is_space (hd (mail_title nm cg key))" "\<not> is_space (last (mail_title nm cg key))"
  using assms by (auto simp: mail_title_def is_space_def)

definition mailed_data :: "mail_env \<Rightarrow> string \<Rightarrow> endpoint \<Rightarrow> string \<Rightarrow> string \<Rightarrow> string \<Rightarrow> json list \<Rightarrow> json list \<Rightarrow> json" where
  "mailed_data env mailTo en i eventId cg ps rs =
     JObj (obj_set ''sender'' (JObj [(''name'', JStr ''Callgent Invoker''), (''email'', JStr (getRelayAddress (me_host env) eventId ''request''))])
            (obj_set ''to'' (JArr [plain_address mailTo]) (mail_context env en i eventId cg ps rs)))"

lemma title_of_data:
  "json_at ''name'' (me_endpoint env (en_id en)) = Some (JStr nm) \<Longrightarrow>
   relay_title num (mailed_data env mailTo en i eventId cg ps rs) = mail_title nm cg (composeInvokeKey i eventId)"
  by (simp add: relay_title_def mailed_data_def mail_title_def text_at_def json_opt_at_def json_at_def mail_context_def)

lemma mailInvoke_sends:
  assumes entry: "sentry = Some y" "json_at ''host'' y = Some (JStr mailTo)" "mailTo \<noteq> []"
    and doc: "json_at ''name'' (me_endpoint env (en_id en)) = Some (JStr nm)"
    and ps: "params30x env (json_at ''params'' (me_endpoint env (en_id en))) args = Inr ps"
    and rs: "responses30x env (json_at ''responses'' (me_endpoint env (en_id en))) = Inr rs"
    and ctx: "ev_ctx e = Some c"
    and tpl: "obj_get (me_templates env) relay_template = Some (relay_mail num rest)"
    and ans: "mw_answers w = Inr status # as"
    and key: "CHR ''<'' \<notin> set nm \<union> set (cx_callgentName c) \<union> set (composeInvokeKey (is_invokeId st) (ev_id e))"
      "ev_id e \<noteq> []" "\<not> is_space (last (ev_id e))"
  shows "mailInvoke env en args sentry e st w =
    (w\<lparr>mw_posted := mw_posted w @ [posted_mail mailTo
          (JObj [(''name'', JStr ''Callgent Invoker''), (''email'', JStr (getRelayAddress (me_host env) (ev_id e) ''request''))])
          (mail_title nm (cx_callgentName c) (composeInvokeKey (is_invokeId st) (ev_id e)))
          (relay_mail num rest (mailed_data env mailTo en (is_invokeId st) (ev_id e) (cx_callgentName c) ps rs))], mw_answers := as\<rparr>,
     Inr (Some (if status < 300 then pending_response (Some pending_by_mail) else data_response (Some (not_sent env (Some (JStr mailTo)))))))"
proof -
  let ?key = "composeInvokeKey (is_invokeId st) (ev_id e)" and ?ctx = "mail_context env en (is_invokeId st) (ev_id e) (cx_callgentName c) ps rs"
  let ?data = "mailed_data env mailTo en (is_invokeId st) (ev_id e) (cx_callgentName c) ps rs"
  have k: "?key \<noteq> []" "\<not> is_space (last ?key)" using key(2,3) by (simp_all add: composeInvokeKey_def)
  have sub: "extractSubject (relay_mail num rest ?data) = Some (mail_title nm (cx_callgentName c) ?key)"
    unfolding relay_mail_def title_of_data [OF doc] by (rule subject_of_mail) (use title_shape [OF key(1) k] in auto)
  have "sendTemplateEmail env (Some (JStr mailTo)) relay_template ?ctx
      (Some (JObj [(''email'', JStr (getRelayAddress (me_host env) (ev_id e) ''request'')), (''name'', JStr ''Callgent Invoker'')])) w =
    (w\<lparr>mw_posted := mw_posted w @ [posted_mail mailTo
          (JObj [(''name'', JStr ''Callgent Invoker''), (''email'', JStr (getRelayAddress (me_host env) (ev_id e) ''request''))])
          (mail_title nm (cx_callgentName c) ?key) (relay_mail num rest ?data)], mw_answers := as\<rparr>, Inr (status < 300))"
    by (rule sendTemplate_sends [OF entry(3) _ _ tpl ans _ sub])
      (use title_shape [OF key(1) k] in \<open>simp_all add: getRelayAddress_def mailed_data_def\<close>)
  with entry ps rs ctx show ?thesis by (cases y) (auto simp: mailInvoke_def prop_of_def Let_def json_at_def)
qed

lemma mailInvoke_status: "is_invokeId st = is_invokeId st' \<Longrightarrow> mailInvoke env en args sentry e st w = mailInvoke env en args sentry e st' w"
  by (simp add: mailInvoke_def)

text \<open>An endpoint that needs no authorisation and no cache, behind a mail entry.\<close>

definition mail_endpoint :: "mail_env \<Rightarrow> mail_world sep_env \<Rightarrow> endpoint \<Rightarrow> bool" where
  "mail_endpoint m env en \<longleftrightarrow>
     (\<exists>f. realm_fun env ''checkSepAuth'' = Some f \<and> (\<forall>w e. f en w e = (w, e, Inr None))) \<and> (\<exists>n<0. en_cacheTtl en = Some n) \<and>
     get_adaptor env (en_adaptorKey en) = Some (email_adaptor m)"

lemma uncached:
  assumes "en_cacheTtl en = Some n" "n < 0"
  shows "fromCached ev i en e t db = (db, Inr \<lparr>h_cacheKey = None, h_cacheTtl = None, h_response = None\<rparr>)"
  using assms by (simp add: fromCached_def loadCacheConfig_def reallyCache_def)

lemma not_stored: "toCache None ttl r en i t db = (db, Inr False)"
  by (simp add: toCache_def reallyCache_def)

lemma chain_mailed:
  assumes "mail_endpoint m env en" and look: "lookup_ok e st en" and new: "is_processor st = None" "is_cacheKey st = None"
    and sent: "mailInvoke m en (is_args st) (find_entry env (en_entryId en)) e st (sw_out w) = (mw, Inr (Some (pending_response msg)))"
  shows "\<exists>st'. chain env q w e st = (w\<lparr>sw_out := mw\<rparr>, e, st', Inr (Some (pending_response msg))) \<and>
    at_processor (Some ''CallbackPostprocess'') None st' \<and> is_args st' = is_args st \<and> is_invokeId st' = is_invokeId st \<and> is_epName st' = is_epName st \<and>
    is_cacheKey st' = None"
proof -
  obtain f n where o: "realm_fun env ''checkSepAuth'' = Some f" "\<And>w e. f en w e = (w, e, Inr None)" "en_cacheTtl en = Some n" "n < 0"
    "get_adaptor env (en_adaptorKey en) = Some (email_adaptor m)" using assms(1) by (auto simp: mail_endpoint_def)
  have same: "mailInvoke m en (is_args st) (find_entry env (en_entryId en)) e st0 (sw_out w) = (mw, Inr (Some (pending_response msg)))"
    if "is_invokeId st0 = is_invokeId st" for st0 using mailInvoke_status [OF that] sent by simp
  show ?thesis
    unfolding chain_lookup [OF look] invoke_chain_def
    using new o(1,2,5) uncached [OF o(3,4)] not_stored same
    by (simp add: process_auth_def process_cached_def process_invoke_def process_postprocess_def process_cache_def email_adaptor_def
        proc_ctx_def enter_proc_def is_at_def advance_def sep_end_def sep_break_def upd_proc_def at_processor_def Let_def)
qed

lemma chain_unsent:
  assumes "mail_endpoint m env en" and look: "lookup_ok e st en" and new: "is_processor st = None" "is_cacheKey st = None"
    and sent: "mailInvoke m en (is_args st) (find_entry env (en_entryId en)) e st (sw_out w) = (mw, Inr (Some (data_response (Some (not_sent m t)))))"
  shows "\<exists>st'. chain env q w e st = (w\<lparr>sw_out := mw\<rparr>, e, st', Inl (BadRequest (''Missing response for reqEvent#'' @ ev_id e)))"
proof -
  obtain f n where o: "realm_fun env ''checkSepAuth'' = Some f" "\<And>w e. f en w e = (w, e, Inr None)" "en_cacheTtl en = Some n" "n < 0"
    "get_adaptor env (en_adaptorKey en) = Some (email_adaptor m)" using assms(1) by (auto simp: mail_endpoint_def)
  have same: "mailInvoke m en (is_args st) (find_entry env (en_entryId en)) e st0 (sw_out w) = (mw, Inr (Some (data_response (Some (not_sent m t)))))"
    if "is_invokeId st0 = is_invokeId st" for st0 using mailInvoke_status [OF that] sent by simp
  show ?thesis
    unfolding chain_lookup [OF look] invoke_chain_def
    using new o(1,2,5) uncached [OF o(3,4)] same
    by (simp add: process_auth_def process_cached_def process_invoke_def process_postprocess_def email_adaptor_def
        mailPostprocess_def json_opt_at_def not_sent_def json_at_def
        proc_ctx_def enter_proc_def is_at_def advance_def upd_proc_def Let_def)
qed

lemma chain_replied:
  assumes "mail_endpoint m env en" and look: "lookup_ok e st en" and at_cb: "at_processor (Some ''CallbackPostprocess'') None st" and "is_cacheKey st = None"
    and post: "mailPostprocess m (is_response st) en e st (sw_out w) = (mw, r)"
  shows "(\<forall>err. r = Inl err \<longrightarrow> (\<exists>st'. chain env q w e st = (w\<lparr>sw_out := mw\<rparr>, e, st', Inl err))) \<and>
    (\<forall>d. r = Inr d \<longrightarrow> (\<exists>st'. chain env q w e st = (w\<lparr>sw_out := q [] mw\<rparr>, e, st', Inr (Some (data_response d))) \<and> at_processor None None st'))"
proof -
  have ad: "get_adaptor env (en_adaptorKey en) = Some (email_adaptor m)" using assms(1) by (simp add: mail_endpoint_def)
  show ?thesis
    using at_cb ad post assms(4)
    by (auto simp: chain_at_callback [OF look at_cb] at_processor_def process_postprocess_def process_callback_def enter_proc_def is_at_def advance_def
        email_adaptor_def updateCache_def reallyCache_def Let_def)
qed

lemma relay_of_request:
  assumes "re_rcpt_to r = Some (getRelayAddress mailHost i ''request'')" "re_content r = Some ct" "ct_subject ct = Some (pre @ CHR ''#'' # key)" "CHR ''#'' \<notin> set key"
  shows "handleRelayEmail mailHost (Some r) = Inr (Some \<lparr>rv_key = RelayRequest, rv_id = key, rv_email = r\<rparr>)"
proof -
  have "suffix mailHost (getRelayAddress mailHost i ''request'')"
    unfolding getRelayAddress_def suffix_def by (rule exI [of _ "''request'' @ ''+'' @ i @ ''@''"]) simp
  moreover have "cut_at (CHR ''+'') (getRelayAddress mailHost i ''request'') = Some (''request'', i @ ''@'' @ mailHost)"
    by (simp add: getRelayAddress_def)
  ultimately show ?thesis using assms by (simp add: handleRelayEmail_def after_last_hash Let_def)
qed

lemma parse_compose: "CHR ''-'' \<notin> set i \<Longrightarrow> parseInvokeKey (composeInvokeKey i e) = (i, e)"
  by (simp add: parseInvokeKey_def composeInvokeKey_def cut_at_app)

section \<open>Properties\<close>

text \<open>C33. A service that is called by mail: the first run of the chain posts one mail to the host of the
  entry and leaves the invocation pending; whatever reply comes to the sender of that mail, with a subject that ends
  with the subject of the mail, is relayed to the request with a key that names this invocation and this event.\<close>

theorem mail_roundtrip:
  assumes "mail_endpoint m env en" and "lookup_ok e st en" and "is_processor st = None" "is_cacheKey st = None"
    and "find_entry env (en_entryId en) = Some y" "json_at ''host'' y = Some (JStr mailTo)" "mailTo \<noteq> []"
    and "json_at ''name'' (me_endpoint m (en_id en)) = Some (JStr nm)"
    and "params30x m (json_at ''params'' (me_endpoint m (en_id en))) (is_args st) = Inr ps"
    and "responses30x m (json_at ''responses'' (me_endpoint m (en_id en))) = Inr rs"
    and "ev_ctx e = Some c" and "obj_get (me_templates m) relay_template = Some (relay_mail num rest)"
    and "mw_answers (sw_out w) = Inr status # as" "status < 300"
    and "CHR ''<'' \<notin> set nm \<union> set (cx_callgentName c) \<union> set (composeInvokeKey (is_invokeId st) (ev_id e))"
      "ev_id e \<noteq> []" "\<not> is_space (last (ev_id e))" "CHR ''#'' \<notin> set (composeInvokeKey (is_invokeId st) (ev_id e))" "CHR ''-'' \<notin> set (is_invokeId st)"
  shows "\<exists>w1 st1 mail. chain env q w e st = (w1, e, st1, Inr (Some (pending_response (Some pending_by_mail)))) \<and>
    at_processor (Some ''CallbackPostprocess'') None st1 \<and> mw_posted (sw_out w1) = mw_posted (sw_out w) @ [mail] \<and>
    json_at ''to'' mail = Some (JArr [plain_address mailTo]) \<and>
    (\<forall>r ct pre subject sender. json_opt_at ''email'' (json_at ''sender'' mail) = Some (JStr sender) \<longrightarrow> re_rcpt_to r = Some sender \<longrightarrow> json_at ''subject'' mail = Some (JStr subject) \<longrightarrow>
       re_content r = Some ct \<longrightarrow> ct_subject ct = Some (pre @ subject) \<longrightarrow>
       (\<exists>k. handleRelayEmail (me_host m) (Some r) = Inr (Some \<lparr>rv_key = RelayRequest, rv_id = k, rv_email = r\<rparr>) \<and>
            parseInvokeKey k = (is_invokeId st, ev_id e)))"
proof -
  let ?key = "composeInvokeKey (is_invokeId st) (ev_id e)" and ?title = "mail_title nm (cx_callgentName c)"
  let ?from = "getRelayAddress (me_host m) (ev_id e) ''request''"
  note sends = mailInvoke_sends [OF assms(5-13) assms(15-17), simplified assms(14) if_True]
  obtain mail mw where mw: "mailInvoke m en (is_args st) (find_entry env (en_entryId en)) e st (sw_out w) = (mw, Inr (Some (pending_response (Some pending_by_mail))))"
    "mw_posted mw = mw_posted (sw_out w) @ [mail]" "json_at ''to'' mail = Some (JArr [plain_address mailTo])"
    "json_opt_at ''email'' (json_at ''sender'' mail) = Some (JStr ?from)" "json_at ''subject'' mail = Some (JStr (?title ?key))"
    using sends by (simp add: assms(5) posted_mail_def json_at_def json_opt_at_def)
  obtain st' where ch: "chain env q w e st = (w\<lparr>sw_out := mw\<rparr>, e, st', Inr (Some (pending_response (Some pending_by_mail))))"
    "at_processor (Some ''CallbackPostprocess'') None st'"
    using chain_mailed [OF assms(1-4) mw(1)] by blast
  have "\<exists>k. handleRelayEmail (me_host m) (Some r) = Inr (Some \<lparr>rv_key = RelayRequest, rv_id = k, rv_email = r\<rparr>) \<and> parseInvokeKey k = (is_invokeId st, ev_id e)"
    if r: "re_rcpt_to r = Some ?from" "re_content r = Some ct" "ct_subject ct = Some (pre @ ?title ?key)" for r ct pre
  proof -
    have "pre @ ?title ?key = (pre @ ''[Callgent] Function calling: '' @ [CHR 39] @ nm @ [CHR 39] @ '' of Callgent '' @ cx_callgentName c @ ''. '') @ CHR ''#'' # ?key"
      by (simp add: mail_title_def)
    from relay_of_request [OF r(1,2) r(3) [unfolded this] assms(18)] parse_compose [OF assms(19)] show ?thesis by blast
  qed
  with ch mw(2-5) show ?thesis by (intro exI [of _ "w\<lparr>sw_out := mw\<rparr>"] exI [of _ st'] exI [of _ mail]) auto
qed

text \<open>The reply to a mail ends the invocation that waits for it: a reply with a body is converted by the
  language model, the result is the answer of the service and no processor is left; a reply without one is a bad
  request.\<close>

theorem mail_reply_answers:
  assumes "mail_endpoint m env en" and "lookup_ok e st en" and "at_processor (Some ''CallbackPostprocess'') None st" and "is_cacheKey st = None"
    and "is_response st = Some (relay_json r)" and "re_content r = Some ct"
  shows "(\<not> nonempty_str (ct_html ct) \<longrightarrow>
      (\<exists>st1. chain env q w e st = (w, e, st1, Inl (BadRequest (''Missing response for reqEvent#'' @ ev_id e))))) \<and>
    (\<forall>l x. nonempty_str (ct_html ct) \<longrightarrow>
       convert2Response (me_llm m) (args_of (is_args st)) (str_or (ct_text ct) (the (ct_html ct))) (me_endpoint m (en_id en)) (paidBy e) (mw_llm (sw_out w)) = (l, Inr x) \<longrightarrow>
       (\<exists>st1. chain env q w e st = (w\<lparr>sw_out := q [] ((sw_out w)\<lparr>mw_llm := l\<rparr>)\<rparr>, e, st1, Inr (Some (data_response (generated x)))) \<and>
          at_processor None None st1))"
proof -
  have content: "json_opt_at ''html'' (json_opt_at ''content'' (is_response st)) = map_option JStr (ct_html ct)"
    "json_opt_at ''text'' (json_opt_at ''content'' (is_response st)) = map_option JStr (ct_text ct)"
    by (cases "ct_subject ct"; cases "ct_html ct"; cases "ct_text ct"; cases "re_rcpt_to r";
        simp add: assms(5,6) relay_json_def present_def json_opt_at_def json_at_def List.map_filter_def)+
  have none: "mailPostprocess m (is_response st) en e st (sw_out w) = (sw_out w, Inl (BadRequest (''Missing response for reqEvent#'' @ ev_id e)))"
    if "\<not> nonempty_str (ct_html ct)"
    using that by (simp add: mailPostprocess_def Let_def content nonempty_str_def split: option.splits)
  have some: "mailPostprocess m (is_response st) en e st (sw_out w) = ((sw_out w)\<lparr>mw_llm := l\<rparr>, Inr (generated x))"
    if "nonempty_str (ct_html ct)" "convert2Response (me_llm m) (args_of (is_args st)) (str_or (ct_text ct) (the (ct_html ct))) (me_endpoint m (en_id en)) (paidBy e)
      (mw_llm (sw_out w)) = (l, Inr x)" for l x
    using that by (cases "ct_html ct"; cases "ct_text ct") (simp_all add: mailPostprocess_def Let_def content nonempty_str_def str_or_def split: if_splits)
  from chain_replied [OF assms(1-4) none, where q = q] chain_replied [OF assms(1-4) some, where q = q] show ?thesis by auto
qed

definition ex_mail_env :: mail_env where
  "ex_mail_env = \<lparr>me_host = ''relay.io'', me_sender = JNull, me_templates = [(relay_template, relay_mail (\<lambda>_. ''0'') (\<lambda>_. []))], me_num = (\<lambda>_. ''0''),
     me_dump = (\<lambda>_. ''j''), me_status = (\<lambda>_. None), me_endpoint = (\<lambda>_. JObj [(''name'', JStr ''GET /pets''), (''params'', JObj [])]),
     me_llm = ex_says (JObj [(''status'', JNum 200), (''data'', JNum 2)])\<rparr>"

definition ex_mail_sep :: "mail_world sep_env" where
  "ex_mail_sep = (plain_env None None)\<lparr>get_adaptor := (\<lambda>_. Some (email_adaptor ex_mail_env)), find_entry := (\<lambda>_. Some (JObj [(''host'', JStr ''a@b.c'')]))\<rparr>"

definition ex_mail_ep :: endpoint where
  "ex_mail_ep = (CachedStore.ex_endpoint True None)\<lparr>en_cacheTtl := Some (- 1)\<rparr>"

definition ex_mail_world :: "int \<Rightarrow> mail_world sep_world" where
  "ex_mail_world n = SepChain.ex_world \<lparr>mw_posted = [], mw_answers = [Inr n], mw_llm = ex_prompted ''convert2Response''\<rparr>"

lemma ex_mail_endpoint: "mail_endpoint ex_mail_env ex_mail_sep ex_mail_ep"
  by (simp add: mail_endpoint_def ex_mail_sep_def plain_env_def ex_mail_ep_def)

lemma ex_mail_lookup: "is_epName st = Some ''GET /pets'' \<Longrightarrow> lookup_ok (ex_event_for ex_mail_ep) st ex_mail_ep"
  by (rule ex_lookup) (simp add: ex_mail_ep_def CachedStore.ex_endpoint_def)

theorem mail_roundtrip_witness:
  "\<exists>w1 st1 mail. chain ex_mail_sep (\<lambda>_ w. w) (ex_mail_world 201) (ex_event_for ex_mail_ep) (fresh_status [] (Some ''GET /pets'') None) =
      (w1, ex_event_for ex_mail_ep, st1, Inr (Some (pending_response (Some pending_by_mail)))) \<and>
    at_processor (Some ''CallbackPostprocess'') None st1 \<and> mw_posted (sw_out w1) = [mail] \<and>
    json_at ''to'' mail = Some (JArr [plain_address ''a@b.c''])"
proof -
  let ?st = "fresh_status [] (Some ''GET /pets'') None" and ?e = "ex_event_for ex_mail_ep"
  have "\<exists>w1 st1 mail. chain ex_mail_sep (\<lambda>_ w. w) (ex_mail_world 201) ?e ?st = (w1, ?e, st1, Inr (Some (pending_response (Some pending_by_mail)))) \<and>
    at_processor (Some ''CallbackPostprocess'') None st1 \<and> mw_posted (sw_out w1) = mw_posted (sw_out (ex_mail_world 201)) @ [mail] \<and>
    json_at ''to'' mail = Some (JArr [plain_address ''a@b.c'']) \<and>
    (\<forall>r ct pre subject sender. json_opt_at ''email'' (json_at ''sender'' mail) = Some (JStr sender) \<longrightarrow> re_rcpt_to r = Some sender \<longrightarrow>
       json_at ''subject'' mail = Some (JStr subject) \<longrightarrow> re_content r = Some ct \<longrightarrow> ct_subject ct = Some (pre @ subject) \<longrightarrow>
       (\<exists>k. handleRelayEmail (me_host ex_mail_env) (Some r) = Inr (Some \<lparr>rv_key = RelayRequest, rv_id = k, rv_email = r\<rparr>) \<and>
            parseInvokeKey k = (is_invokeId ?st, ev_id ?e)))"
    by (rule mail_roundtrip [OF ex_mail_endpoint ex_mail_lookup, where y = "JObj [(''host'', JStr ''a@b.c'')]" and nm = "''GET /pets''" and ps = "[]" and rs = "[]" and num = "\<lambda>_. ''0''"
          and rest = "\<lambda>_. []" and status = 201 and as = "[]" and c = "ex_ctx\<lparr>cx_endpoints := [ex_mail_ep]\<rparr>"])
      (simp_all add: ex_mail_lookup fresh_status_def ex_mail_sep_def ex_mail_env_def json_at_def params30x_def prop_of_def each_of_def responses30x_def ex_event_for_def
        ex_mail_world_def SepChain.ex_world_def ex_ctx_def ex_request_def composeInvokeKey_def is_space_def clientRequestEvent_def newEvent_def)
  then show ?thesis by (auto simp: ex_mail_world_def SepChain.ex_world_def)
qed

definition ex_reply :: relay_email where
  "ex_reply = \<lparr>re_rcpt_to = None, re_content = Some \<lparr>ct_subject = None, ct_html = Some ''two pets'', ct_text = None\<rparr>\<rparr>"

definition ex_waiting :: invoke_status where
  "ex_waiting = (fresh_status [] (Some ''GET /pets'') None)\<lparr>is_response := Some (relay_json ex_reply),
     is_processor := Some \<lparr>p_name = Some ''CallbackPostprocess'', p_ctx = None, p_break = None\<rparr>\<rparr>"

theorem mail_reply_answers_witness:
  "\<exists>w1 st1. chain ex_mail_sep (\<lambda>_ w. w) (ex_mail_world 201) (ex_event_for ex_mail_ep) ex_waiting =
     (w1, ex_event_for ex_mail_ep, st1, Inr (Some (data_response (Some (JObj [(''status'', JNum 200), (''data'', JNum 2)]))))) \<and> at_processor None None st1"
proof -
  let ?e = "ex_event_for ex_mail_ep" and ?j = "JObj [(''status'', JNum 200), (''data'', JNum 2)]" and ?args = "JObj [(''requestArgs'', JArr []), (''resp'', JStr ''two pets''),
      (''ep'', JObj [(''name'', JStr ''GET /pets''), (''params'', JObj [])])]"
  have "\<exists>l. query (ex_says ?j) ''convert2Response'' ?args (spec_of convert_schema (Some ''u'') None) (ex_prompted ''convert2Response'') = (l, Inr (P_json (Some ?j)))"
    by (rule ex_query, simp_all add: spec_of_def convert_schema_def ex_says_def ex_llm_env_def parseResultSchema_def toJSON_def js_trim_def is_space_def
        to_lower_def lower_char_def fence_split.simps fence_match_def toJSON_parse_def checkJsonType_def js_entries_def check_entry_def own_value_def json_at_def)
  then obtain l where "convert2Response (me_llm ex_mail_env) (args_of (is_args ex_waiting)) ''two pets'' (me_endpoint ex_mail_env (en_id ex_mail_ep)) (Some ''u'')
      (mw_llm (sw_out (ex_mail_world 201))) = (l, Inr (P_json (Some ?j)))"
    by (auto simp: convert2Response_def ex_mail_env_def args_of_def ex_waiting_def fresh_status_def ex_mail_world_def SepChain.ex_world_def)
  moreover have "paidBy ?e = Some ''u''" by (simp add: ex_event_for_def ex_request_def clientRequestEvent_def newEvent_def)
  ultimately show ?thesis
    using mail_reply_answers [OF ex_mail_endpoint, of ?e ex_waiting ex_reply "the (re_content ex_reply)" "\<lambda>_ w. w" "ex_mail_world 201"]
    by (auto simp: ex_mail_lookup ex_waiting_def fresh_status_def at_processor_def ex_reply_def generated_def)
qed

text \<open>A mail that the service refuses to send is answered as a bad request: the response with status 500 goes
  through the postprocessing of replies, which finds no body in it.\<close>

theorem unsent_mail_fails:
  assumes "mail_endpoint m env en" and "lookup_ok e st en" and "is_processor st = None" "is_cacheKey st = None"
    and "find_entry env (en_entryId en) = Some y" "json_at ''host'' y = Some (JStr mailTo)" "mailTo \<noteq> []"
    and "json_at ''name'' (me_endpoint m (en_id en)) = Some (JStr nm)"
    and "params30x m (json_at ''params'' (me_endpoint m (en_id en))) (is_args st) = Inr ps"
    and "responses30x m (json_at ''responses'' (me_endpoint m (en_id en))) = Inr rs"
    and "ev_ctx e = Some c" and "obj_get (me_templates m) relay_template = Some (relay_mail num rest)"
    and "mw_answers (sw_out w) = Inr status # as" "300 \<le> status"
    and "CHR ''<'' \<notin> set nm \<union> set (cx_callgentName c) \<union> set (composeInvokeKey (is_invokeId st) (ev_id e))"
      "ev_id e \<noteq> []" "\<not> is_space (last (ev_id e))"
  shows "\<exists>w1 st1. chain env q w e st = (w1, e, st1, Inl (BadRequest (''Missing response for reqEvent#'' @ ev_id e)))"
proof -
  have no: "\<not> status < 300" using assms(14) by simp
  note sends = mailInvoke_sends [OF assms(5-13) assms(15-17), simplified no if_False, folded assms(5)]
  show ?thesis using chain_unsent [OF assms(1-4) sends] by blast
qed

text \<open>Relayed mails are handled for the client of the relay only, unless the host of the relay contains
  the word test.\<close>

lemma relay_needs_client:
  assumes "handleRelayEvent verify mailHost clientId authorization relays = (evs, r)" and "evs \<noteq> []"
  shows "find_sub ''test'' mailHost \<noteq> None \<or> verify (map_option (drop 7) authorization) = Inr (Some clientId)"
  using assms by (auto simp: handleRelayEvent_def outcome_simps split: sum.splits if_splits option.splits)

lemma test_host_relays_all: "handleRelayEvent verify ''latest.io'' clientId None (Some ms) = relay_all ''latest.io'' ms"
  by (simp add: handleRelayEvent_def)

end
