(* ===== verification/WebPages.thy ===== *)
theory WebPages
  imports Emails
begin

text \<open>
  \<open>src/entries/adaptors/builtin/web/webpage.service.ts\<close>: the generation of a page, step by step by the
  language model: views, components of each view, the code of components, stores and views. Values
  are JSON; an undefined value of a key is a missing key. Names are compared as values. The keys of objects are no
  array indices, and named properties set on an array are not kept, as JSON does not show them.
  The list of component packages is a field of the service: a request that never replaces it by a list of its own
  changes it for all later ones.
\<close>

section \<open>Steps with a state and errors\<close>

definition bindp :: "('s \<Rightarrow> 's \<times> 'a result) \<Rightarrow> ('a \<Rightarrow> 's \<Rightarrow> 's \<times> 'b result) \<Rightarrow> 's \<Rightarrow> 's \<times> 'b result" where
  "bindp m f s = (case m s of (s1, Inl e) \<Rightarrow> (s1, Inl e) | (s1, Inr a) \<Rightarrow> f a s1)"

definition liftp :: "'a result \<Rightarrow> 's \<Rightarrow> 's \<times> 'a result" where
  "liftp r s = (s, r)"

fun foldp :: "('x \<Rightarrow> 'a \<Rightarrow> 's \<Rightarrow> 's \<times> 'a result) \<Rightarrow> 'x list \<Rightarrow> 'a \<Rightarrow> 's \<Rightarrow> 's \<times> 'a result" where
  "foldp f [] a = liftp (Inr a)"
| "foldp f (x # xs) a = bindp (f x a) (foldp f xs)"

section \<open>Values\<close>

definition key_of :: "(rat \<Rightarrow> string) \<Rightarrow> json option \<Rightarrow> string" where
  "key_of num v = (case v of None \<Rightarrow> ''undefined'' | Some j \<Rightarrow> js_string num j)"

definition or_null :: "json option \<Rightarrow> json" where
  "or_null v = (case v of None \<Rightarrow> JNull | Some j \<Rightarrow> j)"

definition array_of :: "json option \<Rightarrow> json list result" where
  "array_of v = (case v of Some (JArr xs) \<Rightarrow> Inr xs | _ \<Rightarrow> Inl (TypeError ''not a function''))"

text \<open>\<open>...v\<close> in an array.\<close>

definition iterate :: "json option \<Rightarrow> json list result" where
  "iterate v =
     (case v of
        Some (JArr xs) \<Rightarrow> Inr xs
      | Some (JStr s) \<Rightarrow> Inr (map (\<lambda>c. JStr [c]) s)
      | _ \<Rightarrow> Inl (TypeError ''object is not iterable''))"

text \<open>\<open>[...new Set(xs)]\<close>: equal primitive values once; objects and arrays are all different.\<close>

fun primitive :: "json \<Rightarrow> bool" where
  "primitive (JArr _) = False" | "primitive (JObj _) = False" | "primitive _ = True"

definition add_new :: "json \<Rightarrow> json list \<Rightarrow> json list" where
  "add_new x acc = (if primitive x \<and> x \<in> set acc then acc else acc @ [x])"

definition js_unique :: "json list \<Rightarrow> json list" where
  "js_unique xs = fold add_new xs []"

text \<open>\<open>v?.length\<close> as a condition.\<close>

definition has_length :: "json option \<Rightarrow> bool" where
  "has_length v =
     (case v of Some (JArr xs) \<Rightarrow> xs \<noteq> [] | Some (JStr s) \<Rightarrow> s \<noteq> [] | Some (JObj kvs) \<Rightarrow> truthy_opt (obj_get kvs ''length'') | _ \<Rightarrow> False)"

definition typeof_object :: "json \<Rightarrow> bool" where
  "typeof_object j \<longleftrightarrow> (case j of JNull \<Rightarrow> True | JArr _ \<Rightarrow> True | JObj _ \<Rightarrow> True | _ \<Rightarrow> False)"

text \<open>\<open>t[k]\<close> and \<open>t[k] = v\<close>; a gap in an array reads as \<open>null\<close>, writing to a primitive value throws.\<close>

definition index_key :: "string \<Rightarrow> nat option" where
  "index_key k = (case parse_int k of Some i \<Rightarrow> if 0 \<le> i \<and> show_int i = k then Some (nat i) else None | None \<Rightarrow> None)"

definition js_get :: "json \<Rightarrow> string \<Rightarrow> json option result" where
  "js_get t k =
     (case t of
        JNull \<Rightarrow> Inl (TypeError ''Cannot read properties of null'')
      | JObj kvs \<Rightarrow> Inr (obj_get kvs k)
      | JArr xs \<Rightarrow> Inr (case index_key k of Some i \<Rightarrow> if i < length xs then Some (xs ! i) else None | None \<Rightarrow> None)
      | _ \<Rightarrow> Inr None)"

definition js_put :: "json \<Rightarrow> string \<Rightarrow> json \<Rightarrow> json result" where
  "js_put t k v =
     (case t of
        JObj kvs \<Rightarrow> Inr (JObj (obj_set k v kvs))
      | JArr xs \<Rightarrow> Inr (JArr (case index_key k of
          Some i \<Rightarrow> if i < length xs then xs[i := v] else xs @ replicate (i - length xs) JNull @ [v]
        | None \<Rightarrow> xs))
      | _ \<Rightarrow> Inl (TypeError ''Cannot create property''))"

section \<open>Merging the states of a store\<close>

definition type_conflict :: "(json \<Rightarrow> string) \<Rightarrow> json \<Rightarrow> json \<Rightarrow> js_error" where
  "type_conflict show a b = PlainError (''type conflict, cannot merge, src: '' @ show a @ '', target: '' @ show b)"

fun sizes :: "(string \<times> json) list \<Rightarrow> nat" where
  "sizes [] = 0" | "sizes ((k, v) # r) = size v + 1 + sizes r"

lemma sizes_obj: "sizes kvs < size (JObj kvs)"
  by (induction kvs) auto

lemma sizes_arr: "sizes (map (\<lambda>(i, x). (show_nat i, x)) (enumerate n xs)) < size (JArr xs)"
  by (induction xs arbitrary: n) (auto simp: less_Suc_eq_le Suc_le_eq)

lemma size_first: "size v < size (JArr (v # xs))"
  by simp

text \<open>\<open>_deepMerge\<close>, with the key that is merged and the rest of the keys.\<close>

function (sequential) deepMerge :: "(json \<Rightarrow> string) \<Rightarrow> json \<Rightarrow> json \<Rightarrow> json result"
  and mergeAll :: "(json \<Rightarrow> string) \<Rightarrow> json \<Rightarrow> (string \<times> json) list \<Rightarrow> json result"
  and mergeAt :: "(json \<Rightarrow> string) \<Rightarrow> json \<Rightarrow> string \<Rightarrow> json \<Rightarrow> json result" where
  "deepMerge show t JNull = Inl (TypeError ''Cannot convert undefined or null to object'')"
| "deepMerge show t (JObj kvs) = mergeAll show t kvs"
| "deepMerge show t (JArr xs) = mergeAll show t (map (\<lambda>(i, x). (show_nat i, x)) (enumerate 0 xs))"
| "deepMerge show t _ = Inr t"
| "mergeAll show t [] = Inr t"
| "mergeAll show t ((k, v) # r) = and_then (mergeAt show t k v) (\<lambda>t'. mergeAll show t' r)"
| "mergeAt show t k v =
     (if \<not> truthy v then Inr t
      else and_then (js_get t k) (\<lambda>cur.
        if \<not> truthy_opt cur then js_put t k v
        else (case v of
                JArr [] \<Rightarrow> Inr t
              | JArr (v0 # _) \<Rightarrow>
                  if \<not> has_length cur then js_put t k v
                  else (case the cur of
                          JArr (t0 # ts) \<Rightarrow>
                            if \<not> typeof_object t0 then js_put t k (JArr (v0 # ts))
                            else if \<not> typeof_object v0 then Inl (type_conflict show v0 t0)
                            else and_then (deepMerge show t0 v0) (\<lambda>c. js_put t k (JArr (c # ts)))
                        | JObj kvs \<Rightarrow>
                            (case obj_get kvs ''0'' of
                               Some t0 \<Rightarrow>
                                 if \<not> typeof_object t0 then js_put t k (JObj (obj_set ''0'' v0 kvs))
                                 else if \<not> typeof_object v0 then Inl (type_conflict show v0 t0)
                                 else and_then (deepMerge show t0 v0) (\<lambda>c. js_put t k (JObj (obj_set ''0'' c kvs)))
                             | None \<Rightarrow> js_put t k (JObj (obj_set ''0'' v0 kvs)))
                        | _ \<Rightarrow> Inl (TypeError ''Cannot assign to read only property''))
              | JObj _ \<Rightarrow> if \<not> typeof_object (the cur) then js_put t k v else and_then (deepMerge show (the cur) v) (\<lambda>c. js_put t k c)
              | _ \<Rightarrow> js_put t k v)))"
  by pat_completeness auto
termination
  by (relation "measure (\<lambda>x. case x of Inl (_, _, s) \<Rightarrow> 2 * size s | Inr (Inl (_, _, kvs)) \<Rightarrow> 2 * sizes kvs | Inr (Inr (_, _, _, v)) \<Rightarrow> 2 * size v + 1)")
    (auto simp: sizes_obj sizes_arr less_Suc_eq size_first simp del: json.size)

section \<open>Designing views and components\<close>

record page_env =
  pe_llm :: llm_env
  pe_num :: "rat \<Rightarrow> string"
  pe_siteUrl :: string
  pe_store :: "json list"
  pe_endpoints :: "json list"
  pe_callgent :: json
  pe_event :: json
  pe_payer :: "string option"

record page_world =
  pw_llm :: llm_world
  pw_component :: "json list"

definition ask :: "(llm_world \<Rightarrow> llm_world \<times> parsed result) \<Rightarrow> page_world \<Rightarrow> page_world \<times> json option result" where
  "ask q w = (case q (pw_llm w) of (l, Inl e) \<Rightarrow> (w\<lparr>pw_llm := l\<rparr>, Inl e) | (l, Inr r) \<Rightarrow> (w\<lparr>pw_llm := l\<rparr>, Inr (generated r)))"

fun fold_result :: "('x \<Rightarrow> 'a \<Rightarrow> 'a result) \<Rightarrow> 'x list \<Rightarrow> 'a \<Rightarrow> 'a result" where
  "fold_result f [] a = Inr a"
| "fold_result f (x # xs) a = and_then (f x a) (fold_result f xs)"

definition genRoutes :: "page_env \<Rightarrow> json option \<Rightarrow> page_world \<Rightarrow> page_world \<times> json list result" where
  "genRoutes env requirement =
     bindp (ask (genVue1Route (pe_llm env)
        (present [(''event'', Some (pe_event env)), (''callgent'', Some (pe_callgent env)), (''requirement'', requirement)]) (pe_payer env)))
       (\<lambda>r. liftp (array_of r))"

definition viewMap :: "page_env \<Rightarrow> json list \<Rightarrow> json obj result" where
  "viewMap env views =
     and_then (map_result (\<lambda>v. prop_of ''name'' (Some v)) views) (\<lambda>ns.
       Inr (fold (\<lambda>(n, v). obj_set (key_of (pe_num env) n) v) (zip ns views) []))"

text \<open>An endpoint for the prompt: the names of its parameters and the schema of its body.\<close>

definition prompt_endpoint :: "json \<Rightarrow> json result" where
  "prompt_endpoint e =
     (let params = json_at ''params'' e
      in and_then (case json_opt_at ''parameters'' params of
                     None \<Rightarrow> Inr [] | Some JNull \<Rightarrow> Inr []
                   | ps \<Rightarrow> and_then (array_of ps) (map_result (\<lambda>p. and_then (prop_of ''name'' (Some p)) (\<lambda>n. Inr (or_null n))))) (\<lambda>names.
         and_then (prop_of ''requestBody'' params) (\<lambda>body.
           let content = json_opt_at ''content'' body
           in and_then (if \<not> truthy_opt content then Inr []
                        else and_then (js_entries content) (\<lambda>kvs. and_then (prop_of ''schema'' (case kvs of [] \<Rightarrow> None | (_, c) # _ \<Rightarrow> Some c)) (\<lambda>sc. Inr [or_null sc])))
                (\<lambda>schema. Inr (JObj (obj_set ''params'' (JArr (names @ schema)) (spread e)))))))"

definition endpoint_names :: "page_env \<Rightarrow> string list" where
  "endpoint_names env = List.map_filter (\<lambda>e. str_at ''name'' e) (pe_endpoints env)"

text \<open>The components by name. A component that is known gets another view, and is refined by the new answer.\<close>

type_synonym components = "json obj obj"

definition add_component :: "json option \<Rightarrow> string \<times> json \<Rightarrow> components \<Rightarrow> components result" where
  "add_component viewName nc cs =
     (case nc of (name, cmpt) \<Rightarrow>
        (case obj_get cs name of
           Some cp \<Rightarrow>
             (case obj_get cp ''inViews'' of
                Some (JArr vs) \<Rightarrow> Inr (obj_set name (fold (\<lambda>(k, v). obj_set k v) (spread cmpt) (obj_set ''inViews'' (JArr (vs @ [or_null viewName])) cp)) cs)
              | _ \<Rightarrow> Inl (TypeError ''push is not a function''))
         | None \<Rightarrow> Inr (obj_set name (obj_set ''inViews'' (JArr [or_null viewName]) (spread cmpt)) cs)))"

definition components_json :: "components \<Rightarrow> json" where
  "components_json cs = JObj (map (\<lambda>(n, kvs). (n, JObj kvs)) cs)"

definition genComponents :: "page_env \<Rightarrow> json list \<Rightarrow> json list \<Rightarrow> json \<Rightarrow> components \<Rightarrow> page_world \<Rightarrow> page_world \<times> components result" where
  "genComponents env views eps view cs w =
     (let others = filter (\<lambda>v. json_at ''name'' v \<noteq> json_at ''name'' view) views;
          data = JObj [(''view'', view), (''otherViews'', JArr others), (''components'', components_json cs), (''endpoints'', JArr eps),
                       (''packages'', JArr (pw_component w)), (''event'', pe_event env)]
      in bindp (ask (genVue2Components (pe_llm env) (endpoint_names env) data (pe_payer env)))
           (\<lambda>r. liftp (and_then (js_entries r) (\<lambda>kvs. fold_result (add_component (json_at ''name'' view)) kvs cs))) w)"

text \<open>The components of each view.\<close>

definition add_view :: "page_env \<Rightarrow> string \<Rightarrow> json \<Rightarrow> string list obj \<Rightarrow> string list obj" where
  "add_view env name view m =
     (let k = js_string (pe_num env) view in obj_set k ((case obj_get m k of None \<Rightarrow> [] | Some ns \<Rightarrow> ns) @ [name]) m)"

definition viewComps :: "page_env \<Rightarrow> components \<Rightarrow> string list obj result" where
  "viewComps env cs =
     fold_result (\<lambda>(name, cmpt) m. and_then (array_of (obj_get cmpt ''inViews'')) (\<lambda>vs. Inr (fold (add_view env name) vs m))) cs []"

section \<open>Generating the code\<close>

definition endpoint_named :: "page_env \<Rightarrow> string list \<Rightarrow> json \<Rightarrow> json result" where
  "endpoint_named env ks epName =
     (case find (\<lambda>e. json_at ''name'' e = Some epName) (pe_endpoints env) of
        None \<Rightarrow> Inl (TypeError ''Cannot read properties of undefined (reading name)'')
      | Some e \<Rightarrow> Inr (present (map (\<lambda>k. (k, json_at k e)) ks)))"

definition merge_packages :: "json option \<Rightarrow> json list \<times> bool \<Rightarrow> (json list \<times> bool) result" where
  "merge_packages added ps =
     (if \<not> has_length added then Inr ps else and_then (iterate added) (\<lambda>xs. Inr (js_unique (fst ps @ xs), True)))"

text \<open>A store that a component imports: new, or merged into the store of the same file.\<close>

definition merged_list :: "json option \<Rightarrow> json option \<Rightarrow> json option result" where
  "merged_list old new =
     (if \<not> has_length new then Inr old
      else and_then (iterate old) (\<lambda>xs. and_then (iterate new) (\<lambda>ys. Inr (Some (JArr (js_unique (xs @ ys)))))))"

definition json_or :: "json option \<Rightarrow> json \<Rightarrow> json" where
  "json_or v d = (if truthy_opt v then the v else d)"

definition merge_into :: "(json \<Rightarrow> string) \<Rightarrow> json option \<Rightarrow> json \<Rightarrow> json \<Rightarrow> json result" where
  "merge_into show eps store s =
     and_then (merged_list (json_at ''actions'' s) (json_at ''actions'' store)) (\<lambda>actions.
     and_then (merged_list (json_at ''getters'' s) (json_at ''getters'' store)) (\<lambda>getters.
     and_then (merged_list (json_at ''endpoints'' s) eps) (\<lambda>endpoints.
     and_then (if truthy_opt (json_at ''state'' store) then and_then (deepMerge show (or_null (json_at ''state'' s)) (the (json_at ''state'' store))) (\<lambda>x. Inr (Some x))
               else Inr (json_at ''state'' s)) (\<lambda>state.
       Inr (JObj (obj_put ''state'' state (obj_put ''endpoints'' endpoints (obj_put ''getters'' getters (obj_put ''actions'' actions (spread s))))))))))"

definition new_store :: "json option \<Rightarrow> json \<Rightarrow> json result" where
  "new_store eps store =
     (case store of
        JObj kvs \<Rightarrow> Inr (JObj (obj_set ''getters'' (json_or (obj_get kvs ''getters'') (JArr []))
                           (obj_set ''actions'' (json_or (obj_get kvs ''actions'') (JArr []))
                           (obj_set ''state'' (json_or (obj_get kvs ''state'') (JObj []))
                           (obj_set ''endpoints'' (json_or eps (JArr [])) kvs)))))
      | JArr xs \<Rightarrow> Inr (JArr xs)
      | _ \<Rightarrow> Inl (TypeError ''Cannot create property''))"

fun merge_store :: "(json \<Rightarrow> string) \<Rightarrow> json option \<Rightarrow> json \<Rightarrow> json list \<Rightarrow> json list result" where
  "merge_store show eps store [] = and_then (prop_of ''file'' (Some store)) (\<lambda>_. and_then (new_store eps store) (\<lambda>s. Inr [s]))"
| "merge_store show eps store (s # ss) =
     and_then (prop_of ''file'' (Some store)) (\<lambda>f.
       if json_at ''file'' s = f then and_then (merge_into show eps store s) (\<lambda>s'. Inr (s' # ss))
       else and_then (merge_store show eps store ss) (\<lambda>ss'. Inr (s # ss')))"

record page_acc =
  ga_comps :: components
  ga_files :: "json obj"
  ga_packages :: "json list"
  ga_own :: bool
  ga_stores :: "json list"

definition file_put :: "page_env \<Rightarrow> json option \<Rightarrow> json option \<Rightarrow> json obj \<Rightarrow> json obj" where
  "file_put env file code = obj_put (key_of (pe_num env) file) code"

definition related_view :: "page_env \<Rightarrow> json obj \<Rightarrow> string list obj \<Rightarrow> json \<Rightarrow> json result" where
  "related_view env vm vc view =
     (let k = js_string (pe_num env) view
      in and_then (map_result (\<lambda>p. and_then (prop_of p (obj_get vm k)) (\<lambda>v. Inr (p, v))) [''path'', ''title'', ''summary'', ''instruction'']) (\<lambda>ps.
           Inr (present ([(''name'', Some view)] @ ps @ [(''components'', map_option (\<lambda>ns. JArr (map JStr ns)) (obj_get vc k))]))))"

text \<open>What the model is told about a component: its endpoints, its views and the components beside it, itself
  first.\<close>

definition component_data :: "page_env \<Rightarrow> json list \<Rightarrow> json obj \<Rightarrow> string list obj \<Rightarrow> string \<Rightarrow> page_acc \<Rightarrow> (json list \<times> json list \<times> json list) result" where
  "component_data env views vm vc compName a =
     (let cmpt = (case obj_get (ga_comps a) compName of None \<Rightarrow> [] | Some c \<Rightarrow> c)
      in and_then (array_of (obj_get cmpt ''endpoints'')) (\<lambda>es.
         and_then (map_result (endpoint_named env [''name'', ''params'', ''responses'']) es) (\<lambda>eps.
         and_then (array_of (obj_get cmpt ''inViews'')) (\<lambda>iv.
         and_then (map_result (related_view env vm vc) iv) (\<lambda>related.
           let others = filter (\<lambda>v. \<not> (\<exists>r\<in>set related. json_at ''name'' r = json_at ''name'' v)) views;
               near = filter (\<lambda>n. n \<noteq> compName)
                        (fold (\<lambda>n acc. if n \<in> set acc then acc else acc @ [n])
                           (concat (map (\<lambda>v. case obj_get vc (js_string (pe_num env) v) of None \<Rightarrow> [] | Some ns \<Rightarrow> ns) iv)) []);
               beside = map (\<lambda>n. let c = (case obj_get (ga_comps a) n of None \<Rightarrow> [] | Some c \<Rightarrow> c)
                                  in present [(''name'', Some (JStr n)), (''spec'', obj_get c ''spec''), (''summary'', obj_get c ''summary''),
                                              (''instruction'', obj_get c ''instruction'')]) near;
               self = JObj (obj_set ''endpoints'' (JArr eps) (fold (\<lambda>(k, v). obj_set k v) cmpt (obj_put ''file'' (obj_get cmpt ''file'') [(''name'', JStr compName)])))
           in Inr (self # beside, related, map (\<lambda>v. present (map (\<lambda>k. (k, json_at k v)) [''name'', ''path'', ''summary''])) others))))))"

definition genCode :: "page_env \<Rightarrow> json list \<Rightarrow> json obj \<Rightarrow> string list obj \<Rightarrow> string \<Rightarrow> page_acc \<Rightarrow> page_world \<Rightarrow> page_world \<times> page_acc result" where
  "genCode env views vm vc compName a =
     bindp (liftp (component_data env views vm vc compName a)) (\<lambda>(near, related, others).
     bindp (ask (genVue3Component (pe_llm env) (List.map_filter (str_at ''name'') near)
            (JObj [(''components'', JArr near), (''relatedViews'', JArr related), (''otherViews'', JArr others), (''stores'', JArr (ga_stores a)),
                   (''packages'', JArr (ga_packages a)), (''event'', pe_event env)]) (pe_payer env))) (\<lambda>r.
       let cmpt = (case obj_get (ga_comps a) compName of None \<Rightarrow> [] | Some c \<Rightarrow> c)
       in liftp (and_then (merge_packages (json_opt_at ''packages'' r) (ga_packages a, ga_own a)) (\<lambda>(ps, own).
            and_then (each_of (json_opt_at ''importedStores'' r)) (\<lambda>ss.
            and_then (fold_result (merge_store (le_dump (pe_llm env)) (obj_get cmpt ''endpoints'')) ss (ga_stores a)) (\<lambda>stores.
              Inr \<lparr>ga_comps = obj_set compName (obj_put ''spec'' (json_opt_at ''spec'' r) cmpt) (ga_comps a),
                   ga_files = file_put env (obj_get cmpt ''file'') (json_opt_at ''code'' r) (ga_files a),
                   ga_packages = ps, ga_own = own, ga_stores = stores\<rparr>))))))"

text \<open>The packages of the stores are pushed onto the list at hand, which may be the one of the service.\<close>

definition pushStorePackages :: "page_env \<Rightarrow> page_acc \<Rightarrow> page_world \<Rightarrow> page_world \<times> page_acc result" where
  "pushStorePackages env a w =
     (let ps = ga_packages a @ pe_store env
      in (if ga_own a then w else w\<lparr>pw_component := ps\<rparr>, Inr (a\<lparr>ga_packages := ps\<rparr>)))"

definition genStore :: "page_env \<Rightarrow> string \<Rightarrow> json \<Rightarrow> page_acc \<Rightarrow> page_world \<Rightarrow> page_world \<times> page_acc result" where
  "genStore env apiBaseUrl store a =
     bindp (liftp (and_then (array_of (json_at ''endpoints'' store))
                     (map_result (endpoint_named env [''name'', ''summary'', ''description'', ''params'', ''responses''])))) (\<lambda>eps.
     bindp (ask (genVue4Store (pe_llm env)
            (JObj [(''packages'', JArr (ga_packages a)), (''store'', JObj (obj_set ''endpoints'' (JArr eps) (spread store))),
                   (''apiBaseUrl'', JStr apiBaseUrl), (''event'', pe_event env)]) (pe_payer env))) (\<lambda>r.
       liftp (and_then (merge_packages (json_opt_at ''packages'' r) (ga_packages a, ga_own a)) (\<lambda>(ps, own).
         Inr (a\<lparr>ga_packages := ps, ga_own := own, ga_files := file_put env (json_at ''file'' store) (json_opt_at ''code'' r) (ga_files a)\<rparr>)))))"

definition genView :: "page_env \<Rightarrow> json list \<Rightarrow> json obj \<Rightarrow> string \<times> string list \<Rightarrow> page_acc \<Rightarrow> page_world \<Rightarrow> page_world \<times> page_acc result" where
  "genView env views vm nc a =
     (case nc of (name, compNames) \<Rightarrow>
        let view = JObj (obj_del ''distance'' (fold (\<lambda>(k, v). obj_set k v) (case obj_get vm name of None \<Rightarrow> [] | Some v \<Rightarrow> spread v) [(''name'', JStr name)]));
            others = map (\<lambda>v. present (map (\<lambda>k. (k, json_at k v)) [''name'', ''title'', ''path''])) (filter (\<lambda>v. json_at ''name'' v \<noteq> Some (JStr name)) views);
            cs = map (\<lambda>n. JObj (obj_del ''endpoints'' (obj_del ''inViews''
                   (fold (\<lambda>(k, v). obj_set k v) (case obj_get (ga_comps a) n of None \<Rightarrow> [] | Some c \<Rightarrow> c) [(''name'', JStr n), (''spec'', JNull)])))) compNames
        in bindp (ask (genVue5View (pe_llm env)
               (JObj [(''view'', view), (''otherViews'', JArr others), (''components'', JArr cs), (''packages'', JArr (ga_packages a)), (''event'', pe_event env)])
               (pe_payer env))) (\<lambda>r.
             liftp (and_then (merge_packages (json_opt_at ''packages'' r) (ga_packages a, ga_own a)) (\<lambda>(ps, own).
               Inr (a\<lparr>ga_packages := ps, ga_own := own, ga_files := file_put env (json_at ''file'' view) (json_opt_at ''code'' r) (ga_files a)\<rparr>)))))"

text \<open>The whole page, and its answer.\<close>

definition genPage :: "page_env \<Rightarrow> string \<Rightarrow> json option \<Rightarrow> page_world \<Rightarrow> page_world \<times> (json list \<times> page_acc) result" where
  "genPage env apiBaseUrl requirement =
     bindp (genRoutes env requirement) (\<lambda>views.
     bindp (liftp (and_then (viewMap env views) (\<lambda>vm. and_then (map_result prompt_endpoint (pe_endpoints env)) (\<lambda>eps. Inr (vm, eps))))) (\<lambda>(vm, eps).
     bindp (foldp (genComponents env views eps) views []) (\<lambda>cs.
     bindp (liftp (viewComps env cs)) (\<lambda>vc.
     bindp (\<lambda>w. (w, Inr \<lparr>ga_comps = cs, ga_files = [], ga_packages = pw_component w, ga_own = False, ga_stores = []\<rparr>)) (\<lambda>a0.
     bindp (foldp (genCode env views vm vc) (obj_keys cs) a0) (\<lambda>a1.
     bindp (pushStorePackages env a1) (\<lambda>a2.
     bindp (foldp (genStore env apiBaseUrl) (ga_stores a2) a2) (\<lambda>a3.
     bindp (foldp (genView env views vm) vc a3) (\<lambda>a4.
       liftp (Inr (views, a4)))))))))))"

definition page_response :: "json list \<times> page_acc \<Rightarrow> json" where
  "page_response va =
     (case va of (views, a) \<Rightarrow>
        JObj [(''data'', JObj [(''packages'', JArr (ga_packages a)), (''files'', JObj (ga_files a)),
                (''routes'', JArr (map (\<lambda>v. present (map (\<lambda>k. (k, json_at k v)) [''name'', ''path'', ''component''])) views))]),
              (''status'', JNum 200)])"

definition genWebpages :: "page_env \<Rightarrow> entry_db \<Rightarrow> req_event \<Rightarrow> page_world \<Rightarrow> page_world \<times> req_event \<times> unit result" where
  "genWebpages env db e0 w =
     (let e = e0\<lparr>stopPropagation := True\<rparr>
      in case and_then (ctx_of e) (\<lambda>c.
              case findFirstByType ET_CLIENT (cx_callgentId c) ''restAPI'' None db of
                Some cen \<Rightarrow>
                  if nonempty_str (ey_host cen) then and_then (prop_of ''requirement'' (Some (cx_req c))) (\<lambda>req. Inr (pe_siteUrl env @ the (ey_host cen), req))
                  else Inl (PlainError (''There must be a restAPI client entry as backend API for callgent#'' @ cx_callgentId c))
              | None \<Rightarrow> Inl (PlainError (''There must be a restAPI client entry as backend API for callgent#'' @ cx_callgentId c))) of
           Inl err \<Rightarrow> (w, e, Inl err)
         | Inr (apiBaseUrl, req) \<Rightarrow>
             (case genPage env apiBaseUrl req w of
                (w1, Inl err) \<Rightarrow> (w1, e, Inl err)
              | (w1, Inr va) \<Rightarrow> (w1, upd_ctx (\<lambda>c. c\<lparr>cx_resp := Some (page_response va)\<rparr>) e, Inr ())))"

section \<open>The controller\<close>

text \<open>\<open>WebpageController\<close>. The columns that the callgent is read with do not include its creator, so the caller
  pays or nobody. The body of an answer is the event with the response, or the event alone.\<close>

definition webpage_load :: "entry_db \<Rightarrow> (string \<Rightarrow> callgent_view option) \<Rightarrow> string \<Rightarrow> string option \<Rightarrow> int option \<Rightarrow>
    ((entry_row \<times> callgent_view) result) \<times> int option" where
  "webpage_load db callgents callgentId entryId tenant =
     (case findFirstSettingTenant ET_CLIENT callgentId ''Webpage'' entryId db tenant of
        (None, t) \<Rightarrow> (Inl (NotFound (''`Webpage` Client Entry not found for callgent: '' @ callgentId)), t)
      | (Some y, _) \<Rightarrow>
          (case callgents callgentId of
             None \<Rightarrow> (Inl (NotFound (''callgent not found: '' @ callgentId)), Some (er_tenantPk y))
           | Some c \<Rightarrow> (Inr (y, select_view c), Some (er_tenantPk y))))"

definition webpage_event :: "string \<Rightarrow> string \<Rightarrow> entry_row \<Rightarrow> callgent_view \<Rightarrow> string \<Rightarrow> string option \<Rightarrow> string \<Rightarrow> string option \<Rightarrow> string option \<Rightarrow> json \<Rightarrow> req_event" where
  "webpage_event today eid y c callgentId task ttl user cb req =
     clientRequestEvent today eid (ey_id y) (er_adaptorKey y) task ttl (RestApi.or_else user (cv_createdBy c)) user
       \<lparr>cx_callgentId = callgentId, cx_callgentName = cv_name c, cx_callerId = user, cx_epName = None, cx_req = req,
        cx_resp = None, cx_map2 = None, cx_endpoints = [], cx_invocations = [], cx_retries = 0, cx_security = None, cx_securityItem = None\<rparr> cb"

record page_answer =
  pa_status :: "int option"
  pa_event :: req_event
  pa_response :: "json option"

definition page_status :: "int option \<Rightarrow> int option" where
  "page_status s = (case s of None \<Rightarrow> None | Some n \<Rightarrow> Some (if n < 0 then 418 else if n < 200 then 200 else n))"

definition webpage_request :: "entry_db \<Rightarrow> (string \<Rightarrow> callgent_view option) \<Rightarrow> (req_ctx, 'w) EventListeners.registry \<Rightarrow> listener list \<Rightarrow>
    string \<Rightarrow> string \<Rightarrow> string \<Rightarrow> string option \<Rightarrow> int option \<Rightarrow> string option \<Rightarrow> string option \<Rightarrow> string \<Rightarrow> json \<Rightarrow>
    (req_ctx, 'w) app \<Rightarrow> (req_ctx, 'w) app \<times> page_answer result" where
  "webpage_request db callgents services listeners today eid callgentId entryId tenant task user requirement body w =
     (case fst (webpage_load db callgents callgentId entryId tenant) of
        Inl err \<Rightarrow> (w, Inl err)
      | Inr (y, c) \<Rightarrow>
          (case emit services listeners
                  (webpage_event today eid y c callgentId task (''Request: '' @ map char_of (Utils.truncate (map of_char requirement) 120)) user None body) 0 False w of
             (w1, Inl err) \<Rightarrow> (w1, Inl err)
           | (w1, Inr None) \<Rightarrow> (w1, Inl (TypeError ''Cannot read properties of undefined (reading statusCode)''))
           | (w1, Inr (Some e)) \<Rightarrow>
               (w1, and_then (ctx_of e) (\<lambda>c. Inr \<lparr>pa_status = page_status (statusCode e), pa_event = e, pa_response = cx_resp c\<rparr>))))"

definition webpage_invoke :: "entry_db \<Rightarrow> (string \<Rightarrow> callgent_view option) \<Rightarrow> (req_ctx, 'w) EventListeners.registry \<Rightarrow> listener list \<Rightarrow>
    string \<Rightarrow> string \<Rightarrow> string \<Rightarrow> string option \<Rightarrow> int option \<Rightarrow> rest_request \<Rightarrow> bool \<Rightarrow>
    (req_ctx, 'w) app \<Rightarrow> (req_ctx, 'w) app \<times> page_answer result" where
  "webpage_invoke db callgents services listeners today eid callgentId entryId tenant rq late w =
     (case fst (webpage_load db callgents callgentId entryId tenant) of
        Inl err \<Rightarrow> (w, Inl err)
      | Inr (y, c) \<Rightarrow>
          (let pageName = requested_name (rq_url rq) (rq_method rq) callgentId entryId
           in case emit services listeners (webpage_event today eid y c callgentId None (''Invoke: '' @ pageName) (rq_user rq) (rq_callback rq) (rq_raw rq)) (sync_timeout (rq_timeout rq)) late w of
                (w1, Inl err) \<Rightarrow> (w1, Inl err)
              | (w1, Inr None) \<Rightarrow> (w1, Inl (TypeError ''Cannot read properties of undefined (reading statusCode)''))
              | (w1, Inr (Some e)) \<Rightarrow> (w1, Inr \<lparr>pa_status = page_status (statusCode e), pa_event = e, pa_response = None\<rparr>)))"

text \<open>The address of a page entry.\<close>

definition webpageHost :: "entry_row \<Rightarrow> string" where
  "webpageHost d = ''/api/webpage/request/'' @ ey_callgentId d @ ''/'' @ ey_id d"

section \<open>Facts\<close>

lemma bindp_Inr: "bindp m f w = (w', Inr b) \<longleftrightarrow> (\<exists>w1 a. m w = (w1, Inr a) \<and> f a w1 = (w', Inr b))"
  by (auto simp: bindp_def split: prod.splits sum.splits)

lemma liftp_Inr [simp]: "liftp r w = (w', x) \<longleftrightarrow> w = w' \<and> r = x"
  by (auto simp: liftp_def)

text \<open>A computation that sends a bounded number of requests and leaves the packages of the service alone.\<close>

definition asks :: "nat \<Rightarrow> page_world \<Rightarrow> page_world \<Rightarrow> bool" where
  "asks n w w' \<longleftrightarrow> (\<exists>reqs. lw_requests (pw_llm w') = lw_requests (pw_llm w) @ reqs \<and> length reqs \<le> n)"

definition calm :: "nat \<Rightarrow> (page_world \<Rightarrow> page_world \<times> 'a result) \<Rightarrow> bool" where
  "calm n m \<longleftrightarrow> (\<forall>w w' r. m w = (w', r) \<longrightarrow> asks n w w' \<and> pw_component w' = pw_component w)"

lemma asks_refl: "asks 0 w w"
  by (simp add: asks_def)

lemma asks_trans: "asks m w w1 \<Longrightarrow> asks n w1 w2 \<Longrightarrow> asks (m + n) w w2"
  by (fastforce simp: asks_def)

lemma asks_mono: "asks m w w' \<Longrightarrow> m \<le> n \<Longrightarrow> asks n w w'"
  by (fastforce simp: asks_def)

lemma calm_lift: "calm 0 (liftp r)"
  by (simp add: calm_def asks_refl)

lemma calm_bind: "calm m c \<Longrightarrow> (\<And>x. calm n (f x)) \<Longrightarrow> calm (m + n) (bindp c f)"
  unfolding calm_def bindp_def
  by (fastforce split: prod.splits sum.splits intro: asks_trans elim: asks_mono [of _ _ _ "m + n"])

lemma calm_fold: "(\<And>x a. calm n (f x a)) \<Longrightarrow> calm (n * length xs) (foldp f xs a)"
proof (induction xs arbitrary: a)
  case Nil
  then show ?case by (simp add: calm_lift)
next
  case (Cons x xs)
  then show ?case using calm_bind [of n "f x a" "n * length xs" "foldp f xs"] by simp
qed

lemma calm_ask: "(\<And>l. q l = query env template data spec l) \<Longrightarrow> calm 3 (ask q)"
  using query_requests by (fastforce simp: calm_def asks_def ask_def split: prod.splits sum.splits)

lemma calm_generators:
  "calm 3 (ask (genVue1Route env data payer))" "calm 3 (ask (genVue2Components env eps data payer))" "calm 3 (ask (genVue3Component env names data payer))"
  "calm 3 (ask (genVue4Store env data payer))" "calm 3 (ask (genVue5View env data payer))"
  by (rule calm_ask, simp add: genVue1Route_def genVue2Components_def genVue3Component_def genVue4Store_def genVue5View_def)+

lemma calm_steps:
  "calm 3 (genRoutes env req)" "calm 3 (genComponents env views eps view cs)" "calm 3 (genCode env views vm vc n a)"
  "calm 3 (genStore env url st a)" "calm 3 (genView env views vm nc a)"
proof -
  note q = calm_generators and b = calm_bind [of 3 _ 0, simplified] and l = calm_lift
  show "calm 3 (genRoutes env req)" unfolding genRoutes_def by (intro b q l)
  show "calm 3 (genComponents env views eps view cs)"
    unfolding calm_def genComponents_def Let_def by (intro allI impI) (erule b [OF q(2) l, unfolded calm_def, rule_format])
  show "calm 3 (genCode env views vm vc n a)"
    unfolding genCode_def Let_def by (rule calm_bind [of 0 _ 3, simplified, OF l]) (auto split: prod.splits intro!: b q l)
  show "calm 3 (genStore env url st a)"
    unfolding genStore_def by (rule calm_bind [of 0 _ 3, simplified, OF l]) (auto intro!: b q l)
  show "calm 3 (genView env views vm nc a)"
    unfolding genView_def Let_def by (auto split: prod.splits intro!: b q l)
qed

lemma foldp_inv:
  assumes "\<And>x a w w' a'. x \<in> set xs \<Longrightarrow> I a \<Longrightarrow> f x a w = (w', Inr a') \<Longrightarrow> I a'"
    and "I a" "foldp f xs a w = (w', Inr a')"
  shows "I a'"
  using assms
proof (induction xs arbitrary: a w)
  case Nil
  then show ?case by simp
next
  case (Cons x xs)
  from Cons.prems(3) obtain w1 a1 where "f x a w = (w1, Inr a1)" "foldp f xs a1 w1 = (w', Inr a')" by (auto simp: bindp_Inr)
  with Cons show ?case by (metis list.set_intros)
qed

section \<open>Packages\<close>

definition versioned :: "json \<Rightarrow> bool" where
  "versioned p \<longleftrightarrow> (\<exists>n v. p = JStr (n @ CHR ''@'' # v) \<and> n \<noteq> [])"

lemma set_js_unique: "set (js_unique xs) = set xs"
proof -
  have "set (fold add_new xs acc) = set acc \<union> set xs" for acc
    by (induction xs arbitrary: acc) (auto simp: add_new_def)
  then show ?thesis by (simp add: js_unique_def)
qed

text \<open>The list at hand: what the page started with, and packages with a name and a version; a list that is
  still the one of the service has nothing else.\<close>

definition packages_ok :: "json list \<Rightarrow> page_acc \<Rightarrow> bool" where
  "packages_ok base a \<longleftrightarrow> set base \<subseteq> set (ga_packages a) \<and> (\<forall>p\<in>set (ga_packages a). p \<in> set base \<or> versioned p) \<and> (\<not> ga_own a \<longrightarrow> ga_packages a = base)"

lemma merge_packages_ok:
  assumes "packages_ok base a" and "merge_packages added (ga_packages a, ga_own a) = Inr (ps, own)"
    and "\<And>xs. added = Some (JArr xs) \<Longrightarrow> \<forall>p\<in>set xs. versioned p" and "\<exists>xs. added = Some (JArr xs)"
  shows "set base \<subseteq> set ps \<and> (\<forall>p\<in>set ps. p \<in> set base \<or> versioned p) \<and> (\<not> own \<longrightarrow> ps = base)"
  using assms by (auto simp: merge_packages_def packages_ok_def iterate_def set_js_unique split: if_splits)

lemma ask_Inr: "ask q w = (w', Inr r) \<longleftrightarrow> (\<exists>l x. q (pw_llm w) = (l, Inr x) \<and> w' = w\<lparr>pw_llm := l\<rparr> \<and> r = generated x)"
  by (auto simp: ask_def split: prod.splits sum.splits)

lemma genCode_ok:
  assumes "genCode env views vm vc n a w = (w', Inr a')" and "packages_ok base a"
  shows "packages_ok base a'"
proof -
  obtain near related others r ps own ss stores w1 where
    q: "ask (genVue3Component (pe_llm env) (List.map_filter (str_at ''name'') near)
            (JObj [(''components'', JArr near), (''relatedViews'', JArr related), (''otherViews'', JArr others), (''stores'', JArr (ga_stores a)),
                   (''packages'', JArr (ga_packages a)), (''event'', pe_event env)]) (pe_payer env)) w = (w1, Inr r)"
    and m: "merge_packages (json_opt_at ''packages'' r) (ga_packages a, ga_own a) = Inr (ps, own)"
    and a': "ga_packages a' = ps" "ga_own a' = own"
    using assms(1) by (auto simp: genCode_def bindp_Inr Let_def and_then_eq_Inr split: prod.splits)
  from q obtain j xs where "r = Some j" "json_at ''packages'' j = Some (JArr xs)" "\<forall>p\<in>set xs. versioned p"
    unfolding ask_Inr using vue3_answer unfolding versioned_def by metis
  then show ?thesis
    using merge_packages_ok [OF assms(2) m] a' by (auto simp: packages_ok_def json_opt_at_def)
qed

lemma genStore_ok:
  assumes "genStore env url st a w = (w', Inr a')" and "packages_ok base a"
  shows "packages_ok base a' \<and> ga_comps a' = ga_comps a \<and> ga_stores a' = ga_stores a"
proof -
  obtain r ps own data w1 where q: "ask (genVue4Store (pe_llm env) data (pe_payer env)) w = (w1, Inr r)"
    and m: "merge_packages (json_opt_at ''packages'' r) (ga_packages a, ga_own a) = Inr (ps, own)"
    and a': "ga_packages a' = ps" "ga_own a' = own" "ga_comps a' = ga_comps a" "ga_stores a' = ga_stores a"
    using assms(1) by (auto simp: genStore_def bindp_Inr and_then_eq_Inr split: prod.splits)
  from q obtain j xs where "r = Some j" "json_at ''packages'' j = Some (JArr xs)" "\<forall>p\<in>set xs. versioned p"
    unfolding ask_Inr using vue4_answer unfolding versioned_def by metis
  then show ?thesis
    using merge_packages_ok [OF assms(2) m] a' by (auto simp: packages_ok_def json_opt_at_def)
qed

lemma genView_ok:
  assumes "genView env views vm nc a w = (w', Inr a')" and "packages_ok base a"
  shows "packages_ok base a' \<and> ga_comps a' = ga_comps a \<and> ga_stores a' = ga_stores a"
proof -
  obtain r ps own data w1 where q: "ask (genVue5View (pe_llm env) data (pe_payer env)) w = (w1, Inr r)"
    and m: "merge_packages (json_opt_at ''packages'' r) (ga_packages a, ga_own a) = Inr (ps, own)"
    and a': "ga_packages a' = ps" "ga_own a' = own" "ga_comps a' = ga_comps a" "ga_stores a' = ga_stores a"
    using assms(1) by (auto simp: genView_def bindp_Inr and_then_eq_Inr Let_def split: prod.splits)
  from q obtain j xs where "r = Some j" "json_at ''packages'' j = Some (JArr xs)" "\<forall>p\<in>set xs. versioned p"
    unfolding ask_Inr using vue5_answer unfolding versioned_def by metis
  then show ?thesis
    using merge_packages_ok [OF assms(2) m] a' by (auto simp: packages_ok_def json_opt_at_def)
qed

text \<open>Generating code keeps the components but for their specification, so the views of a component stay.\<close>

definition same_views :: "components \<Rightarrow> components \<Rightarrow> bool" where
  "same_views cs cs' \<longleftrightarrow> list_all2 (\<lambda>(k, c) (k', c'). k' = k \<and> obj_get c' ''inViews'' = obj_get c ''inViews'') cs cs'"

lemma same_views_refl: "same_views cs cs"
  by (auto simp: same_views_def list_all2_same)

lemma same_views_trans: "same_views a b \<Longrightarrow> same_views b c \<Longrightarrow> same_views a c"
  unfolding same_views_def by (rule list_all2_trans, auto)

lemma same_views_set: "obj_get m n = Some c \<Longrightarrow> obj_get c' ''inViews'' = obj_get c ''inViews'' \<Longrightarrow> same_views m (obj_set n c' m)"
  by (induction m) (auto simp: same_views_def obj_set_def list_all2_same split: if_splits)

lemma same_views_viewComps: "same_views cs cs' \<Longrightarrow> viewComps env cs' = viewComps env cs"
proof -
  assume "same_views cs cs'"
  then have "list_all2 (\<lambda>(k, c) (k', c'). k' = k \<and> obj_get c' ''inViews'' = obj_get c ''inViews'') cs cs'" by (simp add: same_views_def)
  then have "fold_result (\<lambda>(name, cmpt) m. and_then (array_of (obj_get cmpt ''inViews'')) (\<lambda>vs. Inr (fold (add_view env name) vs m))) cs' acc =
     fold_result (\<lambda>(name, cmpt) m. and_then (array_of (obj_get cmpt ''inViews'')) (\<lambda>vs. Inr (fold (add_view env name) vs m))) cs acc" for acc
    by (induction arbitrary: acc rule: list_all2_induct) (auto intro!: and_then_cong)
  then show ?thesis by (simp add: viewComps_def)
qed

lemma same_views_keys: "same_views cs cs' \<Longrightarrow> obj_keys cs' = obj_keys cs"
  unfolding same_views_def by (induction rule: list_all2_induct) (auto simp: obj_keys_def)

lemma genCode_comps:
  assumes "genCode env views vm vc n a w = (w', Inr a')" and "n \<in> set (obj_keys (ga_comps a))"
  shows "same_views (ga_comps a) (ga_comps a')"
proof -
  obtain c where c: "obj_get (ga_comps a) n = Some c" using assms(2) by (auto simp: set_obj_keys)
  obtain r where "ga_comps a' = obj_set n (obj_put ''spec'' r c) (ga_comps a)"
    using assms(1) c by (auto simp: genCode_def bindp_Inr Let_def and_then_eq_Inr split: prod.splits)
  with c show ?thesis by (auto simp: obj_put_def intro: same_views_set split: option.splits)
qed

lemma genPage_parts:
  assumes "genPage env url req w = (w', Inr (views, a))"
  obtains w1 vm eps w2 cs vc w3 a1 w4 a2 w5 a3 where
    "genRoutes env req w = (w1, Inr views)" "viewMap env views = Inr vm" "foldp (genComponents env views eps) views [] w1 = (w2, Inr cs)"
    "viewComps env cs = Inr vc"
    "foldp (genCode env views vm vc) (obj_keys cs) \<lparr>ga_comps = cs, ga_files = [], ga_packages = pw_component w2, ga_own = False, ga_stores = []\<rparr> w2 = (w3, Inr a1)"
    "pushStorePackages env a1 w3 = (w4, Inr a2)" "foldp (genStore env url) (ga_stores a2) a2 w4 = (w5, Inr a3)"
    "foldp (genView env views vm) vc a3 w5 = (w', Inr a)"
  using assms by (auto simp: genPage_def bindp_Inr and_then_eq_Inr split: prod.splits)

lemma calmD: "calm n m \<Longrightarrow> m w = (w', r) \<Longrightarrow> asks n w w' \<and> pw_component w' = pw_component w"
  by (simp add: calm_def)

lemma pushed:
  assumes "pushStorePackages env a w = (w', Inr a')" and "packages_ok base a"
  shows "packages_ok (base @ pe_store env) a' \<and> ga_comps a' = ga_comps a \<and> ga_stores a' = ga_stores a \<and> asks 0 w w' \<and>
    pw_component w' = (if ga_own a then pw_component w else base @ pe_store env)"
  using assms by (auto simp: pushStorePackages_def packages_ok_def asks_def Let_def)

lemma genPage_ok:
  assumes "genPage env url req w = (w', Inr (views, a))"
  shows "\<exists>vc. viewComps env (ga_comps a) = Inr vc \<and>
    asks (3 * (1 + length views + length (ga_comps a) + length (ga_stores a) + length vc)) w w' \<and>
    packages_ok (pw_component w @ pe_store env) a \<and>
    (pw_component w' = pw_component w \<or> pw_component w' = pw_component w @ pe_store env) \<and>
    (views = [] \<longrightarrow> pw_component w' = pw_component w @ pe_store env)"
proof -
  from assms obtain w1 vm eps w2 cs vc w3 a1 w4 a2 w5 a3 where
    g: "genRoutes env req w = (w1, Inr views)" "viewMap env views = Inr vm" "foldp (genComponents env views eps) views [] w1 = (w2, Inr cs)"
    "viewComps env cs = Inr vc"
    "foldp (genCode env views vm vc) (obj_keys cs) \<lparr>ga_comps = cs, ga_files = [], ga_packages = pw_component w2, ga_own = False, ga_stores = []\<rparr> w2 = (w3, Inr a1)"
    "pushStorePackages env a1 w3 = (w4, Inr a2)" "foldp (genStore env url) (ga_stores a2) a2 w4 = (w5, Inr a3)"
    "foldp (genView env views vm) vc a3 w5 = (w', Inr a)" by (rule genPage_parts)
  let ?a0 = "\<lparr>ga_comps = cs, ga_files = [], ga_packages = pw_component w2, ga_own = False, ga_stores = []\<rparr>"
  note c1 = calmD [OF calm_steps(1) g(1)] and c2 = calmD [OF calm_fold [OF calm_steps(2)] g(3)] and c3 = calmD [OF calm_fold [OF calm_steps(3)] g(5)]
    and c4 = calmD [OF calm_fold [OF calm_steps(4)] g(7)] and c5 = calmD [OF calm_fold [OF calm_steps(5)] g(8)]
  have base: "pw_component w2 = pw_component w" using c1 c2 by simp
  have ok0: "packages_ok (pw_component w) ?a0" by (simp add: packages_ok_def base)
  have ok1: "packages_ok (pw_component w) a1 \<and> same_views cs (ga_comps a1)"
    by (rule foldp_inv [OF _ _ g(5), where I = "\<lambda>a. packages_ok (pw_component w) a \<and> same_views cs (ga_comps a)"])
      (use ok0 genCode_ok genCode_comps same_views_keys same_views_refl in \<open>auto intro: same_views_trans\<close>)
  note p = pushed [OF g(6) ok1 [THEN conjunct1]]
  let ?I = "\<lambda>a. packages_ok (pw_component w @ pe_store env) a \<and> ga_comps a = ga_comps a1 \<and> ga_stores a = ga_stores a1"
  have i3: "?I a3" by (rule foldp_inv [OF _ _ g(7), where I = ?I]) (use p genStore_ok in auto)
  have i4: "?I a" by (rule foldp_inv [OF _ _ g(8), where I = ?I]) (use i3 genView_ok in auto)
  have "asks (3 + (3 * length views + (3 * length (obj_keys cs) + (0 + (3 * length (ga_stores a2) + 3 * length vc))))) w w'"
    using c1 c2 c3 p c4 c5 by (blast intro: asks_trans)
  then have n: "asks (3 * (1 + length views + length (ga_comps a) + length (ga_stores a) + length vc)) w w'"
    by (rule asks_mono) (use i4 p same_views_keys [OF ok1 [THEN conjunct2]] in \<open>auto simp: obj_keys_def dest: map_eq_imp_length_eq\<close>)
  have same: "pw_component w' = (if ga_own a1 then pw_component w else pw_component w @ pe_store env)" using c3 c4 c5 p base by simp
  have "views = [] \<Longrightarrow> \<not> ga_own a1" using g(3,5) by (auto simp: obj_keys_def)
  moreover have "viewComps env (ga_comps a) = Inr vc" using g(4) i4 same_views_viewComps [OF ok1 [THEN conjunct2]] by simp
  ultimately show ?thesis using same n i4 by (intro exI [of _ vc]) auto
qed

section \<open>Properties\<close>

text \<open>A page that is generated answers the request and ends it: its packages are those of the service, those of
  the stores and packages with a name and a version; at most three requests are sent to the language model for the routes and for
  each view, component, store and view with components. The list of the service stays, or grows by the packages of the
  stores, and it grows with every page that has no views.\<close>

theorem generated_page:
  assumes "genWebpages env db e w = (w', e', Inr ())"
  shows "stopPropagation e' \<and> (\<exists>c views a vc. ev_ctx e' = Some c \<and> cx_resp c = Some (page_response (views, a)) \<and> viewComps env (ga_comps a) = Inr vc \<and>
    set (pw_component w @ pe_store env) \<subseteq> set (ga_packages a) \<and>
    (\<forall>p\<in>set (ga_packages a). p \<in> set (pw_component w @ pe_store env) \<or> (\<exists>n v. p = JStr (n @ CHR ''@'' # v) \<and> n \<noteq> [])) \<and>
    (\<exists>reqs. lw_requests (pw_llm w') = lw_requests (pw_llm w) @ reqs \<and>
       length reqs \<le> 3 * (1 + length views + length (ga_comps a) + length (ga_stores a) + length vc)) \<and>
    (pw_component w' = pw_component w \<or> pw_component w' = pw_component w @ pe_store env) \<and>
    (views = [] \<longrightarrow> pw_component w' = pw_component w @ pe_store env))"
proof -
  obtain url req views a where g: "genPage env url req w = (w', Inr (views, a))"
    "e' = upd_ctx (\<lambda>c. c\<lparr>cx_resp := Some (page_response (views, a))\<rparr>) (e\<lparr>stopPropagation := True\<rparr>)" and c: "\<exists>c. ev_ctx e = Some c"
    using assms by (auto simp: genWebpages_def Let_def and_then_eq_Inr ctx_of_def split: sum.splits prod.splits option.splits if_splits)
  from c obtain c where "ev_ctx e' = Some (c\<lparr>cx_resp := Some (page_response (views, a))\<rparr>)" using g(2) by auto
  moreover have "stopPropagation e'" using g(2) by (simp add: upd_ctx_def)
  ultimately show ?thesis using genPage_ok [OF g(1)] unfolding packages_ok_def asks_def versioned_def by fastforce
qed

definition ex_page_env :: page_env where
  "ex_page_env = \<lparr>pe_llm = ex_says (JArr []), pe_num = (\<lambda>_. ''0''), pe_siteUrl = ''http://c.io'', pe_store = [JStr ''pinia@2''], pe_endpoints = [],
     pe_callgent = JNull, pe_event = JNull, pe_payer = Some ''u''\<rparr>"

definition ex_page_db :: entry_db where
  "ex_page_db = ex_db\<lparr>ed_entries := [(new_entry ''cg'' ''restAPI'' None)\<lparr>ey_host := Some ''/api''\<rparr>]\<rparr>"

definition ex_page_world :: page_world where
  "ex_page_world = \<lparr>pw_llm = ex_told ''[]'' ''genVue1Route'', pw_component = [JStr ''vue@3'']\<rparr>"

definition ex_page_event :: req_event where
  "ex_page_event = (ex_request ''e1'')\<lparr>ev_ctx := Some (ex_ctx\<lparr>cx_req := JObj [(''requirement'', JStr ''a page'')]\<rparr>)\<rparr>"

lemma ex_routes: "\<exists>l. genRoutes ex_page_env (Some (JStr ''a page'')) ex_page_world = (ex_page_world\<lparr>pw_llm := l\<rparr>, Inr [])"
proof -
  have "\<exists>l. query (ex_says (JArr [])) ''genVue1Route'' d (spec_of
       (JArr [JObj (map (\<lambda>k. (k, JStr [])) [''name'', ''path'', ''component'', ''file'', ''title'', ''summary'', ''instruction''] @
                             [(''distance'', JNum 0)])]) (Some ''u'') None) (ex_told ''[]'' ''genVue1Route'') = (l, Inr (P_json (Some (JArr []))))" for d
    by (rule ex_told_query, simp_all add: spec_of_def ex_says_def ex_llm_env_def parseResultSchema_def toJSON_def js_trim_def is_space_def
        to_lower_def lower_char_def fence_split.simps fence_match_def toJSON_parse_def checkJsonType_def js_entries_def)
  then obtain l where "query (ex_says (JArr [])) ''genVue1Route'' (present [(''event'', Some JNull), (''callgent'', Some JNull), (''requirement'', Some (JStr ''a page''))]) (spec_of
       (JArr [JObj (map (\<lambda>k. (k, JStr [])) [''name'', ''path'', ''component'', ''file'', ''title'', ''summary'', ''instruction''] @
                             [(''distance'', JNum 0)])]) (Some ''u'') None) (ex_told ''[]'' ''genVue1Route'') = (l, Inr (P_json (Some (JArr []))))" by blast
  then show ?thesis
    by (intro exI [of _ l]) (simp add: genRoutes_def bindp_def ask_def genVue1Route_def ex_page_env_def ex_page_world_def generated_def array_of_def liftp_def)
qed

theorem generated_page_witness:
  "\<exists>w' e'. genWebpages ex_page_env ex_page_db ex_page_event ex_page_world = (w', e', Inr ()) \<and> stopPropagation e' \<and>
     (pw_component w' = [JStr ''vue@3''] \<or> pw_component w' = [JStr ''vue@3'', JStr ''pinia@2''])"
proof -
  obtain l where l: "genRoutes ex_page_env (Some (JStr ''a page'')) ex_page_world = (ex_page_world\<lparr>pw_llm := l\<rparr>, Inr [])" using ex_routes by blast
  have "\<exists>w' e'. genWebpages ex_page_env ex_page_db ex_page_event ex_page_world = (w', e', Inr ())"
    by (simp add: genWebpages_def ex_page_event_def ctx_of_def ex_page_db_def findFirstByType_def js_sort_def ex_db_def new_entry_def prop_of_def json_at_def ex_ctx_def
        genPage_def bindp_def l Let_def, simp add: ex_page_env_def viewMap_def liftp_def bindp_def viewComps_def obj_keys_def pushStorePackages_def Let_def)
  then obtain w' e' where g: "genWebpages ex_page_env ex_page_db ex_page_event ex_page_world = (w', e', Inr ())" by blast
  from generated_page [OF g] g show ?thesis
    by (intro exI [of _ w'] exI [of _ e']) (auto simp: ex_page_env_def ex_page_world_def)
qed

end
