(* ===== verification/RealmApi.thy ===== *)
theory RealmApi
  imports Realms
begin

text \<open>
  The two sides of the security realms that \<open>Realms\<close> leaves open. First the processor of the type
  \<open>http\<close> (\<open>src/callgent-realms/processors/http-auth.processor.ts\<close>), a class of its own whose methods are
  here proved to be those that the service of \<open>Realms\<close> dispatches to. Then the controller
  (\<open>src/callgent-realms/callgent-realms.controller.ts\<close>), which masks the secrets it reads, and the runs
  of its operations: an enabled realm can always be attached, and no read tells a secret.
\<close>

section \<open>The http processor\<close>

definition http_provider_url :: "scheme_vo \<Rightarrow> entry option \<Rightarrow> string list \<Rightarrow> string option" where
  "http_provider_url scheme ey servers =
     (if nonempty_str (sc_provider scheme) then
        (let url = the (sc_provider scheme)
         in Some (if prefix ''http'' (to_lower url) then url else ''http://'' @ url))
      else if (case ey of None \<Rightarrow> False | Some y \<Rightarrow> ey_type y \<noteq> ET_CLIENT) then ey_host (the ey)
      else if servers \<noteq> [] then Some (hd servers)
      else None)"

definition http_implyProvider :: "url_host \<Rightarrow> scheme_vo \<Rightarrow> entry option \<Rightarrow> string list \<Rightarrow> string result" where
  "http_implyProvider host scheme ey servers =
     (let url = http_provider_url scheme ey servers
      in if \<not> nonempty_str url then Inl (BadRequest ''Cannot imply security provider, please specify it manually'')
         else (case host (the url) of
                 None \<Rightarrow> Inl (BadRequest (''Invalid security provider, must be url: '' @ the url))
               | Some h \<Rightarrow> Inr h))"

definition http_getRealmKey :: "scheme_vo \<Rightarrow> string option \<Rightarrow> string" where
  "http_getRealmKey scheme rlm =
     ''http:'' @ str_or (sc_scheme scheme) [] @ '':'' @ str_or (sc_provider scheme) ''undefined'' @ '':'' @ str_or rlm []"

definition http_validateSecretFormat :: "realm \<Rightarrow> bool" where
  "http_validateSecretFormat rlm = (case rm_secret rlm of Some (JStr _) \<Rightarrow> True | _ \<Rightarrow> False)"

definition http_checkEnabled :: "scheme_vo \<Rightarrow> realm \<Rightarrow> bool" where
  "http_checkEnabled scheme rlm =
     (if \<not> truthy_opt (rm_secret rlm) \<or> \<not> nonempty_str (sc_provider scheme) \<or> \<not> nonempty_str (sc_name scheme) \<or>
         \<not> nonempty_str (sc_in scheme)
      then False
      else http_validateSecretFormat rlm)"

text \<open>\<open>_attachToken\<close>, by the place the scheme names: \<open>header\<close> falls through into \<open>query\<close> under the name
  \<open>headers\<close>.\<close>

definition http_cookie :: "(string \<Rightarrow> string) \<Rightarrow> string \<Rightarrow> string \<Rightarrow> json obj \<Rightarrow> json obj" where
  "http_cookie enc name secret hs =
     (let old = (case obj_get hs ''cookie'' of Some (JStr c) \<Rightarrow> c | _ \<Rightarrow> [])
      in obj_set ''cookie'' (JStr (old @ (if old \<noteq> [] then '';'' else []) @ name @ ''='' @ enc secret)) hs)"

definition http_attachToken :: "(string \<Rightarrow> string) \<Rightarrow> realm \<Rightarrow> json \<Rightarrow> json result" where
  "http_attachToken enc rlm req =
     (let name = str_or (sc_name (rm_scheme rlm)) ''undefined'';
          put = (\<lambda>in0. case req of
            JObj kvs \<Rightarrow> Inr (JObj (obj_set in0 (JObj ((case rm_secret rlm of None \<Rightarrow> id | Some v \<Rightarrow> obj_set name v)
                                                       (json_obj (obj_get kvs in0)))) kvs))
          | JNull \<Rightarrow> Inl (TypeError ''Cannot read properties of null'')
          | _ \<Rightarrow> Inr req)
      in if sc_in (rm_scheme rlm) = Some ''cookie'' then
           (case req of
              JObj kvs \<Rightarrow> Inr (JObj (obj_set ''headers'' (JObj (http_cookie enc name (secret_str rlm) (json_obj (obj_get kvs ''headers'')))) kvs))
            | JNull \<Rightarrow> Inl (TypeError ''Cannot read properties of null'')
            | _ \<Rightarrow> Inr req)
         else if sc_in (rm_scheme rlm) = Some ''header'' then put ''headers''
         else if sc_in (rm_scheme rlm) = Some ''query'' then put ''query''
         else Inr req)"

text \<open>\<open>_validateTokenByUrl\<close> has an empty body.\<close>

definition http_validateTokenByUrl :: "bool option" where
  "http_validateTokenByUrl = None"

definition http_validateToken :: "(string \<Rightarrow> string) \<Rightarrow> realm \<Rightarrow> req_event \<Rightarrow> req_event \<times> string option option result" where
  "http_validateToken enc rlm e =
     (case ctx_of e of
        Inl err \<Rightarrow> (e, Inl err)
      | Inr c \<Rightarrow>
          if (case cx_securityItem c of None \<Rightarrow> False | Some it \<Rightarrow> si_attach it = Some True) then
            (case http_attachToken enc rlm (cx_req c) of
               Inl err \<Rightarrow> (e, Inl err)
             | Inr req \<Rightarrow> (upd_ctx (\<lambda>c. c\<lparr>cx_req := req\<rparr>) e, Inr (Some None)))
          else if nonempty_str (sc_validationUrl (rm_scheme rlm)) then
            (e, Inr (if http_validateTokenByUrl = Some True then Some None
                     else if http_validateTokenByUrl = Some False then None
                     else Some (Some ''postValidateToken'')))
          else (e, Inl (Unauthorized (''Cannot validate auth token, validationUrl must not empty. callgentId='' @ rm_callgentId rlm))))"

definition http_authProcess :: "(string \<Rightarrow> string) \<Rightarrow> realm \<Rightarrow> req_event \<Rightarrow> req_event \<times> string option option result" where
  "http_authProcess enc rlm e =
     (case http_validateToken enc rlm e of
        (e1, Inr None) \<Rightarrow> (e1, Inl (Unauthorized (''Invalid api-key token, callgentId='' @ rm_callgentId rlm)))
      | (e1, r) \<Rightarrow> (e1, r))"

lemma http_implyProvider_eq: "http_implyProvider host scheme ey servers = implyProvider AT_http host scheme ey servers"
  by (cases ey; cases servers) (simp_all add: http_implyProvider_def implyProvider_def http_provider_url_def provider_url_def)

lemma http_getRealmKey_eq: "http_getRealmKey scheme rlm = getRealmKey AT_http scheme rlm"
  by (simp add: http_getRealmKey_def getRealmKey_def)

lemma http_checkEnabled_eq: "http_checkEnabled scheme rlm = checkEnabled scheme rlm"
  by (simp add: http_checkEnabled_def checkEnabled_def http_validateSecretFormat_def)

lemma http_attachToken_eq: "http_attachToken enc rlm req = attachToken enc rlm req"
  by (cases req; cases "rm_secret rlm")
    (auto simp: http_attachToken_def attachToken_def http_cookie_def Let_def split: option.splits json.splits)

lemma http_validateToken_eq: "http_validateToken enc rlm e = validateToken enc rlm e"
  by (auto simp: http_validateToken_def validateToken_def http_validateTokenByUrl_def validateTokenByUrl_def http_attachToken_eq
      split: sum.splits option.splits)

lemma http_authProcess_eq: "http_authProcess enc rlm e = authProcess enc rlm e"
  by (auto simp: http_authProcess_def authProcess_def http_validateToken_eq split: prod.splits sum.splits option.splits)

section \<open>The controller\<close>

text \<open>A row as a client sees it: without its keys and times. \<open>mask\<close> is \<open>secret: r.secret ? true : false\<close>.\<close>

record realm_view =
  rv_callgentId :: string
  rv_realmKey :: string
  rv_authType :: auth_type
  rv_realm :: "string option"
  rv_scheme :: scheme_vo
  rv_secret :: "json option"
  rv_perUser :: bool
  rv_enabled :: bool

definition view_of :: "realm \<Rightarrow> realm_view" where
  "view_of r = \<lparr>rv_callgentId = rm_callgentId r, rv_realmKey = rm_realmKey r, rv_authType = rm_authType r, rv_realm = rm_realm r,
     rv_scheme = rm_scheme r, rv_secret = rm_secret r, rv_perUser = rm_perUser r, rv_enabled = rm_enabled r\<rparr>"

definition mask :: "realm_view \<Rightarrow> realm_view" where
  "mask v = v\<lparr>rv_secret := Some (JBool (truthy_opt (rv_secret v)))\<rparr>"

definition auth_name :: "auth_type \<Rightarrow> string" where
  "auth_name t = (case t of AT_apiKey \<Rightarrow> ''apiKey'' | AT_http \<Rightarrow> ''http'' | AT_other s \<Rightarrow> s)"

definition isAuthType :: "string \<Rightarrow> bool" where
  "isAuthType t \<longleftrightarrow> t \<in> {''apiKey'', ''http'', ''oauth2'', ''openIdConnect'', ''password''}"

definition api_findOne :: "string \<Rightarrow> string \<Rightarrow> realm_db \<Rightarrow> realm_view option" where
  "api_findOne callgentId realmKey db = map_option (\<lambda>r. mask (view_of r)) (find_by_key db callgentId realmKey)"

definition api_findAll :: "string \<Rightarrow> realm_db \<Rightarrow> realm_view list" where
  "api_findAll callgentId db =
     map (\<lambda>r. mask (view_of r)) (js_sort (\<lambda>a b. rm_pk b - rm_pk a) (filter (\<lambda>r. rm_callgentId r = callgentId) (rd_realms db)))"

definition api_update :: "url_host \<Rightarrow> string \<Rightarrow> string \<Rightarrow> scheme_vo option \<Rightarrow> (realm \<Rightarrow> realm) \<Rightarrow> realm_db \<Rightarrow> (realm_db \<times> realm_view) result" where
  "api_update host callgentId realmKey newScheme patch db =
     and_then (updateRealm host callgentId realmKey newScheme patch db) (\<lambda>(db1, r). Inr (db1, mask (view_of r)))"

definition api_create :: "url_host \<Rightarrow> realm \<Rightarrow> realm_db \<Rightarrow> (realm_db \<times> realm_view) result" where
  "api_create host dto db =
     (if \<not> isAuthType (auth_name (rm_authType dto)) then Inl (BadRequest ''Invalid authType'')
      else and_then (createRealm host dto db) (\<lambda>(db1, r). Inr (db1, view_of r)))"

definition api_remove :: "string \<Rightarrow> string \<Rightarrow> realm_db \<Rightarrow> (realm_db \<times> realm_view) result" where
  "api_remove callgentId realmKey db =
     and_then (deleteRealm callgentId realmKey db) (\<lambda>(db1, r). Inr (db1, mask (view_of r)))"

text \<open>The securities of an endpoint are constructed for the entry the endpoint belongs to.\<close>

definition updateFunctionSecurities :: "url_host \<Rightarrow> string \<Rightarrow> (string \<times> string list) list \<Rightarrow> realm_db \<Rightarrow> realm_db result" where
  "updateFunctionSecurities host target forms db =
     (case find (\<lambda>n. en_id n = target) (rd_endpoints db) of
        None \<Rightarrow> Inl (NotFound ''Not found function'')
      | Some n \<Rightarrow>
          (case find (\<lambda>y. ey_id y = en_entryId n) (rd_entries db) of
             None \<Rightarrow> Inl (NotFound ''Not found function'')
           | Some ey \<Rightarrow> and_then (securities_of host db ey forms) (\<lambda>secs.
               Inr (db\<lparr>rd_endpoints := map (\<lambda>n. if en_id n = target then n\<lparr>en_securities := secs\<rparr> else n) (rd_endpoints db)\<rparr>))))"

definition api_updateSecurities :: "url_host \<Rightarrow> string \<Rightarrow> string \<Rightarrow> (string \<times> string list) list \<Rightarrow> realm_db \<Rightarrow> realm_db result" where
  "api_updateSecurities host type target forms db =
     (if type = ''entry'' then updateSecurities host target forms db else updateFunctionSecurities host target forms db)"

section \<open>Runs of the controller\<close>

datatype realm_op =
    RCreate realm
  | RUpsert entry scheme_vo realm_patch "string list"
  | RUpdate string string "scheme_vo option" "realm \<Rightarrow> realm"
  | RRemove string string
  | RSecurities string string "(string \<times> string list) list"

definition or_keep :: "realm_db \<Rightarrow> realm_db result \<Rightarrow> realm_db" where
  "or_keep db r = (case r of Inl _ \<Rightarrow> db | Inr db1 \<Rightarrow> db1)"

text \<open>A request that throws is rolled back: every operation is one transaction.\<close>

fun realm_step :: "url_host \<Rightarrow> realm_op \<Rightarrow> realm_db \<Rightarrow> realm_db" where
  "realm_step host (RCreate dto) db = or_keep db (and_then (api_create host dto db) (\<lambda>(db1, _). Inr db1))"
| "realm_step host (RUpsert ey scheme p servers) db = or_keep db (and_then (upsertRealm host ey scheme p servers db) (\<lambda>(db1, _). Inr db1))"
| "realm_step host (RUpdate cg key newScheme patch) db = or_keep db (and_then (api_update host cg key newScheme patch db) (\<lambda>(db1, _). Inr db1))"
| "realm_step host (RRemove cg key) db = or_keep db (and_then (api_remove cg key db) (\<lambda>(db1, _). Inr db1))"
| "realm_step host (RSecurities type target forms) db = or_keep db (api_updateSecurities host type target forms db)"

definition no_realms :: "entry list \<Rightarrow> endpoint list \<Rightarrow> realm_db" where
  "no_realms entries endpoints = \<lparr>rd_realms = [], rd_nextPk = 1, rd_entries = entries, rd_endpoints = endpoints\<rparr>"

definition usable :: "realm \<Rightarrow> bool" where
  "usable r \<longleftrightarrow> (\<exists>s. rm_secret r = Some (JStr s) \<and> s \<noteq> []) \<and> nonempty_str (sc_provider (rm_scheme r)) \<and>
     nonempty_str (sc_name (rm_scheme r)) \<and> nonempty_str (sc_in (rm_scheme r))"

definition enabled_usable :: "realm_db \<Rightarrow> bool" where
  "enabled_usable db \<longleftrightarrow> (\<forall>r\<in>set (rd_realms db). rm_enabled r \<longrightarrow> usable r)"

lemma checkEnabled_usable:
  assumes "checkEnabled scheme r0" and "rm_scheme r = scheme" and "rm_secret r = rm_secret r0"
  shows "usable r"
  using assms by (auto simp: checkEnabled_def usable_def split: if_splits option.splits json.splits)

lemma constructRealm_enabled:
  "constructRealm aty host scheme r0 ey servers = Inr (scheme1, r) \<Longrightarrow>
     rm_enabled r = checkEnabled scheme1 r0 \<and> rm_secret r = rm_secret r0 \<and> rm_callgentId r = rm_callgentId r0"
  by (auto simp: constructRealm_def outcome_simps Let_def)

lemma insertRealm_usable:
  "enabled_usable db \<Longrightarrow> insertRealm r db = Inr (db1, r1) \<Longrightarrow> (rm_enabled r \<Longrightarrow> usable r) \<Longrightarrow> enabled_usable db1"
  by (auto simp: insertRealm_def enabled_usable_def usable_def Let_def split: if_splits)

lemma replaceRealm_usable:
  "enabled_usable db \<Longrightarrow> replaceRealm r db = Inr (db1, r1) \<Longrightarrow> (rm_enabled r \<Longrightarrow> usable r) \<Longrightarrow> enabled_usable db1"
  by (auto simp: replaceRealm_def enabled_usable_def split: if_splits)

lemma createRealm_usable:
  assumes "enabled_usable db" and "createRealm host dto db = Inr (db1, r1)"
  shows "enabled_usable db1"
proof -
  obtain aty scheme r where c: "constructRealm aty host (rm_scheme dto) dto None [] = Inr (scheme, r)"
      and i: "insertRealm (r\<lparr>rm_scheme := scheme\<rparr>) db = Inr (db1, r1)"
    using assms(2) by (auto simp: createRealm_def outcome_simps)
  show ?thesis
    using constructRealm_enabled [OF c] by (intro insertRealm_usable [OF assms(1) i]) (auto intro: checkEnabled_usable)
qed

lemma upsertRealm_usable:
  assumes "enabled_usable db" and "upsertRealm host ey scheme p servers db = Inr (db1, r1)"
  shows "enabled_usable db1"
proof -
  obtain r x where l: "upsertLook host ey scheme p servers db = Inr (r, x)" and w: "upsertWrite p (r, x) db = Inr (db1, r1)"
    using assms(2) by (auto simp: upsertRealm_def outcome_simps)
  obtain r0 where e: "rm_enabled r = checkEnabled (rm_scheme r) r0" "rm_secret r0 = rp_secret p"
    using l by (auto simp: upsertLook_def outcome_simps Let_def patched_realm_def dest!: constructRealm_enabled)
  have s: "rp_secret p \<noteq> None" if "rm_enabled r"
    using that e by (auto simp: checkEnabled_def split: if_splits option.splits)
  show ?thesis
  proof (cases x)
    case None
    have rs: "rm_secret r = rp_secret p"
      using l by (auto simp: upsertLook_def outcome_simps Let_def patched_realm_def dest!: constructRealm_enabled)
    show ?thesis using w None e rs
      by (auto simp: upsertWrite_def intro!: insertRealm_usable [OF assms(1)] intro: checkEnabled_usable)
  next
    case (Some y)
    show ?thesis using w Some e s
      by (auto simp: upsertWrite_def intro!: replaceRealm_usable [OF assms(1)] checkEnabled_usable [of "rm_scheme r" r0])
  qed
qed

lemma updateRealm_usable:
  assumes "enabled_usable db" and "updateRealm host cg key newScheme patch db = Inr (db1, r1)"
  shows "enabled_usable db1"
proof -
  obtain old dto scheme0 aty scheme r where c: "constructRealm aty host scheme0 dto None [] = Inr (scheme, r)"
      and w: "replaceRealm (r\<lparr>rm_scheme := scheme, rm_pk := rm_pk (old :: realm), rm_callgentId := cg\<rparr>) db = Inr (db1, r1)"
    using assms(2) by (auto simp: updateRealm_def outcome_simps Let_def split: option.splits)
  show ?thesis
    using constructRealm_enabled [OF c] by (intro replaceRealm_usable [OF assms(1) w]) (auto intro: checkEnabled_usable)
qed

lemma realm_step_usable: "enabled_usable db \<Longrightarrow> enabled_usable (realm_step host op db)"
proof (cases op)
  case (RSecurities type target forms)
  assume "enabled_usable db"
  with RSecurities show ?thesis
    by (auto simp: or_keep_def api_updateSecurities_def updateSecurities_def updateFunctionSecurities_def enabled_usable_def outcome_simps
        split: sum.splits option.splits if_splits)
next
  case (RRemove cg key)
  assume "enabled_usable db"
  with RRemove show ?thesis
    by (auto simp: or_keep_def api_remove_def deleteRealm_def enabled_usable_def outcome_simps Let_def split: sum.splits option.splits)
qed (auto simp: or_keep_def api_create_def api_update_def outcome_simps split: sum.splits if_splits
      dest: createRealm_usable upsertRealm_usable updateRealm_usable)

interpretation realm_runs: started_run "realm_step host" enabled_usable "no_realms entries endpoints" for host entries endpoints
  by unfold_locales (erule realm_step_usable, simp add: enabled_usable_def no_realms_def)

text \<open>The same runs keep one realm per callgent and key.\<close>

lemma operations_keep_keys:
  assumes "realm_db_ok db"
  shows "createRealm host dto db = Inr (db', r) \<Longrightarrow> realm_db_ok db'"
    and "upsertRealm host ey scheme p servers db = Inr (db', r) \<Longrightarrow> realm_db_ok db'"
    and "updateRealm host cg key newScheme patch db = Inr (db', r) \<Longrightarrow> realm_db_ok db'"
    and "deleteRealm cg key db = Inr (db', r) \<Longrightarrow> realm_db_ok db'"
  using realm_operations_keep_keys [OF assms] by simp_all

lemma realm_step_keys: "realm_db_ok db \<Longrightarrow> realm_db_ok (realm_step host op db)"
proof (cases op)
  case (RSecurities type target forms)
  assume "realm_db_ok db"
  with RSecurities show ?thesis
    by (auto simp: or_keep_def api_updateSecurities_def updateSecurities_def updateFunctionSecurities_def realm_db_ok_def outcome_simps
        split: sum.splits option.splits if_splits)
qed (auto simp: or_keep_def api_create_def api_update_def api_remove_def outcome_simps split: sum.splits if_splits
      dest: operations_keep_keys)

interpretation key_runs: started_run "realm_step host" realm_db_ok "no_realms entries endpoints" for host entries endpoints
  by unfold_locales (erule realm_step_keys, simp add: realm_db_ok_def no_realms_def)

text \<open>What a read may depend on: whether there is a secret.\<close>

definition hide_secret :: "realm \<Rightarrow> realm" where
  "hide_secret r = r\<lparr>rm_secret := Some (JBool (truthy_opt (rm_secret r)))\<rparr>"

definition hide_secrets :: "realm_db \<Rightarrow> realm_db" where
  "hide_secrets db = db\<lparr>rd_realms := map hide_secret (rd_realms db)\<rparr>"

lemma mask_hidden: "mask (view_of (hide_secret r)) = mask (view_of r)"
  by (simp add: mask_def view_of_def hide_secret_def)

lemma find_map_same: "(\<And>x. P (f x) = P x) \<Longrightarrow> find P (map f xs) = map_option f (find P xs)"
  by (induction xs) auto

lemma js_sort_map_same:
  assumes "\<And>x y. c (f x) (f y) = c x y"
  shows "js_sort c (map f xs) = map f (js_sort c xs)"
proof -
  have ins: "insort_cmp c (f x) (map f ys) = map f (insort_cmp c x ys)" for x ys
    by (induction ys) (simp_all add: assms)
  have "foldr (insort_cmp c) (map f xs) [] = map f (foldr (insort_cmp c) xs [])"
    by (induction xs) (simp_all add: ins)
  then show ?thesis by (simp add: js_sort_def)
qed

lemma filter_map_same: "(\<And>x. P (f x) = P x) \<Longrightarrow> filter P (map f xs) = map f (filter P xs)"
  by (induction xs) auto

lemma nonempty_str_iff: "nonempty_str x \<longleftrightarrow> (\<exists>s. x = Some s \<and> s \<noteq> [])"
  by (auto simp: nonempty_str_def split: option.splits)

lemma find_inserted:
  "insertRealm r db = Inr (db1, r1) \<Longrightarrow> find_by_key db1 (rm_callgentId r) (rm_realmKey r) = Some r1 \<and>
     rm_scheme r1 = rm_scheme r \<and> rm_callgentId r1 = rm_callgentId r \<and> rm_realmKey r1 = rm_realmKey r"
  by (auto simp: insertRealm_def find_by_key_def find_app Let_def split: if_splits)

lemma find_created:
  assumes "createRealm host dto db = Inr (db1, r)"
  shows "find_by_key db1 (rm_callgentId r) (rm_realmKey r) = Some r"
    and "sc_type (rm_scheme r) = sc_type (rm_scheme dto)"
    and "getAuthProcessor (rm_authType dto) = Inr (rm_authType dto)"
  using assms
  by (auto simp: createRealm_def outcome_simps constructRealm_def Let_def getAuthProcessor_def dest!: find_inserted split: auth_type.splits)

lemma unusable_refused:
  assumes "enabled_usable db" and "re_realms env = rd_realms db" and "secs \<noteq> []"
    and "\<And>sec. sec \<in> set secs \<Longrightarrow> \<exists>it r. first_item sec = Some it \<and> findRealm (rd_realms db) (si_realmPk it) = Some r \<and> \<not> usable r"
  shows "\<exists>m. snd (checkSecurities env secs sep e) = Inl (Unauthorized m)"
proof -
  have "is_disabled env sec" if s: "sec \<in> set secs" for sec
  proof -
    obtain it r where ir: "first_item sec = Some it" "findRealm (rd_realms db) (si_realmPk it) = Some r" "\<not> usable r"
      using assms(4) [OF s] by blast
    have "r \<in> set (rd_realms db)" using ir(2) by (auto simp: findRealm_def find_Some_iff)
    then have "\<not> rm_enabled r" using assms(1) ir(3) by (auto simp: enabled_usable_def)
    with ir assms(2) show ?thesis by (simp add: is_disabled_def)
  qed
  then have "\<exists>e1 m. check_each env side secs' e = (e1, Inl (Unauthorized m))" if "set secs' \<subseteq> set secs" for side secs' and e :: req_event
    using that
  proof (induction secs' arbitrary: e)
    case (Cons sec rest)
    then show ?case using check_disabled [of env sec "upd_ctx (\<lambda>c. c\<lparr>cx_security := Some sec\<rparr>) e"] by fastforce
  qed simp
  from this [of secs "if sep then ''SEP'' else ''CEP''" e] show ?thesis using assms(3) by (auto simp: checkSecurities_def)
qed

definition ex_dto :: "auth_type \<Rightarrow> string option \<Rightarrow> string option \<Rightarrow> realm" where
  "ex_dto aty name in0 = (ex_realm None False)\<lparr>rm_authType := aty,
     rm_scheme := \<lparr>sc_type = aty, sc_perUser = False, sc_provider = Some ''https://api.com'', sc_validationUrl = None,
                   sc_name = name, sc_in = in0, sc_scheme = Some ''bearer''\<rparr>\<rparr>"

text \<open>\<open>new URL(u).hostname\<close> on the two spellings used below.\<close>

definition ex_url_host :: url_host where
  "ex_url_host u = (if u = ''https://api.com'' then Some ''api.com''
     else if u = ''https://httpbin.org'' then Some ''httpbin.org'' else None)"

text \<open>An entry of the callgent of the examples.\<close>

definition ex_openapi_entry :: entry where
  "ex_openapi_entry = \<lparr>ey_id = ''entry'', ey_type = ET_SERVER, ey_host = None, ey_callgentId = ''cg'', ey_securities = []\<rparr>"

lemma find_replaced:
  assumes "x \<in> set xs" and "P r" and "\<And>y. y \<in> set xs \<Longrightarrow> y \<noteq> x \<Longrightarrow> \<not> P y"
  shows "find P (map (\<lambda>y. if y = x then r else y) xs) = Some r"
  using assms(1,3)
proof (induction xs)
  case (Cons a xs)
  show ?case
  proof (cases "a = x")
    case True
    then show ?thesis by (simp add: assms(2))
  next
    case False
    have "\<not> P a" by (rule Cons.prems(2)) (simp_all add: False)
    moreover have "find P (map (\<lambda>y. if y = x then r else y) xs) = Some r"
    proof (rule Cons.IH)
      show "x \<in> set xs" using Cons.prems(1) False by simp
      show "\<not> P y" if "y \<in> set xs" "y \<noteq> x" for y by (rule Cons.prems(2)) (use that in simp_all)
    qed
    ultimately show ?thesis using False by simp
  qed
qed simp

definition ex_ops :: "realm_op list" where
  "ex_ops = [RCreate (ex_dto AT_apiKey (Some ''x-key'') (Some ''header'')), RCreate (ex_dto AT_http None None),
             RSecurities ''entry'' ''none'' []]"

lemma ex_run:
  "fold (realm_step ex_url_host) ex_ops (no_realms [] []) =
     (let s = (\<lambda>aty name in0. \<lparr>sc_type = aty, sc_perUser = False, sc_provider = Some ''api.com'', sc_validationUrl = None,
                  sc_name = name, sc_in = in0, sc_scheme = Some ''bearer''\<rparr>);
          r = (\<lambda>pk key aty name in0 en. \<lparr>rm_pk = pk, rm_callgentId = ''cg'', rm_realmKey = key, rm_authType = aty, rm_realm = None,
                  rm_scheme = s aty name in0, rm_secret = Some (JStr ''s3cret''), rm_perUser = False, rm_enabled = en\<rparr>)
      in \<lparr>rd_realms = [r 1 ''apiKey:header:x-key:api.com:'' AT_apiKey (Some ''x-key'') (Some ''header'') True,
                       r 2 ''http:bearer:api.com:'' AT_http None None False], rd_nextPk = 3, rd_entries = [], rd_endpoints = []\<rparr>)"
  by (simp add: ex_ops_def no_realms_def or_keep_def api_create_def isAuthType_def auth_name_def ex_dto_def ex_realm_def createRealm_def
      getAuthProcessor_def constructRealm_def implyProvider_def provider_url_def ex_url_host_def to_lower_def lower_char_def
      getRealmKey_def checkEnabled_def insertRealm_def find_by_key_def nonempty_str_def str_or_def api_updateSecurities_def
      updateSecurities_def Let_def)

text \<open>An upsert that finds a realm, and one that finds none; the second one finds what the first wrote.\<close>

lemma upsert_replaces:
  assumes ok: "realm_db_ok db"
    and look: "\<And>d. upsertLook host ey scheme p servers d = Inr (r1, find_by_key d (ey_callgentId ey) (rm_realmKey r1))"
    and Some: "find_by_key db (ey_callgentId ey) (rm_realmKey r1) = Some x"
    and r_def: "r = r1\<lparr>rm_pk := rm_pk x, rm_callgentId := rm_callgentId x, rm_realm := (if rp_realm p = None then rm_realm x else rp_realm p),
      rm_secret := (if rp_secret p = None then rm_secret x else rp_secret p)\<rparr>"
    and db'_def: "db' = db\<lparr>rd_realms := map (\<lambda>y. if y = x then r else y) (rd_realms db)\<rparr>"
  shows "upsertRealm host ey scheme p servers db = Inr (db', r) \<and> upsertRealm host ey scheme p servers db' = Inr (db', r)"
proof -
  have rs: "rd_realms db' = map (\<lambda>y. if y = x then r else y) (rd_realms db)" by (simp add: db'_def)
  have x: "x \<in> set (rd_realms db)" "rm_callgentId x = ey_callgentId ey" "rm_realmKey x = rm_realmKey r1"
    using find_by_key_in [OF Some] by simp_all
  have own: "rm_pk r = rm_pk x" "rm_callgentId r = rm_callgentId x" "rm_realmKey r = rm_realmKey x"
    using x by (simp_all add: r_def)
  have same: "y = x" if "y \<in> set (rd_realms db)"
      "rm_pk y = rm_pk x \<or> (rm_callgentId y = rm_callgentId x \<and> rm_realmKey y = rm_realmKey x)" for y
    using that x(1) ok by (auto simp: realm_db_ok_def distinct_map inj_on_def)
  have wr: "replaceRealm r db = Inr (db', r)"
  proof -
    have "\<not> (\<exists>y\<in>set (rd_realms db). rm_pk y \<noteq> rm_pk r \<and> rm_callgentId y = rm_callgentId r \<and> rm_realmKey y = rm_realmKey r)"
      unfolding own using same by blast
    moreover have "map (\<lambda>y. if rm_pk y = rm_pk r then r else y) (rd_realms db) = map (\<lambda>y. if y = x then r else y) (rd_realms db)"
      unfolding own(1) by (intro map_cong refl) (metis same)
    ultimately show ?thesis by (simp only: replaceRealm_def db'_def if_False)
  qed
  have first: "upsertRealm host ey scheme p servers db = Inr (db', r)"
    using wr by (simp add: upsertRealm_def look Some upsertWrite_def r_def)
  have found: "find_by_key db' (ey_callgentId ey) (rm_realmKey r1) = Some r"
    unfolding find_by_key_def rs
    by (rule find_replaced [OF x(1)]) (use own x in simp, use same x in metis)
  have stay: "map (\<lambda>y. if rm_pk y = rm_pk x then r else y) (rd_realms db') = rd_realms db'"
    unfolding rs map_map comp_def by (intro map_cong refl) (metis own(1) same)
  have "\<not> (\<exists>y\<in>set (rd_realms db'). rm_pk y \<noteq> rm_pk r \<and> rm_callgentId y = rm_callgentId r \<and> rm_realmKey y = rm_realmKey r)"
  proof safe
    fix y
    assume "y \<in> set (rd_realms db')" and k: "rm_callgentId y = rm_callgentId r" "rm_realmKey y = rm_realmKey r"
      and "rm_pk y \<noteq> rm_pk r"
    then obtain z where z: "z \<in> set (rd_realms db)" "y = (if z = x then r else z)" unfolding rs by auto
    with \<open>rm_pk y \<noteq> rm_pk r\<close> have "z \<noteq> x" "y = z" by (auto split: if_splits)
    with same [OF z(1)] k own show False by simp
  qed
  then have "replaceRealm r db' = Inr (db', r)"
    by (simp only: replaceRealm_def if_False own(1) stay) simp
  moreover have "r1\<lparr>rm_pk := rm_pk r, rm_callgentId := rm_callgentId r,
      rm_realm := (if rp_realm p = None then rm_realm r else rp_realm p),
      rm_secret := (if rp_secret p = None then rm_secret r else rp_secret p)\<rparr> = r"
    by (simp add: r_def)
  ultimately have "upsertRealm host ey scheme p servers db' = Inr (db', r)"
    by (simp add: upsertRealm_def look found upsertWrite_def)
  with first show ?thesis by blast
qed

lemma upsert_appends:
  assumes ok: "realm_db_ok db"
    and look: "\<And>d. upsertLook host ey scheme p servers d = Inr (r1, find_by_key d (ey_callgentId ey) (rm_realmKey r1))"
    and None: "find_by_key db (ey_callgentId ey) (rm_realmKey r1) = None"
    and r0: "rm_callgentId r1 = ey_callgentId ey" "rm_secret r1 = rp_secret p"
    and r_def: "r = r1\<lparr>rm_pk := rd_nextPk db, rm_realm := (if rp_realm p = None then Some [] else rp_realm p)\<rparr>"
    and db'_def: "db' = db\<lparr>rd_realms := rd_realms db @ [r], rd_nextPk := rd_nextPk db + 1\<rparr>"
  shows "upsertRealm host ey scheme p servers db = Inr (db', r) \<and> upsertRealm host ey scheme p servers db' = Inr (db', r)"
proof -
  have fresh: "\<forall>y\<in>set (rd_realms db). rm_pk y \<noteq> rm_pk r"
    using ok by (auto simp: realm_db_ok_def list_all_iff r_def)
  have other: "\<forall>y\<in>set (rd_realms db). \<not> (rm_callgentId y = ey_callgentId ey \<and> rm_realmKey y = rm_realmKey r1)"
    using None by (simp add: find_by_key_def find_None_iff)
  have first: "upsertRealm host ey scheme p servers db = Inr (db', r)"
    using None r0 by (simp add: upsertRealm_def look upsertWrite_def insertRealm_def Let_def db'_def r_def)
  have found: "find_by_key db' (ey_callgentId ey) (rm_realmKey r1) = Some r"
    using None r0 by (simp add: find_by_key_def db'_def find_app) (simp add: r_def)
  have "map (\<lambda>y. if rm_pk y = rm_pk r then r else y) (rd_realms db') = rd_realms db'"
    using fresh by (auto simp: db'_def intro!: map_idI)
  then have "replaceRealm r db' = Inr (db', r)"
    using other r0 by (auto simp: replaceRealm_def db'_def) (auto simp: r_def)
  moreover have "r1\<lparr>rm_pk := rm_pk r, rm_callgentId := rm_callgentId r,
      rm_realm := (if rp_realm p = None then rm_realm r else rp_realm p),
      rm_secret := (if rp_secret p = None then rm_secret r else rp_secret p)\<rparr> = r"
    using r0 by (simp add: r_def)
  ultimately have "upsertRealm host ey scheme p servers db' = Inr (db', r)"
    by (simp add: upsertRealm_def look found upsertWrite_def)
  with first show ?thesis by blast
qed

section \<open>Properties\<close>

text \<open>The processor of the type \<open>http\<close>, a class of its own, does in every method what the service of
  the realms expects of a processor of that type: it agrees with the generic operations.\<close>

theorem http_processor_agrees:
  "http_implyProvider host scheme ey servers = implyProvider AT_http host scheme ey servers \<and>
   http_getRealmKey scheme rlm = getRealmKey AT_http scheme rlm \<and>
   http_checkEnabled scheme r = checkEnabled scheme r \<and>
   http_attachToken enc r req = attachToken enc r req \<and>
   http_authProcess enc r e = authProcess enc r e"
  by (simp add: http_implyProvider_eq http_getRealmKey_eq http_checkEnabled_eq http_attachToken_eq http_authProcess_eq)

text \<open>C18. After any sequence of realm requests, an upsert whose scheme has a processor and a provider
  succeeds. If the callgent has a realm of the key of the scheme, this row and no other is
  replaced, under its primary key and with its secret unless a new one is given; otherwise one row
  with a new primary key is appended. It settles the realm: the same upsert again finds the row
  it wrote and changes nothing.\<close>

theorem upsert_settles_realm:
  assumes "db = fold (realm_step host0) ops (no_realms entries endpoints)" and "rp_pk p = None"
    and "getAuthProcessor (sc_type scheme) = Inr aty"
    and "constructRealm aty host scheme (patched_realm (ey_callgentId ey) scheme p) (Some ey) servers = Inr (scheme1, r0)"
  shows "\<exists>db' r. upsertRealm host ey scheme p servers db = Inr (db', r) \<and>
    r = r0\<lparr>rm_scheme := scheme1, rm_pk := rm_pk r, rm_realm := rm_realm r, rm_secret := rm_secret r\<rparr> \<and>
    (case find_by_key db (ey_callgentId ey) (rm_realmKey r0) of
       Some x \<Rightarrow> rm_pk r = rm_pk x \<and> rm_realm r = (if rp_realm p = None then rm_realm x else rp_realm p) \<and>
         rm_secret r = (if rp_secret p = None then rm_secret x else rp_secret p) \<and>
         db' = db\<lparr>rd_realms := map (\<lambda>y. if y = x then r else y) (rd_realms db)\<rparr>
     | None \<Rightarrow> rm_pk r = rd_nextPk db \<and> (\<forall>y\<in>set (rd_realms db). rm_pk y \<noteq> rm_pk r) \<and>
         rm_realm r = (if rp_realm p = None then Some [] else rp_realm p) \<and> rm_secret r = rp_secret p \<and>
         db' = db\<lparr>rd_realms := rd_realms db @ [r], rd_nextPk := rd_nextPk db + 1\<rparr>) \<and>
    upsertRealm host ey scheme p servers db' = Inr (db', r)"
proof -
  have ok: "realm_db_ok db" unfolding assms(1) by (rule key_runs.reached)
  have r0: "rm_callgentId r0 = ey_callgentId ey" "rm_secret r0 = rp_secret p"
    using constructRealm_enabled [OF assms(4)] by (simp_all add: patched_realm_def)
  have look: "upsertLook host ey scheme p servers d = Inr (r0\<lparr>rm_scheme := scheme1\<rparr>, find_by_key d (ey_callgentId ey) (rm_realmKey (r0\<lparr>rm_scheme := scheme1\<rparr>)))" for d
    using assms(2-4) by (simp add: upsertLook_def find_by_key_def Let_def)
  show ?thesis
  proof (cases "find_by_key db (ey_callgentId ey) (rm_realmKey r0)")
    case (Some x)
    define r where "r = r0\<lparr>rm_scheme := scheme1, rm_pk := rm_pk x, rm_callgentId := rm_callgentId x,
      rm_realm := (if rp_realm p = None then rm_realm x else rp_realm p),
      rm_secret := (if rp_secret p = None then rm_secret x else rp_secret p)\<rparr>"
    define db' where "db' = db\<lparr>rd_realms := map (\<lambda>y. if y = x then r else y) (rd_realms db)\<rparr>"
    have "upsertRealm host ey scheme p servers db = Inr (db', r) \<and> upsertRealm host ey scheme p servers db' = Inr (db', r)"
      by (rule upsert_replaces [OF ok look _ _ db'_def]) (simp_all add: Some r_def)
    then show ?thesis
      by (intro exI [of _ db'] exI [of _ r]) (use find_by_key_in [OF Some] r0 in \<open>simp add: Some db'_def, simp add: r_def\<close>)
  next
    case None
    define r where "r = r0\<lparr>rm_scheme := scheme1, rm_pk := rd_nextPk db, rm_realm := (if rp_realm p = None then Some [] else rp_realm p)\<rparr>"
    define db' where "db' = db\<lparr>rd_realms := rd_realms db @ [r], rd_nextPk := rd_nextPk db + 1\<rparr>"
    have "upsertRealm host ey scheme p servers db = Inr (db', r) \<and> upsertRealm host ey scheme p servers db' = Inr (db', r)"
      by (rule upsert_appends [OF ok look _ _ _ _ db'_def]) (simp_all add: None r0 r_def)
    moreover have "\<forall>y\<in>set (rd_realms db). rm_pk y \<noteq> rd_nextPk db" using ok by (auto simp: realm_db_ok_def list_all_iff)
    ultimately show ?thesis
      by (intro exI [of _ db'] exI [of _ r]) (use r0 in \<open>simp add: None db'_def, simp add: r_def\<close>)
  qed
qed

theorem upsert_settles_realm_witness:
  "\<exists>db' r. upsertRealm ex_url_host ex_openapi_entry (rm_scheme (ex_dto AT_apiKey (Some ''x-key'') (Some ''header''))) no_patch []
      (fold (realm_step ex_url_host) ex_ops (no_realms [] [])) = Inr (db', r) \<and>
    rm_pk r = 1 \<and> rm_secret r = Some (JStr ''s3cret'') \<and>
    upsertRealm ex_url_host ex_openapi_entry (rm_scheme (ex_dto AT_apiKey (Some ''x-key'') (Some ''header''))) no_patch [] db' = Inr (db', r)"
proof -
  let ?s = "rm_scheme (ex_dto AT_apiKey (Some ''x-key'') (Some ''header''))"
  obtain s1 r0 where c: "constructRealm AT_apiKey ex_url_host ?s (patched_realm (ey_callgentId ex_openapi_entry) ?s no_patch) (Some ex_openapi_entry) [] = Inr (s1, r0)"
      and k: "rm_realmKey r0 = ''apiKey:header:x-key:api.com:''"
    by (simp add: constructRealm_def implyProvider_def provider_url_def ex_dto_def ex_url_host_def to_lower_def lower_char_def getRealmKey_def
        patched_realm_def no_patch_def nonempty_str_def str_or_def Let_def)
  have "getAuthProcessor (sc_type ?s) = Inr AT_apiKey" by (simp add: getAuthProcessor_def ex_dto_def)
  from upsert_settles_realm [OF refl _ this c, of ex_url_host ex_ops "[]" "[]"] show ?thesis
    by (auto simp: no_patch_def k ex_openapi_entry_def ex_run find_by_key_def Let_def)
qed

text \<open>C17. After every sequence of requests, failed ones included, that create, import, update, delete and
  assign realms, a realm is enabled only if it can be attached: it has a secret that is a non-empty
  string, a provider, and a name and a place for its token.\<close>

theorem enabled_realms_usable:
  assumes "r \<in> set (rd_realms (fold (realm_step host) ops (no_realms entries endpoints)))" and "rm_enabled r"
  shows "\<exists>s p n i. rm_secret r = Some (JStr s) \<and> s \<noteq> [] \<and> sc_provider (rm_scheme r) = Some p \<and> p \<noteq> [] \<and>
     sc_name (rm_scheme r) = Some n \<and> n \<noteq> [] \<and> sc_in (rm_scheme r) = Some i \<and> i \<noteq> []"
  using realm_runs.reached [of host ops entries endpoints] assms
  by (auto simp: enabled_usable_def usable_def nonempty_str_iff)

theorem enabled_realms_usable_witness:
  "\<exists>r \<in> set (rd_realms (fold (realm_step ex_url_host) ex_ops (no_realms [] []))). rm_enabled r \<and> rm_secret r = Some (JStr ''s3cret'')"
proof -
  let ?db = "fold (realm_step ex_url_host) ex_ops (no_realms [] [])"
  let ?r = "hd (rd_realms ?db)"
  have r: "?r \<in> set (rd_realms ?db)" "rm_enabled ?r" and s: "rm_secret ?r = Some (JStr ''s3cret'')"
    by (simp_all add: ex_run Let_def)
  obtain x where "rm_secret ?r = Some (JStr x)" using enabled_realms_usable [OF r] by blast
  with r s show ?thesis by blast
qed

text \<open>The bearer and basic schemes of an OpenAPI description have no name and no place for the token,
  so their realms are never enabled, whatever secret they are given: a call that only they guard is
  refused.\<close>

theorem nameless_realms_refuse:
  assumes "re_realms env = rd_realms (fold (realm_step host) ops (no_realms entries endpoints))" and "secs \<noteq> []"
    and "\<And>sec. sec \<in> set secs \<Longrightarrow> \<exists>it r. first_item sec = Some it \<and> findRealm (re_realms env) (si_realmPk it) = Some r \<and>
           sc_name (rm_scheme r) = None"
  shows "\<exists>m. snd (checkSecurities env secs sep e) = Inl (Unauthorized m)"
proof (rule unusable_refused [OF realm_runs.reached assms(1,2)])
  fix sec
  assume "sec \<in> set secs"
  then obtain it r where "first_item sec = Some it" "findRealm (re_realms env) (si_realmPk it) = Some r" "sc_name (rm_scheme r) = None"
    using assms(3) by blast
  then show "\<exists>it r. first_item sec = Some it \<and>
      findRealm (rd_realms (fold (realm_step host) ops (no_realms entries endpoints))) (si_realmPk it) = Some r \<and> \<not> usable r"
    unfolding assms(1) usable_def nonempty_str_def by auto
qed

theorem nameless_realms_refuse_witness:
  "\<exists>m. snd (checkSecurities ((ex_realm_env [])\<lparr>re_realms := rd_realms (fold (realm_step ex_url_host) ex_ops (no_realms [] []))\<rparr>)
     [[(''2'', ex_item 2 (Some True))]] True (ex_call (JObj []))) = Inl (Unauthorized m)"
  by (rule nameless_realms_refuse [OF _ _ , of _ ex_url_host ex_ops "[]" "[]"])
    (simp_all add: ex_run findRealm_def first_item_def ex_item_def Let_def split: option.splits)

text \<open>C16. No read tells a secret: what the controller answers to a look at one realm or at the realms of a
  callgent depends on the tables only up to their secrets; of a secret it tells whether there is one.\<close>

theorem reads_hide_secrets:
  "api_findOne callgentId realmKey db = api_findOne callgentId realmKey (hide_secrets db) \<and>
   api_findAll callgentId db = api_findAll callgentId (hide_secrets db)"
proof
  show "api_findOne callgentId realmKey db = api_findOne callgentId realmKey (hide_secrets db)"
    unfolding api_findOne_def find_by_key_def hide_secrets_def
    by (simp add: find_map_same hide_secret_def [of x for x] option.map_comp comp_def mask_hidden [unfolded hide_secret_def])
  show "api_findAll callgentId db = api_findAll callgentId (hide_secrets db)"
    unfolding api_findAll_def hide_secrets_def
    by (simp add: filter_map_same js_sort_map_same hide_secret_def comp_def mask_hidden [unfolded hide_secret_def])
qed

text \<open>A realm whose provider is a host like \<open>httpbin.org\<close>, which starts with \<open>http\<close> but is no URL, can be
  created but never updated: the stored host is taken for a URL, and the update ends in a bad request.\<close>

theorem http_named_provider_sticks:
  assumes "createRealm host dto db = Inr (db1, r)" and "sc_type (rm_scheme dto) = rm_authType dto"
    and "sc_provider (rm_scheme r) = Some p" and "p \<noteq> []" and "prefix ''http'' (to_lower p)" and "host p = None"
  shows "api_update host (rm_callgentId r) (rm_realmKey r) None patch db1
     = Inl (BadRequest (''Invalid security provider, must be url: '' @ p))"
  using find_created [OF assms(1)] assms(2-)
  by (simp add: api_update_def updateRealm_def constructRealm_def implyProvider_def provider_url_def nonempty_str_def Let_def)

theorem http_named_provider_sticks_witness:
  "\<exists>db1 r. createRealm ex_url_host ((ex_dto AT_http None None)\<lparr>rm_scheme := (rm_scheme (ex_dto AT_http None None))
       \<lparr>sc_provider := Some ''https://httpbin.org''\<rparr>\<rparr>) (no_realms [] []) = Inr (db1, r) \<and>
     api_update ex_url_host ''cg'' (rm_realmKey r) None id db1
       = Inl (BadRequest ''Invalid security provider, must be url: httpbin.org'')"
proof -
  let ?dto = "(ex_dto AT_http None None)\<lparr>rm_scheme := (rm_scheme (ex_dto AT_http None None))\<lparr>sc_provider := Some ''https://httpbin.org''\<rparr>\<rparr>"
  obtain db1 r where c: "createRealm ex_url_host ?dto (no_realms [] []) = Inr (db1, r)"
      and p: "sc_provider (rm_scheme r) = Some ''httpbin.org''" and g: "rm_callgentId r = ''cg''"
    by (simp add: ex_dto_def ex_realm_def no_realms_def createRealm_def getAuthProcessor_def constructRealm_def implyProvider_def
        provider_url_def ex_url_host_def to_lower_def lower_char_def insertRealm_def find_by_key_def nonempty_str_def Let_def)
  from http_named_provider_sticks [OF c _ p, of id] c g show ?thesis
    by (simp add: ex_dto_def to_lower_def lower_char_def ex_url_host_def)
qed

end
