(* ===== verification/Seed.thy ===== *)
theory Seed
  imports Llm EventListeners
begin

text \<open>
  \<open>prisma/seed.ts\<close>: the rows a fresh installation starts from. The seed upserts the listeners of the
  pipeline (\<open>EventListeners\<close>), the prompt templates of the language model (\<open>Llm\<close>), the tags of the hub and
  the prices of the models (\<open>Billing\<close>) in one transaction. It is run again with every release, so what
  matters is that a second run changes nothing but the times of the last update and that it leaves the
  other rows alone; and the price functions, which are texts in the database, must charge whole units.
\<close>

section \<open>Upserts\<close>

text \<open>
  A table with a unique key. \<open>cols s r\<close> is the row \<open>r\<close> with the columns that the seed \<open>s\<close> gives; \<open>clash\<close> is a
  conflict on another unique index. The first conflict ends the transaction.
\<close>

definition seed_row :: "('r \<Rightarrow> 'k) \<Rightarrow> ('r \<Rightarrow> 'r \<Rightarrow> 'r) \<Rightarrow> ('r \<Rightarrow> 'r \<Rightarrow> bool) \<Rightarrow> 'r \<Rightarrow> 'r list \<Rightarrow> 'r list result" where
  "seed_row key cols clash s rows =
     (case find (\<lambda>r. key r = key s) rows of
        None \<Rightarrow> if \<exists>x\<in>set rows. clash s x then Inl (PlainError ''Unique constraint failed'') else Inr (rows @ [s])
      | Some r \<Rightarrow>
          if \<exists>x\<in>set rows. key x \<noteq> key s \<and> clash (cols s r) x then Inl (PlainError ''Unique constraint failed'')
          else Inr (map (\<lambda>x. if key x = key s then cols s x else x) rows))"

fun upsert_all :: "('r \<Rightarrow> 'k) \<Rightarrow> ('r \<Rightarrow> 'r \<Rightarrow> 'r) \<Rightarrow> ('r \<Rightarrow> 'r \<Rightarrow> bool) \<Rightarrow> 'r list \<Rightarrow> 'r list \<Rightarrow> 'r list result" where
  "upsert_all key cols clash [] rows = Inr rows"
| "upsert_all key cols clash (s # ss) rows = and_then (seed_row key cols clash s rows) (upsert_all key cols clash ss)"

text \<open>What the unique indexes of a table promise, and that a row carries what the seed gives it.\<close>

definition unique_rows :: "('r \<Rightarrow> 'k) \<Rightarrow> ('r \<Rightarrow> 'r \<Rightarrow> bool) \<Rightarrow> 'r list \<Rightarrow> bool" where
  "unique_rows key clash rows \<longleftrightarrow> distinct (map key rows) \<and> (\<forall>x\<in>set rows. \<forall>y\<in>set rows. key x \<noteq> key y \<longrightarrow> \<not> clash x y)"

definition seeded :: "('r \<Rightarrow> 'k) \<Rightarrow> ('r \<Rightarrow> 'r \<Rightarrow> 'r) \<Rightarrow> 'r \<Rightarrow> 'r list \<Rightarrow> bool" where
  "seeded key cols s rows \<longleftrightarrow> (\<exists>r\<in>set rows. key r = key s \<and> cols s r = r)"

text \<open>The tables with a column \<open>updatedAt\<close>: a row comes with the time of its last write, and every upsert writes
  the row, also where it changes nothing else.\<close>

definition touch :: "('r \<Rightarrow> 'r \<Rightarrow> 'r) \<Rightarrow> 'r \<times> int \<Rightarrow> 'r \<times> int \<Rightarrow> 'r \<times> int" where
  "touch cols s r = (cols (fst s) (fst r), snd s)"

definition row_key :: "('r \<Rightarrow> 'k) \<Rightarrow> 'r \<times> int \<Rightarrow> 'k" where
  "row_key key r = key (fst r)"

definition row_clash :: "('r \<Rightarrow> 'r \<Rightarrow> bool) \<Rightarrow> 'r \<times> int \<Rightarrow> 'r \<times> int \<Rightarrow> bool" where
  "row_clash clash x y = clash (fst x) (fst y)"

definition at_time :: "int \<Rightarrow> 'r list \<Rightarrow> ('r \<times> int) list" where
  "at_time now ss = map (\<lambda>s. (s, now)) ss"

definition upsert_timed :: "('r \<Rightarrow> 'k) \<Rightarrow> ('r \<Rightarrow> 'r \<Rightarrow> 'r) \<Rightarrow> ('r \<Rightarrow> 'r \<Rightarrow> bool) \<Rightarrow> int \<Rightarrow> 'r list \<Rightarrow> ('r \<times> int) list \<Rightarrow> ('r \<times> int) list result" where
  "upsert_timed key cols clash now ss rows = upsert_all (row_key key) (touch cols) (row_clash clash) (at_time now ss) rows"

text \<open>The rows of the seed with a new time, the others as they are.\<close>

definition retimed :: "('r \<Rightarrow> 'k) \<Rightarrow> int \<Rightarrow> 'r list \<Rightarrow> ('r \<times> int) list \<Rightarrow> ('r \<times> int) list" where
  "retimed key now ss rows = map (\<lambda>x. (fst x, if key (fst x) \<in> key ` set ss then now else snd x)) rows"

text \<open>The laws of a seeded table, and what they give.\<close>

locale seeded_table =
  fixes key :: "'r \<Rightarrow> 'k" and cols :: "'r \<Rightarrow> 'r \<Rightarrow> 'r" and clash :: "'r \<Rightarrow> 'r \<Rightarrow> bool"
  assumes key_cols: "key r = key s \<Longrightarrow> key (cols s r) = key s"
    and cols_idem: "cols s (cols s r) = cols s r"
    and cols_self: "cols s s = s"
    and clash_sym: "clash x y \<Longrightarrow> clash y x"
begin

lemma seed_row_cases:
  assumes "seed_row key cols clash s rows = Inr rows'"
  obtains (new) "key s \<notin> key ` set rows" "\<forall>x\<in>set rows. \<not> clash s x" "rows' = rows @ [s]"
    | (old) r where "r \<in> set rows" "key r = key s" "\<forall>x\<in>set rows. key x \<noteq> key s \<longrightarrow> \<not> clash (cols s r) x"
        "rows' = map (\<lambda>x. if key x = key s then cols s x else x) rows"
proof (cases "find (\<lambda>r. key r = key s) rows")
  case None
  with assms show ?thesis by (intro new) (auto simp: seed_row_def find_None_iff split: if_splits)
next
  case (Some r)
  then have "r \<in> set rows" "key r = key s" by (auto simp: find_Some_iff)
  with assms Some show ?thesis by (intro old [of r]) (auto simp: seed_row_def split: if_splits)
qed

lemma same_key_row: "distinct (map key rows) \<Longrightarrow> x \<in> set rows \<Longrightarrow> y \<in> set rows \<Longrightarrow> key x = key y \<Longrightarrow> x = y"
  by (auto simp: distinct_map inj_on_def)

lemma seed_row_ok:
  assumes "unique_rows key clash rows" and "seed_row key cols clash s rows = Inr rows'"
  shows "unique_rows key clash rows' \<and> seeded key cols s rows' \<and> (\<forall>r. key r \<noteq> key s \<longrightarrow> r \<in> set rows' \<longleftrightarrow> r \<in> set rows)"
  using assms(2)
proof (cases rule: seed_row_cases)
  case new
  then show ?thesis
    using assms(1) by (auto simp: unique_rows_def seeded_def cols_self dest: clash_sym)
next
  case (old r)
  let ?f = "\<lambda>x. if key x = key s then cols s x else x"
  have keys: "map key (map ?f rows) = map key rows" by (induction rows) (auto simp: key_cols)
  have only: "x = r" if "x \<in> set rows" "key x = key s" for x
    using same_key_row [OF _ that(1) old(1)] that(2) old(2) assms(1) by (simp add: unique_rows_def)
  have clashes: "\<not> clash x y" if xy: "x \<in> set (map ?f rows)" "y \<in> set (map ?f rows)" "key x \<noteq> key y" for x y
  proof -
    obtain a b where ab: "a \<in> set rows" "x = ?f a" "b \<in> set rows" "y = ?f b" using xy(1,2) by auto
    have "key a \<noteq> key b" using ab xy(3) by (auto simp: key_cols split: if_splits)
    then show ?thesis using ab assms(1) old(3) only [of a] only [of b]
      by (auto simp: unique_rows_def dest: clash_sym split: if_splits)
  qed
  have "unique_rows key clash rows'"
    using assms(1) clashes unfolding unique_rows_def old(4) keys by blast
  moreover have "seeded key cols s rows'"
    using old(1,2) by (auto simp: seeded_def old(4) key_cols cols_idem intro!: bexI [of _ "cols s r"])
  moreover have "\<forall>r. key r \<noteq> key s \<longrightarrow> r \<in> set rows' \<longleftrightarrow> r \<in> set rows"
    using old(4) by (auto simp: key_cols)
  ultimately show ?thesis by blast
qed

lemma upsert_all_ok:
  assumes "unique_rows key clash rows" and "upsert_all key cols clash ss rows = Inr rows'" and "distinct (map key ss)"
  shows "unique_rows key clash rows' \<and> (\<forall>s\<in>set ss. seeded key cols s rows') \<and> (\<forall>r. key r \<notin> key ` set ss \<longrightarrow> r \<in> set rows' \<longleftrightarrow> r \<in> set rows)"
  using assms
proof (induction ss arbitrary: rows)
  case Nil
  then show ?case by simp
next
  case (Cons s ss)
  obtain mid where m: "seed_row key cols clash s rows = Inr mid" and rest: "upsert_all key cols clash ss mid = Inr rows'"
    using Cons.prems(2) by (auto simp: outcome_simps)
  have mo: "unique_rows key clash mid" "seeded key cols s mid" "\<And>r. key r \<noteq> key s \<Longrightarrow> r \<in> set mid \<longleftrightarrow> r \<in> set rows"
    using seed_row_ok [OF Cons.prems(1) m] by auto
  have ih: "unique_rows key clash rows'" "\<forall>s\<in>set ss. seeded key cols s rows'" "\<And>r. key r \<notin> key ` set ss \<Longrightarrow> r \<in> set rows' \<longleftrightarrow> r \<in> set mid"
    using Cons.IH [OF mo(1) rest] Cons.prems(3) by auto
  have "seeded key cols s rows'"
    using mo(2) ih(3) Cons.prems(3) by (auto simp: seeded_def)
  with ih mo(3) show ?case by auto
qed

lemma upsert_seeded_id:
  assumes "unique_rows key clash rows" and "seeded key cols s rows"
  shows "seed_row key cols clash s rows = Inr rows"
proof -
  obtain r where r: "r \<in> set rows" "key r = key s" "cols s r = r" using assms(2) by (auto simp: seeded_def)
  have d: "distinct (map key rows)" using assms(1) by (simp add: unique_rows_def)
  have only: "x = r" if "x \<in> set rows" "key x = key s" for x
    using same_key_row [OF d that(1) r(1)] that(2) r(2) by simp
  have "find (\<lambda>x. key x = key s) rows \<noteq> None" using r(1,2) by (auto simp: find_None_iff)
  then obtain x where x: "find (\<lambda>x. key x = key s) rows = Some x" by auto
  then have "x = r" using only by (auto simp: find_Some_iff)
  moreover have "\<not> (\<exists>x\<in>set rows. key x \<noteq> key s \<and> clash r x)"
    using assms(1) r by (auto simp: unique_rows_def)
  moreover have "map (\<lambda>x. if key x = key s then cols s x else x) rows = rows"
    using only r(3) by (intro map_idI) auto
  ultimately show ?thesis using x r(3) by (simp add: seed_row_def)
qed

lemma upsert_twice:
  assumes "unique_rows key clash rows" and "upsert_all key cols clash ss rows = Inr rows'" and "distinct (map key ss)"
  shows "upsert_all key cols clash ss rows' = Inr rows'"
proof -
  have ok: "unique_rows key clash rows'" "\<forall>s\<in>set ss. seeded key cols s rows'" using upsert_all_ok [OF assms] by auto
  have "upsert_all key cols clash ts rows' = Inr rows'" if "set ts \<subseteq> set ss" for ts
    using that ok by (induction ts) (simp_all add: upsert_seeded_id)
  then show ?thesis by simp
qed

lemma upsert_fresh:
  assumes "unique_rows key clash (rows @ ss)"
  shows "upsert_all key cols clash ss rows = Inr (rows @ ss)"
  using assms
proof (induction ss arbitrary: rows)
  case Nil
  then show ?case by simp
next
  case (Cons s ss)
  have new: "\<forall>x\<in>set rows. key x \<noteq> key s"
    using Cons.prems by (auto simp: unique_rows_def image_iff)
  then have "find (\<lambda>r. key r = key s) rows = None" by (auto simp: find_None_iff)
  moreover have "\<not> (\<exists>x\<in>set rows. clash s x)"
    using Cons.prems new by (auto simp: unique_rows_def)
  ultimately have "seed_row key cols clash s rows = Inr (rows @ [s])" by (simp add: seed_row_def)
  then show ?case using Cons.IH [of "rows @ [s]"] Cons.prems by simp
qed

lemma timed: "seeded_table (row_key key) (touch cols) (row_clash clash)"
  by unfold_locales (auto simp: row_key_def touch_def row_clash_def key_cols cols_idem cols_self intro: clash_sym)

lemma upsert_later:
  assumes "unique_rows (row_key key) (row_clash clash) rows"
    and "\<And>s. s \<in> set ss \<Longrightarrow> \<exists>r\<in>set rows. key (fst r) = key s \<and> cols s (fst r) = fst r"
  shows "upsert_timed key cols clash now ss rows = Inr (retimed key now ss rows)"
  using assms
proof (induction ss arbitrary: rows)
  case Nil
  then show ?case by (simp add: upsert_timed_def at_time_def retimed_def)
next
  case (Cons s ss)
  obtain r where r: "r \<in> set rows" "key (fst r) = key s" "cols s (fst r) = fst r" using Cons.prems(2) [of s] by auto
  have d: "distinct (map (row_key key) rows)" using Cons.prems(1) by (simp add: unique_rows_def)
  have only: "x = r" if "x \<in> set rows" "key (fst x) = key s" for x
    using seeded_table.same_key_row [OF timed d that(1) r(1)] that(2) r(2) by (simp add: row_key_def)
  let ?mid = "map (\<lambda>x. (fst x, if key (fst x) = key s then now else snd x)) rows"
  have "find (\<lambda>x. row_key key x = row_key key (s, now)) rows \<noteq> None" using r(1,2) unfolding find_None_iff row_key_def by (metis fst_conv)
  then obtain x where x: "find (\<lambda>x. row_key key x = row_key key (s, now)) rows = Some x" by auto
  then have "x \<in> set rows" "key (fst x) = key s" by (auto simp: find_Some_iff row_key_def)
  then have xr: "x = r" by (rule only)
  have "\<not> row_clash clash (touch cols (s, now) r) y" if "y \<in> set rows" "row_key key y \<noteq> row_key key (s, now)" for y
  proof -
    have "row_key key r \<noteq> row_key key y" using that(2) r(2) by (simp add: row_key_def)
    then have "\<not> row_clash clash r y" using Cons.prems(1) r(1) that(1) unfolding unique_rows_def by blast
    then show ?thesis using r(3) by (simp add: row_clash_def touch_def)
  qed
  then have "\<not> (\<exists>y\<in>set rows. row_key key y \<noteq> row_key key (s, now) \<and> row_clash clash (touch cols (s, now) r) y)" by blast
  moreover have "map (\<lambda>y. if row_key key y = row_key key (s, now) then touch cols (s, now) y else y) rows = ?mid"
    using only r(3) by (intro map_cong refl) (auto simp: row_key_def touch_def)
  ultimately have step: "seed_row (row_key key) (touch cols) (row_clash clash) (s, now) rows = Inr ?mid"
    using x xr by (simp add: seed_row_def)
  have keys: "map (row_key key) ?mid = map (row_key key) rows" by (simp add: row_key_def comp_def)
  have "unique_rows (row_key key) (row_clash clash) ?mid"
    using Cons.prems(1) unfolding unique_rows_def keys by (auto simp: row_key_def row_clash_def)
  moreover have "\<exists>r\<in>set ?mid. key (fst r) = key s' \<and> cols s' (fst r) = fst r" if "s' \<in> set ss" for s'
    using Cons.prems(2) [of s'] that by auto
  ultimately have "upsert_timed key cols clash now ss ?mid = Inr (retimed key now ss ?mid)" by (rule Cons.IH)
  then show ?case using step by (simp add: upsert_timed_def at_time_def retimed_def comp_def image_iff)
qed

lemma upsert_timed_ok:
  assumes "unique_rows (row_key key) (row_clash clash) rows" and "upsert_timed key cols clash now ss rows = Inr rows'" and "distinct (map key ss)"
  shows "unique_rows (row_key key) (row_clash clash) rows'"
    and "s \<in> set ss \<Longrightarrow> \<exists>r\<in>set rows'. key (fst r) = key s \<and> cols s (fst r) = fst r"
    and "key (fst r) \<notin> key ` set ss \<Longrightarrow> r \<in> set rows' \<longleftrightarrow> r \<in> set rows"
proof -
  have d: "distinct (map (row_key key) (at_time now ss))" using assms(3) by (simp add: at_time_def row_key_def comp_def)
  note ok = seeded_table.upsert_all_ok [OF timed assms(1) assms(2) [unfolded upsert_timed_def] d]
  show "unique_rows (row_key key) (row_clash clash) rows'" using ok by blast
  show "\<exists>r\<in>set rows'. key (fst r) = key s \<and> cols s (fst r) = fst r" if "s \<in> set ss"
    using ok that by (fastforce simp: at_time_def seeded_def row_key_def touch_def)
  show "r \<in> set rows' \<longleftrightarrow> r \<in> set rows" if "key (fst r) \<notin> key ` set ss"
    using ok that by (cases r) (auto simp: at_time_def row_key_def image_image)
qed

lemma upsert_timed_twice:
  assumes "unique_rows (row_key key) (row_clash clash) rows" and "upsert_timed key cols clash now ss rows = Inr rows'" and "distinct (map key ss)"
  shows "upsert_timed key cols clash later ss rows' = Inr (retimed key later ss rows')"
  using upsert_timed_ok [OF assms] by (intro upsert_later)

lemma upsert_timed_fresh:
  assumes "unique_rows key clash ss"
  shows "upsert_timed key cols clash now ss [] = Inr (at_time now ss)"
proof -
  have "unique_rows (row_key key) (row_clash clash) (at_time now ss)"
    using assms by (auto simp: unique_rows_def at_time_def row_key_def row_clash_def comp_def)
  then show ?thesis using seeded_table.upsert_fresh [OF timed, of "[]" "at_time now ss"] by (simp add: upsert_timed_def)
qed

end

section \<open>The tables of the seed\<close>

text \<open>
  \<open>seed_listeners\<close> gives every column of \<open>listener\<close> but the time of its deletion: a listener that was
  removed stays removed.
\<close>

definition listener_cols :: "listener \<Rightarrow> listener \<Rightarrow> listener" where
  "listener_cols s r = s\<lparr>l_deletedAt := l_deletedAt r\<rparr>"

definition no_clash :: "'r \<Rightarrow> 'r \<Rightarrow> bool" where
  "no_clash x y = False"

text \<open>The names of the templates; \<open>prompt\<close> is their texts.\<close>

definition template_names :: "string list" where
  "template_names = [''map2Endpoint'', ''chooseEndpoints'', ''reChooseEndpoints'', ''confirmEndpoints'', ''confirmEndpointsArgs'',
     ''reConfirmEndpointsArgs'', ''generateTaskScript'', ''convert2Response'', ''summarizeEntry'', ''summarizeCallgent'',
     ''genVue1Route'', ''genVue2Components'', ''genVue3Component'', ''genVue4Store'', ''genVue5View'']"

definition seed_templates :: "(string \<Rightarrow> string) \<Rightarrow> string obj" where
  "seed_templates prompt = map (\<lambda>n. (n, prompt n)) template_names"

definition template_cols :: "string \<times> string \<Rightarrow> string \<times> string \<Rightarrow> string \<times> string" where
  "template_cols s r = s"

text \<open>The tags. Only the first has a primary key of its own; the others get \<open>draw\<close>, the number the sequence
  has for them when they are new.\<close>

record tag_row =
  tg_pk :: int
  tg_name :: string
  tg_avatar :: "string option"
  tg_description :: string

definition tag_texts :: "(string \<times> string) list" where
  "tag_texts =
    [(''Unlabelled'', ''APIs that do not fall into any specific category''),
     (''App Security'', ''APIs to enhance the security of applications by protecting them from various cybersecurity threats''),
     (''Artificial Intelligence'', ''Ready to use APIs to add Artificial intelligence capabilities to your app such as predictive analysis, bots, and language conversions''),
     (''Communication'', ''APIs enabling the exchange of information and news via messaging, meetings, push notifications, survey forms''),
     (''Data Analytics'', ''APIs enabling seamless data generation, processing, analysis, and visualization''),
     (''Database'', ''Discover public APIs to retrieve data and work with databases''),
     (''Developer Productivity'', ''Must-fork APIs to improve productivity during the software development lifecycle and fasten the execution process''),
     (''DevOps'', ''APIs to enable quick CI/CD, build automation, containerization, config management during code deployment process''),
     (''E-commerce'', ''Ready to use APIs to streamline online shopping, logistics, catalogs, and inventory management to create exceptional e-commerce applications.''),
     (''eSignature'', ''Handpicked APIs for seamless e-signatures and document signing, empowering developers to build exceptional applications.''),
     (''Financial Services'', ''Banking and stock market APIs for managing personal finance, real-time trading and integrating with financial institutions''),
     (''Payments'', ''APIs to seamlessly integrate and manage payments in your apps''),
     (''Travel'', ''Exciting Travel APIs for seamless retrieval of real'')]"

definition seed_tag :: "(string \<Rightarrow> int) \<Rightarrow> string \<times> string \<Rightarrow> tag_row" where
  "seed_tag draw t = \<lparr>tg_pk = (if fst t = ''Unlabelled'' then -1 else draw (fst t)), tg_name = fst t, tg_avatar = None, tg_description = snd t\<rparr>"

definition seed_tags :: "(string \<Rightarrow> int) \<Rightarrow> tag_row list" where
  "seed_tags draw = map (seed_tag draw) tag_texts"

definition tag_cols :: "tag_row \<Rightarrow> tag_row \<Rightarrow> tag_row" where
  "tag_cols s r = s\<lparr>tg_pk := (if tg_name s = ''Unlabelled'' then tg_pk s else tg_pk r), tg_avatar := (case tg_avatar s of None \<Rightarrow> tg_avatar r | a \<Rightarrow> a)\<rparr>"

definition tag_clash :: "tag_row \<Rightarrow> tag_row \<Rightarrow> bool" where
  "tag_clash x y \<longleftrightarrow> tg_pk x = tg_pk y"

text \<open>The prices. The provider of a new row is the default of its column.\<close>

record price_row = pricing +
  pr_pk :: int
  pr_alias :: "string option"

definition js_lines :: "string list \<Rightarrow> string" where
  "js_lines ls = join_char (CHR 0x0A) ls"

definition deepseek_method :: string where
  "deepseek_method = js_lines
     [''(u, p)=> {'', ''  const pit = u.prompt_cache_miss_tokens * p.pricePerInputToken / p.token;'',
      ''  const pot = u.completion_tokens * p.pricePerOutputToken / p.token;'',
      ''  const pct = u.prompt_cache_hit_tokens * p.pricePerCacheHitToken / p.token;'', ''  return pit + pot + pct;'', ''}'']"

definition gemini_method :: string where
  "gemini_method = js_lines
     [''(u, p)=> {'', ''  const pit = u.prompt_tokens * p.pricePerInputToken / p.token;'',
      ''  const pot = u.completion_tokens * p.pricePerOutputToken / p.token;'', ''  return pit + pot;'', ''}'']"

definition seed_pricing :: "price_row list" where
  "seed_pricing =
     [\<lparr>pc_model = ''deepseek-chat'', pc_provider = [],
       pc_price = JObj [(''pricePerInputToken'', JNum 27000000000), (''pricePerOutputToken'', JNum 110000000000),
                        (''pricePerCacheHitToken'', JNum 7000000000), (''token'', JNum 1000000)],
       pc_currency = ''USD'', pc_method = deepseek_method, pr_pk = 1, pr_alias = Some ''deepseek-V3''\<rparr>,
      \<lparr>pc_model = ''google/gemini-2.0-flash-001'', pc_provider = [],
       pc_price = JObj [(''pricePerInputToken'', JNum 10000000000), (''pricePerOutputToken'', JNum 40000000000), (''token'', JNum 1000000)],
       pc_currency = ''USD'', pc_method = gemini_method, pr_pk = 2, pr_alias = None\<rparr>]"

definition price_cols :: "price_row \<Rightarrow> price_row \<Rightarrow> price_row" where
  "price_cols s r = s\<lparr>pc_provider := pc_provider r, pr_alias := (case pr_alias s of None \<Rightarrow> pr_alias r | a \<Rightarrow> a)\<rparr>"

definition price_clash :: "price_row \<Rightarrow> price_row \<Rightarrow> bool" where
  "price_clash x y \<longleftrightarrow> pc_model x = pc_model y \<and> pc_provider x = pc_provider y"

text \<open>The tags have no time of update.\<close>

record seed_tables =
  st_listeners :: "(listener \<times> int) list"
  st_templates :: "((string \<times> string) \<times> int) list"
  st_tags :: "tag_row list"
  st_pricing :: "(price_row \<times> int) list"

text \<open>\<open>initData\<close>: all upserts in one transaction, at the time \<open>now\<close>. Where one fails, nothing is written and the
  process exits.\<close>

definition initData :: "(string \<Rightarrow> string) \<Rightarrow> (string \<Rightarrow> int) \<Rightarrow> int \<Rightarrow> seed_tables \<Rightarrow> seed_tables result" where
  "initData prompt draw now db =
     and_then (upsert_timed l_id listener_cols no_clash now seed_listeners (st_listeners db)) (\<lambda>ls.
     and_then (upsert_timed fst template_cols no_clash now (seed_templates prompt) (st_templates db)) (\<lambda>ts.
     and_then (upsert_all tg_name tag_cols tag_clash (seed_tags draw) (st_tags db)) (\<lambda>gs.
     and_then (upsert_timed pr_pk price_cols price_clash now seed_pricing (st_pricing db)) (\<lambda>ps.
       Inr \<lparr>st_listeners = ls, st_templates = ts, st_tags = gs, st_pricing = ps\<rparr>))))"

definition seed_db_ok :: "seed_tables \<Rightarrow> bool" where
  "seed_db_ok db \<longleftrightarrow> unique_rows (row_key l_id) (row_clash no_clash) (st_listeners db) \<and>
     unique_rows (row_key fst) (row_clash no_clash) (st_templates db) \<and>
     unique_rows tg_name tag_clash (st_tags db) \<and> unique_rows (row_key pr_pk) (row_clash price_clash) (st_pricing db)"

interpretation listeners: seeded_table l_id listener_cols no_clash
  by unfold_locales (simp_all add: listener_cols_def no_clash_def)

interpretation templates: seeded_table fst template_cols no_clash
  by unfold_locales (simp_all add: template_cols_def no_clash_def)

interpretation tags: seeded_table tg_name tag_cols tag_clash
  by unfold_locales (auto simp: tag_cols_def tag_clash_def split: option.splits)

interpretation prices: seeded_table pr_pk price_cols price_clash
  by unfold_locales (auto simp: price_cols_def price_clash_def split: option.splits)

lemma seed_keys:
  "distinct (map l_id seed_listeners)" "distinct (map fst (seed_templates prompt))"
  "distinct (map tg_name (seed_tags draw))" "distinct (map pr_pk seed_pricing)"
  by (simp_all add: seed_listeners_def seed_listener_def seed_templates_def template_names_def seed_tags_def seed_tag_def tag_texts_def
      seed_pricing_def)

lemma initData_Inr:
  assumes "initData prompt draw now db = Inr db'"
  shows "upsert_timed l_id listener_cols no_clash now seed_listeners (st_listeners db) = Inr (st_listeners db')"
    and "upsert_timed fst template_cols no_clash now (seed_templates prompt) (st_templates db) = Inr (st_templates db')"
    and "upsert_all tg_name tag_cols tag_clash (seed_tags draw) (st_tags db) = Inr (st_tags db')"
    and "upsert_timed pr_pk price_cols price_clash now seed_pricing (st_pricing db) = Inr (st_pricing db')"
  using assms by (auto simp: initData_def outcome_simps)

section \<open>The price functions\<close>

text \<open>
  What the two texts compute. A count that is missing is \<open>undefined\<close>, and the arithmetic on it is not a
  number; a string of digits counts as its number, other strings are taken for no number. The products
  are exact in double precision as long as a count is below \<open>2 ^ 26\<close> (lemma \<open>price_products_exact\<close>).
\<close>

definition json_num :: "json \<Rightarrow> string \<Rightarrow> rat option result" where
  "json_num j k =
     (case j of
        JNull \<Rightarrow> Inl (TypeError ''Cannot read properties of null'')
      | JObj kvs \<Rightarrow> Inr (case obj_get kvs k of
            Some (JNum n) \<Rightarrow> Some n
          | Some (JBool b) \<Rightarrow> Some (if b then 1 else 0)
          | Some JNull \<Rightarrow> Some 0
          | Some (JStr t) \<Rightarrow> if list_all is_digit t then Some (of_nat (digits_val t)) else None
          | _ \<Rightarrow> None)
      | _ \<Rightarrow> Inr None)"

definition per_token :: "json \<Rightarrow> string \<Rightarrow> json \<Rightarrow> string \<Rightarrow> rat option result" where
  "per_token u k p q =
     and_then (json_num u k) (\<lambda>n. and_then (json_num p q) (\<lambda>x. and_then (json_num p ''token'') (\<lambda>t.
       Inr (case (n, x, t) of (Some n, Some x, Some t) \<Rightarrow> if t = 0 then None else Some (n * x / t) | _ \<Rightarrow> None))))"

fun add_num :: "rat option \<Rightarrow> rat option \<Rightarrow> rat option" where
  "add_num (Some a) (Some b) = Some (a + b)"
| "add_num _ _ = None"

definition deepseek_price :: price_fun where
  "deepseek_price u p =
     and_then (per_token u ''prompt_cache_miss_tokens'' p ''pricePerInputToken'') (\<lambda>pit.
     and_then (per_token u ''completion_tokens'' p ''pricePerOutputToken'') (\<lambda>pot.
     and_then (per_token u ''prompt_cache_hit_tokens'' p ''pricePerCacheHitToken'') (\<lambda>pct.
       Inr (add_num (add_num pit pot) pct))))"

definition gemini_price :: price_fun where
  "gemini_price u p =
     and_then (per_token u ''prompt_tokens'' p ''pricePerInputToken'') (\<lambda>pit.
     and_then (per_token u ''completion_tokens'' p ''pricePerOutputToken'') (\<lambda>pot.
       Inr (add_num pit pot)))"

lemma price_products_exact:
  assumes "n < (2::nat) ^ 26" and "x \<in> {27000000000, 110000000000, 7000000000, 10000000000, 40000000000}"
  shows "\<exists>m k. n * x = m * 2 ^ k \<and> m < 2 ^ 53"
proof -
  obtain y k where x: "x = y * 2 ^ k" and y: "y < 2 ^ 27"
  proof -
    show thesis
      using assms(2) that [of 52734375 9] that [of 107421875 10] that [of 13671875 9] that [of 9765625 10] that [of 9765625 12]
      by auto
  qed
  have "n * y < 2 ^ 26 * 2 ^ 27" using assms(1) y by (intro mult_strict_mono) simp_all
  then show ?thesis using x by (intro exI [of _ "n * y"] exI [of _ k]) simp
qed

definition deepseek_usage :: "nat \<Rightarrow> nat \<Rightarrow> nat \<Rightarrow> json" where
  "deepseek_usage miss hit out =
     JObj [(''prompt_cache_miss_tokens'', JNum (of_nat miss)), (''prompt_cache_hit_tokens'', JNum (of_nat hit)),
           (''completion_tokens'', JNum (of_nat out))]"

lemma deepseek_cost:
  "deepseek_price (deepseek_usage miss hit out) (pc_price (hd seed_pricing)) = Inr (Some (of_nat (27000 * miss + 7000 * hit + 110000 * out)))"
  by (simp add: deepseek_price_def per_token_def json_num_def deepseek_usage_def seed_pricing_def obj_get_def)

definition fresh_tables :: seed_tables where
  "fresh_tables = \<lparr>st_listeners = [], st_templates = [], st_tags = [], st_pricing = []\<rparr>"

lemma seed_pricing_unique: "unique_rows pr_pk price_clash seed_pricing"
  by (simp add: unique_rows_def seed_pricing_def price_clash_def)

section \<open>Properties\<close>


definition ex_draw :: "string \<Rightarrow> int" where
  "ex_draw n = int (pos_of n (map fst tag_texts))"

definition ex_tables :: "int \<Rightarrow> seed_tables" where
  "ex_tables now = \<lparr>st_listeners = at_time now seed_listeners, st_templates = at_time now (seed_templates (\<lambda>n. n)),
     st_tags = seed_tags ex_draw, st_pricing = at_time now seed_pricing\<rparr>"

lemma ex_tags_unique: "unique_rows tg_name tag_clash (seed_tags ex_draw)"
  using seed_keys(3) [of ex_draw]
  by (simp add: unique_rows_def) (simp add: tag_clash_def seed_tags_def seed_tag_def tag_texts_def ex_draw_def)

lemma ex_fresh: "initData (\<lambda>n. n) ex_draw now fresh_tables = Inr (ex_tables now)"
proof -
  have u: "unique_rows l_id no_clash seed_listeners" "unique_rows fst no_clash (seed_templates (\<lambda>n. n))"
    using seed_keys(1,2) by (simp_all add: unique_rows_def no_clash_def)
  show ?thesis
    using listeners.upsert_timed_fresh [OF u(1)] templates.upsert_timed_fresh [OF u(2)] prices.upsert_timed_fresh [OF seed_pricing_unique]
      tags.upsert_fresh [of "[]" "seed_tags ex_draw"] ex_tags_unique
    by (simp add: initData_def fresh_tables_def ex_tables_def)
qed


text \<open>C24. The installed prices charge whole units: a completion of \<open>deepseek-chat\<close> that reports its three token
  counts, whatever provider served it, is booked with exactly 27000 units per missed prompt token, 7000 per
  cached one and 110000 per answered one ($1 is 1e11 units), and the balance falls by that amount.\<close>

theorem seeded_completion_cost:
  assumes "initData prompt draw now fresh_tables = Inr tables" and "bl_pricing db = map (\<lambda>x. pricing.truncate (fst x)) (st_pricing tables)"
    and "evaluate (''return '' @ deepseek_method) = Inr (IsFunction deepseek_price)"
    and "cp_model c = ''deepseek-chat''" and "cp_usage c = deepseek_usage miss hit out"
    and "getTenant env (bl_users db) user = Inr t" and "nonempty_str txId" and "nonempty_str user"
    and "\<forall>x\<in>set (bl_txs db). tr_txId x \<noteq> the txId \<and> tr_id x \<noteq> us_uuid env (ud_seq (bl_users db))"
    and "0 < miss + hit + out" and "miss < 2 ^ 26" and "hit < 2 ^ 26" and "out < 2 ^ 26" and "\<bar>tn_balance t\<bar> < 10 ^ 29"
  shows "\<exists>db' tx. addModelExpense env evaluate dump txId user c ref db
      = Inr (db', tx, tn_balance t - int (27000 * miss + 7000 * hit + 110000 * out)) \<and>
     tr_amount tx = - int (27000 * miss + 7000 * hit + 110000 * out) \<and> tr_currency tx = ''USD'' \<and> tr_tenantPk tx = tn_pk t \<and>
     bl_txs db' = bl_txs db @ [tx]"
proof -
  let ?n = "27000 * miss + 7000 * hit + 110000 * out"
  have tables: "st_pricing tables = at_time now seed_pricing"
    using initData_Inr(4) [OF assms(1)] by (simp add: fresh_tables_def prices.upsert_timed_fresh [OF seed_pricing_unique])
  have models: "models_for db c = [pricing.truncate (hd seed_pricing)]"
    unfolding models_for_def assms(2) tables by (simp add: at_time_def seed_pricing_def pricing.truncate_def assms(4))
  define n where "n = 27000 * miss + 7000 * hit + 110000 * out"
  have n: "0 < n" "int n < 10 ^ 29" using assms(10-13) unfolding n_def by simp_all
  have price: "calcModelAmount evaluate dump (cp_usage c) (pricing.truncate (hd seed_pricing)) = Inr (of_nat n)"
    using deepseek_cost [of miss hit out, folded n_def] assms(3) n(1)
    by (simp add: calcModelAmount_def toFunction_def assms(5) pricing.truncate_def seed_pricing_def)
  have whole: "\<bar>k\<bar> < 10 ^ 30 \<Longrightarrow> dec_store (of_int k) = Inr k" for k by (simp add: dec_store_def)
  have store: "dec_store (- of_nat n) = Inr (- int n)" "dec_store (of_int (tn_balance t) + - of_nat n) = Inr (tn_balance t - int n)"
    using whole [of "- int n"] whole [of "tn_balance t - int n"] n assms(14) by simp_all
  show ?thesis
    unfolding n_def [symmetric]
    using assms(6-9) n store models price
    by (auto simp: addModelExpense_def pick_pricing_def createTransaction_def bad_sign_def pricing.truncate_def seed_pricing_def Let_def)
qed

text \<open>A completion that reports no missed prompt tokens, as other providers of the model do, is not booked.\<close>

lemma unreported_tokens_unbooked:
  assumes "evaluate (''return '' @ deepseek_method) = Inr (IsFunction deepseek_price)"
    and "obj_get kvs ''prompt_cache_miss_tokens'' = None"
  shows "calcModelAmount evaluate dump (JObj kvs) (pricing.truncate (hd seed_pricing))
     = Inl (PlainError (''Invalid amount, usage: '' @ dump (JObj kvs)))"
proof -
  have "\<exists>b c. deepseek_price (JObj kvs) (pc_price (hd seed_pricing)) = Inr (add_num (add_num None b) c)"
    using assms(2) by (simp add: deepseek_price_def per_token_def json_num_def seed_pricing_def obj_get_def)
  then have "deepseek_price (JObj kvs) (pc_price (hd seed_pricing)) = Inr None" by simp
  then show ?thesis using assms(1) by (simp add: calcModelAmount_def toFunction_def pricing.truncate_def seed_pricing_def)
qed

definition ex_engine :: "string \<Rightarrow> string + price_fun evaluated" where
  "ex_engine src = (if src = ''return '' @ deepseek_method then Inr (IsFunction deepseek_price) else Inl ''?'')"

theorem seeded_completion_cost_witness:
  "\<exists>db' tx. addModelExpense ex_user_env ex_engine (\<lambda>_. []) (Some ''gen-1'') (Some ''u'')
      \<lparr>cp_id = Some ''gen-1'', cp_usage = deepseek_usage 100 20 30, cp_model = ''deepseek-chat'', cp_provider = Some ''DeepInfra''\<rparr>
      (\<lambda>_ _. JNull) ((ex_bank 5000000)\<lparr>bl_pricing := map pricing.truncate seed_pricing\<rparr>) = Inr (db', tx, -1140000) \<and> tr_amount tx = -6140000"
proof -
  let ?db = "(ex_bank 5000000)\<lparr>bl_pricing := map pricing.truncate seed_pricing\<rparr>"
  let ?c = "\<lparr>cp_id = Some ''gen-1'', cp_usage = deepseek_usage 100 20 30, cp_model = ''deepseek-chat'', cp_provider = Some ''DeepInfra''\<rparr>"
  let ?t = "hd (ud_tenants (bl_users ?db))"
  have t: "getTenant ex_user_env (bl_users ?db) (Some ''u'') = Inr ?t"
    by (simp add: getTenant_def findTenantOf_def tenant_of_def ex_bank_def no_users_def ex_user_env_def)
  have "\<exists>db' tx. addModelExpense ex_user_env ex_engine (\<lambda>_. []) (Some ''gen-1'') (Some ''u'') ?c (\<lambda>_ _. JNull) ?db
      = Inr (db', tx, tn_balance ?t - int (27000 * 100 + 7000 * 20 + 110000 * 30)) \<and>
     tr_amount tx = - int (27000 * 100 + 7000 * 20 + 110000 * 30) \<and> tr_currency tx = ''USD'' \<and> tr_tenantPk tx = tn_pk ?t \<and>
     bl_txs db' = bl_txs ?db @ [tx]"
    by (rule seeded_completion_cost [OF ex_fresh _ _ _ _ t]) (simp_all add: ex_tables_def at_time_def comp_def ex_engine_def ex_bank_def)
  then show ?thesis by (simp add: ex_bank_def) blast
qed

end
