(* ===== verification/Files.thy ===== *)
theory Files
  imports EventModel
begin

text \<open>
  \<open>src/files/files.service.ts\<close> on a file system: the files a request uploads are moved into the directory
  of its task, and the files of a task script are written and copied there. The calls of Node's \<open>fs\<close>
  module act on a map from normalised paths to nodes; links and permissions are left out. A call that
  throws leaves what the calls before it have done.
\<close>

section \<open>The file system\<close>

datatype fnode = Dir | File string

type_synonym fsys = "path \<Rightarrow> fnode option"
type_synonym 'a fs_op = "fsys \<Rightarrow> fsys \<times> 'a result"

definition fs_bind :: "'a fs_op \<Rightarrow> ('a \<Rightarrow> 'b fs_op) \<Rightarrow> 'b fs_op" where
  "fs_bind m f fs = (case m fs of (fs1, Inl e) \<Rightarrow> (fs1, Inl e) | (fs1, Inr a) \<Rightarrow> f a fs1)"

definition parent :: "path \<Rightarrow> path" where
  "parent p = (fst p, butlast (snd p))"

definition is_dir :: "fsys \<Rightarrow> path \<Rightarrow> bool" where
  "is_dir fs p \<longleftrightarrow> snd p = [] \<or> fs p = Some Dir"

definition above :: "path \<Rightarrow> path \<Rightarrow> bool" where
  "above q p \<longleftrightarrow> fst q = fst p \<and> prefix (snd q) (snd p)"

definition is_file :: "fsys \<Rightarrow> path \<Rightarrow> bool" where
  "is_file fs p = (case fs p of Some (File _) \<Rightarrow> True | _ \<Rightarrow> False)"

definition mkdirs :: "path \<Rightarrow> unit fs_op" where
  "mkdirs p fs =
     (if list_ex (\<lambda>n. is_file fs (fst p, take n (snd p))) [1..<Suc (length (snd p))] then (fs, Inl (PlainError ''ENOTDIR''))
      else (\<lambda>q. if above q p \<and> snd q \<noteq> [] then Some Dir else fs q, Inr ()))"

definition writeFile :: "path \<Rightarrow> string \<Rightarrow> unit fs_op" where
  "writeFile p text fs =
     (if \<not> is_dir fs (parent p) then (fs, Inl (PlainError ''ENOENT''))
      else if is_dir fs p then (fs, Inl (PlainError ''EISDIR''))
      else (fs(p \<mapsto> File text), Inr ()))"

definition unlink :: "path \<Rightarrow> unit fs_op" where
  "unlink p fs =
     (if is_file fs p then (fs(p := None), Inr ())
      else (fs, Inl (PlainError (if fs p = None then ''ENOENT'' else ''EPERM''))))"

definition rename_file :: "path \<Rightarrow> path \<Rightarrow> unit fs_op" where
  "rename_file src dst fs =
     (case fs src of
        Some (File text) \<Rightarrow>
          if \<not> is_dir fs (parent dst) then (fs, Inl (PlainError ''ENOENT''))
          else if is_dir fs dst then (fs, Inl (PlainError ''EISDIR''))
          else ((fs(src := None))(dst \<mapsto> File text), Inr ())
      | _ \<Rightarrow> (fs, Inl (PlainError ''ENOENT'')))"

definition copyFile :: "path \<Rightarrow> path \<Rightarrow> unit fs_op" where
  "copyFile src dst fs =
     (case fs src of Some (File text) \<Rightarrow> writeFile dst text fs | _ \<Rightarrow> (fs, Inl (PlainError ''ENOENT'')))"

section \<open>The service\<close>

record upload =
  up_path :: path
  up_originalname :: string
  up_encoding :: string
  up_mimetype :: string
  up_size :: "nat option"

record request_file =
  rf_filename :: string
  rf_encoding :: string
  rf_mimetype :: string
  rf_size :: "nat option"

definition file_info :: "upload \<Rightarrow> request_file" where
  "file_info f = \<lparr>rf_filename = up_originalname f, rf_encoding = up_encoding f, rf_mimetype = up_mimetype f, rf_size = up_size f\<rparr>"

definition ensure_dir :: "string \<Rightarrow> unit fs_op" where
  "ensure_dir dir fs = (if fs (path_join [dir]) = None \<and> snd (path_join [dir]) \<noteq> [] then mkdirs (path_join [dir]) fs else (fs, Inr ()))"

fun save_each :: "string \<Rightarrow> string obj \<Rightarrow> unit fs_op" where
  "save_each dir [] fs = (fs, Inr ())"
| "save_each dir ((name, text) # rest) fs = fs_bind (writeFile (path_join [dir, name]) text) (\<lambda>_. save_each dir rest) fs"

definition save :: "string obj \<Rightarrow> string \<Rightarrow> unit fs_op" where
  "save content dir = fs_bind (ensure_dir dir) (\<lambda>_. save_each dir content)"

definition move_one :: "string \<Rightarrow> upload \<Rightarrow> unit fs_op" where
  "move_one dir f fs =
     (let newPath = path_join [dir, up_originalname f]
      in fs_bind (\<lambda>fs. if fs newPath \<noteq> None then unlink newPath fs else (fs, Inr ())) (\<lambda>_. rename_file (up_path f) newPath) fs)"

definition copy_one :: "string \<Rightarrow> upload \<Rightarrow> unit fs_op" where
  "copy_one dir f = copyFile (up_path f) (path_join [dir, up_originalname f])"

fun for_each :: "(upload \<Rightarrow> unit fs_op) \<Rightarrow> upload list \<Rightarrow> unit fs_op" where
  "for_each op [] fs = (fs, Inr ())"
| "for_each op (f # rest) fs = fs_bind (op f) (\<lambda>_. for_each op rest) fs"

text \<open>No files: the result is \<open>undefined\<close>, and the directory is not made.\<close>

definition move :: "upload list \<Rightarrow> string \<Rightarrow> request_file list option fs_op" where
  "move files dir =
     (if files = [] then (\<lambda>fs. (fs, Inr None))
      else fs_bind (ensure_dir dir) (\<lambda>_. fs_bind (for_each (move_one dir) files) (\<lambda>_ fs. (fs, Inr (Some (map file_info files))))))"

definition copy :: "upload list \<Rightarrow> string \<Rightarrow> request_file list option fs_op" where
  "copy files dir =
     (if files = [] then (\<lambda>fs. (fs, Inr None))
      else fs_bind (ensure_dir dir) (\<lambda>_. fs_bind (for_each (copy_one dir) files) (\<lambda>_ fs. (fs, Inr (Some (map file_info files))))))"

section \<open>Paths below a directory\<close>

definition plain_name :: "string \<Rightarrow> bool" where
  "plain_name n \<longleftrightarrow> n \<noteq> [] \<and> n \<noteq> ''.'' \<and> n \<noteq> ''..'' \<and> CHR ''/'' \<notin> set n"

lemma normalise_snoc:
  "plain_name n \<Longrightarrow> normalise_segments a acc (ps @ [n]) = normalise_segments a acc ps @ [n]"
  by (induction ps arbitrary: acc) (auto simp: plain_name_def split: list.splits)

lemma split_last: "c \<notin> set n \<Longrightarrow> split_char c (xs @ c # n) = split_char c xs @ [n]"
proof (induction xs)
  case (Cons x xs)
  obtain p ps where "split_char c xs = p # ps" by (cases "split_char c xs") auto
  with Cons show ?case by simp
qed (simp add: split_nosep)

definition in_dir :: "string \<Rightarrow> string \<Rightarrow> path" where
  "in_dir dir n = (fst (path_join [dir]), snd (path_join [dir]) @ [n])"

lemma path_join_below:
  assumes "plain_name n" and "dir \<noteq> []"
  shows "path_join [dir, n] = in_dir dir n"
proof -
  obtain c cs where d: "dir = c # cs" using assms(2) by (cases dir) auto
  have "split_char (CHR ''/'') (dir @ CHR ''/'' # n) = split_char (CHR ''/'') dir @ [n]"
    using assms(1) by (simp add: plain_name_def split_last)
  then show ?thesis using assms normalise_snoc [OF assms(1)] d
    by (simp add: path_join_def plain_name_def in_dir_def Let_def)
qed

lemma in_dir_simps [simp]:
  "parent (in_dir dir n) = path_join [dir]" "in_dir dir n = in_dir dir m \<longleftrightarrow> n = m" "snd (in_dir dir n) \<noteq> []"
  "is_dir fs (in_dir dir n) \<longleftrightarrow> fs (in_dir dir n) = Some Dir" "in_dir dir n \<noteq> path_join [dir]"
  "path_join [dir] \<noteq> in_dir dir n"
  by (auto simp: parent_def in_dir_def is_dir_def prod_eq_iff)

lemma not_above_in_dir [simp]: "\<not> above (in_dir dir n) (path_join [dir])"
  by (auto simp: above_def in_dir_def prefix_def)

lemma save_each_all:
  assumes "is_dir fs (path_join [dir])" and "dir \<noteq> []" and "distinct (map fst content)"
    and "\<forall>x\<in>set content. plain_name (fst x) \<and> fs (in_dir dir (fst x)) \<noteq> Some Dir"
  shows "save_each dir content fs = (fs ++ map_of (map (\<lambda>(n, t). (in_dir dir n, File t)) content), Inr ())"
  using assms
proof (induction content arbitrary: fs)
  case Nil
  then show ?case by simp
next
  case (Cons x rest)
  obtain n t where x: "x = (n, t)" by (cases x)
  let ?fs = "fs(in_dir dir n \<mapsto> File t)"
  have w: "writeFile (path_join [dir, n]) t fs = (?fs, Inr ())"
    using Cons.prems x by (simp add: writeFile_def path_join_below)
  have d: "is_dir ?fs (path_join [dir])"
    using Cons.prems(1) by (auto simp: is_dir_def)
  have "save_each dir (x # rest) fs = save_each dir rest ?fs" using w x by (simp add: fs_bind_def)
  also have "\<dots> = (?fs ++ map_of (map (\<lambda>(n, t). (in_dir dir n, File t)) rest), Inr ())"
    using Cons.prems x by (intro Cons.IH [OF d]) auto
  also have "?fs ++ map_of (map (\<lambda>(n, t). (in_dir dir n, File t)) rest) = fs ++ map_of (map (\<lambda>(n, t). (in_dir dir n, File t)) (x # rest))"
  proof -
    have "in_dir dir n \<notin> fst ` set (map (\<lambda>(n, t). (in_dir dir n, File t)) rest)" using Cons.prems(3) x by force
    then have "map_of (map (\<lambda>(n, t). (in_dir dir n, File t)) rest) (in_dir dir n) = None" unfolding map_of_eq_None_iff .
    then show ?thesis using x by (auto simp: fun_eq_iff map_add_def split: option.splits)
  qed
  finally show ?case .
qed

definition moved :: "string \<Rightarrow> (upload \<Rightarrow> string) \<Rightarrow> upload list \<Rightarrow> fsys \<Rightarrow> fsys" where
  "moved dir txt files fs =
     (\<lambda>q. if q \<in> up_path ` set files then None else fs q) ++ map_of (map (\<lambda>f. (in_dir dir (up_originalname f), File (txt f))) files)"

lemma move_each_all:
  assumes "is_dir fs (path_join [dir])" and "dir \<noteq> []" and "distinct (map up_originalname files)" and "distinct (map up_path files)"
    and "\<forall>f\<in>set files. plain_name (up_originalname f) \<and> fs (in_dir dir (up_originalname f)) \<noteq> Some Dir \<and>
           fs (up_path f) = Some (File (txt f)) \<and> parent (up_path f) \<noteq> path_join [dir] \<and> up_path f \<noteq> path_join [dir]"
  shows "for_each (move_one dir) files fs = (moved dir txt files fs, Inr ())"
  using assms
proof (induction files arbitrary: fs)
  case Nil
  then show ?case by (simp add: moved_def)
next
  case (Cons f rest)
  let ?t = "in_dir dir (up_originalname f)"
  let ?fs = "(fs(up_path f := None))(?t \<mapsto> File (txt f))"
  have f: "plain_name (up_originalname f)" "fs ?t \<noteq> Some Dir" "fs (up_path f) = Some (File (txt f))"
    "parent (up_path f) \<noteq> path_join [dir]" "up_path f \<noteq> path_join [dir]" using Cons.prems(5) by auto
  have src: "up_path g \<noteq> in_dir dir n" if "g \<in> set (f # rest)" for g n using Cons.prems(5) that by (metis in_dir_simps(1))
  have up: "up_path f \<noteq> ?t" using src by simp
  have one: "move_one dir f fs = (?fs, Inr ())"
  proof (cases "fs ?t")
    case None
    then show ?thesis using f Cons.prems(1,2) by (simp add: move_one_def path_join_below fs_bind_def rename_file_def)
  next
    case (Some x)
    then obtain t0 where "fs ?t = Some (File t0)" using f(2) by (cases x) auto
    moreover have "is_dir (fs(?t := None)) (path_join [dir])" using Cons.prems(1) by (auto simp: is_dir_def)
    ultimately show ?thesis
      using f Cons.prems(2) up
      by (simp add: move_one_def path_join_below fs_bind_def rename_file_def unlink_def is_file_def fun_upd_twist)
  qed
  have other: "up_path g \<noteq> up_path f" if "g \<in> set rest" for g using Cons.prems(4) that by (force simp: image_iff)
  have d: "is_dir ?fs (path_join [dir])" using Cons.prems(1) f(5) by (auto simp: is_dir_def)
  have "\<forall>g\<in>set rest. plain_name (up_originalname g) \<and> ?fs (in_dir dir (up_originalname g)) \<noteq> Some Dir \<and>
      ?fs (up_path g) = Some (File (txt g)) \<and> parent (up_path g) \<noteq> path_join [dir] \<and> up_path g \<noteq> path_join [dir]"
    using Cons.prems(3,5) other src by (auto simp: image_iff)
  then have "for_each (move_one dir) rest ?fs = (moved dir txt rest ?fs, Inr ())"
    using Cons.prems(2-4) by (intro Cons.IH [OF d]) auto
  moreover have "moved dir txt rest ?fs = moved dir txt (f # rest) fs"
  proof -
    have "?t \<notin> fst ` set (map (\<lambda>f. (in_dir dir (up_originalname f), File (txt f))) rest)" using Cons.prems(3) by auto
    then have "map_of (map (\<lambda>f. (in_dir dir (up_originalname f), File (txt f))) rest) ?t = None" unfolding map_of_eq_None_iff .
    moreover have "?t \<notin> up_path ` set (f # rest)" using src by (metis imageE)
    ultimately show ?thesis by (auto simp: moved_def fun_eq_iff map_add_def split: option.splits)
  qed
  ultimately show ?case using one by (simp add: fs_bind_def)
qed

lemma ensure_dir_ok:
  assumes "\<forall>q. above q (path_join [dir]) \<longrightarrow> \<not> is_file fs q"
  shows "\<exists>fs1. ensure_dir dir fs = (fs1, Inr ()) \<and> is_dir fs1 (path_join [dir]) \<and> (\<forall>q. \<not> above q (path_join [dir]) \<longrightarrow> fs1 q = fs q)"
proof -
  let ?D = "path_join [dir]"
  have up: "above (fst ?D, take n (snd ?D)) ?D" for n by (simp add: above_def take_is_prefix)
  show ?thesis
  proof (cases "fs ?D = None \<and> snd ?D \<noteq> []")
    case True
    then show ?thesis using assms up by (auto simp: ensure_dir_def mkdirs_def list_ex_iff is_dir_def above_def)
  next
    case False
    have "\<not> is_file fs ?D" using assms [rule_format, of ?D] by (simp add: above_def)
    with False have "is_dir fs ?D" by (auto simp: is_dir_def is_file_def split: fnode.splits)
    with False show ?thesis by (auto simp: ensure_dir_def)
  qed
qed

section \<open>Properties\<close>

text \<open>C2. Uploaded files arrive in the directory of their task and nowhere else: where the temporary files are
  there and every name is a plain file name, the move succeeds, each file has its content in the
  directory under its own name and is gone from the temporary place, older files of these names are
  replaced, and nothing else outside the path of the directory changes.\<close>

theorem uploads_arrive:
  assumes "files \<noteq> []" and "dir \<noteq> []" and "distinct (map up_originalname files)" and "distinct (map up_path files)"
    and "\<forall>q. above q (path_join [dir]) \<longrightarrow> \<not> is_file fs q"
    and "\<forall>f\<in>set files. plain_name (up_originalname f) \<and> fs (path_join [dir, up_originalname f]) \<noteq> Some Dir \<and>
           fs (up_path f) = Some (File (txt f)) \<and> parent (up_path f) \<noteq> path_join [dir]"
  shows "\<exists>fs'. move files dir fs = (fs', Inr (Some (map file_info files))) \<and>
    (\<forall>f\<in>set files. fs' (path_join [dir, up_originalname f]) = Some (File (txt f)) \<and> fs' (up_path f) = None) \<and>
    (\<forall>q. q \<notin> (\<lambda>f. path_join [dir, up_originalname f]) ` set files \<longrightarrow> q \<notin> up_path ` set files \<longrightarrow> \<not> above q (path_join [dir]) \<longrightarrow> fs' q = fs q)"
proof -
  let ?D = "path_join [dir]"
  obtain fs1 where e: "ensure_dir dir fs = (fs1, Inr ())" "is_dir fs1 ?D" and same: "\<And>q. \<not> above q ?D \<Longrightarrow> fs1 q = fs q"
    using ensure_dir_ok [OF assms(5)] by blast
  have out: "\<not> above (up_path f) ?D" if "f \<in> set files" for f
    using assms(5) [rule_format, of "up_path f"] assms(6) that by (auto simp: is_file_def)
  have ne: "up_path f \<noteq> ?D" if "f \<in> set files" for f
    using out [OF that] by (auto simp: above_def)
  have "for_each (move_one dir) files fs1 = (moved dir txt files fs1, Inr ())"
    using assms(2-4,6) e(2) same out
    ne by (intro move_each_all) (auto simp: path_join_below)
  then have m: "move files dir fs = (moved dir txt files fs1, Inr (Some (map file_info files)))"
    using assms(1) e(1) by (simp add: move_def fs_bind_def)
  have tgt: "map_of (map (\<lambda>f. (in_dir dir (up_originalname f), File (txt f))) files) (in_dir dir (up_originalname f)) = Some (File (txt f))"
    if "f \<in> set files" for f
    using that assms(3) by (intro map_of_is_SomeI) (auto simp: distinct_map inj_on_def)
  have src: "up_path f \<noteq> in_dir dir n" if "f \<in> set files" for f n
    using assms(6) that by (metis in_dir_simps(1))
  have none: "map_of (map (\<lambda>f. (in_dir dir (up_originalname f), File (txt f))) files) q = None"
    if "q \<notin> (\<lambda>f. in_dir dir (up_originalname f)) ` set files" for q
    using that by (simp add: map_of_eq_None_iff image_image)
  have gone: "map_of (map (\<lambda>f. (in_dir dir (up_originalname f), File (txt f))) files) (up_path f) = None" if "f \<in> set files" for f
    using src [OF that] by (intro none) (metis imageE)
  have pj: "path_join [dir, up_originalname f] = in_dir dir (up_originalname f)" if "f \<in> set files" for f
    using assms(2,6) that by (simp add: path_join_below)
  have im: "(\<lambda>f. path_join [dir, up_originalname f]) ` set files = (\<lambda>f. in_dir dir (up_originalname f)) ` set files"
    using pj by (rule image_cong [OF refl])
  show ?thesis
    unfolding m im
    using tgt gone none pj same
    by (auto simp: moved_def map_add_def split: option.splits)
qed

definition ex_upload :: upload where
  "ex_upload = \<lparr>up_path = (True, [''tmp'', ''x1'']), up_originalname = ''cv.pdf'', up_encoding = ''7bit'', up_mimetype = ''application/pdf'', up_size = Some 3\<rparr>"

definition ex_disk :: fsys where
  "ex_disk = [(True, [''tmp'']) \<mapsto> Dir, (True, [''tmp'', ''x1'']) \<mapsto> File ''pdf'', (False, [''upload'']) \<mapsto> Dir]"

theorem uploads_arrive_witness:
  "\<exists>fs'. move [ex_upload] ''upload/t1'' ex_disk = (fs', Inr (Some [file_info ex_upload])) \<and>
     fs' (path_join [''upload/t1'', ''cv.pdf'']) = Some (File ''pdf'') \<and> fs' (True, [''tmp'', ''x1'']) = None"
proof -
  have d: "path_join [''upload/t1''] = (False, [''upload'', ''t1''])" "path_join [''upload/t1'', ''cv.pdf''] = (False, [''upload'', ''t1'', ''cv.pdf''])"
    by (simp_all add: path_join_def Let_def)
  have "\<forall>q. above q (path_join [''upload/t1'']) \<longrightarrow> \<not> is_file ex_disk q"
    by (auto simp: d above_def is_file_def ex_disk_def split: option.splits)
  moreover have "\<forall>f\<in>set [ex_upload]. plain_name (up_originalname f) \<and> ex_disk (path_join [''upload/t1'', up_originalname f]) \<noteq> Some Dir \<and>
      ex_disk (up_path f) = Some (File ''pdf'') \<and> parent (up_path f) \<noteq> path_join [''upload/t1'']"
    by (simp add: d ex_upload_def ex_disk_def plain_name_def parent_def)
  ultimately show ?thesis
    using uploads_arrive [of "[ex_upload]" "''upload/t1''" ex_disk "\<lambda>_. ''pdf''"] by (auto simp: ex_upload_def)
qed

text \<open>What is saved under plain names is read back.\<close>

lemma saved_read_back:
  assumes "dir \<noteq> []" and "distinct (map fst content)" and "\<forall>q. above q (path_join [dir]) \<longrightarrow> \<not> is_file fs q"
    and "\<forall>x\<in>set content. plain_name (fst x) \<and> fs (path_join [dir, fst x]) \<noteq> Some Dir" and "(n, t) \<in> set content"
  shows "\<exists>fs'. save content dir fs = (fs', Inr ()) \<and> fs' (path_join [dir, n]) = Some (File t)"
proof -
  obtain fs1 where e: "ensure_dir dir fs = (fs1, Inr ())" "is_dir fs1 (path_join [dir])" and same: "\<And>q. \<not> above q (path_join [dir]) \<Longrightarrow> fs1 q = fs q"
    using ensure_dir_ok [OF assms(3)] by blast
  have "\<forall>x\<in>set content. plain_name (fst x) \<and> fs1 (in_dir dir (fst x)) \<noteq> Some Dir"
    using assms(1,4) same by (auto simp: path_join_below)
  from save_each_all [OF e(2) assms(1,2) this]
  have "save content dir fs = (fs1 ++ map_of (map (\<lambda>(n, t). (in_dir dir n, File t)) content), Inr ())"
    using e(1) by (simp add: save_def fs_bind_def)
  moreover have "map_of (map (\<lambda>(n, t). (in_dir dir n, File t)) content) (in_dir dir n) = Some (File t)"
    using assms(2,5) by (intro map_of_is_SomeI) (force simp: distinct_map inj_on_def)+
  moreover have "path_join [dir, n] = in_dir dir n" using assms(1,4,5) by (force intro: path_join_below)
  ultimately show ?thesis by simp
qed

end
