(* ===== verification/TaskRunner.thy ===== *)
theory TaskRunner
  imports Files Invoke PipeClient
begin

text \<open>
  The template of a task script, \<open>templates/task-runner\<close>: \<open>index.ts\<close>, which runs the generated class,
  talks to the service through the pipe client of \<open>PipeClient\<close> and keeps the states of interrupted runs,
  and the sample class \<open>main.ts\<close>. What a run sends is put together with what the service makes of it
  (\<open>script_result\<close> of \<open>Invoke\<close>). \<open>JSON.parse\<close> and \<open>JSON.stringify\<close> are parameters.
\<close>

section \<open>The runner\<close>

text \<open>\<open>ru_states\<close> is \<open>resumingStates\<close>: \<open>None\<close> where the class does not have the property.\<close>

record runner =
  ru_states :: "json option"
  ru_client :: pipe_client
  ru_purposes :: "(string \<times> string) list"
  ru_errors :: "string list"

definition statesFile :: path where
  "statesFile = (False, [''resumingStates.json''])"

definition newRunner :: "string \<Rightarrow> int \<Rightarrow> json option \<Rightarrow> (string \<times> string) list \<Rightarrow> runner" where
  "newRunner cmdPrefix drawn states purposes =
     \<lparr>ru_states = states, ru_client = newPipeClient cmdPrefix (runner_intToBase64 drawn), ru_purposes = purposes, ru_errors = []\<rparr>"

text \<open>A file of states that does not parse is reported and removed.\<close>

definition loadResumingStates :: "json_parser \<Rightarrow> runner \<Rightarrow> fsys \<Rightarrow> fsys \<times> runner" where
  "loadResumingStates parse r fs =
     (case (ru_states r, fs statesFile) of
        (Some _, Some (File text)) \<Rightarrow>
          (case parse text of
             Inr j \<Rightarrow> (fs, r\<lparr>ru_states := Some j\<rparr>)
           | Inl m \<Rightarrow> (fs(statesFile := None), r\<lparr>ru_errors := ru_errors r @ [''Failed to load resumingStates.json, ignored'']\<rparr>))
      | (Some _, Some Dir) \<Rightarrow> (fs, r\<lparr>ru_errors := ru_errors r @ [''Failed to load resumingStates.json, ignored'']\<rparr>)
      | _ \<Rightarrow> (fs, r))"

definition saveResumingStates :: "(json \<Rightarrow> string) \<Rightarrow> runner \<Rightarrow> fsys \<Rightarrow> fsys \<times> runner" where
  "saveResumingStates dump r fs =
     (if \<not> truthy_opt (ru_states r) then (fs, r)
      else (case writeFile statesFile (dump (the (ru_states r))) fs of
              (fs1, Inr _) \<Rightarrow> (fs1, r)
            | (fs1, Inl _) \<Rightarrow> (fs1, r\<lparr>ru_errors := ru_errors r @ [''Failed to save resumingStates.json, ignored'']\<rparr>)))"

text \<open>\<open>invokeService\<close>: the request is a command of the pipe; the answer, when it comes, is parsed or taken as
  it is.\<close>

definition invoke_request :: "(json \<Rightarrow> string) \<Rightarrow> string \<Rightarrow> json \<Rightarrow> runner \<Rightarrow> runner result" where
  "invoke_request dump purposeKey args r =
     (case map_of (ru_purposes r) purposeKey of
        None \<Rightarrow> Inl (PlainError (''Invalid purposeKey: '' @ purposeKey))
      | Some epName \<Rightarrow>
          if epName = [] then Inl (PlainError (''Invalid purposeKey: '' @ purposeKey))
          else Inr (r\<lparr>ru_client := sendCommand (dump (JObj [(''epName'', JStr epName), (''args'', args)])) (ru_client r)\<rparr>))"

definition invoke_answer :: "json_parser \<Rightarrow> string \<Rightarrow> json" where
  "invoke_answer parse text = (case parse text of Inr j \<Rightarrow> j | Inl _ \<Rightarrow> JStr text)"

text \<open>
  How the generated class ends, and what the runner does then: it sends the result, if it has one, or the
  error, whose text is the stack; it saves the states, closes the pipe, and exits with 1 after an error.
  Results are stringified by the runner and again, as the only argument, by \<open>sendResult\<close>.
\<close>

datatype run_end = Returned "json option" | Threw string

definition send_outcome :: "(json \<Rightarrow> string) \<Rightarrow> run_end \<Rightarrow> pipe_client \<Rightarrow> pipe_client" where
  "send_outcome dump e c =
     (case e of
        Returned res \<Rightarrow> if truthy_opt res then sendResult 0 (dump (JArr [JStr (dump (the res))])) c else c
      | Threw stack \<Rightarrow> sendResult 1 (dump (JArr [JStr stack])) c)"

definition run_to_end :: "(json \<Rightarrow> string) \<Rightarrow> run_end \<Rightarrow> runner \<Rightarrow> fsys \<Rightarrow> fsys \<times> runner" where
  "run_to_end dump e r fs =
     (let (fs1, r1) = saveResumingStates dump (r\<lparr>ru_client := send_outcome dump e (ru_client r)\<rparr>) fs
      in (fs1, r1\<lparr>ru_client := client_close (ru_client r1)\<rparr>))"

definition exit_code :: "run_end \<Rightarrow> int" where
  "exit_code e = (case e of Returned _ \<Rightarrow> 0 | Threw _ \<Rightarrow> 1)"

section \<open>What the service makes of a run\<close>

lemma b64_loop_chars: "set (b64_loop alph num acc) \<subseteq> set acc \<union> set (map (\<lambda>i. alph ! i) [0..<64])"
proof (induction alph num acc rule: b64_loop.induct)
  case (1 alph num acc)
  have "nat (num mod 64) \<in> {0..<64}" by auto
  then have "alph ! nat (num mod 64) \<in> (!) alph ` {0..<64}" by (rule imageI)
  then have "set (alph ! nat (num mod 64) # acc) \<union> set (map (\<lambda>i. alph ! i) [0..<64]) \<subseteq> set acc \<union> set (map (\<lambda>i. alph ! i) [0..<64])"
    by (simp only: list.set set_map set_upt) blast
  with 1 show ?case by (subst b64_loop.simps, cases "0 < num") (simp_all only: if_True if_False simp_thms, blast+)
qed

lemma runner_id_plain: "CHR ''|'' \<notin> set (runner_intToBase64 n)" "CHR '':'' \<notin> set (runner_intToBase64 n)"
proof -
  have "set (map (\<lambda>i. runner_alphabet ! i) [0..<64]) = set runner_alphabet"
    by (simp add: runner_alphabet_def upt_rec)
  then have "set (runner_intToBase64 n) \<subseteq> insert (CHR ''0'') (set runner_alphabet)"
    using b64_loop_chars [of runner_alphabet n "[]"] by (auto simp: runner_intToBase64_def)
  then show "CHR ''|'' \<notin> set (runner_intToBase64 n)" "CHR '':'' \<notin> set (runner_intToBase64 n)"
    by (auto simp: runner_alphabet_def)
qed

lemma parse_result_line:
  assumes "CHR ''|'' \<notin> set p" and "CHR ''|'' \<notin> set i" and "CHR '':'' \<notin> set i"
  shows "parse_line p (frame p (i @ '':0'') body) = FinalResponse body"
    and "parse_line p (frame p (i @ '':1'') body) = FinalError body"
proof -
  have k: "split_char (CHR ''|'') (frame p (i @ '':0'') body) = p # (i @ '':0'') # split_char (CHR ''|'') body"
      "split_char (CHR ''|'') (frame p (i @ '':1'') body) = p # (i @ '':1'') # split_char (CHR ''|'') body"
    using assms by (simp_all add: split_frame)
  have c: "split_char (CHR '':'') (i @ '':0'') = [i, ''0'']" "split_char (CHR '':'') (i @ '':1'') = [i, ''1'']"
    using assms(3) by (simp_all add: split_at_sep)
  have n: "parse_int ''0'' = Some 0" "parse_int ''1'' = Some 1"
    by (simp_all add: parse_int_def is_space_def is_digit_def digits_val_def digit_val_def)
  have pre: "prefix (p @ ''|'') (frame p x body)" for x by (simp add: frame_def)
  show "parse_line p (frame p (i @ '':0'') body) = FinalResponse body"
    "parse_line p (frame p (i @ '':1'') body) = FinalError body"
    unfolding parse_line_def using pre k c n by (simp_all add: join_split Let_def)
qed

definition fresh_run :: "'w sep_world \<Rightarrow> req_event \<Rightarrow> 'w script_run" where
  "fresh_run w e = \<lparr>sr_world = w, sr_event = e, sr_final = None, sr_error = None, sr_frozen = False, sr_writes = [], sr_unhandled = []\<rparr>"

text \<open>The result of a run on its connection \<open>c\<close>, which has sent nothing before.\<close>

definition run_result :: "'w proc_env \<Rightarrow> (json \<Rightarrow> string) \<Rightarrow> path \<Rightarrow> run_end \<Rightarrow> pipe_client \<Rightarrow> 'w script_run \<Rightarrow> por" where
  "run_result env dump cwd e c s =
     script_result env (Some (exit_code e))
       (fold (on_line env cwd (pc_cmdPrefix c)) (drop (length (pc_out c)) (pc_out (send_outcome dump e c))) s)"

lemma run_lines:
  assumes "pc_isConnected c" and "CHR ''|'' \<notin> set (pc_cmdPrefix c)" and "pc_requestPrefix c = runner_intToBase64 n"
  shows "fold (on_line env cwd (pc_cmdPrefix c)) (drop (length (pc_out c)) (pc_out (send_outcome dump e c))) s =
    (case e of
       Returned res \<Rightarrow> if truthy_opt res then s\<lparr>sr_final := Some (dump (JArr [JStr (dump (the res))]))\<rparr> else s
     | Threw stack \<Rightarrow> s\<lparr>sr_error := Some (dump (JArr [JStr stack]))\<rparr>)"
proof -
  have "show_nat 0 = ''0''" "show_nat 1 = ''1''" by code_simp+
  then show ?thesis
    using parse_result_line [OF assms(2) runner_id_plain] assms(1,3)
    by (cases e) (simp_all add: send_outcome_def sendResult_def when_connected_def on_line_def)
qed

section \<open>The sample class\<close>

text \<open>
  \<open>main.ts\<close> imports the collections of an archive. \<open>im_processed\<close> and \<open>im_files\<close> are its resuming states.
  The items of a batch run concurrently; the order in which they finish is drawn by \<open>order\<close>.
\<close>

record importer =
  im_processed :: "json option list"
  im_files :: "string obj"

record import_env =
  ie_list :: "string option"
  ie_parse :: json_parser
  ie_extract :: "string list result"
  ie_service :: "json \<Rightarrow> string \<Rightarrow> json \<Rightarrow> json option result"
  ie_read :: "string \<Rightarrow> string option"
  ie_order :: "json list \<Rightarrow> json list"

text \<open>\<open>response?.data?.id\<close>\<close>

definition data_id :: "json option \<Rightarrow> json option" where
  "data_id r = (case Option.bind r (\<lambda>x. case x of JObj kvs \<Rightarrow> obj_get kvs ''data'' | _ \<Rightarrow> None) of
      Some (JObj kvs) \<Rightarrow> obj_get kvs ''id'' | _ \<Rightarrow> None)"

definition js_text :: "json option \<Rightarrow> string" where
  "js_text j = (case j of Some (JStr s) \<Rightarrow> s | _ \<Rightarrow> ''undefined'')"

definition callgent_body :: "json obj \<Rightarrow> json" where
  "callgent_body item =
     (let name = js_text (obj_get item ''name'')
      in JObj ((case obj_get item ''name'' of None \<Rightarrow> [] | Some n \<Rightarrow> [(''name'', n)]) @
               (case obj_get item ''logo'' of None \<Rightarrow> [] | Some n \<Rightarrow> [(''avatar'', n)]) @
               [(''summary'', JStr (name @ '' APIs'')),
                (''instruction'', JStr (''This callgent provides access to the '' @ name @ '' APIs.'')), (''mainTagId'', JNum (-1))]))"

definition own_props :: "json \<Rightarrow> json obj" where
  "own_props j = (case j of JObj kvs \<Rightarrow> kvs | _ \<Rightarrow> [])"

definition import_item :: "import_env \<Rightarrow> string obj \<Rightarrow> json \<Rightarrow> unit result" where
  "import_item env files j =
     (let item = own_props j
      in  and_then (ie_service env j ''createCallgent'' (JObj [(''requestBody'', callgent_body item)])) (\<lambda>r1.
          case data_id r1 of
            None \<Rightarrow> Inl (PlainError ''Failed to create callgent'')
          | Some callgentId \<Rightarrow> if \<not> truthy callgentId then Inl (PlainError ''Failed to create callgent'') else
          and_then (ie_service env j ''createServerEntry'' (JObj [(''parameters'', JObj [(''adaptorKey'', JStr ''restAPI'')]),
              (''requestBody'', JObj [(''type'', JStr ''SERVER''), (''callgentId'', callgentId)])])) (\<lambda>r2.
          case data_id r2 of
            None \<Rightarrow> Inl (PlainError ''Failed to create server entry'')
          | Some entryId \<Rightarrow> if \<not> truthy entryId then Inl (PlainError ''Failed to create server entry'') else
          (case Option.bind (obj_get files (js_text (obj_get item ''id''))) (ie_read env) of
             None \<Rightarrow> Inl (PlainError ''Postman collection file not found'')
           | Some text \<Rightarrow>
               and_then (ie_service env j ''importCollection'' (JObj [(''requestBody'', JObj [(''entryId'', entryId), (''text'', JStr text),
                   (''format'', JStr ''json'')])])) (\<lambda>_.
               and_then (ie_service env j ''commitCallgentToHub'' (JObj [(''parameters'', JObj [(''id'', callgentId)]),
                   (''requestBody'', callgent_body item)])) (\<lambda>_. Inr ()))))))"

fun batches :: "nat \<Rightarrow> 'a list \<Rightarrow> 'a list list" where
  "batches n [] = []"
| "batches n (x # xs) = (x # take (n - 1) xs) # batches n (drop (n - 1) xs)"

definition item_id :: "json \<Rightarrow> json option result" where
  "item_id j = json_field ''id'' j"

definition id_of :: "json \<Rightarrow> json option" where
  "id_of j = (case item_id j of Inr i \<Rightarrow> i | Inl _ \<Rightarrow> None)"

definition pending_items :: "json option list \<Rightarrow> json list \<Rightarrow> json list result" where
  "pending_items processed items =
     and_then (map_result item_id items) (\<lambda>_. Inr (filter (\<lambda>j. id_of j \<notin> set processed) items))"

text \<open>Where an archive has already been unpacked, its list of files is kept. \<open>file.replace('.json', '')\<close> cuts out
  the first occurrence.\<close>

definition cut_json :: "string \<Rightarrow> string" where
  "cut_json f = (case find_sub ''.json'' f of None \<Rightarrow> f | Some i \<Rightarrow> take i f @ drop (i + 5) f)"

definition unpacked :: "import_env \<Rightarrow> string obj \<Rightarrow> string obj result" where
  "unpacked env files =
     (if files \<noteq> [] then Inr files
      else and_then (ie_extract env) (\<lambda>names. Inr (fold (\<lambda>f. obj_set (cut_json f) (''extracted/downloads/'' @ f)) names files)))"

definition import_batch :: "import_env \<Rightarrow> json list \<Rightarrow> importer \<Rightarrow> importer" where
  "import_batch env b st =
     st\<lparr>im_processed := im_processed st @
       map id_of (filter (\<lambda>j. import_item env (im_files st) j = Inr ()) (ie_order env b))\<rparr>"

definition importer_execute :: "import_env \<Rightarrow> importer \<Rightarrow> importer" where
  "importer_execute env st =
     (case Option.bind (ie_list env) (\<lambda>t. case ie_parse env t of Inr (JArr items) \<Rightarrow> Some items | _ \<Rightarrow> None) of
        None \<Rightarrow> st
      | Some all_items \<Rightarrow>
          (case pending_items (im_processed st) all_items of
             Inl _ \<Rightarrow> st
           | Inr items \<Rightarrow>
               (case unpacked env (im_files st) of
                  Inl _ \<Rightarrow> st
                | Inr files \<Rightarrow> fold (import_batch env) (batches 5 items) (st\<lparr>im_files := files\<rparr>))))"

lemma concat_batches: "concat (batches n xs) = xs"
  by (induction n xs rule: batches.induct) simp_all

lemma batch_size: "0 < n \<Longrightarrow> b \<in> set (batches n xs) \<Longrightarrow> length b \<le> n"
  by (induction n xs rule: batches.induct) auto

lemma import_batches:
  assumes "\<And>b. mset (ie_order env b) = mset b"
  shows "im_files (fold (import_batch env) bs st) = im_files st \<and>
    mset (im_processed (fold (import_batch env) bs st)) =
      mset (im_processed st) + mset (map id_of (filter (\<lambda>j. import_item env (im_files st) j = Inr ()) (concat bs)))"
proof (induction bs arbitrary: st)
  case Nil
  then show ?case by simp
next
  case (Cons b bs)
  have "im_files (import_batch env b st) = im_files st" by (simp add: import_batch_def)
  moreover have "mset (im_processed (import_batch env b st)) =
      mset (im_processed st) + mset (map id_of (filter (\<lambda>j. import_item env (im_files st) j = Inr ()) b))"
    using assms [of b] by (simp add: import_batch_def mset_filter)
  ultimately show ?case using Cons.IH [of "import_batch env b st"] by simp
qed

section \<open>Properties\<close>


text \<open>The states of a run survive it, however it ends: what the runner saves at its end is what the next
  runner of the task loads in place of the initial states of the class.\<close>

theorem states_survive:
  assumes "ru_states r = Some j" and "truthy j" and "fs statesFile \<noteq> Some Dir" and "parse (dump j) = Inr j"
    and "run_to_end dump e r fs = (fs', r')"
  shows "loadResumingStates parse (newRunner p n (Some initial) ps) fs' = (fs', newRunner p n (Some j) ps)"
  using assms by (auto simp: run_to_end_def saveResumingStates_def writeFile_def parent_def is_dir_def statesFile_def Let_def
      loadResumingStates_def newRunner_def truthy_opt_def)

text \<open>The sample import is resumable: in whatever order the items of its batches finish, a run marks as
  processed exactly the open items that succeed, never more than five at a time, and the next run takes
  up exactly those that failed.\<close>

theorem import_resumes:
  assumes "ie_list env = Some text" and "ie_parse env text = Inr (JArr items)" and "JNull \<notin> set items" and "distinct (map id_of items)"
    and "unpacked env (im_files st) = Inr files" and "\<And>b. mset (ie_order env b) = mset b"
    and "st' = importer_execute env st"
  shows "mset (im_processed st') = mset (im_processed st) +
      mset (map id_of (filter (\<lambda>j. id_of j \<notin> set (im_processed st) \<and> import_item env files j = Inr ()) items)) \<and>
    pending_items (im_processed st') items =
      Inr (filter (\<lambda>j. id_of j \<notin> set (im_processed st) \<and> import_item env files j \<noteq> Inr ()) items) \<and>
    (\<forall>b\<in>set (batches 5 (filter (\<lambda>j. id_of j \<notin> set (im_processed st)) items)). length b \<le> 5)"
proof -
  let ?open = "filter (\<lambda>j. id_of j \<notin> set (im_processed st)) items"
  have "\<exists>is. map_result item_id xs = Inr is" if "JNull \<notin> set xs" for xs
    using that by (induction xs) (auto simp: item_id_def json_field_def outcome_simps split: json.splits)
  then obtain ids where ids: "map_result item_id items = Inr ids" using assms(3) by blast
  have st': "st' = fold (import_batch env) (batches 5 ?open) (st\<lparr>im_files := files\<rparr>)"
    using assms(1,2,5,7) ids by (simp add: importer_execute_def pending_items_def)
  have m: "mset (im_processed st') = mset (im_processed st) + mset (map id_of (filter (\<lambda>j. import_item env files j = Inr ()) ?open))"
    using import_batches [OF assms(6), of "batches 5 ?open" "st\<lparr>im_files := files\<rparr>"] unfolding st' concat_batches by simp
  then have s: "set (im_processed st') = set (im_processed st) \<union> id_of ` set (filter (\<lambda>j. import_item env files j = Inr ()) ?open)"
    by (metis mset_append set_append set_map set_mset_mset)
  have inj: "inj_on id_of (set items)" using assms(4) by (simp add: distinct_map)
  have "filter (\<lambda>j. id_of j \<notin> set (im_processed st')) items =
      filter (\<lambda>j. id_of j \<notin> set (im_processed st) \<and> import_item env files j \<noteq> Inr ()) items"
    using inj by (intro filter_cong) (auto simp: s inj_on_def)
  then have "pending_items (im_processed st') items =
      Inr (filter (\<lambda>j. id_of j \<notin> set (im_processed st) \<and> import_item env files j \<noteq> Inr ()) items)"
    by (simp add: pending_items_def ids)
  then show ?thesis using m batch_size [of 5] by (auto simp: conj_commute)
qed

text \<open>A text format for the witnesses: a string is itself behind a quote, any other value one letter.\<close>

definition ex_dump :: "json \<Rightarrow> string" where
  "ex_dump j = (case j of JStr t \<Rightarrow> CHR ''s'' # t | JArr [JStr t] \<Rightarrow> CHR ''a'' # t | JBool b \<Rightarrow> ''b'' | _ \<Rightarrow> ''x'')"

definition ex_states_parse :: json_parser where
  "ex_states_parse t = (case t of CHR ''s'' # u \<Rightarrow> Inr (JStr u) | _ \<Rightarrow> Inl ''?'')"

theorem states_survive_witness:
  "\<exists>fs' r'. run_to_end ex_dump (Threw ''boom'') (newRunner ''xyz'' 5 (Some (JStr ''half'')) []) Map.empty = (fs', r') \<and>
     loadResumingStates ex_states_parse (newRunner ''xyz'' 6 (Some (JStr ''init'')) []) fs' = (fs', newRunner ''xyz'' 6 (Some (JStr ''half'')) [])"
proof -
  obtain fs' r' where e: "run_to_end ex_dump (Threw ''boom'') (newRunner ''xyz'' 5 (Some (JStr ''half'')) []) Map.empty = (fs', r')"
    by (cases "run_to_end ex_dump (Threw ''boom'') (newRunner ''xyz'' 5 (Some (JStr ''half'')) []) Map.empty") auto
  have "loadResumingStates ex_states_parse (newRunner ''xyz'' 6 (Some (JStr ''init'')) []) fs' = (fs', newRunner ''xyz'' 6 (Some (JStr ''half'')) [])"
    by (rule states_survive [OF _ _ _ _ e]) (simp_all add: newRunner_def ex_states_parse_def ex_dump_def)
  with e show ?thesis by blast
qed

definition ex_item_named :: "string \<Rightarrow> json" where
  "ex_item_named i = JObj [(''id'', JStr i)]"

definition ex_import :: import_env where
  "ex_import = \<lparr>ie_list = Some ''l'', ie_parse = (\<lambda>_. Inr (JArr [ex_item_named ''1'', ex_item_named ''2''])), ie_extract = Inr [''1.json''],
     ie_service = (\<lambda>_ _ _. Inr (Some (JObj [(''data'', JObj [(''id'', JStr ''x'')])]))), ie_read = (\<lambda>_. Some ''{}''), ie_order = rev\<rparr>"

theorem import_resumes_witness:
  "pending_items (im_processed (importer_execute ex_import \<lparr>im_processed = [], im_files = []\<rparr>)) [ex_item_named ''1'', ex_item_named ''2'']
     = Inr [ex_item_named ''2'']"
proof -
  have "unpacked ex_import [] = Inr [(''1'', ''extracted/downloads/1.json'')]"
    by (simp add: unpacked_def ex_import_def cut_json_def obj_set_def)
  then show ?thesis
    using import_resumes [of ex_import "''l''" "[ex_item_named ''1'', ex_item_named ''2'']" "\<lparr>im_processed = [], im_files = []\<rparr>"
        "[(''1'', ''extracted/downloads/1.json'')]" "importer_execute ex_import \<lparr>im_processed = [], im_files = []\<rparr>"]
    by (simp add: ex_import_def ex_item_named_def pending_items_def id_of_def item_id_def json_field_def obj_get_def import_item_def own_props_def
        data_id_def js_text_def)
qed


end
