(* ===== verification/Subprocess.thy ===== *)
theory Subprocess
  imports Invoke
begin

text \<open>
  The process side of \<open>src/invoke/invoke.subprocess.ts\<close> that \<open>Invoke\<close> leaves open: how the promise of a
  spawned child settles, how its end is observed (by events, or by polling where the child was restored),
  and the socket server of a task, which tries until it listens and hands on whole lines. What the
  operating system answers is a list of events or answers.
\<close>

section \<open>Spawning\<close>

datatype child_event = Stdout string | Stderr string | Closed | Failed string

text \<open>The promise of \<open>spawnOrRestore\<close> settles with the first event; what is written to the error stream goes to
  the log of the task, also later.\<close>

definition settled :: "child_event list \<Rightarrow> unit result option" where
  "settled es = (case es of [] \<Rightarrow> None | Failed m # _ \<Rightarrow> Some (Inl (PlainError m)) | _ # _ \<Rightarrow> Some (Inr ()))"

definition write2LogFile :: "child_event list \<Rightarrow> string \<Rightarrow> string" where
  "write2LogFile es text = text @ concat (map (\<lambda>e. case e of Stderr d \<Rightarrow> d @ [CHR 0x0A] | _ \<Rightarrow> []) es)"

section \<open>Waiting for the end\<close>

text \<open>\<open>/ExitCode:\s+(\d+)/\<close> on the text of \<open>/proc/<pid>/status\<close>: the first match.\<close>

definition exit_code_here :: "string \<Rightarrow> int option" where
  "exit_code_here s =
     (if \<not> prefix ''ExitCode:'' s then None
      else (let r = drop 9 s; d = dropWhile is_space r; n = takeWhile is_digit d
            in if length d = length r \<or> n = [] then None else Some (int (digits_val n))))"

fun exit_code_in :: "string \<Rightarrow> int option" where
  "exit_code_in [] = None"
| "exit_code_in (c # s) = (case exit_code_here (c # s) of Some n \<Rightarrow> Some n | None \<Rightarrow> exit_code_in s)"

definition getExitCodeForLinux :: "string option \<Rightarrow> int option" where
  "getExitCodeForLinux status = Option.bind status exit_code_in"

text \<open>A restored child has no events: every half second a signal 0 asks whether it is there. The list is what
  the system answers; \<open>None\<close> is a wait that is not over.\<close>

datatype kill_answer = Alive | NoSuchProcess | Refused string

fun poll_exit :: "string option \<Rightarrow> kill_answer list \<Rightarrow> int option result option" where
  "poll_exit status [] = None"
| "poll_exit status (Alive # as) = poll_exit status as"
| "poll_exit status (NoSuchProcess # as) = Some (Inr (getExitCodeForLinux status))"
| "poll_exit status (Refused m # as) = Some (Inl (PlainError m))"

datatype exit_event = SpawnEvent | ExitEvent "int option" | ErrorEvent string

fun exit_of_events :: "exit_event list \<Rightarrow> int option result option" where
  "exit_of_events [] = None"
| "exit_of_events (SpawnEvent # es) = exit_of_events es"
| "exit_of_events (ExitEvent code # es) = Some (Inr code)"
| "exit_of_events (ErrorEvent m # es) = Some (Inl (PlainError m))"

definition waitForExit :: "started \<Rightarrow> exit_event list \<Rightarrow> string option \<Rightarrow> kill_answer list \<Rightarrow> int option result option" where
  "waitForExit child events status answers =
     (case child of Spawned \<Rightarrow> exit_of_events events | Restored pid \<Rightarrow> poll_exit status answers)"

section \<open>The socket server\<close>

text \<open>The loop of \<open>_createNamedPipeServer\<close>, on what the attempts to listen come to: the failed attempts are
  logged, and each is followed by a second of sleep.\<close>

fun listen_loop :: "(string + 'srv) list \<Rightarrow> ('srv \<times> string list) option" where
  "listen_loop [] = None"
| "listen_loop (Inr srv # rest) = Some (srv, [])"
| "listen_loop (Inl m # rest) = map_option (\<lambda>(srv, log). (srv, m # log)) (listen_loop rest)"

text \<open>\<open>readline\<close> on a socket: a chunk completes the line begun before it; an open line is handed on when the
  socket closes.\<close>

definition on_chunk :: "string \<Rightarrow> string list \<times> string \<Rightarrow> string list \<times> string" where
  "on_chunk data st = (let ps = split_char (CHR 0x0A) (snd st @ data) in (fst st @ butlast ps, last ps))"

definition lines_read :: "string list \<Rightarrow> string list" where
  "lines_read chunks = (let (ls, open) = fold on_chunk chunks ([], []) in if open = [] then ls else ls @ [open])"

definition createNamedPipe :: "(string \<Rightarrow> 's \<Rightarrow> 's) \<Rightarrow> ('s \<Rightarrow> 's) \<Rightarrow> string list \<Rightarrow> 's \<Rightarrow> 's" where
  "createNamedPipe handle greet chunks s = fold handle (lines_read chunks) (greet s)"

section \<open>Facts\<close>

lemma split_append_last:
  "split_char c (a @ b) = butlast (split_char c a) @ split_char c (last (split_char c a) @ b)"
proof (induction a)
  case Nil
  then show ?case by simp
next
  case (Cons x xs)
  obtain p ps where p: "split_char c xs = p # ps" by (cases "split_char c xs") auto
  obtain q qs where q: "split_char c (xs @ b) = q # qs" by (cases "split_char c (xs @ b)") auto
  show ?case
  proof (cases ps)
    case Nil
    with Cons p q show ?thesis by (auto split: if_splits)
  next
    case (Cons r rs)
    with Cons.IH p q show ?thesis by (auto split: if_splits)
  qed
qed

lemma chunks_state:
  "fold on_chunk chunks (ls, rest) = (ls @ butlast (split_char (CHR 0x0A) (rest @ concat chunks)), last (split_char (CHR 0x0A) (rest @ concat chunks)))"
  if "CHR 0x0A \<notin> set rest"
  using that
proof (induction chunks arbitrary: ls rest)
  case Nil
  then show ?case by (simp add: split_nosep)
next
  case (Cons d ds)
  let ?ps = "split_char (CHR 0x0A) (rest @ d)"
  have ne: "?ps \<noteq> []" by simp
  have plain: "CHR 0x0A \<notin> set (last ?ps)" using split_pieces last_in_set [OF ne] by metis
  have "fold on_chunk (d # ds) (ls, rest) = fold on_chunk ds (ls @ butlast ?ps, last ?ps)" by (simp add: on_chunk_def Let_def)
  then show ?case
    unfolding Cons.IH [OF plain] using split_append_last [of "CHR 0x0A" "rest @ d" "concat ds"]
    by (simp add: butlast_append)
qed

section \<open>Properties\<close>

text \<open>The lines that reach the handler do not depend on how the socket cuts the stream into chunks.\<close>

theorem lines_of_stream:
  "lines_read chunks = (let ps = split_char (CHR 0x0A) (concat chunks) in if last ps = [] then butlast ps else ps)"
proof -
  have "ps \<noteq> [] \<Longrightarrow> butlast ps @ [last ps] = ps" for ps :: "string list" by simp
  then show ?thesis using chunks_state [where ls = "[]" and rest = "[]" and chunks = chunks] by (simp add: lines_read_def Let_def)
qed

text \<open>The server listens as soon as an attempt succeeds, after one second of sleep for each attempt before it.\<close>

theorem listens_at_first_success:
  "listen_loop (map Inl ms @ Inr srv # rest) = Some (srv, ms)"
  by (induction ms) simp_all

text \<open>A restored child ends without an exit code: once it is gone its status file is gone too, and the
  service takes any end of it, a crash too, for a normal exit; a spawned child that exits with an error
  fails the run, unless it was frozen and killed.\<close>

theorem exit_seen_by_service:
  assumes "waitForExit child events None answers = Some (Inr code)"
  shows "script_result env code s =
    (case child of
       Restored pid \<Rightarrow> script_result env (Some 0) s
     | Spawned \<Rightarrow> (case code of
         Some n \<Rightarrow> if n \<noteq> 0 \<and> \<not> (sr_frozen s \<and> n = 137)
                   then error_response (Some (''Task Subprocess exited with code '' @ show_int n)) else script_result env (Some 0) s
       | None \<Rightarrow> script_result env (Some 0) s))"
proof (cases child)
  case Spawned
  then show ?thesis by (cases code) (auto simp: script_result_def)
next
  case (Restored pid)
  have "poll_exit None as = Some (Inr x) \<Longrightarrow> x = None" for as x
    by (induction "None :: string option" as rule: poll_exit.induct) (auto simp: getExitCodeForLinux_def)
  with assms Restored have "code = None" by (simp add: waitForExit_def)
  with Restored show ?thesis by (simp add: script_result_def)
qed

definition ex_sent :: "(string \<times> json option) list script_run" where
  "ex_sent = \<lparr>sr_world = ex_world [], sr_event = ex_event_for (ex_endpoint False None), sr_final = Some ''1'', sr_error = None,
     sr_frozen = False, sr_writes = [], sr_unhandled = []\<rparr>"

theorem exit_seen_by_service_witness:
  "waitForExit (Restored 42) [] None [Alive, Alive, NoSuchProcess] = Some (Inr None) \<and>
   script_result ex_proc None ex_sent = script_result ex_proc (Some 0) ex_sent"
proof -
  have w: "waitForExit (Restored 42) [] None [Alive, Alive, NoSuchProcess] = Some (Inr None)"
    by (simp add: waitForExit_def getExitCodeForLinux_def)
  from exit_seen_by_service [OF w, of ex_proc ex_sent] w show ?thesis by simp
qed

end
