(* ===== verification/Rest.thy ===== *)
theory Rest
  imports Sessions Billing Endpoints
begin

text \<open>
  The edge of the service: the token that a request carries and the guard that reads it, the validator
  that loads the entity an id names, the API versions of a request, and the controllers that put these
  before the operations of the other theories (\<open>auth.controller.ts\<close>, \<open>entries.controller.ts\<close>,
  \<open>endpoints.controller.ts\<close>, \<open>billing.controller.ts\<close>). Signing and verifying tokens, and the paginated
  queries of the database library, are parameters.
\<close>

section \<open>Tokens and the guard\<close>

type_synonym payload = "json obj"

record http_request =
  hr_token :: "string option"
  hr_cookies :: "string obj"

text \<open>\<open>jwtFromRequest\<close>: the header, else the cookie. A payload that verifies is the user; it is not looked
  up whether it was revoked.\<close>

definition jwtFromRequest :: "config \<Rightarrow> http_request \<Rightarrow> string option" where
  "jwtFromRequest cfg req =
     (if nonempty_str (hr_token req) then hr_token req
      else Option.bind (cfg ''JWT_COOKIE_NAME'') (obj_get (hr_cookies req)))"

definition jwt_user :: "config \<Rightarrow> (string \<Rightarrow> payload option) \<Rightarrow> http_request \<Rightarrow> payload option" where
  "jwt_user cfg verify req = Option.bind (jwtFromRequest cfg req) verify"

definition jwtGuard :: "bool \<Rightarrow> config \<Rightarrow> (string \<Rightarrow> payload option) \<Rightarrow> http_request \<Rightarrow> payload option result" where
  "jwtGuard allowUnauthorized cfg verify req =
     (case jwt_user cfg verify req of
        Some u \<Rightarrow> Inr (Some u)
      | None \<Rightarrow> if allowUnauthorized then Inr None else Inl (Unauthorized ''Unauthorized''))"

definition guarded :: "config \<Rightarrow> (string \<Rightarrow> payload option) \<Rightarrow> http_request \<Rightarrow> (payload \<Rightarrow> 'a result) \<Rightarrow> 'a result" where
  "guarded cfg verify req action = and_then (jwtGuard False cfg verify req) (\<lambda>u. action (the u))"

definition sub_of :: "payload \<Rightarrow> string option" where
  "sub_of u = (case obj_get u ''sub'' of Some (JStr s) \<Rightarrow> Some s | _ \<Rightarrow> None)"

section \<open>The authentication controller\<close>

text \<open>\<open>JwtAuthService.sign\<close> adds the time and the id of the token to the claims; \<open>lib_sign\<close> is the JWT package,
  called with the configured time to live. Properties that are \<open>undefined\<close> are not in the token.\<close>

definition stamped :: "string \<Rightarrow> int \<Rightarrow> string \<Rightarrow> payload \<Rightarrow> payload" where
  "stamped alph now rnd p =
     obj_set ''jti'' (JStr (intToBase64 alph now @ rnd)) (obj_set ''iat'' (JNum (of_int (now div 1000))) p)"

definition jwt_sign :: "(payload \<Rightarrow> string) \<Rightarrow> string \<Rightarrow> int \<Rightarrow> string \<Rightarrow> payload \<Rightarrow> string" where
  "jwt_sign lib_sign alph now rnd p = lib_sign (stamped alph now rnd p)"

definition json_text :: "string \<Rightarrow> string option \<Rightarrow> payload" where
  "json_text k v = (case v of None \<Rightarrow> [] | Some s \<Rightarrow> [(k, JStr s)])"

record 'a auth_reply =
  au_data :: 'a
  au_token :: string

definition public_user :: "user \<Rightarrow> string \<times> string option \<times> string option" where
  "public_user u = (us_name u, us_email u, us_avatar u)"

definition api_register :: "user_env \<Rightarrow> (session \<Rightarrow> string) \<Rightarrow> new_identity \<Rightarrow> user_db \<Rightarrow>
    (user_db \<times> (string \<times> string option \<times> string option) auth_reply) result" where
  "api_register env sign dto db =
     and_then (registerUserFromIdentity env (dto\<lparr>ni_provider := ''local'', ni_uid := ni_email dto\<rparr>) db) (\<lambda>(db1, j).
       case jn_user j of
         None \<Rightarrow> Inl (TypeError ''Cannot read properties of null'')
       | Some u \<Rightarrow> Inr (db1, \<lparr>au_data = public_user u, au_token = sign (session_of ''local'' u)\<rparr>))"

record token_grant =
  gr_type :: "string option"
  gr_id :: "string option"
  gr_secret :: "string option"

record token_reply =
  tr_access_token :: string
  tr_token_type :: string
  tr_expires_in :: "int option"

definition relay_payload :: "string option \<Rightarrow> payload" where
  "relay_payload cid = json_text ''sub'' cid @ [(''iss'', JStr ''sparkpost-relay''), (''aud'', JStr ''sparkpost-relay'')]"

definition getTokenByOauth2Credentials :: "config \<Rightarrow> (payload \<Rightarrow> string) \<Rightarrow> token_grant \<Rightarrow> token_reply result" where
  "getTokenByOauth2Credentials cfg sign body =
     (if gr_type body \<noteq> Some ''client_credentials''
      then Inl (BadRequest (''Unsupported grant type '' @ (case gr_type body of None \<Rightarrow> ''undefined'' | Some t \<Rightarrow> t)))
      else
        (let cid = cfg ''EMAIL_SPARKPOST_RELAY_CLIENT_ID''; pwd = cfg ''EMAIL_SPARKPOST_RELAY_CLIENT_SECRET''
         in if cid \<noteq> gr_id body \<or> pwd \<noteq> gr_secret body then Inl (Unauthorized ''Invalid credentials'')
            else Inr \<lparr>tr_access_token = sign (relay_payload cid), tr_token_type = ''Bearer'',
                      tr_expires_in = Option.bind (cfg ''EMAIL_SPARKPOST_RELAY_EXPIRES_IN'') parse_int\<rparr>))"

section \<open>Entities named in a body\<close>

text \<open>
  \<open>EntityIdExistsRule.validate\<close>: an empty value is not validated; otherwise the entity must exist, and it is
  kept with the body for the controller. A query that throws counts as not found. The result is the
  verdict and the entity that was kept.
\<close>

definition entity_validate :: "(string \<Rightarrow> 'e option result) \<Rightarrow> string option \<Rightarrow> bool \<times> 'e option" where
  "entity_validate findUnique value =
     (if \<not> nonempty_str value then (True, None)
      else (case findUnique (the value) of
              Inl _ \<Rightarrow> (False, None)
            | Inr e \<Rightarrow> (e \<noteq> None, e)))"

definition validated :: "bool \<times> 'e option \<Rightarrow> ('e option \<Rightarrow> 'a result) \<Rightarrow> 'a result" where
  "validated v action = (if fst v then action (snd v) else Inl (BadRequest ''entryId entity not found''))"

definition find_entry_row :: "entry_db \<Rightarrow> string \<Rightarrow> entry_row option result" where
  "find_entry_row db i = Inr (find (\<lambda>y. ey_id y = i) (ed_entries db))"

section \<open>Entries\<close>

definition api_listAdaptors :: "registry \<Rightarrow> bool \<Rightarrow> string option obj" where
  "api_listAdaptors rg client = listAdaptors rg client"

definition api_createEntry :: "config \<Rightarrow> (string \<Rightarrow> payload option) \<Rightarrow> registry \<Rightarrow> (string \<Rightarrow> adaptor) \<Rightarrow> http_request \<Rightarrow> string \<Rightarrow> string \<Rightarrow>
    entry_row \<Rightarrow> entry_db \<Rightarrow> (entry_db \<times> entry_row) result" where
  "api_createEntry cfg verify rg service req fresh adaptorKey dto db =
     guarded cfg verify req (\<lambda>u. createEntry rg service fresh (dto\<lparr>er_adaptorKey := adaptorKey, er_createdBy := sub_of u\<rparr>) db)"

definition api_updateEntry :: "config \<Rightarrow> (string \<Rightarrow> payload option) \<Rightarrow> http_request \<Rightarrow> string \<Rightarrow> (entry_row \<Rightarrow> entry_row) \<Rightarrow> entry_db \<Rightarrow> entry_db result" where
  "api_updateEntry cfg verify req i patch db = guarded cfg verify req (\<lambda>u. updateEntry i patch db)"

text \<open>\<open>initEntry\<close> calls \<open>init\<close>, which returns before it does anything.\<close>

definition api_initEntry :: "config \<Rightarrow> (string \<Rightarrow> payload option) \<Rightarrow> http_request \<Rightarrow> string \<Rightarrow> entry_db \<Rightarrow> entry_db result" where
  "api_initEntry cfg verify req i db = guarded cfg verify req (\<lambda>u. Inr db)"

definition api_removeEntry :: "config \<Rightarrow> (string \<Rightarrow> payload option) \<Rightarrow> http_request \<Rightarrow> string \<Rightarrow> entry_db \<Rightarrow> (entry_db \<times> entry_row) result" where
  "api_removeEntry cfg verify req i db = guarded cfg verify req (\<lambda>u. deleteEntry i (sub_of u) db)"

text \<open>The query of \<open>listServerEntries\<close>: what is asked of the paginated look-up. \<open>Number\<close> is the conversion of the
  page numbers.\<close>

record list_query =
  lq_query :: "string option"
  lq_adaptor :: "string option"
  lq_callgentId :: "string option"
  lq_page :: "string option"
  lq_perPage :: "string option"
  lq_orderBy :: "string option"

definition contains :: "string \<Rightarrow> string \<Rightarrow> bool" where
  "contains t s \<longleftrightarrow> find_sub t s \<noteq> None"

definition listed :: "list_query \<Rightarrow> entry_row \<Rightarrow> bool" where
  "listed q y \<longleftrightarrow> ey_type y = ET_SERVER \<and>
     (nonempty_str (lq_adaptor q) \<longrightarrow> lq_adaptor q = Some (er_adaptorKey y)) \<and>
     (nonempty_str (lq_callgentId q) \<longrightarrow> lq_callgentId q = Some (ey_callgentId y)) \<and>
     (case lq_query q of None \<Rightarrow> True | Some t \<Rightarrow> js_trim t = [] \<or> (\<exists>n\<in>set_option (er_name y). contains (js_trim t) n))"

type_synonym 'p paginated = "(entry_row \<Rightarrow> bool) \<Rightarrow> (string \<times> direction) list \<Rightarrow> rat option \<Rightarrow> rat option \<Rightarrow> 'p"

definition listServerEntries :: "config \<Rightarrow> (string \<Rightarrow> payload option) \<Rightarrow> (string \<Rightarrow> rat option) \<Rightarrow> 'p paginated \<Rightarrow>
    http_request \<Rightarrow> list_query \<Rightarrow> 'p result" where
  "listServerEntries cfg verify number paginate req q =
     guarded cfg verify req (\<lambda>u.
       let num = (\<lambda>v. if nonempty_str v then number (the v) else None);
           orderBy = (case parseOrderBy (Some [''name'', ''type'', ''adaptorKey'', ''host'', ''pk'', ''updatedAt'']) (lq_orderBy q) of
                        None \<Rightarrow> [(''pk'', Desc)] | Some o1 \<Rightarrow> o1)
       in Inr (paginate (listed q) orderBy (num (lq_page q)) (num (lq_perPage q))))"

section \<open>Endpoints\<close>

definition api_createBatch :: "config \<Rightarrow> (string \<Rightarrow> payload option) \<Rightarrow> registry \<Rightarrow> (string \<Rightarrow> adaptor) \<Rightarrow> url_host \<Rightarrow> (nat \<Rightarrow> string) \<Rightarrow> http_request \<Rightarrow>
    string option \<Rightarrow> api_spec \<Rightarrow> realm_db \<Rightarrow> entry_db \<Rightarrow> (realm_db \<times> entry_db \<times> nat) result" where
  "api_createBatch cfg verify rg service host fresh req entryId spec rdb db =
     guarded cfg verify req (\<lambda>u. validated (entity_validate (find_entry_row db) entryId) (\<lambda>entry.
       case entry of
         None \<Rightarrow> Inl (TypeError ''Cannot read properties of undefined (reading type)'')
       | Some ey \<Rightarrow> createBatch rg service host fresh ey spec (sub_of u) rdb db))"

definition api_importBatch :: "config \<Rightarrow> (string \<Rightarrow> payload option) \<Rightarrow> registry \<Rightarrow> (string \<Rightarrow> adaptor) \<Rightarrow> url_host \<Rightarrow> readers \<Rightarrow> (nat \<Rightarrow> string) \<Rightarrow>
    http_request \<Rightarrow> string option \<Rightarrow> string \<Rightarrow> format option \<Rightarrow> realm_db \<Rightarrow> entry_db \<Rightarrow> (realm_db \<times> entry_db \<times> nat) result" where
  "api_importBatch cfg verify rg service host rd fresh req entryId text fmt rdb db =
     guarded cfg verify req (\<lambda>u.
       if \<not> nonempty_str entryId then Inl (BadRequest ''entryId should not be empty'')
       else if text = [] then Inl (BadRequest ''text should not be empty'')
       else validated (entity_validate (find_entry_row db) entryId) (\<lambda>entry.
         importBatch rg service host rd fresh entry text fmt (sub_of u) rdb db))"

definition api_findEndpoint :: "config \<Rightarrow> (string \<Rightarrow> payload option) \<Rightarrow> http_request \<Rightarrow> string \<Rightarrow> entry_db \<Rightarrow> endpoint_row option result" where
  "api_findEndpoint cfg verify req i db = guarded cfg verify req (\<lambda>u. Inr (find (\<lambda>n. en_id n = i) (ed_endpoints db)))"

definition api_updateEndpoint :: "config \<Rightarrow> (string \<Rightarrow> payload option) \<Rightarrow> http_request \<Rightarrow> string \<Rightarrow> string option \<Rightarrow> string option \<Rightarrow>
    (endpoint_row \<Rightarrow> endpoint_row) \<Rightarrow> entry_db \<Rightarrow> (entry_db \<times> endpoint_row option) result" where
  "api_updateEndpoint cfg verify req i meth path patch db = guarded cfg verify req (\<lambda>u. updateEndpoint i meth path patch (sub_of u) db)"

definition api_deleteEndpoint :: "config \<Rightarrow> (string \<Rightarrow> payload option) \<Rightarrow> http_request \<Rightarrow> string \<Rightarrow> entry_db \<Rightarrow> (entry_db \<times> endpoint_row) result" where
  "api_deleteEndpoint cfg verify req i db = guarded cfg verify req (\<lambda>u. deleteEndpoint i (sub_of u) db)"

section \<open>Versions\<close>

text \<open>The versions that a request accepts, best first: all from the requested number down to 1. \<open>NaN\<close> and
  negative lengths give none.\<close>

definition api_versions :: "config \<Rightarrow> string option \<Rightarrow> string list" where
  "api_versions cfg header =
     (let requested = (case header of Some h \<Rightarrow> h | None \<Rightarrow> (case cfg ''DEFAULT_API_VERSION'' of None \<Rightarrow> ''1'' | Some v \<Rightarrow> v))
      in case parse_int requested of
           None \<Rightarrow> []
         | Some n \<Rightarrow> rev (map (\<lambda>i. show_int (int i + 1)) [0..<nat n]))"

section \<open>Billing\<close>

text \<open>\<open>checkout\<close> opens a payment session at the payment provider; its metadata names the user, which is
  whom the webhook credits.\<close>

record checkout_session =
  cs_id :: string
  cs_url :: string

definition createStripePayment :: "config \<Rightarrow> (rat \<Rightarrow> string \<Rightarrow> string \<Rightarrow> string option \<Rightarrow> checkout_session result) \<Rightarrow> rat \<Rightarrow> string \<Rightarrow> string option \<Rightarrow>
    checkout_session result" where
  "createStripePayment cfg checkout amount currency userid =
     checkout amount currency ((case cfg ''CALLGENT_SITE_URL'' of None \<Rightarrow> ''undefined'' | Some u \<Rightarrow> u) @ ''/pricing'') userid"

definition api_createPayment :: "config \<Rightarrow> (string \<Rightarrow> payload option) \<Rightarrow> (rat \<Rightarrow> string \<Rightarrow> string \<Rightarrow> string option \<Rightarrow> checkout_session result) \<Rightarrow>
    http_request \<Rightarrow> rat \<Rightarrow> string \<Rightarrow> (string \<times> string) result" where
  "api_createPayment cfg verify checkout req amount currency =
     guarded cfg verify req (\<lambda>u. and_then (createStripePayment cfg checkout amount currency (sub_of u)) (\<lambda>s. Inr (cs_id s, cs_url s)))"

definition api_getTxDetails :: "config \<Rightarrow> (string \<Rightarrow> payload option) \<Rightarrow> (string \<Rightarrow> rat option) \<Rightarrow> user_env \<Rightarrow>
    (transaction list \<Rightarrow> rat option \<Rightarrow> rat option \<Rightarrow> transaction list) \<Rightarrow> http_request \<Rightarrow> string option \<Rightarrow> string option \<Rightarrow> billing_db \<Rightarrow>
    (transaction list \<times> int) result" where
  "api_getTxDetails cfg verify number env paginate req page perPage1 db =
     guarded cfg verify req (\<lambda>u.
       let num = (\<lambda>v. if nonempty_str v then number (the v) else None)
       in and_then (getTenant env (bl_users db) (sub_of u)) (\<lambda>t.
            Inr (paginate (rev (filter (\<lambda>x. Some (tr_userId x) = sub_of u) (bl_txs db))) (num page) (num perPage1), tn_balance t)))"

section \<open>Properties\<close>

text \<open>Without a valid token every guarded operation is refused, whatever it would do.\<close>

theorem guard_refuses:
  "jwt_user cfg verify req = None \<longleftrightarrow> (\<forall>action. guarded cfg verify req action = (Inl (Unauthorized ''Unauthorized'') :: unit result))"
proof
  assume "\<forall>action. guarded cfg verify req action = (Inl (Unauthorized ''Unauthorized'') :: unit result)"
  then have "guarded cfg verify req (\<lambda>_. Inr ()) = Inl (Unauthorized ''Unauthorized'')" by blast
  then show "jwt_user cfg verify req = None" by (auto simp: guarded_def jwtGuard_def split: option.splits)
qed (simp add: guarded_def jwtGuard_def)

text \<open>C20. The token endpoint gives a token exactly to a request with the configured pair of credentials;
  where they are not configured, to one without any. The guard takes its bearer for a user until it
  expires, so that every guarded operation runs, as the user whom the claims name, the client id of
  the relay (none where it is not configured); after that it is refused. Of the library that signs and
  verifies it is assumed that it gives the signed claims back, with the time of expiry, before that
  time (in seconds, \<open>life\<close> after they were issued), and nothing from then on.\<close>

theorem relay_token_needs_credentials:
  assumes "p = stamped alph now rnd (relay_payload (cfg ''EMAIL_SPARKPOST_RELAY_CLIENT_ID''))"
    and "verify (lib_sign p) = (if clock < now div 1000 + life then Some (obj_set ''exp'' (JNum (of_int (now div 1000 + life))) p) else None)"
    and "lib_sign p \<noteq> []"
  shows "((\<exists>r. getTokenByOauth2Credentials cfg (jwt_sign lib_sign alph now rnd) body = Inr r) \<longleftrightarrow> gr_type body = Some ''client_credentials'' \<and>
       gr_id body = cfg ''EMAIL_SPARKPOST_RELAY_CLIENT_ID'' \<and> gr_secret body = cfg ''EMAIL_SPARKPOST_RELAY_CLIENT_SECRET'') \<and>
    (\<forall>r req. getTokenByOauth2Credentials cfg (jwt_sign lib_sign alph now rnd) body = Inr r \<longrightarrow> hr_token req = Some (tr_access_token r) \<longrightarrow>
       (\<exists>u. sub_of u = cfg ''EMAIL_SPARKPOST_RELAY_CLIENT_ID'' \<and> obj_get u ''iss'' = Some (JStr ''sparkpost-relay'') \<and>
          obj_get u ''aud'' = Some (JStr ''sparkpost-relay'') \<and>
          (\<forall>action. guarded cfg verify req action =
             (if clock < now div 1000 + life then action u else Inl (Unauthorized ''Unauthorized'') :: unit result))))"
proof -
  let ?u = "obj_set ''exp'' (JNum (of_int (now div 1000 + life))) p"
  have u: "sub_of ?u = cfg ''EMAIL_SPARKPOST_RELAY_CLIENT_ID''" "obj_get ?u ''iss'' = Some (JStr ''sparkpost-relay'')"
      "obj_get ?u ''aud'' = Some (JStr ''sparkpost-relay'')"
    by (auto simp: assms(1) sub_of_def stamped_def jsobj.lookup_put relay_payload_def json_text_def obj_get_def [of "_ @ _"] obj_get_def [of "_ # _"]
        split: option.splits)
  have g: "guarded cfg verify req action = (if clock < now div 1000 + life then action ?u else Inl (Unauthorized ''Unauthorized''))"
    if "hr_token req = Some (lib_sign p)" for req and action :: "payload \<Rightarrow> unit result"
    using that assms(2,3) by (simp add: guarded_def jwtGuard_def jwt_user_def jwtFromRequest_def nonempty_str_def)
  have t: "tr_access_token r = lib_sign p" if "getTokenByOauth2Credentials cfg (jwt_sign lib_sign alph now rnd) body = Inr r" for r
    using that by (auto simp: getTokenByOauth2Credentials_def jwt_sign_def assms(1) Let_def split: if_splits)
  have "(\<exists>r. getTokenByOauth2Credentials cfg (jwt_sign lib_sign alph now rnd) body = Inr r) \<longleftrightarrow> gr_type body = Some ''client_credentials'' \<and>
       gr_id body = cfg ''EMAIL_SPARKPOST_RELAY_CLIENT_ID'' \<and> gr_secret body = cfg ''EMAIL_SPARKPOST_RELAY_CLIENT_SECRET''"
    by (auto simp: getTokenByOauth2Credentials_def Let_def)
  then show ?thesis using u g t by (intro conjI allI impI exI [of _ ?u]) (blast | simp)+
qed

theorem relay_token_needs_credentials_witness:
  "\<exists>r u. getTokenByOauth2Credentials (\<lambda>_. None) (jwt_sign (\<lambda>_. ''tok'') ''az'' 5000 ''x'')
       \<lparr>gr_type = Some ''client_credentials'', gr_id = None, gr_secret = None\<rparr> = Inr r \<and> sub_of u = None \<and>
     guarded (\<lambda>_. None) (\<lambda>_. Some (obj_set ''exp'' (JNum 65) (stamped ''az'' 5000 ''x'' (relay_payload None))))
       \<lparr>hr_token = Some (tr_access_token r), hr_cookies = []\<rparr> (\<lambda>v. if v = u then Inr () else Inl (PlainError [])) = Inr ()"
proof -
  let ?body = "\<lparr>gr_type = Some ''client_credentials'', gr_id = None, gr_secret = None\<rparr>"
  let ?p = "stamped ''az'' 5000 ''x'' (relay_payload None)"
  let ?verify = "\<lambda>_. Some (obj_set ''exp'' (JNum 65) ?p)"
  have v: "?verify ''tok'' = (if (7::int) < 5000 div 1000 + 60 then Some (obj_set ''exp'' (JNum (of_int (5000 div 1000 + 60))) ?p) else None)"
    by simp
  have ne: "''tok'' \<noteq> []" by simp
  note T = relay_token_needs_credentials [where cfg = "\<lambda>_. None" and lib_sign = "\<lambda>_. ''tok''" and verify = ?verify and body = ?body and
      clock = 7 and life = 60 and now = 5000 and alph = "''az''" and rnd = "''x''", OF refl v ne]
  obtain r where r: "getTokenByOauth2Credentials (\<lambda>_. None) (jwt_sign (\<lambda>_. ''tok'') ''az'' 5000 ''x'') ?body = Inr r"
    using T by auto
  let ?req = "\<lparr>hr_token = Some (tr_access_token r), hr_cookies = []\<rparr>"
  obtain u where "sub_of u = None" and "\<And>action. guarded (\<lambda>_. None) ?verify ?req action = (action u :: unit result)"
    using T [THEN conjunct2, rule_format, OF r, of ?req] by auto
  then show ?thesis using r by (intro exI [of _ r] exI [of _ u]) simp
qed

text \<open>A batch without an entry passes the validation of its body and fails where the entry is used; the import
  of a text checks both.\<close>

theorem batch_without_entry:
  assumes "jwt_user cfg verify req = Some u"
  shows "api_createBatch cfg verify rg service host fresh req None spec rdb db = Inl (TypeError ''Cannot read properties of undefined (reading type)'') \<and>
    api_importBatch cfg verify rg service host rd fresh req None text fmt rdb db = Inl (BadRequest ''entryId should not be empty'')"
  using assms by (simp add: api_createBatch_def api_importBatch_def guarded_def jwtGuard_def validated_def entity_validate_def)

text \<open>The versions of a request: requested \<open>n\<close>, it is served by \<open>n\<close>, \<open>n - 1\<close>, down to 1, and by none when the
  header is no positive number.\<close>

lemma upto_upt: "[1..int k] = map (\<lambda>i. int i + 1) [0..<k]"
  by (induction k) (simp_all add: upto_rec2 add.commute)

theorem versions_descend:
  "api_versions cfg (Some h) = (case parse_int h of None \<Rightarrow> [] | Some n \<Rightarrow> map show_int (rev [1..n]))"
proof (cases "parse_int h")
  case (Some n)
  show ?thesis
  proof (cases "0 < n")
    case True
    then obtain k where "n = int k" by (metis zero_less_imp_eq_int)
    with Some show ?thesis by (simp add: api_versions_def upto_upt rev_map comp_def)
  next
    case False
    with Some show ?thesis by (simp add: api_versions_def)
  qed
qed (simp add: api_versions_def)

end
