(* ===== verification/Reads.thy ===== *)
theory Reads
  imports Utils
begin

text \<open>
  The reads of the services on rows as the database library returns them: the columns that each service
  hides or shows by default (\<open>defSelect\<close>), and its look-ups and paginated lists through
  \<open>selectHelper\<close>. A selection of the library keeps the columns that it maps to \<open>true\<close>; the page of a list
  and the comparison of rows by an order are parameters.
\<close>

type_synonym table = "json obj list"

section \<open>Queries\<close>

definition prisma_select :: "selection option \<Rightarrow> json obj \<Rightarrow> json obj" where
  "prisma_select s row = (case s of None \<Rightarrow> row | Some t \<Rightarrow> filter (\<lambda>(k, _). obj_get t k = Some STrue) row)"

definition find_unique :: "selection \<Rightarrow> selection option \<Rightarrow> string \<Rightarrow> table \<Rightarrow> rows result" where
  "find_unique defSelect select i tab =
     selectHelper select (\<lambda>s. Inr (case find (\<lambda>r. obj_get r ''id'' = Some (JStr i)) tab of None \<Rightarrow> NoRow | Some r \<Rightarrow> OneRow (prisma_select s r)))
       (Some defSelect)"

record ('o) list_args =
  la_where :: "json obj \<Rightarrow> bool"
  la_orderBy :: "'o option"
  la_page :: "int option"
  la_perPage :: "int option"

record ('o) db_env =
  de_cmp :: "'o \<Rightarrow> json obj \<Rightarrow> json obj \<Rightarrow> int"
  de_newest :: 'o
  de_page :: "int option \<Rightarrow> int option \<Rightarrow> json obj list \<Rightarrow> json obj list"

text \<open>A list without an order has the newest row first. The helper prunes the rows of the page, which are the
  property \<open>data\<close> of the paginator's result.\<close>

definition find_page :: "'o db_env \<Rightarrow> selection \<Rightarrow> selection option \<Rightarrow> 'o list_args \<Rightarrow> table \<Rightarrow> rows result" where
  "find_page env defSelect select a tab =
     selectHelper select (\<lambda>s. Inr (ManyRows (map (prisma_select s) (de_page env (la_page a) (la_perPage a)
         (js_sort (de_cmp env (case la_orderBy a of None \<Rightarrow> de_newest env | Some o1 \<Rightarrow> o1)) (filter (la_where a) tab))))))
       (Some defSelect)"

section \<open>The services\<close>

definition hide_all :: "string list \<Rightarrow> selection" where
  "hide_all ks = map (\<lambda>k. (k, SFalse)) ks"

definition show_all :: "string list \<Rightarrow> selection" where
  "show_all ks = map (\<lambda>k. (k, STrue)) ks"

definition entries_defSelect :: selection where
  "entries_defSelect = hide_all [''pk'', ''tenantPk'', ''createdBy'', ''deletedAt'']"

definition entries_findOne :: "string \<Rightarrow> selection option \<Rightarrow> table \<Rightarrow> rows result" where
  "entries_findOne i select = find_unique entries_defSelect select i"

definition entries_findMany :: "'o db_env \<Rightarrow> selection option \<Rightarrow> 'o list_args \<Rightarrow> table \<Rightarrow> rows result" where
  "entries_findMany env select = find_page env entries_defSelect select"

definition endpoints_defSelect :: selection where
  "endpoints_defSelect = hide_all [''pk'', ''tenantPk'', ''rawJson'', ''params'', ''responses'', ''createdBy'', ''deletedAt'']"

definition endpoints_findOne :: "string \<Rightarrow> selection option \<Rightarrow> table \<Rightarrow> rows result" where
  "endpoints_findOne i select = find_unique endpoints_defSelect select i"

definition endpoints_findMany :: "'o db_env \<Rightarrow> selection option \<Rightarrow> 'o list_args \<Rightarrow> table \<Rightarrow> rows result" where
  "endpoints_findMany env select = find_page env endpoints_defSelect select"

definition callgents_defSelect :: selection where
  "callgents_defSelect = hide_all [''pk'', ''tenantPk'', ''forkedPk'', ''createdBy'', ''deletedAt'']"

definition callgents_findMany :: "'o db_env \<Rightarrow> selection option \<Rightarrow> 'o list_args \<Rightarrow> table \<Rightarrow> rows result" where
  "callgents_findMany env select = find_page env callgents_defSelect select"

definition transactions_defSelect :: selection where
  "transactions_defSelect = hide_all [''pk'', ''refData'', ''tenantPk'', ''deletedAt'']"

definition transactions_findMany :: "'o db_env \<Rightarrow> selection option \<Rightarrow> 'o list_args \<Rightarrow> table \<Rightarrow> rows result" where
  "transactions_findMany env select = find_page env transactions_defSelect select"

text \<open>The store of events lists the columns that it shows; neither the context of an event nor its
  checkpoint is among them.\<close>

definition events_defSelect :: selection where
  "events_defSelect = show_all [''id'', ''calledBy'', ''paidBy'', ''title'', ''taskId'', ''eventType'', ''dataType'', ''statusCode'', ''message'',
     ''createdAt'', ''updatedAt'']"

definition events_findMany :: "'o db_env \<Rightarrow> selection option \<Rightarrow> 'o list_args \<Rightarrow> table \<Rightarrow> rows result" where
  "events_findMany env select = find_page env events_defSelect select"

text \<open>The service of the users passes its default as the selection.\<close>

definition users_defSelect :: selection where
  "users_defSelect = hide_all [''pk'', ''tenantPk'', ''deletedAt'']"

definition users_findOne :: "string \<Rightarrow> table \<Rightarrow> rows result" where
  "users_findOne i tab =
     selectHelper (Some users_defSelect)
       (\<lambda>s. Inr (case find (\<lambda>r. obj_get r ''id'' = Some (JStr i)) tab of None \<Rightarrow> NoRow | Some r \<Rightarrow> OneRow (prisma_select s r))) None"

section \<open>Facts\<close>

lemma prisma_select_get:
  "obj_get (prisma_select s row) k = (case s of None \<Rightarrow> obj_get row k | Some t \<Rightarrow> if obj_get t k = Some STrue then obj_get row k else None)"
  by (induction row) (auto simp: prisma_select_def obj_get_def split: option.splits)

text \<open>What a caller sees of a row through the selection that the helper has merged.\<close>

definition seen :: "selection \<Rightarrow> json obj \<Rightarrow> string \<Rightarrow> json option" where
  "seen m row k =
     (if list_all (\<lambda>kv. snd kv \<noteq> STrue) m then (if k \<in> set (obj_keys m) then None else obj_get row k)
      else if obj_get m k = Some STrue then obj_get row k else None)"

definition presents :: "selection \<Rightarrow> json obj \<Rightarrow> json obj \<Rightarrow> bool" where
  "presents m old new \<longleftrightarrow> (\<forall>k. obj_get new k = seen m old k)"

definition rows_of_query :: "(selection option \<Rightarrow> json obj \<Rightarrow> json obj) \<Rightarrow> rows \<Rightarrow> selection option \<Rightarrow> rows" where
  "rows_of_query f rs s = (case rs of NoRow \<Rightarrow> NoRow | OneRow r \<Rightarrow> OneRow (f s r) | ManyRows xs \<Rightarrow> ManyRows (map (f s) xs))"

lemma selectHelper_shows:
  assumes "selectHelper select (\<lambda>s. Inr (rows_of_query prisma_select rs s)) (Some d) = Inr out"
  shows "list_all2 (presents (mergeSelects d select)) (rows_list rs) (rows_list out)"
proof -
  let ?m = "mergeSelects d select"
  have one: "obj_get (prisma_select (Some ?m) r) k = seen ?m r k" if "\<not> list_all (\<lambda>kv. snd kv \<noteq> STrue) ?m" for r k
    using that by (simp add: seen_def prisma_select_get)
  have all: "obj_get (delete_fields (obj_keys ?m) (prisma_select None r)) k = seen ?m r k" if "list_all (\<lambda>kv. snd kv \<noteq> STrue) ?m" for r k
    using that by (simp add: seen_def delete_fields_get prisma_select_get)
  have none: "obj_get (prisma_select None r) k = seen ?m r k" if "obj_keys ?m = []" for r k
    using that by (simp add: seen_def obj_keys_def prisma_select_get)
  show ?thesis
    using assms
    by (cases rs) (auto simp: selectHelper_def rows_of_query_def Let_def presents_def one all none list_all2_conv_all_nth split: if_splits)
qed

lemma set_insort_cmp: "set (insort_cmp cmp x ys) = insert x (set ys)"
  by (induction ys) auto

lemma set_js_sort: "set (js_sort cmp xs) = set xs"
  by (induction xs) (auto simp: js_sort_def set_insort_cmp)

lemma find_page_shows:
  assumes "find_page env d select a tab = Inr out" and "\<And>p n xs. set (de_page env p n xs) \<subseteq> set xs"
  shows "\<exists>olds. list_all2 (presents (mergeSelects d select)) olds (rows_list out) \<and> (\<forall>r\<in>set olds. r \<in> set tab \<and> la_where a r)"
proof -
  let ?rs = "de_page env (la_page a) (la_perPage a)
         (js_sort (de_cmp env (case la_orderBy a of None \<Rightarrow> de_newest env | Some o1 \<Rightarrow> o1)) (filter (la_where a) tab))"
  have "selectHelper select (\<lambda>s. Inr (rows_of_query prisma_select (ManyRows ?rs) s)) (Some d) = Inr out"
    using assms(1) by (simp add: find_page_def rows_of_query_def)
  from selectHelper_shows [OF this] have "list_all2 (presents (mergeSelects d select)) ?rs (rows_list out)" by simp
  moreover have "r \<in> set tab \<and> la_where a r" if "r \<in> set ?rs" for r
    using subsetD [OF assms(2) that] by (simp add: set_js_sort)
  ultimately show ?thesis by blast
qed

section \<open>Properties\<close>

datatype service = EntryReads | EndpointReads | CallgentReads | TransactionReads | EventReads

fun findMany_of :: "service \<Rightarrow> 'o db_env \<Rightarrow> selection option \<Rightarrow> 'o list_args \<Rightarrow> table \<Rightarrow> rows result" where
  "findMany_of EntryReads = entries_findMany"
| "findMany_of EndpointReads = endpoints_findMany"
| "findMany_of CallgentReads = callgents_findMany"
| "findMany_of TransactionReads = transactions_findMany"
| "findMany_of EventReads = events_findMany"

fun visible :: "service \<Rightarrow> string \<Rightarrow> bool" where
  "visible EntryReads k \<longleftrightarrow> k \<notin> {''pk'', ''tenantPk'', ''createdBy'', ''deletedAt''}"
| "visible EndpointReads k \<longleftrightarrow> k \<notin> {''pk'', ''tenantPk'', ''rawJson'', ''params'', ''responses'', ''createdBy'', ''deletedAt''}"
| "visible CallgentReads k \<longleftrightarrow> k \<notin> {''pk'', ''tenantPk'', ''forkedPk'', ''createdBy'', ''deletedAt''}"
| "visible TransactionReads k \<longleftrightarrow> k \<notin> {''pk'', ''refData'', ''tenantPk'', ''deletedAt''}"
| "visible EventReads k \<longleftrightarrow> k \<in> {''id'', ''calledBy'', ''paidBy'', ''title'', ''taskId'', ''eventType'', ''dataType'', ''statusCode'', ''message'', ''createdAt'', ''updatedAt''}"

lemma seen_hide_all: "seen (hide_all ks) row k = (if k \<in> set ks then None else obj_get row k)"
  by (auto simp: seen_def hide_all_def obj_keys_def list_all_iff)

lemma seen_show_all: "ks \<noteq> [] \<Longrightarrow> seen (show_all ks) row k = (if k \<in> set ks then obj_get row k else None)"
  by (cases ks) (auto simp: seen_def show_all_def obj_get_def map_of_map_restrict restrict_map_def)

text \<open>A list of a service without a selection shows of each row exactly the visible columns, unchanged: every
  row of the page is the restriction of a stored row that the filter accepts.\<close>

theorem lists_show_visible_columns:
  assumes "findMany_of sv env None a tab = Inr out" and "\<And>p n xs. set (de_page env p n xs) \<subseteq> set xs"
  shows "\<exists>olds. (\<forall>r\<in>set olds. r \<in> set tab \<and> la_where a r) \<and>
    list_all2 (\<lambda>old new. \<forall>k. obj_get new k = (if visible sv k then obj_get old k else None)) olds (rows_list out)"
proof -
  let ?d = "case sv of EntryReads \<Rightarrow> entries_defSelect | EndpointReads \<Rightarrow> endpoints_defSelect | CallgentReads \<Rightarrow> callgents_defSelect
      | TransactionReads \<Rightarrow> transactions_defSelect | EventReads \<Rightarrow> events_defSelect"
  have "find_page env ?d None a tab = Inr out"
    using assms(1)
    by (cases sv) (simp_all add: entries_findMany_def endpoints_findMany_def callgents_findMany_def transactions_findMany_def events_findMany_def)
  from find_page_shows [OF this assms(2)] obtain olds
    where o: "list_all2 (presents ?d) olds (rows_list out)" "\<forall>r\<in>set olds. r \<in> set tab \<and> la_where a r"
    by (auto simp: mergeSelects_def)
  have "seen ?d row k = (if visible sv k then obj_get row k else None)" for row k
    by (cases sv) (auto simp: entries_defSelect_def endpoints_defSelect_def callgents_defSelect_def transactions_defSelect_def
        events_defSelect_def seen_hide_all seen_show_all)
  then have "presents ?d = (\<lambda>old new. \<forall>k. obj_get new k = (if visible sv k then obj_get old k else None))"
    by (simp add: presents_def fun_eq_iff)
  then show ?thesis using o by (intro exI [of _ olds]) simp
qed


definition ex_reads :: "unit db_env" where
  "ex_reads = \<lparr>de_cmp = (\<lambda>_ _ _. 0), de_newest = (), de_page = (\<lambda>_ _ xs. take 10 xs)\<rparr>"

definition ex_all :: "unit list_args" where
  "ex_all = \<lparr>la_where = (\<lambda>_. True), la_orderBy = None, la_page = None, la_perPage = None\<rparr>"

theorem lists_show_visible_columns_witness:
  "\<exists>out. findMany_of EventReads ex_reads None ex_all [[(''id'', JStr ''e1''), (''context'', JStr ''token'')]] = Inr out \<and>
     (\<forall>row\<in>set (rows_list out). obj_get row ''context'' = None)"
proof -
  let ?tab = "[[(''id'', JStr ''e1''), (''context'', JStr ''token'')]]"
  have "\<exists>out. findMany_of EventReads ex_reads None ex_all ?tab = Inr out"
    by (simp add: events_findMany_def find_page_def selectHelper_def Let_def)
  then obtain out where out: "findMany_of EventReads ex_reads None ex_all ?tab = Inr out" by blast
  have "set (de_page ex_reads p n xs) \<subseteq> set xs" for p n xs by (auto simp: ex_reads_def dest: in_set_takeD)
  from lists_show_visible_columns [OF out this] obtain olds where
    "list_all2 (\<lambda>old new. \<forall>k. obj_get new k = (if visible EventReads k then obj_get old k else None)) olds (rows_list out)" by blast
  then have "\<forall>row\<in>set (rows_list out). obj_get row ''context'' = None" by (auto simp: list_all2_conv_all_nth in_set_conv_nth)
  with out show ?thesis by blast
qed

end
