(* ===== verification/Routes.thy ===== *)
theory Routes
  imports Rest Hub
begin

text \<open>
  The routes of \<open>callgents.controller.ts\<close>, \<open>callgent-hub.controller.ts\<close>, \<open>bff-endpoints.controller.ts\<close>,
  \<open>users.controller.ts\<close> and the start of an OAuth login: the guard, the tenant that the token of the
  request names, and the operation behind the route. A request that fails leaves the tables as they
  were, since the operation is a transaction.
\<close>

section \<open>The tenant of a request\<close>

text \<open>The listener of \<open>AuthLoginedEvent\<close>, which the JWT strategy emits for every token that verifies, takes the
  tenant from the payload; 0 and an absent tenant are not set. The tokens of the service hold whole
  numbers.\<close>

definition tenant_of :: "payload \<Rightarrow> int option" where
  "tenant_of u = (case obj_get u ''tenantPk'' of Some (JNum q) \<Rightarrow> if q = 0 then None else Some \<lfloor>q\<rfloor> | _ \<Rightarrow> None)"

text \<open>A creator that is \<open>undefined\<close> is refused by the database client.\<close>

definition with_sub :: "payload \<Rightarrow> (string \<Rightarrow> 'a result) \<Rightarrow> 'a result" where
  "with_sub u f = (case sub_of u of None \<Rightarrow> Inl (PlainError ''Argument `createdBy` is missing.'') | Some s \<Rightarrow> f s)"

section \<open>The cache of answers\<close>

text \<open>
  The global interceptor of \<open>repos.module.ts\<close>, the \<open>CacheInterceptor\<close> of NestJS: the answer of a
  \<open>GET\<close> handler is kept under the URL of the request, for the time to live that the module
  configures (2, in milliseconds), and is given to every request of the same URL in that time in
  place of a run of the handler. It runs behind the guards; an error is not kept. The store is a
  parameter of the library: here the map it is documented to be.
\<close>

type_synonym 'a get_cache = "string \<Rightarrow> ('a \<times> int) option"

definition cache_ttl :: int where
  "cache_ttl = 2"

definition intercept :: "int \<Rightarrow> string \<Rightarrow> ('s \<Rightarrow> ('s \<times> 'a) result) \<Rightarrow> 's \<times> 'a get_cache \<Rightarrow> (('s \<times> 'a get_cache) \<times> 'a) result" where
  "intercept now url handler sc =
     (case snd sc url of
        Some (a, t) \<Rightarrow>
          if now \<le> t + cache_ttl then Inr (sc, a)
          else and_then (handler (fst sc)) (\<lambda>(s, a). Inr ((s, (snd sc)(url \<mapsto> (a, now))), a))
      | None \<Rightarrow> and_then (handler (fst sc)) (\<lambda>(s, a). Inr ((s, (snd sc)(url \<mapsto> (a, now))), a)))"

text \<open>A route that is no \<open>GET\<close> passes the interceptor.\<close>

definition not_cached :: "('s \<Rightarrow> ('s \<times> 'a) result) \<Rightarrow> 's \<times> 'c \<Rightarrow> (('s \<times> 'c) \<times> 'a) result" where
  "not_cached handler sc = and_then (handler (fst sc)) (\<lambda>(s, a). Inr ((s, snd sc), a))"

section \<open>Callgents\<close>

type_synonym cached_callgents = "callgent_state \<times> callgent_row option get_cache"

definition api_createCallgent :: "config \<Rightarrow> (string \<Rightarrow> payload option) \<Rightarrow> registry \<Rightarrow> (string \<Rightarrow> adaptor) \<Rightarrow> http_request \<Rightarrow>
    string \<times> string \<times> string \<Rightarrow> create_dto \<Rightarrow> cached_callgents \<Rightarrow> (cached_callgents \<times> callgent_row option) result" where
  "api_createCallgent cfg verify rg service req ids dto sc =
     guarded cfg verify req (\<lambda>u. not_cached (\<lambda>s. with_sub u (\<lambda>by.
       and_then (createCallgent rg service ids (tenant_of u) dto None by (fst s) (snd s)) (\<lambda>(db, edb, r). Inr ((db, edb), Some r)))) sc)"

text \<open>The URL has the id and a query, which the handler does not look at.\<close>

definition callgent_url :: "string \<Rightarrow> string \<Rightarrow> string" where
  "callgent_url i query = ''/callgents/'' @ i @ query"

definition api_getCallgent :: "config \<Rightarrow> (string \<Rightarrow> payload option) \<Rightarrow> bool \<Rightarrow> int \<Rightarrow> http_request \<Rightarrow> string \<Rightarrow> string \<Rightarrow> cached_callgents \<Rightarrow>
    (cached_callgents \<times> callgent_row option) result" where
  "api_getCallgent cfg verify deletedToo now req i query sc =
     guarded cfg verify req (\<lambda>u. intercept now (callgent_url i query) (\<lambda>s.
       and_then (findOne deletedToo (tenant_of u) i (fst s)) (\<lambda>(db, r). Inr ((db, snd s), r))) sc)"

text \<open>The id of the path replaces one in the body.\<close>

definition api_updateCallgent :: "config \<Rightarrow> (string \<Rightarrow> payload option) \<Rightarrow> bool \<Rightarrow> http_request \<Rightarrow> string \<Rightarrow> update_dto \<Rightarrow> cached_callgents \<Rightarrow>
    (cached_callgents \<times> callgent_row option) result" where
  "api_updateCallgent cfg verify deletedToo req i dto sc =
     guarded cfg verify req (\<lambda>u. not_cached (\<lambda>s.
       and_then (updateCallgent deletedToo (tenant_of u) (dto\<lparr>cu_id := i\<rparr>) (fst s)) (\<lambda>(db, r). Inr ((db, snd s), r))) sc)"

definition api_removeCallgent :: "config \<Rightarrow> (string \<Rightarrow> payload option) \<Rightarrow> bool \<Rightarrow> int \<Rightarrow> http_request \<Rightarrow> string \<Rightarrow> cached_callgents \<Rightarrow>
    (cached_callgents \<times> callgent_row option) result" where
  "api_removeCallgent cfg verify deletedToo now req i sc =
     guarded cfg verify req (\<lambda>u. not_cached (\<lambda>s.
       and_then (deleteCallgent deletedToo now (tenant_of u) i (fst s) (snd s)) (\<lambda>(db, edb, r). Inr ((db, edb), Some r))) sc)"

datatype callgent_route =
    PostCallgent "string \<times> string \<times> string" create_dto
  | GetCallgent string string
  | PutCallgent string update_dto
  | DeleteCallgent string

text \<open>One request to the controller, at a time: the tables and the cache after it, and its answer.\<close>

type_synonym callgent_call = "int \<times> http_request \<times> callgent_route"

definition respond :: "'s \<Rightarrow> ('s \<times> 'a) result \<Rightarrow> 's \<times> 'a result" where
  "respond s r = (case r of Inl err \<Rightarrow> (s, Inl err) | Inr (s', a) \<Rightarrow> (s', Inr a))"

fun callgent_request :: "config \<Rightarrow> (string \<Rightarrow> payload option) \<Rightarrow> registry \<Rightarrow> (string \<Rightarrow> adaptor) \<Rightarrow> bool \<Rightarrow> callgent_call \<Rightarrow>
    cached_callgents \<Rightarrow> cached_callgents \<times> callgent_row option result" where
  "callgent_request cfg verify rg service del (now, req, PostCallgent ids dto) s = respond s (api_createCallgent cfg verify rg service req ids dto s)"
| "callgent_request cfg verify rg service del (now, req, GetCallgent i query) s = respond s (api_getCallgent cfg verify del now req i query s)"
| "callgent_request cfg verify rg service del (now, req, PutCallgent i dto) s = respond s (api_updateCallgent cfg verify del req i dto s)"
| "callgent_request cfg verify rg service del (now, req, DeleteCallgent i) s = respond s (api_removeCallgent cfg verify del now req i s)"

fun callgent_requests :: "config \<Rightarrow> (string \<Rightarrow> payload option) \<Rightarrow> registry \<Rightarrow> (string \<Rightarrow> adaptor) \<Rightarrow> bool \<Rightarrow> callgent_call list \<Rightarrow>
    cached_callgents \<Rightarrow> cached_callgents \<times> callgent_row option result list" where
  "callgent_requests cfg verify rg service del [] s = (s, [])"
| "callgent_requests cfg verify rg service del (rq # rqs) s =
     (let (s1, a) = callgent_request cfg verify rg service del rq s; (s2, as) = callgent_requests cfg verify rg service del rqs s1
      in (s2, a # as))"

text \<open>The list: the rows of a page get an empty list of children for the tree in the browser.\<close>

definition api_listCallgents :: "config \<Rightarrow> (string \<Rightarrow> payload option) \<Rightarrow> (string \<Rightarrow> int option) \<Rightarrow>
    ((string \<times> direction) list \<Rightarrow> callgent_row \<Rightarrow> callgent_row \<Rightarrow> int) \<Rightarrow> (int option \<Rightarrow> int option \<Rightarrow> callgent_row list \<Rightarrow> callgent_row list) \<Rightarrow> http_request \<Rightarrow>
    string option \<Rightarrow> string option \<Rightarrow> string option \<Rightarrow> string option \<Rightarrow> string option \<Rightarrow> callgent_db \<Rightarrow> (callgent_row \<times> json list) list result" where
  "api_listCallgents cfg verify number ord paginate req query tag pageNo psize orders db =
     guarded cfg verify req (\<lambda>u.
       Inr (map (\<lambda>r. (r, [])) (findMany ord paginate (tenant_of u) (listQuery number query tag pageNo psize orders) db)))"

section \<open>The hub\<close>

text \<open>The list of the hub needs no token.\<close>

definition api_hubCallgents :: "((string \<times> direction) list \<Rightarrow> callgent_row \<Rightarrow> callgent_row \<Rightarrow> int) \<Rightarrow>
    (int option \<Rightarrow> int option \<Rightarrow> callgent_row list \<Rightarrow> callgent_row list) \<Rightarrow> string option \<Rightarrow> int option \<Rightarrow> int option \<Rightarrow> callgent_db \<Rightarrow> int option \<Rightarrow>
    (callgent_row \<times> json list) list result" where
  "api_hubCallgents ord paginate query pageNo psize db tenant =
     and_then (snd (findAllInHub ord paginate (hubQuery query pageNo psize) db tenant)) (\<lambda>rs. Inr (map (\<lambda>r. (r, [])) rs))"

definition api_forkFromHub :: "config \<Rightarrow> (string \<Rightarrow> payload option) \<Rightarrow> hub_env \<Rightarrow> http_request \<Rightarrow> string \<Rightarrow> create_dto \<Rightarrow> hub_db \<Rightarrow> hub_db \<times> callgent_row result" where
  "api_forkFromHub cfg verify env req i dto db =
     respond db (guarded cfg verify req (\<lambda>u. with_sub u (\<lambda>by.
       case forkFromHub env i dto by (tenant_of u, db) of ((t, db'), r) \<Rightarrow> and_then r (\<lambda>c. Inr (db', c)))))"

text \<open>\<open>CreateCallgentDtoEx\<close>: the main tag must be given and exist.\<close>

definition api_commitToHub :: "config \<Rightarrow> (string \<Rightarrow> payload option) \<Rightarrow> hub_env \<Rightarrow> (int \<Rightarrow> bool) \<Rightarrow> http_request \<Rightarrow> string \<Rightarrow> create_dto \<Rightarrow> hub_db \<Rightarrow>
    hub_db \<times> callgent_row result" where
  "api_commitToHub cfg verify env tag_exists req i dto db =
     respond db (guarded cfg verify req (\<lambda>u.
       case given (cn_mainTagId dto) None of
         None \<Rightarrow> Inl (BadRequest ''mainTagId should not be empty'')
       | Some t \<Rightarrow> if t \<noteq> 0 \<and> \<not> tag_exists t then Inl (BadRequest ''mainTagId entity not found'')
                   else with_sub u (\<lambda>by. case commitToHub env i dto by (tenant_of u, db) of ((t, db'), r) \<Rightarrow> and_then r (\<lambda>c. Inr (db', c)))))"

section \<open>Import in the browser\<close>

text \<open>The import answers with all endpoints of the entry.\<close>

definition bff_importBatch :: "config \<Rightarrow> (string \<Rightarrow> payload option) \<Rightarrow> registry \<Rightarrow> (string \<Rightarrow> adaptor) \<Rightarrow> url_host \<Rightarrow> readers \<Rightarrow> (nat \<Rightarrow> string) \<Rightarrow>
    http_request \<Rightarrow> string option \<Rightarrow> string \<Rightarrow> format option \<Rightarrow> realm_db \<Rightarrow> entry_db \<Rightarrow> (realm_db \<times> entry_db \<times> endpoint_row list) result" where
  "bff_importBatch cfg verify rg service host rd fresh req entryId text fmt rdb db =
     and_then (api_importBatch cfg verify rg service host rd fresh req entryId text fmt rdb db) (\<lambda>(rdb1, db1, n).
       Inr (rdb1, db1, entry_endpoints db1 (the entryId)))"

section \<open>Users\<close>

text \<open>The token that \<open>info\<close> hands back: the second word of the \<open>Authorization\<close> header, else the cookie. There are
  cookies only when the name of the cookie is configured.\<close>

definition info_token :: "config \<Rightarrow> http_request \<Rightarrow> string option \<Rightarrow> string option result" where
  "info_token cfg req authorization =
     (let bearer = Option.bind authorization (\<lambda>h. case split_char (CHR '' '') h of _ # b # _ \<Rightarrow> Some b | _ \<Rightarrow> None)
      in if nonempty_str bearer then Inr bearer
         else if nonempty_str (cfg ''JWT_COOKIE_NAME'') then Inr (obj_get (hr_cookies req) (the (cfg ''JWT_COOKIE_NAME'')))
         else Inl (TypeError ''Cannot read properties of undefined''))"

definition find_user :: "int option \<Rightarrow> string \<Rightarrow> user_db \<Rightarrow> user option" where
  "find_user tenant i db =
     (case rls_find us_tenantPk (session_for tenant) (\<lambda>x. us_id x = i \<and> us_deletedAt x = 0) (ud_users db) of [] \<Rightarrow> None | x # _ \<Rightarrow> Some x)"

definition api_userInfo :: "config \<Rightarrow> (string \<Rightarrow> payload option) \<Rightarrow> http_request \<Rightarrow> string option \<Rightarrow> user_db \<Rightarrow>
    ((string \<times> string option \<times> string option) option \<times> string option) result" where
  "api_userInfo cfg verify req authorization db =
     and_then (jwtGuard True cfg verify req) (\<lambda>user.
       let i = Option.bind user sub_of
       in if \<not> nonempty_str i then Inr (None, None)
          else (case find_user (tenant_of (the user)) (the i) db of
                  None \<Rightarrow> Inr (None, None)
                | Some x \<Rightarrow> and_then (info_token cfg req authorization) (\<lambda>t. Inr (Some (public_user x), t))))"

definition api_sendConfirmEmail :: "config \<Rightarrow> (string \<Rightarrow> payload option) \<Rightarrow> user_env \<Rightarrow> int \<Rightarrow> http_request \<Rightarrow> string \<Rightarrow> bool \<Rightarrow> bool \<Rightarrow> user_db \<Rightarrow>
    (user_db \<times> mail) result" where
  "api_sendConfirmEmail cfg verify env now req email create reset db =
     and_then (jwtGuard True cfg verify req) (\<lambda>user. sendValidationEmail env now email create reset (Option.bind user sub_of) db)"

text \<open>\<open>login\<close>: the guard of the local strategy has checked the password; the token goes into the body and, when a
  cookie is configured, into the cookie.\<close>

definition api_login :: "(session \<Rightarrow> string) \<Rightarrow> (string \<Rightarrow> string option result) \<Rightarrow> user_env \<Rightarrow> string \<Rightarrow> string option \<Rightarrow> user_db \<Rightarrow>
    (user_db \<times> string http_reply) result" where
  "api_login sign cookie env name pwd db =
     and_then (localLogin env name pwd db) (\<lambda>(db1, s).
       and_then (cookie (sign s)) (\<lambda>c. Inr (db1, \<lparr>hr_cookie = (if nonempty_str c then c else None), hr_body = sign s\<rparr>)))"

text \<open>What the claims of a session are for the strategy that reads them back.\<close>

definition session_payload :: "session \<Rightarrow> payload" where
  "session_payload s =
     [(''tenantPk'', JNum (of_int (ss_tenantPk s))), (''id'', JNum (of_int (ss_id s))), (''sub'', JStr (ss_sub s)),
      (''iss'', JStr (ss_iss s)), (''aud'', JStr (ss_aud s))]"

text \<open>\<open>oauthStart\<close>: the page to return to travels in the state.\<close>

definition oauthStart :: "string result \<Rightarrow> (string \<Rightarrow> string \<Rightarrow> string) \<Rightarrow> string \<Rightarrow> string option \<Rightarrow> (nat \<times> reply) result" where
  "oauthStart create authorizeUrl provider successUri =
     and_then create (\<lambda>state. Inr (302, Redirect (authorizeUrl provider (oauthState state successUri))))"

section \<open>Facts\<close>

lemma guarded_Inr:
  "guarded cfg verify req action = Inr r \<longleftrightarrow> (\<exists>u. jwt_user cfg verify req = Some u \<and> action u = Inr r)"
  by (auto simp: guarded_def jwtGuard_def outcome_simps split: option.splits)

lemma guarded_refused: "jwt_user cfg verify req = None \<Longrightarrow> guarded cfg verify req action = Inl (Unauthorized ''Unauthorized'')"
  by (simp add: guarded_def jwtGuard_def)

lemma respond_cases:
  assumes "respond s r = (s', a)"
  obtains (err) e where "r = Inl e" "s' = s" "a = Inl e" | (ok) x where "r = Inr (s', x)" "a = Inr x"
  using assms by (cases r) (auto simp: respond_def)

lemma with_sub_Inr: "with_sub u f = Inr r \<longleftrightarrow> (\<exists>s. sub_of u = Some s \<and> f s = Inr r)"
  by (auto simp: with_sub_def split: option.splits)

lemmas route_defs = api_createCallgent_def api_getCallgent_def api_updateCallgent_def api_removeCallgent_def

lemma not_cached_Inr: "not_cached h sc = Inr (sc', a) \<longleftrightarrow> h (fst sc) = Inr (fst sc', a) \<and> snd sc' = snd sc"
  by (cases sc') (auto simp: not_cached_def outcome_simps)

lemma intercept_Inr:
  assumes "intercept now url h sc = Inr (sc', a)"
  obtains (hit) t where "snd sc url = Some (a, t)" "now \<le> t + cache_ttl" "sc' = sc"
  | (miss) s where "h (fst sc) = Inr (s, a)" "sc' = (s, (snd sc)(url \<mapsto> (a, now)))"
proof -
  let ?run = "and_then (h (fst sc)) (\<lambda>(s, a). Inr ((s, (snd sc)(url \<mapsto> (a, now))), a))"
  have run: thesis if r: "?run = Inr (sc', a)"
  proof -
    obtain s b where "h (fst sc) = Inr (s, b)" "((s, (snd sc)(url \<mapsto> (b, now))), b) = (sc', a)"
      using r by (auto simp: and_then_eq_Inr)
    then show thesis by (intro miss [of s]) auto
  qed
  show thesis
  proof (cases "snd sc url")
    case None
    then show thesis using assms by (intro run) (simp add: intercept_def)
  next
    case (Some x)
    obtain b t where x: "x = (b, t)" by (cases x)
    show thesis
    proof (cases "now \<le> t + cache_ttl")
      case True
      then show thesis using assms Some x by (intro hit [of t]) (simp_all add: intercept_def)
    next
      case False
      then show thesis using assms Some x by (intro run) (simp add: intercept_def)
    qed
  qed
qed

text \<open>A request that is answered has run its operation as the user of its token, or it was a \<open>GET\<close> whose
  answer was in the cache.\<close>

definition route_url :: "callgent_route \<Rightarrow> string option" where
  "route_url rt = (case rt of GetCallgent i query \<Rightarrow> Some (callgent_url i query) | _ \<Rightarrow> None)"

lemma callgent_request_keeps:
  assumes "callgent_request cfg verify rg service del (now, req, rt) sc = (sc', a)"
  shows "(\<exists>e. a = Inl e \<and> sc' = sc \<and> (jwt_user cfg verify req = None \<longrightarrow> e = Unauthorized ''Unauthorized'')) \<or>
     (\<exists>u url r t. jwt_user cfg verify req = Some u \<and> route_url rt = Some url \<and> a = Inr r \<and> sc' = sc \<and>
        snd sc url = Some (r, t) \<and> now \<le> t + cache_ttl) \<or>
     (\<exists>u r. jwt_user cfg verify req = Some u \<and> a = Inr r \<and> step_keeps (tenant_of u) (fst (fst sc)) (fst (fst sc')) r \<and>
        snd sc' = (case route_url rt of None \<Rightarrow> snd sc | Some url \<Rightarrow> (snd sc)(url \<mapsto> (r, now))))"
proof -
  obtain res where res: "respond sc res = (sc', a)" and no: "jwt_user cfg verify req = None \<Longrightarrow> res = Inl (Unauthorized ''Unauthorized'')"
    and ok: "\<And>x r. res = Inr (x, r) \<Longrightarrow> \<exists>u. jwt_user cfg verify req = Some u \<and>
      ((\<exists>url t. route_url rt = Some url \<and> x = sc \<and> snd sc url = Some (r, t) \<and> now \<le> t + cache_ttl) \<or>
       step_keeps (tenant_of u) (fst (fst sc)) (fst (fst x)) r \<and>
       snd x = (case route_url rt of None \<Rightarrow> snd sc | Some url \<Rightarrow> (snd sc)(url \<mapsto> (r, now))))"
  proof (cases rt)
    case (PostCallgent ids dto)
    then show ?thesis using assms
      by (intro that [of "api_createCallgent cfg verify rg service req ids dto sc"])
        (auto simp: route_defs route_url_def guarded_refused guarded_Inr not_cached_Inr with_sub_Inr outcome_simps dest: createCallgent_keeps)
  next
    case (GetCallgent i query)
    then show ?thesis using assms
      by (intro that [of "api_getCallgent cfg verify del now req i query sc"])
        (auto simp: route_defs route_url_def guarded_refused guarded_Inr outcome_simps elim!: intercept_Inr dest: findOne_keeps)
  next
    case (PutCallgent i dto)
    then show ?thesis using assms
      by (intro that [of "api_updateCallgent cfg verify del req i dto sc"])
        (auto simp: route_defs route_url_def guarded_refused guarded_Inr not_cached_Inr outcome_simps dest: updateCallgent_keeps)
  next
    case (DeleteCallgent i)
    then show ?thesis using assms
      by (intro that [of "api_removeCallgent cfg verify del now req i sc"])
        (auto simp: route_defs route_url_def guarded_refused guarded_Inr not_cached_Inr outcome_simps dest: deleteCallgent_keeps)
  qed
  from res show ?thesis
    by (cases rule: respond_cases) (use no ok in \<open>auto dest: ok\<close>)
qed

text \<open>Where a row in an answer may come from: the tenant of the request and the public rows, or the answer
  to an earlier request of the same URL, within the time to live.\<close>

definition own_row :: "config \<Rightarrow> (string \<Rightarrow> payload option) \<Rightarrow> http_request \<Rightarrow> callgent_row \<Rightarrow> bool" where
  "own_row cfg verify req row \<longleftrightarrow>
     (\<exists>u. jwt_user cfg verify req = Some u \<and> (cg_tenantPk row = 0 \<or> cg_tenantPk row = tenant_or_0 (tenant_of u)))"

definition replayed :: "config \<Rightarrow> (string \<Rightarrow> payload option) \<Rightarrow> (callgent_call \<times> callgent_row option result) list \<Rightarrow> callgent_call \<Rightarrow>
    callgent_row \<Rightarrow> bool" where
  "replayed cfg verify past rq row \<longleftrightarrow>
     (\<exists>((now0, req0, rt0), a0) \<in> set past. route_url (snd (snd rq)) \<noteq> None \<and> route_url rt0 = route_url (snd (snd rq)) \<and>
        fst rq \<le> now0 + cache_ttl \<and> a0 = Inr (Some row) \<and> own_row cfg verify req0 row)"

definition cache_explained :: "config \<Rightarrow> (string \<Rightarrow> payload option) \<Rightarrow> (callgent_call \<times> callgent_row option result) list \<Rightarrow>
    callgent_row option get_cache \<Rightarrow> bool" where
  "cache_explained cfg verify past c \<longleftrightarrow>
     (\<forall>url row t. c url = Some (Some row, t) \<longrightarrow>
        (\<exists>((now0, req0, rt0), a0) \<in> set past. route_url rt0 = Some url \<and> now0 = t \<and> a0 = Inr (Some row) \<and> own_row cfg verify req0 row))"

definition answer_ok :: "config \<Rightarrow> (string \<Rightarrow> payload option) \<Rightarrow> (callgent_call \<times> callgent_row option result) list \<Rightarrow> callgent_call \<Rightarrow>
    callgent_row option result \<Rightarrow> bool" where
  "answer_ok cfg verify past rq a \<longleftrightarrow>
     (if jwt_user cfg verify (fst (snd rq)) = None then a = Inl (Unauthorized ''Unauthorized'')
      else \<forall>row. a = Inr (Some row) \<longrightarrow> own_row cfg verify (fst (snd rq)) row \<or> replayed cfg verify past rq row)"

lemma cache_explained_more: "cache_explained cfg verify past c \<Longrightarrow> cache_explained cfg verify (past @ more1) c"
  unfolding cache_explained_def by (metis (no_types, lifting) Un_iff set_append)

lemma callgent_request_answer:
  assumes one: "callgent_request cfg verify rg service del rq sc = (sc1, a)" and "cache_explained cfg verify past (snd sc)"
  shows "answer_ok cfg verify past rq a \<and> cache_explained cfg verify (past @ [(rq, a)]) (snd sc1) \<and>
    (callgent_db_ok (fst (fst sc)) \<longrightarrow> callgent_db_ok (fst (fst sc1))) \<and>
    (p \<noteq> 0 \<longrightarrow> (\<forall>u. jwt_user cfg verify (fst (snd rq)) = Some u \<longrightarrow> tenant_of u \<noteq> Some p) \<longrightarrow>
       rows_of p (fst (fst sc1)) = rows_of p (fst (fst sc)))"
proof -
  obtain now req rt where rq: "rq = (now, req, rt)" by (cases rq)
  note more1 = cache_explained_more [OF assms(2), of "[(rq, a)]"]
  from callgent_request_keeps [OF one [unfolded rq]] show ?thesis
  proof (elim disjE exE conjE)
    fix e assume "a = Inl e" "sc1 = sc" "jwt_user cfg verify req = None \<longrightarrow> e = Unauthorized ''Unauthorized''"
    then show ?thesis using more1 by (simp add: rq answer_ok_def)
  next
    fix u url r t assume h: "jwt_user cfg verify req = Some u" "route_url rt = Some url" "a = Inr r" "sc1 = sc"
      "snd sc url = Some (r, t)" "now \<le> t + cache_ttl"
    have "replayed cfg verify past rq row" if "r = Some row" for row
    proof -
      have "snd sc url = Some (Some row, t)" using h(5) that by simp
      then obtain now0 req0 rt0 a0 where p: "((now0, req0, rt0), a0) \<in> set past" "route_url rt0 = Some url" "now0 = t"
          "a0 = Inr (Some row)" "own_row cfg verify req0 row"
        using assms(2) unfolding cache_explained_def by blast
      show ?thesis unfolding replayed_def by (rule bexI [OF _ p(1)]) (use p h(2,6) in \<open>simp add: rq\<close>)
    qed
    then show ?thesis using more1 h(1,3,4) by (simp add: rq answer_ok_def)
  next
    fix u r assume u: "jwt_user cfg verify req = Some u" "a = Inr r" and k: "step_keeps (tenant_of u) (fst (fst sc)) (fst (fst sc1)) r"
      and c: "snd sc1 = (case route_url rt of None \<Rightarrow> snd sc | Some url \<Rightarrow> (snd sc)(url \<mapsto> (r, now)))"
    have own: "own_row cfg verify req row" if "r = Some row" for row using k u(1) that by (auto simp: step_keeps_def own_row_def)
    have "cache_explained cfg verify (past @ [(rq, a)]) (snd sc1)"
      using more1 own c u(2) unfolding cache_explained_def by (auto simp: rq split: option.splits)
    moreover have "rows_of p (fst (fst sc1)) = rows_of p (fst (fst sc))" if "p \<noteq> 0" "tenant_of u \<noteq> Some p"
    proof -
      have "p \<noteq> tenant_or_0 (tenant_of u)" using that by (cases "tenant_of u") (auto simp: tenant_or_0_def)
      then show ?thesis using k that(1) by (intro rows_of_hidden) (auto simp: step_keeps_def)
    qed
    ultimately show ?thesis using own k u by (auto simp: rq answer_ok_def step_keeps_def)
  qed
qed

section \<open>Properties\<close>

text \<open>C6. Tenants are isolated at the edge, up to the cache of answers: whatever requests reach the routes of
  the callgents, with whatever ids and bodies, the rows of a tenant \<open>p\<close> stay as they are as long as no
  token among them names \<open>p\<close>, and the unique indexes hold. A request without a valid token is
  answered 401. A row in an answer belongs to the tenant of the token or is public, or the request
  is a \<open>GET\<close> and the row was the answer to an earlier request of the same URL, at most the time to
  live before, to a user of its tenant: this is the one way in which a row crosses tenants.\<close>

theorem callgent_requests_isolated:
  assumes "callgent_requests cfg verify rg service del rqs (s, c) = ((s', c'), as)" and "p \<noteq> 0"
    and "\<forall>(now, req, rt)\<in>set rqs. \<forall>u. jwt_user cfg verify req = Some u \<longrightarrow> tenant_of u \<noteq> Some p"
    and "cache_explained cfg verify past c"
  shows "rows_of p (fst s') = rows_of p (fst s) \<and> (callgent_db_ok (fst s) \<longrightarrow> callgent_db_ok (fst s')) \<and>
    length as = length rqs \<and> (\<forall>i < length rqs. answer_ok cfg verify (past @ take i (zip rqs as)) (rqs ! i) (as ! i))"
  using assms
proof (induction rqs arbitrary: s c as past)
  case Nil
  then show ?case by simp
next
  case (Cons rq rqs)
  obtain s1 c1 a where one: "callgent_request cfg verify rg service del rq (s, c) = ((s1, c1), a)"
    by (metis prod.collapse)
  obtain as' where rest: "callgent_requests cfg verify rg service del rqs (s1, c1) = ((s', c'), as')" and as: "as = a # as'"
    using Cons.prems(1) one by (auto split: prod.splits)
  have no_p: "\<forall>u. jwt_user cfg verify (fst (snd rq)) = Some u \<longrightarrow> tenant_of u \<noteq> Some p"
    using Cons.prems(3) by (auto split: prod.splits)
  have first: "answer_ok cfg verify past rq a" "cache_explained cfg verify (past @ [(rq, a)]) c1"
      "callgent_db_ok (fst s) \<longrightarrow> callgent_db_ok (fst s1)" "rows_of p (fst s1) = rows_of p (fst s)"
    using callgent_request_answer [OF one, of past p] Cons.prems(2,4) no_p by auto
  have "rows_of p (fst s') = rows_of p (fst s1) \<and> (callgent_db_ok (fst s1) \<longrightarrow> callgent_db_ok (fst s')) \<and> length as' = length rqs \<and>
      (\<forall>i < length rqs. answer_ok cfg verify ((past @ [(rq, a)]) @ take i (zip rqs as')) (rqs ! i) (as' ! i))"
    by (rule Cons.IH [OF rest Cons.prems(2) _ first(2)]) (use Cons.prems(3) in simp)
  then show ?case using first by (auto simp: as nth_Cons split: nat.splits)
qed

definition token_6 :: "string \<Rightarrow> payload option" where
  "token_6 t = (if t = ''six'' then Some [(''sub'', JStr ''u6''), (''tenantPk'', JNum 6)] else None)"

lemma token_6_tenant: "token_6 t = Some u \<Longrightarrow> tenant_of u = Some 6"
  by (auto simp: token_6_def tenant_of_def split: if_splits)

theorem callgent_requests_isolated_witness:
  "\<exists>s' c' as. callgent_requests (\<lambda>_. None) token_6 ex_registry (builtin_service ''m'') True
      [(0, \<lparr>hr_token = Some ''six'', hr_cookies = []\<rparr>, PutCallgent ''c1'' (ex_rename ''c2'' ''mine'')),
       (1, \<lparr>hr_token = None, hr_cookies = []\<rparr>, DeleteCallgent ''c1'')] ((ex_owned, ex_db), Map.empty) = ((s', c'), as) \<and>
    map cg_name (rows_of 5 (fst s')) = [''pets''] \<and> last as = Inl (Unauthorized ''Unauthorized'')"
proof -
  let ?rqs = "[(0, \<lparr>hr_token = Some ''six'', hr_cookies = []\<rparr>, PutCallgent ''c1'' (ex_rename ''c2'' ''mine'')),
       (1, \<lparr>hr_token = None, hr_cookies = []\<rparr>, DeleteCallgent ''c1'')]"
  obtain s' c' as where run: "callgent_requests (\<lambda>_. None) token_6 ex_registry (builtin_service ''m'') True ?rqs
      ((ex_owned, ex_db), Map.empty) = ((s', c'), as)"
    by (metis prod.collapse)
  have t: "\<forall>(now, req, rt)\<in>set ?rqs. \<forall>u. jwt_user (\<lambda>_. None) token_6 req = Some u \<longrightarrow> tenant_of u \<noteq> Some 5"
    using token_6_tenant by (auto simp: jwt_user_def bind_eq_Some_conv)
  have empty: "cache_explained (\<lambda>_. None) token_6 [] Map.empty" by (simp add: cache_explained_def)
  from callgent_requests_isolated [OF run _ t empty]
  have "rows_of 5 (fst s') = rows_of 5 ex_owned" and len: "length as = 2"
    and ans: "\<forall>i < 2. answer_ok (\<lambda>_. None) token_6 (take i (zip ?rqs as)) (?rqs ! i) (as ! i)"
    by simp_all
  then have "map cg_name (rows_of 5 (fst s')) = [''pets'']" by (simp add: rows_of_def ex_owned_def)
  moreover have "last as = as ! 1" using len by (cases as) (auto simp: last_conv_nth)
  moreover have "as ! 1 = Inl (Unauthorized ''Unauthorized'')"
    using ans [rule_format, of 1] by (simp add: answer_ok_def jwt_user_def jwtFromRequest_def nonempty_str_def)
  ultimately show ?thesis using run by (intro exI conjI) simp_all
qed

text \<open>And it does cross: a row of tenant 5 that its owner has just looked at is answered to tenant 6, who
  asks for the same URL within the time to live; later the same request finds nothing.\<close>

definition token_5_6 :: "string \<Rightarrow> payload option" where
  "token_5_6 t = (if t = ''five'' then Some [(''sub'', JStr ''u5''), (''tenantPk'', JNum 5)] else token_6 t)"

theorem cached_answer_crosses_tenants:
  "\<exists>row. cg_tenantPk row = 5 \<and>
    snd (callgent_requests (\<lambda>_. None) token_5_6 ex_registry (builtin_service ''m'') True
      [(0, \<lparr>hr_token = Some ''five'', hr_cookies = []\<rparr>, GetCallgent ''c1'' []),
       (1, \<lparr>hr_token = Some ''six'', hr_cookies = []\<rparr>, GetCallgent ''c1'' []),
       (5, \<lparr>hr_token = Some ''six'', hr_cookies = []\<rparr>, GetCallgent ''c1'' [])] ((ex_owned, ex_db), Map.empty)) =
    [Inr (Some row), Inr (Some row), Inr None]"
proof -
  let ?row = "ex_pets\<lparr>cg_viewed := 1\<rparr>"
  let ?db = "ex_owned\<lparr>cd_callgents := [?row]\<rparr>"
  have f5: "findOne True (Some 5) ''c1'' ex_owned = Inr (?db, Some ?row)"
    by (simp add: findOne_def updateRow_def rls_find_def rls_update_def one_row_def ex_owned_def tenant_or_0_def name_key_def)
  have f6: "findOne True (Some 6) ''c1'' ?db = Inr (?db, None)"
    by (simp add: findOne_def updateRow_def rls_find_def one_row_def ex_owned_def tenant_or_0_def)
  have five: "jwt_user (\<lambda>_. None) token_5_6 \<lparr>hr_token = Some ''five'', hr_cookies = []\<rparr> = Some [(''sub'', JStr ''u5''), (''tenantPk'', JNum 5)]"
    and six: "jwt_user (\<lambda>_. None) token_5_6 \<lparr>hr_token = Some ''six'', hr_cookies = []\<rparr> = Some [(''sub'', JStr ''u6''), (''tenantPk'', JNum 6)]"
    by (simp_all add: jwt_user_def jwtFromRequest_def nonempty_str_def token_5_6_def token_6_def)
  have ten: "tenant_of [(''sub'', JStr s), (''tenantPk'', JNum 5)] = Some 5" "tenant_of [(''sub'', JStr s), (''tenantPk'', JNum 6)] = Some 6" for s
    by (simp_all add: tenant_of_def obj_get_def)
  show ?thesis
    by (intro exI [of _ ?row] conjI)
      (simp, simp add: respond_def api_getCallgent_def guarded_def jwtGuard_def five six ten intercept_def cache_ttl_def f5 f6)
qed

text \<open>A user who is known by the header \<open>x-callgent-authorization\<close> is not given that token back: \<open>info\<close> reads the
  header \<open>Authorization\<close> and the cookie, which the guard reads in another order or not at all, and
  without a configured cookie it fails.\<close>

theorem info_token_of_another_header:
  assumes "jwt_user cfg verify req = Some u" and "sub_of u = Some i" "i \<noteq> []" and "find_user (tenant_of u) i db = Some x"
  shows "api_userInfo cfg verify req None db =
     (if nonempty_str (cfg ''JWT_COOKIE_NAME'') then Inr (Some (public_user x), obj_get (hr_cookies req) (the (cfg ''JWT_COOKIE_NAME'')))
      else Inl (TypeError ''Cannot read properties of undefined''))"
  using assms by (simp add: api_userInfo_def jwtGuard_def info_token_def nonempty_str_def)

theorem info_token_of_another_header_witness:
  "api_userInfo (\<lambda>_. None) token_6 \<lparr>hr_token = Some ''six'', hr_cookies = []\<rparr> None
     (no_users\<lparr>ud_users := [\<lparr>us_pk = 1, us_id = ''u6'', us_name = ''U'', us_email = None, us_avatar = None, us_tenantPk = 6, us_deletedAt = 0\<rparr>]\<rparr>) =
     Inl (TypeError ''Cannot read properties of undefined'')"
proof -
  let ?u = "\<lparr>us_pk = 1, us_id = ''u6'', us_name = ''U'', us_email = None, us_avatar = None, us_tenantPk = 6, us_deletedAt = 0\<rparr>"
  have j: "jwt_user (\<lambda>_. None) token_6 \<lparr>hr_token = Some ''six'', hr_cookies = []\<rparr> = Some [(''sub'', JStr ''u6''), (''tenantPk'', JNum 6)]"
    by (simp add: jwt_user_def jwtFromRequest_def nonempty_str_def token_6_def)
  have s: "sub_of [(''sub'', JStr ''u6''), (''tenantPk'', JNum 6)] = Some ''u6''" by (simp add: sub_of_def obj_get_def)
  have f: "find_user (tenant_of [(''sub'', JStr ''u6''), (''tenantPk'', JNum 6)]) ''u6'' (no_users\<lparr>ud_users := [?u]\<rparr>) = Some ?u"
    by (simp add: find_user_def rls_find_def tenant_of_def tenant_or_0_def obj_get_def)
  show ?thesis using info_token_of_another_header [OF j s _ f] by (simp add: nonempty_str_def)
qed

text \<open>The import in the browser answers with the endpoints of the entry: every one of them, stored before or
  imported now.\<close>

lemma bff_import_lists:
  assumes "bff_importBatch cfg verify rg service host rd fresh req entryId text fmt rdb db = Inr (rdb', db', ns)"
  shows "\<exists>i. entryId = Some i \<and> mset ns = mset (filter (\<lambda>n. en_entryId n = i) (ed_endpoints db')) \<and> sorted (map nr_pk ns)"
proof -
  from assms obtain n u where a: "api_importBatch cfg verify rg service host rd fresh req entryId text fmt rdb db = Inr (rdb', db', n)"
    and ns: "ns = entry_endpoints db' (the entryId)" by (auto simp: bff_importBatch_def outcome_simps)
  then obtain i where i: "entryId = Some i" 
    by (cases entryId) (auto simp: api_importBatch_def guarded_Inr nonempty_str_def)
  have "sorted_wrt (\<lambda>a b. oldest_endpoint a b \<le> 0) ns"
    unfolding ns entry_endpoints_def by (rule oldest_endpoint_order.sorted_js_sort)
  then have "sorted (map nr_pk ns)" by (simp add: sorted_map oldest_endpoint_def)
  then show ?thesis using i ns oldest_endpoint_order.mset_js_sort by (simp add: entry_endpoints_def)
qed

text \<open>\<open>added\<close>: what signing adds to the claims (issue time, token id, expiry). A login opens a session: the token that it answers is taken by the guard of every later request that
  carries it in the header, or in the cookie without a header, and the request then runs as the user
  who logged in, in the tenant of that user.\<close>

lemma login_opens_session:
  assumes "api_login sign cookie env name pwd db = Inr (db', r)"
    and "\<And>s. verify (sign s) = Some (session_payload s @ added s)" and "\<And>s. sign s \<noteq> []" and "cfg ''JWT_COOKIE_NAME'' = Some c"
    and "hr_token req = Some (hr_body r) \<or> hr_token req = None \<and> obj_get (hr_cookies req) c = Some (hr_body r)"
  shows "\<exists>u v. login env db name pwd = Inr u \<and> guarded cfg verify req action = (action v :: unit result) \<and>
    sub_of v = Some (us_id u) \<and> tenant_or_0 (tenant_of v) = us_tenantPk u"
proof -
  from assms(1) obtain u where u: "login env db name pwd = Inr u" and r: "hr_body r = sign (session_of ''local'' u)"
    by (auto simp: api_login_def localLogin_def handleLogin_def outcome_simps)
  let ?v = "session_payload (session_of ''local'' u) @ added (session_of ''local'' u)"
  have "jwtFromRequest cfg req = Some (hr_body r)"
    using assms(3-5) r by (auto simp: jwtFromRequest_def nonempty_str_def)
  then have "guarded cfg verify req action = action ?v"
    using assms(2) r by (simp add: guarded_def jwtGuard_def jwt_user_def)
  moreover have "sub_of ?v = Some (us_id u)" by (simp add: sub_of_def session_payload_def session_of_def obj_get_def)
  moreover have "tenant_or_0 (tenant_of ?v) = us_tenantPk u"
    by (simp add: tenant_of_def session_payload_def session_of_def obj_get_def tenant_or_0_def)
  ultimately show ?thesis using u by blast
qed

end
