(* ===== verification/Spec2Isabelle.thy ===== *)
theory Spec2Isabelle
  imports Prelude Utils EventModel Invocations EventListeners CachedStore SepChain PipeClient Invoke Realms AuthTokens Users Sessions Billing
    Llm Entries ApiSpec Endpoints RestApi ScriptArgs ScriptAgent Pipeline Tenancy Callgents Hub Agents Emails WebPages RealmApi Seed Files TaskRunner Subprocess Rest Reads Routes
begin

text \<open>
  Verification development for the Callgent API server (\<open>src/\<close>, \<open>prisma/\<close> and \<open>templates/task-runner/\<close> of the
  repository; all paths below are relative to its root).

  \<^bold>\<open>The program.\<close> A callgent is a group of service endpoints of third parties. A client sends a request through
  one of the entries of the callgent (REST, web page, email); it becomes an event that passes the
  listeners stored in the database, in order of their priority: the request is preprocessed, its
  credentials are checked, the endpoints are loaded, the request is mapped to them (by a generated function
  for a named endpoint, by a generated script for a requirement), and the mapping is run. A run of an
  endpoint passes a chain of processors (authorisation, cache, adaptor, postprocessing, cache again). Any
  step may suspend the event until a callback; its row then holds the listener and the function to go
  on with. Around this core are the tables of callgents, entries, endpoints, realms, users and tenants,
  the balance of a tenant, the language model service, and the REST controllers.

  \<^bold>\<open>Theories, the files they model and the groups of their definitions.\<close>

  \<^item> \<open>Prelude\<close>: errors of the service (\<open>js_error\<close>, the exceptions of the framework) and the result type \<open>js_error + 'a\<close>
    in which every throw is a value; JSON, objects as association lists in order of insertion, JavaScript
    strings and the sort of arrays. Locales \<open>keyed_store\<close> (interpreted on objects), \<open>comparator\<close> (on the orders of
    listeners, adaptors and rows), \<open>invariant_run\<close> and \<open>started_run\<close> (on the operations of the cache, the
    realms, the users and the ledger). \<open>Utils\<close>: \<open>src/infras/libs/utils.ts\<close>, \<open>src/infras/repo/select.helper.ts\<close>.
  \<^item> \<open>EventModel\<close>: \<open>event-object.ts\<close>, \<open>client-request.event.ts\<close>, \<open>src/event-stores\<close>: the record \<open>event\<close> has the fields of the
    class, \<open>event_row\<close> those of the table. \<open>EventListeners\<close>: \<open>event-listeners.service.ts\<close>; the state is the stored
    events, the services by name are the registry, and \<open>invokeListeners\<close>, \<open>emit\<close>, \<open>resume\<close> are the methods.
  \<^item> \<open>Invocations\<close>, \<open>CachedStore\<close>, \<open>SepChain\<close>, \<open>Invoke\<close>, \<open>Subprocess\<close>: \<open>src/invoke\<close> and \<open>src/cached\<close>. A processor of the chain is one
    definition \<open>process_...\<close>; \<open>run_chain\<close> is the loop over them, \<open>invoke_status\<close> the state that is stored between calls.
    The locales \<open>server_adaptor\<close>, \<open>sync_adaptor\<close> and \<open>async_adaptor\<close> are what the chain relies on in an adaptor; the REST
    adaptor (in \<open>Pipeline\<close>) and the email adaptor (in \<open>Emails\<close>) are their instances.
  \<^item> \<open>PipeClient\<close>, \<open>TaskRunner\<close>: \<open>templates/task-runner\<close>; client and server of the pipe are one step relation.
  \<^item> \<open>Realms\<close>, \<open>RealmApi\<close>: \<open>src/callgent-realms\<close>, service, processors and controller. \<open>AuthTokens\<close>, \<open>Users\<close>, \<open>Sessions\<close>: \<open>src/auth-tokens\<close>,
    \<open>src/users\<close>, \<open>src/infras/auth\<close>. \<open>Tenancy\<close>: the client extension and the policies of \<open>src/infras/repo/tenancy\<close> and
    \<open>prisma/migrations\<close>.
  \<^item> \<open>Entries\<close>, \<open>ApiSpec\<close>, \<open>Endpoints\<close>, \<open>Callgents\<close>, \<open>Hub\<close>: \<open>src/entries\<close>, \<open>src/endpoints\<close>, \<open>src/callgents\<close>, \<open>src/bff\<close>, \<open>src/callgent-hub\<close>. A table
    is a list of records in the order of insertion with the next primary key; ids are drawn by the caller.
  \<^item> \<open>Billing\<close>, \<open>Seed\<close>: \<open>src/billing\<close>, \<open>src/transactions\<close>, \<open>prisma/seed.ts\<close>; the locale \<open>seeded_table\<close> is instantiated on the four
    tables of the seed. \<open>Files\<close>: \<open>src/files\<close> on a map from paths to files and directories.
  \<^item> \<open>Llm\<close>, \<open>ScriptArgs\<close>, \<open>ScriptAgent\<close>, \<open>Agents\<close>, \<open>WebPages\<close>: \<open>src/agents\<close>, the listeners that keep the summaries, and the page
    generator of \<open>src/entries/adaptors/builtin/web\<close>. \<open>RestApi\<close>, \<open>Emails\<close>: the other builtin adaptors with their controllers.
  \<^item> \<open>Pipeline\<close>: the listeners of the seed bound to the models of the services they name, so that a call is
    followed from the controller to its answer.
  \<^item> \<open>Rest\<close>, \<open>Routes\<close>, \<open>Reads\<close>: the guard, the validator of ids, the remaining controllers and the lists with their hidden
    columns.

  \<^bold>\<open>What the lemmas show.\<close> Functional behaviour of the pipeline on every branch (\<open>Pipeline\<close>, \<open>SepChain\<close>, \<open>EventListeners\<close>: a
  run is all of its listeners, a suspended run resumes in place, a failure ends it with its status);
  invariants of the tables under any sequence of operations (\<open>CachedStore\<close>, \<open>RealmApi\<close>, \<open>Users\<close>, \<open>Billing\<close>, \<open>Endpoints\<close>); secrets
  and tenants (\<open>Realms\<close>, \<open>RealmApi\<close>, \<open>Hub\<close>, \<open>Callgents\<close>, \<open>Routes\<close>, \<open>Reads\<close>, \<open>AuthTokens\<close>, \<open>Rest\<close>); round trips of keys, mails, states and API
  descriptions; equivalence of the schema search with a reference; termination of the retry loop; and
  bounds (summaries, prices). Where the code does not do what its comments say, the theorem states what it
  does, and the manifest lists it as a finding.

  \<^bold>\<open>Bounds and fuel.\<close> \<open>runAndFix\<close> recurses once per retry; its counter allows four, so fuel 4 never runs out
  (\<open>Invoke.runAndFix_terminates\<close>). \<open>resume\<close> recurses once, on the empty key. A language model query makes at most the
  turns its loop allows (three by default), each an answer of a finite list. The summary listeners work in
  rounds of their own; at most twelve requests follow from a change. The importer of the task runner works in
  batches of five. Amounts are rationals where the program computes with doubles; the prices of the seed
  are exact for token counts below \<open>2 ^ 26\<close>, since all their intermediate results are whole numbers below
  \<open>2 ^ 53\<close>. \<open>intToBase64\<close> is modelled with its 32-bit truncation.

  \<^bold>\<open>Parameters.\<close> Code that is not in the repository is an argument: readers and printers of JSON and YAML, the evaluator
  of generated functions, URL parser, HTTP client, bcrypt, the JWT and OAuth packages, the template engine,
  the mail service, the payment package, the pagination of the query library, the package manager, the
  operating system under a task script (processes, sockets, \<open>criu\<close>), the clock and random ids. Hypotheses
  on them are documented behaviour (a page holds only rows of the list; what is signed verifies).

  \<^bold>\<open>Not modelled.\<close> The wiring of modules and the dependency injection, the decorators of the API documentation and of
  the generated DTOs, logging and health checks, the start of the HTTP server apart from the versions of the API
  (\<open>src/bootstrap.ts\<close>), the soft-delete package (its reach is a parameter), the texts of the prompts, code that is
  commented out or follows a \<open>return\<close>, test data and end-to-end tests. These either keep no state of the program
  or are configuration of libraries whose code is not in the repository.
\<close>

section \<open>Adaptors behind the chain\<close>

text \<open>C7. A first call of an endpoint that is authorised and not served from the cache either fails, or: behind the
  REST adaptor it is answered with data and no processor is left; behind the email adaptor its
  response is pending and the invocation waits at the callback postprocessor for the reply.\<close>

theorem calls_answer_or_wait:
  assumes "lookup_ok e st en" and "is_processor st = None"
    and "realm_fun env ''checkSepAuth'' = Some fn" and "fn en w e = (w1, e1, Inr None)"
    and "fromCached (eval_key env) (is_invokeId st) en e1 (sw_now w1) (sw_cache w1) = (db, Inr h)" and "h_response h = None"
    and "chain env q w e st = (w', e', st', Inr r)"
  shows "(get_adaptor env (en_adaptorKey en) = Some (rest_adaptor client) \<longrightarrow>
       (\<exists>d. r = Some (data_response d) \<and> at_processor None None st')) \<and>
     (get_adaptor env (en_adaptorKey en) = Some (email_adaptor menv) \<longrightarrow>
       is_pending r \<and> at_processor (Some ''CallbackPostprocess'') None st')"
  using rest_calls.never_waits [OF assms(1-6) _ assms(7)] mail_calls.always_waits [OF assms(1-6) _ assms(7)] by blast

definition ex_rest_env :: "mail_world sep_env" where
  "ex_rest_env = (plain_env None None)\<lparr>get_adaptor := (\<lambda>_. Some (rest_adaptor ex_third_party)), find_entry := (\<lambda>_. Some (JObj [(''host'', JStr ''http://pets.io'')]))\<rparr>"

definition ex_rest_event :: req_event where
  "ex_rest_event = (ex_request ''e1'')\<lparr>ev_ctx := Some (ex_ctx\<lparr>cx_endpoints := [CachedStore.ex_endpoint False (Some (- 1))], cx_req := JObj []\<rparr>)\<rparr>"

theorem calls_answer_or_wait_witness:
  "\<exists>w' e' st' d. chain ex_rest_env (\<lambda>_ w. w) (ex_mail_world 201) ex_rest_event (fresh_status [] (Some ''GET /pets'') None) =
     (w', e', st', Inr (Some (data_response d))) \<and> at_processor None None st'"
proof -
  let ?en = "CachedStore.ex_endpoint False (Some (- 1))" and ?st = "fresh_status [] (Some ''GET /pets'') None" and ?w = "ex_mail_world 201"
  have look: "lookup_ok ex_rest_event ?st ?en"
    by (simp add: lookup_ok_def ex_rest_event_def CachedStore.ex_endpoint_def fresh_status_def)
  have new: "is_processor ?st = None" by (simp add: fresh_status_def)
  have auth: "realm_fun ex_rest_env ''checkSepAuth'' = Some (\<lambda>en w e. (w, e, Inr None))" by (simp add: ex_rest_env_def plain_env_def)
  have miss: "fromCached (eval_key ex_rest_env) i ?en e t db = (db, Inr \<lparr>h_cacheKey = None, h_cacheTtl = None, h_response = None\<rparr>)" for i e t db
    by (simp add: fromCached_def loadCacheConfig_def reallyCache_def CachedStore.ex_endpoint_def)
  have ad: "get_adaptor ex_rest_env k = Some (rest_adaptor ex_third_party)" for k by (simp add: ex_rest_env_def)
  obtain j where j: "restInvoke ex_third_party (Some ''http://pets.io'') ex_rest_event = Inr j"
    by (simp add: restInvoke_def ctx_of_def ex_rest_event_def axios_config_def obj_entries_def json_at_def ex_third_party_def)
  have ent: "find_entry ex_rest_env i = Some (JObj [(''host'', JStr ''http://pets.io'')])" for i by (simp add: ex_rest_env_def)
  have "\<exists>w' e' st' r. chain ex_rest_env (\<lambda>_ w. w) ?w ex_rest_event ?st = (w', e', st', Inr r)"
    unfolding chain_lookup [OF look] invoke_chain_def
    using new auth miss ad j
    by (simp add: process_auth_def process_cached_def process_invoke_def process_postprocess_def process_cache_def rest_adaptor_def ent
        proc_ctx_def enter_proc_def is_at_def advance_def sep_end_def upd_proc_def Let_def str_at_def json_at_def toCache_def reallyCache_def
        fresh_status_def)
  then obtain w' e' st' r where run: "chain ex_rest_env (\<lambda>_ w. w) ?w ex_rest_event ?st = (w', e', st', Inr r)" by blast
  from calls_answer_or_wait [OF look new auth refl miss _ run, of ex_third_party] ad run show ?thesis by fastforce
qed

end
